(* ===== verification/Prelude.thy ===== *)
theory Prelude
  imports Main "HOL-Library.Sublist" "HOL-Library.Code_Target_Nat"
begin

text \<open>
  Shared vocabulary of the development: results of fallible code, the early-return checks the
  Rust sources write with \<open>?\<close>, the part of \<open>str\<close> and of the standard collections the
  sources use, and the generic lemmas the component theories rely on.  A Rust \<open>String\<close> is its
  UTF-8 byte sequence, here a \<^typ>\<open>string\<close>; so \<^const>\<open>length\<close> is Rust's \<open>len()\<close>.
  A \<open>BTreeMap\<close> (and a \<open>serde_json::Map\<close>, which is one) is the association list of its
  entries in key order.
\<close>

named_theorems result_simps \<open>when a sequence of checks succeeds\<close>

section \<open>Fallible code\<close>

type_synonym ('e, 'a) result = "'e + 'a"

text \<open>\<^term>\<open>Inl e\<close> is \<open>Err(e)\<close>, \<^term>\<open>Inr x\<close> is \<open>Ok(x)\<close>; \<open>rbind\<close> is the
  early return of \<open>?\<close>.\<close>

definition rbind :: "('e, 'a) result \<Rightarrow> ('a \<Rightarrow> ('e, 'b) result) \<Rightarrow> ('e, 'b) result" where
  "rbind m f = (case m of Inl e \<Rightarrow> Inl e | Inr x \<Rightarrow> f x)"

definition is_ok :: "('e, 'a) result \<Rightarrow> bool" where
  "is_ok r = (case r of Inl _ \<Rightarrow> False | Inr _ \<Rightarrow> True)"

text \<open>\<open>if !condition { return Err(e) }\<close>\<close>

definition require :: "bool \<Rightarrow> 'e \<Rightarrow> ('e, unit) result" where
  "require b e = (if b then Inr () else Inl e)"

text \<open>\<open>option.ok_or(e)\<close>\<close>

definition ok_or :: "'a option \<Rightarrow> 'e \<Rightarrow> ('e, 'a) result" where
  "ok_or x e = (case x of None \<Rightarrow> Inl e | Some v \<Rightarrow> Inr v)"

text \<open>Consecutive checks: the first failing one is the result.\<close>

fun all_ok :: "('e, unit) result list \<Rightarrow> ('e, unit) result" where
  "all_ok [] = Inr ()"
| "all_ok (r # rs) = (case r of Inl e \<Rightarrow> Inl e | Inr _ \<Rightarrow> all_ok rs)"

text \<open>\<open>for x in xs { f(x)?; }\<close>\<close>

fun for_each :: "('a \<Rightarrow> ('e, unit) result) \<Rightarrow> 'a list \<Rightarrow> ('e, unit) result" where
  "for_each f [] = Inr ()"
| "for_each f (x # xs) = (case f x of Inl e \<Rightarrow> Inl e | Inr _ \<Rightarrow> for_each f xs)"

text \<open>\<open>xs.iter().map(f).collect::<Result<Vec<_>, _>>()\<close>\<close>

fun map_ok :: "('a \<Rightarrow> ('e, 'b) result) \<Rightarrow> 'a list \<Rightarrow> ('e, 'b list) result" where
  "map_ok f [] = Inr []"
| "map_ok f (x # xs) =
     (case f x of Inl e \<Rightarrow> Inl e
      | Inr y \<Rightarrow> (case map_ok f xs of Inl e \<Rightarrow> Inl e | Inr ys \<Rightarrow> Inr (y # ys)))"

lemma rbind_simps [simp]:
  "rbind (Inl e) f = Inl e"
  "rbind (Inr x) f = f x"
  by (simp_all add: rbind_def)

lemma rbind_Inr [result_simps]: "rbind m f = Inr y \<longleftrightarrow> (\<exists>x. m = Inr x \<and> f x = Inr y)"
  by (auto simp: rbind_def split: sum.splits)

lemma rbind_Inl: "rbind m f = Inl e \<longleftrightarrow> m = Inl e \<or> (\<exists>x. m = Inr x \<and> f x = Inl e)"
  by (auto simp: rbind_def split: sum.splits)

lemma is_ok_simps [simp]: "is_ok (Inl e) = False" "is_ok (Inr x) = True"
  by (simp_all add: is_ok_def)

lemma is_ok_unit: "is_ok r \<longleftrightarrow> r = Inr ()"
  by (auto simp: is_ok_def split: sum.splits)

lemma require_Inr [result_simps, simp]: "require b e = Inr u \<longleftrightarrow> b"
  by (simp add: require_def)

lemma require_Inl [simp]: "require b e = Inl e' \<longleftrightarrow> \<not> b \<and> e' = e"
  by (auto simp: require_def)

lemma ok_or_simps [simp]: "ok_or (Some v) e = Inr v" "ok_or None e = Inl e"
  by (simp_all add: ok_or_def)

lemma ok_or_Inr [result_simps, simp]: "ok_or x e = Inr v \<longleftrightarrow> x = Some v"
  by (auto simp: ok_or_def split: option.splits)

lemma all_ok_Inr [result_simps]: "all_ok rs = Inr u \<longleftrightarrow> (\<forall>r \<in> set rs. r = Inr ())"
  by (induction rs) (auto split: sum.splits)

lemma for_each_Inr [result_simps]: "for_each f xs = Inr u \<longleftrightarrow> (\<forall>x \<in> set xs. f x = Inr ())"
  by (induction xs) (auto split: sum.splits)

lemma all_ok_Cons [simp]: "all_ok (r # rs) = Inr u \<longleftrightarrow> r = Inr () \<and> all_ok rs = Inr ()"
  by (auto split: sum.splits)

lemma for_each_Cons [simp]:
  "for_each f (x # xs) = Inr u \<longleftrightarrow> f x = Inr () \<and> for_each f xs = Inr ()"
  by (auto split: sum.splits)

text \<open>A run of checks is analysed by the rules above, not by unfolding it.\<close>

declare all_ok.simps(2) [simp del] for_each.simps(2) [simp del]

lemma map_ok_Inr [result_simps]: "map_ok f xs = Inr ys \<longleftrightarrow> list_all2 (\<lambda>x y. f x = Inr y) xs ys"
proof (induction xs arbitrary: ys)
  case (Cons x xs)
  show ?case
    by (cases ys; cases "f x"; cases "map_ok f xs") (auto simp: Cons.IH [symmetric])
qed auto

lemma map_ok_Inl: "map_ok f xs = Inl e \<Longrightarrow> \<exists>x \<in> set xs. f x = Inl e"
  by (induction xs) (auto split: sum.splits)

lemma for_each_cong [fundef_cong]:
  "xs = ys \<Longrightarrow> (\<And>x. x \<in> set ys \<Longrightarrow> f x = g x) \<Longrightarrow> for_each f xs = for_each g ys"
  by (induction ys arbitrary: xs) (auto simp: for_each.simps split: sum.splits)

lemma map_ok_cong [fundef_cong]:
  "xs = ys \<Longrightarrow> (\<And>x. x \<in> set ys \<Longrightarrow> f x = g x) \<Longrightarrow> map_ok f xs = map_ok g ys"
  by (induction ys arbitrary: xs) (auto split: sum.splits)

lemma rbind_cong [fundef_cong]:
  "m = m' \<Longrightarrow> (\<And>x. m' = Inr x \<Longrightarrow> f x = g x) \<Longrightarrow> rbind m f = rbind m' g"
  by (auto simp: rbind_def split: sum.splits)

section \<open>Ordered maps\<close>

type_synonym 'a btree_map = "(string \<times> 'a) list"

definition keys :: "'a btree_map \<Rightarrow> string list" where
  "keys m = map fst m"

definition vals :: "'a btree_map \<Rightarrow> 'a list" where
  "vals m = map snd m"

definition has_key :: "'a btree_map \<Rightarrow> string \<Rightarrow> bool" where
  "has_key m k = (k \<in> set (keys m))"

text \<open>The byte-wise order of \<open>str\<close>, and insertion into a map kept in that order.\<close>

fun str_less :: "string \<Rightarrow> string \<Rightarrow> bool" where
  "str_less [] [] = False"
| "str_less [] (_ # _) = True"
| "str_less (_ # _) [] = False"
| "str_less (a # as) (b # bs) =
     (if (of_char a :: nat) < of_char b then True
      else if (of_char b :: nat) < of_char a then False
      else str_less as bs)"

fun map_insert :: "string \<Rightarrow> 'a \<Rightarrow> 'a btree_map \<Rightarrow> 'a btree_map" where
  "map_insert k v [] = [(k, v)]"
| "map_insert k v ((k', v') # m) =
     (if k = k' then (k, v) # m
      else if str_less k k' then (k, v) # (k', v') # m
      else (k', v') # map_insert k v m)"

lemma map_of_map_insert [simp]: "map_of (map_insert k v m) = (map_of m)(k \<mapsto> v)"
  by (induction m) (auto simp: fun_eq_iff)

lemma set_keys_map_insert [simp]: "set (keys (map_insert k v m)) = insert k (set (keys m))"
proof (induction m)
  case (Cons e m)
  then show ?case by (cases e) (simp add: keys_def insert_commute)
qed (simp add: keys_def)

lemma has_key_map_of: "has_key m k \<longleftrightarrow> map_of m k \<noteq> None"
  by (auto simp: has_key_def keys_def map_of_eq_None_iff)

lemma in_vals: "v \<in> set (vals m) \<longleftrightarrow> (\<exists>k. (k, v) \<in> set m)"
  by (force simp: vals_def)

section \<open>Strings\<close>

abbreviation byte :: "char \<Rightarrow> nat" where
  "byte c \<equiv> of_char c"

definition is_ascii_lowercase :: "char \<Rightarrow> bool" where
  "is_ascii_lowercase c = (97 \<le> byte c \<and> byte c \<le> 122)"

definition is_ascii_uppercase :: "char \<Rightarrow> bool" where
  "is_ascii_uppercase c = (65 \<le> byte c \<and> byte c \<le> 90)"

definition is_ascii_digit :: "char \<Rightarrow> bool" where
  "is_ascii_digit c = (48 \<le> byte c \<and> byte c \<le> 57)"

definition is_ascii_alphanumeric :: "char \<Rightarrow> bool" where
  "is_ascii_alphanumeric c = (is_ascii_lowercase c \<or> is_ascii_uppercase c \<or> is_ascii_digit c)"

definition to_ascii_lowercase :: "string \<Rightarrow> string" where
  "to_ascii_lowercase s = map (\<lambda>c. if is_ascii_uppercase c then char_of (byte c + 32) else c) s"

fun starts_with :: "string \<Rightarrow> string \<Rightarrow> bool" where
  "starts_with s [] = True"
| "starts_with [] (_ # _) = False"
| "starts_with (c # s) (p # ps) = (c = p \<and> starts_with s ps)"

text \<open>\<open>Path::is_absolute\<close> on Unix.\<close>

definition is_absolute :: "string \<Rightarrow> bool" where
  "is_absolute s = starts_with s ''/''"

fun contains_str :: "string \<Rightarrow> string \<Rightarrow> bool" where
  "contains_str [] needle = (needle = [])"
| "contains_str (c # s) needle = (starts_with (c # s) needle \<or> contains_str s needle)"

text \<open>\<open>s.split_once(c)\<close>, \<open>s.rsplit_once(c)\<close> and \<open>s.split(c)\<close> for an ASCII character.\<close>

fun split_once :: "char \<Rightarrow> string \<Rightarrow> (string \<times> string) option" where
  "split_once c [] = None"
| "split_once c (d # s) =
     (if d = c then Some ([], s)
      else map_option (\<lambda>(a, b). (d # a, b)) (split_once c s))"

definition rsplit_once :: "char \<Rightarrow> string \<Rightarrow> (string \<times> string) option" where
  "rsplit_once c s = map_option (\<lambda>(a, b). (rev b, rev a)) (split_once c (rev s))"

fun split_on :: "char \<Rightarrow> string \<Rightarrow> string list" where
  "split_on c [] = [[]]"
| "split_on c (d # s) =
     (if d = c then [] # split_on c s
      else (case split_on c s of [] \<Rightarrow> [[d]] | p # ps \<Rightarrow> (d # p) # ps))"

text \<open>\<open>[String]::join\<close>\<close>

fun join_str :: "string \<Rightarrow> string list \<Rightarrow> string" where
  "join_str sep [] = []"
| "join_str sep [s] = s"
| "join_str sep (s # ss) = s @ sep @ join_str sep ss"

text \<open>\<open>str::trim\<close> removes Unicode white space: the UTF-8 encodings of the characters with the
  property White\_Space.\<close>

definition white_space :: "string list" where
  "white_space =
     map (\<lambda>bs. map char_of bs)
       ([[9], [10], [11], [12], [13], [32], [194, 133], [194, 160], [225, 154, 128],
         [226, 128, 168], [226, 128, 169], [226, 128, 175], [226, 129, 159], [227, 128, 128]]
        @ map (\<lambda>n. [226, 128, 128 + n]) [0 ..< 11] :: nat list list)"

definition leading_space :: "string list \<Rightarrow> string \<Rightarrow> nat option" where
  "leading_space ws s = map_option length (find (\<lambda>w. w \<noteq> [] \<and> starts_with s w) ws)"

function strip_front :: "string list \<Rightarrow> string \<Rightarrow> string" where
  "strip_front ws s = (case leading_space ws s of None \<Rightarrow> s | Some n \<Rightarrow> strip_front ws (drop n s))"
  by pat_completeness auto

lemma starts_with_prefix: "starts_with s p \<longleftrightarrow> prefix p s"
  by (induction s p rule: starts_with.induct) auto

lemma leading_space_pos: "leading_space ws s = Some n \<Longrightarrow> 0 < n \<and> s \<noteq> []"
  by (auto simp: leading_space_def find_Some_iff starts_with_prefix)

termination strip_front
  by (relation "measure (\<lambda>(ws, s). length s)") (auto dest: leading_space_pos)

declare strip_front.simps [simp del]

definition trim :: "string \<Rightarrow> string" where
  "trim s = rev (strip_front (map rev white_space) (rev (strip_front white_space s)))"

definition blank :: "string \<Rightarrow> bool" where
  "blank s = (trim s = [])"

lemma strip_front_Nil [simp]: "strip_front ws [] = []"
  using leading_space_pos [of ws "[]"] by (subst strip_front.simps) (auto split: option.splits)

lemma blank_Nil [simp]: "blank []"
  by (simp add: blank_def trim_def)

text \<open>\<open>str::parse::<u64>()\<close> (and \<open>usize\<close> on 64-bit targets): an optional plus sign, at least
  one digit, no overflow.\<close>

definition digit_value :: "char \<Rightarrow> nat" where
  "digit_value c = byte c - 48"

definition digits_value :: "string \<Rightarrow> nat" where
  "digits_value s = foldl (\<lambda>n c. 10 * n + digit_value c) 0 s"

definition parse_unsigned :: "nat \<Rightarrow> string \<Rightarrow> nat option" where
  "parse_unsigned bound s =
     (let ds = (case s of [] \<Rightarrow> [] | c # r \<Rightarrow> if c = CHR ''+'' then r else s)
      in if ds \<noteq> [] \<and> list_all is_ascii_digit ds \<and> digits_value ds < bound
         then Some (digits_value ds) else None)"

definition parse_u64 :: "string \<Rightarrow> nat option" where
  "parse_u64 = parse_unsigned (2 ^ 64)"

definition u32_max :: nat where "u32_max = 2 ^ 32 - 1"

definition parse_u32 :: "string \<Rightarrow> nat option" where
  "parse_u32 = parse_unsigned (2 ^ 32)"

text \<open>Decimal text of a natural number, as \<open>format!\<close> prints it.\<close>

fun show_nat :: "nat \<Rightarrow> string" where
  "show_nat n =
     (if n < 10 then [char_of (48 + n)] else show_nat (n div 10) @ [char_of (48 + n mod 10)])"

declare show_nat.simps [simp del]

lemma parse_unsigned_bound: "parse_unsigned b s = Some n \<Longrightarrow> n < b"
  by (auto simp: parse_unsigned_def Let_def split: if_splits)

text \<open>The format \<open>{:x}\<close> of bytes.\<close>

definition hex_nibble :: "nat \<Rightarrow> char" where
  "hex_nibble n = ''0123456789abcdef'' ! (n mod 16)"

definition hex_lower :: "string \<Rightarrow> string" where
  "hex_lower s = concat (map (\<lambda>c. [hex_nibble (of_char c div 16), hex_nibble (of_char c)]) s)"

lemma split_once_append:
  "split_once c s = Some (a, b) \<Longrightarrow> s = a @ c # b \<and> c \<notin> set a"
  by (induction s arbitrary: a b) (auto split: if_splits)

lemma split_once_None: "split_once c s = None \<longleftrightarrow> c \<notin> set s"
  by (induction s) auto

lemma split_once_first: "c \<notin> set a \<Longrightarrow> split_once c (a @ c # b) = Some (a, b)"
  by (induction a) auto

lemma split_on_nonempty [simp]: "split_on c s \<noteq> []"
  by (induction s) (auto split: list.splits)

lemma hd_split_on: "hd (split_on c s) = (case split_once c s of None \<Rightarrow> s | Some (a, _) \<Rightarrow> a)"
  by (induction s) (auto split: list.splits option.splits)

section \<open>Sorted maps\<close>

lemma str_less_trans: "str_less a b \<Longrightarrow> str_less b c \<Longrightarrow> str_less a c"
proof (induction a b arbitrary: c rule: str_less.induct)
  case (4 a as b bs)
  then show ?case by (cases c) (auto split: if_splits)
qed (auto elim: str_less.elims)

lemma str_less_total: "a \<noteq> b \<Longrightarrow> str_less a b \<or> str_less b a"
  by (induction a b rule: str_less.induct) (auto simp: not_less)

lemma str_less_asym: "str_less a b \<Longrightarrow> \<not> str_less b a"
  by (induction a b rule: str_less.induct) (auto split: if_splits)

lemma str_less_irrefl [simp]: "\<not> str_less a a"
  using str_less_asym by blast

lemma str_less_Nil: "str_less [] a \<longleftrightarrow> a \<noteq> []"
  by (cases a) auto

lemma sorted_wrt_unique:
  assumes "asymp lt" and "sorted_wrt lt xs" and "sorted_wrt lt ys" and "set xs = set ys"
  shows "xs = ys"
  using assms(2-4)
proof (induction xs arbitrary: ys)
  case (Cons x xs)
  then obtain y zs where ys: "ys = y # zs" by (cases ys) auto
  have irr: "\<not> lt z z" for z using asympD [OF assms(1)] by blast
  have "x = y"
  proof (rule ccontr)
    assume "x \<noteq> y"
    with Cons.prems ys have "lt y x" "lt x y" by auto
    with asympD [OF assms(1)] show False by blast
  qed
  moreover have "set xs = set zs" using Cons.prems irr unfolding ys \<open>x = y\<close>
    by (simp add: set_eq_iff) metis
  ultimately show ?case using Cons.IH [of zs] Cons.prems ys by simp
qed simp

lemma sorted_map_insert:
  "sorted_wrt str_less (keys m) \<Longrightarrow> sorted_wrt str_less (keys (map_insert k v m))"
proof (induction m)
  case (Cons e m)
  obtain k' v' where e: "e = (k', v')" by (cases e)
  from Cons have IH: "sorted_wrt str_less (keys (map_insert k v m))" by (simp add: keys_def)
  have "str_less k' x" if "k \<noteq> k'" "\<not> str_less k k'" "x \<in> set (keys (map_insert k v m))" for x
    using that(1,2) Cons.prems str_less_total [of k k'] that(3) [unfolded set_keys_map_insert] by (auto simp: e keys_def)
  with Cons.prems IH show ?case
    by (auto simp: e keys_def intro: str_less_trans)
qed (simp add: keys_def)

lemma sorted_keys_distinct: "sorted_wrt str_less (keys m) \<Longrightarrow> distinct (map fst m)"
  by (induction m) (force simp: keys_def)+

lemma sorted_maps_eq:
  assumes "sorted_wrt str_less (keys m)" and "sorted_wrt str_less (keys n)" and "map_of m = map_of n"
  shows "m = n"
proof -
  have "sorted_wrt (\<lambda>a b. str_less (fst a) (fst b)) l" if "sorted_wrt str_less (keys l)" for l :: "'a btree_map"
    using that by (simp add: keys_def sorted_wrt_map)
  moreover have "set m = set n"
    using map_of_inject_set [OF sorted_keys_distinct [OF assms(1)] sorted_keys_distinct [OF assms(2)]] assms(3)
    by simp
  moreover have "asymp (\<lambda>a b :: string \<times> 'a. str_less (fst a) (fst b))"
    by (auto simp: asymp_on_def dest: str_less_asym)
  ultimately show ?thesis using assms sorted_wrt_unique by metis
qed

section \<open>Counting and uniqueness\<close>

lemma ex_enumerate: "x \<in> set xs \<Longrightarrow> \<exists>i. (i, x) \<in> set (enumerate 0 xs)"
  unfolding in_set_enumerate_eq by (force simp: in_set_conv_nth)

lemma distinct_map_filter: "distinct (map f xs) \<Longrightarrow> distinct (map f (filter P xs))"
  by (induction xs) auto

lemma find_distinct:
  "distinct (map f xs) \<Longrightarrow> x \<in> set xs \<Longrightarrow> find (\<lambda>y. f y = f x) xs = Some x"
proof (induction xs)
  case (Cons y ys)
  then show ?case by (cases "x = y") (auto simp: rev_image_eqI)
qed simp

end
