(* ===== verification/Json.thy ===== *)
theory Json
  imports Prelude Complex_Main
begin

text \<open>
  The data every component exchanges: \<open>serde_json::Value\<close> with the constructors the sources
  match on, its accessors, its equality, and the \<open>f64\<close> arithmetic the expression language
  performs on its numbers.  A finite \<open>f64\<close> is the rational number it denotes (with the negative
  zero kept apart); an operation rounds its exact rational result to 53 significant bits, ties to
  even, with the exponent range of binary64.  \<open>None\<close> as the result of an operation stands for
  the infinities and not-a-number, which the sources reject.
\<close>

section \<open>Values\<close>

datatype f64 = F64 rat | NegZero

datatype json_number = PosInt nat | NegInt int | Float f64

datatype json =
    JNull
  | JBool bool
  | JNumber json_number
  | JString string
  | JArray "json list"
  | JObject "(string \<times> json) list"

type_synonym json_map = "(string \<times> json) list"

fun as_u64 :: "json \<Rightarrow> nat option" where
  "as_u64 (JNumber (PosInt n)) = Some n"
| "as_u64 _ = None"

fun as_i64 :: "json \<Rightarrow> int option" where
  "as_i64 (JNumber (PosInt n)) = (if n < 2 ^ 63 then Some (int n) else None)"
| "as_i64 (JNumber (NegInt i)) = Some i"
| "as_i64 _ = None"

fun as_str :: "json \<Rightarrow> string option" where
  "as_str (JString s) = Some s"
| "as_str _ = None"

fun as_bool :: "json \<Rightarrow> bool option" where
  "as_bool (JBool b) = Some b"
| "as_bool _ = None"

fun as_array :: "json \<Rightarrow> json list option" where
  "as_array (JArray xs) = Some xs"
| "as_array _ = None"

fun as_object :: "json \<Rightarrow> json_map option" where
  "as_object (JObject m) = Some m"
| "as_object _ = None"

definition is_null :: "json \<Rightarrow> bool" where "is_null v = (v = JNull)"
definition is_string :: "json \<Rightarrow> bool" where "is_string v = (as_str v \<noteq> None)"
definition is_boolean :: "json \<Rightarrow> bool" where "is_boolean v = (as_bool v \<noteq> None)"
definition is_object :: "json \<Rightarrow> bool" where "is_object v = (as_object v \<noteq> None)"
definition is_array :: "json \<Rightarrow> bool" where "is_array v = (as_array v \<noteq> None)"

text \<open>\<open>value.get(key)\<close> is \<open>None\<close> on anything but an object.\<close>

definition get_key :: "json \<Rightarrow> string \<Rightarrow> json option" where
  "get_key v k = (case as_object v of None \<Rightarrow> None | Some m \<Rightarrow> map_of m k)"

lemma as_str_Some [simp]: "as_str v = Some s \<longleftrightarrow> v = JString s"
  by (cases v) auto

lemma as_bool_Some [simp]: "as_bool v = Some b \<longleftrightarrow> v = JBool b"
  by (cases v) auto

lemma as_array_Some [simp]: "as_array v = Some xs \<longleftrightarrow> v = JArray xs"
  by (cases v) auto

lemma as_object_Some [simp]: "as_object v = Some m \<longleftrightarrow> v = JObject m"
  by (cases v) auto

lemma as_u64_Some [simp]: "as_u64 v = Some n \<longleftrightarrow> v = JNumber (PosInt n)"
  by (cases v rule: as_u64.cases) auto

section \<open>Equality\<close>

text \<open>\<open>Value: PartialEq\<close>: integers and floats are never equal to each other, and the two zeros
  of \<open>f64\<close> are.\<close>

fun f64_rat :: "f64 \<Rightarrow> rat" where
  "f64_rat (F64 q) = q"
| "f64_rat NegZero = 0"

fun number_eq :: "json_number \<Rightarrow> json_number \<Rightarrow> bool" where
  "number_eq (PosInt m) (PosInt n) = (m = n)"
| "number_eq (NegInt i) (NegInt j) = (i = j)"
| "number_eq (Float x) (Float y) = (f64_rat x = f64_rat y)"
| "number_eq _ _ = False"

fun json_eq :: "json \<Rightarrow> json \<Rightarrow> bool"
and json_list_eq :: "json list \<Rightarrow> json list \<Rightarrow> bool"
and json_map_eq :: "json_map \<Rightarrow> json_map \<Rightarrow> bool" where
  "json_eq JNull JNull = True"
| "json_eq (JBool a) (JBool b) = (a = b)"
| "json_eq (JNumber m) (JNumber n) = number_eq m n"
| "json_eq (JString s) (JString t) = (s = t)"
| "json_eq (JArray xs) (JArray ys) = json_list_eq xs ys"
| "json_eq (JObject m) (JObject n) = json_map_eq m n"
| "json_eq _ _ = False"
| "json_list_eq [] [] = True"
| "json_list_eq (x # xs) (y # ys) = (json_eq x y \<and> json_list_eq xs ys)"
| "json_list_eq _ _ = False"
| "json_map_eq [] [] = True"
| "json_map_eq ((k, v) # m) ((l, w) # n) = (k = l \<and> json_eq v w \<and> json_map_eq m n)"
| "json_map_eq _ _ = False"

lemma number_eq_refl [simp]: "number_eq n n"
  by (cases n) auto

lemma number_eq_sym: "number_eq m n = number_eq n m"
  by (cases "(m, n)" rule: number_eq.cases) auto

lemma number_eq_trans: "number_eq l m \<Longrightarrow> number_eq m n \<Longrightarrow> number_eq l n"
  by (cases l; cases m; cases n) auto

lemma json_eq_refl_all:
  "json_eq v v \<and> json_list_eq xs xs \<and> json_map_eq m m"
proof -
  have "(\<forall>v \<in> set xs. json_eq v v) \<Longrightarrow> json_list_eq xs xs" for xs
    by (induction xs) auto
  moreover have "(\<forall>v \<in> snd ` set m. json_eq v v) \<Longrightarrow> json_map_eq m m" for m
    by (induction m) auto
  moreover have "json_eq v v" for v
    by (induction v) (use calculation in \<open>force simp: snds.simps\<close>)+
  ultimately show ?thesis by blast
qed

lemma json_eq_sym:
  shows "json_eq v w \<Longrightarrow> json_eq w v"
    and "json_list_eq xs ys \<Longrightarrow> json_list_eq ys xs"
    and "json_map_eq m n \<Longrightarrow> json_map_eq n m"
  by (induction v w and xs ys and m n rule: json_eq_json_list_eq_json_map_eq.induct)
    (auto simp: number_eq_sym)

section \<open>Arithmetic\<close>

fun bit_length :: "nat \<Rightarrow> nat" where
  "bit_length n = (if n = 0 then 0 else Suc (bit_length (n div 2)))"

declare bit_length.simps [simp del]

definition pow2 :: "int \<Rightarrow> rat" where
  "pow2 e = (if 0 \<le> e then 2 ^ nat e else 1 / 2 ^ nat (- e))"

definition round_half_even :: "rat \<Rightarrow> int" where
  "round_half_even q =
     (let f = \<lfloor>q\<rfloor>; r = q - of_int f
      in if r < 1 / 2 then f else if 1 / 2 < r then f + 1 else if even f then f else f + 1)"

text \<open>The number \<open>l\<close> of bits of the integer part of a positive rational: \<open>2^(l-1) \<le> q < 2^l\<close>.\<close>

definition magnitude :: "rat \<Rightarrow> int" where
  "magnitude q =
     (let (a, b) = quotient_of q; k = int (bit_length (nat a)) - int (bit_length (nat b))
      in if q < pow2 k then k else k + 1)"

text \<open>The exponent of the last bit of the significand.\<close>

definition ulp_exp :: "rat \<Rightarrow> int" where
  "ulp_exp q = max (magnitude \<bar>q\<bar> - 53) (- 1074)"

definition round64 :: "rat \<Rightarrow> rat option" where
  "round64 q =
     (if q = 0 then Some 0
      else let r = of_int (round_half_even (q / pow2 (ulp_exp q))) * pow2 (ulp_exp q)
           in if \<bar>r\<bar> < pow2 1024 then Some r else None)"

text \<open>\<open>Value::as_f64\<close>; converting an integer rounds it, which never overflows.\<close>

fun number_f64 :: "json_number \<Rightarrow> rat option" where
  "number_f64 (PosInt n) = round64 (of_nat n)"
| "number_f64 (NegInt i) = round64 (of_int i)"
| "number_f64 (Float x) = Some (f64_rat x)"

text \<open>The remainder of the truncated quotient, Rust's \<open>%\<close> on floats, which is exact.\<close>

definition trunc_rat :: "rat \<Rightarrow> int" where
  "trunc_rat q = (if 0 \<le> q then \<lfloor>q\<rfloor> else \<lceil>q\<rceil>)"

definition f64_rem :: "rat \<Rightarrow> rat \<Rightarrow> rat" where
  "f64_rem a b = a - b * of_int (trunc_rat (a / b))"

lemma bit_length_le_iff: "bit_length n \<le> k \<longleftrightarrow> n < 2 ^ k"
proof (induction n arbitrary: k rule: bit_length.induct)
  case (1 n)
  show ?case
  proof (cases "n = 0")
    case False
    then have unfold: "bit_length n = Suc (bit_length (n div 2))"
      by (subst bit_length.simps) simp
    show ?thesis
    proof (cases k)
      case 0
      with False unfold show ?thesis by simp
    next
      case (Suc j)
      have "bit_length (n div 2) \<le> j \<longleftrightarrow> n div 2 < 2 ^ j"
        using "1" False by simp
      also have "\<dots> \<longleftrightarrow> n < 2 ^ Suc j"
        using div_less_iff_less_mult [of 2 n "2 ^ j"] by (simp add: mult.commute)
      finally show ?thesis by (simp add: unfold Suc)
    qed
  qed (simp add: bit_length.simps)
qed

lemma bit_length_one [simp]: "bit_length (Suc 0) = 1" "bit_length 1 = 1"
  by (simp_all add: bit_length.simps)

lemma pow2_pos [simp]: "0 < pow2 e"
  by (simp add: pow2_def)

lemma pow2_nat [simp]: "pow2 (int n) = 2 ^ n"
  by (simp add: pow2_def)

lemma round_half_even_int [simp]: "round_half_even (of_int n) = n"
  by (simp add: round_half_even_def Let_def)

lemma round_half_even_near: "\<bar>of_int (round_half_even q) - q\<bar> \<le> 1 / 2"
proof -
  have "of_int \<lfloor>q\<rfloor> \<le> q" "q < of_int \<lfloor>q\<rfloor> + 1" by linarith+
  then show ?thesis
    by (auto simp: round_half_even_def Let_def abs_le_iff)
qed

lemma magnitude_of_nat:
  assumes "0 < n" shows "magnitude (of_nat n) = int (bit_length n)"
proof -
  have q: "quotient_of (of_nat n :: rat) = (int n, 1)"
    by simp
  have "bit_length n \<noteq> 0"
    using assms bit_length_le_iff [of n 0] by simp
  then obtain k where k: "bit_length n = Suc k" by (cases "bit_length n") auto
  then have "\<not> n < 2 ^ k"
    using bit_length_le_iff [of n k] by simp
  then have "\<not> (of_nat n :: rat) < 2 ^ k"
    by (metis of_nat_less_iff of_nat_numeral of_nat_power)
  then show ?thesis
    by (simp add: magnitude_def q k)
qed

lemma round64_exact_scaled:
  assumes "q \<noteq> 0" and "q / pow2 (ulp_exp q) = of_int m" and "\<bar>q\<bar> < pow2 1024"
  shows "round64 q = Some q"
proof -
  have "q = of_int m * pow2 (ulp_exp q)"
    using assms(2) pow2_pos [of "ulp_exp q"] by (simp add: field_simps)
  then have "of_int (round_half_even (q / pow2 (ulp_exp q))) * pow2 (ulp_exp q) = q"
    using assms(2) by simp
  with assms(1,3) show ?thesis
    by (simp add: round64_def Let_def)
qed

text \<open>Integers of at most 53 bits are exact, so arithmetic on them is the arithmetic of the
  integers as long as results stay in that range.\<close>

lemma round64_int:
  assumes "\<bar>n\<bar> \<le> 2 ^ 53"
  shows "round64 (of_int n) = Some (of_int n)"
proof (cases "n = 0")
  case False
  define a where "a = nat \<bar>n\<bar>"
  have a: "0 < a" "a \<le> 2 ^ 53" "\<bar>of_int n :: rat\<bar> = of_nat a"
    using False assms by (auto simp: a_def of_nat_nat)
  have ulp: "ulp_exp (of_int n) = max (int (bit_length a) - 53) (- 1074)"
    using a by (simp add: magnitude_of_nat ulp_exp_def)
  have big: "\<bar>of_int n :: rat\<bar> < pow2 1024"
  proof -
    have "(of_nat a :: rat) \<le> 2 ^ 53"
      using a(2) by (metis of_nat_le_iff of_nat_numeral of_nat_power)
    also have "\<dots> < pow2 1024" by (simp add: pow2_def)
    finally show ?thesis by (simp add: a(3))
  qed
  have "\<exists>m. of_int n / pow2 (ulp_exp (of_int n)) = (of_int m :: rat)"
  proof (cases "a = 2 ^ 53")
    case True
    then have "bit_length a \<le> 54" "\<not> bit_length a \<le> 53"
      by (simp_all add: bit_length_le_iff)
    then have "ulp_exp (of_int n) = 1"
      by (simp add: ulp)
    moreover have "n = 2 ^ 53 \<or> n = - (2 ^ 53)"
      using True by (auto simp: a_def)
    then have "of_int n / pow2 1 = (of_int (n div 2) :: rat)"
      by (auto simp: pow2_def)
    ultimately show ?thesis by metis
  next
    case le: False
    with a(2) have "bit_length a \<le> 53" by (simp add: bit_length_le_iff)
    then have "ulp_exp (of_int n) \<le> 0" by (simp add: ulp)
    then obtain j where j: "ulp_exp (of_int n) = - int j"
      by (metis minus_minus neg_0_le_iff_le nonneg_int_cases)
    have "pow2 (- int j) = 1 / 2 ^ j"
      by (simp add: pow2_def)
    then have "of_int n / pow2 (ulp_exp (of_int n)) = (of_int (n * 2 ^ j) :: rat)"
      by (simp add: j)
    then show ?thesis by blast
  qed
  then show ?thesis
    using False big round64_exact_scaled by fastforce
qed (simp add: round64_def)

lemma round64_zero [simp]: "round64 0 = Some 0"
  by (simp add: round64_def)

text \<open>Rounding moves a value by at most half a unit in the last place.\<close>

lemma round64_near:
  assumes "round64 q = Some r"
  shows "\<bar>r - q\<bar> \<le> pow2 (ulp_exp q) / 2"
proof (cases "q = 0")
  case False
  define u where "u = pow2 (ulp_exp q)"
  have u: "0 < u" by (simp add: u_def)
  have "r = of_int (round_half_even (q / u)) * u"
    using assms False by (auto simp: round64_def Let_def u_def split: if_splits)
  then have "r - q = (of_int (round_half_even (q / u)) - q / u) * u"
    using u by (simp add: left_diff_distrib)
  then have "\<bar>r - q\<bar> = \<bar>of_int (round_half_even (q / u)) - q / u\<bar> * u"
    using u by (simp add: abs_mult)
  also have "\<dots> \<le> 1 / 2 * u"
    using round_half_even_near u by (intro mult_right_mono) auto
  finally show ?thesis by (simp add: u_def)
qed (use assms in \<open>auto simp: less_imp_le\<close>)

end
