(* ===== verification/Workflow.thy ===== *)
theory Workflow
  imports Json
begin

text \<open>
  The workflow document (\<open>src/workflow.rs\<close>): its data and its validation.  Every validator of
  the source is one definition, and an error is the message the source formats.  Reading YAML text
  is \<open>saphyr\<close>'s and \<open>serde\<close>'s work: \<open>parse\<close> takes the decoder as an argument.
\<close>

section \<open>Data\<close>

datatype control_targets = One string | Many "string list"

fun targets_iter :: "control_targets \<Rightarrow> string list" where
  "targets_iter (One t) = [t]"
| "targets_iter (Many ts) = ts"

fun targets_len :: "control_targets \<Rightarrow> nat" where
  "targets_len (One _) = 1"
| "targets_len (Many ts) = length ts"

record retry_policy =
  max_attempts :: nat
  initial_backoff_ms :: nat
  max_backoff_ms :: "nat option"
  jitter_ms :: "nat option"

datatype workflow_binding =
    Literal json
  | From string
  | Expr json
  | Secret string

type_synonym bindings = "workflow_binding btree_map"

datatype workflow_node =
  WorkflowNode (node_id: string) (node_type: string) (node_with: json_map)
    (node_inputs: "(string \<times> workflow_binding) list")
    (node_on: "(string \<times> control_targets) list") (node_retry: "retry_policy option")
    (node_branches: "(string \<times> workflow_subgraph) list")
    (node_body: "workflow_subgraph option")
and workflow_subgraph =
  WorkflowSubgraph (sub_entry: string) (sub_nodes: "workflow_node list")
    (sub_outputs: "(string \<times> workflow_binding) list")

record workflow_metadata =
  meta_id :: string
  meta_name :: string
  meta_description :: "string option"
  meta_labels :: "string btree_map"

record workflow_trigger =
  trigger_id :: string
  trigger_type :: string
  trigger_with :: json_map
  trigger_map :: bindings

datatype overflow_policy = Queue | Reject

record concurrency_policy =
  max_runs :: "nat option"
  overflow :: "overflow_policy option"
  max_queued :: "nat option"

record ai_policy =
  budget_tokens :: "nat option"

record workflow_policy =
  timeout :: "string option"
  max_parallel_nodes :: "nat option"
  concurrency :: "concurrency_policy option"
  ai :: "ai_policy option"

record node_position =
  pos_x :: f64
  pos_y :: f64

record workflow_document =
  api_version :: string
  kind :: string
  metadata :: workflow_metadata
  doc_inputs :: json
  triggers :: "workflow_trigger list"
  entry :: string
  nodes :: "workflow_node list"
  outputs :: bindings
  policy :: workflow_policy
  layout :: "node_position btree_map"

definition all_targets :: "workflow_node \<Rightarrow> string list" where
  "all_targets n = concat (map targets_iter (vals (node_on n)))"

section \<open>Identifiers\<close>

definition identifier_char :: "char \<Rightarrow> bool" where
  "identifier_char c = (is_ascii_lowercase c \<or> is_ascii_digit c \<or> c = CHR ''-'')"

definition valid_id :: "string \<Rightarrow> bool" where
  "valid_id s =
     (s \<noteq> [] \<and> length s \<le> 63 \<and> is_ascii_lowercase (hd s) \<and> list_all identifier_char s)"

definition validate_id :: "string \<Rightarrow> string \<Rightarrow> (string, unit) result" where
  "validate_id field s = require (valid_id s) (field @ '' must be a lowercase kebab-case identifier of at most 63 characters'')"

definition is_identifier_part :: "string \<Rightarrow> bool" where
  "is_identifier_part s = (s \<noteq> [] \<and> is_ascii_lowercase (hd s) \<and> list_all identifier_char s)"

definition validate_node_type :: "string \<Rightarrow> string \<Rightarrow> (string, unit) result" where
  "validate_node_type field s =
     (case rsplit_once CHR ''@'' s of
        None \<Rightarrow> Inl (field @ '' must use the namespace.name@major format'')
      | Some (namespace, version) \<Rightarrow>
          (if (case parse_u32 version of None \<Rightarrow> True | Some n \<Rightarrow> \<not> 0 < n)
              \<or> length (split_on CHR ''.'' namespace) < 2
              \<or> \<not> list_all is_identifier_part (split_on CHR ''.'' namespace)
           then Inl (field @ '' must use the namespace.name@major format'') else Inr ()))"

section \<open>Expressions and bindings\<close>

definition expression_operations :: "string list" where
  "expression_operations =
     [''equal'', ''notEqual'', ''greaterThan'', ''greaterThanOrEqual'', ''lessThan'',
      ''lessThanOrEqual'', ''and'', ''or'', ''not'', ''add'', ''subtract'', ''multiply'',
      ''divide'', ''modulo'', ''concat'', ''array'', ''object'', ''get'', ''coalesce'',
      ''contains'']"

lemma map_of_size_less: "map_of m k = Some v \<Longrightarrow> size v < size (JObject m)"
proof (induction m)
  case (Cons e m)
  then show ?case by (cases e) (auto split: if_splits)
qed simp

lemma array_size_less: "v \<in> set xs \<Longrightarrow> size v < size (JArray xs)"
  by (induction xs) auto

text \<open>The two mutually recursive validators of the source; the second one is applied to the
  arguments numbered from 0.\<close>

function validate_expression :: "json \<Rightarrow> string \<Rightarrow> nat \<Rightarrow> (string, unit) result"
and validate_expression_argument :: "json \<Rightarrow> string \<Rightarrow> nat \<Rightarrow> (string, unit) result"
where
  "validate_expression v field depth =
     (if 32 < depth then Inl (field @ '' exceeds the maximum expression depth of 32'')
      else rbind (ok_or (as_object v) (field @ '' must be an object'')) (\<lambda>expression.
        if length expression \<noteq> 2 \<or> \<not> has_key expression ''op'' \<or> \<not> has_key expression ''args''
        then Inl (field @ '' must contain only op and args'')
        else rbind (ok_or (Option.bind (map_of expression ''op'') as_str) (field @ ''.op must be a string''))
          (\<lambda>operation.
             if operation \<notin> set expression_operations
             then Inl (field @ ''.op '' @ operation @ '' is not supported'')
             else (case map_of expression ''args'' of
                 Some (JArray arguments) \<Rightarrow>
                   (if 128 < length arguments then Inl (field @ ''.args exceeds the maximum of 128 arguments'')
                    else for_each
                      (\<lambda>(index, argument).
                         validate_expression_argument argument
                           (field @ ''.args['' @ show_nat index @ '']'') (Suc depth))
                      (enumerate 0 arguments))
               | _ \<Rightarrow> Inl (field @ ''.args must be an array'')))))"
| "validate_expression_argument v field depth =
     (case v of
        JObject m \<Rightarrow>
          (if length m \<noteq> 1 then Inr ()
           else (case map_of m ''from'' of
               Some from \<Rightarrow>
                 require (case as_str from of None \<Rightarrow> False | Some s \<Rightarrow> \<not> blank s)
                   (field @ ''.from must be a non-empty string'')
             | None \<Rightarrow>
               (case map_of m ''secret'' of
                  Some secret \<Rightarrow>
                    require (case as_str secret of None \<Rightarrow> False | Some s \<Rightarrow> \<not> blank s)
                      (field @ ''.secret must be a non-empty string'')
                | None \<Rightarrow>
                  (case map_of m ''expr'' of
                     Some expression \<Rightarrow> validate_expression expression (field @ ''.expr'') depth
                   | None \<Rightarrow> Inr ()))))
      | _ \<Rightarrow> Inr ())"
  by pat_completeness auto
termination
proof (relation "measure (\<lambda>x. case x of Inl (v, _, _) \<Rightarrow> size v | Inr (v, _, _) \<Rightarrow> size v)", goal_cases)
  case 1
  then show ?case by simp
next
  case (2 v field depth expression operation x arguments pair index argument)
  have "argument \<in> set arguments"
    using 2(9,10) by (auto simp: in_set_enumerate_eq)
  then have "size argument < size (JArray arguments)" by (rule array_size_less)
  also have "\<dots> < size (JObject expression)"
    using 2(6,7) map_of_size_less [of expression "''args''" "JArray arguments"] by simp
  finally show ?case using 2(2) by simp
next
  case (3 v field depth m expression)
  from 3(1,5) show ?case using map_of_size_less by simp
qed

declare validate_expression.simps [simp del] validate_expression_argument.simps [simp del]

definition validate_binding ::
  "string \<Rightarrow> string \<times> workflow_binding \<Rightarrow> (string, unit) result" where
  "validate_binding field nb =
     (case nb of (name, binding) \<Rightarrow>
        if blank name then Inl (field @ '' cannot contain an empty input name'')
        else (case binding of
            From from \<Rightarrow> require (\<not> blank from) (field @ ''.'' @ name @ ''.from must not be empty'')
          | Secret secret \<Rightarrow> require (\<not> blank secret) (field @ ''.'' @ name @ ''.secret must not be empty'')
          | Expr expr \<Rightarrow> validate_expression expr (field @ ''.'' @ name @ ''.expr'') 0
          | Literal _ \<Rightarrow> Inr ()))"

definition validate_bindings :: "bindings \<Rightarrow> string \<Rightarrow> (string, unit) result" where
  "validate_bindings bs field = for_each (validate_binding field) bs"

section \<open>Single nodes\<close>

definition ai_node_types :: "string list" where
  "ai_node_types =
     [''kakune.ai.generate@1'', ''kakune.ai.extract@1'', ''kakune.ai.boolean@1'',
      ''kakune.ai.choose@1'', ''kakune.ai.agent@1'', ''kakune.ai.minimax.messages@1'',
      ''kakune.ai.codex.exec@1'']"

definition validate_ai_node :: "workflow_node \<Rightarrow> string \<Rightarrow> (string, unit) result" where
  "validate_ai_node n field =
     (if node_type n \<notin> set ai_node_types then Inr ()
      else all_ok
        [require (\<not> has_key (node_inputs n) ''subscriptionKey'')
           (field @ '' '' @ node_id n @
            '' does not accept inputs.subscriptionKey; configure credentials through the provider''),
         require (\<not> has_key (node_inputs n) ''model'')
           (field @ '' '' @ node_id n @
            '' does not accept inputs.model; configure with.model instead''),
         for_each
           (\<lambda>name.
              require
                (case Option.bind (map_of (node_with n) name) as_str of
                   None \<Rightarrow> False | Some s \<Rightarrow> \<not> blank s)
                (field @ '' '' @ node_id n @ '' requires with.'' @ name @
                 '' to be a non-empty string''))
           [''provider'', ''model'']])"

definition external_effect_types :: "string list" where
  "external_effect_types = [''kakune.http.request@1'', ''kakune.process.run@1'']"

definition validate_retry :: "workflow_node \<Rightarrow> string \<Rightarrow> (string, unit) result" where
  "validate_retry n field =
     (case node_retry n of
        None \<Rightarrow> Inr ()
      | Some retry \<Rightarrow>
          (if \<not> (1 \<le> max_attempts retry \<and> max_attempts retry \<le> 10)
              \<or> initial_backoff_ms retry = 0
              \<or> max_backoff_ms retry = Some 0
           then Inl (field @ '' '' @ node_id n @
                     '' retry must use 1..10 attempts and positive backoff'')
           else if node_type n \<in> set external_effect_types
                \<and> map_of (node_with n) ''idempotent'' \<noteq> Some (JBool True)
           then Inl (field @ '' '' @ node_id n @
                     '' retries on external effects require with.idempotent: true'')
           else Inr ()))"

definition validate_control_keys ::
  "workflow_node \<Rightarrow> string \<Rightarrow> string list \<Rightarrow> (string, unit) result" where
  "validate_control_keys n field allowed =
     for_each
       (\<lambda>key.
          require (key \<in> set allowed)
            (field @ '' '' @ node_id n @ '' type '' @ node_type n @ '' does not support with.'' @ key))
       (keys (node_with n))"

definition validate_foreach_config :: "workflow_node \<Rightarrow> string \<Rightarrow> (string, unit) result" where
  "validate_foreach_config n field =
     all_ok
       [require
          (case Option.bind (map_of (node_with n) ''maxConcurrency'') as_u64 of
             None \<Rightarrow> False | Some k \<Rightarrow> 1 \<le> k \<and> k \<le> 64)
          (field @ '' '' @ node_id n @
           '' foreach with.maxConcurrency must be an integer from 1 to 64''),
        require
          (case map_of (node_with n) ''onError'' of
             None \<Rightarrow> True
           | Some on_error \<Rightarrow> as_str on_error \<in> {Some ''fail'', Some ''continue''})
          (field @ '' '' @ node_id n @ '' foreach with.onError must be fail or continue'')]"

definition validate_loop_config :: "workflow_node \<Rightarrow> string \<Rightarrow> (string, unit) result" where
  "validate_loop_config n field =
     require
       (case Option.bind (map_of (node_with n) ''maxIterations'') as_u64 of
          None \<Rightarrow> False | Some k \<Rightarrow> 1 \<le> k \<and> k \<le> 10000)
       (field @ '' '' @ node_id n @
        '' loop with.maxIterations is required and must be an integer from 1 to 10000'')"

section \<open>The control graph of one scope\<close>

text \<open>\<open>incoming\<close> counts how many route targets name a node.\<close>

definition incoming :: "workflow_node list \<Rightarrow> string \<Rightarrow> nat" where
  "incoming ns t = count_list (concat (map all_targets ns)) t"

definition validate_convergences ::
  "workflow_node list \<Rightarrow> string \<Rightarrow> (string, unit) result" where
  "validate_convergences ns field =
     for_each
       (\<lambda>n.
          require
            (\<not> (1 < incoming ns (node_id n)
                \<and> node_type n \<notin> {''kakune.flow.join@1'', ''kakune.flow.merge@1''}))
            (field @ '' convergence at '' @ node_id n @
             '' requires kakune.flow.join@1 or kakune.flow.merge@1''))
       ns"

text \<open>A \<open>HashMap\<close> collected from the nodes: a later node with the same id wins.\<close>

definition by_id :: "workflow_node list \<Rightarrow> string \<Rightarrow> workflow_node option" where
  "by_id ns = map_of (rev (map (\<lambda>n. (node_id n, n)) ns))"

text \<open>\<open>visit\<close> of \<open>ensure_acyclic\<close>, applied to a list of ids in order: the calls made by the loop
  over the targets of a node and by the loop over all nodes.\<close>

function visit_all ::
  "workflow_node list \<Rightarrow> string list \<Rightarrow> string list \<Rightarrow> string list
   \<Rightarrow> (string, string list \<times> string list) result" where
  "visit_all ns [] visiting visited = Inr (visiting, visited)"
| "visit_all ns (t # ts) visiting visited =
     (if t \<in> set visited then visit_all ns ts visiting visited
      else if t \<in> set visiting
      then Inl (''workflow contains an unstructured control-flow cycle at '' @ t)
      else (case by_id ns t of
              None \<Rightarrow> Inl (''node '' @ t @ '' was not found'')
            | Some n \<Rightarrow>
                (case visit_all ns (all_targets n) (t # visiting) visited of
                   Inl e \<Rightarrow> Inl e
                 | Inr (visiting', visited') \<Rightarrow>
                     visit_all ns ts (removeAll t visiting') (t # visited'))))"
  by pat_completeness auto

lemma by_id_in: "by_id ns t = Some n \<Longrightarrow> n \<in> set ns \<and> node_id n = t"
  by (auto simp: by_id_def dest!: map_of_SomeD)

lemma dom_by_id: "dom (by_id ns) = node_id ` set ns"
  by (force simp: by_id_def dom_map_of_conv_image_fst)

lemma by_id_mem: "distinct (map node_id ns) \<Longrightarrow> n \<in> set ns \<Longrightarrow> by_id ns (node_id n) = Some n"
  unfolding by_id_def
  by (intro map_of_is_SomeI) (auto simp: rev_map [symmetric] o_def)

lemma visit_all_state:
  "visit_all_dom (ns, ts, visiting, visited) \<Longrightarrow>
   visit_all ns ts visiting visited = Inr (visiting', visited') \<Longrightarrow>
   set visiting' = set visiting \<and> set visited \<subseteq> set visited'"
proof (induction arbitrary: visiting' visited' rule: visit_all.pinduct)
  case (1 ns visiting visited)
  then show ?case by (simp add: visit_all.psimps)
next
  case (2 ns t ts visiting visited)
  note unfold = visit_all.psimps(2) [OF 2(1)]
  consider "t \<in> set visited" | "t \<notin> set visited" "t \<in> set visiting"
    | (fresh) "t \<notin> set visited" "t \<notin> set visiting" by blast
  then show ?case
  proof cases
    case 1
    with 2(2) 2(5) show ?thesis by (simp add: unfold)
  next
    case 2
    with "2.prems" show ?thesis by (simp add: unfold)
  next
    case fresh
    with "2.prems" obtain n visiting1 visited1 where n: "by_id ns t = Some n"
      and inner: "visit_all ns (all_targets n) (t # visiting) visited = Inr (visiting1, visited1)"
      and rest: "visit_all ns ts (removeAll t visiting1) (t # visited1) = Inr (visiting', visited')"
      by (auto simp: unfold split: option.splits sum.splits)
    have "set visiting1 = insert t (set visiting)" "set visited \<subseteq> set visited1"
      using "2.IH"(2) [OF fresh n inner] by simp_all
    with "2.IH"(3) [OF fresh n inner refl rest] fresh show ?thesis by auto
  qed
qed

lemma visit_all_total: "All visit_all_dom"
proof (relation "inv_image (finite_psubset <*lex*> less_than)
    (\<lambda>(ns, ts, visiting, visited). (node_id ` set ns - set visiting - set visited, length ts))",
    goal_cases)
  case (3 ns t ts visiting visited n)
  then have "t \<in> node_id ` set ns" by (auto dest: by_id_in)
  with 3 show ?case by (auto simp: finite_psubset_def)
next
  case (4 ns t ts visiting visited n p visiting' visited')
  from visit_all_state [OF 4(6)] 4 have "set visiting' = insert t (set visiting)"
    and "set visited \<subseteq> set visited'" by auto
  moreover have "t \<in> node_id ` set ns" using 4 by (auto dest: by_id_in)
  ultimately show ?case using 4(1,2) by (auto simp: finite_psubset_def)
qed auto

termination visit_all
  by (rule visit_all_total)

lemmas visit_all_sets = visit_all_state [OF visit_all_total [rule_format]]

definition ensure_acyclic :: "workflow_node list \<Rightarrow> (string, unit) result" where
  "ensure_acyclic ns = rbind (visit_all ns (map node_id ns) [] []) (\<lambda>_. Inr ())"

section \<open>Structured nodes and nested scopes\<close>

definition validate_switch_config :: "workflow_node \<Rightarrow> string \<Rightarrow> (string, unit) result" where
  "validate_switch_config n field =
     all_ok
       [validate_control_keys n field [''cases'', ''default''],
        require (node_body n = None) (field @ '' '' @ node_id n @ '' switch cannot contain body''),
        require (has_key (node_inputs n) ''value'')
          (field @ '' '' @ node_id n @ '' switch requires inputs.value''),
        (case Option.bind (map_of (node_with n) ''cases'') as_object of
           None \<Rightarrow> Inl (field @ '' '' @ node_id n @ '' switch with.cases must be an object'')
         | Some cases \<Rightarrow>
             all_ok
               [require (cases \<noteq> [])
                  (field @ '' '' @ node_id n @ '' switch with.cases must not be empty''),
                for_each
                  (\<lambda>(selector, branch).
                     (case as_str branch of
                        None \<Rightarrow> Inl (field @ '' '' @ node_id n @ '' switch case '' @ selector @
                                     '' must name a branch'')
                      | Some b \<Rightarrow>
                          require (has_key (node_branches n) b)
                            (field @ '' '' @ node_id n @ '' switch case '' @ selector @
                             '' references unknown branch '' @ b)))
                  cases]),
        (case map_of (node_with n) ''default'' of
           None \<Rightarrow> Inr ()
         | Some d \<Rightarrow>
             (case as_str d of
                None \<Rightarrow> Inl (field @ '' '' @ node_id n @ '' switch with.default must name a branch'')
              | Some b \<Rightarrow>
                  require (has_key (node_branches n) b)
                    (field @ '' '' @ node_id n @ '' switch default references unknown branch '' @ b)))]"

definition scope_bindings :: "string option \<Rightarrow> string list" where
  "scope_bindings scope =
     (if scope = Some ''foreach'' then [''$item'', ''$index'']
      else if scope = Some ''loop'' then [''$state'', ''$iteration'']
      else if scope = Some ''switch'' then [''$value'']
      else [])"

definition validate_routes_of ::
  "string \<Rightarrow> string \<Rightarrow> string list \<Rightarrow> workflow_node \<Rightarrow> (string, unit) result" where
  "validate_routes_of field pre ids n =
     for_each
       (\<lambda>(route, targets).
          all_ok
            [validate_id field route,
             require (targets_len targets \<noteq> 0)
               (pre @ ''node '' @ node_id n @ '' route '' @ route @ '' cannot be empty''),
             for_each
               (\<lambda>target.
                  require (target \<in> set ids)
                    (pre @ ''node '' @ node_id n @ '' route '' @ route @
                     '' references unknown node '' @ target))
               (targets_iter targets)])
       (node_on n)"

definition local_root :: "string \<Rightarrow> string" where
  "local_root from = hd (split_on CHR ''.'' from)"

definition local_binding_ok :: "string list \<Rightarrow> workflow_binding \<Rightarrow> bool" where
  "local_binding_ok lexical b =
     (case b of
        From from \<Rightarrow>
          \<not> (starts_with from ''$'' \<and> local_root from \<notin> set lexical
             \<and> \<not> (from = ''$input'' \<or> from = ''$trigger''
                  \<or> starts_with from ''$input.'' \<or> starts_with from ''$trigger.''))
      | _ \<Rightarrow> True)"

fun binding_source :: "workflow_binding \<Rightarrow> string" where
  "binding_source (From from) = from"
| "binding_source _ = []"

lemma size_branch_less:
  "(k, g) \<in> set bs \<Longrightarrow> size g < size (WorkflowNode i t w ins on r bs b)"
  by (induction bs) auto

function (sequential) validate_structured_node ::
  "workflow_node \<Rightarrow> string \<Rightarrow> nat \<Rightarrow> string list \<Rightarrow> (string, unit) result"
and validate_subgraph ::
  "workflow_subgraph \<Rightarrow> string \<Rightarrow> string option \<Rightarrow> nat \<Rightarrow> string list \<Rightarrow> (string, unit) result"
and validate_subgraph_nodes ::
  "string \<Rightarrow> nat \<Rightarrow> string list \<Rightarrow> string list \<Rightarrow> workflow_node list \<Rightarrow> (string, unit) result"
where
  "validate_structured_node (WorkflowNode i t w ins on r bs b) field depth lexical =
     (let n = WorkflowNode i t w ins on r bs b in
      if t = ''kakune.flow.switch@1'' then
        all_ok
          [validate_switch_config n field,
           for_each
             (\<lambda>(name, branch).
                all_ok
                  [validate_id ''switch branch'' name,
                   validate_subgraph branch (field @ '' '' @ i @ '' branch '' @ name)
                     (Some ''switch'') (Suc depth) lexical,
                   require (\<not> has_key (sub_outputs branch) ''branch'')
                     (field @ '' '' @ i @ '' branch '' @ name @
                      '' cannot define reserved output branch'')])
             bs]
      else if t = ''kakune.flow.foreach@1'' then
        all_ok
          [validate_control_keys n field [''maxConcurrency'', ''onError''],
           require (bs = []) (field @ '' '' @ i @ '' foreach cannot contain branches''),
           require (has_key ins ''items'') (field @ '' '' @ i @ '' foreach requires inputs.items''),
           validate_foreach_config n field,
           (case b of
              None \<Rightarrow> Inl (field @ '' '' @ i @ '' foreach requires body'')
            | Some body \<Rightarrow>
                validate_subgraph body (field @ '' '' @ i @ '' body'') (Some ''foreach'')
                  (Suc depth) lexical)]
      else if t = ''kakune.flow.loop@1'' then
        all_ok
          [validate_control_keys n field [''maxIterations''],
           require (bs = []) (field @ '' '' @ i @ '' loop cannot contain branches''),
           require (has_key ins ''state'') (field @ '' '' @ i @ '' loop requires inputs.state''),
           validate_loop_config n field,
           (case b of
              None \<Rightarrow> Inl (field @ '' '' @ i @ '' loop requires body'')
            | Some body \<Rightarrow>
                all_ok
                  [validate_subgraph body (field @ '' '' @ i @ '' body'') (Some ''loop'')
                     (Suc depth) lexical,
                   for_each
                     (\<lambda>name.
                        require (has_key (sub_outputs body) name)
                          (field @ '' '' @ i @ '' loop body outputs.'' @ name @ '' is required''))
                     [''state'', ''continue'']])]
      else if t = ''kakune.flow.join@1'' \<or> t = ''kakune.flow.merge@1'' then
        all_ok
          [validate_control_keys n field [],
           require (\<not> (bs \<noteq> [] \<or> b \<noteq> None))
             (field @ '' '' @ i @ '' cannot contain a body or branches'')]
      else if t = ''kakune.flow.delay@1'' then
        all_ok
          [validate_control_keys n field [],
           require (has_key ins ''durationMs'')
             (field @ '' '' @ i @ '' delay requires inputs.durationMs'')]
      else if t = ''kakune.flow.set-variable@1'' then
        all_ok
          [validate_control_keys n field [''name''],
           require
             (\<not> (\<not> has_key ins ''value''
                 \<or> \<not> (case map_of w ''name'' of None \<Rightarrow> False | Some v \<Rightarrow> is_string v)))
             (field @ '' '' @ i @ '' set-variable requires with.name and inputs.value'')]
      else
        require (\<not> (bs \<noteq> [] \<or> b \<noteq> None))
          (field @ '' '' @ i @ '' type '' @ t @ '' does not support structured subgraphs''))"
| "validate_subgraph (WorkflowSubgraph e ns os) field scope depth outer =
     (let lexical = outer @ scope_bindings scope; ids = map node_id ns in
      all_ok
        [require (\<not> 32 < depth)
           (field @ '' exceeds the maximum control nesting depth of 32''),
         require (ns \<noteq> []) (field @ ''.nodes must contain at least one node''),
         validate_subgraph_nodes field depth lexical [] ns,
         require (e \<in> set ids) (field @ ''.entry references unknown node '' @ e),
         for_each (validate_routes_of ''subgraph node.on route'' (field @ '' '') ids) ns,
         validate_bindings os (field @ ''.outputs''),
         validate_convergences ns field,
         for_each
           (\<lambda>binding.
              require (local_binding_ok lexical binding)
                (field @ '' does not provide local binding '' @ binding_source binding))
           (concat (map (\<lambda>n. vals (node_inputs n)) ns) @ vals os),
         ensure_acyclic ns])"
| "validate_subgraph_nodes field depth lexical seen [] = Inr ()"
| "validate_subgraph_nodes field depth lexical seen (n # ns) =
     all_ok
       [validate_id ''subgraph node.id'' (node_id n),
        validate_node_type ''subgraph node.type'' (node_type n),
        require (node_id n \<notin> set seen)
          (field @ '' contains duplicate node id '' @ node_id n),
        validate_bindings (node_inputs n) ''subgraph node.inputs'',
        validate_ai_node n field,
        validate_structured_node n field depth lexical,
        validate_retry n field,
        validate_subgraph_nodes field depth lexical (node_id n # seen) ns]"
  by pat_completeness auto
termination
  by (relation "measure (\<lambda>x. case x of
        Inl (n, _) \<Rightarrow> size n
      | Inr (Inl (g, _)) \<Rightarrow> size g
      | Inr (Inr (_, _, _, _, ns)) \<Rightarrow> size_list size ns)")
    (auto dest: size_branch_less)

declare validate_structured_node.simps [simp del] validate_subgraph.simps [simp del]

section \<open>The whole document\<close>

fun validate_triggers :: "string list \<Rightarrow> workflow_trigger list \<Rightarrow> (string, unit) result" where
  "validate_triggers seen [] = Inr ()"
| "validate_triggers seen (t # ts) =
     all_ok
       [validate_id ''trigger.id'' (trigger_id t),
        validate_node_type ''trigger.type'' (trigger_type t),
        require (trigger_id t \<notin> set seen) (''duplicate trigger id: '' @ trigger_id t),
        validate_bindings (trigger_map t) ''trigger.map'',
        validate_triggers (trigger_id t # seen) ts]"

fun validate_nodes :: "string list \<Rightarrow> workflow_node list \<Rightarrow> (string, unit) result" where
  "validate_nodes seen [] = Inr ()"
| "validate_nodes seen (n # ns) =
     all_ok
       [validate_id ''node.id'' (node_id n),
        validate_node_type ''node.type'' (node_type n),
        require (node_id n \<notin> set seen) (''duplicate node id: '' @ node_id n),
        validate_bindings (node_inputs n) ''node.inputs'',
        validate_ai_node n ''node'',
        validate_nodes (node_id n # seen) ns]"

definition validate_policy :: "workflow_policy \<Rightarrow> (string, unit) result" where
  "validate_policy p =
     all_ok
       [require (case max_parallel_nodes p of None \<Rightarrow> True | Some k \<Rightarrow> 1 \<le> k \<and> k \<le> 64)
          ''policy.maxParallelNodes must be between 1 and 64'',
        (case concurrency p of
           None \<Rightarrow> Inr ()
         | Some c \<Rightarrow>
             (if max_runs c = Some 0
              then Inl ''policy.concurrency.maxRuns must be positive''
              else if overflow c = Some Queue \<and> (max_queued c = None \<or> max_queued c = Some 0)
              then Inl ''policy.concurrency.maxQueued must be positive when overflow is queue''
              else if overflow c = Some Reject \<and> max_queued c \<noteq> None
              then Inl ''policy.concurrency.maxQueued is only valid when overflow is queue''
              else Inr ())),
        require (Option.bind (ai p) budget_tokens \<noteq> Some 0)
          ''policy.ai.budgetTokens must be positive'']"

definition validate :: "workflow_document \<Rightarrow> (string, unit) result" where
  "validate w =
     (let ids = map node_id (nodes w) in
      all_ok
        [require (api_version w = ''kakune/v1'') ''apiVersion must be kakune/v1'',
         require (kind w = ''Workflow'') ''kind must be Workflow'',
         validate_id ''metadata.id'' (meta_id (metadata w)),
         require (\<not> (blank (meta_name (metadata w)) \<or> 200 < length (meta_name (metadata w))))
           ''metadata.name must contain at least one non-whitespace character and be at most 200 characters'',
         require (is_null (doc_inputs w) \<or> is_object (doc_inputs w))
           ''inputs must be a JSON Schema object'',
         require (triggers w \<noteq> []) ''triggers must contain at least one trigger'',
         require (nodes w \<noteq> []) ''nodes must contain at least one node'',
         validate_policy (policy w),
         validate_triggers [] (triggers w),
         validate_nodes [] (nodes w),
         require (entry w \<in> set ids) (''entry references unknown node '' @ entry w),
         for_each (validate_routes_of ''node.on route'' [] ids) (nodes w),
         for_each
           (\<lambda>i. require (i \<in> set ids) (''layout references unknown node '' @ i))
           (keys (layout w)),
         validate_bindings (outputs w) ''outputs'',
         ensure_acyclic (nodes w),
         validate_convergences (nodes w) ''workflow'',
         for_each
           (\<lambda>n. all_ok [validate_structured_node n ''node'' 0 [], validate_retry n ''node''])
           (nodes w)])"

text \<open>\<open>load\<close> is \<open>saphyr\<close>'s reader of YAML documents, \<open>convert\<close> is
  \<open>yaml_to_json\<close> (over \<open>saphyr\<close>'s node accessors), and \<open>from_value\<close> the derived
  \<open>serde\<close> decoder of the data above.  The length check comes first and \<^const>\<open>validate\<close> last.\<close>

definition parse ::
  "(string \<Rightarrow> (string, 'y list) result) \<Rightarrow> ('y \<Rightarrow> (string, json) result)
   \<Rightarrow> (json \<Rightarrow> (string, workflow_document) result) \<Rightarrow> string
   \<Rightarrow> (string, workflow_document) result" where
  "parse load convert from_value source =
     (if 1048576 < length source then Inl ''workflow source exceeds the 1 MiB limit''
      else (case load source of
          Inl e \<Rightarrow> Inl (''invalid YAML: '' @ e)
        | Inr documents \<Rightarrow>
            (case documents of
               [document] \<Rightarrow>
                 rbind (convert document) (\<lambda>v.
                   (case from_value v of
                      Inl e \<Rightarrow> Inl (''workflow does not match kakune/v1: '' @ e)
                    | Inr w \<Rightarrow> rbind (validate w) (\<lambda>_. Inr w)))
             | _ \<Rightarrow> Inl ''a workflow file must contain exactly one YAML document'')))"

text \<open>The node catalog: \<open>builtin\<close> is \<open>is_builtin_node_type\<close>, \<open>plugin\<close> whether the
  registry has a node of that type.\<close>

function validate_node_catalog ::
  "(string \<Rightarrow> bool) \<Rightarrow> (string \<Rightarrow> bool) \<Rightarrow> workflow_node \<Rightarrow> (string, unit) result" where
  "validate_node_catalog builtin plugin (WorkflowNode i t w ins on r bs b) =
     all_ok
       [require (builtin t \<or> plugin t)
          (''node '' @ i @ '' uses unregistered node type '' @ t @
           ''; execution requires a built-in node or an explicitly registered plugin''),
        for_each
          (\<lambda>(name, branch). for_each (validate_node_catalog builtin plugin) (sub_nodes branch)) bs,
        (case b of
           None \<Rightarrow> Inr ()
         | Some body \<Rightarrow> for_each (validate_node_catalog builtin plugin) (sub_nodes body))]"
  by pat_completeness auto

lemma size_sub_nodes: "n \<in> set (sub_nodes g) \<Longrightarrow> size n < size g"
  by (cases g) (auto dest: size_list_estimation' [where f = size and y = "size n"])

termination validate_node_catalog
proof (relation "measure (\<lambda>(_, _, n). size n)", goal_cases)
  case (2 builtin plugin i t w ins on r bs b entry name branch n)
  then have "size n < size branch" and "(name, branch) \<in> set bs"
    by (auto dest: size_sub_nodes)
  then show ?case
    using size_branch_less [of name branch bs i t w ins on r b] by simp
next
  case (3 builtin plugin i t w ins on r bs b body n)
  then show ?case
    using size_sub_nodes [of n body] by auto
qed auto

declare validate_node_catalog.simps [simp del]

definition validate_with_plugins ::
  "(string \<Rightarrow> bool) \<Rightarrow> (string \<Rightarrow> bool) \<Rightarrow> workflow_document \<Rightarrow> (string, unit) result" where
  "validate_with_plugins builtin plugin w =
     all_ok [validate w, for_each (validate_node_catalog builtin plugin) (nodes w)]"

definition node :: "workflow_document \<Rightarrow> string \<Rightarrow> workflow_node option" where
  "node w i = find (\<lambda>n. node_id n = i) (nodes w)"

end
