(* ===== verification/Workflow_Valid.thy ===== *)
theory Workflow_Valid
  imports Workflow
begin

text \<open>
  What the validators of \<open>src/workflow.rs\<close> guarantee: the depth-first search of
  \<open>ensure_acyclic\<close> decides acyclicity, and an accepted document is well formed in every
  nested scope.
\<close>

section \<open>The cycle check\<close>

definition control_edges :: "workflow_node list \<Rightarrow> (string \<times> string) set" where
  "control_edges ns = {(node_id n, t) | n t. n \<in> set ns \<and> t \<in> set (all_targets n)}"

definition targets_exist :: "workflow_node list \<Rightarrow> bool" where
  "targets_exist ns = list_all (\<lambda>n. set (all_targets n) \<subseteq> node_id ` set ns) ns"

lemma control_edges_by_id:
  "by_id ns t = Some n \<Longrightarrow> u \<in> set (all_targets n) \<Longrightarrow> (t, u) \<in> control_edges ns"
  by (force simp: control_edges_def dest: by_id_in)

text \<open>The finished nodes, latest first, list every node before the targets it reaches.\<close>

fun topological :: "workflow_node list \<Rightarrow> string list \<Rightarrow> bool" where
  "topological ns [] = True"
| "topological ns (t # ts) =
     (t \<notin> set ts \<and> control_edges ns `` {t} \<subseteq> set ts \<and> topological ns ts)"

lemma topological_edge:
  assumes "topological ns ts" and "(a, b) \<in> control_edges ns" and "a \<in> set ts"
  shows "length (dropWhile (\<lambda>x. x \<noteq> b) ts) < length (dropWhile (\<lambda>x. x \<noteq> a) ts)"
  using assms
proof (induction ts)
  case (Cons t ts)
  have short: "length (dropWhile (\<lambda>x. x \<noteq> b) ts) < Suc (length ts)"
    using length_dropWhile_le le_imp_less_Suc by blast
  show ?case
  proof (cases "a = t")
    case True
    with Cons have "b \<in> set ts" "b \<noteq> t" by auto
    with True short show ?thesis by simp
  next
    case False
    with Cons have "a \<in> set ts" "t \<notin> set ts" "topological ns ts" by auto
    moreover from this Cons.prems(2) have "b \<in> set ts"
    proof (induction ts)
      case (Cons c cs)
      then show ?case by (cases "a = c") auto
    qed simp
    ultimately show ?thesis using Cons False by auto
  qed
qed simp

lemma topological_acyclic:
  assumes "topological ns ts" and "node_id ` set ns \<subseteq> set ts"
  shows "acyclic (control_edges ns)"
proof (rule acyclicI_order [where f = "\<lambda>x. length (dropWhile (\<lambda>y. y \<noteq> x) ts)"])
  fix a b
  assume e: "(a, b) \<in> control_edges ns"
  then have "a \<in> set ts" using assms(2) by (auto simp: control_edges_def)
  with topological_edge [OF assms(1) e]
  show "length (dropWhile (\<lambda>y. y \<noteq> b) ts) < length (dropWhile (\<lambda>y. y \<noteq> a) ts)" .
qed

lemma visit_all_topological:
  "visit_all ns ts visiting visited = Inr (visiting', visited') \<Longrightarrow> distinct (map node_id ns)
    \<Longrightarrow> topological ns visited \<Longrightarrow> set visiting \<inter> set visited = {}
    \<Longrightarrow> set ts \<subseteq> set visited' \<and> topological ns visited' \<and> set visiting \<inter> set visited' = {}"
proof (induction ns ts visiting visited arbitrary: visiting' visited' rule: visit_all.induct)
  case (2 ns t ts visiting visited)
  note IH = "2.IH" and prems = "2.prems"
  consider (old) "t \<in> set visited" | (cycle) "t \<notin> set visited" "t \<in> set visiting"
    | (fresh) "t \<notin> set visited" "t \<notin> set visiting" by blast
  then show ?case
  proof cases
    case old
    with prems(1) have rest: "visit_all ns ts visiting visited = Inr (visiting', visited')" by simp
    from IH(1) [OF old rest prems(2-4)] visit_all_sets [OF rest] old show ?thesis by auto
  next
    case cycle
    with prems(1) show ?thesis by simp
  next
    case fresh
    with prems(1) obtain n visiting1 visited1 where n: "by_id ns t = Some n"
      and inner: "visit_all ns (all_targets n) (t # visiting) visited = Inr (visiting1, visited1)"
      and rest: "visit_all ns ts (removeAll t visiting1) (t # visited1) = Inr (visiting', visited')"
      by (auto split: option.splits sum.splits)
    have "set (t # visiting) \<inter> set visited = {}" using fresh prems(4) by simp
    from IH(2) [OF fresh n inner prems(2,3) this]
    have targets: "set (all_targets n) \<subseteq> set visited1" and topo: "topological ns visited1"
      and apart: "set (t # visiting) \<inter> set visited1 = {}" by auto
    have succ: "control_edges ns `` {t} \<subseteq> set visited1"
      using targets by_id_mem [OF prems(2)] n by (auto simp: control_edges_def)
    have v1: "set visiting1 = insert t (set visiting)" using visit_all_sets [OF inner] by simp
    have "topological ns (t # visited1)" using topo succ apart by simp
    moreover have "set (removeAll t visiting1) \<inter> set (t # visited1) = {}"
      using v1 apart by auto
    ultimately have "set ts \<subseteq> set visited' \<and> topological ns visited'
        \<and> set (removeAll t visiting1) \<inter> set visited' = {}"
      by (rule IH(3) [OF fresh n inner refl rest prems(2)])
    with visit_all_sets [OF rest] v1 fresh(2) show ?thesis by auto
  qed
qed simp

text \<open>Every node being visited reaches every node still to be visited.\<close>

lemma visit_all_complete:
  "acyclic (control_edges ns) \<Longrightarrow> targets_exist ns
    \<Longrightarrow> set ts \<subseteq> node_id ` set ns
    \<Longrightarrow> set visiting \<times> set ts \<subseteq> (control_edges ns)\<^sup>+
    \<Longrightarrow> \<exists>visiting' visited'. visit_all ns ts visiting visited = Inr (visiting', visited')"
proof (induction ns ts visiting visited rule: visit_all.induct)
  case (2 ns t ts visiting visited)
  note IH = "2.IH" and prems = "2.prems"
  have ts: "set ts \<subseteq> node_id ` set ns" "set visiting \<times> set ts \<subseteq> (control_edges ns)\<^sup>+"
    using prems(3,4) by auto
  show ?case
  proof (cases "t \<in> set visited")
    case True
    with IH(1) [OF True prems(1,2) ts] show ?thesis by simp
  next
    case False
    have fresh: "t \<notin> set visiting" using prems(1,4) by (auto simp: acyclic_def)
    from prems(3) have "t \<in> dom (by_id ns)" by (simp add: dom_by_id)
    then obtain n where n: "by_id ns t = Some n" by blast
    have "set (all_targets n) \<subseteq> node_id ` set ns"
      using prems(2) by_id_in [OF n] by (auto simp: targets_exist_def list_all_iff)
    moreover have "set (t # visiting) \<times> set (all_targets n) \<subseteq> (control_edges ns)\<^sup>+"
      using prems(4) control_edges_by_id [OF n] by (auto intro: trancl_into_trancl)
    ultimately obtain visiting1 visited1 where inner:
      "visit_all ns (all_targets n) (t # visiting) visited = Inr (visiting1, visited1)"
      using IH(2) [OF False fresh n prems(1,2)] by blast
    have "set (removeAll t visiting1) \<times> set ts \<subseteq> (control_edges ns)\<^sup>+"
      using visit_all_sets [OF inner] ts(2) by auto
    from IH(3) [OF False fresh n inner refl prems(1,2) ts(1) this]
    show ?thesis using False fresh n inner by auto
  qed
qed simp

lemma ensure_acyclic_iff:
  assumes "distinct (map node_id ns)" and "targets_exist ns"
  shows "ensure_acyclic ns = Inr () \<longleftrightarrow> acyclic (control_edges ns)"
proof
  assume "ensure_acyclic ns = Inr ()"
  then obtain visiting' visited'
    where "visit_all ns (map node_id ns) [] [] = Inr (visiting', visited')"
    by (auto simp: ensure_acyclic_def rbind_Inr)
  from visit_all_topological [OF this assms(1)] topological_acyclic
  show "acyclic (control_edges ns)" by auto
next
  assume "acyclic (control_edges ns)"
  from visit_all_complete [OF this assms(2), of "map node_id ns" "[]" "[]"]
  show "ensure_acyclic ns = Inr ()" by (auto simp: ensure_acyclic_def)
qed

section \<open>Nested scopes\<close>

text \<open>The scopes of a document: the top level, and the branches and bodies of the control nodes
  \<open>switch\<close>, \<open>foreach\<close> and \<open>loop\<close> in a scope, with their nesting depth and the
  names their control nodes bind.\<close>

definition control_kind :: "string \<Rightarrow> string option" where
  "control_kind t =
     (if t = ''kakune.flow.switch@1'' then Some ''switch''
      else if t = ''kakune.flow.foreach@1'' then Some ''foreach''
      else if t = ''kakune.flow.loop@1'' then Some ''loop''
      else None)"

definition subgraphs :: "workflow_node \<Rightarrow> workflow_subgraph list" where
  "subgraphs n = vals (node_branches n) @ (case node_body n of None \<Rightarrow> [] | Some b \<Rightarrow> [b])"

definition top_scope :: "workflow_document \<Rightarrow> workflow_subgraph" where
  "top_scope w = WorkflowSubgraph (entry w) (nodes w) (outputs w)"

inductive scope_of :: "workflow_document \<Rightarrow> nat \<Rightarrow> string list \<Rightarrow> workflow_subgraph \<Rightarrow> bool"
  for w where
  top: "scope_of w 0 [] (top_scope w)"
| nested: "scope_of w d lexical g \<Longrightarrow> n \<in> set (sub_nodes g) \<Longrightarrow> control_kind (node_type n) \<noteq> None
    \<Longrightarrow> g' \<in> set (subgraphs n)
    \<Longrightarrow> scope_of w (Suc d) (lexical @ scope_bindings (control_kind (node_type n))) g'"

definition convergences_joined :: "workflow_node list \<Rightarrow> bool" where
  "convergences_joined ns =
     list_all (\<lambda>n. 1 < incoming ns (node_id n)
       \<longrightarrow> node_type n = ''kakune.flow.join@1'' \<or> node_type n = ''kakune.flow.merge@1'') ns"

definition well_formed_scope :: "workflow_subgraph \<Rightarrow> bool" where
  "well_formed_scope g \<longleftrightarrow>
     sub_nodes g \<noteq> []
     \<and> list_all (\<lambda>n. valid_id (node_id n)) (sub_nodes g)
     \<and> distinct (map node_id (sub_nodes g))
     \<and> sub_entry g \<in> node_id ` set (sub_nodes g)
     \<and> list_all (\<lambda>n. list_all valid_id (keys (node_on n))) (sub_nodes g)
     \<and> targets_exist (sub_nodes g)
     \<and> acyclic (control_edges (sub_nodes g))
     \<and> convergences_joined (sub_nodes g)"

text \<open>The limits on a node: 1 to 10 attempts with a positive pause, external effects retried only
  when declared idempotent, 1 to 64 concurrent items, 1 to 10000 iterations.\<close>

definition retry_bounded :: "workflow_node \<Rightarrow> bool" where
  "retry_bounded n =
     (case node_retry n of
        None \<Rightarrow> True
      | Some r \<Rightarrow> max_attempts r \<in> {1..10} \<and> 0 < initial_backoff_ms r \<and> max_backoff_ms r \<noteq> Some 0
          \<and> (node_type n \<in> set external_effect_types
              \<longrightarrow> map_of (node_with n) ''idempotent'' = Some (JBool True)))"

definition control_bounded :: "workflow_node \<Rightarrow> bool" where
  "control_bounded n \<longleftrightarrow>
     (node_type n = ''kakune.flow.foreach@1'' \<longrightarrow>
        (\<exists>k \<in> {1..64}. Option.bind (map_of (node_with n) ''maxConcurrency'') as_u64 = Some k)
        \<and> node_branches n = [] \<and> node_body n \<noteq> None)
     \<and> (node_type n = ''kakune.flow.loop@1'' \<longrightarrow>
        (\<exists>k \<in> {1..10000}. Option.bind (map_of (node_with n) ''maxIterations'') as_u64 = Some k)
        \<and> node_branches n = []
        \<and> (\<exists>b. node_body n = Some b \<and> has_key (sub_outputs b) ''state'' \<and> has_key (sub_outputs b) ''continue''))"

lemma validate_id_valid [simp]: "validate_id f s = Inr () \<longleftrightarrow> valid_id s"
  by (simp add: validate_id_def)

lemma validate_routes_ok [simp]:
  "validate_routes_of f p ids n = Inr () \<longleftrightarrow>
   (\<forall>(r, ts) \<in> set (node_on n). valid_id r \<and> targets_len ts \<noteq> 0 \<and> set (targets_iter ts) \<subseteq> set ids)"
  by (simp add: validate_routes_of_def for_each_Inr case_prod_beta' subset_eq del: append.simps)

lemma validate_routes_targets:
  assumes "for_each (validate_routes_of f p (map node_id ns)) ns = Inr ()"
  shows "targets_exist ns"
  using assms
  by (fastforce simp: targets_exist_def list_all_iff for_each_Inr all_targets_def vals_def)

lemma validate_convergences_joined:
  "validate_convergences ns f = Inr () \<Longrightarrow> convergences_joined ns"
  by (auto simp: validate_convergences_def for_each_Inr convergences_joined_def list_all_iff)

lemma validate_retry_bounded: "validate_retry n f = Inr () \<Longrightarrow> retry_bounded n"
  by (auto simp: validate_retry_def retry_bounded_def split: option.splits if_splits)

lemma validate_nodes_distinct:
  "validate_nodes seen ns = Inr () \<Longrightarrow>
   distinct (map node_id ns) \<and> set (map node_id ns) \<inter> set seen = {}
   \<and> list_all (\<lambda>n. valid_id (node_id n)) ns"
proof (induction ns arbitrary: seen)
  case (Cons n ns)
  from Cons.prems have "validate_nodes (node_id n # seen) ns = Inr ()" by simp
  from Cons.IH [OF this] Cons.prems show ?case by auto
qed simp

lemma validate_subgraph_nodes_distinct:
  "validate_subgraph_nodes f d lexical seen ns = Inr () \<Longrightarrow>
   distinct (map node_id ns) \<and> set (map node_id ns) \<inter> set seen = {}
   \<and> list_all (\<lambda>n. valid_id (node_id n)) ns"
proof (induction ns arbitrary: seen)
  case (Cons n ns)
  from Cons.prems have "validate_subgraph_nodes f d lexical (node_id n # seen) ns = Inr ()" by simp
  from Cons.IH [OF this] Cons.prems show ?case by auto
qed simp

lemma validate_subgraph_nodes_each:
  "validate_subgraph_nodes f d lexical seen ns = Inr () \<Longrightarrow> n \<in> set ns \<Longrightarrow>
   validate_structured_node n f d lexical = Inr () \<and> validate_retry n f = Inr ()"
  by (induction ns arbitrary: seen) auto

text \<open>What acceptance of one node and of one nested scope gives.\<close>

lemma structured_node_subgraph:
  assumes ok: "validate_structured_node n f d lexical = Inr ()"
    and kind: "control_kind (node_type n) = Some k" and g: "g \<in> set (subgraphs n)"
  shows "\<exists>f'. validate_subgraph g f' (Some k) (Suc d) lexical = Inr ()"
proof -
  obtain i t w ins on r bs b where n: "n = WorkflowNode i t w ins on r bs b" by (cases n)
  consider (switch) "t = ''kakune.flow.switch@1''" "k = ''switch''"
    | (foreach) "t = ''kakune.flow.foreach@1''" "k = ''foreach''"
    | (loop) "t = ''kakune.flow.loop@1''" "k = ''loop''"
    using kind by (auto simp: n control_kind_def split: if_splits)
  then show ?thesis
  proof cases
    case switch
    from ok have "validate_switch_config n f = Inr ()"
      and each: "\<forall>(name, branch) \<in> set bs. validate_subgraph branch (f @ '' '' @ i @ '' branch '' @ name)
        (Some ''switch'') (Suc d) lexical = Inr ()"
      by (auto simp: n switch(1) validate_structured_node.simps Let_def for_each_Inr)
    then have "b = None" by (simp add: validate_switch_config_def n)
    with g obtain name where "(name, g) \<in> set bs" by (auto simp: n subgraphs_def in_vals)
    with each switch(2) show ?thesis by auto
  next
    case foreach
    from ok obtain body where "bs = []" "b = Some body"
      "validate_subgraph body (f @ '' '' @ i @ '' body'') (Some ''foreach'') (Suc d) lexical = Inr ()"
      by (auto simp: n foreach(1) validate_structured_node.simps Let_def split: option.splits)
    with g foreach(2) show ?thesis by (auto simp: n subgraphs_def vals_def)
  next
    case loop
    from ok obtain body where "bs = []" "b = Some body"
      "validate_subgraph body (f @ '' '' @ i @ '' body'') (Some ''loop'') (Suc d) lexical = Inr ()"
      by (auto simp: n loop(1) validate_structured_node.simps Let_def split: option.splits)
    with g loop(2) show ?thesis by (auto simp: n subgraphs_def vals_def)
  qed
qed

lemma structured_node_bounded:
  assumes "validate_structured_node n f d lexical = Inr ()"
  shows "control_bounded n"
proof -
  obtain i t w ins on r bs b where n: "n = WorkflowNode i t w ins on r bs b" by (cases n)
  have foreach: ?thesis if "t = ''kakune.flow.foreach@1''"
    using assms that
    by (auto simp: n validate_structured_node.simps Let_def control_bounded_def
        validate_foreach_config_def split: option.splits)
  have loop: ?thesis if "t = ''kakune.flow.loop@1''"
    using assms that
    by (auto simp: n validate_structured_node.simps Let_def control_bounded_def
        validate_loop_config_def split: option.splits)
  show ?thesis
    using foreach loop by (auto simp: n control_bounded_def)
qed

lemma well_formed_scopeI:
  assumes "ns \<noteq> []" and "distinct (map node_id ns)" and "list_all (\<lambda>n. valid_id (node_id n)) ns"
    and "e \<in> set (map node_id ns)"
    and "for_each (validate_routes_of f p (map node_id ns)) ns = Inr ()"
    and "validate_convergences ns f' = Inr ()" and "ensure_acyclic ns = Inr ()"
  shows "well_formed_scope (WorkflowSubgraph e ns os)"
proof -
  have exist: "targets_exist ns" using assms(5) by (rule validate_routes_targets)
  with assms(2,7) have "acyclic (control_edges ns)" by (simp add: ensure_acyclic_iff)
  moreover have "list_all (\<lambda>n. list_all valid_id (keys (node_on n))) ns"
    using assms(5) by (force simp: for_each_Inr list_all_iff keys_def)
  moreover note assms exist
  ultimately show ?thesis
    by (auto simp: well_formed_scope_def dest: validate_convergences_joined)
qed

definition local_bindings :: "workflow_subgraph \<Rightarrow> workflow_binding list" where
  "local_bindings g = concat (map (\<lambda>n. vals (node_inputs n)) (sub_nodes g)) @ vals (sub_outputs g)"

lemma subgraph_ok:
  assumes "validate_subgraph g f k d outer = Inr ()"
  shows "d \<le> 32 \<and> well_formed_scope g
    \<and> list_all (local_binding_ok (outer @ scope_bindings k)) (local_bindings g)
    \<and> (\<forall>n \<in> set (sub_nodes g). validate_structured_node n f d (outer @ scope_bindings k) = Inr ()
        \<and> retry_bounded n)"
proof -
  obtain e ns os where g: "g = WorkflowSubgraph e ns os" by (cases g)
  from assms have "d \<le> 32" and "ns \<noteq> []"
    and nodes: "validate_subgraph_nodes f d (outer @ scope_bindings k) [] ns = Inr ()"
    and "e \<in> set (map node_id ns)"
    and "for_each (validate_routes_of ''subgraph node.on route'' (f @ '' '') (map node_id ns)) ns = Inr ()"
    and "validate_convergences ns f = Inr ()" and "ensure_acyclic ns = Inr ()"
    and local: "for_each (\<lambda>b. require (local_binding_ok (outer @ scope_bindings k) b)
        (f @ '' does not provide local binding '' @ binding_source b))
        (concat (map (\<lambda>n. vals (node_inputs n)) ns) @ vals os) = Inr ()"
    unfolding g validate_subgraph.simps Let_def all_ok_Cons by simp_all
  then have "well_formed_scope g"
    using validate_subgraph_nodes_distinct [OF nodes] unfolding g by (intro well_formed_scopeI) auto
  moreover have "list_all (local_binding_ok (outer @ scope_bindings k)) (local_bindings g)"
    using local by (auto simp: for_each_Inr local_bindings_def g list_all_iff)
  moreover have "\<forall>n \<in> set ns. validate_structured_node n f d (outer @ scope_bindings k) = Inr ()
      \<and> retry_bounded n"
    using validate_subgraph_nodes_each [OF nodes] validate_retry_bounded by blast
  ultimately show ?thesis using \<open>d \<le> 32\<close> by (simp add: g)
qed

lemma validate_top:
  assumes "validate w = Inr ()"
  shows "well_formed_scope (top_scope w)
    \<and> (\<forall>n \<in> set (nodes w). validate_structured_node n ''node'' 0 [] = Inr () \<and> retry_bounded n)"
proof -
  from assms have "nodes w \<noteq> []" and nodes: "validate_nodes [] (nodes w) = Inr ()"
    and "entry w \<in> set (map node_id (nodes w))"
    and "for_each (validate_routes_of ''node.on route'' [] (map node_id (nodes w))) (nodes w) = Inr ()"
    and "ensure_acyclic (nodes w) = Inr ()" and "validate_convergences (nodes w) ''workflow'' = Inr ()"
    and each: "for_each (\<lambda>n. all_ok [validate_structured_node n ''node'' 0 [], validate_retry n ''node''])
           (nodes w) = Inr ()"
    unfolding validate_def Let_def all_ok_Cons by simp_all
  then have "well_formed_scope (top_scope w)"
    using validate_nodes_distinct [OF nodes] unfolding top_scope_def
    by (intro well_formed_scopeI) auto
  with each show ?thesis by (auto simp: for_each_Inr dest: validate_retry_bounded)
qed

text \<open>The invariant of the walk over the scopes of an accepted document.\<close>

lemma scope_of_accepted:
  assumes "scope_of w d lexical g" and "validate w = Inr ()"
  shows "d \<le> 32 \<and> well_formed_scope g
    \<and> (\<forall>n \<in> set (sub_nodes g). retry_bounded n \<and> control_bounded n)
    \<and> (0 < d \<longrightarrow> list_all (local_binding_ok lexical) (local_bindings g))
    \<and> (\<exists>f. \<forall>n \<in> set (sub_nodes g). validate_structured_node n f d lexical = Inr ())"
  using assms(1)
proof (induction rule: scope_of.induct)
  case top
  from validate_top [OF assms(2)] structured_node_bounded show ?case
    unfolding top_scope_def by auto
next
  case (nested d lexical g n g')
  then obtain k where k: "control_kind (node_type n) = Some k" by blast
  from nested obtain f where "validate_structured_node n f d lexical = Inr ()" by blast
  from structured_node_subgraph [OF this k nested(4)]
  obtain f' where "validate_subgraph g' f' (Some k) (Suc d) lexical = Inr ()" by blast
  from subgraph_ok [OF this] structured_node_bounded show ?case unfolding k by blast
qed

text \<open>Every node of a document, whatever the type of the nodes around it.\<close>

inductive node_in :: "workflow_document \<Rightarrow> workflow_node \<Rightarrow> bool" for w where
  node_top: "n \<in> set (nodes w) \<Longrightarrow> node_in w n"
| node_nested: "node_in w n \<Longrightarrow> g \<in> set (subgraphs n) \<Longrightarrow> n' \<in> set (sub_nodes g) \<Longrightarrow> node_in w n'"

lemma node_catalog_children:
  assumes "validate_node_catalog builtin plugin n = Inr ()" and "g \<in> set (subgraphs n)"
    and "n' \<in> set (sub_nodes g)"
  shows "validate_node_catalog builtin plugin n' = Inr ()"
  using assms
  by (cases n) (auto simp: validate_node_catalog.simps subgraphs_def in_vals for_each_Inr
      split: option.splits)

lemma node_catalog_type:
  "validate_node_catalog builtin plugin n = Inr () \<Longrightarrow> builtin (node_type n) \<or> plugin (node_type n)"
  by (cases n) (auto simp: validate_node_catalog.simps)

section \<open>Examples\<close>

text \<open>The document of the unit tests of \<open>src/workflow.rs\<close>, one whose loop body writes a note,
  and a cyclic graph.\<close>

definition write_node :: workflow_node where
  "write_node = WorkflowNode ''write'' ''kakune.fs.write-text@1'' []
     [(''content'', Literal (JString ''hello'')), (''path'', Literal (JString ''notes/hello.txt''))]
     [] None [] None"

definition loop_body :: workflow_subgraph where
  "loop_body = WorkflowSubgraph ''write'' [write_node]
     [(''continue'', Literal (JBool False)), (''state'', From ''$state'')]"

definition loop_node :: workflow_node where
  "loop_node = WorkflowNode ''repeat'' ''kakune.flow.loop@1''
     [(''maxIterations'', JNumber (PosInt 5))] [(''state'', Literal JNull)]
     [(''success'', One ''write'')] None [] (Some loop_body)"

definition document_of :: "string \<Rightarrow> workflow_node list \<Rightarrow> workflow_document" where
  "document_of e ns =
     \<lparr>api_version = ''kakune/v1'', kind = ''Workflow'',
      metadata = \<lparr>meta_id = ''write-note'', meta_name = ''Write note'', meta_description = None,
        meta_labels = []\<rparr>,
      doc_inputs = JNull,
      triggers = [\<lparr>trigger_id = ''manual'', trigger_type = ''kakune.trigger.manual@1'',
        trigger_with = [], trigger_map = []\<rparr>],
      entry = e, nodes = ns, outputs = [],
      policy = \<lparr>timeout = None, max_parallel_nodes = None, concurrency = None, ai = None\<rparr>,
      layout = []\<rparr>"

definition write_note :: workflow_document where
  "write_note = document_of ''write'' [write_node]"

definition repeat_note :: workflow_document where
  "repeat_note = document_of ''repeat'' [loop_node, write_node]"

definition cycle_nodes :: "workflow_node list" where
  "cycle_nodes =
     [WorkflowNode ''a'' ''kakune.core.debug.log@1'' [] [] [(''success'', One ''b'')] None [] None,
      WorkflowNode ''b'' ''kakune.core.debug.log@1'' [] [] [(''success'', Many [''a''])] None [] None]"

lemma write_note_ok: "validate write_note = Inr ()"
  by code_simp

lemma repeat_note_ok: "validate repeat_note = Inr ()"
  by code_simp

lemma repeat_note_scope: "scope_of repeat_note 1 [''$state'', ''$iteration''] loop_body"
proof -
  have "scope_of repeat_note (Suc 0)
      ([] @ scope_bindings (control_kind (node_type loop_node))) loop_body"
    by (rule scope_of.nested [OF scope_of.top])
      (simp_all add: top_scope_def repeat_note_def document_of_def loop_node_def subgraphs_def
        control_kind_def)
  then show ?thesis by (simp add: control_kind_def loop_node_def scope_bindings_def)
qed

section \<open>Properties\<close>

text \<open>C2: on the nodes of one scope, with distinct ids and existing targets, the depth-first
  search accepts exactly the graphs whose control edges are acyclic.\<close>

theorem ensure_acyclic_correct:
  "distinct (map node_id ns) \<Longrightarrow> targets_exist ns \<Longrightarrow>
   ensure_acyclic ns = Inr () \<longleftrightarrow> acyclic (control_edges ns)"
  by (rule ensure_acyclic_iff)

theorem ensure_acyclic_correct_witness:
  "distinct (map node_id cycle_nodes) \<and> targets_exist cycle_nodes
   \<and> \<not> acyclic (control_edges cycle_nodes)"
proof -
  have "distinct (map node_id cycle_nodes)" "targets_exist cycle_nodes"
    and "ensure_acyclic cycle_nodes \<noteq> Inr ()"
    by (code_simp, code_simp, code_simp)
  with ensure_acyclic_correct [of cycle_nodes] show ?thesis by blast
qed

text \<open>C3: in an accepted document every scope, at any nesting, is at depth at most 32 and well
  formed: it has nodes, their ids are valid and distinct, its routes have valid names, the entry and all targets exist, control
  flow is acyclic, and several routes meet only at a join or a merge.\<close>

theorem validate_scopes:
  "validate w = Inr () \<Longrightarrow> scope_of w d lexical g \<Longrightarrow> d \<le> 32 \<and> well_formed_scope g"
  using scope_of_accepted by blast

theorem validate_scopes_witness: "(1::nat) \<le> 32 \<and> well_formed_scope loop_body"
  using validate_scopes [OF repeat_note_ok repeat_note_scope] .

text \<open>In every scope of an accepted document each node keeps its limits: 1 to 10 attempts with
  positive pauses, HTTP requests and processes retried only when declared idempotent, 1 to 64
  concurrent items, 1 to 10000 iterations over a body that produces \<open>state\<close> and \<open>continue\<close>.\<close>

theorem validate_node_limits:
  "validate w = Inr () \<Longrightarrow> scope_of w d lexical g \<Longrightarrow> n \<in> set (sub_nodes g)
   \<Longrightarrow> retry_bounded n \<and> control_bounded n"
  using scope_of_accepted by blast

theorem validate_node_limits_witness:
  "loop_node \<in> set (sub_nodes (top_scope repeat_note)) \<and> retry_bounded loop_node
   \<and> control_bounded loop_node"
proof -
  have "loop_node \<in> set (sub_nodes (top_scope repeat_note))"
    by (simp add: top_scope_def repeat_note_def document_of_def)
  with validate_node_limits [OF repeat_note_ok scope_of.top this] show ?thesis by blast
qed

text \<open>In a nested scope of an accepted document, a binding to a name that starts with \<open>$\<close>
  is to one the enclosing control nodes provide, or to the run's input or trigger.\<close>

theorem validate_local_names:
  "validate w = Inr () \<Longrightarrow> scope_of w (Suc d) lexical g \<Longrightarrow> From from \<in> set (local_bindings g)
   \<Longrightarrow> starts_with from ''$''
   \<Longrightarrow> local_root from \<in> set lexical \<union> {''$input'', ''$trigger''}"
proof -
  assume "validate w = Inr ()" "scope_of w (Suc d) lexical g" "From from \<in> set (local_bindings g)"
    and dollar: "starts_with from ''$''"
  then have "local_binding_ok lexical (From from)"
    using scope_of_accepted [of w "Suc d" lexical g] by (simp add: list_all_iff)
  with dollar consider "local_root from \<in> set lexical" | "from \<in> {''$input'', ''$trigger''}"
    | rest where "from = ''$input'' @ CHR ''.'' # rest" | rest where "from = ''$trigger'' @ CHR ''.'' # rest"
    by (auto simp: local_binding_ok_def starts_with_prefix prefix_def)
  then show ?thesis
    by cases (auto simp: local_root_def hd_split_on)
qed

theorem validate_local_names_witness:
  "From ''$state'' \<in> set (local_bindings loop_body)
   \<and> local_root ''$state'' \<in> {''$state'', ''$iteration'', ''$input'', ''$trigger''}"
proof -
  have m: "From ''$state'' \<in> set (local_bindings loop_body)"
    by (simp add: local_bindings_def loop_body_def vals_def)
  from validate_local_names [OF repeat_note_ok repeat_note_scope [unfolded One_nat_def] m] m
  show ?thesis by auto
qed

text \<open>when the catalog check accepts a document, every node of it, at any nesting and under
  a node of any type, is built in or belongs to a registered plugin.\<close>

theorem validate_with_plugins_catalog:
  assumes "validate_with_plugins builtin plugin w = Inr ()" and "node_in w n"
  shows "builtin (node_type n) \<or> plugin (node_type n)"
proof -
  from assms(2) have "validate_node_catalog builtin plugin n = Inr ()"
  proof (induction rule: node_in.induct)
    case (node_top n)
    with assms(1) show ?case by (auto simp: validate_with_plugins_def for_each_Inr)
  next
    case (node_nested n g n')
    then show ?case by (blast intro: node_catalog_children)
  qed
  then show ?thesis by (rule node_catalog_type)
qed

theorem validate_with_plugins_catalog_witness:
  "node_in repeat_note write_node \<and> (node_type write_node = ''kakune.fs.write-text@1'' \<or> False)"
proof -
  let ?builtin = "\<lambda>t. t \<in> {''kakune.fs.write-text@1'', ''kakune.flow.loop@1''}"
  have "validate_with_plugins ?builtin (\<lambda>_. False) repeat_note = Inr ()"
    by code_simp
  moreover have "node_in repeat_note write_node"
    by (rule node_top) (simp add: repeat_note_def document_of_def)
  ultimately show ?thesis
    using validate_with_plugins_catalog [of ?builtin "\<lambda>_. False" repeat_note write_node]
    by (simp add: write_node_def)
qed

text \<open>a \<open>delay\<close> node may carry a body, and that body is accepted unchecked whatever it
  holds, although every other node that takes no subgraph refuses one.\<close>

theorem delay_body_unchecked:
  "validate_structured_node
     (WorkflowNode i ''kakune.flow.delay@1'' [] [(''durationMs'', d)] on r bs (Some g)) f depth lexical = Inr ()"
  by (simp add: validate_structured_node.simps validate_control_keys_def keys_def has_key_def Let_def)

end
