(* ===== verification/Planner.thy ===== *)
theory Planner
  imports Workflow_Valid
begin

text \<open>
  The planner (\<open>src/planner.rs\<close>): the node catalog, the graph searches, the semantic diagnostics
  of every scope, compilation to an execution plan and the plan view.  A plugin registry is the
  predicate \<open>plugin\<close> on node types.  A diagnostic is its code, message and pointer; its source
  range is looked up in \<open>saphyr\<close>'s spans and is not modelled.
\<close>

section \<open>The node catalog\<close>

datatype value_kind = AnyKind | StringKind | BooleanKind | IntegerKind | ObjectKind | ArrayKind

fun value_kind_name :: "value_kind \<Rightarrow> string" where
  "value_kind_name AnyKind = ''any''"
| "value_kind_name StringKind = ''string''"
| "value_kind_name BooleanKind = ''boolean''"
| "value_kind_name IntegerKind = ''integer''"
| "value_kind_name ObjectKind = ''object''"
| "value_kind_name ArrayKind = ''array''"

type_synonym ports = "(string \<times> value_kind) list"

record node_def =
  required_inputs :: ports
  optional_inputs :: ports
  out_ports :: ports
  routes :: "string list"
  dynamic_inputs :: bool
  dynamic_outputs :: bool
  dynamic_routes :: bool

definition fixed_node :: "ports \<Rightarrow> ports \<Rightarrow> ports \<Rightarrow> string list \<Rightarrow> node_def" where
  "fixed_node req opt outs rs =
     \<lparr>required_inputs = req, optional_inputs = opt, out_ports = outs, routes = rs,
      dynamic_inputs = False, dynamic_outputs = False, dynamic_routes = False\<rparr>"

definition open_node :: "node_def" where
  "open_node = (fixed_node [] [] [] [''success''])\<lparr>dynamic_inputs := True, dynamic_outputs := True\<rparr>"

definition catalog :: "(string \<times> node_def) list" where
  "catalog =
     [(''kakune.flow.end@1'', fixed_node [] [] [] [''success'']),
      (''kakune.log@1'', fixed_node [(''message'', StringKind)] [] [] [''success'']),
      (''kakune.flow.pass@1'', open_node),
      (''kakune.flow.if@1'', fixed_node [(''condition'', BooleanKind)] [] [] [''true'', ''false'']),
      (''kakune.flow.delay@1'', fixed_node [(''durationMs'', IntegerKind)] [] [] [''success'']),
      (''kakune.flow.join@1'', open_node),
      (''kakune.flow.merge@1'', open_node),
      (''kakune.flow.set-variable@1'',
        fixed_node [(''value'', AnyKind)] [] [(''value'', AnyKind)] [''success'']),
      (''kakune.fs.write-text@1'',
        fixed_node [(''path'', StringKind), (''content'', StringKind)] []
          [(''path'', StringKind)] [''success'']),
      (''kakune.fs.read-text@1'',
        fixed_node [(''path'', StringKind)] [] [(''text'', StringKind)] [''success'']),
      (''kakune.fs.copy@1'',
        fixed_node [(''source'', StringKind), (''destination'', StringKind)] []
          [(''source'', StringKind), (''destination'', StringKind)] [''success'']),
      (''kakune.fs.move@1'',
        fixed_node [(''source'', StringKind), (''destination'', StringKind)] []
          [(''source'', StringKind), (''destination'', StringKind)] [''success'']),
      (''kakune.http.request@1'',
        fixed_node [(''url'', StringKind)] [(''headers'', ObjectKind), (''body'', AnyKind)]
          [(''status'', IntegerKind), (''headers'', ObjectKind), (''body'', AnyKind)]
          [''success'', ''httpError'']),
      (''kakune.process.run@1'',
        fixed_node [] [(''args'', ArrayKind), (''stdin'', StringKind)]
          [(''stdout'', StringKind), (''stderr'', StringKind), (''exitCode'', IntegerKind)]
          [''success'', ''exitError'']),
      (''kakune.ai.generate@1'',
        fixed_node [(''maxTokens'', IntegerKind), (''prompt'', StringKind)] []
          [(''text'', StringKind), (''usage'', ObjectKind), (''modelRequested'', StringKind),
           (''modelReported'', StringKind)] [''success'']),
      (''kakune.ai.minimax.messages@1'',
        fixed_node [(''maxTokens'', IntegerKind), (''messages'', ArrayKind)] []
          [(''content'', ArrayKind), (''raw'', AnyKind), (''usage'', ObjectKind),
           (''modelRequested'', StringKind), (''modelReported'', StringKind)] [''success'']),
      (''kakune.ai.extract@1'',
        fixed_node [(''maxTokens'', IntegerKind), (''prompt'', StringKind), (''schema'', ObjectKind)]
          [] [(''value'', AnyKind), (''usage'', ObjectKind)] [''success'']),
      (''kakune.ai.boolean@1'',
        fixed_node [(''maxTokens'', IntegerKind), (''prompt'', StringKind)] []
          [(''value'', BooleanKind), (''usage'', ObjectKind)] [''true'', ''false'']),
      (''kakune.ai.choose@1'',
        (fixed_node [(''maxTokens'', IntegerKind), (''prompt'', StringKind), (''choices'', ArrayKind)]
          [] [(''choice'', StringKind), (''usage'', ObjectKind)] [])\<lparr>dynamic_routes := True\<rparr>),
      (''kakune.ai.agent@1'',
        fixed_node [(''maxTokens'', IntegerKind), (''task'', StringKind), (''schema'', ObjectKind)]
          [(''tools'', ArrayKind)]
          [(''result'', AnyKind), (''usage'', ObjectKind), (''steps'', ArrayKind)] [''success'']),
      (''kakune.ai.codex.exec@1'',
        fixed_node [(''prompt'', StringKind)] [] [(''output'', AnyKind), (''usage'', ArrayKind)]
          [''success'']),
      (''kakune.ai.agent-result@1'',
        fixed_node [(''value'', AnyKind), (''schema'', ObjectKind)] [] [(''result'', AnyKind)]
          [''success'']),
      (''kakune.mcp.call@1'',
        fixed_node [(''tool'', StringKind), (''arguments'', ObjectKind)]
          [(''environment'', ObjectKind)]
          [(''content'', ArrayKind), (''isError'', BooleanKind), (''structuredContent'', AnyKind)]
          [''success''])]"

definition node_definition :: "string \<Rightarrow> node_def option" where
  "node_definition = map_of catalog"

definition is_builtin_node_type :: "string \<Rightarrow> bool" where
  "is_builtin_node_type t =
     (t \<in> set [''kakune.flow.end@1'', ''kakune.log@1'', ''kakune.flow.if@1'',
        ''kakune.flow.switch@1'', ''kakune.flow.foreach@1'', ''kakune.flow.loop@1'',
        ''kakune.flow.delay@1'', ''kakune.flow.join@1'', ''kakune.flow.merge@1'',
        ''kakune.flow.set-variable@1'', ''kakune.flow.pass@1'', ''kakune.fs.write-text@1'',
        ''kakune.fs.read-text@1'', ''kakune.fs.copy@1'', ''kakune.fs.move@1'',
        ''kakune.http.request@1'', ''kakune.process.run@1'', ''kakune.ai.codex.exec@1'',
        ''kakune.ai.minimax.messages@1'', ''kakune.ai.generate@1'', ''kakune.ai.extract@1'',
        ''kakune.ai.boolean@1'', ''kakune.ai.choose@1'', ''kakune.ai.agent@1'',
        ''kakune.ai.agent-result@1'', ''kakune.mcp.call@1''])"

definition input_kind :: "string \<Rightarrow> string \<Rightarrow> value_kind option" where
  "input_kind t name =
     Option.bind (node_definition t) (\<lambda>d. map_of (required_inputs d @ optional_inputs d) name)"

definition output_kind :: "string \<Rightarrow> string \<Rightarrow> value_kind option" where
  "output_kind t name =
     Option.bind (node_definition t)
       (\<lambda>d. if dynamic_outputs d then Some AnyKind else map_of (out_ports d) name)"

section \<open>Graph searches\<close>

text \<open>A graph as the source keeps it: a map from a node to its neighbours.  The stack \<open>pending\<close>
  has its top first, so extending it by a list puts that list on top in reverse.\<close>

type_synonym graph = "(string \<times> string list) list"

definition neighbours :: "graph \<Rightarrow> string \<Rightarrow> string list" where
  "neighbours g a = (case map_of g a of None \<Rightarrow> [] | Some bs \<Rightarrow> bs)"

definition vertices :: "graph \<Rightarrow> string set" where
  "vertices g = set (concat (map snd g))"

lemma neighbours_vertices: "set (neighbours g a) \<subseteq> vertices g"
proof (cases "map_of g a")
  case (Some bs)
  then have "(a, bs) \<in> set g" by (rule map_of_SomeD)
  with Some show ?thesis by (force simp: neighbours_def vertices_def)
qed (simp add: neighbours_def)

lemma finite_vertices [simp]: "finite (vertices g)"
  by (simp add: vertices_def)

text \<open>The loops of \<open>reachable_nodes\<close> and of \<open>control_ancestors\<close>, and that of
  \<open>control_reaches\<close>, which returns as soon as the target is popped.\<close>

function search_loop :: "graph \<Rightarrow> string list \<Rightarrow> string list \<Rightarrow> string list" where
  "search_loop g [] found = found"
| "search_loop g (a # pending) found =
     (if a \<in> set found then search_loop g pending found
      else search_loop g (rev (neighbours g a) @ pending) (a # found))"
  by pat_completeness auto

lemma search_measure:
  assumes "a \<notin> set found"
  shows "card (vertices g \<union> (set (neighbours g a) \<union> set pending) - insert a (set found))
    < card (insert a (vertices g \<union> set pending) - set found)"
proof (rule psubset_card_mono)
  show "finite (insert a (vertices g \<union> set pending) - set found)" by simp
  show "vertices g \<union> (set (neighbours g a) \<union> set pending) - insert a (set found)
    \<subset> insert a (vertices g \<union> set pending) - set found"
    using assms neighbours_vertices [of g a] by blast
qed

lemma search_pop_measure:
  "a \<in> set found \<Longrightarrow>
   insert a (vertices g \<union> set pending) - set found = vertices g \<union> set pending - set found"
  by blast

termination search_loop
  by (relation "measures [\<lambda>(g, pending, found). card (vertices g \<union> set pending - set found),
      \<lambda>(g, pending, found). length pending]")
    (auto simp: search_measure search_pop_measure)

function reaches_loop :: "graph \<Rightarrow> string \<Rightarrow> string list \<Rightarrow> string list \<Rightarrow> bool" where
  "reaches_loop g target [] visited = False"
| "reaches_loop g target (a # pending) visited =
     (if a \<in> set visited then reaches_loop g target pending visited
      else if a = target then True
      else reaches_loop g target (rev (neighbours g a) @ pending) (a # visited))"
  by pat_completeness auto

termination reaches_loop
  by (relation "measures [\<lambda>(g, target, pending, found). card (vertices g \<union> set pending - set found),
      \<lambda>(g, target, pending, found). length pending]")
    (auto simp: search_measure search_pop_measure)

definition successor_graph :: "workflow_document \<Rightarrow> graph" where
  "successor_graph w = rev (map (\<lambda>n. (node_id n, all_targets n)) (nodes w))"

text \<open>\<open>predecessors\<close>: for each target, the nodes that name it, once per occurrence.\<close>

definition predecessors_of :: "workflow_node list \<Rightarrow> string \<Rightarrow> string list" where
  "predecessors_of ns b =
     concat (map (\<lambda>n. map (\<lambda>_. node_id n) (filter (\<lambda>t. t = b) (all_targets n))) ns)"

definition predecessor_graph :: "workflow_document \<Rightarrow> graph" where
  "predecessor_graph w =
     map (\<lambda>b. (b, predecessors_of (nodes w) b)) (remdups (concat (map all_targets (nodes w))))"

definition reachable_nodes :: "workflow_document \<Rightarrow> string list" where
  "reachable_nodes w = search_loop (successor_graph w) [entry w] []"

definition control_reaches :: "workflow_document \<Rightarrow> string \<Rightarrow> string \<Rightarrow> bool" where
  "control_reaches w from target = reaches_loop (successor_graph w) target [from] []"

definition control_ancestors :: "workflow_document \<Rightarrow> string \<Rightarrow> string list" where
  "control_ancestors w target =
     search_loop (predecessor_graph w) (rev (neighbours (predecessor_graph w) target)) []"

text \<open>What a search promises its clients: it finds exactly what the edges lead to from the start.\<close>

locale graph_closure =
  fixes edges :: "'g \<Rightarrow> (string \<times> string) set"
    and start :: "'g \<Rightarrow> string set"
    and found :: "'g \<Rightarrow> string list"
  assumes found_closure: "set (found g) = (edges g)\<^sup>* `` start g"
begin

lemma found_start: "a \<in> start g \<Longrightarrow> a \<in> set (found g)"
  by (auto simp: found_closure)

lemma found_step: "a \<in> set (found g) \<Longrightarrow> (a, b) \<in> edges g \<Longrightarrow> b \<in> set (found g)"
  by (auto simp: found_closure intro: rtrancl_into_rtrancl)

lemma found_least:
  assumes "start g \<subseteq> S" and "edges g `` S \<subseteq> S"
  shows "set (found g) \<subseteq> S"
proof
  fix b
  assume "b \<in> set (found g)"
  then obtain a where a: "a \<in> start g" and "(a, b) \<in> (edges g)\<^sup>*" by (auto simp: found_closure)
  from this(2) show "b \<in> S" using a assms by (induction rule: rtrancl_induct) blast+
qed

end

definition graph_edges :: "graph \<Rightarrow> (string \<times> string) set" where
  "graph_edges g = {(a, b). b \<in> set (neighbours g a)}"

text \<open>The loop keeps every edge out of the found nodes inside the found and pending ones, and finds
  only what the pending ones lead to.\<close>

lemma search_loop_closed:
  "graph_edges g `` set found \<subseteq> set found \<union> set pending \<Longrightarrow>
   set found \<union> set pending \<subseteq> set (search_loop g pending found)
   \<and> graph_edges g `` set (search_loop g pending found) \<subseteq> set (search_loop g pending found)"
proof (induction g pending found rule: search_loop.induct)
  case (2 g a pending found)
  show ?case
  proof (cases "a \<in> set found")
    case True
    with 2 show ?thesis by (auto simp: insert_absorb)
  next
    case False
    have "graph_edges g `` set (a # found) \<subseteq> set (a # found) \<union> set (rev (neighbours g a) @ pending)"
      using 2(3) by (auto simp: graph_edges_def)
    from 2(2) [OF False this] False show ?thesis by auto
  qed
qed simp

lemma search_loop_sound:
  "set (search_loop g pending found) \<subseteq> set found \<union> (graph_edges g)\<^sup>* `` set pending"
proof (induction g pending found rule: search_loop.induct)
  case (2 g a pending found)
  have "(graph_edges g)\<^sup>* `` set (neighbours g a) \<subseteq> (graph_edges g)\<^sup>* `` {a}"
    by (auto simp: graph_edges_def intro: converse_rtrancl_into_rtrancl)
  with 2 show ?case by (cases "a \<in> set found") auto
qed simp

lemma closed_rtrancl: "R `` S \<subseteq> S \<Longrightarrow> R\<^sup>* `` S = S"
  by (rule Image_closed_trancl)

lemma search_loop_correct: "set (search_loop g pending []) = (graph_edges g)\<^sup>* `` set pending"
proof
  show "set (search_loop g pending []) \<subseteq> (graph_edges g)\<^sup>* `` set pending"
    using search_loop_sound [of g pending "[]"] by simp
  let ?S = "set (search_loop g pending [])"
  have "set pending \<subseteq> ?S" and closed: "graph_edges g `` ?S \<subseteq> ?S"
    using search_loop_closed [of g "[]" pending] by auto
  then have "(graph_edges g)\<^sup>* `` set pending \<subseteq> (graph_edges g)\<^sup>* `` ?S" by blast
  with closed_rtrancl [OF closed] show "(graph_edges g)\<^sup>* `` set pending \<subseteq> ?S" by simp
qed

lemma reaches_loop_eq_search:
  "target \<notin> set visited \<Longrightarrow>
   reaches_loop g target pending visited \<longleftrightarrow> target \<in> set (search_loop g pending visited)"
proof (induction g target pending visited rule: reaches_loop.induct)
  case (2 g target a pending visited)
  have grow: "set found \<subseteq> set (search_loop g' p found)" for g' p found
    by (induction g' p found rule: search_loop.induct) auto
  from 2 grow [of "a # visited" g "rev (neighbours g a) @ pending"] show ?case by auto
qed simp

lemma map_of_ids:
  "map_of (map (\<lambda>n. (node_id n, f n)) ns) a = map_option f (map_of (map (\<lambda>n. (node_id n, n)) ns) a)"
  by (induction ns) auto

declare search_loop.simps(2) [simp del] reaches_loop.simps(2) [simp del]

lemma successor_edges:
  assumes "distinct (map node_id (nodes w))"
  shows "graph_edges (successor_graph w) = control_edges (nodes w)"
proof -
  have "map_of (successor_graph w) a = map_option all_targets (by_id (nodes w) a)" for a
    unfolding successor_graph_def by_id_def rev_map by (rule map_of_ids)
  then have "neighbours (successor_graph w) a
      = (case by_id (nodes w) a of None \<Rightarrow> [] | Some n \<Rightarrow> all_targets n)" for a
    by (simp add: neighbours_def option.case_eq_if option.map_sel)
  with assms show ?thesis
    by (auto simp: graph_edges_def control_edges_def by_id_mem dest: by_id_in [OF sym]
        split: option.splits)
qed

lemma in_predecessors_of:
  "a \<in> set (predecessors_of ns b) \<longleftrightarrow> (\<exists>n \<in> set ns. node_id n = a \<and> b \<in> set (all_targets n))"
  by (auto simp: predecessors_of_def)

lemma neighbours_predecessor:
  "neighbours (predecessor_graph w) b = predecessors_of (nodes w) b"
proof (cases "b \<in> set (concat (map all_targets (nodes w)))")
  case True
  then have "map_of (predecessor_graph w) b = Some (predecessors_of (nodes w) b)"
    unfolding predecessor_graph_def
    by (intro map_of_is_SomeI) (auto simp: o_def)
  then show ?thesis by (simp add: neighbours_def)
next
  case False
  then have "map_of (predecessor_graph w) b = None"
    by (auto simp: predecessor_graph_def map_of_eq_None_iff image_iff)
  moreover have "predecessors_of (nodes w) b = []"
    using False by (auto simp: predecessors_of_def filter_empty_conv)
  ultimately show ?thesis by (simp add: neighbours_def)
qed

lemma predecessor_edges: "graph_edges (predecessor_graph w) = (control_edges (nodes w))\<inverse>"
  by (auto simp: graph_edges_def neighbours_predecessor in_predecessors_of control_edges_def)

lemma predecessors_image: "set (predecessors_of ns b) = (control_edges ns)\<inverse> `` {b}"
  by (auto simp: in_predecessors_of control_edges_def)

text \<open>Both searches of a document meet the contract.\<close>

interpretation reach: graph_closure
  "\<lambda>w. graph_edges (successor_graph w)" "\<lambda>w. {entry w}" reachable_nodes
  by unfold_locales (simp add: reachable_nodes_def search_loop_correct)

interpretation ancestor: graph_closure
  "\<lambda>(w, target). (control_edges (nodes w))\<inverse>"
  "\<lambda>(w, target). set (predecessors_of (nodes w) target)"
  "\<lambda>(w, target). control_ancestors w target"
  by unfold_locales
    (simp add: control_ancestors_def search_loop_correct predecessor_edges neighbours_predecessor
      split: prod.splits)

lemma control_reaches_iff:
  assumes "distinct (map node_id (nodes w))"
  shows "control_reaches w a b \<longleftrightarrow> (a, b) \<in> (control_edges (nodes w))\<^sup>*"
  using assms
  by (simp add: control_reaches_def reaches_loop_eq_search search_loop_correct successor_edges)

lemma reachable_nodes_iff:
  "distinct (map node_id (nodes w)) \<Longrightarrow>
   set (reachable_nodes w) = (control_edges (nodes w))\<^sup>* `` {entry w}"
  using reach.found_closure [of w] by (simp add: successor_edges)

lemma control_ancestors_iff:
  "a \<in> set (control_ancestors w b) \<longleftrightarrow> (a, b) \<in> (control_edges (nodes w))\<^sup>+"
proof -
  have "set (control_ancestors w b)
      = ((control_edges (nodes w))\<inverse>)\<^sup>* `` (((control_edges (nodes w))\<inverse>) `` {b})"
    using ancestor.found_closure [of "(w, b)"] by (simp only: prod.case predecessors_image)
  also have "\<dots> = ((control_edges (nodes w))\<inverse>)\<^sup>+ `` {b}"
    by (simp only: relcomp_Image trancl_unfold_left)
  finally show ?thesis by (simp add: trancl_converse)
qed

end
