(* ===== verification/Analysis.thy ===== *)
theory Analysis
  imports Planner
begin

text \<open>
  Semantic analysis (\<open>src/planner.rs\<close>): the diagnostics of every scope of a document, the plan a
  clean document compiles to, and the view of it.
\<close>

section \<open>Diagnostics\<close>

record diagnostic =
  diag_code :: string
  diag_message :: string
  diag_pointer :: string

abbreviation diag :: "string \<Rightarrow> string \<Rightarrow> string \<Rightarrow> diagnostic" where
  "diag c m p \<equiv> \<lparr>diag_code = c, diag_message = m, diag_pointer = p\<rparr>"

text \<open>\<open>if !condition { diagnostics.push(d) }\<close>\<close>

definition report_unless :: "bool \<Rightarrow> diagnostic \<Rightarrow> diagnostic list" where
  "report_unless ok d = (if ok then [] else [d])"

lemma report_unless_Nil [simp]: "report_unless ok d = [] \<longleftrightarrow> ok"
  by (simp add: report_unless_def)

section \<open>Pointers and durations\<close>

definition replace_char :: "char \<Rightarrow> string \<Rightarrow> string \<Rightarrow> string" where
  "replace_char c r s = concat (map (\<lambda>d. if d = c then r else [d]) s)"

text \<open>\<open>str::replace\<close> of a pattern of two bytes.\<close>

fun replace_pair :: "char \<Rightarrow> char \<Rightarrow> string \<Rightarrow> string \<Rightarrow> string" where
  "replace_pair a b r (x # y # s) =
     (if x = a \<and> y = b then r @ replace_pair a b r s else x # replace_pair a b r (y # s))"
| "replace_pair a b r s = s"

definition escape_pointer :: "string \<Rightarrow> string" where
  "escape_pointer s = replace_char CHR ''/'' ''~1'' (replace_char CHR ''~'' ''~0'' s)"

definition decode_pointer_segment :: "string \<Rightarrow> string" where
  "decode_pointer_segment s =
     replace_pair CHR ''~'' CHR ''0'' ''~'' (replace_pair CHR ''~'' CHR ''1'' ''/'' s)"

definition valid_duration :: "string \<Rightarrow> bool" where
  "valid_duration s =
     (let v = trim s; digits = takeWhile is_ascii_digit v; suffix = dropWhile is_ascii_digit v in
      suffix \<noteq> [] \<and> suffix \<in> set [''ms'', ''s'', ''m'', ''h'']
      \<and> (case parse_u64 digits of None \<Rightarrow> False | Some n \<Rightarrow> 0 < n))"

section \<open>One node\<close>

definition literal_matches :: "value_kind \<Rightarrow> json \<Rightarrow> bool" where
  "literal_matches k v =
     (case k of
        AnyKind \<Rightarrow> True
      | StringKind \<Rightarrow> is_string v
      | BooleanKind \<Rightarrow> is_boolean v
      | IntegerKind \<Rightarrow> as_i64 v \<noteq> None \<or> as_u64 v \<noteq> None
      | ObjectKind \<Rightarrow> is_object v
      | ArrayKind \<Rightarrow> is_array v)"

definition validate_literal_type ::
  "workflow_binding \<Rightarrow> value_kind \<Rightarrow> string \<Rightarrow> diagnostic list" where
  "validate_literal_type b k pointer =
     (case b of
        Literal v \<Rightarrow>
          report_unless (literal_matches k v)
            (diag ''catalog.incompatible_literal'' ''literal does not match the input type'' pointer)
      | _ \<Rightarrow> [])"

definition validate_node :: "workflow_node \<Rightarrow> node_def \<Rightarrow> string \<Rightarrow> diagnostic list" where
  "validate_node n d pointer =
     concat (map
       (\<lambda>(name, _). report_unless (has_key (node_inputs n) name)
          (diag ''catalog.required_input''
             (''node '' @ node_id n @ '' requires input '' @ name) (pointer @ ''/inputs'')))
       (required_inputs d))
     @ (if dynamic_inputs d then []
        else concat (map
          (\<lambda>(name, b).
             (case map_of (required_inputs d @ optional_inputs d) name of
                None \<Rightarrow> [diag ''catalog.unknown_input''
                  (''node '' @ node_id n @ '' does not expose input '' @ name)
                  (pointer @ ''/inputs/'' @ name)]
              | Some k \<Rightarrow> validate_literal_type b k (pointer @ ''/inputs/'' @ name)))
          (node_inputs n)))
     @ report_unless
         (\<not> (node_type n = ''kakune.process.run@1''
              \<and> \<not> (case map_of (node_with n) ''command'' of None \<Rightarrow> False | Some v \<Rightarrow> is_string v)))
         (diag ''process.command''
            (''node '' @ node_id n @ '' requires with.command as a string'')
            (pointer @ ''/with/command''))
     @ (if node_type n \<in> set external_effect_types
        then (case map_of (node_with n) ''timeoutSeconds'' of
            None \<Rightarrow> []
          | Some t \<Rightarrow>
              (let maximum = (if node_type n = ''kakune.http.request@1'' then 120 else 3600) in
               report_unless (case as_u64 t of None \<Rightarrow> False | Some k \<Rightarrow> 1 \<le> k \<and> k \<le> maximum)
                 (diag ''catalog.invalid_timeout''
                    (''node '' @ node_id n @ '' timeoutSeconds must be an integer from 1 to ''
                     @ show_nat maximum)
                    (pointer @ ''/with/timeoutSeconds''))))
        else [])"

definition validate_routes :: "workflow_node \<Rightarrow> node_def \<Rightarrow> string \<Rightarrow> diagnostic list" where
  "validate_routes n d pointer =
     concat (map
       (\<lambda>route. report_unless (dynamic_routes d \<or> route \<in> set (routes d))
          (diag ''catalog.unknown_route''
             (''node '' @ node_id n @ '' does not expose route '' @ route)
             (pointer @ ''/on/'' @ route)))
       (keys (node_on n)))"

section \<open>References\<close>

definition known_output :: "string \<Rightarrow> string \<Rightarrow> bool" where
  "known_output t output =
     (case node_definition t of
        None \<Rightarrow> True
      | Some d \<Rightarrow> dynamic_outputs d \<or> output \<in> set (map fst (out_ports d)))"

definition kinds_agree :: "string \<Rightarrow> string \<Rightarrow> string \<Rightarrow> string \<Rightarrow> bool" where
  "kinds_agree consumer name producer output =
     (case (input_kind consumer name, output_kind producer output) of
        (Some expected, Some actual) \<Rightarrow>
          expected = AnyKind \<or> actual = AnyKind \<or> expected = actual
      | _ \<Rightarrow> True)"

definition validate_from_reference ::
  "workflow_document \<Rightarrow> string \<Rightarrow> workflow_node \<Rightarrow> string \<Rightarrow> string list \<Rightarrow> string
   \<Rightarrow> diagnostic list" where
  "validate_from_reference w name consumer pointer lexical from =
     (let pos = pointer @ ''/inputs/'' @ name @ ''/from'' in
      if starts_with from ''$'' then
        report_unless
          (local_root from \<in> {''$input'', ''$trigger''} \<or> local_root from \<in> set lexical)
          (diag ''binding.unknown_scope''
             (''binding source '' @ from @ '' is not available in this lexical scope'') pos)
      else (case split_once CHR ''.'' from of
          None \<Rightarrow> [diag ''binding.invalid_reference''
            (''binding reference '' @ from @ '' must name a node output'') pos]
        | Some (producer_id, output) \<Rightarrow>
            (case by_id (nodes w) producer_id of
               None \<Rightarrow> [diag ''binding.unknown_node''
                 (''binding source '' @ from @ '' references unknown node '' @ producer_id) pos]
             | Some producer \<Rightarrow>
                 report_unless (control_reaches w producer_id (node_id consumer))
                   (diag ''binding.unavailable''
                      (''binding source '' @ from @ '' is not guaranteed before node ''
                       @ node_id consumer) pos)
                 @ report_unless (known_output (node_type producer) output)
                     (diag ''binding.unknown_output''
                        (''node '' @ producer_id @ '' does not expose output '' @ output) pos)
                 @ report_unless
                     (kinds_agree (node_type consumer) name (node_type producer) output)
                     (diag ''binding.incompatible_type''
                        (''binding source '' @ from @ '' has type ''
                         @ (case output_kind (node_type producer) output of
                              None \<Rightarrow> [] | Some k \<Rightarrow> value_kind_name k)
                         @ '', but input '' @ name @ '' expects ''
                         @ (case input_kind (node_type consumer) name of
                              None \<Rightarrow> [] | Some k \<Rightarrow> value_kind_name k)) pos))))"

lemma entry_size: "(k, v) \<in> set m \<Longrightarrow> size v < size (JObject m)"
  by (induction m) auto

lemma vals_size: "v \<in> set (vals m) \<Longrightarrow> size v < size (JObject m)"
  by (auto simp: in_vals dest: entry_size)

text \<open>The references an expression makes: every \<open>from\<close> string of an object in it, outermost
  first.\<close>

function expression_references :: "json \<Rightarrow> string list" where
  "expression_references (JArray vs) = concat (map expression_references vs)"
| "expression_references (JObject m) =
     (case Option.bind (map_of m ''from'') as_str of None \<Rightarrow> [] | Some from \<Rightarrow> [from])
     @ concat (map expression_references (vals m))"
| "expression_references JNull = []"
| "expression_references (JBool b) = []"
| "expression_references (JNumber n) = []"
| "expression_references (JString s) = []"
  by pat_completeness auto
termination
  by (relation "measure size") (auto simp del: json.size dest: array_size_less vals_size)

definition validate_expression_references ::
  "workflow_document \<Rightarrow> string \<Rightarrow> workflow_node \<Rightarrow> string \<Rightarrow> string list \<Rightarrow> json
   \<Rightarrow> diagnostic list" where
  "validate_expression_references w name consumer pointer lexical expression =
     concat (map (validate_from_reference w name consumer pointer lexical)
       (expression_references expression))"

definition validate_binding_reference ::
  "workflow_document \<Rightarrow> string \<Rightarrow> workflow_node \<Rightarrow> string \<Rightarrow> string list \<Rightarrow> workflow_binding
   \<Rightarrow> diagnostic list" where
  "validate_binding_reference w name consumer pointer lexical b =
     (case b of
        From from \<Rightarrow> validate_from_reference w name consumer pointer lexical from
      | Expr e \<Rightarrow> validate_expression_references w name consumer pointer lexical e
      | _ \<Rightarrow> [])"

definition validate_output_binding ::
  "workflow_document \<Rightarrow> string list \<Rightarrow> string \<times> workflow_binding \<Rightarrow> diagnostic list" where
  "validate_output_binding w lexical nb =
     (case nb of (name, From from) \<Rightarrow>
        (let pos = ''/outputs/'' @ name @ ''/from'' in
         if starts_with from ''$'' then
           report_unless
             (local_root from \<in> {''$input'', ''$trigger''} \<or> local_root from \<in> set lexical)
             (diag ''binding.unknown_scope''
                (''workflow output '' @ name @ '' uses unavailable lexical binding '' @ from) pos)
         else (case split_once CHR ''.'' from of
             None \<Rightarrow> [diag ''binding.invalid_reference''
               (''workflow output '' @ name @ '' must reference a node output'') pos]
           | Some (i, output) \<Rightarrow>
               (case by_id (nodes w) i of
                  None \<Rightarrow> [diag ''binding.unknown_node''
                    (''workflow output '' @ name @ '' references unknown node '' @ i) pos]
                | Some n \<Rightarrow>
                    report_unless (i \<in> set (reachable_nodes w))
                      (diag ''binding.unreachable_output''
                         (''workflow output '' @ name @ '' references unreachable node '' @ i) pos)
                    @ report_unless (known_output (node_type n) output)
                        (diag ''binding.unknown_output''
                           (''node '' @ i @ '' does not expose output '' @ output) pos))))
      | _ \<Rightarrow> [])"

section \<open>Scopes\<close>

definition child_lexical_bindings :: "string list \<Rightarrow> string \<Rightarrow> string list" where
  "child_lexical_bindings inherited t =
     (if t = ''kakune.flow.foreach@1'' then [''$item'', ''$index''] @ inherited
      else if t = ''kakune.flow.loop@1'' then [''$state'', ''$iteration''] @ inherited
      else if t = ''kakune.flow.switch@1'' then ''$value'' # inherited
      else inherited)"

definition variable_name :: "workflow_node \<Rightarrow> string option" where
  "variable_name n =
     (if node_type n = ''kakune.flow.set-variable@1''
      then Option.bind (map_of (node_with n) ''name'') as_str else None)"

definition variable_bindings :: "workflow_node list \<Rightarrow> string list" where
  "variable_bindings ns =
     concat (map (\<lambda>n. (case variable_name n of None \<Rightarrow> [] | Some v \<Rightarrow> [''$'' @ v])) ns)"

definition lexical_bindings_before_node ::
  "workflow_document \<Rightarrow> workflow_node \<Rightarrow> string list \<Rightarrow> string list" where
  "lexical_bindings_before_node w consumer inherited =
     variable_bindings
       (filter (\<lambda>n. node_id n \<in> set (control_ancestors w (node_id consumer))) (nodes w))
     @ inherited"

definition lexical_bindings_for_outputs :: "workflow_document \<Rightarrow> string list \<Rightarrow> string list" where
  "lexical_bindings_for_outputs w inherited = variable_bindings (nodes w) @ inherited"

definition scoped_workflow :: "workflow_document \<Rightarrow> workflow_subgraph \<Rightarrow> workflow_document" where
  "scoped_workflow w g =
     w\<lparr>entry := sub_entry g, nodes := sub_nodes g, outputs := sub_outputs g, layout := []\<rparr>"

definition scope_node_diagnostics ::
  "(string \<Rightarrow> bool) \<Rightarrow> workflow_document \<Rightarrow> string \<Rightarrow> string list \<Rightarrow> nat \<times> workflow_node
   \<Rightarrow> diagnostic list" where
  "scope_node_diagnostics plugin w base lexical = (\<lambda>(i, n).
     let available = lexical_bindings_before_node w n lexical;
         pointer = base @ ''/nodes/'' @ show_nat i
     in report_unless (node_id n \<in> set (reachable_nodes w))
          (diag ''workflow.unreachable_node''
             (''node '' @ node_id n @ '' is not reachable from entry '' @ entry w) pointer)
        @ (if node_definition (node_type n) = None \<and> \<not> is_builtin_node_type (node_type n)
              \<and> \<not> plugin (node_type n)
           then [diag ''catalog.unknown_node''
             (''node '' @ node_id n @ '' uses unregistered node type '' @ node_type n)
             (pointer @ ''/type'')]
           else
             (case node_definition (node_type n) of
                None \<Rightarrow> []
              | Some d \<Rightarrow> validate_node n d pointer @ validate_routes n d pointer)
             @ concat (map
                 (\<lambda>(name, b). validate_binding_reference w name n pointer available b)
                 (node_inputs n))))"

definition own_scope_diagnostics ::
  "(string \<Rightarrow> bool) \<Rightarrow> workflow_document \<Rightarrow> string \<Rightarrow> string list \<Rightarrow> diagnostic list" where
  "own_scope_diagnostics plugin w base lexical =
     report_unless (case timeout (policy w) of None \<Rightarrow> True | Some t \<Rightarrow> valid_duration t)
       (diag ''policy.invalid_timeout''
          ''policy.timeout must be a positive duration using ms, s, m, or h'' ''/policy/timeout'')
     @ concat (map (scope_node_diagnostics plugin w base lexical) (enumerate 0 (nodes w)))
     @ concat (map (validate_output_binding w (lexical_bindings_for_outputs w lexical)) (outputs w))"

text \<open>The nested scopes in the order they are visited, each as a document of its own, with its
  pointer and its lexical names.\<close>

definition nested_scopes ::
  "workflow_document \<Rightarrow> string \<Rightarrow> string list \<Rightarrow> nat \<times> workflow_node
   \<Rightarrow> (workflow_document \<times> string \<times> string list) list" where
  "nested_scopes w base lexical = (\<lambda>(i, n).
     let pointer = base @ ''/nodes/'' @ show_nat i;
         child_bindings =
           child_lexical_bindings (lexical_bindings_before_node w n lexical) (node_type n)
     in map (\<lambda>(branch, g).
            (scoped_workflow w g, pointer @ ''/branches/'' @ escape_pointer branch, child_bindings))
          (node_branches n)
        @ (case node_body n of
             None \<Rightarrow> []
           | Some g \<Rightarrow> [(scoped_workflow w g, pointer @ ''/body'', child_bindings)]))"

function validate_scope_semantics ::
  "(string \<Rightarrow> bool) \<Rightarrow> workflow_document \<Rightarrow> string \<Rightarrow> string list \<Rightarrow> diagnostic list" where
  "validate_scope_semantics plugin w base lexical =
     own_scope_diagnostics plugin w base lexical
     @ concat (map (\<lambda>(child, pointer, names). validate_scope_semantics plugin child pointer names)
         (concat (map (nested_scopes w base lexical) (enumerate 0 (nodes w)))))"
  by pat_completeness auto

lemma subgraph_size: "g \<in> set (subgraphs n) \<Longrightarrow> size_list size (sub_nodes g) < size n"
proof -
  assume "g \<in> set (subgraphs n)"
  then have "size g < size n"
    by (cases n) (auto simp: subgraphs_def in_vals dest: size_branch_less split: option.splits)
  then show ?thesis by (cases g) simp
qed

lemma scope_size:
  "g \<in> set (subgraphs n) \<Longrightarrow> n \<in> set ns \<Longrightarrow> size_list size (sub_nodes g) < size_list size ns"
  using subgraph_size [of g n] size_list_estimation' [of n ns "size n" size] by force

lemma nested_scopes_in:
  assumes "(u, p, names) \<in> set (nested_scopes w base lexical (i, n))"
  shows "\<exists>g \<in> set (subgraphs n). u = scoped_workflow w g"
  using assms by (auto simp: nested_scopes_def subgraphs_def in_vals Let_def split: option.splits)

lemma nested_scopes_of:
  assumes "g \<in> set (subgraphs n)"
  shows "\<exists>p. (scoped_workflow w g, p,
    child_lexical_bindings (lexical_bindings_before_node w n lexical) (node_type n))
      \<in> set (nested_scopes w base lexical (i, n))"
  using assms
  by (cases "g \<in> set (vals (node_branches n))")
    (auto simp: nested_scopes_def subgraphs_def in_vals Let_def image_iff split: option.splits;
      fastforce)+

termination validate_scope_semantics
proof (relation "measure (\<lambda>(_, w, _, _). size_list size (nodes w))", goal_cases)
  case (2 plugin w base lexical c u q p names)
  then obtain i n where n: "(i, n) \<in> set (enumerate 0 (nodes w))"
    and u: "(u, p, names) \<in> set (nested_scopes w base lexical (i, n))" by auto
  from n have "n \<in> set (nodes w)" by (auto simp: in_set_enumerate_eq)
  with nested_scopes_in [OF u] show ?case by (auto simp: scoped_workflow_def intro: scope_size)
qed simp

declare validate_scope_semantics.simps [simp del]

section \<open>The whole document\<close>

function graph_metrics :: "workflow_node list \<Rightarrow> nat \<Rightarrow> nat \<times> nat \<times> nat" where
  "graph_metrics ns depth =
     foldl
       (\<lambda>metrics g.
          (case (metrics, graph_metrics (sub_nodes g) (Suc depth)) of
             ((count, edge_count, maximum_depth), (children, edges, nested_depth)) \<Rightarrow>
               (count + children, edge_count + edges, max maximum_depth nested_depth)))
       (length ns, sum_list (map targets_len (concat (map (\<lambda>n. vals (node_on n)) ns))), depth)
       (concat (map subgraphs ns))"
  by pat_completeness auto
termination
  by (relation "measure (\<lambda>(ns, _). size_list size ns)") (auto dest: scope_size)

declare graph_metrics.simps [simp del]

definition MAX_NODES :: nat where "MAX_NODES = 512"

definition MAX_EDGES :: nat where "MAX_EDGES = 2048"

definition validate_semantics ::
  "(string \<Rightarrow> bool) \<Rightarrow> workflow_document \<Rightarrow> diagnostic list" where
  "validate_semantics plugin w =
     (case graph_metrics (nodes w) 0 of (count, edge_count, depth) \<Rightarrow>
        report_unless (count \<le> MAX_NODES)
          (diag ''workflow.node_limit''
             (''workflow exceeds the maximum of '' @ show_nat MAX_NODES @ '' nodes'') ''/nodes'')
        @ report_unless (edge_count \<le> MAX_EDGES)
            (diag ''workflow.edge_limit''
               (''workflow exceeds the maximum of '' @ show_nat MAX_EDGES @ '' control edges'')
               ''/nodes'')
        @ report_unless (depth \<le> 32)
            (diag ''workflow.nesting_limit''
               ''workflow exceeds the maximum control nesting depth of 32'' ''/nodes'')
        @ validate_scope_semantics plugin w [] [])"

record workflow_analysis =
  analysed :: "workflow_document option"
  diagnostics :: "diagnostic list"

definition is_valid :: "workflow_analysis \<Rightarrow> bool" where
  "is_valid a = (analysed a \<noteq> None \<and> diagnostics a = [])"

text \<open>\<open>read\<close> is \<open>WorkflowDocument::parse\<close>, that is \<^const>\<open>parse\<close> at its decoders.\<close>

definition analyze ::
  "(string \<Rightarrow> (string, workflow_document) result) \<Rightarrow> (string \<Rightarrow> bool) \<Rightarrow> string
   \<Rightarrow> workflow_analysis" where
  "analyze read plugin source =
     (case read source of
        Inl e \<Rightarrow> \<lparr>analysed = None, diagnostics = [diag ''yaml.invalid'' e []]\<rparr>
      | Inr w \<Rightarrow> \<lparr>analysed = Some w, diagnostics = validate_semantics plugin w\<rparr>)"

section \<open>Compilation\<close>

record planned_node =
  planned_id :: string
  planned_type :: string
  data_dependencies :: "string list"
  control_dependencies :: "string list"
  planned_node :: workflow_node

record execution_plan =
  plan_workflow_id :: string
  plan_nodes :: "planned_node list"
  plan_entry :: string
  plan_outputs :: bindings
  plan_policy :: workflow_policy
  input_values :: json
  trigger_values :: json

record compiled_workflow =
  ir :: workflow_document
  plan :: execution_plan

definition reference_node :: "string \<Rightarrow> string option" where
  "reference_node from =
     (if starts_with from ''$'' then None else map_option fst (split_once CHR ''.'' from))"

text \<open>The nodes with a route to a node.  The source iterates over a hash map here, so the order of
  this list is not specified; the model takes the order of the nodes.\<close>

definition routed_from :: "workflow_node list \<Rightarrow> string \<Rightarrow> string list" where
  "routed_from ns t = map node_id (filter (\<lambda>c. t \<in> set (all_targets c)) ns)"

definition plan_node :: "workflow_node list \<Rightarrow> workflow_node \<Rightarrow> planned_node" where
  "plan_node ns n =
     \<lparr>planned_id = node_id n, planned_type = node_type n,
      data_dependencies =
        List.map_filter
          (\<lambda>b. (case b of From from \<Rightarrow> reference_node from | _ \<Rightarrow> None)) (vals (node_inputs n)),
      control_dependencies = routed_from ns (node_id n),
      planned_node = n\<rparr>"

definition compile ::
  "(string \<Rightarrow> (string, workflow_document) result) \<Rightarrow> (string \<Rightarrow> bool) \<Rightarrow> string
   \<Rightarrow> (diagnostic list, compiled_workflow) result" where
  "compile read plugin source =
     (let analysis = analyze read plugin source in
      if diagnostics analysis \<noteq> [] then Inl (diagnostics analysis)
      else (case analysed analysis of
          None \<Rightarrow> Inl []
        | Some w \<Rightarrow>
            (case validate_with_plugins is_builtin_node_type plugin w of
               Inl e \<Rightarrow> Inl [diag ''catalog.unknown_node'' e ''/nodes'']
             | Inr _ \<Rightarrow>
                 Inr \<lparr>ir = w,
                      plan = \<lparr>plan_workflow_id = meta_id (metadata w),
                        plan_nodes = map (plan_node (nodes w)) (nodes w),
                        plan_entry = entry w, plan_outputs = outputs w, plan_policy = policy w,
                        input_values = JObject [], trigger_values = JObject []\<rparr>\<rparr>)))"

section \<open>The plan view\<close>

record plan_node_view =
  view_id :: string
  view_type :: string
  view_data_dependencies :: "string list"
  view_control_dependencies :: "string list"
  view_routes :: "string list btree_map"
  view_branches :: "string btree_map"
  view_body :: "string option"

record plan_scope_view =
  scope_id :: string
  scope_kind :: string
  scope_entry :: string
  scope_nodes :: "plan_node_view list"

definition collect_expression_dependencies :: "json \<Rightarrow> string list" where
  "collect_expression_dependencies v = List.map_filter reference_node (expression_references v)"

definition collect_binding_dependencies :: "workflow_binding \<Rightarrow> string list" where
  "collect_binding_dependencies b =
     (case b of
        From from \<Rightarrow> (case reference_node from of None \<Rightarrow> [] | Some i \<Rightarrow> [i])
      | Expr e \<Rightarrow> collect_expression_dependencies e
      | _ \<Rightarrow> [])"

text \<open>\<open>sort()\<close> followed by \<open>dedup()\<close>.\<close>

definition sort_dedup :: "string list \<Rightarrow> string list" where
  "sort_dedup xs = keys (foldl (\<lambda>m x. map_insert x () m) [] xs)"

definition view_node :: "workflow_node list \<Rightarrow> string \<Rightarrow> workflow_node \<Rightarrow> plan_node_view" where
  "view_node ns scope n =
     \<lparr>view_id = node_id n, view_type = node_type n,
      view_data_dependencies =
        sort_dedup (concat (map collect_binding_dependencies (vals (node_inputs n)))),
      view_control_dependencies = routed_from ns (node_id n),
      view_routes = map (\<lambda>(route, ts). (route, targets_iter ts)) (node_on n),
      view_branches =
        map (\<lambda>b. (b, scope @ ''/'' @ node_id n @ ''/branches/'' @ b)) (keys (node_branches n)),
      view_body = map_option (\<lambda>_. scope @ ''/'' @ node_id n @ ''/body'') (node_body n)\<rparr>"

definition capability :: "(string \<Rightarrow> bool) \<Rightarrow> string \<Rightarrow> string" where
  "capability plugin t =
     (if node_definition t \<noteq> None \<or> is_builtin_node_type t \<or> plugin t
      then ''available'' else ''unavailable'')"

text \<open>The subgraphs of a node with the names of their scopes and their kinds.\<close>

definition named_subgraphs ::
  "string \<Rightarrow> workflow_node \<Rightarrow> (string \<times> string \<times> workflow_subgraph) list" where
  "named_subgraphs scope n =
     map (\<lambda>(b, g). (scope @ ''/'' @ node_id n @ ''/branches/'' @ b, ''branch'', g)) (node_branches n)
     @ (case node_body n of
          None \<Rightarrow> [] | Some g \<Rightarrow> [(scope @ ''/'' @ node_id n @ ''/body'', ''body'', g)])"

function append_plan_scope ::
  "(string \<Rightarrow> bool) \<Rightarrow> workflow_node list \<Rightarrow> string \<Rightarrow> string \<Rightarrow> string
   \<Rightarrow> plan_scope_view list \<times> string btree_map \<Rightarrow> plan_scope_view list \<times> string btree_map" where
  "append_plan_scope plugin ns e scope knd state =
     foldl
       (\<lambda>st (scope', knd', g).
          append_plan_scope plugin (sub_nodes g) (sub_entry g) scope' knd' st)
       (fst state @ [\<lparr>scope_id = scope, scope_kind = knd, scope_entry = e,
          scope_nodes = map (view_node ns scope) ns\<rparr>],
        foldl (\<lambda>m n. map_insert (node_type n) (capability plugin (node_type n)) m) (snd state) ns)
       (concat (map (named_subgraphs scope) ns))"
  by pat_completeness auto

lemma named_subgraphs_in: "(s, k, g) \<in> set (named_subgraphs scope n) \<Longrightarrow> g \<in> set (subgraphs n)"
  by (auto simp: named_subgraphs_def subgraphs_def in_vals split: option.splits)

termination append_plan_scope
  by (relation "measure (\<lambda>(_, ns, _, _, _, _). size_list size ns)")
    (auto dest: named_subgraphs_in scope_size)

declare append_plan_scope.simps [simp del]

record runtime_limits =
  loop_limits :: "nat list"
  retry_limits :: "nat list"
  parallelism_limits :: "nat list"

definition node_limits :: "workflow_node \<Rightarrow> runtime_limits \<Rightarrow> runtime_limits" where
  "node_limits n l =
     l\<lparr>loop_limits := loop_limits l
         @ (case Option.bind (map_of (node_with n) ''maxIterations'') as_u64 of
              None \<Rightarrow> [] | Some k \<Rightarrow> [k]),
       retry_limits := retry_limits l
         @ (case node_retry n of None \<Rightarrow> [] | Some r \<Rightarrow> [max_attempts r]),
       parallelism_limits := parallelism_limits l
         @ concat (map
             (\<lambda>key. (case Option.bind (map_of (node_with n) key) as_u64 of
                None \<Rightarrow> [] | Some k \<Rightarrow> (if k < 2 ^ 32 then [k] else [])))
             [''maxConcurrency'', ''maxParallelNodes''])\<rparr>"

function collect_runtime_limits ::
  "workflow_node list \<Rightarrow> runtime_limits \<Rightarrow> runtime_limits" where
  "collect_runtime_limits ns l =
     foldl
       (\<lambda>l n. foldl (\<lambda>l g. collect_runtime_limits (sub_nodes g) l) (node_limits n l) (subgraphs n))
       l ns"
  by pat_completeness auto
termination
  by (relation "measure (\<lambda>(ns, _). size_list size ns)") (auto dest: scope_size)

declare collect_runtime_limits.simps [simp del]

record plan_bounds_view =
  node_count :: nat
  control_edge_count :: nat
  nesting_depth :: nat
  maximum_nodes :: nat
  maximum_control_edges :: nat
  maximum_nesting_depth :: nat
  bound_limits :: runtime_limits
  workflow_timeout :: "string option"

record plan_view =
  view_format :: string
  view_workflow_id :: "string option"
  view_revision :: "string option"
  view_scopes :: "plan_scope_view list"
  view_bounds :: plan_bounds_view
  capability_availability :: "string btree_map"
  view_diagnostics :: "diagnostic list"

definition no_limits :: runtime_limits where
  "no_limits = \<lparr>loop_limits = [], retry_limits = [], parallelism_limits = []\<rparr>"

definition plan_view_of ::
  "(string \<Rightarrow> (string, workflow_document) result) \<Rightarrow> (string \<Rightarrow> bool) \<Rightarrow> string
   \<Rightarrow> string option \<Rightarrow> plan_view" where
  "plan_view_of read plugin source revision =
     (let analysis = analyze read plugin source in
      (case analysed analysis of
         None \<Rightarrow>
           \<lparr>view_format = ''kakune-plan/v1'', view_workflow_id = None, view_revision = revision,
            view_scopes = [],
            view_bounds = \<lparr>node_count = 0, control_edge_count = 0, nesting_depth = 0,
              maximum_nodes = MAX_NODES, maximum_control_edges = MAX_EDGES,
              maximum_nesting_depth = 32, bound_limits = no_limits, workflow_timeout = None\<rparr>,
            capability_availability = [], view_diagnostics = diagnostics analysis\<rparr>
       | Some w \<Rightarrow>
           (case append_plan_scope plugin (nodes w) (entry w) ''workflow'' ''workflow'' ([], [])
            of (scopes, capabilities) \<Rightarrow>
            (case graph_metrics (nodes w) 0 of (count, edge_count, depth) \<Rightarrow>
               \<lparr>view_format = ''kakune-plan/v1'', view_workflow_id = Some (meta_id (metadata w)),
                view_revision = revision, view_scopes = scopes,
                view_bounds = \<lparr>node_count = count, control_edge_count = edge_count,
                  nesting_depth = depth, maximum_nodes = MAX_NODES,
                  maximum_control_edges = MAX_EDGES, maximum_nesting_depth = 32,
                  bound_limits = collect_runtime_limits (nodes w) no_limits,
                  workflow_timeout = timeout (policy w)\<rparr>,
                capability_availability = capabilities,
                view_diagnostics = diagnostics analysis\<rparr>))))"

section \<open>Pointer segments\<close>

lemma replace_pair_other [simp]: "x \<noteq> a \<Longrightarrow> replace_pair a b r (x # s) = x # replace_pair a b r s"
  by (cases s) auto

lemma replace_pair_skip:
  "y \<noteq> b \<Longrightarrow> y \<noteq> a \<Longrightarrow> replace_pair a b r (x # y # s) = x # y # replace_pair a b r s"
  by simp

lemma escape_unescape:
  "decode_pointer_segment (escape_pointer s) = s"
proof -
  let ?tilde = "\<lambda>c. if c = CHR ''~'' then ''~0'' else [c]"
  have "replace_pair CHR ''~'' CHR ''1'' ''/'' (escape_pointer s) = concat (map ?tilde s)"
    by (induction s) (auto simp: escape_pointer_def replace_char_def)
  moreover have "replace_pair CHR ''~'' CHR ''0'' ''~'' (concat (map ?tilde s)) = s"
    by (induction s) auto
  ultimately show ?thesis by (simp add: decode_pointer_segment_def)
qed

lemma escape_no_slash: "CHR ''/'' \<notin> set (escape_pointer s)"
  by (auto simp: escape_pointer_def replace_char_def split: if_splits)

section \<open>Clean scopes\<close>

text \<open>The scopes the analysis walks through below control nodes, as documents of their own, with the
  lexical names it hands down.\<close>

inductive planned_scope ::
  "workflow_document \<Rightarrow> string list \<Rightarrow> workflow_document \<Rightarrow> bool" for w where
  planned_top: "planned_scope w [] w"
| planned_nested: "planned_scope w lexical u \<Longrightarrow> n \<in> set (nodes u)
    \<Longrightarrow> control_kind (node_type n) \<noteq> None \<Longrightarrow> g \<in> set (subgraphs n)
    \<Longrightarrow> planned_scope w
      (child_lexical_bindings (lexical_bindings_before_node u n lexical) (node_type n))
      (scoped_workflow u g)"

lemma planned_scope_of:
  assumes "planned_scope w lexical u"
  shows "\<exists>d names. scope_of w d names (top_scope u)"
  using assms
proof (induction rule: planned_scope.induct)
  case planned_top
  show ?case using scope_of.top by blast
next
  case (planned_nested lexical u n g)
  then obtain d names where "scope_of w d names (top_scope u)" by blast
  from scope_of.nested [OF this _ planned_nested(3,4)] planned_nested(2)
  have "scope_of w (Suc d) (names @ scope_bindings (control_kind (node_type n))) g"
    by (simp add: top_scope_def)
  moreover have "top_scope (scoped_workflow u g) = g"
    by (cases g) (simp add: top_scope_def scoped_workflow_def)
  ultimately show ?case by metis
qed

lemma scope_semantics_nested:
  assumes clean: "validate_scope_semantics plugin u base lexical = []"
    and n: "n \<in> set (nodes u)" and g: "g \<in> set (subgraphs n)"
  shows "\<exists>base'. validate_scope_semantics plugin (scoped_workflow u g) base'
    (child_lexical_bindings (lexical_bindings_before_node u n lexical) (node_type n)) = []"
proof -
  from ex_enumerate [OF n] obtain i where i: "(i, n) \<in> set (enumerate 0 (nodes u))" by blast
  from nested_scopes_of [OF g, of u lexical base i] obtain p where
    child: "(scoped_workflow u g, p,
      child_lexical_bindings (lexical_bindings_before_node u n lexical) (node_type n))
      \<in> set (concat (map (nested_scopes u base lexical) (enumerate 0 (nodes u))))"
    using i by fastforce
  have "\<forall>c \<in> set (concat (map (nested_scopes u base lexical) (enumerate 0 (nodes u)))).
      (\<lambda>(child, pointer, names). validate_scope_semantics plugin child pointer names) c = []"
    using clean unfolding validate_scope_semantics.simps [of plugin u] by simp
  from bspec [OF this child] show ?thesis by auto
qed

lemma planned_scope_clean:
  assumes "planned_scope w lexical u" and "validate_scope_semantics plugin w [] [] = []"
  shows "\<exists>base. validate_scope_semantics plugin u base lexical = []"
  using assms(1)
proof (induction rule: planned_scope.induct)
  case planned_top
  show ?case using assms(2) by blast
next
  case (planned_nested lexical u n g)
  then show ?case using scope_semantics_nested by blast
qed

lemma scope_semantics_own:
  "validate_scope_semantics plugin u base lexical = [] \<Longrightarrow> own_scope_diagnostics plugin u base lexical = []"
  by (simp add: validate_scope_semantics.simps [of plugin u])

text \<open>The references of the inputs of a node, inside expressions too, and what it takes for one to
  be resolvable: a name of the run or of the scope, or a known output, of a fitting kind, of a
  node of the scope from which control reaches the consumer.\<close>

definition node_references :: "workflow_node \<Rightarrow> (string \<times> string) set" where
  "node_references n =
     {(name, from). (name, From from) \<in> set (node_inputs n)
        \<or> (\<exists>e. (name, Expr e) \<in> set (node_inputs n) \<and> from \<in> set (expression_references e))}"

definition reference_ok ::
  "workflow_document \<Rightarrow> string list \<Rightarrow> workflow_node \<Rightarrow> string \<Rightarrow> string \<Rightarrow> bool" where
  "reference_ok u names n name from \<longleftrightarrow>
     (if starts_with from ''$'' then local_root from \<in> {''$input'', ''$trigger''} \<union> set names
      else \<exists>producer output. from = node_id producer @ ''.'' @ output \<and> producer \<in> set (nodes u)
        \<and> (node_id producer, node_id n) \<in> (control_edges (nodes u))\<^sup>*
        \<and> known_output (node_type producer) output
        \<and> kinds_agree (node_type n) name (node_type producer) output)"

lemma from_reference_ok:
  assumes "validate_from_reference u name n pointer names from = []"
    and "distinct (map node_id (nodes u))"
  shows "reference_ok u names n name from"
proof (cases "starts_with from ''$''")
  case True
  with assms(1) show ?thesis
    by (simp add: validate_from_reference_def reference_ok_def Let_def)
next
  case False
  with assms(1) obtain p out producer where split: "split_once CHR ''.'' from = Some (p, out)"
    and producer: "by_id (nodes u) p = Some producer"
    and "control_reaches u p (node_id n)" and "known_output (node_type producer) out"
    and "kinds_agree (node_type n) name (node_type producer) out"
    by (auto simp: validate_from_reference_def Let_def split: option.splits)
  with assms(2) by_id_in [OF producer] split_once_append [OF split] False show ?thesis
    by (auto simp: reference_ok_def control_reaches_iff)
qed

lemma binding_references_ok:
  assumes "\<forall>(name, b) \<in> set (node_inputs n). validate_binding_reference u name n pointer names b = []"
    and "(name, from) \<in> node_references n"
  shows "validate_from_reference u name n pointer names from = []"
  using assms
  by (fastforce simp: node_references_def validate_binding_reference_def
      validate_expression_references_def)

lemma own_scope_node:
  assumes "own_scope_diagnostics plugin u base names = []" and "n \<in> set (nodes u)"
  shows "\<exists>pointer. node_id n \<in> set (reachable_nodes u)
    \<and> (\<forall>(name, b) \<in> set (node_inputs n).
         validate_binding_reference u name n pointer (lexical_bindings_before_node u n names) b = [])"
proof -
  from ex_enumerate [OF assms(2)] obtain i where i: "(i, n) \<in> set (enumerate 0 (nodes u))" by blast
  from assms(1) have "\<forall>p \<in> set (enumerate 0 (nodes u)). scope_node_diagnostics plugin u base names p = []"
    unfolding own_scope_diagnostics_def by simp
  with i have "scope_node_diagnostics plugin u base names (i, n) = []" by blast
  then have "node_id n \<in> set (reachable_nodes u)"
    and "\<forall>(name, b) \<in> set (node_inputs n). validate_binding_reference u name n
      (base @ ''/nodes/'' @ show_nat i) (lexical_bindings_before_node u n names) b = []"
    unfolding scope_node_diagnostics_def Let_def by (simp_all split: if_splits) fastforce
  then show ?thesis by blast
qed

section \<open>Counting nodes\<close>

definition scope_node_count :: "plan_scope_view list \<Rightarrow> nat" where
  "scope_node_count scopes = sum_list (map (\<lambda>s. length (scope_nodes s)) scopes)"

lemma graph_metrics_count:
  "fst (graph_metrics ns depth)
   = length ns + sum_list (map (\<lambda>g. fst (graph_metrics (sub_nodes g) (Suc depth))) (concat (map subgraphs ns)))"
proof -
  have "fst (foldl (\<lambda>metrics g. (case (metrics, graph_metrics (sub_nodes g) (Suc depth)) of
        ((count, edge_count, maximum_depth), (children, edges, nested_depth)) \<Rightarrow>
          (count + children, edge_count + edges, max maximum_depth nested_depth))) m gs)
      = fst m + sum_list (map (\<lambda>g. fst (graph_metrics (sub_nodes g) (Suc depth))) gs)" for m gs
    by (induction gs arbitrary: m) (auto split: prod.splits)
  then show ?thesis by (subst graph_metrics.simps) simp
qed

lemma named_subgraphs_map: "map (\<lambda>(s, k, g). g) (named_subgraphs scope n) = subgraphs n"
  by (auto simp: named_subgraphs_def subgraphs_def vals_def split: option.splits)

lemma append_plan_scope_count:
  "scope_node_count (fst (append_plan_scope plugin ns e scope knd state))
   = scope_node_count (fst state) + fst (graph_metrics ns depth)"
proof (induction plugin ns e scope knd state arbitrary: depth rule: append_plan_scope.induct)
  case (1 plugin ns e scope knd state)
  define gs where "gs = concat (map (named_subgraphs scope) ns)"
  have fold: "scope_node_count (fst (foldl (\<lambda>st (scope', knd', g).
        append_plan_scope plugin (sub_nodes g) (sub_entry g) scope' knd' st) st hs))
      = scope_node_count (fst st)
        + sum_list (map (\<lambda>(s, k, g). fst (graph_metrics (sub_nodes g) (Suc depth))) hs)"
    if "set hs \<subseteq> set gs" for st hs
    using that
  proof (induction hs arbitrary: st)
    case (Cons h hs)
    obtain s k g where h: "h = (s, k, g)" by (cases h)
    with Cons.prems have "(s, k, g) \<in> set gs" by simp
    from 1 [OF this [unfolded gs_def] refl refl, of st "Suc depth"] Cons h show ?case by simp
  qed simp
  have "map (\<lambda>(s, k, g). fst (graph_metrics (sub_nodes g) (Suc depth))) gs
      = map (\<lambda>g. fst (graph_metrics (sub_nodes g) (Suc depth))) (concat (map subgraphs ns))"
    unfolding gs_def named_subgraphs_map [symmetric, of _ scope] map_concat
    by (simp add: o_def case_prod_beta')
  with fold [OF subset_refl] show ?case
    unfolding append_plan_scope.simps [of plugin ns] gs_def [symmetric]
    by (simp add: graph_metrics_count [of ns] scope_node_count_def)
qed

lemma compile_clean:
  assumes "compile read plugin source = Inr c"
  shows "read source = Inr (ir c) \<and> validate_semantics plugin (ir c) = []
    \<and> validate (ir c) = Inr ()
    \<and> validate_with_plugins is_builtin_node_type plugin (ir c) = Inr ()
    \<and> plan_nodes (plan c) = map (plan_node (nodes (ir c))) (nodes (ir c))"
  using assms
  by (auto simp: compile_def analyze_def Let_def validate_with_plugins_def
      split: sum.splits if_splits)

lemma compile_scope:
  assumes "compile read plugin source = Inr c" and "planned_scope (ir c) names u"
  shows "well_formed_scope (top_scope u) \<and> distinct (map node_id (nodes u))
    \<and> (\<exists>base. own_scope_diagnostics plugin u base names = [])"
proof -
  from assms(2) obtain d lexical where "scope_of (ir c) d lexical (top_scope u)"
    using planned_scope_of by blast
  then have "well_formed_scope (top_scope u)"
    using scope_of_accepted compile_clean [OF assms(1)] by blast
  moreover have "validate_scope_semantics plugin (ir c) [] [] = []"
    using compile_clean [OF assms(1)] by (auto simp: validate_semantics_def split: prod.splits)
  then obtain base where "validate_scope_semantics plugin u base names = []"
    using planned_scope_clean [OF assms(2)] by blast
  then have "own_scope_diagnostics plugin u base names = []" by (rule scope_semantics_own)
  ultimately show ?thesis by (auto simp: well_formed_scope_def top_scope_def)
qed

lemma compile_reference_ok:
  assumes "compile read plugin source = Inr c" and "planned_scope (ir c) names u"
    and "n \<in> set (nodes u)" and "(name, from) \<in> node_references n"
  shows "reference_ok u (lexical_bindings_before_node u n names) n name from"
proof -
  from compile_scope [OF assms(1,2)] obtain base where d: "distinct (map node_id (nodes u))"
    and "own_scope_diagnostics plugin u base names = []" by blast
  from own_scope_node [OF this(2) assms(3)] obtain pointer where
    "\<forall>(name, b) \<in> set (node_inputs n). validate_binding_reference u name n pointer
       (lexical_bindings_before_node u n names) b = []" by blast
  from from_reference_ok [OF binding_references_ok [OF this assms(4)] d] show ?thesis .
qed

section \<open>Examples\<close>

text \<open>A document that reads a file and writes its text to another, and one whose node asks for its
  own output.\<close>

definition read_node :: workflow_node where
  "read_node = WorkflowNode ''read'' ''kakune.fs.read-text@1'' []
     [(''path'', Literal (JString ''a.txt''))] [(''success'', One ''write'')] None [] None"

definition copy_node :: workflow_node where
  "copy_node = WorkflowNode ''write'' ''kakune.fs.write-text@1'' []
     [(''content'', From ''read.text''), (''path'', Literal (JString ''b.txt''))] [] None [] None"

definition copy_note :: workflow_document where
  "copy_note = document_of ''read'' [read_node, copy_node]"

definition self_node :: workflow_node where
  "self_node = WorkflowNode ''pass'' ''kakune.flow.pass@1'' [] [(''value'', From ''pass.value'')]
     [] None [] None"

definition self_note :: workflow_document where
  "self_note = document_of ''pass'' [self_node]"

definition compiled :: "workflow_document \<Rightarrow> compiled_workflow" where
  "compiled w =
     \<lparr>ir = w, plan = \<lparr>plan_workflow_id = meta_id (metadata w),
        plan_nodes = map (plan_node (nodes w)) (nodes w), plan_entry = entry w,
        plan_outputs = outputs w, plan_policy = policy w, input_values = JObject [],
        trigger_values = JObject []\<rparr>\<rparr>"

lemma compile_compiled:
  assumes "validate_semantics plugin w = []"
    and "validate_with_plugins is_builtin_node_type plugin w = Inr ()"
  shows "compile (\<lambda>_. Inr w) plugin source = Inr (compiled w)"
  using assms by (simp add: compile_def analyze_def compiled_def)

text \<open>A scope without subgraphs is clean when it reports nothing itself.\<close>

lemma flat_scope_semantics:
  assumes "\<forall>n \<in> set (nodes w). subgraphs n = []" and "own_scope_diagnostics plugin w base names = []"
  shows "validate_scope_semantics plugin w base names = []"
proof -
  have "nested_scopes w base names p = []" if "p \<in> set (enumerate 0 (nodes w))" for p
    using assms(1) that
    by (cases p) (auto simp: nested_scopes_def subgraphs_def vals_def in_set_enumerate_eq
        split: option.splits)
  then have "concat (map (nested_scopes w base names) (enumerate 0 (nodes w))) = []" by simp
  then show ?thesis
    unfolding validate_scope_semantics.simps [of plugin w] using assms(2) by simp
qed

lemma flat_metrics:
  assumes "\<forall>n \<in> set ns. subgraphs n = []"
  shows "graph_metrics ns depth = (length ns,
    sum_list (map targets_len (concat (map (\<lambda>n. vals (node_on n)) ns))), depth)"
proof -
  have none: "concat (map subgraphs ns) = []" using assms by simp
  show ?thesis unfolding graph_metrics.simps [of ns] none by simp
qed

lemma flat_semantics:
  assumes "\<forall>n \<in> set (nodes w). subgraphs n = []" and "length (nodes w) \<le> 512"
    and "sum_list (map targets_len (concat (map (\<lambda>n. vals (node_on n)) (nodes w)))) \<le> 2048"
    and "own_scope_diagnostics plugin w [] [] = []"
  shows "validate_semantics plugin w = []"
  using flat_scope_semantics [OF assms(1,4)] assms(2,3)
  by (simp add: validate_semantics_def flat_metrics [OF assms(1)] MAX_NODES_def MAX_EDGES_def)

lemma repeat_note_compiles: "compile (\<lambda>_. Inr repeat_note) (\<lambda>_. False) [] = Inr (compiled repeat_note)"
proof (rule compile_compiled)
  let ?child = "scoped_workflow repeat_note loop_body"
  have inner: "\<forall>n \<in> set (nodes ?child). subgraphs n = []"
    by (simp add: scoped_workflow_def loop_body_def write_node_def subgraphs_def vals_def)
  have subs: "concat (map subgraphs (nodes repeat_note)) = [loop_body]"
    by (simp add: repeat_note_def document_of_def loop_node_def write_node_def subgraphs_def vals_def)
  have flat: "graph_metrics (sub_nodes loop_body) 1 = (1, 0, 1)"
    by (subst flat_metrics) (simp_all add: loop_body_def write_node_def subgraphs_def vals_def)
  have metrics: "graph_metrics (nodes repeat_note) 0 = (3, 1, 1)"
    unfolding graph_metrics.simps [of "nodes repeat_note"] subs
    using flat by (simp add: repeat_note_def document_of_def loop_node_def write_node_def vals_def)
  have nested: "concat (map (nested_scopes repeat_note [] []) (enumerate 0 (nodes repeat_note)))
      = [(?child, ''/nodes/0/body'', [''$state'', ''$iteration''])]" by code_simp
  have "own_scope_diagnostics (\<lambda>_. False) ?child ''/nodes/0/body'' [''$state'', ''$iteration''] = []"
    by code_simp
  with flat_scope_semantics [OF inner]
  have "validate_scope_semantics (\<lambda>_. False) ?child ''/nodes/0/body'' [''$state'', ''$iteration''] = []" .
  moreover have "own_scope_diagnostics (\<lambda>_. False) repeat_note [] [] = []" by code_simp
  ultimately have "validate_scope_semantics (\<lambda>_. False) repeat_note [] [] = []"
    unfolding validate_scope_semantics.simps [of "\<lambda>_. False" repeat_note] nested by simp
  with metrics show "validate_semantics (\<lambda>_. False) repeat_note = []"
    by (simp add: validate_semantics_def MAX_NODES_def MAX_EDGES_def)
  show "validate_with_plugins is_builtin_node_type (\<lambda>_. False) repeat_note = Inr ()" by code_simp
qed

lemma copy_note_compiles: "compile (\<lambda>_. Inr copy_note) (\<lambda>_. False) [] = Inr (compiled copy_note)"
proof (rule compile_compiled)
  have "own_scope_diagnostics (\<lambda>_. False) copy_note [] [] = []" by code_simp
  then show "validate_semantics (\<lambda>_. False) copy_note = []"
    by (intro flat_semantics) (simp_all add: copy_note_def document_of_def read_node_def copy_node_def subgraphs_def vals_def)
  show "validate_with_plugins is_builtin_node_type (\<lambda>_. False) copy_note = Inr ()" by code_simp
qed

lemma self_note_compiles: "compile (\<lambda>_. Inr self_note) (\<lambda>_. False) [] = Inr (compiled self_note)"
proof (rule compile_compiled)
  have "own_scope_diagnostics (\<lambda>_. False) self_note [] [] = []" by code_simp
  then show "validate_semantics (\<lambda>_. False) self_note = []"
    by (intro flat_semantics) (simp_all add: self_note_def document_of_def self_node_def subgraphs_def vals_def)
  show "validate_with_plugins is_builtin_node_type (\<lambda>_. False) self_note = Inr ()" by code_simp
qed

section \<open>Properties\<close>

text \<open>On a document with distinct node ids, the three searches of the planner compute
  reachability along control edges: reflexively from the entry, reflexively between two nodes, and
  strictly backwards.\<close>

theorem planner_searches:
  assumes "distinct (map node_id (nodes w))"
  shows "set (reachable_nodes w) = {b. (entry w, b) \<in> (control_edges (nodes w))\<^sup>*}
    \<and> (control_reaches w a b \<longleftrightarrow> (a, b) \<in> (control_edges (nodes w))\<^sup>*)
    \<and> set (control_ancestors w b) = {a. (a, b) \<in> (control_edges (nodes w))\<^sup>+}"
  using assms by (auto simp: reachable_nodes_iff control_reaches_iff control_ancestors_iff)

theorem planner_searches_witness:
  "set (reachable_nodes copy_note) = {b. (entry copy_note, b) \<in> (control_edges (nodes copy_note))\<^sup>*}
   \<and> (''read'', ''write'') \<in> (control_edges (nodes copy_note))\<^sup>*"
proof -
  have d: "distinct (map node_id (nodes copy_note))"
    and "control_reaches copy_note ''read'' ''write''" by code_simp+
  with planner_searches [OF d] show ?thesis by blast
qed

text \<open>After a successful compilation every node of every scope is reachable from the entry of
  its scope.\<close>

theorem compile_all_reachable:
  assumes "compile read plugin source = Inr c" and "planned_scope (ir c) names u"
    and "n \<in> set (nodes u)"
  shows "(entry u, node_id n) \<in> (control_edges (nodes u))\<^sup>*"
  using compile_scope [OF assms(1,2)] own_scope_node [OF _ assms(3)] reachable_nodes_iff [of u]
  by fastforce

theorem compile_all_reachable_witness:
  "(''read'', ''write'') \<in> (control_edges (nodes copy_note))\<^sup>*"
  using compile_all_reachable [OF copy_note_compiles planned_top, of copy_node]
  by (simp add: compiled_def copy_note_def document_of_def copy_node_def)



text \<open>A compiled document has at most 512 nodes, counted over all the scopes that its plan view
  lists: the count of the metrics and that of the view agree.\<close>

theorem plan_view_count:
  assumes "read source = Inr w"
  shows "scope_node_count (view_scopes (plan_view_of read plugin source revision))
    = node_count (view_bounds (plan_view_of read plugin source revision))
   \<and> (is_valid (analyze read plugin source)
      \<longrightarrow> scope_node_count (view_scopes (plan_view_of read plugin source revision)) \<le> 512)"
proof -
  obtain scopes caps where a: "append_plan_scope plugin (nodes w) (entry w) ''workflow'' ''workflow'' ([], [])
      = (scopes, caps)" by (cases "append_plan_scope plugin (nodes w) (entry w) ''workflow'' ''workflow'' ([], [])")
  obtain count edge_count depth where m: "graph_metrics (nodes w) 0 = (count, edge_count, depth)"
    using prod_cases3 by blast
  from append_plan_scope_count [of plugin "nodes w" "entry w" "''workflow''" "''workflow''" "([], [])" 0]
  have "scope_node_count scopes = count" by (simp add: a m scope_node_count_def)
  with assms a m show ?thesis
    by (auto simp: plan_view_of_def analyze_def Let_def is_valid_def validate_semantics_def MAX_NODES_def)
qed

theorem plan_view_count_witness:
  "scope_node_count (view_scopes (plan_view_of (\<lambda>_. Inr copy_note) (\<lambda>_. False) [] None))
    = node_count (view_bounds (plan_view_of (\<lambda>_. Inr copy_note) (\<lambda>_. False) [] None))"
  using plan_view_count [of "\<lambda>_. Inr copy_note" "[]" copy_note] by blast

text \<open>decoding a pointer segment undoes escaping it, and an escaped segment has no slash.\<close>

theorem pointer_roundtrip:
  "decode_pointer_segment (escape_pointer s) = s \<and> CHR ''/'' \<notin> set (escape_pointer s)"
  by (simp add: escape_unescape escape_no_slash)

text \<open>The routes \<open>httpError\<close> and \<open>exitError\<close>, which the catalog gives to the HTTP and
  the process node, cannot be used: a document with such a route is not accepted, in any scope.\<close>

theorem error_routes_unusable:
  assumes "validate w = Inr ()" and "scope_of w d names g" and "n \<in> set (sub_nodes g)"
  shows "\<not> has_key (node_on n) ''httpError'' \<and> \<not> has_key (node_on n) ''exitError''"
proof -
  have "\<not> valid_id ''httpError''" "\<not> valid_id ''exitError''" by code_simp+
  with scope_of_accepted [OF assms(2,1)] assms(3) show ?thesis
    by (auto simp: well_formed_scope_def list_all_iff has_key_def)
qed

theorem error_routes_unusable_witness:
  "\<not> has_key (node_on loop_node) ''httpError'' \<and> \<not> has_key (node_on loop_node) ''exitError''"
proof -
  have "loop_node \<in> set (sub_nodes (top_scope repeat_note))"
    by (simp add: top_scope_def repeat_note_def document_of_def)
  with error_routes_unusable [OF repeat_note_ok scope_of.top] show ?thesis by blast
qed

end
