(* ===== verification/Expr.thy ===== *)
theory Expr
  imports Analysis
begin

text \<open>
  Bindings and expressions at run time (\<open>src/runtime.rs\<close>): resolving the inputs of a node, the
  data-only expression language, the typed readers of inputs, durations and workspace paths.  The
  secret store and the shortest decimal text of a float (the \<open>ryu\<close> printer) are fields of the
  environment.
\<close>

section \<open>The environment\<close>

record resolve_env =
  env_secret :: "string \<Rightarrow> (string, string) result"
  env_outputs :: "json_map btree_map"
  env_locals :: json_map
  env_show_float :: "f64 \<Rightarrow> string"

fun walk_path :: "json \<Rightarrow> string list \<Rightarrow> json option" where
  "walk_path v [] = Some v"
| "walk_path v (p # ps) =
     (case get_key v p of None \<Rightarrow> None | Some u \<Rightarrow> walk_path u ps)"

definition resolve_local :: "json_map \<Rightarrow> string \<Rightarrow> (string, json) result" where
  "resolve_local locals from =
     (case map_of locals from of
        Some v \<Rightarrow> Inr v
      | None \<Rightarrow>
          ok_or
            (case split_once CHR ''.'' from of
               None \<Rightarrow> None
             | Some (base, path) \<Rightarrow>
                 (case map_of locals base of
                    None \<Rightarrow> None | Some v \<Rightarrow> walk_path v (split_on CHR ''.'' path)))
            (''local binding source '' @ from @ '' is not available''))"

definition resolve_from :: "resolve_env \<Rightarrow> string \<Rightarrow> (string, json) result" where
  "resolve_from env from =
     (if starts_with from ''$'' then resolve_local (env_locals env) from
      else (case split_once CHR ''.'' from of
          None \<Rightarrow> Inl (''binding source '' @ from @ '' must use node.output'')
        | Some (i, name) \<Rightarrow>
            ok_or (Option.bind (map_of (env_outputs env) i) (\<lambda>os. map_of os name))
              (''binding source '' @ from @ '' is not available'')))"

definition resolve_secret_value :: "resolve_env \<Rightarrow> string \<Rightarrow> (string, json) result" where
  "resolve_secret_value env s = rbind (env_secret env s) (\<lambda>v. Inr (JString v))"

section \<open>Operations\<close>

definition require_arity :: "json list \<Rightarrow> string \<Rightarrow> nat \<Rightarrow> (string, unit) result" where
  "require_arity args op expected =
     require (length args = expected)
       (''expression '' @ op @ '' requires exactly '' @ show_nat expected @ '' arguments'')"

text \<open>\<open>as_f64\<close> of a JSON number is finite; anything else is refused.\<close>

definition number_argument :: "json \<Rightarrow> string \<Rightarrow> (string, rat) result" where
  "number_argument v op =
     ok_or (case v of JNumber n \<Rightarrow> number_f64 n | _ \<Rightarrow> None)
       (''expression '' @ op @ '' requires numeric arguments'')"

text \<open>\<open>value as i64\<close> saturates; the bound \<open>i64::MAX as f64\<close> is \<open>2^63\<close>.\<close>

definition i64_of :: "rat \<Rightarrow> int" where
  "i64_of q = max (- (2 ^ 63)) (min (2 ^ 63 - 1) (trunc_rat q))"

definition number_from_i64 :: "int \<Rightarrow> json" where
  "number_from_i64 i = JNumber (if 0 \<le> i then PosInt (nat i) else NegInt i)"

definition number_value :: "rat option \<Rightarrow> (string, json) result" where
  "number_value x =
     (case x of
        None \<Rightarrow> Inl ''expression result is not a finite number''
      | Some q \<Rightarrow>
          (if q = of_int \<lfloor>q\<rfloor> \<and> - (2 ^ 63) \<le> q \<and> q \<le> 2 ^ 63 then Inr (number_from_i64 (i64_of q))
           else Inr (JNumber (Float (F64 q)))))"

definition boolean_argument :: "json \<Rightarrow> (string, bool) result" where
  "boolean_argument v =
     ok_or (as_bool v) ''expression boolean operations require boolean arguments''"

definition binary_compare ::
  "json list \<Rightarrow> string \<Rightarrow> (json \<Rightarrow> json \<Rightarrow> bool) \<Rightarrow> (string, json) result" where
  "binary_compare args op p =
     rbind (require_arity args op 2) (\<lambda>_. Inr (JBool (p (args ! 0) (args ! 1))))"

definition ordered_compare ::
  "json list \<Rightarrow> string \<Rightarrow> (rat \<Rightarrow> rat \<Rightarrow> bool) \<Rightarrow> (string, json) result" where
  "ordered_compare args op p =
     rbind (require_arity args op 2) (\<lambda>_.
       rbind (number_argument (args ! 0) op) (\<lambda>a.
         rbind (number_argument (args ! 1) op) (\<lambda>b. Inr (JBool (p a b)))))"

text \<open>A total that is not finite stays so; the arguments after it are still checked.\<close>

fun fold_numbers ::
  "string \<Rightarrow> (rat \<Rightarrow> rat \<Rightarrow> rat) \<Rightarrow> rat option \<Rightarrow> json list \<Rightarrow> (string, rat option) result" where
  "fold_numbers op f acc [] = Inr acc"
| "fold_numbers op f acc (v # vs) =
     rbind (number_argument v op) (\<lambda>x.
       fold_numbers op f (Option.bind acc (\<lambda>t. round64 (f t x))) vs)"

definition numeric_fold ::
  "json list \<Rightarrow> string \<Rightarrow> rat \<Rightarrow> (rat \<Rightarrow> rat \<Rightarrow> rat) \<Rightarrow> (string, json) result" where
  "numeric_fold args op initial f =
     (if args = [] then Inl (''expression '' @ op @ '' requires at least one argument'')
      else rbind (fold_numbers op f (Some initial) args) number_value)"

definition numeric_subtract :: "json list \<Rightarrow> string \<Rightarrow> (string, json) result" where
  "numeric_subtract args op =
     (case args of
        [] \<Rightarrow> Inl (''expression '' @ op @ '' requires at least one argument'')
      | v # vs \<Rightarrow>
          rbind (number_argument v op) (\<lambda>first.
            rbind (fold_numbers op (-) (Some first) vs) number_value))"

definition divide_numbers ::
  "json list \<Rightarrow> string \<Rightarrow> (rat \<Rightarrow> rat \<Rightarrow> rat option) \<Rightarrow> (string, json) result" where
  "divide_numbers args op f =
     rbind (require_arity args op 2) (\<lambda>_.
       rbind (number_argument (args ! 1) op) (\<lambda>divisor.
         if divisor = 0 then Inl (''expression '' @ op @ '' cannot divide by zero'')
         else rbind (number_argument (args ! 0) op) (\<lambda>a. number_value (f a divisor))))"

fun show_number :: "(f64 \<Rightarrow> string) \<Rightarrow> json_number \<Rightarrow> string" where
  "show_number show_float (PosInt n) = show_nat n"
| "show_number show_float (NegInt i) = ''-'' @ show_nat (nat (- i))"
| "show_number show_float (Float x) = show_float x"

definition value_to_text :: "(f64 \<Rightarrow> string) \<Rightarrow> json \<Rightarrow> (string, string) result" where
  "value_to_text show_float v =
     (case v of
        JString s \<Rightarrow> Inr s
      | JNull \<Rightarrow> Inr ''null''
      | JBool b \<Rightarrow> Inr (if b then ''true'' else ''false'')
      | JNumber n \<Rightarrow> Inr (show_number show_float n)
      | _ \<Rightarrow> Inl ''expression concat accepts only scalar values'')"

fun object_pairs :: "json list \<Rightarrow> json_map \<Rightarrow> (string, json_map) result" where
  "object_pairs (k # v # rest) m =
     rbind (ok_or (as_str k) ''expression object keys must be strings'')
       (\<lambda>key. object_pairs rest (map_insert key v m))"
| "object_pairs _ m = Inr m"

definition expression_object :: "json list \<Rightarrow> (string, json) result" where
  "expression_object args =
     (if odd (length args)
      then Inl ''expression object requires an even number of key/value arguments''
      else rbind (object_pairs args []) (\<lambda>m. Inr (JObject m)))"

definition get_member :: "json list \<Rightarrow> string \<Rightarrow> (string, json) result" where
  "get_member args op =
     rbind (require_arity args op 2) (\<lambda>_.
       rbind (ok_or (as_str (args ! 1)) ''expression get requires a string property name'') (\<lambda>key.
         (case args ! 0 of
            JObject m \<Rightarrow> Inr (case map_of m key of None \<Rightarrow> JNull | Some v \<Rightarrow> v)
          | JArray vs \<Rightarrow>
              ok_or
                (Option.bind (parse_u64 key) (\<lambda>i. if i < length vs then Some (vs ! i) else None))
                (''expression get cannot find array index '' @ key)
          | _ \<Rightarrow> Inl ''expression get requires an object or array'')))"

definition contains_member :: "json list \<Rightarrow> string \<Rightarrow> (string, json) result" where
  "contains_member args op =
     rbind (require_arity args op 2) (\<lambda>_.
       (case args ! 0 of
          JString s \<Rightarrow>
            rbind (ok_or (as_str (args ! 1)) ''expression contains requires a string needle'')
              (\<lambda>needle. Inr (JBool (contains_str s needle)))
        | JArray vs \<Rightarrow> Inr (JBool (list_ex (\<lambda>v. json_eq v (args ! 1)) vs))
        | JObject m \<Rightarrow>
            Inr (JBool (case as_str (args ! 1) of None \<Rightarrow> False | Some key \<Rightarrow> has_key m key))
        | _ \<Rightarrow> Inl ''expression contains requires a string, array, or object''))"

definition apply_operation ::
  "(f64 \<Rightarrow> string) \<Rightarrow> string \<Rightarrow> json list \<Rightarrow> (string, json) result" where
  "apply_operation show_float op args =
     (if op = ''equal'' then binary_compare args op json_eq
      else if op = ''notEqual'' then binary_compare args op (\<lambda>a b. \<not> json_eq a b)
      else if op = ''greaterThan'' then ordered_compare args op (\<lambda>a b. a > b)
      else if op = ''greaterThanOrEqual'' then ordered_compare args op (\<lambda>a b. a \<ge> b)
      else if op = ''lessThan'' then ordered_compare args op (<)
      else if op = ''lessThanOrEqual'' then ordered_compare args op (\<le>)
      else if op = ''and'' then
        rbind (map_ok boolean_argument args) (\<lambda>bs. Inr (JBool (list_all id bs)))
      else if op = ''or'' then
        rbind (map_ok boolean_argument args) (\<lambda>bs. Inr (JBool (list_ex id bs)))
      else if op = ''not'' then
        rbind (require_arity args op 1) (\<lambda>_.
          rbind (boolean_argument (args ! 0)) (\<lambda>b. Inr (JBool (\<not> b))))
      else if op = ''add'' then numeric_fold args op 0 (+)
      else if op = ''subtract'' then numeric_subtract args op
      else if op = ''multiply'' then numeric_fold args op 1 (*)
      else if op = ''divide'' then divide_numbers args op (\<lambda>a b. round64 (a / b))
      else if op = ''modulo'' then divide_numbers args op (\<lambda>a b. Some (f64_rem a b))
      else if op = ''concat'' then
        rbind (map_ok (value_to_text show_float) args) (\<lambda>ts. Inr (JString (concat ts)))
      else if op = ''array'' then Inr (JArray args)
      else if op = ''object'' then expression_object args
      else if op = ''get'' then get_member args op
      else if op = ''coalesce'' then
        Inr (case find (\<lambda>v. \<not> is_null v) args of None \<Rightarrow> JNull | Some v \<Rightarrow> v)
      else if op = ''contains'' then contains_member args op
      else Inl (''unsupported expression operation '' @ op))"

section \<open>Evaluation\<close>

function evaluate_expression :: "resolve_env \<Rightarrow> json \<Rightarrow> (string, json) result"
and evaluate_expression_argument :: "resolve_env \<Rightarrow> json \<Rightarrow> (string, json) result" where
  "evaluate_expression env expression =
     rbind (ok_or (as_object expression) ''expression must be an object'') (\<lambda>m.
       rbind (ok_or (Option.bind (map_of m ''op'') as_str) ''expression.op must be a string'')
         (\<lambda>operation.
            (case map_of m ''args'' of
               Some (JArray raw_args) \<Rightarrow>
                 rbind (map_ok (evaluate_expression_argument env) raw_args)
                   (apply_operation (env_show_float env) operation)
             | _ \<Rightarrow> Inl (''expression '' @ operation @ '' requires an args array''))))"
| "evaluate_expression_argument env argument =
     (case argument of
        JObject m \<Rightarrow>
          (if length m \<noteq> 1 then Inr argument
           else (case map_of m ''literal'' of
               Some v \<Rightarrow> Inr v
             | None \<Rightarrow>
               (case Option.bind (map_of m ''from'') as_str of
                  Some from \<Rightarrow> resolve_from env from
                | None \<Rightarrow>
                  (case Option.bind (map_of m ''secret'') as_str of
                     Some s \<Rightarrow> resolve_secret_value env s
                   | None \<Rightarrow>
                     (case map_of m ''expr'' of
                        Some e \<Rightarrow> evaluate_expression env e
                      | None \<Rightarrow> Inr argument)))))
      | _ \<Rightarrow> Inr argument)"
  by pat_completeness auto
termination
proof (relation "measure (\<lambda>x. case x of Inl (_, v) \<Rightarrow> size v | Inr (_, v) \<Rightarrow> size v)", goal_cases)
  case (2 env expression m operation x raw_args a)
  then have "size a < size (JArray raw_args)" using array_size_less by blast
  also have "\<dots> < size (JObject m)"
    using 2 map_of_size_less [of m "''args''" "JArray raw_args"] by simp
  finally show ?case using 2 by simp
next
  case (3 env argument m e)
  then show ?case using map_of_size_less by simp
qed simp

declare evaluate_expression.simps [simp del] evaluate_expression_argument.simps [simp del]

definition resolve_binding :: "resolve_env \<Rightarrow> workflow_binding \<Rightarrow> (string, json) result" where
  "resolve_binding env b =
     (case b of
        Literal v \<Rightarrow> Inr v
      | From from \<Rightarrow> resolve_from env from
      | Expr e \<Rightarrow> evaluate_expression env e
      | Secret s \<Rightarrow> resolve_secret_value env s)"

definition resolve_inputs :: "resolve_env \<Rightarrow> bindings \<Rightarrow> (string, json_map) result" where
  "resolve_inputs env bs =
     map_ok (\<lambda>(name, b). rbind (resolve_binding env b) (\<lambda>v. Inr (name, v))) bs"

section \<open>Typed inputs\<close>

definition input_string :: "json_map \<Rightarrow> string \<Rightarrow> (string, string) result" where
  "input_string inputs name =
     ok_or (Option.bind (map_of inputs name) as_str) (''input '' @ name @ '' must be a string'')"

definition input_boolean :: "json_map \<Rightarrow> string \<Rightarrow> (string, bool) result" where
  "input_boolean inputs name =
     (case map_of inputs name of
        Some (JBool b) \<Rightarrow> Inr b
      | Some (JString s) \<Rightarrow>
          (if s = ''true'' then Inr True else if s = ''false'' then Inr False
           else Inl (''input '' @ name @ '' must be a boolean''))
      | _ \<Rightarrow> Inl (''input '' @ name @ '' must be a boolean''))"

definition input_u64 :: "json_map \<Rightarrow> string \<Rightarrow> (string, nat) result" where
  "input_u64 inputs name =
     (case map_of inputs name of
        Some (JNumber n) \<Rightarrow>
          ok_or (as_u64 (JNumber n)) (''input '' @ name @ '' must be a non-negative integer'')
      | Some (JString s) \<Rightarrow>
          ok_or (parse_u64 s) (''input '' @ name @ '' must be a non-negative integer'')
      | _ \<Rightarrow> Inl (''input '' @ name @ '' must be a non-negative integer''))"

section \<open>Durations\<close>

text \<open>Milliseconds.\<close>

definition parse_duration :: "string \<Rightarrow> (string, nat) result" where
  "parse_duration s =
     (let v = trim s; number = takeWhile is_ascii_digit v; suffix = dropWhile is_ascii_digit v in
      if suffix = [] then Inl ''workflow policy.timeout must use a unit such as 30s or 2m''
      else (case parse_u64 number of
          None \<Rightarrow> Inl ''workflow policy.timeout must be a positive duration''
        | Some amount \<Rightarrow>
            (if amount = 0 then Inl ''workflow policy.timeout must be a positive duration''
             else rbind
               (ok_or (map_of [(''ms'', 1), (''s'', 1000), (''m'', 60000), (''h'', 3600000)] suffix)
                  ''workflow policy.timeout supports ms, s, m, or h'')
               (\<lambda>multiplier.
                  if amount * multiplier < 2 ^ 64 then Inr (amount * multiplier)
                  else Inl ''workflow policy.timeout is too large''))))"

definition DEFAULT_EXECUTION_TIMEOUT :: nat where "DEFAULT_EXECUTION_TIMEOUT = 300000"

definition MAX_EXECUTION_TIMEOUT :: nat where "MAX_EXECUTION_TIMEOUT = 3600000"

definition ensure_finite_execution_timeout ::
  "workflow_policy \<Rightarrow> (string, nat \<times> workflow_policy) result" where
  "ensure_finite_execution_timeout p =
     (let p' = (if timeout p = None
                then p\<lparr>timeout := Some (show_nat (DEFAULT_EXECUTION_TIMEOUT div 1000) @ ''s'')\<rparr>
                else p)
      in rbind (parse_duration (the (timeout p'))) (\<lambda>t.
           if MAX_EXECUTION_TIMEOUT < t
           then Inl ''workflow timeout must not exceed 3,600 seconds'' else Inr (t, p')))"

section \<open>Workspace paths\<close>

text \<open>A path is the list of its components.  \<open>Path::components\<close> drops empty components and every
  \<open>.\<close> but a leading one; on Unix there are no prefixes.  \<open>exists\<close> and \<open>canonicalize\<close>
  are the file system's.\<close>

definition path_components :: "string \<Rightarrow> string list" where
  "path_components s =
     (case split_on CHR ''/'' s of
        [] \<Rightarrow> []
      | p # ps \<Rightarrow>
          (if p = [] then [] else [p]) @ filter (\<lambda>c. c \<noteq> [] \<and> c \<noteq> ''.'') ps)"

fun check_prefixes ::
  "(string list \<Rightarrow> bool) \<Rightarrow> (string list \<Rightarrow> (string, string list) result) \<Rightarrow> string list
   \<Rightarrow> string list \<Rightarrow> string list \<Rightarrow> (string, unit) result" where
  "check_prefixes path_exists canonicalize base checked [] = Inr ()"
| "check_prefixes path_exists canonicalize base checked (c # cs) =
     (let checked' = checked @ [c] in
      if path_exists checked'
      then (case canonicalize checked' of
          Inl e \<Rightarrow> Inl (''cannot resolve workspace path: '' @ e)
        | Inr resolved \<Rightarrow>
            (if prefix base resolved
             then check_prefixes path_exists canonicalize base checked' cs
             else Inl ''path resolves outside the Kakune workspace''))
      else check_prefixes path_exists canonicalize base checked' cs)"

definition workspace_path ::
  "(string list \<Rightarrow> bool) \<Rightarrow> (string list \<Rightarrow> (string, string list) result) \<Rightarrow> string list
   \<Rightarrow> string \<Rightarrow> (string, string list) result" where
  "workspace_path path_exists canonicalize workspace input =
     (if is_absolute input \<or> ''..'' \<in> set (path_components input)
      then Inl ''path must be relative to the Kakune workspace''
      else (case canonicalize workspace of
          Inl e \<Rightarrow> Inl (''cannot resolve workspace root: '' @ e)
        | Inr base \<Rightarrow>
            rbind (check_prefixes path_exists canonicalize base base (path_components input))
              (\<lambda>_. Inr (base @ path_components input))))"

section \<open>Dependencies\<close>

text \<open>\<open>reference\<close> and \<open>expression\<close> of \<open>binding_dependencies\<close>; the source collects
  into a set.\<close>

definition dependency :: "string \<Rightarrow> string list" where
  "dependency from = (case reference_node from of None \<Rightarrow> [] | Some i \<Rightarrow> [i])"

lemma get_key_size: "get_key v k = Some u \<Longrightarrow> size u < size v"
  by (cases v) (auto simp: get_key_def dest: map_of_size_less)

function expression_dependencies :: "json \<Rightarrow> string list" where
  "expression_dependencies v =
     (case Option.bind (get_key v ''from'') as_str of None \<Rightarrow> [] | Some from \<Rightarrow> dependency from)
     @ (case get_key v ''expr'' of None \<Rightarrow> [] | Some e \<Rightarrow> expression_dependencies e)
     @ (case get_key v ''args'' of
          Some (JArray args) \<Rightarrow> concat (map expression_dependencies args) | _ \<Rightarrow> [])"
  by pat_completeness auto
termination
proof (relation "measure size", goal_cases)
  case (3 v x args a)
  then have "size a < size (JArray args)" using array_size_less by blast
  also have "\<dots> < size v" using 3 get_key_size [of v "''args''" "JArray args"] by simp
  finally show ?case by simp
qed (auto dest: get_key_size)

declare expression_dependencies.simps [simp del]

definition binding_dependencies :: "workflow_binding \<Rightarrow> string list" where
  "binding_dependencies b =
     (case b of
        From from \<Rightarrow> dependency from
      | Expr e \<Rightarrow> expression_dependencies e
      | _ \<Rightarrow> [])"

text \<open>Two environments that give the same secrets, locals and printer, and the same outputs for
  the nodes in a set.\<close>

definition agree_on :: "string set \<Rightarrow> resolve_env \<Rightarrow> resolve_env \<Rightarrow> bool" where
  "agree_on S env env' \<longleftrightarrow>
     env_secret env = env_secret env' \<and> env_locals env = env_locals env'
     \<and> env_show_float env = env_show_float env'
     \<and> (\<forall>i \<in> S. map_of (env_outputs env) i = map_of (env_outputs env') i)"

lemma agree_on_mono: "agree_on S env env' \<Longrightarrow> T \<subseteq> S \<Longrightarrow> agree_on T env env'"
  by (auto simp: agree_on_def)

lemma resolve_from_agree:
  "agree_on (set (dependency from)) env env' \<Longrightarrow> resolve_from env from = resolve_from env' from"
  by (auto simp: agree_on_def resolve_from_def dependency_def reference_node_def split: option.splits)

lemma resolve_secret_agree:
  "agree_on S env env' \<Longrightarrow> resolve_secret_value env s = resolve_secret_value env' s"
  by (simp add: agree_on_def resolve_secret_value_def)

lemma evaluate_agree:
  "agree_on (set (expression_dependencies v)) env env'
     \<Longrightarrow> evaluate_expression env v = evaluate_expression env' v"
  "agree_on (set (expression_dependencies v)) env env'
     \<Longrightarrow> evaluate_expression_argument env v = evaluate_expression_argument env' v"
proof (induction env v and env v rule: evaluate_expression_evaluate_expression_argument.induct)
  case (1 env v)
  show ?case
  proof (cases "\<exists>m op args. v = JObject m \<and> map_of m ''op'' = Some (JString op)
      \<and> map_of m ''args'' = Some (JArray args)")
    case True
    then obtain m op args where v: "v = JObject m" and op: "map_of m ''op'' = Some (JString op)"
      and args: "map_of m ''args'' = Some (JArray args)" by blast
    have "\<forall>a \<in> set args. set (expression_dependencies a) \<subseteq> set (expression_dependencies v)"
      by (subst expression_dependencies.simps [of v]) (auto simp: v get_key_def args)
    with 1 v op args have "map_ok (evaluate_expression_argument env) args
        = map_ok (evaluate_expression_argument env') args"
      by (intro map_ok_cong refl "1.IH") (auto intro: agree_on_mono)
    with "1.prems" show ?thesis
      by (simp add: evaluate_expression.simps v op args agree_on_def)
  next
    case False
    then show ?thesis
      by (cases v) (auto simp: evaluate_expression.simps rbind_def ok_or_def
          split: option.splits sum.splits json.splits Option.bind_splits)
  qed
next
  case (2 env v)
  show ?case
  proof (cases "\<exists>m. v = JObject m \<and> length m = 1 \<and> map_of m ''literal'' = None")
    case True
    then obtain m where m: "v = JObject m" "length m = 1" "map_of m ''literal'' = None" by blast
    have ref_deps: "set (dependency from) \<subseteq> set (expression_dependencies v)"
      if "Option.bind (map_of m ''from'') as_str = Some from" for "from"
      using that by (subst expression_dependencies.simps [of v]) (simp add: m get_key_def)
    have expr_deps: "set (expression_dependencies e) \<subseteq> set (expression_dependencies v)"
      if "map_of m ''expr'' = Some e" for e
      using that by (subst expression_dependencies.simps [of v]) (auto simp: m get_key_def)
    consider (ref) "from" where "Option.bind (map_of m ''from'') as_str = Some from"
      | (secret) s where "Option.bind (map_of m ''from'') as_str = None"
          "Option.bind (map_of m ''secret'') as_str = Some s"
      | (expr) e where "Option.bind (map_of m ''from'') as_str = None"
          "Option.bind (map_of m ''secret'') as_str = None" "map_of m ''expr'' = Some e"
      | (plain) "Option.bind (map_of m ''from'') as_str = None"
          "Option.bind (map_of m ''secret'') as_str = None" "map_of m ''expr'' = None"
      by (metis option.exhaust)
    then show ?thesis
    proof cases
      case (ref "from")
      from resolve_from_agree [OF agree_on_mono [OF 2(2) ref_deps [OF ref]]] ref m show ?thesis
        by (simp add: evaluate_expression_argument.simps)
    next
      case secret
      with 2(2) m show ?thesis
        by (simp add: evaluate_expression_argument.simps resolve_secret_agree)
    next
      case (expr e)
      have "agree_on (set (expression_dependencies e)) env env'"
        using 2(2) expr_deps [OF expr(3)] by (rule agree_on_mono)
      with expr m 2(1) show ?thesis
        by (simp add: evaluate_expression_argument.simps)
    next
      case plain
      with m show ?thesis by (simp add: evaluate_expression_argument.simps)
    qed
  next
    case False
    then show ?thesis
      by (cases v) (auto simp: evaluate_expression_argument.simps split: option.splits)
  qed
qed

lemma expression_dependencies_other: "as_object v = None \<Longrightarrow> expression_dependencies v = []"
  by (subst expression_dependencies.simps) (simp add: get_key_def)

lemma in_expression_dependencies:
  "i \<in> set (expression_dependencies (JObject m)) \<longleftrightarrow>
     (\<exists>from. map_of m ''from'' = Some (JString from) \<and> i \<in> set (dependency from))
     \<or> (\<exists>e. map_of m ''expr'' = Some e \<and> i \<in> set (expression_dependencies e))
     \<or> (\<exists>args. map_of m ''args'' = Some (JArray args)
          \<and> (\<exists>a \<in> set args. i \<in> set (expression_dependencies a)))"
proof -
  let ?from = "case Option.bind (map_of m ''from'') as_str of None \<Rightarrow> [] | Some from \<Rightarrow> dependency from"
  let ?expr = "case map_of m ''expr'' of None \<Rightarrow> [] | Some e \<Rightarrow> expression_dependencies e"
  let ?args = "case map_of m ''args'' of
    Some (JArray args) \<Rightarrow> concat (map expression_dependencies args) | _ \<Rightarrow> []"
  have "expression_dependencies (JObject m) = ?from @ ?expr @ ?args"
    by (subst expression_dependencies.simps) (simp add: get_key_def)
  moreover have "i \<in> set ?from \<longleftrightarrow>
      (\<exists>from. map_of m ''from'' = Some (JString from) \<and> i \<in> set (dependency from))"
    by (cases "map_of m ''from''")
      (auto split: option.splits dest!: as_str_Some [THEN iffD1, OF sym])
  moreover have "i \<in> set ?expr \<longleftrightarrow>
      (\<exists>e. map_of m ''expr'' = Some e \<and> i \<in> set (expression_dependencies e))"
    by (cases "map_of m ''expr''") auto
  moreover have "i \<in> set ?args \<longleftrightarrow> (\<exists>args. map_of m ''args'' = Some (JArray args)
      \<and> (\<exists>a \<in> set args. i \<in> set (expression_dependencies a)))"
    by (cases "map_of m ''args''") (auto split: json.splits)
  ultimately show ?thesis by auto
qed

text \<open>The dependencies of a binding are among the references the planner checks.\<close>

lemma expression_dependencies_referenced:
  "i \<in> set (expression_dependencies v) \<Longrightarrow> \<exists>from \<in> set (expression_references v). reference_node from = Some i"
proof (induction v rule: expression_dependencies.induct)
  case (1 v)
  show ?case
  proof (cases v)
    case (JObject m)
    have sub: "set (expression_references u) \<subseteq> set (expression_references v)"
      if "map_of m k = Some u" for k u
      using that by (auto simp: JObject in_vals intro!: exI dest!: map_of_SomeD)
    have arg: "set (expression_references a) \<subseteq> set (expression_references (JArray args))"
      if "a \<in> set args" for a args using that by auto
    from "1.prems" [unfolded JObject in_expression_dependencies] consider
        "from" where "map_of m ''from'' = Some (JString from)" "i \<in> set (dependency from)"
      | e where "map_of m ''expr'' = Some e" "i \<in> set (expression_dependencies e)"
      | args a where "map_of m ''args'' = Some (JArray args)" "a \<in> set args"
          "i \<in> set (expression_dependencies a)"
      by blast
    then show ?thesis
    proof cases
      case 1
      then show ?thesis by (auto simp: JObject dependency_def split: option.splits)
    next
      case 2
      with "1.IH"(1) [of e] sub [of "''expr''" e] show ?thesis by (auto simp: JObject get_key_def)
    next
      case 3
      with "1.IH"(2) [of _ args a] sub [of "''args''" "JArray args"] arg show ?thesis
        by (fastforce simp: JObject get_key_def)
    qed
  qed (use "1.prems" in \<open>simp_all add: expression_dependencies_other\<close>)
qed

lemma dependency_referenced:
  assumes "(name, b) \<in> set (node_inputs n)" and "i \<in> set (binding_dependencies b)"
  shows "\<exists>from. (name, from) \<in> node_references n \<and> reference_node from = Some i"
proof (cases b)
  case (From "from")
  with assms show ?thesis
    by (auto simp: binding_dependencies_def node_references_def dependency_def split: option.splits)
next
  case (Expr e)
  with assms expression_dependencies_referenced [of i e] show ?thesis
    by (auto simp: binding_dependencies_def node_references_def)
qed (use assms in \<open>simp_all add: binding_dependencies_def\<close>)

section \<open>Arithmetic on integers\<close>

lemma number_argument_int:
  "\<bar>i\<bar> \<le> 2 ^ 53 \<Longrightarrow> number_argument (number_from_i64 i) op = Inr (of_int i)"
  using round64_int [of i] by (auto simp: number_argument_def number_from_i64_def)

lemma number_value_int:
  assumes "\<bar>i\<bar> \<le> 2 ^ 53"
  shows "number_value (Some (of_int i)) = Inr (number_from_i64 i)"
proof -
  have "\<bar>i\<bar> < 2 ^ 63" using assms by simp
  then have "- (2 ^ 63) \<le> (of_int i :: rat)" "(of_int i :: rat) \<le> 2 ^ 63"
    and "i64_of (of_int i) = i"
    by (simp_all add: i64_of_def trunc_rat_def abs_less_iff flip: of_int_le_iff)
  then show ?thesis by (simp add: number_value_def)
qed

text \<open>All sums of prefixes stay within 53 bits.\<close>

fun partial_sums :: "int \<Rightarrow> int list \<Rightarrow> int list" where
  "partial_sums acc [] = []"
| "partial_sums acc (i # is) = (acc + i) # partial_sums (acc + i) is"

lemma partial_sums_last: "is \<noteq> [] \<Longrightarrow> acc + sum_list is \<in> set (partial_sums acc is)"
proof (induction "is" arbitrary: acc)
  case (Cons i "is")
  from Cons.IH [of "acc + i"] show ?case by (cases "is = []") (auto simp: add.assoc)
qed simp

lemma fold_numbers_int:
  assumes "\<forall>i \<in> set is \<union> set (partial_sums acc is). \<bar>i\<bar> \<le> 2 ^ 53"
  shows "fold_numbers op (+) (Some (of_int acc)) (map number_from_i64 is)
    = Inr (Some (of_int (acc + sum_list is)))"
  using assms
proof (induction "is" arbitrary: acc)
  case (Cons i "is")
  then have "round64 (of_int (acc + i)) = Some (of_int (acc + i))"
    by (intro round64_int) simp
  with Cons.IH [of "acc + i"] Cons.prems show ?case
    by (simp add: number_argument_int add.assoc)
qed simp

lemma round64_two_63: "round64 (2 ^ 63) = Some (2 ^ 63)"
proof -
  have "bit_length (2 ^ 63) \<le> 64" "\<not> bit_length (2 ^ 63) \<le> 63"
    by (simp_all only: bit_length_le_iff) simp_all
  then have "bit_length (2 ^ 63) = 64" by simp
  then have "magnitude (of_nat (2 ^ 63)) = 64"
    by (subst magnitude_of_nat) simp_all
  then have ulp: "ulp_exp (2 ^ 63) = 11" by (simp add: ulp_exp_def)
  have "2 ^ 63 / pow2 11 = (of_int (2 ^ 52) :: rat)" by (simp add: pow2_def)
  then have "2 ^ 63 / pow2 (ulp_exp (2 ^ 63)) = (of_int (2 ^ 52) :: rat)" by (simp only: ulp)
  moreover have "\<bar>2 ^ 63 :: rat\<bar> < pow2 1024" by (simp add: pow2_def)
  ultimately show ?thesis by (intro round64_exact_scaled [where m = "2 ^ 52"]) simp_all
qed

lemma evaluate_numbers:
  "evaluate_expression env (JObject [(''args'', JArray (map JNumber ns)), (''op'', JString op)])
   = apply_operation (env_show_float env) op (map JNumber ns)"
proof -
  have "map_ok (evaluate_expression_argument env) (map JNumber ns) = Inr (map JNumber ns)"
    by (induction ns) (simp_all add: evaluate_expression_argument.simps)
  then show ?thesis by (simp add: evaluate_expression.simps)
qed

section \<open>Durations and paths\<close>

lemma parse_duration_cases:
  "valid_duration s \<longleftrightarrow>
   (\<exists>t. parse_duration s = Inr t) \<or> parse_duration s = Inl ''workflow policy.timeout is too large''"
  by (auto simp: valid_duration_def parse_duration_def Let_def split: option.splits if_splits)

lemma parse_duration_bounds: "parse_duration s = Inr t \<Longrightarrow> 0 < t \<and> t < 2 ^ 64"
  by (auto simp: parse_duration_def Let_def rbind_Inr split: option.splits if_splits)

lemma check_prefixes_inside:
  assumes "check_prefixes path_exists canonicalize base checked cs = Inr ()"
    and "p \<noteq> []" and "prefix p cs" and "path_exists (checked @ p)"
  shows "\<exists>resolved. canonicalize (checked @ p) = Inr resolved \<and> prefix base resolved"
  using assms
proof (induction cs arbitrary: checked p)
  case (Cons c cs)
  then obtain q where p: "p = c # q" and q: "prefix q cs" by (cases p) auto
  show ?case
  proof (cases "q = []")
    case True
    with Cons.prems p show ?thesis by (auto simp: Let_def split: sum.splits if_splits)
  next
    case False
    have "check_prefixes path_exists canonicalize base (checked @ [c]) cs = Inr ()"
      using Cons.prems(1) by (auto simp: Let_def split: sum.splits if_splits)
    with Cons.IH [of "checked @ [c]" q] False q Cons.prems(4) p show ?thesis by simp
  qed
qed simp

section \<open>Properties\<close>

definition plain_env :: "json_map btree_map \<Rightarrow> resolve_env" where
  "plain_env outs =
     \<lparr>env_secret = (\<lambda>_. Inl ''no secret''), env_outputs = outs, env_locals = [],
      env_show_float = (\<lambda>_. [])\<rparr>"

text \<open>Resolving a binding reads no outputs but those of its dependencies: two environments that
  agree on them give the same result, so a node may run as soon as its dependencies have.\<close>

theorem resolve_binding_frame:
  assumes "agree_on (set (binding_dependencies b)) env env'"
  shows "resolve_binding env b = resolve_binding env' b"
  using assms
  by (cases b) (simp_all add: resolve_binding_def binding_dependencies_def resolve_from_agree
      evaluate_agree resolve_secret_agree)

theorem resolve_binding_frame_witness:
  "resolve_binding (plain_env [(''a'', [(''x'', JNull)])]) (From ''a.x'')
   = resolve_binding (plain_env [(''b'', []), (''a'', [(''x'', JNull)])]) (From ''a.x'')"
  by (rule resolve_binding_frame)
    (simp add: agree_on_def plain_env_def binding_dependencies_def dependency_def reference_node_def)

text \<open>what the run time waits for is what the planner checked: every dependency of a binding of a
  node comes from a reference of that node.\<close>

theorem dependencies_are_references:
  "(name, b) \<in> set (node_inputs n) \<Longrightarrow> i \<in> set (binding_dependencies b)
   \<Longrightarrow> \<exists>from. (name, from) \<in> node_references n \<and> reference_node from = Some i"
  by (rule dependency_referenced)

theorem dependencies_are_references_witness:
  "\<exists>from. (''content'', from) \<in> node_references copy_node \<and> reference_node from = Some ''read''"
  by (rule dependencies_are_references [where b = "From ''read.text''"])
    (simp_all add: copy_node_def binding_dependencies_def dependency_def reference_node_def)

text \<open>Adding integers is exact while the operands and all partial sums have at most 53 bits.\<close>

theorem add_exact:
  assumes "is \<noteq> []" and "\<forall>i \<in> set is \<union> set (partial_sums 0 is). \<bar>i\<bar> \<le> 2 ^ 53"
  shows "apply_operation show_float ''add'' (map number_from_i64 is)
    = Inr (number_from_i64 (sum_list is))"
proof -
  from partial_sums_last [OF assms(1), of 0] have "sum_list is \<in> set (partial_sums 0 is)" by simp
  with assms have "\<bar>sum_list is\<bar> \<le> 2 ^ 53" by blast
  moreover have "fold_numbers ''add'' (+) (Some 0) (map number_from_i64 is) = Inr (Some (of_int (sum_list is)))"
    using fold_numbers_int [of "is" 0 "''add''"] assms(2) by simp
  ultimately show ?thesis
    using assms(1) number_value_int by (simp add: apply_operation_def numeric_fold_def)
qed

theorem add_exact_witness:
  "apply_operation (\<lambda>_. []) ''add'' (map number_from_i64 [40, 2, - 7])
   = Inr (number_from_i64 (sum_list [40, 2, - 7]))"
  by (rule add_exact) simp_all

text \<open>The sum of the single integer \<open>2^63\<close> is \<open>2^63 - 1\<close>: the conversion back to an
  integer admits that value and saturates on it.\<close>

theorem add_saturates:
  "evaluate_expression env
     (JObject [(''args'', JArray [JNumber (PosInt (2 ^ 63))]), (''op'', JString ''add'')])
   = Inr (JNumber (PosInt (2 ^ 63 - 1)))"
proof -
  note exact = round64_two_63
  then have "number_argument (JNumber (PosInt (2 ^ 63))) ''add'' = Inr (2 ^ 63)"
    by (simp add: number_argument_def)
  moreover have "number_value (Some (2 ^ 63)) = Inr (JNumber (PosInt (2 ^ 63 - 1)))"
    by (simp add: number_value_def i64_of_def trunc_rat_def number_from_i64_def)
  ultimately show ?thesis
    using evaluate_numbers [of env "[PosInt (2 ^ 63)]" "''add''"] exact
    by (simp add: apply_operation_def numeric_fold_def)
qed

text \<open>The planner accepts exactly the timeouts the run time can parse or finds too large for 64
  bits; a parsed duration is positive.\<close>

theorem valid_duration_parses:
  "(valid_duration s \<longleftrightarrow>
     (\<exists>t. parse_duration s = Inr t) \<or> parse_duration s = Inl ''workflow policy.timeout is too large'')
   \<and> (\<forall>t. parse_duration s = Inr t \<longrightarrow> 0 < t \<and> t < 2 ^ 64)"
  using parse_duration_cases parse_duration_bounds by blast

theorem valid_duration_parses_witness: "valid_duration ''30s'' \<and> parse_duration ''30s'' = Inr 30000"
proof -
  have "parse_duration ''30s'' = Inr 30000" by code_simp
  with valid_duration_parses [of "''30s''"] show ?thesis by blast
qed

text \<open>Every run has a deadline: the effective timeout is positive and at most an hour, and five
  minutes when the policy sets none.\<close>

theorem execution_timeout_finite:
  "(ensure_finite_execution_timeout p = Inr (t, p') \<longrightarrow>
      0 < t \<and> t \<le> 3600000 \<and> timeout p' \<noteq> None)
   \<and> (timeout p = None \<longrightarrow> (\<exists>p'. ensure_finite_execution_timeout p = Inr (300000, p')))"
proof -
  have default: "parse_duration (show_nat (DEFAULT_EXECUTION_TIMEOUT div 1000) @ ''s'') = Inr 300000"
    by code_simp
  show ?thesis
    using default
    by (auto simp: ensure_finite_execution_timeout_def Let_def rbind_Inr MAX_EXECUTION_TIMEOUT_def
        dest: parse_duration_bounds split: if_splits)
qed

theorem execution_timeout_finite_witness:
  "\<exists>p'. ensure_finite_execution_timeout
     \<lparr>timeout = None, max_parallel_nodes = None, concurrency = None, ai = None\<rparr> = Inr (300000, p')"
  using execution_timeout_finite
    [of "\<lparr>timeout = None, max_parallel_nodes = None, concurrency = None, ai = None\<rparr>"] by simp

text \<open>A path the file nodes are given lies under the workspace: it has no parent component, and
  every ancestor of it below the root that exists resolves to a place inside the root.\<close>

theorem workspace_path_inside:
  assumes "workspace_path path_exists canonicalize workspace input = Inr path"
  shows "\<exists>base. canonicalize workspace = Inr base \<and> path = base @ path_components input
    \<and> ''..'' \<notin> set (path_components input)
    \<and> (\<forall>p. p \<noteq> [] \<longrightarrow> prefix p (path_components input) \<longrightarrow> path_exists (base @ p) \<longrightarrow>
         (\<exists>resolved. canonicalize (base @ p) = Inr resolved \<and> prefix base resolved))"
  using assms
  by (auto simp: workspace_path_def rbind_Inr split: if_splits sum.splits
      intro: check_prefixes_inside)

theorem workspace_path_inside_witness:
  "\<exists>base. (Inr base :: (string, string list) result) = Inr [''ws''] \<and> [''ws'', ''a'', ''b''] = base @ [''a'', ''b'']"
proof -
  have "workspace_path (\<lambda>p. True) Inr [''ws''] ''a/b'' = Inr [''ws'', ''a'', ''b'']"
    and "path_components ''a/b'' = [''a'', ''b'']" by code_simp+
  with workspace_path_inside [of "\<lambda>_. True" Inr "[''ws'']" "''a/b''"] show ?thesis by auto
qed

end
