(* ===== verification/Graph_Run.thy ===== *)
theory Graph_Run
  imports Expr
begin

text \<open>
  The graph scheduler (\<open>execute_graph\<close> of \<open>src/runtime.rs\<close>): rounds that close unselected
  paths, run the ready nodes in batches and activate the targets of the routes they took.  What
  happens outside the scheduler is a \<open>host\<close>: the cancellation check, the run of one batch (its
  nodes run concurrently, so a batch is one step that gives a result for each of its members), the
  record of a node's outcome, and the secret store.  A host works on a world of any type.
\<close>

section \<open>Data\<close>

record node_result =
  result_route :: string
  result_outputs :: json_map
  result_message :: "string option"

text \<open>The errors of a run: the one of the scheduler itself, a panic of an \<open>expect\<close>, and the
  messages of everything else.\<close>

datatype run_error = NoProgress | Panic string | Failed string

fun run_error_text :: "run_error \<Rightarrow> string" where
  "run_error_text NoProgress =
     ''graph cannot make progress: an input or control dependency is unavailable''"
| "run_error_text (Panic s) = s"
| "run_error_text (Failed s) = s"

record 'w host =
  host_check :: "'w \<Rightarrow> (string, unit) result \<times> 'w"
  host_run ::
    "(workflow_node \<times> json_map) list \<Rightarrow> json_map \<Rightarrow> 'w
     \<Rightarrow> (nat \<Rightarrow> (string, node_result) result) \<times> 'w"
  host_record :: "workflow_node \<Rightarrow> (string, node_result) result \<Rightarrow> 'w \<Rightarrow> (string, unit) result \<times> 'w"
  host_secret :: "'w \<Rightarrow> string \<Rightarrow> (string, string) result"
  host_show_float :: "f64 \<Rightarrow> string"

record graph_state =
  settled :: "string list"
  activated :: "string list"
  produced :: "json_map btree_map"
  scope_locals :: json_map

definition set_variable :: "workflow_node \<Rightarrow> bool" where
  "set_variable n = (node_type n = ''kakune.flow.set-variable@1'')"

definition node_dependencies :: "workflow_node \<Rightarrow> string list" where
  "node_dependencies n = concat (map binding_dependencies (vals (node_inputs n)))"

section \<open>Closing unselected paths\<close>

definition closable :: "workflow_node list \<Rightarrow> string list \<Rightarrow> string list \<Rightarrow> workflow_node \<Rightarrow> bool" where
  "closable ns act done_ids n =
     (node_id n \<notin> set done_ids \<and> node_id n \<notin> set act
      \<and> list_all (\<lambda>i. i \<in> set done_ids) (routed_from ns (node_id n)))"

fun close_pass ::
  "workflow_node list \<Rightarrow> string list \<Rightarrow> workflow_node list \<Rightarrow> string list \<Rightarrow> string list" where
  "close_pass ns act [] done_ids = done_ids"
| "close_pass ns act (n # rest) done_ids =
     close_pass ns act rest (if closable ns act done_ids n then node_id n # done_ids else done_ids)"

lemma close_pass_suffix: "suffix done_ids (close_pass ns act rest done_ids)"
  by (induction rest arbitrary: done_ids) (auto intro: suffix_order.trans suffix_ConsI)

lemma close_pass_ids: "set (close_pass ns act rest done_ids) \<subseteq> set done_ids \<union> node_id ` set rest"
  by (induction rest arbitrary: done_ids) (fastforce split: if_splits)+

lemma close_pass_distinct: "distinct done_ids \<Longrightarrow> distinct (close_pass ns act rest done_ids)"
  by (induction rest arbitrary: done_ids) (auto simp: closable_def)

text \<open>The pass is repeated until it closes nothing.\<close>

function close_loop :: "workflow_node list \<Rightarrow> string list \<Rightarrow> string list \<Rightarrow> string list" where
  "close_loop ns act done_ids =
     (let done' = close_pass ns act ns done_ids in
      if length done' = length done_ids then done_ids else close_loop ns act done')"
  by pat_completeness auto

lemma close_pass_new:
  assumes "length (close_pass ns act rest done_ids) \<noteq> length done_ids"
  shows "\<exists>n \<in> set rest. node_id n \<notin> set done_ids
    \<and> node_id n \<in> set (close_pass ns act rest done_ids)"
  using assms
proof (induction rest arbitrary: done_ids)
  case (Cons n rest)
  show ?case
  proof (cases "closable ns act done_ids n")
    case True
    moreover have "suffix (node_id n # done_ids) (close_pass ns act rest (node_id n # done_ids))"
      by (rule close_pass_suffix)
    then have "node_id n \<in> set (close_pass ns act rest (node_id n # done_ids))"
      by (auto simp: suffix_def)
    ultimately show ?thesis by (auto simp: closable_def)
  next
    case False
    with Cons show ?thesis by auto
  qed
qed simp

termination close_loop
proof (relation "measure (\<lambda>(ns, act, done_ids). card (node_id ` set ns - set done_ids))", goal_cases)
  case (2 ns act done_ids done')
  from 2 obtain n where n: "n \<in> set ns" "node_id n \<notin> set done_ids" "node_id n \<in> set done'"
    using close_pass_new by metis
  have "set done_ids \<subseteq> set done'"
    using 2(1) close_pass_suffix [of done_ids ns act ns] by (simp add: set_mono_suffix)
  with n have "node_id ` set ns - set done' \<subset> node_id ` set ns - set done_ids" by auto
  then show ?case by (simp add: psubset_card_mono)
qed simp

declare close_loop.simps [simp del]

section \<open>Rounds\<close>

definition ready_nodes ::
  "workflow_node list \<Rightarrow> string list \<Rightarrow> string list \<Rightarrow> workflow_node list" where
  "ready_nodes ns act done_ids =
     filter
       (\<lambda>n. node_id n \<notin> set done_ids \<and> node_id n \<in> set act
          \<and> list_all (\<lambda>i. i \<in> set done_ids) (routed_from ns (node_id n))
          \<and> list_all (\<lambda>i. i \<in> set done_ids) (node_dependencies n))
       ns"

fun check_writers :: "string list \<Rightarrow> workflow_node list \<Rightarrow> (run_error, unit) result" where
  "check_writers writers [] = Inr ()"
| "check_writers writers (n # ns) =
     (if set_variable n
      then (case variable_name n of
          None \<Rightarrow> Inl (Failed ''variable name is missing'')
        | Some name \<Rightarrow>
            (if name \<in> set writers
             then Inl (Failed (''concurrent writes to variable '' @ name @
                               '' require an explicit reducer''))
             else check_writers (name # writers) ns))
      else check_writers writers ns)"

text \<open>\<open>slice.chunks(k)\<close>, which panics when \<open>k\<close> is 0.\<close>

function chunks :: "nat \<Rightarrow> 'a list \<Rightarrow> 'a list list" where
  "chunks k xs = (if k = 0 \<or> xs = [] then [] else take k xs # chunks k (drop k xs))"
  by pat_completeness auto
termination by (relation "measure (\<lambda>(k, xs). length xs)") auto

declare chunks.simps [simp del]

definition env_of :: "'w host \<Rightarrow> 'w \<Rightarrow> graph_state \<Rightarrow> resolve_env" where
  "env_of h w st =
     \<lparr>env_secret = host_secret h w, env_outputs = produced st, env_locals = scope_locals st,
      env_show_float = host_show_float h\<rparr>"

definition lift_error :: "(string, 'a) result \<Rightarrow> (run_error, 'a) result" where
  "lift_error r = (case r of Inl e \<Rightarrow> Inl (Failed e) | Inr x \<Rightarrow> Inr x)"

text \<open>What a succeeded node changes: its route activates its targets, its outputs are kept, it is
  settled, and \<open>set-variable\<close> binds its name.\<close>

definition settle ::
  "workflow_node \<Rightarrow> json_map \<Rightarrow> node_result \<Rightarrow> graph_state \<Rightarrow> (run_error, graph_state) result" where
  "settle n inputs r st =
     (let st' = st\<lparr>activated := activated st @
                (case map_of (node_on n) (result_route r) of None \<Rightarrow> [] | Some ts \<Rightarrow> targets_iter ts),
              produced := map_insert (node_id n) (result_outputs r) (produced st),
              settled := List.insert (node_id n) (settled st)\<rparr>
      in if set_variable n
         then (case variable_name n of
             None \<Rightarrow> Inl (Panic ''validated variable name'')
           | Some name \<Rightarrow>
               (case map_of inputs ''value'' of
                  None \<Rightarrow> Inl (Panic ''validated variable value'')
                | Some v \<Rightarrow>
                    Inr (st'\<lparr>scope_locals := map_insert (''$'' @ name) v (scope_locals st')\<rparr>)))
         else Inr st')"

text \<open>The results of a batch in order; the last error wins, except that the error of an aborted
  sibling never replaces another one.\<close>

fun apply_results ::
  "'w host \<Rightarrow> ((workflow_node \<times> json_map) \<times> (string, node_result) result) list
   \<Rightarrow> string option \<Rightarrow> graph_state \<Rightarrow> 'w \<Rightarrow> (run_error, graph_state) result \<times> 'w" where
  "apply_results h [] failure st w =
     ((case failure of None \<Rightarrow> Inr st | Some e \<Rightarrow> Inl (Failed e)), w)"
| "apply_results h (((n, inputs), r) # rest) failure st w =
     (case host_record h n r w of
        (Inl e, w') \<Rightarrow> (Inl (Failed e), w')
      | (Inr _, w') \<Rightarrow>
          (case r of
             Inl e \<Rightarrow>
               apply_results h rest
                 (if failure = None \<or> e \<noteq> ''sibling node failed'' then Some e else failure) st w'
           | Inr res \<Rightarrow>
               (case settle n inputs res st of
                  Inl e \<Rightarrow> (Inl e, w')
                | Inr st' \<Rightarrow> apply_results h rest failure st' w')))"

definition run_batch ::
  "'w host \<Rightarrow> workflow_node list \<Rightarrow> graph_state \<Rightarrow> 'w \<Rightarrow> (run_error, graph_state) result \<times> 'w" where
  "run_batch h batch st w =
     (case map_ok (\<lambda>n. resolve_inputs (env_of h w st) (node_inputs n)) batch of
        Inl e \<Rightarrow> (Inl (Failed e), w)
      | Inr prepared \<Rightarrow>
          (let tasks = zip batch prepared in
           (case host_run h tasks (scope_locals st) w of
              (results, w') \<Rightarrow>
                apply_results h (zip tasks (map results [0 ..< length tasks])) None st w')))"

fun run_batches ::
  "'w host \<Rightarrow> workflow_node list list \<Rightarrow> graph_state \<Rightarrow> 'w
   \<Rightarrow> (run_error, graph_state) result \<times> 'w" where
  "run_batches h [] st w = (Inr st, w)"
| "run_batches h (b # bs) st w =
     (case run_batch h b st w of
        (Inl e, w') \<Rightarrow> (Inl e, w')
      | (Inr st', w') \<Rightarrow> run_batches h bs st' w')"

text \<open>One round of the loop.\<close>

definition graph_round ::
  "'w host \<Rightarrow> workflow_node list \<Rightarrow> nat \<Rightarrow> graph_state \<Rightarrow> 'w
   \<Rightarrow> (run_error, graph_state) result \<times> 'w" where
  "graph_round h ns max_parallel st w =
     (case host_check h w of
        (Inl e, w') \<Rightarrow> (Inl (Failed e), w')
      | (Inr _, w') \<Rightarrow>
          (let done_ids = close_loop ns (activated st) (settled st);
               ready = ready_nodes ns (activated st) done_ids;
               st' = st\<lparr>settled := done_ids\<rparr>
           in if ready = []
              then (if length done_ids = length ns then (Inr st', w') else (Inl NoProgress, w'))
              else (case check_writers [] ready of
                  Inl e \<Rightarrow> (Inl e, w')
                | Inr _ \<Rightarrow>
                    (if max_parallel = 0 then (Inl (Panic ''chunk size must be non-zero''), w')
                     else run_batches h (chunks max_parallel ready) st' w'))))"

section \<open>Progress of a round\<close>

lemma concat_chunks: "0 < k \<Longrightarrow> concat (chunks k xs) = xs"
proof (induction k xs rule: chunks.induct)
  case (1 k xs)
  then show ?case by (cases "xs = []") (simp_all add: chunks.simps [of k])
qed

lemma chunks_nonempty: "[] \<notin> set (chunks k xs)"
proof (induction k xs rule: chunks.induct)
  case (1 k xs)
  then show ?case by (cases "k = 0 \<or> xs = []") (auto simp: chunks.simps [of k xs])
qed

definition settle_ids :: "workflow_node list \<Rightarrow> string list \<Rightarrow> string list" where
  "settle_ids ns done_ids = fold (\<lambda>n. List.insert (node_id n)) ns done_ids"

lemma settle_ids_set [simp]: "set (settle_ids ns done_ids) = node_id ` set ns \<union> set done_ids"
  by (induction ns arbitrary: done_ids) (auto simp: settle_ids_def)

lemma settle_ids_length: "length done_ids \<le> length (settle_ids ns done_ids)"
proof (induction ns arbitrary: done_ids)
  case (Cons n ns)
  have "length done_ids \<le> length (List.insert (node_id n) done_ids)" by (simp add: List.insert_def)
  also have "\<dots> \<le> length (settle_ids ns (List.insert (node_id n) done_ids))" by (rule Cons)
  finally show ?case by (simp add: settle_ids_def)
qed (simp add: settle_ids_def)

lemma settle_ids_grows:
  assumes "ns \<noteq> []" and "node_id (hd ns) \<notin> set done_ids"
  shows "length done_ids < length (settle_ids ns done_ids)"
proof -
  obtain n rest where ns: "ns = n # rest" using assms(1) by (cases ns) auto
  with assms(2) settle_ids_length [of "node_id n # done_ids" rest] show ?thesis
    by (simp add: settle_ids_def List.insert_def)
qed

lemma settle_ids_distinct: "distinct done_ids \<Longrightarrow> distinct (settle_ids ns done_ids)"
  by (induction ns arbitrary: done_ids) (simp_all add: settle_ids_def)

lemma settle_settled: "settle n inputs r st = Inr st' \<Longrightarrow> settled st' = List.insert (node_id n) (settled st)"
  by (auto simp: settle_def Let_def split: if_splits option.splits)

lemma apply_results_failure: "fst (apply_results h xs (Some e) st w) \<noteq> Inr st'"
proof (induction xs arbitrary: e st w)
  case (Cons x xs)
  obtain n inputs r where x: "x = ((n, inputs), r)" by (cases x) auto
  from Cons show ?case by (auto simp: x split: prod.split sum.split)
qed simp

lemma apply_results_step:
  assumes "apply_results h (((n, inputs), r) # rest) None st w = (Inr st', w')"
  obtains res st1 w1 where "host_record h n r w = (Inr (), w1)" "r = Inr res"
    "settle n inputs res st = Inr st1" "apply_results h rest None st1 w1 = (Inr st', w')"
proof -
  obtain rec w1 where rec: "host_record h n r w = (rec, w1)" by fastforce
  with assms have "rec = Inr ()" by (cases rec) auto
  moreover have "\<exists>res. r = Inr res"
  proof (cases r)
    case (Inl e)
    with assms rec \<open>rec = Inr ()\<close> have "fst (apply_results h rest (Some e) st w1) = Inr st'" by simp
    then show ?thesis using apply_results_failure [of h rest e st w1 st'] by contradiction
  qed simp
  ultimately show thesis
    using assms rec that by (auto split: sum.splits)
qed

lemma apply_results_settled:
  "apply_results h xs None st w = (Inr st', w') \<Longrightarrow>
   settled st' = settle_ids (map (fst \<circ> fst) xs) (settled st)"
proof (induction xs arbitrary: st w)
  case (Cons x xs)
  obtain n inputs r where x: "x = ((n, inputs), r)" by (cases x) auto
  from Cons.prems [unfolded x] obtain res st1 w1 where st1: "settle n inputs res st = Inr st1"
    and rest: "apply_results h xs None st1 w1 = (Inr st', w')" by (rule apply_results_step)
  from Cons.IH [OF rest] settle_settled [OF st1] show ?case by (simp add: x settle_ids_def)
qed (simp add: settle_ids_def)

text \<open>What every step of a round keeps is kept by the loop: a predicate on states that closing and
  settling preserve.\<close>

locale run_invariant =
  fixes ns :: "workflow_node list" and P :: "graph_state \<Rightarrow> bool"
  assumes keeps_close: "P st \<Longrightarrow> P (st\<lparr>settled := close_loop ns (activated st) (settled st)\<rparr>)"
    and keeps_settle: "P st \<Longrightarrow> n \<in> set ns
      \<Longrightarrow> list_all (\<lambda>i. i \<in> set (settled st)) (routed_from ns (node_id n))
      \<Longrightarrow> node_id n \<in> set (activated st)
      \<Longrightarrow> settle n inputs r st = Inr st' \<Longrightarrow> P st'"
begin

definition runnable :: "graph_state \<Rightarrow> workflow_node \<Rightarrow> bool" where
  "runnable st n \<longleftrightarrow> n \<in> set ns \<and> list_all (\<lambda>i. i \<in> set (settled st)) (routed_from ns (node_id n))
     \<and> node_id n \<in> set (activated st)"

lemma runnable_settle:
  "runnable st m \<Longrightarrow> settle n inputs r st = Inr st' \<Longrightarrow> runnable st' m"
  by (auto simp: runnable_def settle_def Let_def list_all_iff split: if_splits option.splits)

lemma apply_results_keeps:
  "apply_results h xs None st w = (Inr st', w') \<Longrightarrow> P st \<Longrightarrow> \<forall>x \<in> set xs. runnable st (fst (fst x))
   \<Longrightarrow> P st' \<and> (\<forall>m. runnable st m \<longrightarrow> runnable st' m)"
proof (induction xs arbitrary: st w)
  case (Cons x xs)
  obtain n inputs r where x: "x = ((n, inputs), r)" by (cases x) auto
  from Cons.prems(1) [unfolded x] obtain res st1 w1 where st1: "settle n inputs res st = Inr st1"
    and rest: "apply_results h xs None st1 w1 = (Inr st', w')" by (rule apply_results_step)
  have "P st1"
    using Cons.prems(2,3) keeps_settle [OF _ _ _ _ st1] by (auto simp: x runnable_def)
  from Cons.IH [OF rest this] Cons.prems(3) runnable_settle [OF _ st1] show ?case by auto
qed simp

lemma run_batch_keeps:
  assumes "run_batch h batch st w = (Inr st', w')" and "P st" and "\<forall>n \<in> set batch. runnable st n"
  shows "P st' \<and> (\<forall>m. runnable st m \<longrightarrow> runnable st' m)"
proof -
  from assms(1) obtain prepared results w1 where
    "apply_results h (zip (zip batch prepared) (map results [0 ..< length (zip batch prepared)])) None st w1
       = (Inr st', w')"
    by (auto simp: run_batch_def Let_def split: sum.splits prod.splits)
  then show ?thesis
    by (rule apply_results_keeps) (use assms(2,3) in \<open>auto dest!: set_zip_leftD\<close>)
qed

lemma run_batches_keeps:
  "run_batches h bs st w = (Inr st', w') \<Longrightarrow> P st \<Longrightarrow> \<forall>n \<in> set (concat bs). runnable st n \<Longrightarrow> P st'"
proof (induction bs arbitrary: st w)
  case (Cons b bs)
  from Cons.prems(1) obtain st1 w1 where first: "run_batch h b st w = (Inr st1, w1)"
    and rest: "run_batches h bs st1 w1 = (Inr st', w')"
    by (auto split: prod.splits sum.splits)
  from run_batch_keeps [OF first Cons.prems(2)] Cons.prems(3) Cons.IH [OF rest] show ?case by simp
qed simp

lemma graph_round_keeps:
  assumes "graph_round h ns max_parallel st w = (Inr st', w')" and "P st"
  shows "P st'"
proof -
  let ?done = "close_loop ns (activated st) (settled st)"
  let ?st = "st\<lparr>settled := ?done\<rparr>"
  let ?ready = "ready_nodes ns (activated st) ?done"
  have close: "P ?st" using assms(2) by (rule keeps_close)
  from assms(1) consider "st' = ?st"
    | w1 where "0 < max_parallel" "run_batches h (chunks max_parallel ?ready) ?st w1 = (Inr st', w')"
    by (auto simp: graph_round_def Let_def split: prod.splits sum.splits if_splits)
  then show ?thesis
  proof cases
    case 2
    show ?thesis
      by (rule run_batches_keeps [OF 2(2) close])
        (use 2(1) in \<open>auto simp: concat_chunks ready_nodes_def runnable_def\<close>)
  qed (use close in simp)
qed

end

lemma run_batch_settled:
  assumes "run_batch h batch st w = (Inr st', w')"
  shows "settled st' = settle_ids batch (settled st)"
proof -
  from assms obtain prepared results w1 where
    prepared: "map_ok (\<lambda>n. resolve_inputs (env_of h w st) (node_inputs n)) batch = Inr prepared"
    and run: "apply_results h (zip (zip batch prepared) (map results [0 ..< length (zip batch prepared)])) None st w1
       = (Inr st', w')"
    by (auto simp: run_batch_def Let_def split: sum.splits prod.splits)
  from prepared have "length prepared = length batch"
    by (auto simp: map_ok_Inr dest: list_all2_lengthD)
  with apply_results_settled [OF run] show ?thesis by (simp flip: map_map)
qed

lemma run_batches_settled:
  "run_batches h bs st w = (Inr st', w') \<Longrightarrow> settled st' = settle_ids (concat bs) (settled st)"
proof (induction bs arbitrary: st w)
  case (Cons b bs)
  from Cons.prems(1) obtain st1 w1 where "run_batch h b st w = (Inr st1, w1)"
    and "run_batches h bs st1 w1 = (Inr st', w')"
    by (auto split: prod.splits sum.splits)
  with Cons.IH run_batch_settled show ?case by (force simp: settle_ids_def)
qed (simp add: settle_ids_def)

lemma close_loop_suffix: "suffix done_ids (close_loop ns act done_ids)"
proof (induction ns act done_ids rule: close_loop.induct)
  case (1 ns act done_ids)
  then show ?case
    using close_pass_suffix [of done_ids ns act ns]
    by (subst close_loop.simps) (auto simp: Let_def intro: suffix_order.trans)
qed

lemma graph_round_settled:
  assumes "graph_round h ns max_parallel st w = (Inr st', w')"
  shows "settled st' = settle_ids (ready_nodes ns (activated st) (close_loop ns (activated st) (settled st)))
      (close_loop ns (activated st) (settled st))
    \<and> (ready_nodes ns (activated st) (close_loop ns (activated st) (settled st)) = []
        \<longrightarrow> length (settled st') = length ns)"
  using assms
  by (auto simp: graph_round_def Let_def concat_chunks settle_ids_def
      dest!: run_batches_settled split: prod.splits sum.splits if_splits)

lemma graph_round_progress:
  assumes "graph_round h ns max_parallel st w = (Inr st', w')" and "length (settled st) < length ns"
  shows "length (settled st) < length (settled st')"
proof -
  let ?done = "close_loop ns (activated st) (settled st)"
  let ?ready = "ready_nodes ns (activated st) ?done"
  have le: "length (settled st) \<le> length ?done"
    using close_loop_suffix by (rule suffix_length_le)
  show ?thesis
  proof (cases "?ready = []")
    case True
    with graph_round_settled [OF assms(1)] have "length (settled st') = length ns" by blast
    with assms(2) show ?thesis by simp
  next
    case False
    then have "hd ?ready \<in> set ?ready" by simp
    then have fresh: "node_id (hd ?ready) \<notin> set ?done" by (simp add: ready_nodes_def)
    from settle_ids_grows [OF False fresh] graph_round_settled [OF assms(1)] le
    show ?thesis by simp
  qed
qed

section \<open>The loop\<close>

function graph_loop ::
  "'w host \<Rightarrow> workflow_node list \<Rightarrow> nat \<Rightarrow> graph_state \<Rightarrow> 'w
   \<Rightarrow> (run_error, graph_state) result \<times> 'w" where
  "graph_loop h ns max_parallel st w =
     (if length (settled st) < length ns
      then (case graph_round h ns max_parallel st w of
          (Inl e, w') \<Rightarrow> (Inl e, w')
        | (Inr st', w') \<Rightarrow> graph_loop h ns max_parallel st' w')
      else (Inr st, w))"
  by pat_completeness auto
termination
proof (relation "measure (\<lambda>(h, ns, max_parallel, st, w). length ns - length (settled st))", goal_cases)
  case (2 h ns max_parallel st w r w' st')
  with graph_round_progress [of h ns max_parallel st w st' w'] show ?case by auto
qed simp

declare graph_loop.simps [simp del]

definition initial_state :: "string \<Rightarrow> json_map \<Rightarrow> graph_state" where
  "initial_state e locals = \<lparr>settled = [], activated = [e], produced = [], scope_locals = locals\<rparr>"

definition execute_graph ::
  "'w host \<Rightarrow> nat \<Rightarrow> workflow_node list \<Rightarrow> string \<Rightarrow> json_map \<Rightarrow> 'w
   \<Rightarrow> (run_error, json_map btree_map) result \<times> 'w" where
  "execute_graph h max_parallel ns e locals w =
     (case graph_loop h ns max_parallel (initial_state e locals) w of
        (Inl err, w') \<Rightarrow> (Inl err, w')
      | (Inr st, w') \<Rightarrow> (Inr (produced st), w'))"

context run_invariant
begin

text \<open>The loop ends with everything settled, or with the error of a round that started in a state
  with the invariant.\<close>

lemma graph_loop_cases:
  "P st \<Longrightarrow>
   (\<exists>st' w'. graph_loop h ns max_parallel st w = (Inr st', w') \<and> P st' \<and> length ns \<le> length (settled st'))
   \<or> (\<exists>st1 w1 e w'. P st1 \<and> length (settled st1) < length ns
        \<and> graph_round h ns max_parallel st1 w1 = (Inl e, w')
        \<and> graph_loop h ns max_parallel st w = (Inl e, w'))"
proof (induction "length ns - length (settled st)" arbitrary: st w rule: less_induct)
  case less
  show ?case
  proof (cases "length (settled st) < length ns")
    case False
    with less.prems show ?thesis by (auto simp: graph_loop.simps [of h ns max_parallel st])
  next
    case True
    obtain r w1 where round: "graph_round h ns max_parallel st w = (r, w1)" by fastforce
    show ?thesis
    proof (cases r)
      case (Inl e)
      with True round less.prems show ?thesis
        by (auto simp: graph_loop.simps [of h ns max_parallel st])
    next
      case (Inr st1)
      with round have r: "graph_round h ns max_parallel st w = (Inr st1, w1)" by simp
      have "graph_loop h ns max_parallel st w = graph_loop h ns max_parallel st1 w1"
        using True r by (simp add: graph_loop.simps [of h ns max_parallel st])
      moreover have "length ns - length (settled st1) < length ns - length (settled st)"
        using graph_round_progress [OF r True] True by simp
      ultimately show ?thesis
        using less.hyps [of st1 w1] graph_round_keeps [OF r less.prems] by simp
    qed
  qed
qed

end

section \<open>The invariant of the scheduler\<close>

definition predecessor_closed :: "workflow_node list \<Rightarrow> string set \<Rightarrow> bool" where
  "predecessor_closed ns S \<longleftrightarrow> (\<forall>b \<in> S. set (routed_from ns b) \<subseteq> S)"

lemma routed_from_edges: "a \<in> set (routed_from ns b) \<longleftrightarrow> (a, b) \<in> control_edges ns"
  by (auto simp: routed_from_def control_edges_def)

lemma predecessor_closed_trancl:
  assumes "predecessor_closed ns S" and "(a, b) \<in> (control_edges ns)\<^sup>+" and "set (routed_from ns b) \<subseteq> S"
  shows "a \<in> S"
  using assms(2,3)
proof (induction rule: trancl_induct)
  case (step b c)
  then have "b \<in> S" by (auto simp: routed_from_edges)
  with assms(1) step.IH show ?case by (auto simp: predecessor_closed_def)
qed (auto simp: routed_from_edges)

text \<open>Settled nodes are nodes of the graph, each counted once, and their predecessors are settled;
  only nodes reachable from the entry are activated; only activated and settled nodes have outputs;
  and the entry is never closed without running.\<close>

definition graph_inv :: "workflow_node list \<Rightarrow> string \<Rightarrow> graph_state \<Rightarrow> bool" where
  "graph_inv ns e st \<longleftrightarrow>
     distinct (settled st) \<and> set (settled st) \<subseteq> node_id ` set ns
     \<and> predecessor_closed ns (set (settled st))
     \<and> e \<in> set (activated st) \<and> set (activated st) \<subseteq> (control_edges ns)\<^sup>* `` {e}
     \<and> set (keys (produced st)) \<subseteq> set (settled st) \<inter> set (activated st)
     \<and> (e \<in> set (settled st) \<longrightarrow> e \<in> set (keys (produced st)))"

lemma close_pass_closed:
  "predecessor_closed ns (set done_ids) \<Longrightarrow> predecessor_closed ns (set (close_pass ns act rest done_ids))"
proof (induction rest arbitrary: done_ids)
  case (Cons n rest)
  have "predecessor_closed ns (set (node_id n # done_ids))" if "closable ns act done_ids n"
    using that Cons.prems by (auto simp: closable_def predecessor_closed_def list_all_iff)
  with Cons show ?case by simp
qed simp

lemma close_pass_activated:
  "i \<in> set act \<Longrightarrow> i \<in> set (close_pass ns act rest done_ids) \<Longrightarrow> i \<in> set done_ids"
proof (induction rest arbitrary: done_ids)
  case (Cons n rest)
  from Cons.IH [OF Cons.prems(1), of "node_id n # done_ids"] Cons.IH [OF Cons.prems(1), of done_ids]
    Cons.prems show ?case by (cases "closable ns act done_ids n") (auto simp: closable_def)
qed simp

lemma close_loop_facts:
  assumes "distinct done_ids" and "predecessor_closed ns (set done_ids)"
    and "set done_ids \<subseteq> node_id ` set ns"
  shows "distinct (close_loop ns act done_ids)
    \<and> predecessor_closed ns (set (close_loop ns act done_ids))
    \<and> set (close_loop ns act done_ids) \<subseteq> node_id ` set ns
    \<and> (\<forall>i \<in> set act. i \<in> set (close_loop ns act done_ids) \<longrightarrow> i \<in> set done_ids)"
  using assms
proof (induction ns act done_ids rule: close_loop.induct)
  case (1 ns act done_ids)
  let ?pass = "close_pass ns act ns done_ids"
  show ?case
  proof (cases "length ?pass = length done_ids")
    case True
    with "1.prems" show ?thesis by (simp add: close_loop.simps [of ns act done_ids])
  next
    case False
    have "set ?pass \<subseteq> node_id ` set ns"
      using close_pass_ids [of ns act ns done_ids] "1.prems"(3) by blast
    moreover have "close_loop ns act done_ids = close_loop ns act ?pass"
      using False by (simp add: close_loop.simps [of ns act done_ids])
    ultimately show ?thesis
      using "1.IH" [OF refl False] "1.prems" close_pass_distinct [of done_ids ns act ns]
        close_pass_closed [of ns done_ids act ns] close_pass_activated [of _ act ns ns done_ids]
      by auto
  qed
qed

lemma close_pass_closable:
  assumes "length (close_pass ns act rest done_ids) = length done_ids" and "n \<in> set rest"
  shows "\<not> closable ns act done_ids n"
  using assms
proof (induction rest arbitrary: done_ids)
  case (Cons m rest)
  have "\<not> closable ns act done_ids m"
  proof
    assume m: "closable ns act done_ids m"
    from suffix_length_le [OF close_pass_suffix, of "node_id m # done_ids" ns act rest] m Cons.prems(1)
    show False by simp
  qed
  with Cons show ?case by auto
qed simp

lemma close_loop_fixpoint:
  "n \<in> set ns \<Longrightarrow> \<not> closable ns act (close_loop ns act done_ids) n"
proof (induction ns act done_ids rule: close_loop.induct)
  case (1 ns act done_ids)
  then show ?case
    using close_pass_closable [of ns act ns done_ids n]
    by (subst close_loop.simps) (auto simp: Let_def)
qed

interpretation graph: run_invariant ns "graph_inv ns e" for ns e
proof
  fix st
  assume inv: "graph_inv ns e st"
  then show "graph_inv ns e (st\<lparr>settled := close_loop ns (activated st) (settled st)\<rparr>)"
    using close_loop_facts [of "settled st" ns "activated st"]
      set_mono_suffix [OF close_loop_suffix, of "settled st" ns "activated st"]
    by (auto simp: graph_inv_def)
next
  fix st n inputs r st'
  assume inv: "graph_inv ns e st" and n: "n \<in> set ns"
    and preds: "list_all (\<lambda>i. i \<in> set (settled st)) (routed_from ns (node_id n))"
    and act: "node_id n \<in> set (activated st)" and settle: "settle n inputs r st = Inr st'"
  have st': "settled st' = List.insert (node_id n) (settled st)"
    "produced st' = map_insert (node_id n) (result_outputs r) (produced st)"
    "activated st' = activated st
       @ (case map_of (node_on n) (result_route r) of None \<Rightarrow> [] | Some ts \<Rightarrow> targets_iter ts)"
    using settle by (auto simp: settle_def Let_def split: if_splits option.splits)
  have "(node_id n, t) \<in> control_edges ns"
    if "map_of (node_on n) (result_route r) = Some ts" "t \<in> set (targets_iter ts)" for t ts
    using that n by (force simp: control_edges_def all_targets_def vals_def dest: map_of_SomeD)
  then have "set (activated st') \<subseteq> (control_edges ns)\<^sup>* `` {e}"
    using inv act unfolding st'
    by (cases "map_of (node_on n) (result_route r)")
      (auto simp: graph_inv_def intro: rtrancl_into_rtrancl)
  moreover have "predecessor_closed ns (set (settled st'))"
    using inv preds by (auto simp: st' graph_inv_def predecessor_closed_def list_all_iff)
  ultimately show "graph_inv ns e st'"
    using inv n act by (auto simp: graph_inv_def st')
qed

lemma initial_inv: "graph_inv ns e (initial_state e locals)"
  by (simp add: graph_inv_def initial_state_def predecessor_closed_def keys_def)

lemma control_edges_finite: "finite (control_edges ns)"
proof -
  have "control_edges ns \<subseteq> node_id ` set ns \<times> set (concat (map all_targets ns))"
    by (auto simp: control_edges_def)
  then show ?thesis by (rule finite_subset) simp
qed

text \<open>In an acyclic graph whose data dependencies are control ancestors, a round that has closed all
  it can finds a ready node, unless everything is settled.\<close>

lemma ready_exists:
  assumes inv: "graph_inv ns e st" and acyclic: "acyclic (control_edges ns)"
    and deps: "\<forall>n \<in> set ns. set (node_dependencies n) \<subseteq> {a. (a, node_id n) \<in> (control_edges ns)\<^sup>+}"
    and open_id: "\<not> node_id ` set ns \<subseteq> set (close_loop ns (activated st) (settled st))"
  shows "ready_nodes ns (activated st) (close_loop ns (activated st) (settled st)) \<noteq> []"
proof -
  let ?done = "close_loop ns (activated st) (settled st)"
  have closed: "predecessor_closed ns (set ?done)"
    using close_loop_facts inv by (auto simp: graph_inv_def)
  have "wf (control_edges ns)"
    using control_edges_finite acyclic by (rule finite_acyclic_wf)
  moreover obtain i0 where "i0 \<in> node_id ` set ns - set ?done" using open_id by blast
  ultimately obtain i where i: "i \<in> node_id ` set ns - set ?done"
    and least: "\<And>a. (a, i) \<in> control_edges ns \<Longrightarrow> a \<notin> node_id ` set ns - set ?done"
    by (rule wfE_min) blast
  then obtain n where n: "n \<in> set ns" "i = node_id n" by blast
  have preds: "set (routed_from ns i) \<subseteq> set ?done"
    using least by (auto simp: routed_from_edges) (auto simp: control_edges_def)
  with close_loop_fixpoint [OF n(1), of "activated st" "settled st"] i n(2)
  have "i \<in> set (activated st)" by (auto simp: closable_def list_all_iff)
  moreover have "set (node_dependencies n) \<subseteq> set ?done"
    using deps n predecessor_closed_trancl [OF closed _ preds] by blast
  ultimately have "n \<in> set (ready_nodes ns (activated st) ?done)"
    using n i preds by (auto simp: ready_nodes_def list_all_iff)
  then show ?thesis by auto
qed

lemma apply_results_not_stuck: "fst (apply_results h xs failure st w) \<noteq> Inl NoProgress"
proof (induction xs arbitrary: failure st w)
  case (Cons x xs)
  obtain n inputs r where x: "x = ((n, inputs), r)" by (cases x) auto
  have "settle n inputs res st \<noteq> Inl NoProgress" for res
    by (auto simp: settle_def Let_def split: option.splits)
  with Cons show ?case by (auto simp: x split: prod.split sum.split)
qed (simp split: option.split)

lemma run_batches_not_stuck: "fst (run_batches h bs st w) \<noteq> Inl NoProgress"
proof (induction bs arbitrary: st w)
  case (Cons b bs)
  have "fst (run_batch h b st w) \<noteq> Inl NoProgress"
    by (auto simp: run_batch_def Let_def apply_results_not_stuck split: sum.split prod.split)
  with Cons show ?case by (auto split: prod.split sum.split)
qed simp

lemma check_writers_not_stuck: "check_writers ws ns \<noteq> Inl NoProgress"
  by (induction ws ns rule: check_writers.induct) (auto split: option.split)

lemma stuck_round:
  assumes "graph_round h ns max_parallel st w = (Inl NoProgress, w')"
  shows "ready_nodes ns (activated st) (close_loop ns (activated st) (settled st)) = []
    \<and> length (close_loop ns (activated st) (settled st)) \<noteq> length ns"
proof -
  let ?done = "close_loop ns (activated st) (settled st)"
  let ?ready = "ready_nodes ns (activated st) ?done"
  have "check_writers [] ?ready \<noteq> Inl NoProgress" by (rule check_writers_not_stuck)
  moreover have "run_batches h (chunks max_parallel ?ready) (st\<lparr>settled := ?done\<rparr>) w1
      \<noteq> (Inl NoProgress, w')" for w1
    using run_batches_not_stuck [of h "chunks max_parallel ?ready"] by (metis fst_conv)
  ultimately show ?thesis
    using assms by (auto simp: graph_round_def Let_def split: prod.splits sum.splits if_splits)
qed

lemma execute_graph_not_stuck:
  assumes "acyclic (control_edges ns)" and "distinct (map node_id ns)"
    and "\<forall>n \<in> set ns. set (node_dependencies n) \<subseteq> {a. (a, node_id n) \<in> (control_edges ns)\<^sup>+}"
  shows "fst (execute_graph h max_parallel ns e locals w) \<noteq> Inl NoProgress"
proof
  assume stuck: "fst (execute_graph h max_parallel ns e locals w) = Inl NoProgress"
  from graph.graph_loop_cases [OF initial_inv [of ns e locals], of h max_parallel w] stuck
  obtain st w1 w' where inv: "graph_inv ns e st"
    and round: "graph_round h ns max_parallel st w1 = (Inl NoProgress, w')"
    by (auto simp: execute_graph_def split: prod.splits)
  let ?done = "close_loop ns (activated st) (settled st)"
  from stuck_round [OF round] ready_exists [OF inv assms(1,3)]
  have all: "node_id ` set ns \<subseteq> set ?done" and neq: "length ?done \<noteq> length ns" by auto
  have "distinct ?done" "set ?done \<subseteq> node_id ` set ns"
    using close_loop_facts [of "settled st" ns "activated st"] inv by (auto simp: graph_inv_def)
  then have "length ?done = card (node_id ` set ns)"
    using all by (metis distinct_card subset_antisym)
  also have "\<dots> = length ns" using assms(2) by (metis distinct_card length_map set_map)
  finally show False using neq by contradiction
qed

section \<open>Properties\<close>

text \<open>A host whose nodes all take the route \<open>success\<close> without outputs, and never fail.\<close>

definition quiet_host :: "unit host" where
  "quiet_host =
     \<lparr>host_check = (\<lambda>w. (Inr (), w)),
      host_run = (\<lambda>tasks locals w.
        ((\<lambda>_. Inr \<lparr>result_route = ''success'', result_outputs = [], result_message = None\<rparr>), w)),
      host_record = (\<lambda>n r w. (Inr (), w)),
      host_secret = (\<lambda>w s. Inl ''no secret''), host_show_float = (\<lambda>_. [])\<rparr>"

text \<open>The scheduler never gets stuck on an acyclic graph with distinct ids whose data
  dependencies are proper control ancestors, whatever its nodes return, and it always ends: with
  outputs, or with the error of a node, of the host or of conflicting writers.\<close>

theorem execute_graph_progress:
  "acyclic (control_edges ns) \<Longrightarrow> distinct (map node_id ns)
   \<Longrightarrow> \<forall>n \<in> set ns. set (node_dependencies n) \<subseteq> {a. (a, node_id n) \<in> (control_edges ns)\<^sup>+}
   \<Longrightarrow> fst (execute_graph h max_parallel ns e locals w) \<noteq> Inl NoProgress"
  by (rule execute_graph_not_stuck)

theorem execute_graph_progress_witness:
  "fst (execute_graph quiet_host 8 [read_node, copy_node] ''read'' [] ()) \<noteq> Inl NoProgress"
proof (rule execute_graph_progress)
  have "distinct (map node_id [read_node, copy_node])" "targets_exist [read_node, copy_node]"
    "ensure_acyclic [read_node, copy_node] = Inr ()" by code_simp+
  then show "acyclic (control_edges [read_node, copy_node])"
    and "distinct (map node_id [read_node, copy_node])" by (auto simp: ensure_acyclic_iff)
  have "''read'' \<in> set (routed_from [read_node, copy_node] ''write'')" by code_simp
  then have "(''read'', ''write'') \<in> control_edges [read_node, copy_node]"
    by (simp add: routed_from_edges)
  moreover have "node_dependencies read_node = []" "node_dependencies copy_node = [''read'']"
    by code_simp+
  ultimately show "\<forall>n \<in> set [read_node, copy_node].
      set (node_dependencies n) \<subseteq> {a. (a, node_id n) \<in> (control_edges [read_node, copy_node])\<^sup>+}"
    by (auto simp: copy_node_def)
qed

text \<open>When the scheduler succeeds, the entry has run and every node that has run is a node of
  the graph reachable from the entry.\<close>

theorem execute_graph_outputs:
  assumes "execute_graph h max_parallel ns e locals w = (Inr outs, w')"
    and "distinct (map node_id ns)" and "e \<in> node_id ` set ns"
  shows "e \<in> set (keys outs) \<and> set (keys outs) \<subseteq> node_id ` set ns \<inter> (control_edges ns)\<^sup>* `` {e}"
proof -
  from assms(1) graph.graph_loop_cases [OF initial_inv [of ns e locals], of h max_parallel w]
  obtain st where inv: "graph_inv ns e st" and full: "length ns \<le> length (settled st)"
    and outs: "outs = produced st"
    by (auto simp: execute_graph_def split: prod.splits sum.splits)
  have "card (node_id ` set ns) \<le> card (set (settled st))"
    using inv full assms(2) by (metis distinct_card graph_inv_def length_map set_map)
  then have "set (settled st) = node_id ` set ns"
    using inv by (intro card_seteq) (auto simp: graph_inv_def)
  with inv assms(3) outs show ?thesis by (auto simp: graph_inv_def)
qed

theorem execute_graph_outputs_witness:
  "''read'' \<in> set (keys [(''read'', [] :: json_map)])
   \<and> set (keys [(''read'', [] :: json_map)])
       \<subseteq> node_id ` set [read_node] \<inter> (control_edges [read_node])\<^sup>* `` {''read''}"
proof (rule execute_graph_outputs)
  show "execute_graph quiet_host 8 [read_node] ''read'' [] () = (Inr [(''read'', [])], ())"
    by code_simp
qed (simp_all add: read_node_def)

end
