(* ===== verification/State_Run.thy ===== *)
theory State_Run
  imports Prelude
begin

text \<open>
  Fallible code that acts on a world: every call gives a result or an error, and the world after it.  A run stays in
  a relation between worlds if each of its calls does; the laws of that are proved once, for every relation that is
  reflexive and transitive, and used for the interpreter and for the control of services.
\<close>

section \<open>State-passing runs\<close>

type_synonym ('e, 'w, 'a) fallible = "'w \<Rightarrow> ('e, 'a) result \<times> 'w"

definition sreturn :: "'a \<Rightarrow> ('e, 'w, 'a) fallible" where
  "sreturn x w = (Inr x, w)"

definition sfail :: "'e \<Rightarrow> ('e, 'w, 'a) fallible" where
  "sfail e w = (Inl e, w)"

definition sbind :: "('e, 'w, 'a) fallible \<Rightarrow> ('a \<Rightarrow> ('e, 'w, 'b) fallible) \<Rightarrow> ('e, 'w, 'b) fallible" where
  "sbind m f w = (case m w of (Inl e, w') \<Rightarrow> (Inl e, w') | (Inr x, w') \<Rightarrow> f x w')"

definition slift :: "('e, 'a) result \<Rightarrow> ('e, 'w, 'a) fallible" where
  "slift r w = (r, w)"

text \<open>\<open>map_err\<close>.\<close>

definition smap_err :: "('e \<Rightarrow> 'f) \<Rightarrow> ('e, 'w, 'a) fallible \<Rightarrow> ('f, 'w, 'a) fallible" where
  "smap_err f m w = (case m w of (Inl e, w') \<Rightarrow> (Inl (f e), w') | (Inr x, w') \<Rightarrow> (Inr x, w'))"

text \<open>What to do about an error.\<close>

definition shandle :: "('e, 'w, 'a) fallible \<Rightarrow> ('e \<Rightarrow> ('f, 'w, 'a) fallible) \<Rightarrow> ('f, 'w, 'a) fallible" where
  "shandle m h w = (case m w of (Inl e, w') \<Rightarrow> h e w' | (Inr x, w') \<Rightarrow> (Inr x, w'))"

lemma sbind_Inr:
  "sbind m f w = (Inr y, w') \<longleftrightarrow> (\<exists>x w1. m w = (Inr x, w1) \<and> f x w1 = (Inr y, w'))"
  by (auto simp: sbind_def split: prod.splits sum.splits)

lemma smap_err_Inr: "smap_err f m w = (Inr x, w') \<longleftrightarrow> m w = (Inr x, w')"
  by (auto simp: smap_err_def split: prod.splits sum.splits)

lemma slift_eq [simp]: "slift r w = (x, w') \<longleftrightarrow> r = x \<and> w' = w"
  by (auto simp: slift_def)

lemma sreturn_eq [simp]: "sreturn x w = (r, w') \<longleftrightarrow> r = Inr x \<and> w' = w"
  by (auto simp: sreturn_def)

lemma sfail_eq [simp]: "sfail e w = (r, w') \<longleftrightarrow> r = Inl e \<and> w' = w"
  by (auto simp: sfail_def)

section \<open>Runs that stay in a relation\<close>

definition stays_in :: "('w \<Rightarrow> 'w \<Rightarrow> bool) \<Rightarrow> ('w \<Rightarrow> 'a \<times> 'w) \<Rightarrow> bool" where
  "stays_in R m \<longleftrightarrow> (\<forall>w. R w (snd (m w)))"

named_theorems stays

locale world_relation =
  fixes R :: "'w \<Rightarrow> 'w \<Rightarrow> bool"
  assumes relation_refl: "R w w"
    and relation_trans: "R u v \<Longrightarrow> R v w \<Longrightarrow> R u w"
begin

lemma stays_step: "stays_in R m \<Longrightarrow> m w = (r, w') \<Longrightarrow> R w w'"
  by (metis stays_in_def snd_conv)

lemma stays_bind [stays]: "stays_in R m \<Longrightarrow> (\<And>x. stays_in R (f x)) \<Longrightarrow> stays_in R (sbind m f)"
  by (auto simp: stays_in_def sbind_def split: prod.split sum.split) (metis relation_trans snd_conv)+

lemma stays_pure [stays]:
  "stays_in R (sreturn x)" "stays_in R (sfail e)" "stays_in R (slift r)" "stays_in R (\<lambda>w. (g w, w))"
  by (simp_all add: stays_in_def sreturn_def sfail_def slift_def relation_refl)

lemma stays_smap_err [stays]: "stays_in R m \<Longrightarrow> stays_in R (smap_err f m)"
  by (auto simp: stays_in_def smap_err_def split: prod.split sum.split) (metis snd_conv)+

lemma stays_shandle [stays]: "stays_in R m \<Longrightarrow> (\<And>e. stays_in R (h e)) \<Longrightarrow> stays_in R (shandle m h)"
  by (auto simp: stays_in_def shandle_def split: prod.split sum.split) (metis relation_trans snd_conv)+

lemma stays_option [stays]:
  "stays_in R m \<Longrightarrow> (\<And>x. stays_in R (f x)) \<Longrightarrow> stays_in R (case z of None \<Rightarrow> m | Some x \<Rightarrow> f x)"
  by (cases z) simp_all

lemma stays_if [stays]:
  "stays_in R m \<Longrightarrow> stays_in R m' \<Longrightarrow> stays_in R (if b then m else m')"
  "stays_in R m \<Longrightarrow> stays_in R m' \<Longrightarrow> stays_in R (\<lambda>w. if b then m w else m' w)"
  by (cases b; simp add: stays_in_def)+

lemma stays_eq: "(\<And>w. f w = m w) \<Longrightarrow> stays_in R m \<Longrightarrow> stays_in R f"
  by (simp add: stays_in_def)

end

end
