(* ===== verification/File_Nodes.thy ===== *)
theory File_Nodes
  imports Graph_Run State_Run
begin

text \<open>
  The file nodes (\<open>execute_node\<close> of \<open>src/runtime.rs\<close>, types \<open>kakune.fs.*\<close>) on a file system
  given by its operations.
  Paths are lists of components, as in \<open>workspace_path\<close>; contents are byte strings.
\<close>

type_synonym ('w, 'a) run = "(string, 'w, 'a) fallible"

section \<open>The file system\<close>

type_synonym path = "string list"

text \<open>What the nodes use of \<open>std::fs\<close> and of the store; \<open>workspace_dir\<close> makes the directory
  when it is missing, and \<open>display\<close> prints a path.\<close>

record 'w file_system =
  workspace_dir :: "('w, path) run"
  path_exists :: "'w \<Rightarrow> path \<Rightarrow> bool"
  canonicalize :: "'w \<Rightarrow> path \<Rightarrow> (string, path) result"
  is_file :: "'w \<Rightarrow> path \<Rightarrow> bool"
  create_dir_all :: "path \<Rightarrow> ('w, unit) run"
  write_file :: "path \<Rightarrow> string \<Rightarrow> ('w, unit) run"
  read_to_string :: "path \<Rightarrow> ('w, string) run"
  copy_file :: "path \<Rightarrow> path \<Rightarrow> ('w, unit) run"
  rename_file :: "path \<Rightarrow> path \<Rightarrow> ('w, unit) run"
  put_artifact :: "string \<Rightarrow> string \<Rightarrow> string option \<Rightarrow> ('w, json) run"
  display :: "path \<Rightarrow> string"

definition INLINE_RESULT_BYTES :: nat where "INLINE_RESULT_BYTES = 64 * 1024"

text \<open>The text was read as UTF-8, so that the check of \<open>inline_or_artifact\<close> passes.\<close>

definition inline_or_artifact ::
  "'w file_system \<Rightarrow> string \<Rightarrow> string \<Rightarrow> string option \<Rightarrow> ('w, json) run" where
  "inline_or_artifact fs bytes media_type name =
     (if length bytes \<le> INLINE_RESULT_BYTES then sreturn (JString bytes)
      else put_artifact fs bytes media_type name)"

definition resolve_path :: "'w file_system \<Rightarrow> string \<Rightarrow> ('w, path) run" where
  "resolve_path fs input =
     sbind (workspace_dir fs) (\<lambda>top w.
       (workspace_path (path_exists fs w) (canonicalize fs w) top input, w))"

text \<open>\<open>path.parent()\<close> is missing for the root only.\<close>

definition create_parent :: "'w file_system \<Rightarrow> string \<Rightarrow> path \<Rightarrow> ('w, unit) run" where
  "create_parent fs what p =
     (if p = [] then sreturn ()
      else smap_err (\<lambda>e. what @ e) (create_dir_all fs (butlast p)))"

definition require_file :: "'w file_system \<Rightarrow> string \<Rightarrow> path \<Rightarrow> ('w, unit) run" where
  "require_file fs source p w =
     ((if is_file fs w p then Inr ()
       else Inl (''source '' @ source @ '' must be an existing regular file'')), w)"

section \<open>The nodes\<close>

definition write_text :: "'w file_system \<Rightarrow> json_map \<Rightarrow> ('w, node_result) run" where
  "write_text fs inputs =
     sbind (slift (input_string inputs ''path'')) (\<lambda>relative_path.
       sbind (slift (input_string inputs ''content'')) (\<lambda>content.
         sbind (resolve_path fs relative_path) (\<lambda>p.
           sbind (create_parent fs ''cannot create parent directory: '' p) (\<lambda>_.
             sbind (smap_err (\<lambda>e. ''cannot write '' @ display fs p @ '': '' @ e)
                 (write_file fs p content)) (\<lambda>_.
               sreturn \<lparr>result_route = ''success'',
                 result_outputs = [(''path'', JString relative_path)],
                 result_message = Some (''wrote '' @ relative_path)\<rparr>)))))"

definition read_text :: "'w file_system \<Rightarrow> json_map \<Rightarrow> ('w, node_result) run" where
  "read_text fs inputs =
     sbind (slift (input_string inputs ''path'')) (\<lambda>relative_path.
       sbind (resolve_path fs relative_path) (\<lambda>p.
         sbind (smap_err (\<lambda>e. ''cannot read '' @ display fs p @ '': '' @ e)
             (read_to_string fs p)) (\<lambda>content.
           sbind (inline_or_artifact fs content ''text/plain; charset=utf-8'' (Some relative_path))
             (\<lambda>text.
               sreturn \<lparr>result_route = ''success'', result_outputs = [(''text'', text)],
                 result_message = Some (''read '' @ relative_path)\<rparr>))))"

text \<open>\<open>kakune.fs.copy@1\<close> and \<open>kakune.fs.move@1\<close> differ in the operation and in the words of
  their messages only.\<close>

definition transfer_file ::
  "'w file_system \<Rightarrow> string \<Rightarrow> string \<Rightarrow> (path \<Rightarrow> path \<Rightarrow> ('w, unit) run) \<Rightarrow> json_map
   \<Rightarrow> ('w, node_result) run" where
  "transfer_file fs verb past transfer inputs =
     sbind (slift (input_string inputs ''source'')) (\<lambda>source.
       sbind (slift (input_string inputs ''destination'')) (\<lambda>destination.
         sbind (resolve_path fs source) (\<lambda>source_path.
           sbind (resolve_path fs destination) (\<lambda>destination_path.
             sbind (require_file fs source source_path) (\<lambda>_.
               sbind (create_parent fs ''cannot create destination parent: '' destination_path) (\<lambda>_.
                 sbind (smap_err (\<lambda>e. ''cannot '' @ verb @ '' '' @ display fs source_path @ '' to ''
                         @ display fs destination_path @ '': '' @ e)
                     (transfer source_path destination_path)) (\<lambda>_.
                   sreturn \<lparr>result_route = ''success'',
                     result_outputs = [(''destination'', JString destination),
                       (''source'', JString source)],
                     result_message = Some (past @ '' '' @ source @ '' to '' @ destination)\<rparr>)))))))"

definition copy_file_node :: "'w file_system \<Rightarrow> json_map \<Rightarrow> ('w, node_result) run" where
  "copy_file_node fs = transfer_file fs ''copy'' ''copied'' (copy_file fs)"

definition move_file_node :: "'w file_system \<Rightarrow> json_map \<Rightarrow> ('w, node_result) run" where
  "move_file_node fs = transfer_file fs ''move'' ''moved'' (rename_file fs)"

definition file_node :: "'w file_system \<Rightarrow> string \<Rightarrow> json_map \<Rightarrow> ('w, node_result) run" where
  "file_node fs t inputs =
     (if t = ''kakune.fs.write-text@1'' then write_text fs inputs
      else if t = ''kakune.fs.read-text@1'' then read_text fs inputs
      else if t = ''kakune.fs.copy@1'' then copy_file_node fs inputs
      else move_file_node fs inputs)"

section \<open>Confinement\<close>

text \<open>A file system that keeps a log of the paths it is asked to touch.\<close>

definition logged :: "path list \<Rightarrow> ('w, 'a) run \<Rightarrow> ('w \<times> path list, 'a) run" where
  "logged ps m = (\<lambda>(w, log). (case m w of (r, w') \<Rightarrow> (r, (w', ps @ log))))"

definition audited :: "'w file_system \<Rightarrow> ('w \<times> path list) file_system" where
  "audited fs =
     \<lparr>workspace_dir = logged [] (workspace_dir fs),
      path_exists = (\<lambda>(w, log). path_exists fs w), canonicalize = (\<lambda>(w, log). canonicalize fs w),
      is_file = (\<lambda>(w, log). is_file fs w),
      create_dir_all = (\<lambda>p. logged [p] (create_dir_all fs p)),
      write_file = (\<lambda>p s. logged [p] (write_file fs p s)),
      read_to_string = (\<lambda>p. logged [p] (read_to_string fs p)),
      copy_file = (\<lambda>p q. logged [p, q] (copy_file fs p q)),
      rename_file = (\<lambda>p q. logged [p, q] (rename_file fs p q)),
      put_artifact = (\<lambda>s t n. logged [] (put_artifact fs s t n)),
      display = display fs\<rparr>"

text \<open>A path the check of the workspace let through at some moment, or the directory it is in.\<close>

definition approved :: "'w file_system \<Rightarrow> path \<Rightarrow> bool" where
  "approved fs p \<longleftrightarrow>
     (\<exists>w top input q. workspace_path (path_exists fs w) (canonicalize fs w) top input = Inr q
        \<and> (p = q \<or> p = butlast q))"

definition confined :: "'w file_system \<Rightarrow> ('w \<times> path list, 'a) run \<Rightarrow> bool" where
  "confined fs m \<longleftrightarrow>
     (\<forall>w log r w' log'. m (w, log) = (r, (w', log')) \<longrightarrow>
        (\<forall>p \<in> set log'. p \<in> set log \<or> approved fs p))"

named_theorems confine

lemma confined_bind [confine]:
  assumes "confined fs m" and "\<And>x. confined fs (f x)"
  shows "confined fs (sbind m f)"
  unfolding confined_def
proof (intro allI impI)
  fix w log r w' log'
  assume run: "sbind m f (w, log) = (r, (w', log'))"
  obtain r1 w1 log1 where m: "m (w, log) = (r1, (w1, log1))" by (cases "m (w, log)") auto
  with assms(1) have *: "\<forall>p \<in> set log1. p \<in> set log \<or> approved fs p" by (auto simp: confined_def)
  show "\<forall>p \<in> set log'. p \<in> set log \<or> approved fs p"
  proof (cases r1)
    case (Inl e)
    with run m * show ?thesis by (auto simp: sbind_def)
  next
    case (Inr x)
    with run m have "f x (w1, log1) = (r, (w', log'))" by (simp add: sbind_def)
    with assms(2) [of x] * show ?thesis unfolding confined_def by blast
  qed
qed

lemma confined_simple [confine]:
  "confined fs (sreturn x)" "confined fs (slift y)"
  by (auto simp: confined_def)

lemma confined_map_err [confine]: "confined fs m \<Longrightarrow> confined fs (smap_err g m)"
  by (fastforce simp: confined_def smap_err_def split: prod.splits sum.splits)

lemma confined_logged: "(\<And>p. p \<in> set ps \<Longrightarrow> approved fs p) \<Longrightarrow> confined fs (logged ps m)"
  by (auto simp: confined_def logged_def split: prod.splits)

lemma confined_file [confine]: "confined fs (require_file (audited fs) source p)"
  by (auto simp: confined_def require_file_def)

text \<open>After a path is resolved, what follows may rely on its approval.\<close>

lemma confined_resolve [confine]:
  assumes "\<And>p. approved fs p \<Longrightarrow> approved fs (butlast p) \<Longrightarrow> confined fs (f p)"
  shows "confined fs (sbind (resolve_path (audited fs) input) f)"
  unfolding confined_def
proof (intro allI impI)
  fix w log r w' log'
  assume run: "sbind (resolve_path (audited fs) input) f (w, log) = (r, (w', log'))"
  obtain r1 w1 where dir: "workspace_dir fs w = (r1, w1)" by fastforce
  show "\<forall>p \<in> set log'. p \<in> set log \<or> approved fs p"
  proof (cases r1)
    case (Inl e)
    with run dir show ?thesis
      by (auto simp: sbind_def resolve_path_def audited_def logged_def)
  next
    case (Inr top)
    let ?q = "workspace_path (path_exists fs w1) (canonicalize fs w1) top input"
    from run dir Inr have q: "(case ?q of Inl e \<Rightarrow> (Inl e, (w1, log)) | Inr p \<Rightarrow> f p (w1, log))
        = (r, (w', log'))"
      by (simp add: sbind_def resolve_path_def audited_def logged_def)
    show ?thesis
    proof (cases ?q)
      case (Inr p)
      then have "approved fs p" "approved fs (butlast p)" by (auto simp: approved_def)
      with assms q Inr show ?thesis by (auto simp: confined_def)
    qed (use q in auto)
  qed
qed

lemma confined_parent [confine]:
  "approved fs (butlast p) \<Longrightarrow> confined fs (create_parent (audited fs) what p)"
  by (auto simp: create_parent_def audited_def intro!: confine confined_logged)

lemma confined_operations [confine]:
  "approved fs p \<Longrightarrow> confined fs (write_file (audited fs) p s)"
  "approved fs p \<Longrightarrow> confined fs (read_to_string (audited fs) p)"
  "approved fs p \<Longrightarrow> approved fs q \<Longrightarrow> confined fs (copy_file (audited fs) p q)"
  "approved fs p \<Longrightarrow> approved fs q \<Longrightarrow> confined fs (rename_file (audited fs) p q)"
  "confined fs (inline_or_artifact (audited fs) bytes media name)"
  by (auto simp: audited_def inline_or_artifact_def intro!: confine confined_logged)

lemma confined_transfer:
  assumes "\<And>p q. approved fs p \<Longrightarrow> approved fs q \<Longrightarrow> confined fs (transfer p q)"
  shows "confined fs (transfer_file (audited fs) verb past transfer inputs)"
  unfolding transfer_file_def by (intro confine assms)

lemma confined_file_node: "confined fs (file_node (audited fs) t inputs)"
  unfolding file_node_def write_text_def read_text_def copy_file_node_def move_file_node_def
  by (auto intro!: confine confined_transfer)

section \<open>Properties\<close>

text \<open>A file system without links, as a list of files.\<close>

definition plain_fs :: "(path \<times> string) list file_system" where
  "plain_fs =
     \<lparr>workspace_dir = sreturn [''ws''], path_exists = (\<lambda>w p. p \<in> fst ` set w),
      canonicalize = (\<lambda>w p. Inr p), is_file = (\<lambda>w p. p \<in> fst ` set w),
      create_dir_all = (\<lambda>p. sreturn ()), write_file = (\<lambda>p s w. (Inr (), (p, s) # w)),
      read_to_string = (\<lambda>p w. (case map_of w p of None \<Rightarrow> Inl ''missing'' | Some s \<Rightarrow> Inr s, w)),
      copy_file = (\<lambda>p q w. (case map_of w p of None \<Rightarrow> (Inl ''missing'', w)
         | Some s \<Rightarrow> (Inr (), (q, s) # w))),
      rename_file = (\<lambda>p q w. (case map_of w p of None \<Rightarrow> (Inl ''missing'', w)
         | Some s \<Rightarrow> (Inr (), (q, s) # filter (\<lambda>(x, _). x \<noteq> p) w))),
      put_artifact = (\<lambda>s t n. sreturn (JObject [(''sizeBytes'', JNumber (PosInt (length s)))])),
      display = (\<lambda>p. concat (map (\<lambda>c. ''/'' @ c) p))\<rparr>"



text \<open>Reading a file back gives what was written, as text when it fits inline: on a file system
  that reads what was last written, and where writing does not change how paths resolve.\<close>

theorem write_then_read:
  assumes "write_text fs [(''content'', JString content), (''path'', JString name)] w = (Inr r, w')"
    and "\<And>p s v v'. write_file fs p s v = (Inr (), v') \<Longrightarrow> read_to_string fs p v' = (Inr s, v')"
    and "\<And>p v v'. resolve_path fs name w = (Inr p, v) \<Longrightarrow> resolve_path fs name w' = (Inr p, w')"
    and "length content \<le> INLINE_RESULT_BYTES"
  shows "\<exists>m. read_text fs [(''path'', JString name)] w'
    = (Inr \<lparr>result_route = ''success'', result_outputs = [(''text'', JString content)],
         result_message = m\<rparr>, w')"
proof -
  from assms(1) obtain p v v' where p: "resolve_path fs name w = (Inr p, v)"
    and "write_file fs p content v' = (Inr (), w')"
    by (auto simp: write_text_def sbind_Inr smap_err_Inr input_string_def)
  with assms(2) have "read_to_string fs p w' = (Inr content, w')" by blast
  with assms(3) [OF p] assms(4) show ?thesis
    by (simp add: read_text_def sbind_def smap_err_def input_string_def inline_or_artifact_def
        sreturn_def slift_def ok_or_def)
qed

theorem write_then_read_witness:
  "\<exists>m. read_text plain_fs [(''path'', JString ''a.txt'')] [([''ws'', ''a.txt''], ''hi'')]
    = (Inr \<lparr>result_route = ''success'', result_outputs = [(''text'', JString ''hi'')],
         result_message = m\<rparr>, [([''ws'', ''a.txt''], ''hi'')])"
proof (rule write_then_read [where w = "[]"])
  show "write_text plain_fs [(''content'', JString ''hi''), (''path'', JString ''a.txt'')] []
    = (Inr \<lparr>result_route = ''success'', result_outputs = [(''path'', JString ''a.txt'')],
         result_message = Some ''wrote a.txt''\<rparr>, [([''ws'', ''a.txt''], ''hi'')])" by code_simp
  show "read_to_string plain_fs p v' = (Inr s, v')" if "write_file plain_fs p s v = (Inr (), v')" for p s v v'
    using that by (auto simp: plain_fs_def)
  show "resolve_path plain_fs ''a.txt'' [([''ws'', ''a.txt''], ''hi'')]
      = (Inr p, [([''ws'', ''a.txt''], ''hi'')])"
    if "resolve_path plain_fs ''a.txt'' [] = (Inr p, v)" for p v v'
  proof -
    have "resolve_path plain_fs ''a.txt'' [] = (Inr [''ws'', ''a.txt''], [])"
      and "resolve_path plain_fs ''a.txt'' [([''ws'', ''a.txt''], ''hi'')]
        = (Inr [''ws'', ''a.txt''], [([''ws'', ''a.txt''], ''hi'')])" by code_simp+
    with that show ?thesis by simp
  qed
qed (simp add: INLINE_RESULT_BYTES_def)

end
