(* ===== verification/Runtime.thy ===== *)
theory Runtime
  imports File_Nodes
begin

text \<open>
  Running nodes (\<open>src/runtime.rs\<close>): the control of a run, retries, the structured nodes, the
  interpreter that ties them to the scheduler of nested scopes, and the outputs of a whole run.
  What the nodes do outside Core (HTTP, processes, AI providers, MCP, plugins) is \<open>leaf_run\<close>,
  and files are those of \<open>node_files\<close>; checkpoints, trace spans, delays and waiting are the store's
  and the clock's.  The atomic flags of the run controls live in the world: \<open>fresh_flag\<close>
  allocates one and \<open>set_flag\<close> sets it.
  The members of a batch are run in order here, one of the orders their threads may take.
\<close>

section \<open>Run control\<close>

text \<open>Atomic flags are numbered; \<open>flags\<close> tells which are set.  Instants are milliseconds.\<close>

record run_control =
  deadline :: "nat option"
  abort :: nat
  ancestors :: "nat list"
  shutdown_requested :: "nat option"

definition control_fork :: "nat \<Rightarrow> run_control \<Rightarrow> run_control" where
  "control_fork fresh c =
     \<lparr>deadline = deadline c, abort = fresh, ancestors = ancestors c @ [abort c],
      shutdown_requested = shutdown_requested c\<rparr>"

definition control_check ::
  "(nat \<Rightarrow> bool) \<Rightarrow> (string, bool) result \<Rightarrow> nat \<Rightarrow> run_control \<Rightarrow> (string, unit) result" where
  "control_check flags cancel_requested now c =
     (if (case shutdown_requested c of None \<Rightarrow> False | Some f \<Rightarrow> flags f)
      then Inl ''Core shutdown requested''
      else if flags (abort c) \<or> list_ex flags (ancestors c) then Inl ''sibling node failed''
      else rbind cancel_requested (\<lambda>cancelled.
        if cancelled then Inl ''execution cancellation requested''
        else if (case deadline c of None \<Rightarrow> False | Some d \<Rightarrow> d \<le> now)
        then Inl ''execution timed out''
        else Inr ()))"

definition reserve_shutdown_grace :: "nat \<Rightarrow> nat \<Rightarrow> nat option \<Rightarrow> nat" where
  "reserve_shutdown_grace total_deadline now shutdown_grace =
     (let remaining = total_deadline - now;
          grace = min (case shutdown_grace of None \<Rightarrow> 0 | Some g \<Rightarrow> g) remaining
      in if grace < remaining then now + (remaining - grace) else total_deadline)"

section \<open>Names and secrets\<close>

definition scoped_node_id :: "string \<Rightarrow> string \<Rightarrow> string" where
  "scoped_node_id scope i = (if scope = [] then i else scope @ ''/'' @ i)"

fun expression_uses_secret :: "json \<Rightarrow> bool" where
  "expression_uses_secret (JArray vs) = list_ex expression_uses_secret vs"
| "expression_uses_secret (JObject m) =
     (has_key m ''secret'' \<or> list_ex (\<lambda>(k, v). expression_uses_secret v) m)"
| "expression_uses_secret _ = False"

definition binding_uses_secret :: "workflow_binding \<Rightarrow> bool" where
  "binding_uses_secret b =
     (case b of Secret _ \<Rightarrow> True | Expr e \<Rightarrow> expression_uses_secret e | _ \<Rightarrow> False)"

text \<open>\<open>plugin_secret\<close>: whether a node type is a registered plugin that uses secrets.\<close>

function graph_uses_secret :: "(string \<Rightarrow> bool) \<Rightarrow> workflow_node list \<Rightarrow> bool" where
  "graph_uses_secret plugin_secret ns =
     list_ex
       (\<lambda>n. list_ex binding_uses_secret (vals (node_inputs n))
          \<or> plugin_secret (node_type n)
          \<or> list_ex (\<lambda>g. graph_uses_secret plugin_secret (sub_nodes g)) (subgraphs n))
       ns"
  by pat_completeness auto
termination
  by (relation "measure (\<lambda>(_, ns). size_list size ns)") (auto dest: scope_size)

declare graph_uses_secret.simps [simp del]

text \<open>\<open>node_result_value\<close>: what is recorded of a result.\<close>

definition node_result_value :: "node_result \<Rightarrow> bool \<Rightarrow> json" where
  "node_result_value r sensitive =
     JObject
       [(''message'',
          (if sensitive then JString ''sensitive result redacted''
           else (case result_message r of None \<Rightarrow> JNull | Some m \<Rightarrow> JString m))),
        (''outputs'', (if sensitive then JString ''[redacted]'' else JObject (result_outputs r))),
        (''route'', JString (result_route r))]"

section \<open>Retries\<close>

definition u64_max :: nat where "u64_max = 2 ^ 64 - 1"

text \<open>The pause before the next attempt; \<open>None\<close> when the jitter bound is the largest \<open>u64\<close>,
  so that \<open>maximum + 1\<close> overflows and the worker panics.\<close>

definition capped_backoff :: "retry_policy \<Rightarrow> nat \<Rightarrow> nat" where
  "capped_backoff p attempt =
     (let exponent = min (attempt - 1) 20;
          base = min (initial_backoff_ms p * 2 ^ exponent) u64_max
      in (case max_backoff_ms p of None \<Rightarrow> base | Some m \<Rightarrow> min base m))"

definition backoff_ms :: "retry_policy \<Rightarrow> nat \<Rightarrow> nat option" where
  "backoff_ms p attempt =
     (case jitter_ms p of
        None \<Rightarrow> Some (min (capped_backoff p attempt) u64_max)
      | Some m \<Rightarrow>
          (if m = u64_max then None
           else Some (min (capped_backoff p attempt + attempt mod (m + 1)) u64_max)))"

record 'w node_host =
  node_files :: "'w file_system"
  leaf_run :: "run_control \<Rightarrow> string \<Rightarrow> workflow_node \<Rightarrow> json_map \<Rightarrow> ('w, node_result) run"
  fresh_flag :: "'w \<Rightarrow> nat \<times> 'w"
  set_flag :: "nat \<Rightarrow> 'w \<Rightarrow> 'w"
  durable_delay :: "string \<Rightarrow> nat \<Rightarrow> ('w, nat) run"
  checkpoint_result :: "string \<Rightarrow> ('w, node_result option) run"
  begin_checkpoint :: "string \<Rightarrow> string \<Rightarrow> ('w, unit) run"
  complete_checkpoint :: "string \<Rightarrow> node_result option \<Rightarrow> ('w, unit) run"
  start_span :: "string \<Rightarrow> nat \<Rightarrow> ('w, string) run"
  finish_span :: "string \<Rightarrow> string \<Rightarrow> string option \<Rightarrow> ('w, unit) run"
  wait_with_control :: "run_control \<Rightarrow> nat \<Rightarrow> ('w, unit) run"
  check_run :: "run_control \<Rightarrow> ('w, unit) run"
  record_outcome ::
    "string \<Rightarrow> string \<Rightarrow> string option \<Rightarrow> json option \<Rightarrow> string option \<Rightarrow> ('w, unit) run"
  store_result :: "json \<Rightarrow> ('w, unit) run"
  secret_of :: "'w \<Rightarrow> string \<Rightarrow> (string, string) result"
  show_float :: "f64 \<Rightarrow> string"
  encoded_len :: "node_result \<Rightarrow> nat"
  encoded_value_len :: "json \<Rightarrow> nat"

definition permanent_error :: "string \<Rightarrow> bool" where
  "permanent_error e =
     (e \<in> set [''execution cancellation requested'', ''execution timed out'', ''sibling node failed''])"

text \<open>One attempt, and the loop over the attempts that are left; \<open>attempt_run\<close> is \<open>execute_node\<close>
  and \<open>save\<close> what follows a success.\<close>

fun retry_loop ::
  "'w node_host \<Rightarrow> run_control \<Rightarrow> retry_policy option \<Rightarrow> string \<Rightarrow> (nat \<Rightarrow> ('w, node_result) run)
   \<Rightarrow> (string \<Rightarrow> node_result \<Rightarrow> ('w, node_result) run) \<Rightarrow> nat \<Rightarrow> nat \<Rightarrow> ('w, node_result) run" where
  "retry_loop nh c retry scoped attempt_run save attempt 0 w =
     (Inl ''a retry loop always returns'', w)"
| "retry_loop nh c retry scoped attempt_run save attempt (Suc left) w =
     sbind (start_span nh scoped attempt) (\<lambda>span w1.
       (case attempt_run attempt w1 of
          (Inr r, w2) \<Rightarrow> save span r w2
        | (Inl e, w2) \<Rightarrow>
            (if left \<noteq> 0 \<and> \<not> permanent_error e
             then sbind (finish_span nh span ''failed'' (Some e)) (\<lambda>_.
               (case retry of
                  None \<Rightarrow> sfail ''retry policy exists when attempts exceed one''
                | Some p \<Rightarrow>
                    (case backoff_ms p attempt of
                       None \<Rightarrow> sfail ''node worker panicked''
                     | Some ms \<Rightarrow>
                         sbind (wait_with_control nh c ms) (\<lambda>_.
                           retry_loop nh c retry scoped attempt_run save (Suc attempt) left)))) w2
             else sbind
               (finish_span nh span
                  (if e = ''execution cancellation requested'' \<or> e = ''execution timed out''
                   then ''cancelled'' else ''failed'') (Some e))
               (\<lambda>_. sfail e) w2))) w"

section \<open>Structured nodes\<close>

text \<open>The context of a scope: its control, its name, whether results are redacted, and the limits.\<close>

record run_context =
  ctx_control :: run_control
  ctx_scope :: string
  ctx_sensitive :: bool
  ctx_max_parallel :: nat
  ctx_max_result :: "nat option"

definition switch_selector :: "(f64 \<Rightarrow> string) \<Rightarrow> json \<Rightarrow> (string, string) result" where
  "switch_selector shw v =
     (case value_to_text shw v of
        Inr s \<Rightarrow> Inr s
      | Inl _ \<Rightarrow> Inl ''switch input value must be a string, number, boolean, or null'')"

text \<open>\<open>sub\<close> is \<open>execute_subgraph\<close>: a graph, its scope and its locals.\<close>

type_synonym 'w sub_run = "workflow_subgraph \<Rightarrow> string \<Rightarrow> json_map \<Rightarrow> ('w, json_map) run"

definition execute_switch ::
  "(f64 \<Rightarrow> string) \<Rightarrow> 'w sub_run \<Rightarrow> string \<Rightarrow> workflow_node \<Rightarrow> json_map \<Rightarrow> json_map
   \<Rightarrow> ('w, node_result) run" where
  "execute_switch shw sub scope n inputs locals =
     sbind (slift (ok_or (map_of inputs ''value'') ''input value is required'')) (\<lambda>value.
       sbind (slift (switch_selector shw value)) (\<lambda>selector.
         sbind (slift (ok_or
             (case Option.bind
                 (Option.bind (Option.bind (map_of (node_with n) ''cases'') as_object)
                    (\<lambda>cases. map_of cases selector)) as_str of
                Some b \<Rightarrow> Some b
              | None \<Rightarrow> Option.bind (map_of (node_with n) ''default'') as_str)
             (''switch node '' @ node_id n @ '' has no branch for '' @ selector))) (\<lambda>branch.
           sbind (slift (ok_or (map_of (node_branches n) branch)
               (''switch node '' @ node_id n @ '' references unavailable branch '' @ branch))) (\<lambda>g.
             sbind (sub g (scope @ ''/'' @ node_id n @ ''/'' @ branch)
                 (map_insert ''$value'' value locals)) (\<lambda>outs.
               sreturn \<lparr>result_route = branch,
                 result_outputs = map_insert ''branch'' (JString branch) outs,
                 result_message = None\<rparr>)))))"

fun run_items ::
  "(nat \<Rightarrow> json \<Rightarrow> ('w, json_map) run) \<Rightarrow> nat \<Rightarrow> json list \<Rightarrow> 'w
   \<Rightarrow> (string, json_map) result list \<times> 'w" where
  "run_items item_run index [] w = ([], w)"
| "run_items item_run index (v # vs) w =
     (case item_run index v w of (r, w1) \<Rightarrow>
       (case run_items item_run (Suc index) vs w1 of (rs, w2) \<Rightarrow> (r # rs, w2)))"

definition index_json :: "nat \<Rightarrow> json" where
  "index_json i = JNumber (PosInt i)"

fun collect_outcomes ::
  "string \<Rightarrow> nat \<Rightarrow> (json \<times> (string, json_map) result) list \<Rightarrow> (string, json list) result" where
  "collect_outcomes on_error index [] = Inr []"
| "collect_outcomes on_error index ((item, r) # rest) =
     (case r of
        Inr outs \<Rightarrow>
          rbind (collect_outcomes on_error (Suc index) rest) (\<lambda>vs.
            Inr (JObject [(''index'', index_json index), (''item'', item), (''outputs'', JObject outs)]
                 # vs))
      | Inl e \<Rightarrow>
          (if on_error = ''continue''
           then rbind (collect_outcomes on_error (Suc index) rest) (\<lambda>vs.
             Inr (JObject [(''error'', JString e), (''index'', index_json index), (''item'', item)] # vs))
           else Inl (''foreach item '' @ show_nat index @ '' failed: '' @ e)))"

fun foreach_chunks ::
  "string \<Rightarrow> (nat \<Rightarrow> json \<Rightarrow> ('w, json_map) run) \<Rightarrow> nat \<Rightarrow> json list list \<Rightarrow> ('w, json list) run" where
  "foreach_chunks on_error item_run index [] w = (Inr [], w)"
| "foreach_chunks on_error item_run index (c # cs) w =
     (case run_items item_run index c w of (rs, w1) \<Rightarrow>
       (case collect_outcomes on_error index (zip c rs) of
          Inl e \<Rightarrow> (Inl e, w1)
        | Inr vs \<Rightarrow>
            sbind (foreach_chunks on_error item_run (index + length c) cs) (\<lambda>us. sreturn (vs @ us)) w1))"

definition execute_foreach ::
  "'w sub_run \<Rightarrow> string \<Rightarrow> workflow_node \<Rightarrow> json_map \<Rightarrow> json_map \<Rightarrow> ('w, node_result) run" where
  "execute_foreach sub scope n inputs locals =
     sbind (slift (ok_or (Option.bind (map_of inputs ''items'') as_array)
         ''input items must be an array'')) (\<lambda>items.
       sbind (slift (ok_or (Option.bind (map_of (node_with n) ''maxConcurrency'') as_u64)
           ''foreach maxConcurrency is unavailable'')) (\<lambda>concurrency.
         sbind (slift (ok_or (node_body n) (''foreach node '' @ node_id n @ '' has no body''))) (\<lambda>body.
           let on_error = (case Option.bind (map_of (node_with n) ''onError'') as_str of
                 None \<Rightarrow> ''fail'' | Some s \<Rightarrow> s) in
           if concurrency = 0 then sfail ''node worker panicked''
           else sbind
             (foreach_chunks on_error
                (\<lambda>index item. sub body (scope @ ''/'' @ node_id n @ ''/items/'' @ show_nat index)
                   (map_insert ''$index'' (index_json index) (map_insert ''$item'' item locals)))
                0 (chunks concurrency items))
             (\<lambda>results. sreturn \<lparr>result_route = ''success'',
                result_outputs = [(''results'', JArray results)], result_message = None\<rparr>))))"

definition loop_outputs :: "nat \<Rightarrow> json \<Rightarrow> bool \<Rightarrow> json_map \<Rightarrow> json_map" where
  "loop_outputs iterations state completed outs =
     map_insert ''completed'' (JBool completed)
       (map_insert ''state'' state (map_insert ''iterations'' (index_json iterations) outs))"

fun loop_from ::
  "'w sub_run \<Rightarrow> string \<Rightarrow> workflow_node \<Rightarrow> workflow_subgraph \<Rightarrow> json_map \<Rightarrow> nat \<Rightarrow> nat \<Rightarrow> json
   \<Rightarrow> json_map \<Rightarrow> ('w, node_result) run" where
  "loop_from sub scope n body locals iteration 0 state last_outputs w =
     (Inr \<lparr>result_route = ''maxIterations'',
        result_outputs = loop_outputs iteration state False last_outputs,
        result_message = Some (''stopped after '' @ show_nat iteration @ '' iterations'')\<rparr>, w)"
| "loop_from sub scope n body locals iteration (Suc left) state last_outputs w =
     sbind (sub body (scope @ ''/'' @ node_id n @ ''/iterations/'' @ show_nat iteration)
         (map_insert ''$iteration'' (index_json iteration) (map_insert ''$state'' state locals)))
       (\<lambda>outs.
          sbind (slift (ok_or (map_of outs ''state'')
              (''loop node '' @ node_id n @ '' body did not produce state''))) (\<lambda>state'.
            sbind (slift (ok_or (Option.bind (map_of outs ''continue'') as_bool)
                (''loop node '' @ node_id n @ '' body output continue must be a boolean''))) (\<lambda>keep_going.
              if keep_going then loop_from sub scope n body locals (Suc iteration) left state' outs
              else sreturn \<lparr>result_route = ''success'',
                result_outputs = loop_outputs (Suc iteration) state' True outs,
                result_message = None\<rparr>))) w"

definition execute_loop ::
  "'w sub_run \<Rightarrow> string \<Rightarrow> workflow_node \<Rightarrow> json_map \<Rightarrow> json_map \<Rightarrow> ('w, node_result) run" where
  "execute_loop sub scope n inputs locals =
     sbind (slift (ok_or (Option.bind (map_of (node_with n) ''maxIterations'') as_u64)
         ''loop maxIterations is unavailable'')) (\<lambda>max_iterations.
       sbind (slift (ok_or (node_body n) (''loop node '' @ node_id n @ '' has no body''))) (\<lambda>body.
         sbind (slift (ok_or (map_of inputs ''state'') ''input state is required'')) (\<lambda>state.
           loop_from sub scope n body locals 0 max_iterations state [])))"

definition file_node_types :: "string list" where
  "file_node_types =
     [''kakune.fs.write-text@1'', ''kakune.fs.read-text@1'', ''kakune.fs.copy@1'', ''kakune.fs.move@1'']"

definition execute_node ::
  "'w node_host \<Rightarrow> run_context \<Rightarrow> 'w sub_run \<Rightarrow> workflow_node \<Rightarrow> json_map \<Rightarrow> json_map
   \<Rightarrow> ('w, node_result) run" where
  "execute_node nh ctx sub n inputs locals =
     (let t = node_type n;
          scope = ctx_scope ctx;
          plain = (\<lambda>route outs message. \<lparr>result_route = route, result_outputs = outs,
                     result_message = message\<rparr>)
      in if t = ''kakune.flow.end@1'' then sreturn (plain ''success'' [] None)
         else if t = ''kakune.log@1'' then
           sbind (slift (input_string inputs ''message'')) (\<lambda>m. sreturn (plain ''success'' [] (Some m)))
         else if t = ''kakune.flow.if@1'' then
           sbind (slift (input_boolean inputs ''condition''))
             (\<lambda>b. sreturn (plain (if b then ''true'' else ''false'') [] None))
         else if t = ''kakune.flow.switch@1'' then
           execute_switch (show_float nh) sub scope n inputs locals
         else if t = ''kakune.flow.foreach@1'' then execute_foreach sub scope n inputs locals
         else if t = ''kakune.flow.loop@1'' then execute_loop sub scope n inputs locals
         else if t = ''kakune.flow.join@1'' \<or> t = ''kakune.flow.merge@1'' \<or> t = ''kakune.flow.pass@1''
         then sreturn (plain ''success'' inputs None)
         else if t = ''kakune.flow.set-variable@1'' then
           (case map_of inputs ''value'' of
              None \<Rightarrow> sfail ''node worker panicked''
            | Some v \<Rightarrow> sreturn (plain ''success'' [(''value'', v)] None))
         else if t = ''kakune.flow.delay@1'' then
           sbind (slift (input_u64 inputs ''durationMs'')) (\<lambda>milliseconds.
             sbind (durable_delay nh (scoped_node_id scope (node_id n)) milliseconds) (\<lambda>duration.
               sbind (wait_with_control nh (ctx_control ctx) duration) (\<lambda>_.
                 sreturn (plain ''success'' [] (Some (''waited '' @ show_nat milliseconds @ ''ms''))))))
         else if t \<in> set file_node_types then file_node (node_files nh) t inputs
         else leaf_run nh (ctx_control ctx) scope n inputs)"

definition checkpoint_status :: "string \<Rightarrow> string" where
  "checkpoint_status t =
     (if t = ''kakune.flow.delay@1'' then ''waiting''
      else if control_kind t \<noteq> None then ''container'' else ''running'')"

definition node_sensitive :: "run_context \<Rightarrow> workflow_node \<Rightarrow> bool" where
  "node_sensitive ctx n = (ctx_sensitive ctx \<or> list_ex binding_uses_secret (vals (node_inputs n)))"

definition execute_node_with_retry ::
  "'w node_host \<Rightarrow> run_context \<Rightarrow> 'w sub_run \<Rightarrow> workflow_node \<Rightarrow> json_map \<Rightarrow> json_map
   \<Rightarrow> ('w, node_result) run" where
  "execute_node_with_retry nh ctx sub n inputs locals =
     (let scoped = scoped_node_id (ctx_scope ctx) (node_id n) in
      sbind (checkpoint_result nh scoped) (\<lambda>saved.
        (case saved of
           Some r \<Rightarrow> sreturn r
         | None \<Rightarrow>
             sbind (begin_checkpoint nh scoped (checkpoint_status (node_type n))) (\<lambda>_.
               retry_loop nh (ctx_control ctx) (node_retry n) scoped
                 (\<lambda>_. execute_node nh ctx sub n inputs locals)
                 (\<lambda>span r.
                    (case ctx_max_result ctx of
                       Some limit \<Rightarrow>
                         (if limit < encoded_len nh r
                          then (let e = ''node '' @ node_id n @ '' result exceeds the ''
                                  @ show_nat limit @ ''-byte limit''
                                in sbind (finish_span nh span ''failed'' (Some e)) (\<lambda>_. sfail e))
                          else sbind (complete_checkpoint nh scoped
                                 (if node_sensitive ctx n then None else Some r)) (\<lambda>_.
                                 sbind (finish_span nh span ''succeeded'' None) (\<lambda>_. sreturn r)))
                     | None \<Rightarrow>
                         sbind (complete_checkpoint nh scoped
                           (if node_sensitive ctx n then None else Some r)) (\<lambda>_.
                           sbind (finish_span nh span ''succeeded'' None) (\<lambda>_. sreturn r))))
                 1 (case node_retry n of None \<Rightarrow> 1 | Some p \<Rightarrow> max_attempts p)))))"

section \<open>The interpreter\<close>

fun run_tasks :: "('t \<Rightarrow> ('w, 'a) run) \<Rightarrow> 't list \<Rightarrow> 'w \<Rightarrow> (string, 'a) result list \<times> 'w" where
  "run_tasks f [] w = ([], w)"
| "run_tasks f (t # ts) w =
     (case f t w of (r, w1) \<Rightarrow> (case run_tasks f ts w1 of (rs, w2) \<Rightarrow> (r # rs, w2)))"

definition record_node ::
  "'w node_host \<Rightarrow> run_context \<Rightarrow> workflow_node \<Rightarrow> (string, node_result) result \<Rightarrow> ('w, unit) run" where
  "record_node nh ctx n r =
     (let scoped = scoped_node_id (ctx_scope ctx) (node_id n) in
      (case r of
         Inl e \<Rightarrow> record_outcome nh scoped ''failed'' None None (Some e)
       | Inr res \<Rightarrow>
           record_outcome nh scoped ''succeeded''
             (if node_sensitive ctx n then Some ''sensitive result redacted'' else result_message res)
             (Some (node_result_value res (node_sensitive ctx n))) None))"

text \<open>A worker that fails raises the flag of its scope.\<close>

definition run_worker ::
  "'w node_host \<Rightarrow> run_context \<Rightarrow> 'w sub_run \<Rightarrow> json_map \<Rightarrow> workflow_node \<times> json_map
   \<Rightarrow> ('w, node_result) run" where
  "run_worker nh ctx sub locals task w =
     (case execute_node_with_retry nh ctx sub (fst task) (snd task) locals w of
        (Inr r, w') \<Rightarrow> (Inr r, w')
      | (Inl e, w') \<Rightarrow> (Inl e, set_flag nh (abort (ctx_control ctx)) w'))"

definition host_of :: "'w node_host \<Rightarrow> run_context \<Rightarrow> 'w sub_run \<Rightarrow> 'w host" where
  "host_of nh ctx sub =
     \<lparr>host_check = check_run nh (ctx_control ctx),
      host_run = (\<lambda>tasks locals w.
        (case run_tasks (run_worker nh ctx sub locals) tasks w of
           (rs, w') \<Rightarrow> ((\<lambda>i. rs ! i), w'))),
      host_record = record_node nh ctx,
      host_secret = secret_of nh, host_show_float = show_float nh\<rparr>"

definition resolve_with ::
  "'w node_host \<Rightarrow> 'w \<Rightarrow> json_map btree_map \<Rightarrow> json_map \<Rightarrow> bindings \<Rightarrow> (string, json_map) result" where
  "resolve_with nh w outs locals bs =
     resolve_inputs \<lparr>env_secret = secret_of nh w, env_outputs = outs, env_locals = locals,
       env_show_float = show_float nh\<rparr> bs"

text \<open>The scheduler on one scope, under a fork of the control; \<open>sub\<close> runs the scopes inside it
  under the context they get.\<close>

definition run_scope ::
  "'w node_host \<Rightarrow> (run_context \<Rightarrow> 'w sub_run) \<Rightarrow> run_context \<Rightarrow> workflow_node list \<Rightarrow> string
   \<Rightarrow> json_map \<Rightarrow> ('w, json_map btree_map) run" where
  "run_scope nh sub ctx ns entry_id locals w =
     (case fresh_flag nh w of (flag, w0) \<Rightarrow>
       (let ctx' = ctx\<lparr>ctx_control := control_fork flag (ctx_control ctx)\<rparr> in
        (case execute_graph (host_of nh ctx' (sub ctx')) (ctx_max_parallel ctx) ns entry_id locals w0 of
           (Inl e, w1) \<Rightarrow> (Inl (run_error_text e), w1)
         | (Inr outs, w1) \<Rightarrow> (Inr outs, w1))))"

text \<open>\<open>execute_subgraph\<close>, with the nesting depth that is left; a validated document nests at most
  32 scopes.\<close>

fun run_subgraph :: "'w node_host \<Rightarrow> nat \<Rightarrow> run_context \<Rightarrow> 'w sub_run" where
  "run_subgraph nh 0 ctx g scope locals w = (Inl ''nesting limit'', w)"
| "run_subgraph nh (Suc d) ctx g scope locals w =
     (case run_scope nh (run_subgraph nh d) (ctx\<lparr>ctx_scope := scope\<rparr>) (sub_nodes g) (sub_entry g)
         locals w of
        (Inl e, w1) \<Rightarrow> (Inl e, w1)
      | (Inr outs, w1) \<Rightarrow> (resolve_with nh w1 outs locals (sub_outputs g), w1))"

definition redact_outputs :: "bindings \<Rightarrow> json_map \<Rightarrow> json_map" where
  "redact_outputs bs values =
     foldl (\<lambda>m (name, b). if binding_uses_secret b then map_insert name (JString ''[redacted]'') m else m)
       values bs"

definition execute_nodes ::
  "'w node_host \<Rightarrow> (string \<Rightarrow> bool) \<Rightarrow> run_control \<Rightarrow> nat option \<Rightarrow> nat option \<Rightarrow> nat
   \<Rightarrow> execution_plan \<Rightarrow> ('w, unit) run" where
  "execute_nodes nh plugin_secret control max_node_result max_execution_result depth p w =
     (let ns = map planned_node (plan_nodes p);
          ctx = \<lparr>ctx_control = control, ctx_scope = [],
            ctx_sensitive = list_ex (\<lambda>n. graph_uses_secret plugin_secret [n]) ns,
            ctx_max_parallel = (case max_parallel_nodes (plan_policy p) of None \<Rightarrow> 8 | Some k \<Rightarrow> k),
            ctx_max_result = max_node_result\<rparr>
      in (case run_scope nh (run_subgraph nh depth) ctx ns (plan_entry p)
             [(''$input'', input_values p), (''$trigger'', trigger_values p)] w of
            (Inl e, w1) \<Rightarrow> (Inl e, w1)
          | (Inr outs, w1) \<Rightarrow>
              (case resolve_with nh w1 outs [] (plan_outputs p) of
                 Inl e \<Rightarrow> (Inl e, w1)
               | Inr values \<Rightarrow>
                   (let result = JObject (redact_outputs (plan_outputs p) values) in
                    (case max_execution_result of
                       None \<Rightarrow> store_result nh result w1
                     | Some limit \<Rightarrow>
                         (if limit < encoded_value_len nh result
                          then (Inl (''execution result exceeds the '' @ show_nat limit @ ''-byte limit''), w1)
                          else store_result nh result w1))))))"

section \<open>Retries and loops\<close>

text \<open>A run that counts its calls.\<close>

definition counting :: "('w, 'a) run \<Rightarrow> ('w \<times> nat, 'a) run" where
  "counting m = (\<lambda>(w, c). (case m w of (r, w') \<Rightarrow> (r, (w', Suc c))))"

definition counting_sub :: "'w sub_run \<Rightarrow> ('w \<times> nat) sub_run" where
  "counting_sub sub g scope locals = counting (sub g scope locals)"

lemma counting_sub_run:
  "counting_sub sub g scope locals (w, c) = (case sub g scope locals w of (r, w') \<Rightarrow> (r, (w', Suc c)))"
  by (simp add: counting_sub_def counting_def)

lemma loop_from_counts:
  "loop_from (counting_sub sub) scope n body locals iteration left state outs0 (w, iteration)
     = (Inr r, (w', c))
   \<Longrightarrow> c \<le> iteration + left \<and> map_of (result_outputs r) ''iterations'' = Some (index_json c)
     \<and> (result_route r = ''success'' \<or> result_route r = ''maxIterations'' \<and> c = iteration + left)"
proof (induction left arbitrary: iteration state outs0 w)
  case 0
  then show ?case by (auto simp: loop_outputs_def)
next
  case (Suc left)
  from Suc.prems obtain outs w1 state' keep where
    body: "sub body (scope @ ''/'' @ node_id n @ ''/iterations/'' @ show_nat iteration)
      (map_insert ''$iteration'' (index_json iteration) (map_insert ''$state'' state locals)) w = (Inr outs, w1)"
    and rest: "(if keep then loop_from (counting_sub sub) scope n body locals (Suc iteration) left state' outs
      else sreturn \<lparr>result_route = ''success'',
        result_outputs = loop_outputs (Suc iteration) state' True outs, result_message = None\<rparr>)
      (w1, Suc iteration) = (Inr r, (w', c))"
    by (auto simp: sbind_Inr counting_sub_run split: prod.splits)
  show ?case
  proof (cases keep)
    case True
    with rest Suc.IH [of "Suc iteration"] show ?thesis by auto
  next
    case False
    with rest show ?thesis by (auto simp: loop_outputs_def)
  qed
qed

section \<open>Items\<close>

lemma collect_outcomes_append:
  "collect_outcomes on_error i (xs @ ys) =
   rbind (collect_outcomes on_error i xs) (\<lambda>vs.
     rbind (collect_outcomes on_error (i + length xs) ys) (\<lambda>us. Inr (vs @ us)))"
proof (induction xs arbitrary: i)
  case Nil
  show ?case by (cases "collect_outcomes on_error i ys") simp_all
next
  case (Cons x xs)
  obtain item r where x: "x = (item, r)" by (cases x)
  from Cons.IH [of "Suc i"] show ?case
    by (cases r; cases "collect_outcomes on_error (Suc i) xs";
        cases "collect_outcomes on_error (Suc (i + length xs)) ys")
      (auto simp: x)
qed

lemma run_items_pure:
  "run_items (\<lambda>i v w. (f i v, w)) index vs w = (map (\<lambda>(i, v). f i v) (enumerate index vs), w)"
  by (induction vs arbitrary: index) simp_all

lemma foreach_chunks_pure:
  "foreach_chunks on_error (\<lambda>i v w. (f i v, w)) index cs w =
   (collect_outcomes on_error index (map (\<lambda>(i, v). (v, f i v)) (enumerate index (concat cs))), w)"
proof (induction cs arbitrary: index)
  case (Cons c cs)
  have zip: "zip c (map (\<lambda>(i, v). f i v) (enumerate index c)) = map (\<lambda>(i, v). (v, f i v)) (enumerate index c)"
    by (induction c arbitrary: index) simp_all
  have enum: "enumerate index (c @ concat cs) = enumerate index c @ enumerate (index + length c) (concat cs)"
    by (simp add: enumerate_append_eq)
  show ?case
    by (cases "collect_outcomes on_error index (map (\<lambda>(i, v). (v, f i v)) (enumerate index c))")
      (auto simp: run_items_pure zip enum Cons collect_outcomes_append sbind_def sreturn_def
        split: sum.splits)
qed simp

lemma collect_outcomes_continue:
  "\<exists>vs. collect_outcomes ''continue'' i xs = Inr vs \<and> length vs = length xs"
proof (induction xs arbitrary: i)
  case (Cons x xs)
  obtain item r where x: "x = (item, r)" by (cases x)
  from Cons [of "Suc i"] show ?case by (cases r) (auto simp: x)
qed simp

section \<open>Enough depth\<close>

text \<open>The number of scopes nested in a list of nodes.\<close>

function scope_depth :: "workflow_node list \<Rightarrow> nat" where
  "scope_depth ns =
     (if concat (map subgraphs ns) = [] then 0
      else Suc (fold max (map (\<lambda>g. scope_depth (sub_nodes g)) (concat (map subgraphs ns))) 0))"
  by pat_completeness auto
termination
  by (relation "measure (size_list size)") (auto dest: scope_size)

declare scope_depth.simps [simp del]

lemma fold_max_init: "k \<le> fold max xs (k :: nat)"
  by (induction xs arbitrary: k) (auto intro: order_trans [OF max.cobounded2])

lemma fold_max_ge: "x \<in> set xs \<Longrightarrow> x \<le> fold max xs (k :: nat)"
proof (induction xs arbitrary: k)
  case (Cons y ys)
  from fold_max_init [of "max y k" ys] Cons show ?case by auto
qed simp

lemma scope_depth_subgraph:
  assumes "n \<in> set ns" and "g \<in> set (subgraphs n)"
  shows "scope_depth (sub_nodes g) < scope_depth ns"
proof -
  have "g \<in> set (concat (map subgraphs ns))" using assms by auto
  then have "concat (map subgraphs ns) \<noteq> []"
    and "scope_depth (sub_nodes g)
      \<in> set (map (\<lambda>g. scope_depth (sub_nodes g)) (concat (map subgraphs ns)))"
    by (force, simp del: set_concat)
  then show ?thesis
    using fold_max_ge [of _ _ 0] by (subst (2) scope_depth.simps) (simp add: le_imp_less_Suc)
qed

text \<open>A node only calls the runs of its own subgraphs.\<close>

lemma loop_from_sub_cong:
  assumes "sub g = sub' g"
  shows "loop_from sub scope n g locals i left st outs0 = loop_from sub' scope n g locals i left st outs0"
proof (induction left arbitrary: i st outs0)
  case 0
  show ?case by (rule ext) simp
next
  case (Suc left)
  show ?case by (rule ext) (simp only: loop_from.simps assms Suc)
qed

lemma execute_node_sub_cong:
  assumes "\<And>g. g \<in> set (subgraphs n) \<Longrightarrow> sub g = sub' g"
  shows "execute_node nh ctx sub n inputs locals = execute_node nh ctx sub' n inputs locals"
proof -
  have branch: "sub g = sub' g" if "map_of (node_branches n) b = Some g" for b g
    using assms that by (auto simp: subgraphs_def in_vals dest!: map_of_SomeD)
  have body: "sub g = sub' g" if "node_body n = Some g" for g
    using assms that by (simp add: subgraphs_def)
  have "execute_switch shw sub scope n inputs locals = execute_switch shw sub' scope n inputs locals" for shw scope
    by (auto simp: execute_switch_def sbind_def slift_def fun_eq_iff branch split: prod.splits sum.splits)
  moreover have "execute_foreach sub scope n inputs locals = execute_foreach sub' scope n inputs locals" for scope
    by (auto simp: execute_foreach_def sbind_def slift_def fun_eq_iff body split: prod.splits sum.splits)
  moreover have loop: "loop_from sub scope n g locals i k st os w = loop_from sub' scope n g locals i k st os w"
    if "node_body n = Some g" for scope g i k st os w
    using loop_from_sub_cong [of sub g sub', OF body [OF that]] by simp
  moreover have "execute_loop sub scope n inputs locals = execute_loop sub' scope n inputs locals" for scope
    by (auto simp: execute_loop_def sbind_def slift_def fun_eq_iff loop
        split: prod.splits sum.splits)
  ultimately show ?thesis by (simp add: execute_node_def Let_def)
qed

text \<open>Two hosts that a scheduler cannot tell apart on the nodes of a graph.\<close>

definition same_host :: "workflow_node list \<Rightarrow> 'w host \<Rightarrow> 'w host \<Rightarrow> bool" where
  "same_host ns h h' \<longleftrightarrow>
     host_check h = host_check h' \<and> host_record h = host_record h' \<and> host_secret h = host_secret h'
     \<and> host_show_float h = host_show_float h'
     \<and> (\<forall>tasks. fst ` set tasks \<subseteq> set ns \<longrightarrow> host_run h tasks = host_run h' tasks)"

lemma apply_results_same:
  "host_record h = host_record h' \<Longrightarrow> apply_results h xs failure st w = apply_results h' xs failure st w"
proof (induction xs arbitrary: failure st w)
  case (Cons x xs)
  obtain n inputs r where x: "x = ((n, inputs), r)" by (cases x) auto
  from Cons.IH [OF Cons.prems] Cons.prems show ?case by (simp add: x split: prod.split sum.split)
qed simp

lemma run_batch_same:
  assumes "same_host ns h h'" and "set batch \<subseteq> set ns"
  shows "run_batch h batch st w = run_batch h' batch st w"
proof -
  have "env_of h w st = env_of h' w st" using assms(1) by (simp add: env_of_def same_host_def)
  moreover have "host_run h (zip batch prepared) = host_run h' (zip batch prepared)" for prepared
  proof -
    have "fst ` set (zip batch prepared) \<subseteq> set ns" using assms(2) by (auto dest: set_zip_leftD)
    with assms(1) show ?thesis by (simp add: same_host_def)
  qed
  moreover have "host_record h = host_record h'" using assms(1) by (simp add: same_host_def)
  ultimately show ?thesis
    by (simp add: run_batch_def Let_def apply_results_same [of h h'] split: sum.split prod.split)
qed

lemma run_batches_same:
  "same_host ns h h' \<Longrightarrow> set (concat bs) \<subseteq> set ns \<Longrightarrow> run_batches h bs st w = run_batches h' bs st w"
proof (induction bs arbitrary: st w)
  case (Cons b bs)
  from run_batch_same [OF Cons.prems(1), of b] Cons show ?case
    by (simp split: prod.split sum.split)
qed simp

lemma graph_round_same:
  assumes "same_host ns h h'"
  shows "graph_round h ns k st w = graph_round h' ns k st w"
proof -
  have "run_batches h (chunks k (ready_nodes ns act done_ids)) st w
      = run_batches h' (chunks k (ready_nodes ns act done_ids)) st w" if "k \<noteq> 0" for act done_ids st w
  proof (rule run_batches_same [OF assms])
    show "set (concat (chunks k (ready_nodes ns act done_ids))) \<subseteq> set ns"
      using that by (simp only: concat_chunks) (simp add: concat_chunks ready_nodes_def)
  qed
  moreover have "host_check h = host_check h'" using assms by (simp add: same_host_def)
  ultimately show ?thesis by (simp add: graph_round_def Let_def split: prod.split sum.split)
qed

lemma graph_loop_same:
  "same_host ns h h' \<Longrightarrow> graph_loop h ns k st w = graph_loop h' ns k st w"
proof (induction h ns k st w rule: graph_loop.induct)
  case (1 h ns k st w)
  from graph_round_same [OF "1.prems"] "1.IH" "1.prems" show ?case
    by (simp add: graph_loop.simps [of h] graph_loop.simps [of h'] split: prod.split sum.split)
qed

lemma host_of_same:
  assumes "\<And>n g. n \<in> set ns \<Longrightarrow> g \<in> set (subgraphs n) \<Longrightarrow> sub g = sub' g"
  shows "same_host ns (host_of nh ctx sub) (host_of nh ctx sub')"
proof -
  have one: "execute_node_with_retry nh ctx sub n inputs locals
      = execute_node_with_retry nh ctx sub' n inputs locals" if "n \<in> set ns" for n inputs locals
    using execute_node_sub_cong [of n sub sub' nh ctx] assms [OF that]
    by (simp add: execute_node_with_retry_def)
  have "run_tasks (run_worker nh ctx sub locals) tasks w
      = run_tasks (run_worker nh ctx sub' locals) tasks w"
    if "fst ` set tasks \<subseteq> set ns" for tasks locals w
    using that by (induction tasks arbitrary: w) (auto simp: one run_worker_def split: prod.split)
  then show ?thesis by (simp add: same_host_def host_of_def fun_eq_iff)
qed

lemma run_scope_cong:
  assumes "\<And>ctx n g. n \<in> set ns \<Longrightarrow> g \<in> set (subgraphs n) \<Longrightarrow> sub ctx g = sub' ctx g"
  shows "run_scope nh sub ctx ns e locals w = run_scope nh sub' ctx ns e locals w"
proof -
  have "same_host ns (host_of nh c (sub c)) (host_of nh c (sub' c))" for c
    using assms by (rule host_of_same)
  from graph_loop_same [OF this] show ?thesis
    by (simp add: run_scope_def execute_graph_def Let_def split: prod.split)
qed

lemma run_subgraph_enough:
  "scope_depth (sub_nodes g) < d \<Longrightarrow> scope_depth (sub_nodes g) < d'
   \<Longrightarrow> run_subgraph nh d ctx g = run_subgraph nh d' ctx g"
proof (induction d arbitrary: d' g ctx)
  case (Suc d)
  then obtain e where d': "d' = Suc e" by (cases d') auto
  have "run_subgraph nh d c g' = run_subgraph nh e c g'"
    if "n \<in> set (sub_nodes g)" "g' \<in> set (subgraphs n)" for n g' c
    using scope_depth_subgraph [OF that] Suc.prems d' by (intro Suc.IH) simp_all
  from run_scope_cong [OF this] show ?case by (simp add: d' fun_eq_iff)
qed simp

section \<open>Properties\<close>

definition quiet_files :: "unit file_system" where
  "quiet_files =
     \<lparr>workspace_dir = sreturn [], path_exists = (\<lambda>_ _. False), canonicalize = (\<lambda>_. Inr),
      is_file = (\<lambda>_ _. True), create_dir_all = (\<lambda>_. sreturn ()), write_file = (\<lambda>_ _. sreturn ()),
      read_to_string = (\<lambda>_. sreturn []), copy_file = (\<lambda>_ _. sreturn ()),
      rename_file = (\<lambda>_ _. sreturn ()), put_artifact = (\<lambda>_ _ _. sreturn JNull),
      display = (\<lambda>_. [])\<rparr>"

definition idle_control :: run_control where
  "idle_control = \<lparr>deadline = None, abort = 0, ancestors = [], shutdown_requested = None\<rparr>"

definition quiet_node_host :: "unit node_host" where
  "quiet_node_host =
     \<lparr>node_files = quiet_files, leaf_run = (\<lambda>c scope n inputs. sreturn \<lparr>result_route = ''success'', result_outputs = [],
        result_message = None\<rparr>),
      fresh_flag = (\<lambda>_. (0, ())), set_flag = (\<lambda>_ _. ()), durable_delay = (\<lambda>_. sreturn),
      checkpoint_result = (\<lambda>_. sreturn None), begin_checkpoint = (\<lambda>_ _. sreturn ()),
      complete_checkpoint = (\<lambda>_ _. sreturn ()), start_span = (\<lambda>_ _. sreturn []),
      finish_span = (\<lambda>_ _ _. sreturn ()), wait_with_control = (\<lambda>_ _. sreturn ()),
      check_run = (\<lambda>_. sreturn ()),
      record_outcome = (\<lambda>_ _ _ _ _. sreturn ()), store_result = (\<lambda>_. sreturn ()),
      secret_of = (\<lambda>_ _. Inr ''hunter2''), show_float = (\<lambda>_. []), encoded_len = (\<lambda>_. 0),
      encoded_value_len = (\<lambda>_. 0)\<rparr>"

text \<open>The pause before a retry never exceeds the cap of the policy by more than the jitter, nor
  the range of \<open>u64\<close>; it is undefined (the worker panics) exactly when the jitter bound is the
  largest \<open>u64\<close>, which validation accepts.\<close>

theorem backoff_bounds:
  "(backoff_ms p attempt = Some ms \<longrightarrow>
      ms \<le> u64_max
      \<and> ms \<le> (case max_backoff_ms p of None \<Rightarrow> u64_max | Some m \<Rightarrow> m)
          + (case jitter_ms p of None \<Rightarrow> 0 | Some j \<Rightarrow> j))
   \<and> (backoff_ms p attempt = None \<longleftrightarrow> jitter_ms p = Some u64_max)"
proof -
  have jitter: "attempt mod Suc j \<le> j" for j
    using mod_less_divisor [of "Suc j" attempt] by simp
  have "capped_backoff p attempt \<le> (case max_backoff_ms p of None \<Rightarrow> u64_max | Some m \<Rightarrow> m)"
    by (auto simp: capped_backoff_def Let_def split: option.split)
  with jitter show ?thesis
    by (auto simp: backoff_ms_def min.coboundedI1 add_mono split: option.split)
qed

theorem backoff_bounds_witness:
  "backoff_ms \<lparr>max_attempts = 3, initial_backoff_ms = 100, max_backoff_ms = Some 150, jitter_ms = Some 10\<rparr> 2
     = Some 152
   \<and> (152::nat) \<le> 150 + 10"
proof -
  let ?p = "\<lparr>max_attempts = 3, initial_backoff_ms = 100, max_backoff_ms = Some 150, jitter_ms = Some 10\<rparr>"
  have "backoff_ms ?p 2 = Some 152" by code_simp
  with backoff_bounds [of ?p 2 152] show ?thesis by simp
qed

text \<open>A loop node runs its body at most \<open>maxIterations\<close> times, reports how often it did, and
  takes the route \<open>maxIterations\<close> only after that many.\<close>

theorem execute_loop_bounded:
  assumes "execute_loop (counting_sub sub) scope n inputs locals (w, 0) = (Inr r, (w', c))"
    and "map_of (node_with n) ''maxIterations'' = Some (JNumber (PosInt k))"
  shows "c \<le> k \<and> map_of (result_outputs r) ''iterations'' = Some (index_json c)
    \<and> (result_route r = ''success'' \<or> result_route r = ''maxIterations'' \<and> c = k)"
  using assms loop_from_counts [of sub scope n _ locals 0 k _ "[]" w r w' c]
  by (auto simp: execute_loop_def sbind_Inr)

theorem execute_loop_bounded_witness:
  "(3::nat) \<le> 3 \<and> map_of (loop_outputs 3 JNull False [(''continue'', JBool True), (''state'', JNull)]) ''iterations''
     = Some (index_json 3)"
proof -
  let ?sub = "\<lambda>g scope locals w. (Inr [(''continue'', JBool True), (''state'', JNull)], w) :: (string, json_map) result \<times> unit"
  let ?n = "WorkflowNode ''repeat'' ''kakune.flow.loop@1'' [(''maxIterations'', JNumber (PosInt 3))]
    [] [] None [] (Some loop_body)"
  have "execute_loop (counting_sub ?sub) [] ?n [(''state'', JNull)] [] ((), 0)
      = (Inr \<lparr>result_route = ''maxIterations'',
          result_outputs = loop_outputs 3 JNull False [(''continue'', JBool True), (''state'', JNull)],
          result_message = Some (''stopped after '' @ show_nat 3 @ '' iterations'')\<rparr>, ((), 3))"
    by code_simp
  from execute_loop_bounded [OF this, of 3] show ?thesis by simp
qed



text \<open>With \<open>onError: continue\<close> a foreach node always reports one entry for every item.\<close>

lemma foreach_continue_complete:
  "\<exists>vs. collect_outcomes ''continue'' 0 (zip items outcomes) = Inr vs
     \<and> length vs = min (length items) (length outcomes)"
  using collect_outcomes_continue [of 0 "zip items outcomes"] by simp

text \<open>a forked control stops whenever its parent does and for the same reason, as long as its own
  flag is clear; setting its flag stops it with the error of a failed sibling.\<close>

theorem control_fork_inherits:
  "(\<not> flags fresh \<longrightarrow>
     control_check flags cancel now (control_fork fresh c) = control_check flags cancel now c)
   \<and> (flags fresh \<longrightarrow> control_check flags cancel now (control_fork fresh c)
        \<in> {Inl ''Core shutdown requested'', Inl ''sibling node failed''})"
  by (auto simp: control_check_def control_fork_def)

theorem control_fork_inherits_witness:
  "control_check (\<lambda>_. False) (Inr False) 7
     (control_fork 1 \<lparr>deadline = Some 5, abort = 0, ancestors = [], shutdown_requested = None\<rparr>)
   = Inl ''execution timed out''"
  using control_fork_inherits [of "\<lambda>_. False" 1 "Inr False" 7
      "\<lparr>deadline = Some 5, abort = 0, ancestors = [], shutdown_requested = None\<rparr>"]
  by (simp add: control_check_def)

text \<open>reserving the grace period keeps the deadline between now and the total deadline, and leaves
  the whole grace period free unless the time left does not exceed it.\<close>

theorem reserve_shutdown_grace_bounds:
  assumes "now \<le> total_deadline"
  shows "let r = reserve_shutdown_grace total_deadline now (Some g) in
    now \<le> r \<and> r \<le> total_deadline
    \<and> (g < total_deadline - now \<longrightarrow> r + g = total_deadline)
    \<and> (total_deadline - now \<le> g \<longrightarrow> r = total_deadline)"
  using assms by (auto simp: reserve_shutdown_grace_def Let_def min_def)

theorem reserve_shutdown_grace_bounds_witness:
  "reserve_shutdown_grace 60000 1000 (Some 5000) + 5000 = 60000"
  using reserve_shutdown_grace_bounds [of 1000 60000 5000] by (simp add: Let_def)

text \<open>A workflow output bound to the run's input or trigger is accepted by the planner, and yet a
  run of such a plan never succeeds: the outputs are resolved without any local names.\<close>

theorem input_output_never_succeeds:
  assumes "(name, From from) \<in> set (plan_outputs p)" and "local_root from = ''$input''"
    and "starts_with from ''$''"
  shows "validate_output_binding doc names (name, From from) = []
    \<and> fst (execute_nodes nh plugin_secret control node_limit result_limit depth p w) \<noteq> Inr ()"
proof
  show "validate_output_binding doc names (name, From from) = []"
    using assms(2,3) by (simp add: validate_output_binding_def Let_def)
  have local: "resolve_from env from \<noteq> Inr v" if "env_locals env = []" for env v
    using assms(3) that by (auto simp: resolve_from_def resolve_local_def split: option.splits)
  have fail: "resolve_with nh w1 outs [] (plan_outputs p) \<noteq> Inr values" for w1 outs "values"
  proof
    assume "resolve_with nh w1 outs [] (plan_outputs p) = Inr values"
    with assms(1) obtain v where "resolve_from \<lparr>env_secret = secret_of nh w1, env_outputs = outs,
        env_locals = [], env_show_float = show_float nh\<rparr> from = Inr v"
      by (fastforce simp: resolve_with_def resolve_inputs_def map_ok_Inr list_all2_conv_all_nth
          in_set_conv_nth rbind_Inr resolve_binding_def)
    with local show False by simp
  qed
  show "fst (execute_nodes nh plugin_secret control node_limit result_limit depth p w) \<noteq> Inr ()"
    by (auto simp: execute_nodes_def Let_def fail split: prod.split sum.split)
qed

definition echo_plan :: execution_plan where
  "echo_plan =
     \<lparr>plan_workflow_id = ''echo'', plan_nodes = [plan_node [write_node] write_node],
      plan_entry = ''write'', plan_outputs = [(''name'', From ''$input.name'')],
      plan_policy = \<lparr>timeout = None, max_parallel_nodes = None, concurrency = None, ai = None\<rparr>,
      input_values = JObject [(''name'', JString ''Ada'')], trigger_values = JObject []\<rparr>"

theorem input_output_never_succeeds_witness:
  "validate_output_binding write_note [] (''name'', From ''$input.name'') = []
   \<and> fst (execute_nodes quiet_node_host (\<lambda>_. False) idle_control None None 33 echo_plan ()) \<noteq> Inr ()"
proof (rule input_output_never_succeeds)
  show "(''name'', From ''$input.name'') \<in> set (plan_outputs echo_plan)"
    by (simp add: echo_plan_def)
  show "local_root ''$input.name'' = ''$input''" and "starts_with ''$input.name'' ''$''"
    by code_simp+
qed

lemma redact_outputs_other:
  "name \<notin> set (keys bs) \<Longrightarrow> map_of (redact_outputs bs vs) name = map_of vs name"
  unfolding redact_outputs_def
  by (induction bs arbitrary: vs) (auto simp: keys_def split: if_splits)

lemma redact_outputs_key:
  "distinct (keys bs) \<Longrightarrow> (name, b) \<in> set bs \<Longrightarrow> map_of (redact_outputs bs vs) name
    = (if binding_uses_secret b then Some (JString ''[redacted]'') else map_of vs name)"
proof (induction bs arbitrary: vs)
  case (Cons x bs)
  obtain k c where x: "x = (k, c)" by (cases x)
  have step: "redact_outputs (x # bs) vs
      = redact_outputs bs (if binding_uses_secret c then map_insert k (JString ''[redacted]'') vs else vs)"
    by (simp add: redact_outputs_def x)
  show ?case
  proof (cases "k = name")
    case True
    with Cons.prems x have "b = c" "name \<notin> set (keys bs)" by (auto simp: keys_def rev_image_eqI)
    with True show ?thesis by (simp add: step redact_outputs_other)
  next
    case False
    with Cons.prems x have "distinct (keys bs)" "(name, b) \<in> set bs" by (auto simp: keys_def)
    with Cons.IH False show ?thesis by (simp add: step)
  qed
qed simp

text \<open>The last thing a successful run does is to store its result, in which every output bound
  to a secret, directly or inside an expression, is \<open>[redacted]\<close>, and every other one is the
  value its binding resolves to.\<close>

theorem redact_outputs_secret:
  assumes "execute_nodes nh plugin_secret control node_limit result_limit depth p w = (Inr (), w')"
    and "distinct (keys (plan_outputs p))"
  shows "\<exists>stored outs w1 resolved. store_result nh (JObject stored) w1 = (Inr (), w')
    \<and> resolve_with nh w1 outs [] (plan_outputs p) = Inr resolved
    \<and> (\<forall>(name, b) \<in> set (plan_outputs p). map_of stored name
          = (if binding_uses_secret b then Some (JString ''[redacted]'') else map_of resolved name))"
proof -
  from assms(1) obtain outs w1 resolved
    where "resolve_with nh w1 outs [] (plan_outputs p) = Inr resolved"
      and "store_result nh (JObject (redact_outputs (plan_outputs p) resolved)) w1 = (Inr (), w')"
    by (auto simp: execute_nodes_def Let_def split: prod.splits sum.splits option.splits if_splits)
  moreover have "\<forall>(name, b) \<in> set (plan_outputs p). map_of (redact_outputs (plan_outputs p) resolved) name
      = (if binding_uses_secret b then Some (JString ''[redacted]'') else map_of resolved name)"
    using redact_outputs_key [OF assms(2)] by blast
  ultimately show ?thesis by blast
qed

definition secret_plan :: execution_plan where
  "secret_plan = echo_plan\<lparr>plan_outputs := [(''token'', Secret ''api'')]\<rparr>"

theorem redact_outputs_secret_witness:
  "\<exists>stored. store_result quiet_node_host (JObject stored) () = (Inr (), ())
    \<and> map_of stored ''token'' = Some (JString ''[redacted]'')"
proof -
  have "execute_nodes quiet_node_host (\<lambda>_. False) idle_control None None 33 secret_plan ()
      = (Inr (), ())"
    by code_simp
  from redact_outputs_secret [OF this] show ?thesis
    by (auto simp: secret_plan_def keys_def binding_uses_secret_def)
qed

text \<open>The nesting the metrics report is the depth the interpreter needs.\<close>

lemma graph_metrics_depth: "snd (snd (graph_metrics ns depth)) = depth + scope_depth ns"
proof (induction ns depth rule: graph_metrics.induct)
  case (1 ns depth)
  let ?gs = "concat (map subgraphs ns)"
  have fold: "snd (snd (foldl (\<lambda>metrics g. (case (metrics, graph_metrics (sub_nodes g) (Suc depth)) of
        ((count, edge_count, maximum_depth), (children, edges, nested_depth)) \<Rightarrow>
          (count + children, edge_count + edges, max maximum_depth nested_depth))) (c, e, m) gs))
      = fold max (map (\<lambda>g. Suc depth + scope_depth (sub_nodes g)) gs) m"
    if "set gs \<subseteq> set ?gs" for c e m gs
    using that
  proof (induction gs arbitrary: c e m)
    case (Cons g gs)
    from "1.IH" [of g] Cons show ?case by (auto simp: max.commute split: prod.splits)
  qed simp
  have shift: "fold max (map (\<lambda>g. Suc depth + scope_depth (sub_nodes g)) gs) (Suc depth + m)
      = Suc depth + fold max (map (\<lambda>g. scope_depth (sub_nodes g)) gs) m" for gs and m :: nat
    by (induction gs arbitrary: m) (simp_all flip: nat_add_max_right)
  have start: "fold max (map (\<lambda>g. Suc depth + scope_depth (sub_nodes g)) gs) depth
      = fold max (map (\<lambda>g. Suc depth + scope_depth (sub_nodes g)) gs) (Suc depth + 0)"
    if "gs \<noteq> []" for gs
    using that by (cases gs) (simp_all add: max_def)
  show ?case
  proof (cases "?gs = []")
    case True
    then show ?thesis
      unfolding graph_metrics.simps [of ns depth] scope_depth.simps [of ns] fold [OF subset_refl]
      by (simp only: True) simp
  next
    case False
    then show ?thesis
      unfolding graph_metrics.simps [of ns depth] scope_depth.simps [of ns] fold [OF subset_refl]
      using start [OF False] shift [of ?gs 0] by (simp only: if_False)
  qed
qed

end
