(* ===== verification/Run_Frame.thy ===== *)
theory Run_Frame
  imports Runtime
begin

text \<open>
  What a run does to the world is what its host does: every relation between worlds that is reflexive and
  transitive and that each operation of the host stays in, the interpreter stays in too, through retries,
  nested scopes, loops and the scheduler, on success and on every error.
\<close>

section \<open>Tasks and items\<close>

context world_relation
begin

lemma stays_tasks:
  assumes "\<And>t. stays_in R (f t)"
  shows "stays_in R (run_tasks f ts)"
  unfolding stays_in_def
proof
  show "R w (snd (run_tasks f ts w))" for w
  proof (induction ts arbitrary: w)
    case (Cons t ts)
    obtain r w1 where t: "f t w = (r, w1)" by fastforce
    from Cons [of w1] relation_trans [OF stays_step [OF assms t]] show ?case
      by (auto simp: t split: prod.split)
  qed (simp add: relation_refl)
qed

lemma stays_items:
  assumes "\<And>index v. stays_in R (item_run index v)"
  shows "R w (snd (run_items item_run index vs w))"
proof (induction vs arbitrary: index w)
  case (Cons v vs)
  obtain r w1 where v: "item_run index v w = (r, w1)" by fastforce
  from Cons [of w1 "Suc index"] relation_trans [OF stays_step [OF assms v]] show ?case
    by (auto simp: v split: prod.split)
qed (simp add: relation_refl)

end

section \<open>The scheduler\<close>

locale graph_frame = world_relation R for R :: "'w \<Rightarrow> 'w \<Rightarrow> bool" +
  fixes h :: "'w host"
  assumes check_stays: "stays_in R (host_check h)"
    and run_stays: "stays_in R (host_run h tasks locals)"
    and record_stays: "stays_in R (host_record h n r)"
begin

lemma apply_results_stays: "R w (snd (apply_results h xs failure st w))"
proof (induction xs arbitrary: failure st w)
  case (Cons x xs)
  obtain n inputs r where x: "x = ((n, inputs), r)" by (cases x) auto
  obtain rec w1 where rec: "host_record h n r w = (rec, w1)" by fastforce
  have "R w w1" by (rule stays_step [OF record_stays rec])
  with Cons relation_trans show ?case by (auto simp: x rec split: sum.split)
qed (simp add: relation_refl)

lemma run_batch_stays: "R w (snd (run_batch h batch st w))"
proof (cases "map_ok (\<lambda>n. resolve_inputs (env_of h w st) (node_inputs n)) batch")
  case (Inr prepared)
  obtain results w1 where run: "host_run h (zip batch prepared) (scope_locals st) w = (results, w1)"
    by fastforce
  from relation_trans [OF stays_step [OF run_stays run] apply_results_stays] Inr show ?thesis
    by (simp add: run_batch_def run Let_def)
qed (simp add: run_batch_def relation_refl)

lemma run_batches_stays: "R w (snd (run_batches h bs st w))"
proof (induction bs arbitrary: st w)
  case (Cons b bs)
  obtain r w1 where b: "run_batch h b st w = (r, w1)" by fastforce
  with run_batch_stays [of w b st] have "R w w1" by simp
  with Cons relation_trans show ?case by (auto simp: b split: sum.split)
qed (simp add: relation_refl)

lemma graph_round_stays: "R w (snd (graph_round h ns k st w))"
proof -
  obtain r w1 where check: "host_check h w = (r, w1)" by fastforce
  have "R w w1" by (rule stays_step [OF check_stays check])
  with relation_trans [OF this run_batches_stays] show ?thesis
    by (auto simp: graph_round_def check Let_def split: sum.split)
qed

lemma graph_loop_stays: "h' = h \<Longrightarrow> R w (snd (graph_loop h' ns k st w))"
proof (induction h' ns k st w rule: graph_loop.induct)
  case (1 h' ns k st w)
  show ?case
  proof (cases "length (settled st) < length ns")
    case True
    obtain r w1 where round: "graph_round h ns k st w = (r, w1)" by fastforce
    with graph_round_stays [of w ns k st] have step: "R w w1" by simp
    show ?thesis
    proof (cases r)
      case (Inr st')
      from 1(1) [OF True round [folded 1(2), symmetric] Inr] Inr 1(2) True round relation_trans [OF step] show ?thesis
        by (simp add: graph_loop.simps [of h])
    qed (use True round step 1(2) in \<open>simp add: graph_loop.simps [of h]\<close>)
  qed (simp add: graph_loop.simps [of h'] relation_refl)
qed

lemma execute_graph_stays: "stays_in R (execute_graph h k ns e locals)"
  using graph_loop_stays [OF refl]
  by (auto simp: stays_in_def execute_graph_def split: prod.split sum.split) (metis snd_conv)+

end

section \<open>The interpreter\<close>

locale host_frame = world_relation R for R :: "'w \<Rightarrow> 'w \<Rightarrow> bool" +
  fixes nh :: "'w node_host"
  assumes files: "stays_in R (workspace_dir (node_files nh))" "stays_in R (create_dir_all (node_files nh) p)"
      "stays_in R (write_file (node_files nh) p s)" "stays_in R (read_to_string (node_files nh) p)"
      "stays_in R (copy_file (node_files nh) p q)" "stays_in R (rename_file (node_files nh) p q)"
      "stays_in R (put_artifact (node_files nh) s t name)"
    and leaf: "stays_in R (leaf_run nh c scope n inputs)"
    and flags: "stays_in R (fresh_flag nh)" "R w (set_flag nh f w)"
    and store_calls: "stays_in R (durable_delay nh i ms)" "stays_in R (checkpoint_result nh i)"
      "stays_in R (begin_checkpoint nh i status)" "stays_in R (complete_checkpoint nh i saved)"
      "stays_in R (start_span nh i attempt)" "stays_in R (finish_span nh i status err)"
      "stays_in R (record_outcome nh i status message result err)" "stays_in R (store_result nh v)"
    and waiting: "stays_in R (wait_with_control nh c ms)" "stays_in R (check_run nh c)"
begin

lemmas host_stays = files leaf flags(1) store_calls waiting

lemma file_node_stays: "stays_in R (file_node (node_files nh) t inputs)"
  unfolding file_node_def write_text_def read_text_def copy_file_node_def move_file_node_def transfer_file_def
    resolve_path_def create_parent_def require_file_def inline_or_artifact_def
  by (intro stays host_stays)

lemma retry_loop_stays:
  assumes "\<And>k. stays_in R (attempt_run k)" and "\<And>span r. stays_in R (save span r)"
  shows "stays_in R (retry_loop nh c retry scoped attempt_run save attempt left)"
proof (induction left arbitrary: attempt)
  case 0
  show ?case by (simp add: stays_in_def relation_refl)
next
  case (Suc left)
  have step: "stays_in R (\<lambda>w. case attempt_run attempt w of (Inr r, w') \<Rightarrow> save span r w' | (Inl e, w') \<Rightarrow> g e w')"
    if "\<And>e. stays_in R (g e)" for span g
    unfolding stays_in_def
  proof
    fix w
    obtain r w' where run: "attempt_run attempt w = (r, w')" by fastforce
    have "R w w'" by (rule stays_step [OF assms(1) run])
    with that assms(2) relation_trans show
      "R w (snd (case attempt_run attempt w of (Inr r, w') \<Rightarrow> save span r w' | (Inl e, w') \<Rightarrow> g e w'))"
      by (auto simp: run stays_in_def split: sum.split)
  qed
  show ?case by (rule stays_eq [OF retry_loop.simps(2)]) (intro stays host_stays step Suc)
qed

lemma foreach_stays:
  assumes "\<And>index v. stays_in R (item_run index v)"
  shows "stays_in R (foreach_chunks on_error item_run index cs)"
proof (induction cs arbitrary: index)
  case (Cons c cs)
  show ?case
    unfolding stays_in_def
  proof
    fix w
    obtain rs w1 where items: "run_items item_run index c w = (rs, w1)" by fastforce
    have "R w w1" using stays_items [where item_run = item_run, OF assms] by (metis snd_conv items)
    moreover have "stays_in R (sbind (foreach_chunks on_error item_run (index + length c) cs) (\<lambda>us. sreturn (vs @ us)))"
      for vs by (intro stays Cons)
    ultimately show "R w (snd (foreach_chunks on_error item_run index (c # cs) w))"
      using relation_trans by (auto simp: items stays_in_def split: sum.split)
  qed
qed (simp add: stays_in_def relation_refl)

lemma loop_from_stays:
  assumes "\<And>g scope locals. stays_in R (sub g scope locals)"
  shows "stays_in R (loop_from sub scope n body locals iteration left state outs)"
proof (induction left arbitrary: iteration state outs)
  case (Suc left)
  show ?case by (rule stays_eq [OF loop_from.simps(2)]) (intro stays assms Suc)
qed (simp add: stays_in_def relation_refl)

lemma execute_node_stays:
  assumes "\<And>g scope locals. stays_in R (sub g scope locals)"
  shows "stays_in R (execute_node nh ctx sub n inputs locals)"
  unfolding execute_node_def Let_def execute_switch_def execute_foreach_def execute_loop_def
  by (intro stays host_stays file_node_stays foreach_stays loop_from_stays assms)

lemma execute_node_with_retry_stays:
  assumes "\<And>g scope locals. stays_in R (sub g scope locals)"
  shows "stays_in R (execute_node_with_retry nh ctx sub n inputs locals)"
  unfolding execute_node_with_retry_def Let_def
  by (intro stays host_stays retry_loop_stays execute_node_stays assms)

lemma host_of_stays:
  assumes "\<And>g scope locals. stays_in R (sub g scope locals)"
  shows "graph_frame R (host_of nh ctx sub)"
proof
  have worker: "stays_in R (run_worker nh ctx sub locals t)" for locals t
    unfolding stays_in_def
  proof
    fix w
    obtain r w1 where run: "execute_node_with_retry nh ctx sub (fst t) (snd t) locals w = (r, w1)" by fastforce
    have "R w w1" by (rule stays_step [OF execute_node_with_retry_stays [OF assms] run])
    with relation_trans flags(2) show "R w (snd (run_worker nh ctx sub locals t w))"
      by (auto simp: run_worker_def run split: sum.split)
  qed
  show "stays_in R (host_check (host_of nh ctx sub))" by (simp add: host_of_def host_stays)
  show "stays_in R (host_run (host_of nh ctx sub) tasks locals)" for tasks locals
    using stays_tasks [where f = "run_worker nh ctx sub locals" and ts = tasks, OF worker]
    by (auto simp: host_of_def stays_in_def split: prod.split) (metis snd_conv)
  show "stays_in R (host_record (host_of nh ctx sub) n r)" for n r
    by (cases r) (simp_all add: host_of_def record_node_def Let_def host_stays)
qed

lemma run_scope_stays:
  assumes "\<And>ctx g scope locals. stays_in R (sub ctx g scope locals)"
  shows "stays_in R (run_scope nh sub ctx ns e locals)"
  unfolding stays_in_def
proof
  fix w
  obtain flag w0 where flag: "fresh_flag nh w = (flag, w0)" by fastforce
  let ?ctx = "ctx\<lparr>ctx_control := control_fork flag (ctx_control ctx)\<rparr>"
  have "R w w0" by (rule stays_step [OF flags(1) flag])
  moreover have "R w0 (snd (execute_graph (host_of nh ?ctx (sub ?ctx)) (ctx_max_parallel ctx) ns e locals w0))"
    using graph_frame.execute_graph_stays [OF host_of_stays [OF assms]] by (simp add: stays_in_def)
  ultimately show "R w (snd (run_scope nh sub ctx ns e locals w))"
    using relation_trans by (auto simp: run_scope_def flag Let_def split: prod.split sum.split)
qed

lemma run_subgraph_stays: "stays_in R (run_subgraph nh d ctx g scope locals)"
proof (induction d arbitrary: ctx g scope locals)
  case (Suc d)
  show ?case
    using run_scope_stays [where sub = "run_subgraph nh d", OF Suc]
    by (auto simp: stays_in_def split: prod.split sum.split) (metis snd_conv)+
qed (simp add: stays_in_def relation_refl)

lemma execute_nodes_stays:
  "stays_in R (execute_nodes nh plugin_secret control node_limit result_limit depth p)"
  unfolding stays_in_def
proof
  fix w
  have saved: "R v (snd (store_result nh x v))" for v x
    using store_calls(8) by (simp add: stays_in_def)
  define ns where "ns = map planned_node (plan_nodes p)"
  define ctx where "ctx = \<lparr>ctx_control = control, ctx_scope = [],
    ctx_sensitive = list_ex (\<lambda>n. graph_uses_secret plugin_secret [n]) ns,
    ctx_max_parallel = (case max_parallel_nodes (plan_policy p) of None \<Rightarrow> 8 | Some k \<Rightarrow> k),
    ctx_max_result = node_limit\<rparr>"
  obtain r w1 where run: "run_scope nh (run_subgraph nh depth) ctx ns (plan_entry p)
      [(''$input'', input_values p), (''$trigger'', trigger_values p)] w = (r, w1)" by fastforce
  have "R w w1" by (rule stays_step [OF run_scope_stays [OF run_subgraph_stays] run])
  then show "R w (snd (execute_nodes nh plugin_secret control node_limit result_limit depth p w))"
    using relation_trans [OF _ saved]
    by (simp add: execute_nodes_def Let_def run [unfolded ctx_def ns_def] split: sum.split option.split)
qed

end

end
