(* ===== verification/Execution_Store.thy ===== *)
theory Execution_Store
  imports Workflow
begin

text \<open>
  The execution and plugin tables of the store (\<open>src/store.rs\<close>).  A table is the list of its rows
  and an operation is a transaction: it gives a result and a new store, or an error, and then the
  store is the one before (the transaction is rolled back).  Identifiers the code draws at random
  and the time are arguments; timestamps are numbers in the order of the texts the code stores.
  Primary keys, foreign keys and \<open>CHECK\<close> constraints that can fail are branches; failures of
  SQLite itself (I/O, locking) are not modelled.
\<close>

section \<open>Tables\<close>

type_synonym timestamp = nat

record execution_row =
  exec_id :: string
  exec_workflow :: string
  exec_status :: string
  exec_created :: timestamp
  exec_completed :: "timestamp option"
  exec_error :: "string option"
  exec_pinned :: bool

record plan_row =
  plan_execution :: string
  plan_revision :: string
  plan_json :: json
  plan_created :: timestamp

record checkpoint_row =
  cp_execution :: string
  cp_node :: string
  cp_status :: string
  cp_result :: "json option"
  cp_deadline :: "int option"

record span_row =
  span_id :: string
  span_execution :: string
  span_parent :: "string option"
  span_status :: string
  span_completed :: "timestamp option"
  span_error :: "string option"

record reservation_row =
  res_execution :: string
  res_provider :: string
  res_tokens :: nat

record plugin_row =
  plugin_id :: string
  plugin_name :: string
  plugin_version :: string
  plugin_path :: string
  plugin_digest :: string
  plugin_enabled :: bool

record lifecycle_row =
  life_plugin :: string
  life_source :: "string option"
  life_status :: string
  life_failure :: "string option"
  life_requested :: "timestamp option"

record pin_row =
  pin_execution :: string
  pin_plugin :: string
  pin_version :: string
  pin_digest :: string
  pin_path :: string

record workflow_row =
  wf_id :: string
  wf_name :: string
  wf_source :: string
  wf_status :: string
  wf_revision :: string
  wf_updated :: timestamp

record revision_row =
  rev_id :: string
  rev_workflow :: string
  rev_source :: string
  rev_created :: timestamp

record node_run_row =
  nr_execution :: string
  nr_node :: string
  nr_status :: string
  nr_message :: "string option"
  nr_result :: "json option"
  nr_error :: "string option"
  nr_created :: timestamp

record artifact_row =
  art_id :: string
  art_sha256 :: string
  art_size :: nat
  art_media :: string
  art_name :: "string option"
  art_created :: timestamp

record event_row =
  ev_sequence :: nat
  ev_time :: timestamp
  ev_type :: string
  ev_resource :: string
  ev_execution :: "string option"
  ev_payload :: json

record store =
  workflow_rows :: "workflow_row list"
  execution_rows :: "execution_row list"
  plan_rows :: "plan_row list"
  result_rows :: "(string \<times> json) list"
  idempotency_rows :: "(string \<times> string \<times> string) list"
  checkpoint_rows :: "checkpoint_row list"
  deadline_rows :: "(string \<times> int) list"
  reservation_rows :: "reservation_row list"
  span_rows :: "span_row list"
  plugin_rows :: "plugin_row list"
  lifecycle_rows :: "lifecycle_row list"
  removal_rows :: "(string \<times> string) list"
  pin_rows :: "pin_row list"
  event_rows :: "event_row list"
  event_sequence :: nat
  revision_rows :: "revision_row list"
  node_run_rows :: "node_run_row list"
  artifact_rows :: "artifact_row list"
  link_rows :: "(string \<times> string \<times> string) list"

text \<open>\<open>UPDATE ... SET f WHERE p\<close>, and its count of changed rows.\<close>

definition update_rows :: "('a \<Rightarrow> bool) \<Rightarrow> ('a \<Rightarrow> 'a) \<Rightarrow> 'a list \<Rightarrow> 'a list" where
  "update_rows p f = map (\<lambda>x. if p x then f x else x)"

definition count_rows :: "('a \<Rightarrow> bool) \<Rightarrow> 'a list \<Rightarrow> nat" where
  "count_rows p xs = length (filter p xs)"

definition execution_row_of :: "store \<Rightarrow> string \<Rightarrow> execution_row option" where
  "execution_row_of s i = find (\<lambda>e. exec_id e = i) (execution_rows s)"

definition database_error :: "string \<Rightarrow> string" where
  "database_error e = ''Kakune database error: '' @ e"

section \<open>Events\<close>

definition safe_event_keys :: "string list" where
  "safe_event_keys =
     [''workflowId'', ''executionId'', ''nodeId'', ''triggerId'', ''status'', ''previousStatus'',
      ''outcome'', ''revision'', ''workflowRevision'', ''planHash'', ''reasonCode'']"

definition is_scalar :: "json \<Rightarrow> bool" where
  "is_scalar v = (case v of JString _ \<Rightarrow> True | JNumber _ \<Rightarrow> True | JBool _ \<Rightarrow> True | _ \<Rightarrow> False)"

definition sanitize_event_payload :: "json \<Rightarrow> json" where
  "sanitize_event_payload payload =
     (case payload of
        JObject m \<Rightarrow>
          (let safe = filter (\<lambda>(k, v). k \<in> set safe_event_keys \<and> is_scalar v) m in
           JObject
             (if safe = m then safe
              else map_insert ''safetyNotice''
                (JString ''Free-form or unverified event fields were omitted from this snapshot.'') safe))
      | _ \<Rightarrow>
          JObject
            [(''availability'', JString ''unavailable''),
             (''guidance'', JString ''Free-form historical event payload was omitted because its safety cannot be verified.'')])"

definition append_event ::
  "string \<Rightarrow> string \<Rightarrow> string option \<Rightarrow> json \<Rightarrow> timestamp \<Rightarrow> store \<Rightarrow> store" where
  "append_event event_type resource execution payload now s =
     s\<lparr>event_sequence := Suc (event_sequence s),
       event_rows := event_rows s @
         [\<lparr>ev_sequence = Suc (event_sequence s), ev_time = now, ev_type = event_type,
           ev_resource = resource, ev_execution = execution,
           ev_payload = sanitize_event_payload payload\<rparr>]\<rparr>"

section \<open>Updating executions\<close>

text \<open>The trigger \<open>execution_release_plugin_pins\<close>: an execution whose status is set to one of these
  loses its pins.\<close>

definition releasing_statuses :: "string list" where
  "releasing_statuses = [''succeeded'', ''failed'', ''cancelled'', ''timed_out'']"

definition update_execution :: "string \<Rightarrow> (execution_row \<Rightarrow> execution_row) \<Rightarrow> store \<Rightarrow> store" where
  "update_execution i f s =
     (let rows = update_rows (\<lambda>e. exec_id e = i) f (execution_rows s);
          released = list_ex (\<lambda>e. exec_id e = i \<and> exec_status e \<in> set releasing_statuses) rows
      in s\<lparr>execution_rows := rows,
           pin_rows := (if released then filter (\<lambda>p. pin_execution p \<noteq> i) (pin_rows s)
                        else pin_rows s)\<rparr>)"

section \<open>Admission\<close>

definition running_count :: "store \<Rightarrow> string \<Rightarrow> nat" where
  "running_count s w =
     count_rows (\<lambda>e. exec_workflow e = w \<and> exec_status e \<in> {''running'', ''cancelling''})
       (execution_rows s)"

definition queued_count :: "store \<Rightarrow> string \<Rightarrow> nat" where
  "queued_count s w =
     count_rows (\<lambda>e. exec_workflow e = w \<and> exec_status e = ''queued'') (execution_rows s)"

definition execution_admission ::
  "store \<Rightarrow> string \<Rightarrow> concurrency_policy option \<Rightarrow> (string, string) result" where
  "execution_admission s w concurrency_limits =
     (case concurrency_limits of
        None \<Rightarrow> Inr ''running''
      | Some c \<Rightarrow>
          (if running_count s w < (case max_runs c of None \<Rightarrow> u32_max | Some k \<Rightarrow> k)
           then Inr ''running''
           else if overflow c \<noteq> Some Queue
           then Inl (''workflow '' @ w @ '' is at its maxRuns limit'')
           else if (case max_queued c of None \<Rightarrow> 0 | Some k \<Rightarrow> k) \<le> queued_count s w
           then Inl (''workflow '' @ w @ '' queue is full'')
           else Inr ''queued''))"

definition idempotent_execution ::
  "store \<Rightarrow> string \<Rightarrow> string \<Rightarrow> (string, execution_row option) result" where
  "idempotent_execution s key hash =
     (case map_of (idempotency_rows s) key of
        None \<Rightarrow> Inr None
      | Some (previous, i) \<Rightarrow>
          (if previous \<noteq> hash then Inl ''idempotency key already used for a different request''
           else Inr (execution_row_of s i)))"

definition lifecycle_of :: "store \<Rightarrow> string \<Rightarrow> lifecycle_row option" where
  "lifecycle_of s p = find (\<lambda>l. life_plugin l = p) (lifecycle_rows s)"

definition plugin_active :: "store \<Rightarrow> string \<Rightarrow> bool" where
  "plugin_active s p = list_ex (\<lambda>l. life_plugin l = p \<and> life_status l = ''active'') (lifecycle_rows s)"

definition ensure_workflow_not_blocked :: "store \<Rightarrow> string \<Rightarrow> (string, unit) result" where
  "ensure_workflow_not_blocked s w =
     require
       (\<not> list_ex (\<lambda>(p, v). v = w \<and>
            list_ex (\<lambda>l. life_plugin l = p \<and> life_status l \<in> {''pending removal'', ''removal failed''})
              (lifecycle_rows s)) (removal_rows s))
       (''workflow '' @ w @ '' depends on a plugin pending removal'')"

text \<open>A requirement: a plugin, and optionally the version, path and digest it must have.\<close>

type_synonym plugin_requirement = "string \<times> string option \<times> string option \<times> string option"

definition matches :: "string option \<Rightarrow> string \<Rightarrow> bool" where
  "matches wanted x = (case wanted of None \<Rightarrow> True | Some y \<Rightarrow> x = y)"

definition pin_exists :: "store \<Rightarrow> string \<Rightarrow> string \<Rightarrow> bool" where
  "pin_exists s i p = list_ex (\<lambda>x. pin_execution x = i \<and> pin_plugin x = p) (pin_rows s)"

text \<open>\<open>INSERT ... SELECT\<close> from the enabled, active plugins that match, unless the pin exists.\<close>

definition insert_pin :: "string \<Rightarrow> plugin_requirement \<Rightarrow> store \<Rightarrow> store" where
  "insert_pin i = (\<lambda>(p, version, manifest, digest) s.
     (case find (\<lambda>r. plugin_id r = p \<and> plugin_enabled r \<and> plugin_active s p \<and> matches version (plugin_version r)
               \<and> matches manifest (plugin_path r) \<and> matches digest (plugin_digest r)) (plugin_rows s) of
        None \<Rightarrow> s
      | Some r \<Rightarrow>
          (if pin_exists s i p then s
           else s\<lparr>pin_rows := pin_rows s @
             [\<lparr>pin_execution = i, pin_plugin = p, pin_version = plugin_version r,
               pin_digest = plugin_digest r, pin_path = plugin_path r\<rparr>]\<rparr>)))"

fun pin_plugins :: "string \<Rightarrow> plugin_requirement list \<Rightarrow> store \<Rightarrow> (string, store) result" where
  "pin_plugins i [] s = Inr s"
| "pin_plugins i (r # rs) s =
     (let s' = insert_pin i r s in
      if pin_exists s' i (fst r) then pin_plugins i rs s'
      else Inl (''plugin '' @ fst r @ '' is unavailable or pending removal''))"

definition new_execution :: "string \<Rightarrow> string \<Rightarrow> string \<Rightarrow> timestamp \<Rightarrow> execution_row" where
  "new_execution i w status now =
     \<lparr>exec_id = i, exec_workflow = w, exec_status = status, exec_created = now,
      exec_completed = None, exec_error = None, exec_pinned = False\<rparr>"

definition insert_execution :: "execution_row \<Rightarrow> store \<Rightarrow> (string, store) result" where
  "insert_execution e s =
     (if exec_id e \<in> exec_id ` set (execution_rows s)
      then Inl (database_error ''UNIQUE constraint failed: executions.id'')
      else Inr (s\<lparr>execution_rows := execution_rows s @ [e]\<rparr>))"

definition started_payload :: "string \<Rightarrow> string \<Rightarrow> json" where
  "started_payload w status = JObject [(''status'', JString status), (''workflowId'', JString w)]"

definition create_execution ::
  "string \<Rightarrow> timestamp \<Rightarrow> string \<Rightarrow> store \<Rightarrow> (string, execution_row \<times> store) result" where
  "create_execution i now w s =
     (let e = new_execution i w ''running'' now in
      rbind (insert_execution e s) (\<lambda>s1.
        Inr (e, append_event ''execution.started'' w (Some i) (started_payload w ''running'') now s1)))"

text \<open>The checks on the workflow an execution is admitted for.\<close>

definition check_current :: "store \<Rightarrow> string \<Rightarrow> string \<Rightarrow> bool \<Rightarrow> (string, unit) result" where
  "check_current s w revision require_enabled =
     (case find (\<lambda>r. wf_id r = w) (workflow_rows s) of
        None \<Rightarrow> Inl (''workflow '' @ w @ '' was not found'')
      | Some r \<Rightarrow>
          (if wf_revision r \<noteq> revision
           then Inl (''workflow revision conflict; current revision is '' @ wf_revision r)
           else if require_enabled \<and> wf_status r \<noteq> ''enabled''
           then Inl (''workflow '' @ w @ '' is not enabled'')
           else ensure_workflow_not_blocked s w))"

text \<open>The rows of the plan and of the request identity.\<close>

definition save_plan ::
  "string \<Rightarrow> timestamp \<Rightarrow> string \<Rightarrow> json \<Rightarrow> (string \<times> string) option \<Rightarrow> store
   \<Rightarrow> (string, store) result" where
  "save_plan i now revision plan identity s =
     (let s' = s\<lparr>plan_rows := plan_rows s @
            [\<lparr>plan_execution = i, plan_revision = revision, plan_json = plan, plan_created = now\<rparr>]\<rparr>
      in (case identity of
            None \<Rightarrow> Inr s'
          | Some (key, hash) \<Rightarrow>
              (if key \<in> fst ` set (idempotency_rows s)
               then Inl (database_error ''UNIQUE constraint failed: execution_idempotency.request_key'')
               else Inr (s'\<lparr>idempotency_rows := idempotency_rows s @ [(key, hash, i)]\<rparr>))))"

definition started_event :: "string \<Rightarrow> string" where
  "started_event status = (if status = ''queued'' then ''execution.queued'' else ''execution.started'')"

text \<open>\<open>create_execution_with_plan_guarded\<close>; \<open>decode\<close> reads the policy of a plan.  The result
  tells whether the execution is new.\<close>

definition create_execution_with_plan_guarded ::
  "(json \<Rightarrow> (string, workflow_policy) result) \<Rightarrow> string \<Rightarrow> timestamp \<Rightarrow> string \<Rightarrow> string \<Rightarrow> json
   \<Rightarrow> (string \<times> string) option \<Rightarrow> bool \<times> bool \<Rightarrow> plugin_requirement list \<Rightarrow> store
   \<Rightarrow> (string, (execution_row \<times> bool) \<times> store) result" where
  "create_execution_with_plan_guarded decode i now w revision plan identity requirements plugins s =
     rbind (decode plan) (\<lambda>pol.
       rbind (case identity of None \<Rightarrow> Inr None | Some (key, hash) \<Rightarrow> idempotent_execution s key hash)
         (\<lambda>previous.
           (case previous of
              Some e \<Rightarrow> Inr ((e, False), s)
            | None \<Rightarrow>
                rbind (if fst requirements then check_current s w revision (snd requirements) else Inr ())
                  (\<lambda>_. rbind (execution_admission s w (concurrency pol)) (\<lambda>status.
                    let e = new_execution i w status now in
                    rbind (insert_execution e s) (\<lambda>s1.
                      rbind (pin_plugins i plugins s1) (\<lambda>s2.
                        rbind (save_plan i now revision plan identity s2) (\<lambda>s3.
                          Inr ((e, True),
                            append_event (started_event status) w (Some i) (started_payload w status)
                              now s3)))))))))"

definition admit_plan_with_plugin_versions ::
  "(json \<Rightarrow> (string, workflow_policy) result) \<Rightarrow> string \<Rightarrow> timestamp \<Rightarrow> string \<Rightarrow> string \<Rightarrow> json
   \<Rightarrow> (string \<times> string \<times> string \<times> string) list \<Rightarrow> (string \<times> string) option \<Rightarrow> bool \<Rightarrow> store
   \<Rightarrow> (string, (execution_row \<times> bool) \<times> store) result" where
  "admit_plan_with_plugin_versions decode i now w revision plan versions identity require_enabled s =
     (if 10000 < length versions then Inl ''too many plugin references''
      else create_execution_with_plan_guarded decode i now w revision plan identity
        (True, require_enabled)
        (map (\<lambda>(p, version, manifest, digest). (p, Some version, Some manifest, Some digest)) versions) s)"

definition claim_execution_slot ::
  "string \<Rightarrow> timestamp \<Rightarrow> nat option \<Rightarrow> store \<Rightarrow> bool \<times> store" where
  "claim_execution_slot i now limit s =
     (case find (\<lambda>e. exec_id e = i \<and> exec_status e = ''queued'') (execution_rows s) of
        None \<Rightarrow> (False, s)
      | Some e \<Rightarrow>
          (let w = exec_workflow e in
           if (case limit of None \<Rightarrow> True | Some k \<Rightarrow> running_count s w < k)
           then (True, append_event ''execution.started'' w (Some i) (started_payload w ''running'') now
                  (update_execution i
                     (\<lambda>e. if exec_status e = ''queued'' then e\<lparr>exec_status := ''running''\<rparr> else e) s))
           else (False, s)))"

section \<open>Finishing, cancelling and recovering\<close>

definition live_statuses :: "string list" where
  "live_statuses = [''queued'', ''running'', ''cancelling'']"

definition close_spans :: "string \<Rightarrow> string \<Rightarrow> timestamp \<Rightarrow> string \<Rightarrow> store \<Rightarrow> store" where
  "close_spans i status now err s =
     s\<lparr>span_rows := update_rows (\<lambda>x. span_execution x = i \<and> span_status x = ''running'')
         (\<lambda>x. x\<lparr>span_status := status, span_completed := Some now, span_error := Some err\<rparr>)
         (span_rows s)\<rparr>"

definition option_json :: "string option \<Rightarrow> json" where
  "option_json x = (case x of None \<Rightarrow> JNull | Some v \<Rightarrow> JString v)"

text \<open>After a transition the source also starts the file-system side of pending plugin removals.\<close>

definition finish_execution ::
  "string \<Rightarrow> timestamp \<Rightarrow> string \<Rightarrow> string option \<Rightarrow> store \<Rightarrow> (string, store) result" where
  "finish_execution i now status err s =
     (case execution_row_of s i of
        None \<Rightarrow> Inl (''execution '' @ i @ '' was not found'')
      | Some e \<Rightarrow>
          (if exec_status e \<notin> set live_statuses then Inr s
           else Inr
             (append_event ''execution.finished'' (exec_workflow e) (Some i)
                (JObject [(''error'', option_json err), (''status'', JString status)]) now
                (close_spans i (if status = ''failed'' then ''failed'' else ''cancelled'') now
                   (case err of None \<Rightarrow> ''Execution ended before this span was closed''
                      | Some m \<Rightarrow> m)
                   (update_execution i
                      (\<lambda>e. if exec_status e \<in> set live_statuses
                        then e\<lparr>exec_status := status, exec_completed := Some now, exec_error := err\<rparr>
                        else e) s)))))"

definition uncertain_statuses :: "string list" where
  "uncertain_statuses = [''running'', ''unrecoverable'']"

definition resumable :: "store \<Rightarrow> string \<Rightarrow> bool" where
  "resumable s i =
     (list_ex (\<lambda>p. plan_execution p = i) (plan_rows s)
      \<and> \<not> list_ex (\<lambda>c. cp_execution c = i \<and> cp_status c \<in> set uncertain_statuses) (checkpoint_rows s))"

definition recovered_status :: "store \<Rightarrow> execution_row \<Rightarrow> string \<times> string option" where
  "recovered_status s e =
     (if exec_status e = ''cancelling'' then (''cancelled'', None)
      else if resumable s (exec_id e) then (''queued'', None)
      else (''interrupted'', Some ''Core restarted during an operation with uncertain effects''))"

definition recover_execution :: "timestamp \<Rightarrow> execution_row \<Rightarrow> store \<Rightarrow> store" where
  "recover_execution now e s =
     (case recovered_status s e of
        (status, err) \<Rightarrow>
          append_event ''execution.recovered'' (exec_workflow e) (Some (exec_id e))
            (JObject [(''previousStatus'', JString (exec_status e)), (''status'', JString status)]) now
            (close_spans (exec_id e) ''cancelled'' now ''Core restarted''
               (update_execution (exec_id e)
                  (\<lambda>r. r\<lparr>exec_status := status,
                         exec_completed := (if status = ''queued'' then None else Some now),
                         exec_error := err\<rparr>) s)))"

definition interrupted_rows :: "store \<Rightarrow> execution_row list" where
  "interrupted_rows s =
     filter (\<lambda>e. exec_status e \<in> {''running'', ''cancelling''}) (execution_rows s)"

definition recover_incomplete_executions :: "timestamp \<Rightarrow> store \<Rightarrow> nat \<times> store" where
  "recover_incomplete_executions now s =
     (length (interrupted_rows s), fold (recover_execution now) (interrupted_rows s) s)"

definition request_execution_cancel :: "string \<Rightarrow> store \<Rightarrow> bool \<times> store" where
  "request_execution_cancel i s =
     (case execution_row_of s i of
        None \<Rightarrow> (False, s)
      | Some e \<Rightarrow>
          (if exec_status e \<in> {''queued'', ''running''}
           then (True, update_execution i (\<lambda>r. r\<lparr>exec_status :=
                   (if exec_status r = ''queued'' then ''cancelled'' else ''cancelling'')\<rparr>) s)
           else (False, s)))"

datatype cancellation_outcome =
  Requested string | AlreadyRequested string | CancelledBeforeStart string
  | TerminalUnchanged string | NotFound

definition request_execution_cancel_outcome ::
  "string \<Rightarrow> timestamp \<Rightarrow> store \<Rightarrow> cancellation_outcome \<times> store" where
  "request_execution_cancel_outcome i now s =
     (case execution_row_of s i of
        None \<Rightarrow> (NotFound, s)
      | Some e \<Rightarrow>
          (if exec_status e = ''queued''
           then (CancelledBeforeStart ''cancelled'',
             append_event ''execution.cancelled'' (exec_workflow e) (Some i)
               (JObject [(''outcome'', JString ''cancelled_before_start''), (''status'', JString ''cancelled'')])
               now (update_execution i
                 (\<lambda>r. r\<lparr>exec_status := ''cancelled'', exec_completed := Some now\<rparr>) s))
           else if exec_status e = ''running''
           then (Requested ''cancelling'',
             append_event ''execution.cancel.requested'' (exec_workflow e) (Some i)
               (JObject [(''outcome'', JString ''requested''), (''status'', JString ''cancelling'')])
               now (update_execution i (\<lambda>r. r\<lparr>exec_status := ''cancelling''\<rparr>) s))
           else if exec_status e = ''cancelling'' then (AlreadyRequested (exec_status e), s)
           else (TerminalUnchanged (exec_status e), s)))"

definition cancel_queued_execution :: "string \<Rightarrow> timestamp \<Rightarrow> store \<Rightarrow> bool \<times> store" where
  "cancel_queued_execution i now s =
     (case execution_row_of s i of
        None \<Rightarrow> (False, s)
      | Some e \<Rightarrow>
          (if exec_status e = ''queued''
           then (True, update_execution i
             (\<lambda>r. r\<lparr>exec_status := ''cancelled'', exec_completed := Some now\<rparr>) s)
           else (False, s)))"

definition execution_cancel_requested :: "store \<Rightarrow> string \<Rightarrow> bool" where
  "execution_cancel_requested s i =
     (case execution_row_of s i of
        None \<Rightarrow> False | Some e \<Rightarrow> exec_status e \<in> {''cancelling'', ''cancelled''})"

definition set_execution_pinned :: "string \<Rightarrow> bool \<Rightarrow> store \<Rightarrow> bool \<times> store" where
  "set_execution_pinned i b s =
     (execution_row_of s i \<noteq> None,
      s\<lparr>execution_rows := update_rows (\<lambda>e. exec_id e = i) (\<lambda>e. e\<lparr>exec_pinned := b\<rparr>)
          (execution_rows s)\<rparr>)"

text \<open>The deletion of \<open>apply_retention\<close>: old finished executions that are not pinned go, with every row
  that refers to them (\<open>ON DELETE CASCADE\<close>), and old events.\<close>

definition apply_retention :: "timestamp \<Rightarrow> timestamp \<Rightarrow> store \<Rightarrow> store" where
  "apply_retention execution_before event_before s =
     (let old = (\<lambda>e. (case exec_completed e of None \<Rightarrow> False | Some t \<Rightarrow> t < execution_before)
                  \<and> \<not> exec_pinned e);
          gone = map exec_id (filter old (execution_rows s));
          keep = (\<lambda>i. i \<notin> set gone)
      in s\<lparr>execution_rows := filter (\<lambda>e. \<not> old e) (execution_rows s),
           plan_rows := filter (keep \<circ> plan_execution) (plan_rows s),
           result_rows := filter (keep \<circ> fst) (result_rows s),
           idempotency_rows := filter (\<lambda>(key, hash, i). keep i) (idempotency_rows s),
           checkpoint_rows := filter (keep \<circ> cp_execution) (checkpoint_rows s),
           deadline_rows := filter (keep \<circ> fst) (deadline_rows s),
           reservation_rows := filter (keep \<circ> res_execution) (reservation_rows s),
           span_rows := filter (keep \<circ> span_execution) (span_rows s),
           pin_rows := filter (keep \<circ> pin_execution) (pin_rows s),
           event_rows := filter (\<lambda>e. event_before \<le> ev_time e) (event_rows s),
           node_run_rows := filter (keep \<circ> nr_execution) (node_run_rows s),
           link_rows := filter (keep \<circ> fst) (link_rows s)\<rparr>)"

section \<open>Checkpoints, deadlines, results and budgets\<close>

text \<open>The rows of these tables refer to an execution (foreign key).\<close>

definition require_execution :: "store \<Rightarrow> string \<Rightarrow> (string, unit) result" where
  "require_execution s i =
     require (execution_row_of s i \<noteq> None) (database_error ''FOREIGN KEY constraint failed'')"

definition is_checkpoint :: "string \<Rightarrow> string \<Rightarrow> checkpoint_row \<Rightarrow> bool" where
  "is_checkpoint i n c = (cp_execution c = i \<and> cp_node c = n)"

definition checkpoint_result_of :: "store \<Rightarrow> string \<Rightarrow> string \<Rightarrow> json option" where
  "checkpoint_result_of s i n =
     Option.bind (find (\<lambda>c. is_checkpoint i n c \<and> cp_status c = ''completed'') (checkpoint_rows s))
       cp_result"

definition begin_checkpoint_row ::
  "string \<Rightarrow> string \<Rightarrow> string \<Rightarrow> store \<Rightarrow> (string, store) result" where
  "begin_checkpoint_row i n status s =
     rbind (require_execution s i) (\<lambda>_.
       Inr (s\<lparr>checkpoint_rows :=
         (if list_ex (is_checkpoint i n) (checkpoint_rows s)
          then update_rows (is_checkpoint i n) (\<lambda>c. c\<lparr>cp_status := status\<rparr>) (checkpoint_rows s)
          else checkpoint_rows s @
            [\<lparr>cp_execution = i, cp_node = n, cp_status = status, cp_result = None,
              cp_deadline = None\<rparr>])\<rparr>))"

definition complete_checkpoint_row :: "string \<Rightarrow> string \<Rightarrow> json option \<Rightarrow> store \<Rightarrow> store" where
  "complete_checkpoint_row i n r s =
     s\<lparr>checkpoint_rows := update_rows (is_checkpoint i n)
         (\<lambda>c. c\<lparr>cp_status := (if r = None then ''unrecoverable'' else ''completed''), cp_result := r\<rparr>)
         (checkpoint_rows s)\<rparr>"

definition i64_max :: int where "i64_max = 2 ^ 63 - 1"

text \<open>The time left until a deadline, in milliseconds; the first call of a delay sets its deadline.\<close>

definition remaining_ms :: "int \<Rightarrow> int \<Rightarrow> nat" where
  "remaining_ms deadline_ms now_ms = nat (max 0 (deadline_ms - now_ms))"

definition durable_delay_remaining ::
  "string \<Rightarrow> string \<Rightarrow> int \<Rightarrow> nat \<Rightarrow> store \<Rightarrow> (string, nat \<times> store) result" where
  "durable_delay_remaining i n now_ms duration s =
     (if i64_max < now_ms + int duration then Inl ''delay deadline overflow''
      else
        (let rows = update_rows (is_checkpoint i n)
               (\<lambda>c. c\<lparr>cp_deadline := Some (case cp_deadline c of None \<Rightarrow> now_ms + int duration | Some d \<Rightarrow> d),
                      cp_status := ''waiting''\<rparr>) (checkpoint_rows s)
         in (case Option.bind (find (is_checkpoint i n) rows) cp_deadline of
               None \<Rightarrow> Inl (database_error ''Query returned no rows'')
             | Some d \<Rightarrow> Inr (remaining_ms d now_ms, s\<lparr>checkpoint_rows := rows\<rparr>))))"

definition execution_time_remaining ::
  "string \<Rightarrow> int \<Rightarrow> nat \<Rightarrow> store \<Rightarrow> (string, nat \<times> store) result" where
  "execution_time_remaining i now_ms duration s =
     (if i64_max < now_ms + int duration then Inl ''execution deadline overflow''
      else (case map_of (deadline_rows s) i of
          Some d \<Rightarrow> Inr (remaining_ms d now_ms, s)
        | None \<Rightarrow>
            rbind (require_execution s i) (\<lambda>_.
              Inr (remaining_ms (now_ms + int duration) now_ms,
                   s\<lparr>deadline_rows := deadline_rows s @ [(i, now_ms + int duration)]\<rparr>))))"

definition set_execution_result :: "string \<Rightarrow> json \<Rightarrow> store \<Rightarrow> (string, store) result" where
  "set_execution_result i r s =
     rbind (require_execution s i) (\<lambda>_.
       Inr (s\<lparr>result_rows :=
         (if i \<in> fst ` set (result_rows s)
          then update_rows (\<lambda>x. fst x = i) (\<lambda>x. (i, r)) (result_rows s)
          else result_rows s @ [(i, r)])\<rparr>))"

definition reserved_tokens :: "store \<Rightarrow> string \<Rightarrow> string \<Rightarrow> nat" where
  "reserved_tokens s i provider =
     sum_list (map res_tokens
       (filter (\<lambda>r. res_execution r = i \<and> res_provider r = provider) (reservation_rows s)))"

text \<open>The sum is taken in \<open>i64\<close>: SQLite reports an overflow of the rows, the addition of the new tokens
  saturates, as does a budget beyond the range.\<close>

definition reserve_provider_tokens ::
  "string \<Rightarrow> string \<Rightarrow> nat \<Rightarrow> nat option \<Rightarrow> store \<Rightarrow> (string, store) result" where
  "reserve_provider_tokens i provider tokens budget s =
     (if i64_max < int tokens then Inl ''AI token reservation exceeds SQLite integer range''
      else if i64_max < int (reserved_tokens s i provider) then Inl (database_error ''integer overflow'')
      else if (case budget of None \<Rightarrow> False
        | Some limit \<Rightarrow>
            min (int (reserved_tokens s i provider + tokens)) i64_max > min (int limit) i64_max)
      then Inl (''AI token budget for provider '' @ provider
                @ '' would be exceeded before the provider request'')
      else if tokens = 0 then Inl (database_error ''CHECK constraint failed: reserved_tokens > 0'')
      else rbind (require_execution s i) (\<lambda>_.
        Inr (s\<lparr>reservation_rows := reservation_rows s @
          [\<lparr>res_execution = i, res_provider = provider, res_tokens = tokens\<rparr>]\<rparr>)))"

definition start_trace_span ::
  "string \<Rightarrow> string \<Rightarrow> string option \<Rightarrow> string \<Rightarrow> store \<Rightarrow> (string, store) result" where
  "start_trace_span x i parent span_kind s =
     (if span_kind \<notin> {''node'', ''provider'', ''tool''}
      then Inl (database_error ''CHECK constraint failed: kind'')
      else if x \<in> span_id ` set (span_rows s)
      then Inl (database_error ''UNIQUE constraint failed: execution_trace_spans.id'')
      else if (case parent of None \<Rightarrow> False | Some p \<Rightarrow> p \<notin> span_id ` set (span_rows s))
      then Inl (database_error ''FOREIGN KEY constraint failed'')
      else rbind (require_execution s i) (\<lambda>_.
        Inr (s\<lparr>span_rows := span_rows s @
          [\<lparr>span_id = x, span_execution = i, span_parent = parent, span_status = ''running'',
            span_completed = None, span_error = None\<rparr>]\<rparr>)))"

definition finish_trace_span ::
  "string \<Rightarrow> string \<Rightarrow> timestamp \<Rightarrow> string option \<Rightarrow> store \<Rightarrow> (string, store) result" where
  "finish_trace_span x status now err s =
     (if x \<in> span_id ` set (span_rows s) \<and> status \<notin> {''running'', ''succeeded'', ''failed'', ''cancelled''}
      then Inl (database_error ''CHECK constraint failed: status'')
      else Inr (s\<lparr>span_rows := update_rows (\<lambda>r. span_id r = x)
        (\<lambda>r. r\<lparr>span_status := status, span_completed := Some now, span_error := err\<rparr>) (span_rows s)\<rparr>))"

section \<open>Plugins\<close>

text \<open>\<open>upsert_plugin_install_with_source\<close>; \<open>source_ok\<close> is \<open>validate_plugin_source\<close>, which parses
  URLs.  A new plugin gets its lifecycle row from a trigger.\<close>

definition publish_plugin :: "plugin_row \<Rightarrow> store \<Rightarrow> store" where
  "publish_plugin r s =
     (if plugin_id r \<in> plugin_id ` set (plugin_rows s)
      then s\<lparr>plugin_rows := update_rows (\<lambda>x. plugin_id x = plugin_id r) (\<lambda>_. r) (plugin_rows s)\<rparr>
      else s\<lparr>plugin_rows := plugin_rows s @ [r],
        lifecycle_rows := lifecycle_rows s @
          [\<lparr>life_plugin = plugin_id r, life_source = None, life_status = ''active'',
            life_failure = None, life_requested = None\<rparr>]\<rparr>)"

definition upsert_plugin_install_with_source ::
  "(string \<Rightarrow> (string, unit) result) \<Rightarrow> plugin_row \<Rightarrow> string option \<Rightarrow> store \<Rightarrow> (string, store) result" where
  "upsert_plugin_install_with_source source_ok r source s =
     rbind (case source of None \<Rightarrow> Inr () | Some x \<Rightarrow> source_ok x) (\<lambda>_.
       let p = plugin_id r;
           active = (\<lambda>l. life_plugin l = p \<and> life_status l = ''active'')
       in if p \<in> plugin_id ` set (plugin_rows s)
            \<and> (\<not> plugin_active s p \<or> list_ex (\<lambda>x. pin_plugin x = p) (pin_rows s))
          then Inl ''plugin is in use or pending removal''
          else
            (let s1 = publish_plugin r s in
             (case source of
                None \<Rightarrow> Inr s1
              | Some x \<Rightarrow>
                  (if count_rows active (lifecycle_rows s1) \<noteq> 1
                   then Inl ''plugin lifecycle is unavailable for source publication''
                   else Inr (s1\<lparr>lifecycle_rows :=
                     update_rows active (\<lambda>l. l\<lparr>life_source := Some x\<rparr>) (lifecycle_rows s1)\<rparr>)))))"

fun acquire_each :: "string \<Rightarrow> string list \<Rightarrow> store \<Rightarrow> (string, store) result" where
  "acquire_each i [] s = Inr s"
| "acquire_each i (p # ps) s =
     (let s' = insert_pin i (p, None, None, None) s in
      if list_ex (\<lambda>r. plugin_id r = p \<and> plugin_enabled r) (plugin_rows s) \<and> plugin_active s p
      then acquire_each i ps s'
      else Inl (''plugin '' @ p @ '' is unavailable or pending removal''))"

definition acquire_plugin_uses :: "string \<Rightarrow> string list \<Rightarrow> store \<Rightarrow> (string, store) result" where
  "acquire_plugin_uses i ps s =
     (if 10000 < length ps then Inl ''too many plugin references''
      else if (case execution_row_of s i of None \<Rightarrow> True
        | Some e \<Rightarrow> exec_status e \<notin> set (live_statuses @ [''recoverable'']))
      then Inl ''execution is absent or cannot acquire plugin use''
      else acquire_each i ps s)"

fun block_workflows :: "string \<Rightarrow> timestamp \<Rightarrow> string list \<Rightarrow> store \<Rightarrow> (string, store) result" where
  "block_workflows p now [] s = Inr s"
| "block_workflows p now (w # ws) s =
     (if w \<notin> wf_id ` set (workflow_rows s) then Inl (''workflow '' @ w @ '' was not found'')
      else block_workflows p now ws
        (s\<lparr>workflow_rows := update_rows (\<lambda>r. wf_id r = w)
             (\<lambda>r. r\<lparr>wf_status := ''disabled'', wf_updated := now\<rparr>) (workflow_rows s),
           removal_rows := List.insert (p, w) (removal_rows s)\<rparr>))"

text \<open>The result is the number of executions that still pin the plugin.\<close>

definition request_plugin_removal ::
  "string \<Rightarrow> timestamp \<Rightarrow> string list \<Rightarrow> store \<Rightarrow> (string, nat \<times> store) result" where
  "request_plugin_removal p now ws s =
     (if 10000 < length ws then Inl ''too many dependent workflows''
      else if p \<notin> life_plugin ` set (lifecycle_rows s)
      then Inl (''plugin '' @ p @ '' is not installed'')
      else rbind (block_workflows p now ws
             (s\<lparr>lifecycle_rows := update_rows (\<lambda>l. life_plugin l = p)
                  (\<lambda>l. l\<lparr>life_status := ''pending removal'', life_failure := None,
                         life_requested := (case life_requested l of None \<Rightarrow> Some now | r \<Rightarrow> r)\<rparr>)
                  (lifecycle_rows s),
                plugin_rows := update_rows (\<lambda>r. plugin_id r = p) (\<lambda>r. r\<lparr>plugin_enabled := False\<rparr>)
                  (plugin_rows s)\<rparr>))
           (\<lambda>s'. Inr (count_rows (\<lambda>x. pin_plugin x = p) (pin_rows s'), s')))"

definition mark_plugin_removal_failed :: "string \<Rightarrow> string \<Rightarrow> store \<Rightarrow> (string, store) result" where
  "mark_plugin_removal_failed p details s =
     (if details = [] \<or> 256 < length details
        \<or> \<not> list_all (\<lambda>c. is_ascii_alphanumeric c \<or> c \<in> set '' -_.'') details
      then Inl ''invalid plugin removal failure category''
      else if \<not> list_ex (\<lambda>l. life_plugin l = p \<and> life_status l = ''pending removal'') (lifecycle_rows s)
      then Inl ''plugin removal is not pending''
      else Inr (s\<lparr>lifecycle_rows :=
        update_rows (\<lambda>l. life_plugin l = p \<and> life_status l = ''pending removal'')
          (\<lambda>l. l\<lparr>life_status := ''removal failed'', life_failure := Some details\<rparr>)
          (lifecycle_rows s)\<rparr>))"

definition resume_plugin_removal :: "string \<Rightarrow> store \<Rightarrow> bool \<times> store" where
  "resume_plugin_removal p s =
     (let failed = (\<lambda>l. life_plugin l = p \<and> life_status l = ''removal failed'') in
      (list_ex failed (lifecycle_rows s),
       s\<lparr>lifecycle_rows := update_rows failed
           (\<lambda>l. l\<lparr>life_status := ''pending removal'', life_failure := None\<rparr>) (lifecycle_rows s)\<rparr>))"

text \<open>Deleting a plugin deletes its lifecycle row, and that one its removal rows; a pin would make it
  fail, but both callers check for pins first.\<close>

definition delete_plugin :: "string \<Rightarrow> store \<Rightarrow> store" where
  "delete_plugin p s =
     s\<lparr>plugin_rows := filter (\<lambda>r. plugin_id r \<noteq> p) (plugin_rows s),
       lifecycle_rows := filter (\<lambda>l. life_plugin l \<noteq> p) (lifecycle_rows s),
       removal_rows := filter (\<lambda>(q, w). q \<noteq> p) (removal_rows s)\<rparr>"

definition finalize_plugin_removal ::
  "string \<Rightarrow> store \<Rightarrow> (string, plugin_row option \<times> store) result" where
  "finalize_plugin_removal p s =
     (case lifecycle_of s p of
        None \<Rightarrow> Inr (None, s)
      | Some l \<Rightarrow>
          (if life_status l \<noteq> ''pending removal''
           then Inl (''plugin removal is not pending (status: '' @ life_status l @ '')'')
           else if list_ex (\<lambda>x. pin_plugin x = p) (pin_rows s)
           then Inl ''plugin is still pinned by an execution''
           else (case find (\<lambda>r. plugin_id r = p) (plugin_rows s) of
                   None \<Rightarrow> Inl ''pending plugin removal has no installation record''
                 | Some r \<Rightarrow> Inr (Some r, delete_plugin p s))))"

definition remove_plugin_install ::
  "string \<Rightarrow> store \<Rightarrow> (string, plugin_row option \<times> store) result" where
  "remove_plugin_install p s =
     (case find (\<lambda>r. plugin_id r = p) (plugin_rows s) of
        None \<Rightarrow> Inr (None, s)
      | Some r \<Rightarrow>
          (if list_ex (\<lambda>l. life_plugin l = p \<and> life_status l \<noteq> ''active'') (lifecycle_rows s)
             \<or> list_ex (\<lambda>x. pin_plugin x = p) (pin_rows s)
           then Inl ''plugin is in use or has a pending removal; use coordinated finalization''
           else Inr (Some r, delete_plugin p s)))"

definition set_plugin_enabled :: "string \<Rightarrow> bool \<Rightarrow> store \<Rightarrow> (string, bool \<times> store) result" where
  "set_plugin_enabled p b s =
     (let known = p \<in> plugin_id ` set (plugin_rows s);
          allowed = (\<not> b \<or> plugin_active s p)
      in if known \<and> allowed
         then Inr (True, s\<lparr>plugin_rows := update_rows (\<lambda>r. plugin_id r = p)
                           (\<lambda>r. r\<lparr>plugin_enabled := b\<rparr>) (plugin_rows s)\<rparr>)
         else if b \<and> known then Inl ''plugin is pending removal'' else Inr (False, s))"

section \<open>Workflows\<close>

text \<open>\<open>triggers_ok\<close> is \<open>validate_enabled_triggers\<close> of the scheduler.  Every change of a source gets a
  new revision, a row of \<open>workflow_revisions\<close>.\<close>

definition workflow_of :: "store \<Rightarrow> string \<Rightarrow> workflow_row option" where
  "workflow_of s w = find (\<lambda>r. wf_id r = w) (workflow_rows s)"

definition insert_revision :: "revision_row \<Rightarrow> store \<Rightarrow> (string, store) result" where
  "insert_revision r s =
     (if rev_id r \<in> rev_id ` set (revision_rows s)
      then Inl (database_error ''UNIQUE constraint failed: workflow_revisions.id'')
      else Inr (s\<lparr>revision_rows := revision_rows s @ [r]\<rparr>))"

definition workflow_payload :: "workflow_row \<Rightarrow> json" where
  "workflow_payload r =
     JObject [(''name'', JString (wf_name r)), (''revision'', JString (wf_revision r)),
              (''status'', JString (wf_status r))]"

definition new_workflow :: "workflow_document \<Rightarrow> string \<Rightarrow> string \<Rightarrow> string \<Rightarrow> timestamp \<Rightarrow> workflow_row" where
  "new_workflow doc source status revision now =
     \<lparr>wf_id = meta_id (metadata doc), wf_name = meta_name (metadata doc), wf_source = source,
      wf_status = status, wf_revision = revision, wf_updated = now\<rparr>"

definition revision_of :: "workflow_row \<Rightarrow> revision_row" where
  "revision_of r =
     \<lparr>rev_id = wf_revision r, rev_workflow = wf_id r, rev_source = wf_source r, rev_created = wf_updated r\<rparr>"

definition check_triggers ::
  "(workflow_document \<Rightarrow> (string, unit) result) \<Rightarrow> workflow_document \<Rightarrow> string \<Rightarrow> (string, unit) result" where
  "check_triggers triggers_ok doc status = (if status = ''enabled'' then triggers_ok doc else Inr ())"

definition workflow_statuses :: "string list" where
  "workflow_statuses = [''enabled'', ''disabled'']"

text \<open>\<open>INSERT OR IGNORE\<close> ignores every violated constraint.\<close>

definition create_workflow ::
  "(workflow_document \<Rightarrow> (string, unit) result) \<Rightarrow> string \<Rightarrow> timestamp \<Rightarrow> workflow_document \<Rightarrow> string \<Rightarrow> string
   \<Rightarrow> store \<Rightarrow> (string, workflow_row option \<times> store) result" where
  "create_workflow triggers_ok revision now doc source status s =
     rbind (check_triggers triggers_ok doc status) (\<lambda>_.
       let r = new_workflow doc source status revision now in
       if wf_id r \<in> wf_id ` set (workflow_rows s) \<or> wf_name r \<in> wf_name ` set (workflow_rows s)
          \<or> status \<notin> set workflow_statuses
       then Inr (None, s)
       else rbind (insert_revision (revision_of r) (s\<lparr>workflow_rows := workflow_rows s @ [r]\<rparr>)) (\<lambda>s1.
         Inr (Some r, append_event ''workflow.created'' (wf_id r) None (workflow_payload r) now s1)))"

definition upsert_workflow ::
  "(workflow_document \<Rightarrow> (string, unit) result) \<Rightarrow> string \<Rightarrow> timestamp \<Rightarrow> workflow_document \<Rightarrow> string \<Rightarrow> string
   \<Rightarrow> store \<Rightarrow> (string, workflow_row \<times> store) result" where
  "upsert_workflow triggers_ok revision now doc source status s =
     rbind (check_triggers triggers_ok doc status) (\<lambda>_.
       let r = new_workflow doc source status revision now;
           previous = map_option wf_status (workflow_of s (wf_id r))
       in if status \<notin> set workflow_statuses then Inl (database_error ''CHECK constraint failed: status'')
          else if list_ex (\<lambda>x. wf_id x \<noteq> wf_id r \<and> wf_name x = wf_name r) (workflow_rows s)
          then Inl (database_error ''UNIQUE constraint failed: workflows.name'')
          else rbind (insert_revision (revision_of r)
                 (s\<lparr>workflow_rows := (if previous = None then workflow_rows s @ [r]
                     else update_rows (\<lambda>x. wf_id x = wf_id r) (\<lambda>_. r) (workflow_rows s))\<rparr>)) (\<lambda>s1.
            let s2 = append_event (if previous = None then ''workflow.created'' else ''workflow.updated'')
                  (wf_id r) None (workflow_payload r) now s1
            in Inr (r, if previous \<noteq> None \<and> previous \<noteq> Some status
                 then append_event ''workflow.status_changed'' (wf_id r) None
                   (JObject [(''status'', JString status)]) now s2
                 else s2)))"

datatype workflow_update = WorkflowUpdated workflow_row | WorkflowConflict string | WorkflowMissing

definition update_workflow_if_revision ::
  "(workflow_document \<Rightarrow> (string, unit) result) \<Rightarrow> string \<Rightarrow> timestamp \<Rightarrow> workflow_document \<Rightarrow> string \<Rightarrow> string
   \<Rightarrow> store \<Rightarrow> (string, workflow_update \<times> store) result" where
  "update_workflow_if_revision triggers_ok revision now doc source expected s =
     (case workflow_of s (meta_id (metadata doc)) of
        None \<Rightarrow> Inr (WorkflowMissing, s)
      | Some x \<Rightarrow>
          (if wf_revision x \<noteq> expected then Inr (WorkflowConflict (wf_revision x), s)
           else rbind (check_triggers triggers_ok doc (wf_status x)) (\<lambda>_.
             let r = new_workflow doc source (wf_status x) revision now in
             if list_ex (\<lambda>y. wf_id y \<noteq> wf_id r \<and> wf_name y = wf_name r) (workflow_rows s)
             then Inl (database_error ''UNIQUE constraint failed: workflows.name'')
             else rbind (insert_revision (revision_of r)
                    (s\<lparr>workflow_rows := update_rows (\<lambda>y. wf_id y = wf_id r) (\<lambda>_. r) (workflow_rows s)\<rparr>))
               (\<lambda>s1. Inr (WorkflowUpdated r,
                 append_event ''workflow.updated'' (wf_id r) None (workflow_payload r) now s1)))))"

definition set_workflow_status_if_revision ::
  "string \<Rightarrow> timestamp \<Rightarrow> string \<Rightarrow> string \<Rightarrow> store \<Rightarrow> (string, workflow_update \<times> store) result" where
  "set_workflow_status_if_revision w now status expected s =
     (if status \<notin> set workflow_statuses then Inl ''workflow status must be enabled or disabled''
      else (case workflow_of s w of
          None \<Rightarrow> Inr (WorkflowMissing, s)
        | Some x \<Rightarrow>
            (if wf_revision x \<noteq> expected then Inr (WorkflowConflict (wf_revision x), s)
             else rbind (if status = ''enabled'' then ensure_workflow_not_blocked s w else Inr ()) (\<lambda>_.
               if wf_status x = status then Inr (WorkflowUpdated x, s)
               else Inr (WorkflowUpdated (x\<lparr>wf_status := status, wf_updated := now\<rparr>),
                 append_event ''workflow.status_changed'' w None
                   (JObject [(''revision'', JString (wf_revision x)), (''status'', JString status)]) now
                   (s\<lparr>workflow_rows := update_rows (\<lambda>y. wf_id y = w \<and> wf_revision y = expected)
                       (\<lambda>y. y\<lparr>wf_status := status, wf_updated := now\<rparr>) (workflow_rows s)\<rparr>))))))"

definition set_workflow_status ::
  "string \<Rightarrow> timestamp \<Rightarrow> string \<Rightarrow> store \<Rightarrow> (string, store) result" where
  "set_workflow_status w now status s =
     rbind (if status = ''enabled'' then ensure_workflow_not_blocked s w else Inr ()) (\<lambda>_.
       if w \<notin> wf_id ` set (workflow_rows s) then Inl (''workflow '' @ w @ '' was not found'')
       else if status \<notin> {''enabled'', ''disabled''} then Inl (database_error ''CHECK constraint failed: status'')
       else Inr (append_event ''workflow.status_changed'' w None (JObject [(''status'', JString status)]) now
         (s\<lparr>workflow_rows := update_rows (\<lambda>r. wf_id r = w)
              (\<lambda>r. r\<lparr>wf_status := status, wf_updated := now\<rparr>) (workflow_rows s)\<rparr>)))"

section \<open>Node outcomes and artifacts\<close>

fun insert_id :: "string \<Rightarrow> string list \<Rightarrow> string list" where
  "insert_id x [] = [x]"
| "insert_id x (y # ys) = (if x = y then y # ys else if str_less x y then x # y # ys else y # insert_id x ys)"

text \<open>The ids of the artifact references in a value, before they are sorted.\<close>

fun artifact_ids_visit :: "json \<Rightarrow> string list" where
  "artifact_ids_visit (JArray vs) = concat (map artifact_ids_visit vs)"
| "artifact_ids_visit (JObject m) =
     (if has_key m ''sha256'' \<and> has_key m ''sizeBytes''
      then (case Option.bind (map_of m ''id'') as_str of None \<Rightarrow> [] | Some i \<Rightarrow> [i]) else [])
     @ concat (map (\<lambda>(k, v). artifact_ids_visit v) m)"
| "artifact_ids_visit _ = []"

definition artifact_ids_in_value :: "json \<Rightarrow> string list" where
  "artifact_ids_in_value v = fold insert_id (artifact_ids_visit v) []"

text \<open>\<open>INSERT OR IGNORE\<close> ignores a link that is there, but not an artifact that is missing.\<close>

fun link_artifacts :: "string \<Rightarrow> string \<Rightarrow> string list \<Rightarrow> store \<Rightarrow> (string, store) result" where
  "link_artifacts i n [] s = Inr s"
| "link_artifacts i n (a # as) s =
     (if (i, n, a) \<in> set (link_rows s) then link_artifacts i n as s
      else if a \<notin> art_id ` set (artifact_rows s) then Inl (database_error ''FOREIGN KEY constraint failed'')
      else link_artifacts i n as (s\<lparr>link_rows := link_rows s @ [(i, n, a)]\<rparr>))"

definition outcome_payload :: "string \<Rightarrow> string \<Rightarrow> string option \<Rightarrow> json option \<Rightarrow> string option \<Rightarrow> json" where
  "outcome_payload n status message result err =
     JObject [(''error'', option_json err), (''message'', option_json message), (''nodeId'', JString n),
       (''result'', case result of None \<Rightarrow> JNull | Some v \<Rightarrow> v), (''status'', JString status)]"

definition record_node_outcome ::
  "string \<Rightarrow> string \<Rightarrow> timestamp \<Rightarrow> string \<Rightarrow> string option \<Rightarrow> json option \<Rightarrow> string option \<Rightarrow> store
   \<Rightarrow> (string, store) result" where
  "record_node_outcome i n now status message result err s =
     (if list_ex (\<lambda>r. nr_execution r = i \<and> nr_node r = n \<and> nr_status r = status \<and> nr_result r = result
           \<and> nr_error r = err) (node_run_rows s)
      then Inr s
      else rbind (require_execution s i) (\<lambda>_.
        rbind (link_artifacts i n (case result of None \<Rightarrow> [] | Some v \<Rightarrow> artifact_ids_in_value v)
            (s\<lparr>node_run_rows := node_run_rows s @
              [\<lparr>nr_execution = i, nr_node = n, nr_status = status, nr_message = message, nr_result = result,
                nr_error = err, nr_created = now\<rparr>]\<rparr>)) (\<lambda>s1.
          Inr (append_event ''execution.node.outcome'' n (Some i) (outcome_payload n status message result err)
            now s1))))"

definition record_scheduler_event :: "string \<Rightarrow> string \<Rightarrow> json \<Rightarrow> timestamp \<Rightarrow> store \<Rightarrow> store" where
  "record_scheduler_event event_type resource payload now s = append_event event_type resource None payload now s"

text \<open>The row \<open>put_artifact\<close> adds once the file is written: its id is the digest of its content.\<close>

definition put_artifact_row ::
  "string \<Rightarrow> nat \<Rightarrow> string \<Rightarrow> string option \<Rightarrow> timestamp \<Rightarrow> store \<Rightarrow> (string, store) result" where
  "put_artifact_row sha256 size_bytes media name now s =
     (if trim media = [] \<or> 200 < length media then Inl ''artifact media type must be 1-200 characters''
      else if i64_max < int size_bytes then Inl ''artifact is too large to persist''
      else Inr (if list_ex (\<lambda>a. art_id a = sha256 \<or> art_sha256 a = sha256) (artifact_rows s) then s
        else s\<lparr>artifact_rows := artifact_rows s @
          [\<lparr>art_id = sha256, art_sha256 = sha256, art_size = size_bytes, art_media = media, art_name = name,
            art_created = now\<rparr>]\<rparr>))"

definition is_linked :: "store \<Rightarrow> string \<Rightarrow> bool" where
  "is_linked s a = list_ex (\<lambda>(i, n, b). b = a) (link_rows s)"

definition delete_artifact_row :: "string \<Rightarrow> store \<Rightarrow> (string, store) result" where
  "delete_artifact_row a s =
     (if a \<in> art_id ` set (artifact_rows s) \<and> is_linked s a
      then Inl (database_error ''FOREIGN KEY constraint failed'')
      else Inr (s\<lparr>artifact_rows := filter (\<lambda>r. art_id r \<noteq> a) (artifact_rows s)\<rparr>))"

definition artifact_bytes :: "store \<Rightarrow> nat" where
  "artifact_bytes s = sum_list (map art_size (artifact_rows s))"

definition older :: "artifact_row \<Rightarrow> artifact_row \<Rightarrow> bool" where
  "older a b = (art_created a < art_created b \<or> art_created a = art_created b \<and> str_less (art_id a) (art_id b))"

fun insert_older :: "artifact_row \<Rightarrow> artifact_row list \<Rightarrow> artifact_row list" where
  "insert_older a [] = [a]"
| "insert_older a (b # bs) = (if older a b then a # b # bs else b # insert_older a bs)"

definition unreferenced_artifacts_oldest :: "store \<Rightarrow> artifact_row list" where
  "unreferenced_artifacts_oldest s =
     fold insert_older (filter (\<lambda>a. \<not> is_linked s (art_id a)) (artifact_rows s)) []"

end
