(* ===== verification/Store_Life.thy ===== *)
theory Store_Life
  imports Execution_Store
begin

text \<open>
  The life of a store: its operations as commands that may come in any order from any thread (each
  is one transaction), what every command keeps of the tables, and what follows for executions and
  plugins however the commands interleave.
\<close>

section \<open>Commands\<close>

record store_env =
  decode_policy :: "json \<Rightarrow> (string, workflow_policy) result"
  source_ok :: "string \<Rightarrow> (string, unit) result"
  triggers_ok :: "workflow_document \<Rightarrow> (string, unit) result"

datatype store_command =
    Create string timestamp string
  | Admit string timestamp string string json "(string \<times> string) option" "bool \<times> bool"
      "plugin_requirement list"
  | Claim string timestamp "nat option"
  | Finish string timestamp string "string option"
  | Recover timestamp
  | Cancel string
  | CancelOutcome string timestamp
  | CancelQueued string timestamp
  | SetPinned string bool
  | Retain timestamp timestamp
  | BeginCheckpoint string string string
  | CompleteCheckpoint string string "json option"
  | Delay string string int nat
  | TimeRemaining string int nat
  | SetResult string json
  | Reserve string string nat "nat option"
  | StartSpan string string "string option" string
  | FinishSpan string string timestamp "string option"
  | UpsertPlugin plugin_row "string option"
  | AcquireUses string "string list"
  | RequestRemoval string timestamp "string list"
  | MarkFailed string string
  | ResumeRemoval string
  | FinalizeRemoval string
  | RemovePlugin string
  | EnablePlugin string bool
  | SetWorkflowStatus string timestamp string
  | CreateWorkflow string timestamp workflow_document string string
  | UpsertWorkflow string timestamp workflow_document string string
  | UpdateWorkflow string timestamp workflow_document string string
  | SetStatusIfRevision string timestamp string string
  | RecordOutcome string string timestamp string "string option" "json option" "string option"
  | SchedulerEvent string string json timestamp
  | PutArtifact string nat string "string option" timestamp
  | DeleteArtifact string

definition after :: "store \<Rightarrow> (string, 'a) result \<Rightarrow> ('a \<Rightarrow> store) \<Rightarrow> store" where
  "after s r f = (case r of Inl e \<Rightarrow> s | Inr x \<Rightarrow> f x)"

fun apply_command :: "store_env \<Rightarrow> store_command \<Rightarrow> store \<Rightarrow> store" where
  "apply_command env (Create i now w) s = after s (create_execution i now w s) snd"
| "apply_command env (Admit i now w revision plan identity req plugins) s =
     after s (create_execution_with_plan_guarded (decode_policy env) i now w revision plan identity req plugins s) snd"
| "apply_command env (Claim i now limit) s = snd (claim_execution_slot i now limit s)"
| "apply_command env (Finish i now status err) s = after s (finish_execution i now status err s) id"
| "apply_command env (Recover now) s = snd (recover_incomplete_executions now s)"
| "apply_command env (Cancel i) s = snd (request_execution_cancel i s)"
| "apply_command env (CancelOutcome i now) s = snd (request_execution_cancel_outcome i now s)"
| "apply_command env (CancelQueued i now) s = snd (cancel_queued_execution i now s)"
| "apply_command env (SetPinned i b) s = snd (set_execution_pinned i b s)"
| "apply_command env (Retain executions_before events_before) s =
     apply_retention executions_before events_before s"
| "apply_command env (BeginCheckpoint i n status) s = after s (begin_checkpoint_row i n status s) id"
| "apply_command env (CompleteCheckpoint i n r) s = complete_checkpoint_row i n r s"
| "apply_command env (Delay i n now_ms duration) s =
     after s (durable_delay_remaining i n now_ms duration s) snd"
| "apply_command env (TimeRemaining i now_ms duration) s =
     after s (execution_time_remaining i now_ms duration s) snd"
| "apply_command env (SetResult i r) s = after s (set_execution_result i r s) id"
| "apply_command env (Reserve i provider tokens budget) s =
     after s (reserve_provider_tokens i provider tokens budget s) id"
| "apply_command env (StartSpan x i parent k) s = after s (start_trace_span x i parent k s) id"
| "apply_command env (FinishSpan x status now err) s = after s (finish_trace_span x status now err s) id"
| "apply_command env (UpsertPlugin r src) s =
     after s (upsert_plugin_install_with_source (source_ok env) r src s) id"
| "apply_command env (AcquireUses i ps) s = after s (acquire_plugin_uses i ps s) id"
| "apply_command env (RequestRemoval p now ws) s = after s (request_plugin_removal p now ws s) snd"
| "apply_command env (MarkFailed p details) s = after s (mark_plugin_removal_failed p details s) id"
| "apply_command env (ResumeRemoval p) s = snd (resume_plugin_removal p s)"
| "apply_command env (FinalizeRemoval p) s = after s (finalize_plugin_removal p s) snd"
| "apply_command env (RemovePlugin p) s = after s (remove_plugin_install p s) snd"
| "apply_command env (EnablePlugin p b) s = after s (set_plugin_enabled p b s) snd"
| "apply_command env (SetWorkflowStatus w now status) s = after s (set_workflow_status w now status s) id"
| "apply_command env (CreateWorkflow revision now doc source status) s =
     after s (create_workflow (triggers_ok env) revision now doc source status s) snd"
| "apply_command env (UpsertWorkflow revision now doc source status) s =
     after s (upsert_workflow (triggers_ok env) revision now doc source status s) snd"
| "apply_command env (UpdateWorkflow revision now doc source expected) s =
     after s (update_workflow_if_revision (triggers_ok env) revision now doc source expected s) snd"
| "apply_command env (SetStatusIfRevision w now status expected) s =
     after s (set_workflow_status_if_revision w now status expected s) snd"
| "apply_command env (RecordOutcome i n now status message r err) s =
     after s (record_node_outcome i n now status message r err s) id"
| "apply_command env (SchedulerEvent t r p now) s = record_scheduler_event t r p now s"
| "apply_command env (PutArtifact sha n media name now) s = after s (put_artifact_row sha n media name now s) id"
| "apply_command env (DeleteArtifact a) s = after s (delete_artifact_row a s) id"

definition run_commands :: "store_env \<Rightarrow> store_command list \<Rightarrow> store \<Rightarrow> store" where
  "run_commands env cs s = fold (apply_command env) cs s"

text \<open>An invariant that every command keeps is kept by every sequence of commands.\<close>

locale store_invariant =
  fixes env :: store_env and inv :: "store \<Rightarrow> bool"
  assumes step: "inv s \<Longrightarrow> inv (apply_command env c s)"
begin

lemma run: "inv s \<Longrightarrow> inv (run_commands env cs s)"
  unfolding run_commands_def by (induction cs arbitrary: s) (auto intro: step)

end

section \<open>What the building blocks leave alone\<close>

named_theorems store_frame

lemma append_event_frame [simp, store_frame]:
  "workflow_rows (append_event t r x p now s) = workflow_rows s"
  "execution_rows (append_event t r x p now s) = execution_rows s"
  "plan_rows (append_event t r x p now s) = plan_rows s"
  "idempotency_rows (append_event t r x p now s) = idempotency_rows s"
  "checkpoint_rows (append_event t r x p now s) = checkpoint_rows s"
  "reservation_rows (append_event t r x p now s) = reservation_rows s"
  "plugin_rows (append_event t r x p now s) = plugin_rows s"
  "lifecycle_rows (append_event t r x p now s) = lifecycle_rows s"
  "pin_rows (append_event t r x p now s) = pin_rows s"
  by (simp_all add: append_event_def)

lemma close_spans_frame [simp, store_frame]:
  "execution_rows (close_spans i st now err s) = execution_rows s"
  "plan_rows (close_spans i st now err s) = plan_rows s"
  "idempotency_rows (close_spans i st now err s) = idempotency_rows s"
  "checkpoint_rows (close_spans i st now err s) = checkpoint_rows s"
  "reservation_rows (close_spans i st now err s) = reservation_rows s"
  "plugin_rows (close_spans i st now err s) = plugin_rows s"
  "lifecycle_rows (close_spans i st now err s) = lifecycle_rows s"
  "pin_rows (close_spans i st now err s) = pin_rows s"
  "event_rows (close_spans i st now err s) = event_rows s"
  "event_sequence (close_spans i st now err s) = event_sequence s"
  by (simp_all add: close_spans_def)

lemma update_execution_frame [simp, store_frame]:
  "plan_rows (update_execution i f s) = plan_rows s"
  "idempotency_rows (update_execution i f s) = idempotency_rows s"
  "checkpoint_rows (update_execution i f s) = checkpoint_rows s"
  "reservation_rows (update_execution i f s) = reservation_rows s"
  "plugin_rows (update_execution i f s) = plugin_rows s"
  "lifecycle_rows (update_execution i f s) = lifecycle_rows s"
  "event_rows (update_execution i f s) = event_rows s"
  "event_sequence (update_execution i f s) = event_sequence s"
  "execution_rows (update_execution i f s) = update_rows (\<lambda>e. exec_id e = i) f (execution_rows s)"
  by (simp_all add: update_execution_def Let_def)

lemma insert_pin_frame [simp, store_frame]:
  "execution_rows (insert_pin i r s) = execution_rows s"
  "plan_rows (insert_pin i r s) = plan_rows s"
  "idempotency_rows (insert_pin i r s) = idempotency_rows s"
  "checkpoint_rows (insert_pin i r s) = checkpoint_rows s"
  "reservation_rows (insert_pin i r s) = reservation_rows s"
  "plugin_rows (insert_pin i r s) = plugin_rows s"
  "lifecycle_rows (insert_pin i r s) = lifecycle_rows s"
  "event_rows (insert_pin i r s) = event_rows s"
  "event_sequence (insert_pin i r s) = event_sequence s"
  by (auto simp: insert_pin_def split: prod.split option.split)

text \<open>Everything but the pins.\<close>

definition same_but_pins :: "store \<Rightarrow> store \<Rightarrow> bool" where
  "same_but_pins s s' \<longleftrightarrow> s' = s\<lparr>pin_rows := pin_rows s'\<rparr>"

lemma insert_pin_same: "same_but_pins s (insert_pin i r s)"
  by (auto simp: same_but_pins_def insert_pin_def split: prod.split option.split)

lemma same_but_pins_trans: "same_but_pins s t \<Longrightarrow> same_but_pins t u \<Longrightarrow> same_but_pins s u"
  by (simp add: same_but_pins_def) (metis (no_types, lifting) store.surjective store.update_convs(13))

lemma pin_plugins_same: "pin_plugins i rs s = Inr s' \<Longrightarrow> same_but_pins s s'"
proof (induction rs arbitrary: s)
  case (Cons r rs)
  then show ?case
    using same_but_pins_trans [OF insert_pin_same [of s i r]] by (simp add: Let_def split: if_splits)
qed (simp add: same_but_pins_def)

lemma acquire_each_same: "acquire_each i ps s = Inr s' \<Longrightarrow> same_but_pins s s'"
proof (induction ps arbitrary: s)
  case (Cons p ps)
  then show ?case
    using same_but_pins_trans [OF insert_pin_same [of s i "(p, None, None, None)"]]
    by (simp add: Let_def split: if_splits)
qed (simp add: same_but_pins_def)

lemma same_but_pins_frame:
  assumes "same_but_pins s s'"
  shows "execution_rows s' = execution_rows s" "plan_rows s' = plan_rows s"
    "idempotency_rows s' = idempotency_rows s" "checkpoint_rows s' = checkpoint_rows s"
    "reservation_rows s' = reservation_rows s" "plugin_rows s' = plugin_rows s"
    "lifecycle_rows s' = lifecycle_rows s" "event_rows s' = event_rows s"
    "event_sequence s' = event_sequence s"
proof -
  from assms have s': "s' = s\<lparr>pin_rows := pin_rows s'\<rparr>" by (simp add: same_but_pins_def)
  show "execution_rows s' = execution_rows s" "plan_rows s' = plan_rows s"
    "idempotency_rows s' = idempotency_rows s" "checkpoint_rows s' = checkpoint_rows s"
    "reservation_rows s' = reservation_rows s" "plugin_rows s' = plugin_rows s"
    "lifecycle_rows s' = lifecycle_rows s" "event_rows s' = event_rows s"
    "event_sequence s' = event_sequence s"
    by (subst s', simp)+
qed

text \<open>Blocking workflows touches workflows and removals only.\<close>

lemma block_workflows_frame:
  "block_workflows p now ws s = Inr s' \<Longrightarrow>
    execution_rows s' = execution_rows s \<and> plan_rows s' = plan_rows s
    \<and> idempotency_rows s' = idempotency_rows s \<and> checkpoint_rows s' = checkpoint_rows s
    \<and> reservation_rows s' = reservation_rows s \<and> plugin_rows s' = plugin_rows s
    \<and> lifecycle_rows s' = lifecycle_rows s \<and> pin_rows s' = pin_rows s
    \<and> event_rows s' = event_rows s \<and> event_sequence s' = event_sequence s"
  by (induction ws arbitrary: s) (auto split: if_splits)

lemma fold_recover_frame [simp]:
  "plan_rows (fold (recover_execution now) es s) = plan_rows s"
  "idempotency_rows (fold (recover_execution now) es s) = idempotency_rows s"
  "checkpoint_rows (fold (recover_execution now) es s) = checkpoint_rows s"
  "reservation_rows (fold (recover_execution now) es s) = reservation_rows s"
  "plugin_rows (fold (recover_execution now) es s) = plugin_rows s"
  "lifecycle_rows (fold (recover_execution now) es s) = lifecycle_rows s"
  by (induction es arbitrary: s) (simp_all add: recover_execution_def split: prod.split)

section \<open>Rows of an execution\<close>

lemma find_update_rows:
  assumes "\<And>e. exec_id (f e) = exec_id e"
  shows "find (\<lambda>e. exec_id e = i) (update_rows (\<lambda>e. exec_id e = j) f xs)
    = (if i = j then map_option f else id) (find (\<lambda>e. exec_id e = i) xs)"
  using assms by (induction xs) (auto simp: update_rows_def)

lemma execution_row_of_update [simp]:
  "(\<And>e. exec_id (f e) = exec_id e) \<Longrightarrow> execution_row_of (update_execution j f s) i
     = (if i = j then map_option f else id) (execution_row_of s i)"
  by (simp add: execution_row_of_def find_update_rows)

lemma execution_row_of_frame [simp]:
  "execution_row_of (append_event t r x p now s) i = execution_row_of s i"
  "execution_row_of (close_spans j st now err s) i = execution_row_of s i"
  by (simp_all add: execution_row_of_def)

lemma map_id_update_rows [simp]:
  "(\<And>e. key (f e) = key e) \<Longrightarrow> map key (update_rows p f xs) = map key xs"
  by (auto simp: update_rows_def)

lemma set_update_rows: "set (update_rows p f xs) = (\<lambda>x. if p x then f x else x) ` set xs"
  by (simp add: update_rows_def)

lemma find_key_eq:
  "distinct (map key xs) \<Longrightarrow> x \<in> set xs \<Longrightarrow> find (\<lambda>y. key y = key x) xs = Some x"
  by (induction xs) (auto simp: rev_image_eqI)

lemma find_key_Some: "find (\<lambda>y. key y = k) xs = Some x \<Longrightarrow> x \<in> set xs \<and> key x = k"
  by (auto simp: find_Some_iff)

lemma find_key_None: "find (\<lambda>y. key y = k) xs = None \<longleftrightarrow> k \<notin> key ` set xs"
  by (auto simp: find_None_iff)

lemma execution_row_of_None: "execution_row_of s i = None \<longleftrightarrow> i \<notin> exec_id ` set (execution_rows s)"
  unfolding execution_row_of_def by (rule find_key_None)

lemma execution_row_of_Some: "execution_row_of s i = Some e \<Longrightarrow> e \<in> set (execution_rows s) \<and> exec_id e = i"
  unfolding execution_row_of_def by (rule find_key_Some)

text \<open>The outcomes of an admission.\<close>

lemma admit_cases:
  assumes "create_execution_with_plan_guarded decode i now w revision plan identity req plugins s
    = Inr ((e, new), s')"
  obtains (known) key hash where "\<not> new" "s' = s" "identity = Some (key, hash)"
      "idempotent_execution s key hash = Inr (Some e)"
  | (created) pol status s2 s3 where "new" "decode plan = Inr pol"
      "execution_admission s w (concurrency pol) = Inr status"
      "e = new_execution i w status now" "i \<notin> exec_id ` set (execution_rows s)"
      "pin_plugins i plugins (s\<lparr>execution_rows := execution_rows s @ [e]\<rparr>) = Inr s2"
      "save_plan i now revision plan identity s2 = Inr s3"
      "s' = append_event (started_event status) w (Some i) (started_payload w status) now s3"
proof -
  from assms obtain pol previous where pol: "decode plan = Inr pol"
    and previous: "(case identity of None \<Rightarrow> Inr None | Some (key, hash) \<Rightarrow> idempotent_execution s key hash)
      = Inr previous"
    by (auto simp: create_execution_with_plan_guarded_def rbind_Inr)
  show thesis
  proof (cases previous)
    case (Some x)
    with previous obtain key hash where "identity = Some (key, hash)"
      "idempotent_execution s key hash = Inr (Some x)" by (cases identity) auto
    with assms pol show thesis
      by (intro known) (auto simp: create_execution_with_plan_guarded_def)
  next
    case None
    with assms pol previous show thesis
      by (auto simp: create_execution_with_plan_guarded_def rbind_Inr insert_execution_def Let_def
          new_execution_def split: if_splits intro!: created)
  qed
qed

lemma save_plan_frame:
  assumes "save_plan i now revision plan identity s = Inr s'"
  shows "execution_rows s' = execution_rows s" "plugin_rows s' = plugin_rows s"
    "lifecycle_rows s' = lifecycle_rows s" "pin_rows s' = pin_rows s"
    "reservation_rows s' = reservation_rows s" "event_rows s' = event_rows s"
    "event_sequence s' = event_sequence s"
    "map plan_execution (plan_rows s') = map plan_execution (plan_rows s) @ [i]"
    "idempotency_rows s' = idempotency_rows s
      @ (case identity of None \<Rightarrow> [] | Some (key, hash) \<Rightarrow> [(key, hash, i)])"
    "identity = Some (key, hash) \<Longrightarrow> key \<notin> fst ` set (idempotency_rows s)"
  using assms by (auto simp: save_plan_def Let_def split: option.splits if_splits)

text \<open>What an admission of a new execution adds.\<close>

lemma admit_new:
  assumes "create_execution_with_plan_guarded decode i now w revision plan identity req plugins s
    = Inr ((e, True), s')"
  shows "execution_rows s' = execution_rows s @ [e]" "exec_id e = i" "exec_workflow e = w"
    "i \<notin> exec_id ` set (execution_rows s)" "exec_status e \<in> {''running'', ''queued''}"
    "plugin_rows s' = plugin_rows s" "lifecycle_rows s' = lifecycle_rows s"
    "reservation_rows s' = reservation_rows s"
    "map plan_execution (plan_rows s') = map plan_execution (plan_rows s) @ [i]"
    "idempotency_rows s' = idempotency_rows s
      @ (case identity of None \<Rightarrow> [] | Some (key, hash) \<Rightarrow> [(key, hash, i)])"
    "identity = Some (key, hash) \<Longrightarrow> key \<notin> fst ` set (idempotency_rows s)"
proof -
  from assms obtain pol :: workflow_policy and status s2 s3 where created:
    "execution_admission s w (concurrency pol) = Inr status"
    "e = new_execution i w status now" "i \<notin> exec_id ` set (execution_rows s)"
    "pin_plugins i plugins (s\<lparr>execution_rows := execution_rows s @ [e]\<rparr>) = Inr s2"
    "save_plan i now revision plan identity s2 = Inr s3"
    "s' = append_event (started_event status) w (Some i) (started_payload w status) now s3"
    by (rule admit_cases) blast+
  note pins = same_but_pins_frame [OF pin_plugins_same [OF created(4)]]
  note plan = save_plan_frame [OF created(5)]
  from created(1) have "status \<in> {''running'', ''queued''}"
    by (auto simp: execution_admission_def split: option.splits if_splits)
  with created pins plan show "execution_rows s' = execution_rows s @ [e]" "exec_id e = i"
    "exec_workflow e = w" "i \<notin> exec_id ` set (execution_rows s)" "exec_status e \<in> {''running'', ''queued''}"
    "plugin_rows s' = plugin_rows s" "lifecycle_rows s' = lifecycle_rows s"
    "reservation_rows s' = reservation_rows s"
    "map plan_execution (plan_rows s') = map plan_execution (plan_rows s) @ [i]"
    "idempotency_rows s' = idempotency_rows s
      @ (case identity of None \<Rightarrow> [] | Some (key, hash) \<Rightarrow> [(key, hash, i)])"
    "identity = Some (key, hash) \<Longrightarrow> key \<notin> fst ` set (idempotency_rows s)"
    by (simp_all add: new_execution_def)
qed

lemma apply_admit_cases:
  obtains "apply_command env (Admit i now w revision plan identity req plugins) s = s"
  | e s' where "create_execution_with_plan_guarded (decode_policy env) i now w revision plan identity
        req plugins s = Inr ((e, True), s')"
      "apply_command env (Admit i now w revision plan identity req plugins) s = s'"
proof (cases "create_execution_with_plan_guarded (decode_policy env) i now w revision plan identity
    req plugins s")
  case (Inl err)
  then show thesis by (intro that(1)) (simp add: after_def)
next
  case (Inr x)
  then obtain e new s' where x: "x = ((e, new), s')" by (cases x) auto
  show thesis
  proof (cases new)
    case True
    with Inr x show thesis by (intro that(2)) (simp_all add: after_def)
  next
    case False
    with Inr x have "s' = s" by (auto elim: admit_cases)
    with Inr x show thesis by (intro that(1)) (simp add: after_def)
  qed
qed

text \<open>Commands that leave executions, plans, requests and plugins alone.\<close>

fun quiet :: "store_command \<Rightarrow> bool" where
  "quiet (BeginCheckpoint i n status) = True"
| "quiet (CompleteCheckpoint i n r) = True"
| "quiet (Delay i n now_ms duration) = True"
| "quiet (TimeRemaining i now_ms duration) = True"
| "quiet (SetResult i r) = True"
| "quiet (Reserve i provider tokens budget) = True"
| "quiet (StartSpan x i parent k) = True"
| "quiet (FinishSpan x status now err) = True"
| "quiet (SetWorkflowStatus w now status) = True"
| "quiet (CreateWorkflow revision now doc source status) = True"
| "quiet (UpsertWorkflow revision now doc source status) = True"
| "quiet (UpdateWorkflow revision now doc source expected) = True"
| "quiet (SetStatusIfRevision w now status expected) = True"
| "quiet (RecordOutcome i n now status message r err) = True"
| "quiet (SchedulerEvent t r p now) = True"
| "quiet (PutArtifact sha n media name now) = True"
| "quiet (DeleteArtifact a) = True"
| "quiet c = False"

lemma rbind_unit_Inr: "rbind r (\<lambda>_. k) = Inr y \<longleftrightarrow> (\<exists>x. r = Inr x) \<and> k = Inr y"
  by (auto simp: rbind_Inr)

lemmas quiet_defs = begin_checkpoint_row_def complete_checkpoint_row_def durable_delay_remaining_def
  execution_time_remaining_def set_execution_result_def reserve_provider_tokens_def
  start_trace_span_def finish_trace_span_def set_workflow_status_def
  create_workflow_def upsert_workflow_def update_workflow_if_revision_def set_workflow_status_if_revision_def
  insert_revision_def record_scheduler_event_def put_artifact_row_def
  delete_artifact_row_def

lemma link_artifacts_links: "link_artifacts i n as s = Inr s' \<Longrightarrow> s' = s\<lparr>link_rows := link_rows s'\<rparr>"
  by (induction as arbitrary: s) (auto split: if_splits, force)

lemma outcome_cases:
  assumes "record_node_outcome i n now status message r err s = Inr s'"
  obtains "s' = s"
  | runs links s1 where "link_artifacts i n (case r of None \<Rightarrow> [] | Some v \<Rightarrow> artifact_ids_in_value v)
        (s\<lparr>node_run_rows := runs\<rparr>) = Inr s1" "s1 = s\<lparr>node_run_rows := runs, link_rows := links\<rparr>"
      "execution_row_of s i \<noteq> None" "runs = node_run_rows s @
        [\<lparr>nr_execution = i, nr_node = n, nr_status = status, nr_message = message, nr_result = r, nr_error = err,
          nr_created = now\<rparr>]"
      "s' = append_event ''execution.node.outcome'' n (Some i) (outcome_payload n status message r err) now s1"
proof (cases "s' = s")
  case False
  let ?runs = "node_run_rows s @ [\<lparr>nr_execution = i, nr_node = n, nr_status = status, nr_message = message,
    nr_result = r, nr_error = err, nr_created = now\<rparr>]"
  from assms False obtain s1 where s1: "require_execution s i = Inr ()"
    "link_artifacts i n (case r of None \<Rightarrow> [] | Some v \<Rightarrow> artifact_ids_in_value v) (s\<lparr>node_run_rows := ?runs\<rparr>) = Inr s1"
    "s' = append_event ''execution.node.outcome'' n (Some i) (outcome_payload n status message r err) now s1"
    by (auto simp: record_node_outcome_def rbind_Inr split: if_splits)
  from link_artifacts_links [OF s1(2)] have "s1 = s\<lparr>node_run_rows := ?runs, link_rows := link_rows s1\<rparr>" by simp
  with s1 show thesis by (intro that(2) [of ?runs s1]) (auto simp: require_execution_def require_def split: if_splits)
qed (rule that(1))

lemma outcome_frame:
  assumes "record_node_outcome i n now status message r err s = Inr s'"
  shows "\<exists>runs links s1. (s1 = s \<or> s1 = s\<lparr>node_run_rows := runs, link_rows := links\<rparr>)
    \<and> (s' = s1 \<or> s' = append_event ''execution.node.outcome'' n (Some i) (outcome_payload n status message r err) now s1)"
  using assms by (rule outcome_cases) blast+

lemma quiet_frame:
  assumes "quiet c"
  shows "execution_rows (apply_command env c s) = execution_rows s
    \<and> plan_rows (apply_command env c s) = plan_rows s
    \<and> idempotency_rows (apply_command env c s) = idempotency_rows s
    \<and> plugin_rows (apply_command env c s) = plugin_rows s
    \<and> lifecycle_rows (apply_command env c s) = lifecycle_rows s
    \<and> pin_rows (apply_command env c s) = pin_rows s"
proof (cases c)
  case (RecordOutcome i n now status message r err)
  then show ?thesis
    by (cases "record_node_outcome i n now status message r err s")
      (auto simp: after_def dest!: outcome_frame)
qed (use assms in \<open>auto simp: after_def quiet_defs Let_def rbind_unit_Inr
      split: sum.split option.splits if_splits\<close>)

lemma publish_plugin_frame [simp, store_frame]:
  "execution_rows (publish_plugin r s) = execution_rows s"
  "plan_rows (publish_plugin r s) = plan_rows s"
  "idempotency_rows (publish_plugin r s) = idempotency_rows s"
  "reservation_rows (publish_plugin r s) = reservation_rows s"
  "pin_rows (publish_plugin r s) = pin_rows s"
  "event_rows (publish_plugin r s) = event_rows s"
  "event_sequence (publish_plugin r s) = event_sequence s"
  by (simp_all add: publish_plugin_def)

text \<open>Commands on plugins, which leave executions, plans and requests alone.\<close>

fun plugin_command :: "store_command \<Rightarrow> bool" where
  "plugin_command (UpsertPlugin r src) = True"
| "plugin_command (AcquireUses i ps) = True"
| "plugin_command (RequestRemoval p now ws) = True"
| "plugin_command (MarkFailed p details) = True"
| "plugin_command (ResumeRemoval p) = True"
| "plugin_command (FinalizeRemoval p) = True"
| "plugin_command (RemovePlugin p) = True"
| "plugin_command (EnablePlugin p b) = True"
| "plugin_command c = False"

lemmas plugin_defs = upsert_plugin_install_with_source_def acquire_plugin_uses_def
  request_plugin_removal_def mark_plugin_removal_failed_def resume_plugin_removal_def
  finalize_plugin_removal_def remove_plugin_install_def delete_plugin_def set_plugin_enabled_def

lemma plugin_frame:
  assumes "plugin_command c"
  shows "execution_rows (apply_command env c s) = execution_rows s
    \<and> plan_rows (apply_command env c s) = plan_rows s
    \<and> idempotency_rows (apply_command env c s) = idempotency_rows s
    \<and> reservation_rows (apply_command env c s) = reservation_rows s
    \<and> event_rows (apply_command env c s) = event_rows s
    \<and> event_sequence (apply_command env c s) = event_sequence s"
proof (cases c)
  case (UpsertPlugin r src)
  then show ?thesis
    by (auto simp: after_def upsert_plugin_install_with_source_def rbind_unit_Inr Let_def
        split: sum.splits option.splits if_splits)
next
  case (AcquireUses i ps)
  then show ?thesis
    by (auto simp: after_def acquire_plugin_uses_def split: sum.splits if_splits
        dest!: acquire_each_same simp: same_but_pins_frame)
next
  case (RequestRemoval p now ws)
  then show ?thesis
    by (auto simp: after_def request_plugin_removal_def rbind_Inr split: sum.splits if_splits
        dest!: block_workflows_frame)
qed (use assms in \<open>auto simp: after_def mark_plugin_removal_failed_def resume_plugin_removal_def
    finalize_plugin_removal_def remove_plugin_install_def delete_plugin_def set_plugin_enabled_def Let_def
    split: sum.splits option.splits if_splits\<close>)

section \<open>Recovery, row by row\<close>

definition recovered_row :: "timestamp \<Rightarrow> store \<Rightarrow> execution_row \<Rightarrow> execution_row \<Rightarrow> execution_row" where
  "recovered_row now s e r =
     r\<lparr>exec_status := fst (recovered_status s e),
       exec_completed := (if fst (recovered_status s e) = ''queued'' then None else Some now),
       exec_error := snd (recovered_status s e)\<rparr>"

lemma recovered_status_frame:
  "plan_rows s' = plan_rows s \<Longrightarrow> checkpoint_rows s' = checkpoint_rows s
    \<Longrightarrow> recovered_status s' e = recovered_status s e"
  by (simp add: recovered_status_def resumable_def)

lemma exec_id_recovered_row [simp]: "exec_id (recovered_row now s e r) = exec_id r"
  by (simp add: recovered_row_def)

lemma recover_execution_rows:
  "execution_rows (recover_execution now e s)
     = update_rows (\<lambda>r. exec_id r = exec_id e) (recovered_row now s e) (execution_rows s)"
  by (simp add: recover_execution_def recovered_row_def [abs_def] split: prod.split)

lemma fold_recover_rows:
  "distinct (map exec_id es) \<Longrightarrow>
    execution_rows (fold (recover_execution now) es s)
      = map (\<lambda>r. case find (\<lambda>e. exec_id e = exec_id r) es of
                None \<Rightarrow> r | Some e \<Rightarrow> recovered_row now s e r) (execution_rows s)"
proof (induction es arbitrary: s)
  case (Cons e es)
  let ?s' = "recover_execution now e s"
  have same: "recovered_row now ?s' x = recovered_row now s x" for x
    using recovered_status_frame [of ?s' s x]
    by (simp add: recovered_row_def [abs_def] recover_execution_def split: prod.split)
  have "find (\<lambda>x. exec_id x = exec_id e) es = None"
    using Cons.prems by (auto simp: find_key_None)
  with Cons show ?case
    by (auto simp: recover_execution_rows same update_rows_def split: option.split)
qed (simp add: map_idI)

lemma recover_rows:
  assumes "distinct (map exec_id (execution_rows s))"
  shows "execution_rows (snd (recover_incomplete_executions now s))
    = map (\<lambda>r. if exec_status r \<in> {''running'', ''cancelling''} then recovered_row now s r r else r)
        (execution_rows s)"
proof -
  let ?es = "interrupted_rows s"
  have d: "distinct (map exec_id ?es)" using assms by (simp add: interrupted_rows_def distinct_map_filter)
  have "find (\<lambda>e. exec_id e = exec_id r) ?es
      = (if exec_status r \<in> {''running'', ''cancelling''} then Some r else None)"
    if "r \<in> set (execution_rows s)" for r
  proof (cases "exec_status r \<in> {''running'', ''cancelling''}")
    case True
    with that find_key_eq [OF d, of r] show ?thesis by (simp add: interrupted_rows_def)
  next
    case False
    have "exec_id r \<notin> exec_id ` set ?es"
    proof
      assume "exec_id r \<in> exec_id ` set ?es"
      then obtain x where "x \<in> set (execution_rows s)" "exec_id x = exec_id r"
        "exec_status x \<in> {''running'', ''cancelling''}" by (auto simp: interrupted_rows_def)
      with assms that False show False by (metis distinct_map inj_onD)
    qed
    with False show ?thesis by (simp add: find_key_None)
  qed
  with fold_recover_rows [OF d] show ?thesis
    by (auto simp: recover_incomplete_executions_def intro!: map_cong)
qed

lemma find_map_key:
  "(\<And>x. key (g x) = key x) \<Longrightarrow> find (\<lambda>x. key x = i) (map g xs) = map_option g (find (\<lambda>x. key x = i) xs)"
  by (induction xs) auto

lemma find_append_Some: "find P xs = Some x \<Longrightarrow> find P (xs @ ys) = Some x"
  by (induction xs) (auto split: if_splits)

section \<open>How a row can change\<close>

text \<open>The transitions of the status of an execution, apart from those of \<open>finish_execution\<close>.\<close>

definition status_transition :: "string \<Rightarrow> string \<Rightarrow> bool" where
  "status_transition a b =
     ((a, b) \<in> set [(''queued'', ''running''), (''queued'', ''cancelled''),
        (''running'', ''cancelling''), (''running'', ''queued''), (''running'', ''interrupted''),
        (''cancelling'', ''cancelled'')])"

definition row_step :: "store_command \<Rightarrow> execution_row \<Rightarrow> execution_row \<Rightarrow> bool" where
  "row_step c e e' \<longleftrightarrow>
     e' = e\<lparr>exec_pinned := exec_pinned e'\<rparr>
     \<or> exec_status e \<in> set live_statuses
       \<and> e' = e\<lparr>exec_status := exec_status e', exec_completed := exec_completed e',
                 exec_error := exec_error e'\<rparr>
       \<and> (status_transition (exec_status e) (exec_status e')
          \<or> (\<exists>now err. c = Finish (exec_id e) now (exec_status e') err))"

lemma row_step_refl [simp]: "row_step c e e"
  by (simp add: row_step_def)

lemma row_of_same: "execution_rows s' = execution_rows s \<Longrightarrow> execution_row_of s' i = execution_row_of s i"
  by (simp add: execution_row_of_def)

lemma row_unique:
  assumes "distinct (map exec_id (execution_rows s))" and "execution_row_of s i = Some e"
    and "e' \<in> set (execution_rows s)" and "exec_id e' = i"
  shows "e' = e"
  using find_key_eq [OF assms(1,3)] assms(2,4) by (simp add: execution_row_of_def)

lemma claim_row:
  assumes "distinct (map exec_id (execution_rows s))" and "execution_row_of s i = Some e"
    and "execution_row_of (snd (claim_execution_slot j now limit s)) i = Some e'"
  shows "row_step c e e'"
  using assms
  by (auto simp: claim_execution_slot_def Let_def row_step_def status_transition_def live_statuses_def
      split: option.splits if_splits)

lemma recover_row:
  assumes "distinct (map exec_id (execution_rows s))" and "execution_row_of s i = Some e"
    and "execution_row_of (snd (recover_incomplete_executions now s)) i = Some e'"
  shows "row_step c e e'"
proof -
  have "e' = (if exec_status e \<in> {''running'', ''cancelling''} then recovered_row now s e e else e)"
    using assms find_map_key [of exec_id "\<lambda>r. if exec_status r \<in> {''running'', ''cancelling''}
        then recovered_row now s r r else r" i "execution_rows s"]
    by (simp add: execution_row_of_def recover_rows)
  then show ?thesis
    by (auto simp: row_step_def recovered_row_def recovered_status_def status_transition_def
        live_statuses_def)
qed

lemma retention_row:
  assumes "distinct (map exec_id (execution_rows s))" and "execution_row_of s i = Some e"
    and "execution_row_of (apply_retention a b s) i = Some e'"
  shows "e' = e"
  using row_unique [OF assms(1,2), of e'] execution_row_of_Some [OF assms(3)]
  by (auto simp: apply_retention_def Let_def)

lemma command_row:
  assumes ids: "distinct (map exec_id (execution_rows s))"
    and e: "execution_row_of s i = Some e"
    and e': "execution_row_of (apply_command env c s) i = Some e'"
  shows "row_step c e e'"
proof (cases "quiet c \<or> plugin_command c")
  case True
  then have "execution_rows (apply_command env c s) = execution_rows s"
    using quiet_frame plugin_frame by blast
  with e e' row_of_same [of "apply_command env c s" s i] show ?thesis by simp
next
  case False
  note steps = row_step_def status_transition_def live_statuses_def
  show ?thesis
  proof (cases c)
    case (Admit j now w revision plan identity req plugins)
    show ?thesis
    proof (rule apply_admit_cases [of env j now w revision plan identity req plugins s])
      fix f s'
      assume new: "create_execution_with_plan_guarded (decode_policy env) j now w revision plan identity
          req plugins s = Inr ((f, True), s')"
        and "apply_command env (Admit j now w revision plan identity req plugins) s = s'"
      with Admit e' admit_new(1) [OF new] find_append_Some [OF e [unfolded execution_row_of_def], of "[f]"]
      show ?thesis by (simp add: execution_row_of_def)
    qed (use Admit e e' in simp)
  next
    case (Create j now w)
    with e e' find_append_Some [OF e [unfolded execution_row_of_def]] show ?thesis
      by (auto simp: after_def create_execution_def insert_execution_def execution_row_of_def Let_def
          split: if_splits)
  next
    case (Claim j now limit)
    with claim_row [OF ids e] e' show ?thesis by simp
  next
    case (Recover now)
    with recover_row [OF ids e] e' show ?thesis by simp
  next
    case (Retain a b)
    with retention_row [OF ids e] e' show ?thesis by simp
  next
    case (Finish j now status err)
    with e e' show ?thesis
      by (cases "i = j") (auto simp: after_def finish_execution_def row_step_def
          dest: execution_row_of_Some split: option.splits if_splits)
  next
    case (Cancel j)
    with e e' show ?thesis
      by (cases "i = j") (auto simp: request_execution_cancel_def steps split: option.splits if_splits)
  next
    case (CancelOutcome j now)
    with e e' show ?thesis
      by (cases "i = j") (auto simp: request_execution_cancel_outcome_def steps split: option.splits if_splits)
  next
    case (CancelQueued j now)
    with e e' show ?thesis
      by (cases "i = j") (auto simp: cancel_queued_execution_def steps split: option.splits if_splits)
  next
    case (SetPinned j b)
    with e e' show ?thesis
      by (cases "i = j") (auto simp: set_execution_pinned_def execution_row_of_def find_update_rows row_step_def)
  qed (use False in simp_all)
qed

section \<open>Keys and references\<close>

text \<open>The execution a command adds a row for, when it succeeds.\<close>

fun creates :: "store_command \<Rightarrow> string option" where
  "creates (Create i now w) = Some i"
| "creates (Admit i now w revision plan identity req plugins) = Some i"
| "creates c = None"

fun deletes :: "store_command \<Rightarrow> bool" where
  "deletes (Retain a b) = True"
| "deletes c = False"

lemma fold_recover_ids [simp]:
  "map exec_id (execution_rows (fold (recover_execution now) es s)) = map exec_id (execution_rows s)"
  by (induction es arbitrary: s) (simp_all add: recover_execution_rows)

lemma update_frame:
  assumes "creates c = None" and "\<not> deletes c"
  shows "map exec_id (execution_rows (apply_command env c s)) = map exec_id (execution_rows s)
    \<and> plan_rows (apply_command env c s) = plan_rows s
    \<and> idempotency_rows (apply_command env c s) = idempotency_rows s"
proof (cases "quiet c \<or> plugin_command c")
  case True
  with quiet_frame [of c env s] plugin_frame [of c env s] show ?thesis by auto
next
  case False
  then show ?thesis
  proof (cases c)
    case (Finish j now status err)
    then show ?thesis
      by (cases "execution_row_of s j") (auto simp: after_def finish_execution_def split: if_splits)
  next
    case (Claim j now limit)
    then show ?thesis by (auto simp: claim_execution_slot_def Let_def split: option.splits)
  next
    case (Cancel j)
    then show ?thesis
      by (cases "execution_row_of s j") (auto simp: request_execution_cancel_def split: if_splits)
  next
    case (CancelOutcome j now)
    then show ?thesis
      by (cases "execution_row_of s j") (auto simp: request_execution_cancel_outcome_def split: if_splits)
  next
    case (CancelQueued j now)
    then show ?thesis
      by (cases "execution_row_of s j") (auto simp: cancel_queued_execution_def split: if_splits)
  next
    case (Recover now)
    then show ?thesis by (simp add: recover_incomplete_executions_def)
  next
    case (SetPinned j b)
    then show ?thesis by (simp add: set_execution_pinned_def)
  qed (use assms in simp_all)
qed

definition refs_ok :: "store \<Rightarrow> bool" where
  "refs_ok s \<longleftrightarrow>
     distinct (map exec_id (execution_rows s))
     \<and> distinct (map fst (idempotency_rows s))
     \<and> (\<forall>(key, hash, i) \<in> set (idempotency_rows s). i \<in> exec_id ` set (execution_rows s))
     \<and> plan_execution ` set (plan_rows s) \<subseteq> exec_id ` set (execution_rows s)"

lemma refs_ok_ids: "refs_ok s \<Longrightarrow> distinct (map exec_id (execution_rows s))"
  by (simp add: refs_ok_def)

lemma refs_ok_create:
  assumes "refs_ok s" and "execution_rows s' = execution_rows s @ [e]"
    and "exec_id e \<notin> exec_id ` set (execution_rows s)"
    and "set (map plan_execution (plan_rows s'))
      \<subseteq> insert (exec_id e) (set (map plan_execution (plan_rows s)))"
    and "idempotency_rows s' = idempotency_rows s @ idem"
    and "idem = [] \<or> (\<exists>key hash. idem = [(key, hash, exec_id e)] \<and> key \<notin> fst ` set (idempotency_rows s))"
  shows "refs_ok s'"
  using assms unfolding refs_ok_def by (auto simp: image_subset_iff subset_iff) (force simp: image_iff)

lemma map_fst_filter_distinct: "distinct (map f xs) \<Longrightarrow> distinct (map f (filter P xs))"
  by (rule distinct_map_filter)

lemma refs_ok_command: "refs_ok s \<Longrightarrow> refs_ok (apply_command env c s)"
proof -
  assume ok: "refs_ok s"
  show ?thesis
  proof (cases "creates c = None \<and> \<not> deletes c")
    case True
    with update_frame [of c env s] have *:
      "map exec_id (execution_rows (apply_command env c s)) = map exec_id (execution_rows s)"
      "plan_rows (apply_command env c s) = plan_rows s"
      "idempotency_rows (apply_command env c s) = idempotency_rows s" by auto
    from *(1) have "exec_id ` set (execution_rows (apply_command env c s)) = exec_id ` set (execution_rows s)"
      by (metis set_map)
    with ok * show ?thesis by (simp add: refs_ok_def)
  next
    case False
    then show ?thesis
    proof (cases c)
      case (Create i now w)
      with ok show ?thesis
        by (cases "create_execution i now w s")
          (auto simp: after_def create_execution_def insert_execution_def new_execution_def Let_def
            split: if_splits intro!: refs_ok_create [of s _ "new_execution i w ''running'' now" "[]"])
    next
      case (Admit i now w revision plan identity req plugins)
      show ?thesis
      proof (rule apply_admit_cases [of env i now w revision plan identity req plugins s])
        fix f s'
        assume *: "create_execution_with_plan_guarded (decode_policy env) i now w revision plan identity
            req plugins s = Inr ((f, True), s')"
          and s': "apply_command env (Admit i now w revision plan identity req plugins) s = s'"
        note new = admit_new [OF *]
        have "refs_ok s'"
          using new by (intro refs_ok_create [OF ok new(1)]) (auto split: option.splits)
        with Admit s' show ?thesis by simp
      qed (use ok Admit in simp)
    next
      case (Retain a b)
      let ?gone = "map exec_id (filter (\<lambda>e. (case exec_completed e of None \<Rightarrow> False | Some t \<Rightarrow> t < a)
          \<and> \<not> exec_pinned e) (execution_rows s))"
      have kept: "i \<in> exec_id ` set (execution_rows (apply_retention a b s))"
        if "i \<in> exec_id ` set (execution_rows s)" "i \<notin> set ?gone" for i
        using that by (auto simp: apply_retention_def Let_def)
      show ?thesis
        using ok Retain kept unfolding refs_ok_def
        by (auto simp: apply_retention_def Let_def map_fst_filter_distinct)
    qed simp_all
  qed
qed

interpretation refs: store_invariant env refs_ok for env
  by unfold_locales (rule refs_ok_command)

end
