(* ===== verification/Plugin_Pins.thy ===== *)
theory Plugin_Pins
  imports Store_Life
begin

text \<open>
  Plugins and the pins that executions hold on them: every command keeps the plugin tables in step,
  a pin belongs to an execution that has not ended, and as long as a plugin is pinned what is
  installed is what was pinned.
\<close>

section \<open>Plugins and pins\<close>

definition plugins_ok :: "store \<Rightarrow> bool" where
  "plugins_ok s \<longleftrightarrow>
     distinct (map plugin_id (plugin_rows s))
     \<and> map life_plugin (lifecycle_rows s) = map plugin_id (plugin_rows s)
     \<and> (\<forall>r \<in> set (plugin_rows s). plugin_enabled r \<longrightarrow> plugin_active s (plugin_id r))"

text \<open>A pin is for an execution that has not ended, and for the plugin as it is installed.\<close>

definition pin_live :: "store \<Rightarrow> pin_row \<Rightarrow> bool" where
  "pin_live s x \<longleftrightarrow>
     (\<exists>e \<in> set (execution_rows s). exec_id e = pin_execution x \<and> exec_status e \<notin> set releasing_statuses)"

definition pin_current :: "store \<Rightarrow> pin_row \<Rightarrow> bool" where
  "pin_current s x \<longleftrightarrow>
     (\<exists>r \<in> set (plugin_rows s). plugin_id r = pin_plugin x \<and> plugin_version r = pin_version x
        \<and> plugin_digest r = pin_digest x \<and> plugin_path r = pin_path x)"

definition pins_ok :: "store \<Rightarrow> bool" where
  "pins_ok s \<longleftrightarrow> (\<forall>x \<in> set (pin_rows s). pin_live s x \<and> pin_current s x)"

lemma pins_ok_same:
  assumes "pins_ok s" and "execution_rows s' = execution_rows s" and "plugin_rows s' = plugin_rows s"
    and "set (pin_rows s') \<subseteq> set (pin_rows s)"
  shows "pins_ok s'"
  using assms by (auto simp: pins_ok_def pin_live_def pin_current_def)

lemma pins_ok_update_execution:
  assumes "pins_ok s" and id: "\<And>e. exec_id (f e) = exec_id e"
  shows "pins_ok (update_execution i f s)"
  unfolding pins_ok_def
proof
  let ?s' = "update_execution i f s"
  fix x assume x: "x \<in> set (pin_rows ?s')"
  then have old: "x \<in> set (pin_rows s)" by (auto simp: update_execution_def Let_def split: if_splits)
  with assms(1) obtain e where e: "e \<in> set (execution_rows s)" "exec_id e = pin_execution x"
    "exec_status e \<notin> set releasing_statuses" and current: "pin_current s x"
    by (auto simp: pins_ok_def pin_live_def)
  have "pin_live ?s' x"
  proof (cases "pin_execution x = i")
    case True
    with e(1,2) have "f e \<in> set (execution_rows ?s')" "exec_id (f e) = i"
      by (auto simp: set_update_rows image_iff id)
    moreover from this x True have "exec_status (f e) \<notin> set releasing_statuses"
      by (auto simp: update_execution_def Let_def list_ex_iff split: if_splits)
    ultimately show ?thesis using True by (auto simp: pin_live_def)
  next
    case False
    with e have "e \<in> set (execution_rows ?s')" by (force simp: set_update_rows)
    with e show ?thesis by (auto simp: pin_live_def)
  qed
  with current show "pin_live ?s' x \<and> pin_current ?s' x" by (simp add: pin_current_def)
qed

lemma pins_ok_frames:
  "pins_ok (append_event t r x p now s) = pins_ok s" "pins_ok (close_spans i st now err s) = pins_ok s"
  by (simp_all add: pins_ok_def pin_live_def pin_current_def)

lemma pins_ok_insert_pin:
  assumes "pins_ok s" and "\<exists>e \<in> set (execution_rows s). exec_id e = i \<and> exec_status e \<notin> set releasing_statuses"
  shows "pins_ok (insert_pin i r s)"
proof -
  obtain p v m d where r: "r = (p, v, m, d)" by (cases r) auto
  show ?thesis
  proof (cases "find (\<lambda>r. plugin_id r = p \<and> plugin_enabled r \<and> plugin_active s p \<and> matches v (plugin_version r)
      \<and> matches m (plugin_path r) \<and> matches d (plugin_digest r)) (plugin_rows s)")
    case (Some q)
    then have "q \<in> set (plugin_rows s)" "plugin_id q = p" by (auto simp: find_Some_iff)
    with assms Some show ?thesis
      by (auto simp: insert_pin_def r pins_ok_def pin_live_def pin_current_def)
  qed (use assms in \<open>simp add: insert_pin_def r\<close>)
qed

lemma pins_ok_pin_plugins:
  "pins_ok s \<Longrightarrow> \<exists>e \<in> set (execution_rows s). exec_id e = i \<and> exec_status e \<notin> set releasing_statuses
    \<Longrightarrow> pin_plugins i rs s = Inr s' \<Longrightarrow> pins_ok s'"
proof (induction rs arbitrary: s)
  case (Cons r rs)
  from Cons.IH [OF pins_ok_insert_pin [OF Cons.prems(1,2)]] Cons.prems show ?case
    by (auto simp: Let_def split: if_splits)
qed simp

lemma pins_ok_acquire_each:
  "pins_ok s \<Longrightarrow> \<exists>e \<in> set (execution_rows s). exec_id e = i \<and> exec_status e \<notin> set releasing_statuses
    \<Longrightarrow> acquire_each i ps s = Inr s' \<Longrightarrow> pins_ok s'"
proof (induction ps arbitrary: s)
  case (Cons p ps)
  from Cons.IH [OF pins_ok_insert_pin [OF Cons.prems(1,2)]] Cons.prems show ?case
    by (auto simp: Let_def split: if_splits)
qed simp

lemma pins_ok_add_execution:
  "pins_ok s \<Longrightarrow> pins_ok (s\<lparr>execution_rows := execution_rows s @ [e]\<rparr>)"
  by (auto simp: pins_ok_def pin_live_def pin_current_def)

lemma pins_ok_admit:
  assumes "pins_ok s"
    and "create_execution_with_plan_guarded decode i now w revision plan identity req plugins s
      = Inr ((e, True), s')"
  shows "pins_ok s'"
proof -
  from assms(2) obtain status s2 s3 where *:
    "pin_plugins i plugins (s\<lparr>execution_rows := execution_rows s @ [e]\<rparr>) = Inr s2"
    "save_plan i now revision plan identity s2 = Inr s3"
    "s' = append_event (started_event status) w (Some i) (started_payload w status) now s3"
    by (rule admit_cases) blast+
  have "exec_id e = i" "exec_status e \<notin> set releasing_statuses"
    using admit_new(2,5) [OF assms(2)] by (auto simp: releasing_statuses_def)
  with pins_ok_pin_plugins [OF pins_ok_add_execution [OF assms(1)] _ *(1)] have "pins_ok s2" by auto
  then have "pins_ok s3" by (rule pins_ok_same) (simp_all add: save_plan_frame [OF *(2)])
  then show ?thesis by (simp add: *(3) pins_ok_frames)
qed

text \<open>Plugin rows that keep their content, and rows of plugins without pins.\<close>

lemma pins_ok_update_plugins:
  assumes "pins_ok s" and "execution_rows s' = execution_rows s" and "pin_rows s' = pin_rows s"
    and "\<And>r. r \<in> set (plugin_rows s) \<Longrightarrow> list_ex (\<lambda>x. pin_plugin x = plugin_id r) (pin_rows s) \<Longrightarrow>
      \<exists>r' \<in> set (plugin_rows s'). plugin_id r' = plugin_id r \<and> plugin_version r' = plugin_version r
        \<and> plugin_digest r' = plugin_digest r \<and> plugin_path r' = plugin_path r"
  shows "pins_ok s'"
  unfolding pins_ok_def
proof
  fix x assume x: "x \<in> set (pin_rows s')"
  with assms(1,3) obtain r where r: "r \<in> set (plugin_rows s)" "plugin_id r = pin_plugin x"
    "plugin_version r = pin_version x" "plugin_digest r = pin_digest x" "plugin_path r = pin_path x"
    and live: "pin_live s x" by (auto simp: pins_ok_def pin_current_def)
  from x assms(3) r(2) have "list_ex (\<lambda>x. pin_plugin x = plugin_id r) (pin_rows s)"
    by (auto simp: list_ex_iff)
  from assms(4) [OF r(1) this] r live assms(2) show "pin_live s' x \<and> pin_current s' x"
    by (auto simp: pin_live_def pin_current_def)
qed

lemma pins_ok_other_plugins:
  assumes "pins_ok s" and "execution_rows s' = execution_rows s" and "pin_rows s' = pin_rows s"
    and "\<not> list_ex (\<lambda>x. pin_plugin x = p) (pin_rows s)"
    and "{r \<in> set (plugin_rows s). plugin_id r \<noteq> p} \<subseteq> set (plugin_rows s')"
  shows "pins_ok s'"
  using assms(1-3)
proof (rule pins_ok_update_plugins)
  fix r assume "r \<in> set (plugin_rows s)" "list_ex (\<lambda>x. pin_plugin x = plugin_id r) (pin_rows s)"
  with assms(4,5) have "r \<in> set (plugin_rows s')" by auto
  then show "\<exists>r' \<in> set (plugin_rows s'). plugin_id r' = plugin_id r \<and> plugin_version r' = plugin_version r
      \<and> plugin_digest r' = plugin_digest r \<and> plugin_path r' = plugin_path r" by blast
qed

lemma pins_ok_enable:
  assumes "pins_ok s" and "execution_rows s' = execution_rows s" and "pin_rows s' = pin_rows s"
    and "plugin_rows s' = update_rows P (\<lambda>r. r\<lparr>plugin_enabled := b\<rparr>) (plugin_rows s)"
  shows "pins_ok s'"
  using assms(1-3)
proof (rule pins_ok_update_plugins)
  fix r assume "r \<in> set (plugin_rows s)"
  then have "(if P r then r\<lparr>plugin_enabled := b\<rparr> else r) \<in> set (plugin_rows s')"
    by (auto simp: assms(4) set_update_rows)
  moreover have "plugin_id (if P r then r\<lparr>plugin_enabled := b\<rparr> else r) = plugin_id r
      \<and> plugin_version (if P r then r\<lparr>plugin_enabled := b\<rparr> else r) = plugin_version r
      \<and> plugin_digest (if P r then r\<lparr>plugin_enabled := b\<rparr> else r) = plugin_digest r
      \<and> plugin_path (if P r then r\<lparr>plugin_enabled := b\<rparr> else r) = plugin_path r" by simp
  ultimately show "\<exists>r' \<in> set (plugin_rows s'). plugin_id r' = plugin_id r \<and> plugin_version r' = plugin_version r
      \<and> plugin_digest r' = plugin_digest r \<and> plugin_path r' = plugin_path r" by blast
qed

lemma pins_ok_publish:
  assumes "pins_ok s"
    and "\<not> list_ex (\<lambda>x. pin_plugin x = plugin_id r) (pin_rows s) \<or> plugin_id r \<notin> plugin_id ` set (plugin_rows s)"
  shows "pins_ok (publish_plugin r s)"
proof (cases "plugin_id r \<in> plugin_id ` set (plugin_rows s)")
  case True
  with assms show ?thesis
    by (intro pins_ok_other_plugins [OF assms(1), of _ "plugin_id r"])
      (auto simp: publish_plugin_def set_update_rows)
next
  case False
  then show ?thesis
    by (intro pins_ok_update_plugins [OF assms(1)]) (auto simp: publish_plugin_def)
qed

lemma pins_ok_plugin_command:
  assumes "pins_ok s" and "plugin_command c"
  shows "pins_ok (apply_command env c s)"
proof (cases c)
  case (UpsertPlugin r src)
  then show ?thesis
    by (auto simp: after_def upsert_plugin_install_with_source_def rbind_unit_Inr Let_def
        split: sum.splits option.splits if_splits intro: assms(1) pins_ok_publish [OF assms(1)]
          pins_ok_same [OF pins_ok_publish [OF assms(1)]])
next
  case (AcquireUses i ps)
  show ?thesis
  proof (cases "acquire_plugin_uses i ps s")
    case (Inr s')
    then obtain e where "execution_row_of s i = Some e" "exec_status e \<in> set (live_statuses @ [''recoverable''])"
      and each: "acquire_each i ps s = Inr s'"
      by (auto simp: acquire_plugin_uses_def split: if_splits option.splits)
    then have "\<exists>e \<in> set (execution_rows s). exec_id e = i \<and> exec_status e \<notin> set releasing_statuses"
      by (auto dest!: execution_row_of_Some simp: live_statuses_def releasing_statuses_def)
    with pins_ok_acquire_each [OF assms(1) _ each] AcquireUses Inr show ?thesis by (simp add: after_def)
  qed (use AcquireUses assms(1) in \<open>simp add: after_def\<close>)
next
  case (RequestRemoval p now ws)
  with assms(1) show ?thesis
    by (auto simp: after_def request_plugin_removal_def rbind_Inr
        split: sum.splits if_splits dest!: block_workflows_frame intro: pins_ok_enable [of s])
next
  case (EnablePlugin p b)
  with assms(1) show ?thesis
    by (auto simp: after_def set_plugin_enabled_def Let_def
        split: sum.splits if_splits intro: pins_ok_enable [of s])
next
  case (FinalizeRemoval p)
  with assms(1) show ?thesis
    by (auto simp: after_def finalize_plugin_removal_def delete_plugin_def
        split: sum.splits option.splits if_splits intro: pins_ok_other_plugins [of s _ p])
next
  case (RemovePlugin p)
  with assms(1) show ?thesis
    by (auto simp: after_def remove_plugin_install_def delete_plugin_def
        split: sum.splits option.splits if_splits intro: pins_ok_other_plugins [of s _ p])
qed (use assms in \<open>auto simp: after_def mark_plugin_removal_failed_def resume_plugin_removal_def Let_def
    split: sum.splits if_splits intro!: pins_ok_same [of s]\<close>)

lemma pins_ok_retention:
  assumes "pins_ok s"
  shows "pins_ok (apply_retention a b s)"
  unfolding pins_ok_def
proof
  let ?s' = "apply_retention a b s"
  fix x assume x: "x \<in> set (pin_rows ?s')"
  then have "x \<in> set (pin_rows s)" by (auto simp: apply_retention_def Let_def)
  with assms obtain e where e: "e \<in> set (execution_rows s)" "exec_id e = pin_execution x"
    "exec_status e \<notin> set releasing_statuses" and "pin_current s x"
    by (auto simp: pins_ok_def pin_live_def)
  moreover have "e \<in> set (execution_rows ?s')"
    using x e by (force simp: apply_retention_def Let_def)
  ultimately show "pin_live ?s' x \<and> pin_current ?s' x"
    by (auto simp: pin_live_def pin_current_def apply_retention_def Let_def)
qed

lemma pins_ok_recover_execution: "pins_ok s \<Longrightarrow> pins_ok (recover_execution now e s)"
  by (simp add: recover_execution_def pins_ok_frames pins_ok_update_execution split: prod.split)

lemma pins_ok_recover: "pins_ok s \<Longrightarrow> pins_ok (fold (recover_execution now) es s)"
  by (induction es arbitrary: s) (simp_all add: pins_ok_recover_execution)

lemma pins_ok_set_pinned:
  assumes "pins_ok s"
  shows "pins_ok (snd (set_execution_pinned i b s))"
proof -
  let ?s' = "snd (set_execution_pinned i b s)"
  have "pin_live ?s' x" if "pin_live s x" for x
  proof -
    from that obtain e where e: "e \<in> set (execution_rows s)" "exec_id e = pin_execution x"
      "exec_status e \<notin> set releasing_statuses" by (auto simp: pin_live_def)
    let ?e = "if exec_id e = i then e\<lparr>exec_pinned := b\<rparr> else e"
    from e have "?e \<in> set (execution_rows ?s')" by (simp add: set_execution_pinned_def set_update_rows)
    with e show ?thesis unfolding pin_live_def by (intro bexI [of _ ?e]) auto
  qed
  with assms show ?thesis by (auto simp: pins_ok_def pin_current_def set_execution_pinned_def)
qed

lemma pins_ok_command: "pins_ok s \<Longrightarrow> pins_ok (apply_command env c s)"
proof (cases "quiet c \<or> plugin_command c")
  case True
  assume "pins_ok s"
  with True show ?thesis
    using quiet_frame [of c env s] pins_ok_same [of s "apply_command env c s"] pins_ok_plugin_command by auto
next
  case False
  assume ok: "pins_ok s"
  note updates = pins_ok_frames pins_ok_update_execution [OF ok]
  show ?thesis
  proof (cases c)
    case (Create i now w)
    with ok show ?thesis
      by (auto simp: after_def create_execution_def insert_execution_def Let_def pins_ok_frames
          split: sum.splits if_splits intro: pins_ok_add_execution)
  next
    case (Admit i now w revision plan identity req plugins)
    show ?thesis
      by (rule apply_admit_cases [of env i now w revision plan identity req plugins s])
        (use ok Admit pins_ok_admit [OF ok] in auto)
  next
    case (Claim i now limit)
    with ok show ?thesis
      by (auto simp: claim_execution_slot_def Let_def updates split: option.splits)
  next
    case (Finish i now status err)
    with ok show ?thesis
      by (cases "execution_row_of s i") (auto simp: after_def finish_execution_def updates)
  next
    case (Recover now)
    with ok show ?thesis by (simp add: recover_incomplete_executions_def pins_ok_recover)
  next
    case (Cancel i)
    with ok show ?thesis
      by (cases "execution_row_of s i") (auto simp: request_execution_cancel_def updates)
  next
    case (CancelOutcome i now)
    with ok show ?thesis
      by (cases "execution_row_of s i") (auto simp: request_execution_cancel_outcome_def updates)
  next
    case (CancelQueued i now)
    with ok show ?thesis
      by (cases "execution_row_of s i") (auto simp: cancel_queued_execution_def updates)
  next
    case (SetPinned i b)
    with ok show ?thesis by (simp add: pins_ok_set_pinned)
  next
    case (Retain a b)
    with ok show ?thesis by (simp add: pins_ok_retention)
  qed (use False in simp_all)
qed

interpretation pins: store_invariant env pins_ok for env
  by unfold_locales (rule pins_ok_command)

section \<open>The plugin tables\<close>

lemma plugins_ok_same:
  "plugins_ok s \<Longrightarrow> plugin_rows s' = plugin_rows s \<Longrightarrow> lifecycle_rows s' = lifecycle_rows s \<Longrightarrow> plugins_ok s'"
  by (simp add: plugins_ok_def plugin_active_def)

lemma other_frame:
  assumes "\<not> plugin_command c"
  shows "plugin_rows (apply_command env c s) = plugin_rows s
    \<and> lifecycle_rows (apply_command env c s) = lifecycle_rows s"
proof (cases "quiet c")
  case True
  with quiet_frame [OF True, of env s] show ?thesis by simp
next
  case False
  with assms show ?thesis
  proof (cases c)
    case (Admit i now w revision plan identity req plugins)
    show ?thesis
      by (rule apply_admit_cases [of env i now w revision plan identity req plugins s])
        (use Admit admit_new(6,7) in auto)
  next
    case (Create i now w)
    then show ?thesis
      by (auto simp: after_def create_execution_def insert_execution_def Let_def split: sum.splits if_splits)
  next
    case (Claim i now limit)
    then show ?thesis by (auto simp: claim_execution_slot_def Let_def split: option.splits)
  next
    case (Finish i now status err)
    then show ?thesis by (cases "execution_row_of s i") (auto simp: after_def finish_execution_def)
  next
    case (Recover now)
    then show ?thesis by (simp add: recover_incomplete_executions_def)
  next
    case (Cancel i)
    then show ?thesis by (cases "execution_row_of s i") (auto simp: request_execution_cancel_def)
  next
    case (CancelOutcome i now)
    then show ?thesis by (cases "execution_row_of s i") (auto simp: request_execution_cancel_outcome_def)
  next
    case (CancelQueued i now)
    then show ?thesis by (cases "execution_row_of s i") (auto simp: cancel_queued_execution_def)
  qed (simp_all add: set_execution_pinned_def apply_retention_def Let_def)
qed

lemma active_update:
  assumes "\<And>l. life_plugin (f l) = life_plugin l"
    and "\<And>l. P l \<Longrightarrow> life_plugin l = p \<Longrightarrow> life_status (f l) = ''active'' \<longleftrightarrow> life_status l = ''active''"
  shows "list_ex (\<lambda>l. life_plugin l = p \<and> life_status l = ''active'') (update_rows P f ls)
    = list_ex (\<lambda>l. life_plugin l = p \<and> life_status l = ''active'') ls"
  using assms by (induction ls) (auto simp: update_rows_def)

lemma plugins_ok_life:
  assumes "plugins_ok s" and "plugin_rows s' = plugin_rows s"
    and "lifecycle_rows s' = update_rows P f (lifecycle_rows s)"
    and "\<And>l. life_plugin (f l) = life_plugin l"
    and "\<And>l. P l \<Longrightarrow> life_status (f l) = ''active'' \<longleftrightarrow> life_status l = ''active''"
  shows "plugins_ok s'"
  using assms by (simp add: plugins_ok_def plugin_active_def active_update)

lemma plugins_ok_publish:
  assumes "plugins_ok s" and "plugin_id r \<in> plugin_id ` set (plugin_rows s) \<Longrightarrow> plugin_active s (plugin_id r)"
  shows "plugins_ok (publish_plugin r s)"
proof (cases "plugin_id r \<in> plugin_id ` set (plugin_rows s)")
  case True
  have "map plugin_id (update_rows (\<lambda>x. plugin_id x = plugin_id r) (\<lambda>_. r) (plugin_rows s))
      = map plugin_id (plugin_rows s)"
    by (auto simp: update_rows_def)
  with True assms show ?thesis
    by (auto simp: publish_plugin_def plugins_ok_def plugin_active_def set_update_rows)
next
  case False
  with assms(1) show ?thesis by (auto simp: publish_plugin_def plugins_ok_def plugin_active_def)
qed

lemma filter_ids_cong:
  "map f xs = map g ys \<Longrightarrow> map f (filter (\<lambda>x. f x \<noteq> p) xs) = map g (filter (\<lambda>y. g y \<noteq> p) ys)"
  by (induction xs arbitrary: ys) (auto simp: Cons_eq_map_conv)

lemma plugins_ok_delete:
  assumes "plugins_ok s"
  shows "plugins_ok (delete_plugin p s)"
  using assms filter_ids_cong [of life_plugin "lifecycle_rows s" plugin_id "plugin_rows s" p]
  by (fastforce simp: delete_plugin_def plugins_ok_def plugin_active_def list_ex_iff distinct_map_filter)

lemma plugins_ok_request:
  assumes "plugins_ok s"
    and "plugin_rows s' = update_rows (\<lambda>r. plugin_id r = p) (\<lambda>r. r\<lparr>plugin_enabled := False\<rparr>) (plugin_rows s)"
    and "lifecycle_rows s' = update_rows (\<lambda>l. life_plugin l = p) f (lifecycle_rows s)"
    and "\<And>l. life_plugin (f l) = life_plugin l"
  shows "plugins_ok s'"
  using assms by (auto simp: plugins_ok_def plugin_active_def set_update_rows active_update)

lemma plugins_ok_enable:
  assumes "plugins_ok s" and "b \<Longrightarrow> plugin_active s p"
  shows "plugins_ok (s\<lparr>plugin_rows := update_rows (\<lambda>r. plugin_id r = p) (\<lambda>r. r\<lparr>plugin_enabled := b\<rparr>)
      (plugin_rows s)\<rparr>)"
  using assms by (auto simp: plugins_ok_def plugin_active_def set_update_rows)

lemma plugins_ok_command: "plugins_ok s \<Longrightarrow> plugins_ok (apply_command env c s)"
proof (cases "plugin_command c")
  case False
  assume "plugins_ok s"
  then show ?thesis by (rule plugins_ok_same) (simp_all add: other_frame [OF False])
next
  case True
  assume ok: "plugins_ok s"
  show ?thesis
  proof (cases c)
    case (UpsertPlugin r src)
    then show ?thesis
      by (auto simp: after_def upsert_plugin_install_with_source_def rbind_unit_Inr Let_def
          split: sum.splits option.splits if_splits intro: ok plugins_ok_publish [OF ok]
            plugins_ok_life [OF plugins_ok_publish [OF ok]])
  next
    case (AcquireUses i ps)
    then show ?thesis
      by (auto simp: after_def acquire_plugin_uses_def split: sum.splits if_splits
          intro: ok plugins_ok_same [OF ok] dest!: acquire_each_same simp: same_but_pins_frame)
  next
    case (RequestRemoval p now ws)
    then show ?thesis
      by (auto simp: after_def request_plugin_removal_def rbind_Inr split: sum.splits if_splits
          dest!: block_workflows_frame intro: ok plugins_ok_request [OF ok])
  next
    case (MarkFailed p details)
    then show ?thesis
      by (auto simp: after_def mark_plugin_removal_failed_def split: sum.splits if_splits
          intro: ok plugins_ok_life [OF ok])
  next
    case (ResumeRemoval p)
    then show ?thesis
      by (auto simp: resume_plugin_removal_def Let_def intro: plugins_ok_life [OF ok])
  next
    case (FinalizeRemoval p)
    with ok show ?thesis
      by (auto simp: after_def finalize_plugin_removal_def plugins_ok_delete
          split: sum.splits option.splits if_splits)
  next
    case (RemovePlugin p)
    with ok show ?thesis
      by (auto simp: after_def remove_plugin_install_def plugins_ok_delete
          split: sum.splits option.splits if_splits)
  next
    case (EnablePlugin p b)
    with ok show ?thesis
      by (auto simp: after_def set_plugin_enabled_def Let_def plugins_ok_enable
          split: sum.splits if_splits)
  qed (use True in simp_all)
qed

interpretation plugins: store_invariant env plugins_ok for env
  by unfold_locales (rule plugins_ok_command)

end
