(* ===== verification/Store_Props.thy ===== *)
theory Store_Props
  imports Plugin_Pins
begin

text \<open>
  What the store promises over its whole life, for every order in which commands arrive: ended
  executions stay as they are, a request key names one execution, the run and token limits hold,
  recovery settles every execution that was running, pins protect plugins, and the event log only grows.
\<close>

section \<open>Ended executions\<close>

lemma run_commands_simps [simp]:
  "run_commands env [] s = s"
  "run_commands env (c # cs) s = run_commands env cs (apply_command env c s)"
  by (simp_all add: run_commands_def)

lemma row_ids_step:
  assumes "creates c \<noteq> Some i" and "i \<notin> exec_id ` set (execution_rows s)"
  shows "i \<notin> exec_id ` set (execution_rows (apply_command env c s))"
proof (cases "creates c = None \<and> \<not> deletes c")
  case True
  with update_frame [of c env s] have
    "map exec_id (execution_rows (apply_command env c s)) = map exec_id (execution_rows s)" by simp
  with assms(2) show ?thesis by (metis set_map)
next
  case False
  then show ?thesis
  proof (cases c)
    case (Create j now w)
    with assms show ?thesis
      by (auto simp: after_def create_execution_def insert_execution_def new_execution_def Let_def
          split: if_splits)
  next
    case (Admit j now w revision plan identity req plugins)
    show ?thesis
    proof (rule apply_admit_cases [of env j now w revision plan identity req plugins s])
      fix f s'
      assume *: "create_execution_with_plan_guarded (decode_policy env) j now w revision plan identity
          req plugins s = Inr ((f, True), s')"
        and "apply_command env (Admit j now w revision plan identity req plugins) s = s'"
      with Admit assms admit_new(1,2) [OF *] show ?thesis by auto
    qed (use assms Admit in simp)
  next
    case (Retain a b)
    with assms show ?thesis by (auto simp: apply_retention_def Let_def)
  qed simp_all
qed

lemma row_gone:
  "list_all (\<lambda>c. creates c \<noteq> Some i) cs \<Longrightarrow> execution_row_of s i = None
    \<Longrightarrow> execution_row_of (run_commands env cs s) i = None"
  by (induction cs arbitrary: s) (auto simp: execution_row_of_None row_ids_step)

lemma ended_step:
  assumes "distinct (map exec_id (execution_rows s))" and "execution_row_of s i = Some e"
    and "exec_status e \<notin> set live_statuses" and "execution_row_of (apply_command env c s) i = Some e'"
  shows "e' = e\<lparr>exec_pinned := exec_pinned e'\<rparr>"
  using command_row [OF assms(1,2,4)] assms(3) by (simp add: row_step_def)

definition empty_store :: store where
  "empty_store =
     \<lparr>workflow_rows = [], execution_rows = [], plan_rows = [], result_rows = [], idempotency_rows = [],
      checkpoint_rows = [], deadline_rows = [], reservation_rows = [], span_rows = [], plugin_rows = [],
      lifecycle_rows = [], removal_rows = [], pin_rows = [], event_rows = [], event_sequence = 0,
      revision_rows = [], node_run_rows = [], artifact_rows = [], link_rows = []\<rparr>"

lemma empty_store_ok [simp]: "refs_ok empty_store" "plugins_ok empty_store" "pins_ok empty_store"
  by (simp_all add: empty_store_def refs_ok_def plugins_ok_def pins_ok_def)

text \<open>C5: An execution that has ended stays exactly as it ended, whatever commands follow and in
  whatever order: late finishes, cancellations, claims and recoveries change nothing of it but the
  mark that protects it from retention.\<close>

theorem ended_execution_is_final:
  assumes "refs_ok s" and "execution_row_of s i = Some e"
    and "exec_status e \<notin> set live_statuses"
    and "list_all (\<lambda>c. creates c \<noteq> Some i) cs"
    and "execution_row_of (run_commands env cs s) i = Some e'"
  shows "e' = e\<lparr>exec_pinned := exec_pinned e'\<rparr>"
  using assms
proof (induction cs arbitrary: s e)
  case (Cons c cs)
  show ?case
  proof (cases "execution_row_of (apply_command env c s) i")
    case None
    with Cons.prems row_gone [of i cs "apply_command env c s" env] show ?thesis by simp
  next
    case (Some f)
    from ended_step [OF refs_ok_ids [OF Cons.prems(1)] Cons.prems(2,3) Some]
    have f: "f = e\<lparr>exec_pinned := exec_pinned f\<rparr>" .
    then have "exec_status f = exec_status e" by (metis execution_row.select_convs(3) execution_row.surjective
      execution_row.update_convs(7))
    with Cons.IH [OF refs_ok_command [OF Cons.prems(1)] Some] Cons.prems
    have "e' = f\<lparr>exec_pinned := exec_pinned e'\<rparr>" by simp
    also have "\<dots> = e\<lparr>exec_pinned := exec_pinned e'\<rparr>" by (subst f) simp
    finally show ?thesis .
  qed
qed simp

definition test_env :: store_env where
  "test_env = \<lparr>decode_policy = (\<lambda>_. Inl ''no plan''), source_ok = (\<lambda>_. Inr ()), triggers_ok = (\<lambda>_. Inr ())\<rparr>"

definition ended_store :: store where
  "ended_store =
     run_commands test_env [Create ''e'' 1 ''w'', Finish ''e'' 2 ''failed'' (Some ''boom'')] empty_store"

lemmas store_eval = run_commands_def after_def create_execution_def insert_execution_def
  new_execution_def Let_def append_event_def finish_execution_def close_spans_def update_execution_def
  update_rows_def execution_row_of_def live_statuses_def releasing_statuses_def empty_store_def

lemma ended_store_row:
  "execution_row_of ended_store ''e'' = Some \<lparr>exec_id = ''e'', exec_workflow = ''w'', exec_status = ''failed'',
    exec_created = 1, exec_completed = Some 2, exec_error = Some ''boom'', exec_pinned = False\<rparr>"
  "execution_row_of (run_commands test_env [Finish ''e'' 3 ''succeeded'' None, Cancel ''e''] ended_store) ''e''
    = execution_row_of ended_store ''e''"
  by (simp_all add: ended_store_def store_eval request_execution_cancel_def)

theorem ended_execution_is_final_witness:
  "\<exists>e e'. execution_row_of (run_commands test_env [Finish ''e'' 3 ''succeeded'' None, Cancel ''e''] ended_store)
      ''e'' = Some e' \<and> exec_status e = ''failed'' \<and> e' = e\<lparr>exec_pinned := exec_pinned e'\<rparr>"
proof -
  obtain e where e: "execution_row_of ended_store ''e'' = Some e" "exec_status e = ''failed''"
    by (simp add: ended_store_row)
  have "refs_ok ended_store" unfolding ended_store_def by (rule refs.run) simp
  from ended_execution_is_final [OF this e(1), of "[Finish ''e'' 3 ''succeeded'' None, Cancel ''e'']" test_env e]
  show ?thesis using e ended_store_row(2) by (intro exI [of _ e] exI [of _ e]) (simp add: live_statuses_def)
qed

section \<open>Request keys\<close>

lemma map_of_filter_key:
  "map_of xs k = Some v \<Longrightarrow> P (k, v) \<Longrightarrow> map_of (filter P xs) k = Some v"
  by (induction xs) (auto split: if_splits)

text \<open>The entry of a request stays as long as its execution does.\<close>

lemma request_step:
  assumes "refs_ok s" and "map_of (idempotency_rows s) key = Some (hash, i)"
    and "execution_row_of (apply_command env c s) i \<noteq> None"
  shows "map_of (idempotency_rows (apply_command env c s)) key = Some (hash, i)"
proof (cases "creates c = None \<and> \<not> deletes c")
  case True
  with update_frame [of c env s] assms(2) show ?thesis by simp
next
  case False
  then show ?thesis
  proof (cases c)
    case (Create j now w)
    with assms show ?thesis
      by (auto simp: after_def create_execution_def insert_execution_def Let_def split: if_splits)
  next
    case (Admit j now w revision plan identity req plugins)
    show ?thesis
    proof (rule apply_admit_cases [of env j now w revision plan identity req plugins s])
      fix f s'
      assume *: "create_execution_with_plan_guarded (decode_policy env) j now w revision plan identity
          req plugins s = Inr ((f, True), s')"
        and "apply_command env (Admit j now w revision plan identity req plugins) s = s'"
      with Admit assms(2) admit_new(10) [OF *] show ?thesis by (simp add: map_add_Some_iff)
    qed (use assms Admit in simp)
  next
    case (Retain a b)
    let ?old = "\<lambda>e. (case exec_completed e of None \<Rightarrow> False | Some t \<Rightarrow> t < a) \<and> \<not> exec_pinned e"
    from Retain assms(3) obtain e where "e \<in> set (execution_rows s)" "exec_id e = i" "\<not> ?old e"
      by (auto simp: execution_row_of_None apply_retention_def Let_def)
    with refs_ok_ids [OF assms(1)] have "i \<notin> set (map exec_id (filter ?old (execution_rows s)))"
      by (auto simp: distinct_map dest: inj_onD)
    with Retain assms(2) show ?thesis
      by (simp add: apply_retention_def Let_def map_of_filter_key)
  qed simp_all
qed

lemma request_run:
  "refs_ok s \<Longrightarrow> map_of (idempotency_rows s) key = Some (hash, i)
    \<Longrightarrow> list_all (\<lambda>c. creates c \<noteq> Some i) cs \<Longrightarrow> execution_row_of (run_commands env cs s) i \<noteq> None
    \<Longrightarrow> map_of (idempotency_rows (run_commands env cs s)) key = Some (hash, i)"
proof (induction cs arbitrary: s)
  case (Cons c cs)
  have "execution_row_of (apply_command env c s) i \<noteq> None"
  proof
    assume "execution_row_of (apply_command env c s) i = None"
    with row_gone [of i cs "apply_command env c s" env] Cons.prems show False by simp
  qed
  with Cons request_step [of s key hash i env c] refs_ok_command [of s env c] show ?case by simp
qed simp

lemma admit_known:
  assumes "decode plan = Inr pol" and "map_of (idempotency_rows s) key = Some (hash, i)"
    and "execution_row_of s i = Some e"
  shows "create_execution_with_plan_guarded decode j now w revision plan (Some (key, hash')) req plugins s
    = (if hash' = hash then Inr ((e, False), s)
       else Inl ''idempotency key already used for a different request'')"
  using assms by (auto simp: create_execution_with_plan_guarded_def idempotent_execution_def)

text \<open>C6: A request key names one execution: once a key has admitted an execution, then for as long as
  that execution exists every later admission with the key and the same request gives that execution
  back, starts nothing and changes nothing, and one with another request is refused, whatever commands
  came in between.\<close>

theorem request_key_admits_once:
  assumes "refs_ok s"
    and "create_execution_with_plan_guarded decode i now w revision plan (Some (key, hash)) req plugins s
      = Inr ((e, True), s')"
    and "list_all (\<lambda>c. creates c \<noteq> Some i) cs"
    and "execution_row_of (run_commands env cs s') i = Some e'"
    and "decode' plan' = Inr pol"
  shows "create_execution_with_plan_guarded decode' j now' w' revision' plan' (Some (key, hash')) req'
      plugins' (run_commands env cs s')
    = (if hash' = hash then Inr ((e', False), run_commands env cs s')
       else Inl ''idempotency key already used for a different request'')"
proof -
  note new = admit_new [OF assms(2)]
  have "refs_ok s'" using new by (intro refs_ok_create [OF assms(1) new(1)]) auto
  moreover from new(10,11) have "map_of (idempotency_rows s') key = Some (hash, i)"
    by (auto simp: map_add_Some_iff map_of_eq_None_iff)
  ultimately have "map_of (idempotency_rows (run_commands env cs s')) key = Some (hash, i)"
    using assms(3,4) by (intro request_run) simp_all
  with assms(4,5) show ?thesis by (intro admit_known)
qed

definition one_run_policy :: workflow_policy where
  "one_run_policy =
     \<lparr>timeout = None, max_parallel_nodes = None,
      concurrency = Some \<lparr>max_runs = Some 1, overflow = Some Queue, max_queued = Some 1\<rparr>, ai = None\<rparr>"

definition plan_env :: store_env where
  "plan_env = \<lparr>decode_policy = (\<lambda>_. Inr one_run_policy), source_ok = (\<lambda>_. Inr ()), triggers_ok = (\<lambda>_. Inr ())\<rparr>"

definition first_admission :: "(string, (execution_row \<times> bool) \<times> store) result" where
  "first_admission = create_execution_with_plan_guarded (decode_policy plan_env) ''e1'' 1 ''w'' ''r1'' JNull
     (Some (''key'', ''hash'')) (False, False) [] empty_store"

lemmas admit_eval = create_execution_with_plan_guarded_def idempotent_execution_def execution_admission_def
  save_plan_def started_event_def running_count_def queued_count_def count_rows_def one_run_policy_def
  plan_env_def

lemma first_admission_new:
  "first_admission = Inr ((new_execution ''e1'' ''w'' ''running'' 1, True), snd (projr first_admission))"
  by (simp add: first_admission_def admit_eval store_eval)

lemma first_admission_row:
  "execution_row_of (run_commands plan_env [Finish ''e1'' 2 ''failed'' None] (snd (projr first_admission))) ''e1''
    = Some \<lparr>exec_id = ''e1'', exec_workflow = ''w'', exec_status = ''failed'', exec_created = 1,
        exec_completed = Some 2, exec_error = None, exec_pinned = False\<rparr>"
  by (simp add: first_admission_def admit_eval store_eval)

theorem request_key_admits_once_witness:
  "\<exists>s e. exec_status e = ''failed''
    \<and> create_execution_with_plan_guarded (decode_policy plan_env) ''e2'' 3 ''w'' ''r2'' JNull
        (Some (''key'', ''hash'')) (False, False) [] s = Inr ((e, False), s)"
  using request_key_admits_once [OF empty_store_ok(1) first_admission_new [unfolded first_admission_def]
      _ first_admission_row [unfolded first_admission_def], where decode' = "decode_policy plan_env"
      and plan' = JNull and pol = one_run_policy and j = "''e2''" and now' = 3 and w' = "''w''"
      and revision' = "''r2''" and hash' = "''hash''" and req' = "(False, False)" and plugins' = "[]"]
  by (intro exI conjI) (auto simp: plan_env_def)

section \<open>Limits\<close>

subsection \<open>Runs of a workflow\<close>

text \<open>The rows \<open>maxRuns\<close> limits.\<close>

definition occupies :: "string \<Rightarrow> execution_row \<Rightarrow> bool" where
  "occupies w e \<longleftrightarrow> exec_workflow e = w \<and> exec_status e \<in> {''running'', ''cancelling''}"

lemma running_count_eq: "running_count s w = length (filter (occupies w) (execution_rows s))"
  by (simp add: running_count_def count_rows_def occupies_def [abs_def])

lemma running_count_same: "execution_rows s' = execution_rows s \<Longrightarrow> running_count s' w = running_count s w"
  by (simp add: running_count_eq)

lemma running_count_frame [simp]:
  "running_count (append_event t r x p now s) w = running_count s w"
  "running_count (close_spans i st now err s) w = running_count s w"
  by (simp_all add: running_count_eq)

lemma filter_map_le:
  "(\<And>x. x \<in> set xs \<Longrightarrow> P (f x) \<Longrightarrow> P x) \<Longrightarrow> length (filter P (map f xs)) \<le> length (filter P xs)"
  by (induction xs) (auto simp: le_SucI)

lemma occupies_update:
  assumes "\<And>e. e \<in> set (execution_rows s) \<Longrightarrow> exec_id e = i \<Longrightarrow> occupies w (f e) \<Longrightarrow> occupies w e"
  shows "running_count (update_execution i f s) w \<le> running_count s w"
  unfolding running_count_eq update_execution_frame update_rows_def
  by (rule filter_map_le) (use assms in \<open>auto split: if_splits\<close>)

lemma filter_update_one:
  assumes "distinct (map exec_id xs)"
  shows "length (filter P (update_rows (\<lambda>e. exec_id e = i) f xs)) \<le> Suc (length (filter P xs))"
  using assms
proof (induction xs)
  case (Cons x xs)
  show ?case
  proof (cases "exec_id x = i")
    case True
    with Cons.prems have "update_rows (\<lambda>e. exec_id e = i) f xs = xs"
      by (auto simp: update_rows_def image_iff intro!: map_idI)
    then show ?thesis by (simp add: update_rows_def)
  qed (use Cons in \<open>auto simp: update_rows_def\<close>)
qed (simp add: update_rows_def)

lemma occupies_update_one:
  "refs_ok s \<Longrightarrow> running_count (update_execution i f s) w \<le> Suc (running_count s w)"
  unfolding running_count_eq by (simp add: filter_update_one refs_ok_ids)

lemma occupies_other:
  assumes "\<And>e. e \<in> set (execution_rows s) \<Longrightarrow> exec_id e = i \<Longrightarrow> exec_workflow e \<noteq> w"
    and "\<And>e. exec_workflow (f e) = exec_workflow e"
  shows "running_count (update_execution i f s) w \<le> running_count s w"
  using assms by (intro occupies_update) (auto simp: occupies_def)

text \<open>A command keeps to \<open>maxRuns = k\<close> of the workflow \<open>w\<close>: its executions are admitted with plans
  that limit it to at most \<open>k\<close> runs and claimed with such a limit, and \<open>finish_execution\<close> gets a
  status that ends them.\<close>

fun within_limit :: "store_env \<Rightarrow> string \<Rightarrow> nat \<Rightarrow> store \<Rightarrow> store_command \<Rightarrow> bool" where
  "within_limit env w k s (Create i now v) = (v \<noteq> w)"
| "within_limit env w k s (Admit i now v revision plan identity req plugins) =
     (v = w \<longrightarrow> (case decode_policy env plan of
        Inl _ \<Rightarrow> True
      | Inr pol \<Rightarrow> (case concurrency pol of
            None \<Rightarrow> False | Some c \<Rightarrow> (case max_runs c of None \<Rightarrow> False | Some m \<Rightarrow> m \<le> k))))"
| "within_limit env w k s (Claim i now limit) =
     (case execution_row_of s i of
        None \<Rightarrow> True
      | Some e \<Rightarrow> exec_workflow e = w \<longrightarrow> (case limit of None \<Rightarrow> False | Some m \<Rightarrow> m \<le> k))"
| "within_limit env w k s (Finish i now status err) = (status \<notin> {''running'', ''cancelling''})"
| "within_limit env w k s c = True"

fun all_within_limit :: "store_env \<Rightarrow> string \<Rightarrow> nat \<Rightarrow> store_command list \<Rightarrow> store \<Rightarrow> bool" where
  "all_within_limit env w k [] s = True"
| "all_within_limit env w k (c # cs) s =
     (within_limit env w k s c \<and> all_within_limit env w k cs (apply_command env c s))"

lemma claim_count:
  assumes ok: "refs_ok s" and "running_count s w \<le> k" and "within_limit env w k s (Claim i now limit)"
  shows "running_count (snd (claim_execution_slot i now limit s)) w \<le> k"
proof (cases "find (\<lambda>e. exec_id e = i \<and> exec_status e = ''queued'') (execution_rows s)")
  case None
  with assms(2) show ?thesis by (simp add: claim_execution_slot_def)
next
  case (Some e)
  then have "e \<in> set (execution_rows s)" "exec_id e = i" by (auto simp: find_Some_iff)
  with find_key_eq [OF refs_ok_ids [OF ok]] have row: "execution_row_of s i = Some e"
    by (auto simp: execution_row_of_def)
  let ?f = "\<lambda>e. if exec_status e = ''queued'' then e\<lparr>exec_status := ''running''\<rparr> else e"
  show ?thesis
  proof (cases "exec_workflow e = w")
    case True
    with assms(3) row obtain m where "limit = Some m" "m \<le> k" by (auto split: option.splits)
    with True assms(2) Some occupies_update_one [OF ok, of i ?f w] show ?thesis
      by (auto simp: claim_execution_slot_def Let_def)
  next
    case False
    have "running_count (update_execution i ?f s) w \<le> running_count s w"
      by (rule occupies_other) (use False row_unique [OF refs_ok_ids [OF ok] row] in auto)
    with assms(2) Some show ?thesis by (auto simp: claim_execution_slot_def Let_def)
  qed
qed

lemma admit_count:
  assumes "create_execution_with_plan_guarded (decode_policy env) i now v revision plan identity req plugins s
      = Inr ((e, True), s')"
    and "running_count s w \<le> k"
    and "within_limit env w k s (Admit i now v revision plan identity req plugins)"
  shows "running_count s' w \<le> k"
proof (cases "v = w")
  case True
  from assms(1) obtain pol :: workflow_policy and status where "decode_policy env plan = Inr pol"
    "execution_admission s v (concurrency pol) = Inr status" "e = new_execution i v status now"
    by (rule admit_cases) blast+
  with True assms(2,3) show ?thesis
    unfolding running_count_eq admit_new(1) [OF assms(1)]
    by (auto simp: execution_admission_def running_count_eq occupies_def new_execution_def
        split: option.splits if_splits)
next
  case False
  with assms(2) admit_new(1,3) [OF assms(1)] show ?thesis by (simp add: running_count_eq occupies_def)
qed

lemma recover_count:
  assumes "refs_ok s"
  shows "running_count (snd (recover_incomplete_executions now s)) w \<le> running_count s w"
  unfolding running_count_eq recover_rows [OF refs_ok_ids [OF assms]]
  by (rule filter_map_le) (auto simp: occupies_def recovered_row_def recovered_status_def split: if_splits)

lemma within_limit_step:
  assumes ok: "refs_ok s" and count: "running_count s w \<le> k" and c: "within_limit env w k s c"
  shows "running_count (apply_command env c s) w \<le> k"
proof (cases "quiet c \<or> plugin_command c")
  case True
  with quiet_frame [of c env s] plugin_frame [of c env s] running_count_same [of "apply_command env c s" s w]
  show ?thesis using count by auto
next
  case False
  note less = order_trans [OF occupies_update count]
  show ?thesis
  proof (cases c)
    case (Create i now v)
    with c count show ?thesis
      by (auto simp: after_def create_execution_def insert_execution_def Let_def running_count_eq
          occupies_def new_execution_def split: if_splits)
  next
    case (Admit i now v revision plan identity req plugins)
    show ?thesis
      by (rule apply_admit_cases [of env i now v revision plan identity req plugins s])
        (use Admit c count in \<open>auto intro: admit_count\<close>)
  next
    case (Claim i now limit)
    with claim_count [OF ok count] c show ?thesis by simp
  next
    case (Finish i now status err)
    with c count show ?thesis
      by (auto simp: after_def finish_execution_def occupies_def intro!: less
          split: option.splits if_splits)
  next
    case (Recover now)
    with order_trans [OF recover_count [OF ok] count] show ?thesis by simp
  next
    case (Cancel i)
    with count show ?thesis
      by (auto simp: request_execution_cancel_def occupies_def intro!: less
          dest: row_unique [OF refs_ok_ids [OF ok]] split: option.splits if_splits)
  next
    case (CancelOutcome i now)
    with count show ?thesis
      by (auto simp: request_execution_cancel_outcome_def occupies_def intro!: less
          dest: row_unique [OF refs_ok_ids [OF ok]] split: option.splits if_splits)
  next
    case (CancelQueued i now)
    with count show ?thesis
      by (auto simp: cancel_queued_execution_def occupies_def intro!: less split: option.splits if_splits)
  next
    case (SetPinned i b)
    let ?f = "\<lambda>e. if exec_id e = i then e\<lparr>exec_pinned := b\<rparr> else e"
    have "length (filter (occupies w) (map ?f (execution_rows s))) \<le> length (filter (occupies w) (execution_rows s))"
      by (rule filter_map_le) (auto simp: occupies_def split: if_splits)
    with SetPinned count show ?thesis
      by (simp add: set_execution_pinned_def update_rows_def running_count_eq del: filter_map)
  next
    case (Retain a b)
    have "length (filter (occupies w) (filter P xs)) \<le> length (filter (occupies w) xs)" for P xs
      by (induction xs) auto
    from order_trans [OF this count [unfolded running_count_eq]] Retain show ?thesis
      by (simp add: apply_retention_def Let_def running_count_eq)
  qed (use False in simp_all)
qed

text \<open>C8: A workflow never has more runs than its limit: when its executions are admitted and claimed
  with a limit of at most \<open>maxRuns\<close>, then in no order of commands, cancellations and recoveries
  included, more than \<open>maxRuns\<close> of them are running or being cancelled at once.\<close>

theorem runs_within_limit:
  assumes "refs_ok s" and "running_count s w \<le> k" and "all_within_limit env w k cs s"
  shows "running_count (run_commands env cs s) w \<le> k"
  using assms
proof (induction cs arbitrary: s)
  case (Cons c cs)
  then show ?case using within_limit_step [of s w k env c] refs_ok_command [of s env c] by simp
qed simp

definition burst :: "store_command list" where
  "burst = [Admit ''e1'' 1 ''w'' ''r'' JNull None (False, False) [],
            Admit ''e2'' 2 ''w'' ''r'' JNull None (False, False) [],
            Admit ''e3'' 3 ''w'' ''r'' JNull None (False, False) [],
            Claim ''e2'' 4 (Some 1), Finish ''e1'' 5 ''succeeded'' None, Claim ''e2'' 6 (Some 1)]"

lemma burst_rows:
  "map (\<lambda>e. (exec_id e, exec_status e)) (execution_rows (run_commands plan_env burst empty_store))
     = [(''e1'', ''succeeded''), (''e2'', ''running'')]"
  "all_within_limit plan_env ''w'' 1 burst empty_store"
  by (simp_all add: burst_def admit_eval store_eval claim_execution_slot_def)

theorem runs_within_limit_witness:
  "map (\<lambda>e. (exec_id e, exec_status e)) (execution_rows (run_commands plan_env burst empty_store))
     = [(''e1'', ''succeeded''), (''e2'', ''running'')]
   \<and> running_count (run_commands plan_env burst empty_store) ''w'' \<le> 1"
  using runs_within_limit [OF empty_store_ok(1) _ burst_rows(2)] burst_rows(1)
  by (simp add: running_count_def count_rows_def empty_store_def)

subsection \<open>Tokens of a provider\<close>

fun within_budget :: "string \<Rightarrow> string \<Rightarrow> nat \<Rightarrow> store_command \<Rightarrow> bool" where
  "within_budget i provider limit (Reserve j p tokens budget) =
     (j = i \<and> p = provider \<longrightarrow> (case budget of None \<Rightarrow> False | Some b \<Rightarrow> b \<le> limit))"
| "within_budget i provider limit c = True"

lemma sum_list_filter_le:
  "sum_list (map f (filter P (filter Q xs))) \<le> (sum_list (map f (filter P xs)) :: nat)"
  by (induction xs) (auto simp: le_SucI trans_le_add2)

lemma reservation_frame:
  assumes "\<not> deletes c" and "\<And>i p t b. c \<noteq> Reserve i p t b"
  shows "reservation_rows (apply_command env c s) = reservation_rows s"
proof (cases "plugin_command c")
  case True
  with plugin_frame [of c env s] show ?thesis by simp
next
  case False
  show ?thesis
  proof (cases c)
    case (Admit i now w revision plan identity req plugins)
    show ?thesis
      by (rule apply_admit_cases [of env i now w revision plan identity req plugins s])
        (use Admit in \<open>auto dest: admit_new(8)\<close>)
  next
    case (Finish j now status err)
    then show ?thesis
      by (cases "execution_row_of s j") (auto simp: after_def finish_execution_def split: if_splits)
  next
    case (Create i now w)
    then show ?thesis
      by (auto simp: after_def create_execution_def insert_execution_def Let_def split: if_splits)
  next
    case (Recover now)
    then show ?thesis by (simp add: recover_incomplete_executions_def)
  next
    case (RecordOutcome i n now status message r err)
    then show ?thesis
      by (cases "record_node_outcome i n now status message r err s") (auto simp: after_def dest!: outcome_frame)
  qed (use assms False in \<open>auto simp: after_def quiet_defs Let_def rbind_unit_Inr claim_execution_slot_def
    request_execution_cancel_def request_execution_cancel_outcome_def cancel_queued_execution_def
    set_execution_pinned_def split: sum.split option.splits if_splits\<close>)
qed

lemma within_budget_step:
  assumes "int limit < i64_max" and "reserved_tokens s i provider \<le> limit"
    and "within_budget i provider limit c"
  shows "reserved_tokens (apply_command env c s) i provider \<le> limit"
proof (cases "deletes c")
  case True
  then obtain a b where "c = Retain a b" by (cases c) auto
  with assms(2) order_trans [OF sum_list_filter_le assms(2) [unfolded reserved_tokens_def]] show ?thesis
    by (simp add: apply_retention_def Let_def reserved_tokens_def)
next
  case False
  show ?thesis
  proof (cases c)
    case (Reserve j p tokens budget)
    with assms show ?thesis
      by (auto simp: after_def reserve_provider_tokens_def rbind_unit_Inr reserved_tokens_def min_def
          split: sum.split option.splits if_splits)
  qed (use assms(2) False reservation_frame [OF False, of env s] in \<open>simp_all add: reserved_tokens_def\<close>)
qed

text \<open>The token budget of an execution holds: when every reservation for a provider carries a
  budget of at most \<open>limit\<close>, the tokens reserved for it never exceed \<open>limit\<close>, in whatever order
  reservations of this and other executions come (each one reads the sum and adds its row in one
  transaction).\<close>

theorem tokens_within_budget:
  assumes "int limit < i64_max" and "reserved_tokens s i provider \<le> limit"
    and "list_all (within_budget i provider limit) cs"
  shows "reserved_tokens (run_commands env cs s) i provider \<le> limit"
  using assms(2,3)
  by (induction cs arbitrary: s) (simp_all add: within_budget_step [OF assms(1)])

definition spending :: "store_command list" where
  "spending = [Create ''e'' 1 ''w'', Reserve ''e'' ''p'' 60 (Some 100), Reserve ''e'' ''p'' 50 (Some 100),
     Reserve ''e'' ''p'' 40 (Some 100)]"

theorem tokens_within_budget_witness:
  "reserved_tokens (run_commands test_env spending empty_store) ''e'' ''p'' = 100
   \<and> reserved_tokens (run_commands test_env spending empty_store) ''e'' ''p'' \<le> 100"
proof
  show "reserved_tokens (run_commands test_env spending empty_store) ''e'' ''p'' = 100"
    by (simp add: spending_def store_eval reserve_provider_tokens_def reserved_tokens_def i64_max_def
        require_execution_def require_def)
  show "reserved_tokens (run_commands test_env spending empty_store) ''e'' ''p'' \<le> 100"
    by (rule tokens_within_budget) (simp_all add: i64_max_def spending_def reserved_tokens_def empty_store_def)
qed

section \<open>Recovery\<close>

lemma no_interrupted: "interrupted_rows s = [] \<Longrightarrow> recover_incomplete_executions now s = (0, s)"
  by (simp add: recover_incomplete_executions_def)

lemma recover_settled:
  assumes "refs_ok s"
  shows "interrupted_rows (snd (recover_incomplete_executions now s)) = []"
  unfolding interrupted_rows_def recover_rows [OF refs_ok_ids [OF assms]]
  by (auto simp: filter_empty_conv recovered_row_def recovered_status_def split: if_splits)

text \<open>C16: Recovery at start-up settles every execution: a cancelled one is finished, a running one is
  queued again only when its plan is stored and none of its nodes was started without a recorded end
  (so that no effect happens twice), and is marked interrupted otherwise; all others keep their status,
  and a second recovery finds nothing to do.\<close>

theorem recovery_settles:
  assumes "refs_ok s" and "execution_row_of s i = Some e"
  shows "map_option exec_status (execution_row_of (snd (recover_incomplete_executions now s)) i) = Some
      (if exec_status e = ''cancelling'' then ''cancelled''
       else if exec_status e = ''running''
       then (if list_ex (\<lambda>p. plan_execution p = i) (plan_rows s)
               \<and> list_all (\<lambda>c. cp_execution c = i \<longrightarrow> cp_status c \<notin> {''running'', ''unrecoverable''})
                   (checkpoint_rows s)
             then ''queued'' else ''interrupted'')
       else exec_status e)
    \<and> recover_incomplete_executions later (snd (recover_incomplete_executions now s))
      = (0, snd (recover_incomplete_executions now s))"
proof
  show "recover_incomplete_executions later (snd (recover_incomplete_executions now s))
      = (0, snd (recover_incomplete_executions now s))"
    by (rule no_interrupted [OF recover_settled [OF assms(1)]])
  have "resumable s i \<longleftrightarrow> list_ex (\<lambda>p. plan_execution p = i) (plan_rows s)
      \<and> list_all (\<lambda>c. cp_execution c = i \<longrightarrow> cp_status c \<notin> {''running'', ''unrecoverable''}) (checkpoint_rows s)"
    by (auto simp: resumable_def uncertain_statuses_def list_ex_iff list_all_iff)
  moreover have "execution_row_of (snd (recover_incomplete_executions now s)) i
      = Some (if exec_status e \<in> {''running'', ''cancelling''} then recovered_row now s e e else e)"
    using assms find_map_key [of exec_id "\<lambda>r. if exec_status r \<in> {''running'', ''cancelling''}
        then recovered_row now s r r else r" i "execution_rows s"]
    by (simp add: execution_row_of_def recover_rows refs_ok_ids)
  moreover have "exec_id e = i" using assms(2) by (simp add: execution_row_of_Some)
  ultimately show "map_option exec_status (execution_row_of (snd (recover_incomplete_executions now s)) i) = Some
      (if exec_status e = ''cancelling'' then ''cancelled''
       else if exec_status e = ''running''
       then (if list_ex (\<lambda>p. plan_execution p = i) (plan_rows s)
               \<and> list_all (\<lambda>c. cp_execution c = i \<longrightarrow> cp_status c \<notin> {''running'', ''unrecoverable''})
                   (checkpoint_rows s)
             then ''queued'' else ''interrupted'')
       else exec_status e)"
    by (simp add: recovered_row_def recovered_status_def)
qed

definition crashed_store :: store where
  "crashed_store = run_commands plan_env
     [Admit ''e1'' 1 ''w'' ''r'' JNull None (False, False) [],
      BeginCheckpoint ''e1'' ''n1'' ''running'', CompleteCheckpoint ''e1'' ''n1'' (Some JNull),
      BeginCheckpoint ''e1'' ''n2'' ''running''] empty_store"

lemma crashed_store_row:
  "execution_row_of crashed_store ''e1'' = Some (new_execution ''e1'' ''w'' ''running'' 1)"
  by (simp add: crashed_store_def admit_eval store_eval begin_checkpoint_row_def complete_checkpoint_row_def
      require_execution_def require_def)

theorem recovery_settles_witness:
  "map_option exec_status (execution_row_of (snd (recover_incomplete_executions 9 crashed_store)) ''e1'')
     = Some ''interrupted''
   \<and> fst (recover_incomplete_executions 10 (snd (recover_incomplete_executions 9 crashed_store))) = 0"
proof -
  have "refs_ok crashed_store" unfolding crashed_store_def by (rule refs.run) simp
  moreover have "list_ex (\<lambda>c. cp_execution c = ''e1'' \<and> cp_status c = ''running'') (checkpoint_rows crashed_store)"
    by (simp add: crashed_store_def admit_eval store_eval begin_checkpoint_row_def complete_checkpoint_row_def
        require_execution_def require_def is_checkpoint_def)
  ultimately show ?thesis
    using recovery_settles [OF _ crashed_store_row, of 9 10]
    by (auto simp: new_execution_def list_all_iff list_ex_iff)
qed

section \<open>Rows that stay\<close>

lemma row_kept:
  assumes "execution_row_of s i = Some e" and "distinct (map exec_id (execution_rows s))"
    and "deletes c \<Longrightarrow> exec_completed e = None"
  shows "\<exists>e'. execution_row_of (apply_command env c s) i = Some e'"
proof -
  have e: "e \<in> set (execution_rows s)" "exec_id e = i" using execution_row_of_Some [OF assms(1)] by auto
  have "i \<in> exec_id ` set (execution_rows (apply_command env c s))"
  proof (cases "creates c = None \<and> \<not> deletes c")
    case True
    with update_frame [of c env s] have
      "map exec_id (execution_rows (apply_command env c s)) = map exec_id (execution_rows s)" by simp
    with e show ?thesis by (metis image_eqI set_map)
  next
    case False
    then show ?thesis
    proof (cases c)
      case (Create j now w)
      with e show ?thesis
        by (auto simp: after_def create_execution_def insert_execution_def Let_def split: if_splits)
    next
      case (Admit j now w revision plan identity req plugins)
      show ?thesis
        by (rule apply_admit_cases [of env j now w revision plan identity req plugins s])
          (use Admit e in \<open>auto simp: admit_new(1)\<close>)
    next
      case (Retain a b)
      with e assms(3) show ?thesis by (force simp: apply_retention_def Let_def)
    qed simp_all
  qed
  then show ?thesis using execution_row_of_None [of "apply_command env c s" i] by auto
qed

lemma undated_run:
  "refs_ok s \<Longrightarrow> execution_row_of s i = Some e \<Longrightarrow> exec_status e \<notin> set live_statuses
    \<Longrightarrow> exec_completed e = None
    \<Longrightarrow> \<exists>b. execution_row_of (run_commands env cs s) i = Some (e\<lparr>exec_pinned := b\<rparr>)"
proof (induction cs arbitrary: s e)
  case (Cons c cs)
  note ids = refs_ok_ids [OF Cons.prems(1)]
  from row_kept [OF Cons.prems(2) ids Cons.prems(4)]
  obtain f where f: "execution_row_of (apply_command env c s) i = Some f" by blast
  from ended_step [OF ids Cons.prems(2,3) f] obtain b where b: "f = e\<lparr>exec_pinned := b\<rparr>" ..
  from Cons.IH [OF refs_ok_command [OF Cons.prems(1)] f] Cons.prems(3,4) show ?case by (simp add: b)
qed (metis execution_row.cases execution_row.update_convs(7) execution_row.select_convs(7) run_commands_simps(1))

text \<open>A queued execution cancelled through \<open>request_execution_cancel\<close> gets no completion time, and so
  it is never removed: after any commands, retention with any cut-off included, its row is still there,
  cancelled and without the time it ended.\<close>

theorem cancelled_in_queue_is_kept_forever:
  assumes "refs_ok s" and "execution_row_of s i = Some e" and "exec_status e = ''queued''"
    and "exec_completed e = None"
  shows "\<exists>b. execution_row_of (run_commands env (Cancel i # cs) s) i
    = Some (e\<lparr>exec_status := ''cancelled'', exec_pinned := b\<rparr>)"
proof -
  have "execution_row_of (apply_command env (Cancel i) s) i = Some (e\<lparr>exec_status := ''cancelled''\<rparr>)"
    using assms by (simp add: request_execution_cancel_def)
  from undated_run [OF refs_ok_command [OF assms(1)] this, of env cs] assms(4) show ?thesis
    by (simp add: live_statuses_def)
qed

definition queued_store :: store where
  "queued_store = run_commands plan_env (take 2 burst) empty_store"

theorem cancelled_in_queue_is_kept_forever_witness:
  "\<exists>e. execution_row_of (run_commands plan_env [Cancel ''e2'', Retain 1000000 1000000] queued_store) ''e2'' = Some e
    \<and> exec_status e = ''cancelled'' \<and> exec_completed e = None"
proof -
  have "refs_ok queued_store" unfolding queued_store_def by (rule refs.run) simp
  moreover have "execution_row_of queued_store ''e2'' = Some (new_execution ''e2'' ''w'' ''queued'' 2)"
    by (simp add: queued_store_def burst_def admit_eval store_eval numeral_2_eq_2)
  ultimately show ?thesis
    using cancelled_in_queue_is_kept_forever [of queued_store "''e2''" _ plan_env "[Retain 1000000 1000000]"]
    by (fastforce simp: new_execution_def)
qed

section \<open>Pins\<close>

text \<open>C17: Whatever happens to a store, every pin belongs to an execution that exists and was not released,
  the plugin a pin names is installed exactly as it was pinned (version, digest and path), a plugin has
  exactly one lifecycle row, only active plugins are enabled, execution ids and request keys are unique, and
  plans and request keys refer to executions that exist.\<close>

theorem store_stays_consistent:
  "pins_ok (run_commands env cs empty_store) \<and> plugins_ok (run_commands env cs empty_store)
   \<and> refs_ok (run_commands env cs empty_store)"
  by (simp add: pins.run plugins.run refs.run)

text \<open>An execution that ended as interrupted keeps its pins.\<close>

lemma insert_pin_grows: "x \<in> set (pin_rows s) \<Longrightarrow> x \<in> set (pin_rows (insert_pin i r s))"
  by (auto simp: insert_pin_def split: prod.split option.split)

lemma pin_plugins_grows: "pin_plugins i rs s = Inr s' \<Longrightarrow> x \<in> set (pin_rows s) \<Longrightarrow> x \<in> set (pin_rows s')"
  by (induction rs arbitrary: s) (auto simp: Let_def insert_pin_grows split: if_splits)

lemma acquire_each_grows: "acquire_each i ps s = Inr s' \<Longrightarrow> x \<in> set (pin_rows s) \<Longrightarrow> x \<in> set (pin_rows s')"
  by (induction ps arbitrary: s) (auto simp: Let_def insert_pin_grows split: if_splits)

lemma pin_kept_update:
  "x \<in> set (pin_rows s) \<Longrightarrow> pin_execution x \<noteq> i \<Longrightarrow> x \<in> set (pin_rows (update_execution i f s))"
  by (auto simp: update_execution_def Let_def)

lemma pin_kept_recover:
  "x \<in> set (pin_rows s) \<Longrightarrow> \<forall>e \<in> set es. exec_id e \<noteq> pin_execution x
    \<Longrightarrow> x \<in> set (pin_rows (fold (recover_execution now) es s))"
  by (induction es arbitrary: s) (auto simp: recover_execution_def pin_kept_update split: prod.split)

lemma pin_kept_admit:
  assumes "create_execution_with_plan_guarded decode i now w revision plan identity req plugins s
    = Inr ((e, True), s')" and "x \<in> set (pin_rows s)"
  shows "x \<in> set (pin_rows s')"
proof -
  from assms(1) obtain status s2 s3 where *:
    "pin_plugins i plugins (s\<lparr>execution_rows := execution_rows s @ [e]\<rparr>) = Inr s2"
    "save_plan i now revision plan identity s2 = Inr s3"
    "s' = append_event (started_event status) w (Some i) (started_payload w status) now s3"
    by (rule admit_cases) blast+
  from pin_plugins_grows [OF *(1)] assms(2) save_plan_frame(4) [OF *(2)] show ?thesis by (simp add: *(3))
qed

lemma pin_kept_plugin:
  assumes "plugin_command c" and "x \<in> set (pin_rows s)"
  shows "x \<in> set (pin_rows (apply_command env c s))"
proof (cases c)
  case (RequestRemoval p now ws)
  with assms(2) show ?thesis
    by (auto simp: after_def request_plugin_removal_def rbind_Inr split: sum.splits if_splits
        dest!: block_workflows_frame)
qed (use assms in \<open>auto simp: after_def upsert_plugin_install_with_source_def acquire_plugin_uses_def
    acquire_each_grows rbind_unit_Inr mark_plugin_removal_failed_def resume_plugin_removal_def
    finalize_plugin_removal_def remove_plugin_install_def delete_plugin_def set_plugin_enabled_def Let_def
    split: sum.splits option.splits if_splits\<close>)

lemma pin_kept_step:
  assumes ids: "distinct (map exec_id (execution_rows s))"
    and x: "x \<in> set (pin_rows s)" and e: "execution_row_of s (pin_execution x) = Some e"
    and ended: "exec_status e \<notin> set live_statuses" and c: "\<not> deletes c"
  shows "x \<in> set (pin_rows (apply_command env c s))"
proof (cases "quiet c \<or> plugin_command c")
  case True
  with quiet_frame [of c env s] pin_kept_plugin [OF _ x] x show ?thesis by auto
next
  case False
  have other: "exec_id f \<noteq> pin_execution x"
    if "f \<in> set (execution_rows s)" "exec_status f \<in> set live_statuses" for f
    using row_unique [OF ids e that(1)] ended that(2) by auto
  have row: "pin_execution x \<noteq> i" if "execution_row_of s i = Some f" "exec_status f \<in> set live_statuses" for i f
    using e ended that by auto
  note live = live_statuses_def
  show ?thesis
  proof (cases c)
    case (Create i now w)
    with x show ?thesis
      by (auto simp: after_def create_execution_def insert_execution_def Let_def)
  next
    case (Admit i now w revision plan identity req plugins)
    show ?thesis
      by (rule apply_admit_cases [of env i now w revision plan identity req plugins s])
        (use x Admit pin_kept_admit in auto)
  next
    case (Recover now)
    with pin_kept_recover [OF x, of "interrupted_rows s"] other show ?thesis
      by (auto simp: recover_incomplete_executions_def interrupted_rows_def live)
  next
    case (Claim i now limit)
    have "i \<noteq> pin_execution x"
      if "find (\<lambda>e. exec_id e = i \<and> exec_status e = ''queued'') (execution_rows s) = Some f" for f
      using other [of f] that by (auto simp: find_Some_iff live)
    with x Claim show ?thesis
      by (fastforce simp: claim_execution_slot_def Let_def intro!: pin_kept_update split: option.split)
  next
    case (Finish i now status err)
    with x row [of i] show ?thesis
      by (cases "execution_row_of s i") (auto simp: after_def finish_execution_def intro!: pin_kept_update)
  next
    case (Cancel i)
    with x row [of i] show ?thesis
      by (cases "execution_row_of s i") (auto simp: request_execution_cancel_def live intro!: pin_kept_update)
  next
    case (CancelOutcome i now)
    with x row [of i] show ?thesis
      by (cases "execution_row_of s i") (auto simp: request_execution_cancel_outcome_def live intro!: pin_kept_update)
  next
    case (CancelQueued i now)
    with x row [of i] show ?thesis
      by (cases "execution_row_of s i") (auto simp: cancel_queued_execution_def live intro!: pin_kept_update)
  next
    case (SetPinned i b)
    with x show ?thesis by (simp add: set_execution_pinned_def)
  qed (use False c in simp_all)
qed

lemma pin_kept_run:
  "refs_ok s \<Longrightarrow> x \<in> set (pin_rows s) \<Longrightarrow> execution_row_of s (pin_execution x) = Some e
    \<Longrightarrow> exec_status e \<notin> set live_statuses \<Longrightarrow> list_all (\<lambda>c. \<not> deletes c) cs
    \<Longrightarrow> x \<in> set (pin_rows (run_commands env cs s))"
proof (induction cs arbitrary: s e)
  case (Cons c cs)
  note ids = refs_ok_ids [OF Cons.prems(1)]
  from Cons.prems(5) have c: "\<not> deletes c" by simp
  from row_kept [OF Cons.prems(3) ids] c
  obtain f where f: "execution_row_of (apply_command env c s) (pin_execution x) = Some f" by blast
  from ended_step [OF ids Cons.prems(3,4) f] obtain b where "f = e\<lparr>exec_pinned := b\<rparr>" ..
  with Cons.IH [OF refs_ok_command [OF Cons.prems(1)] pin_kept_step [OF ids Cons.prems(2,3,4) c] f]
    Cons.prems(4,5) show ?case by simp
qed simp

text \<open>An execution that recovery marked interrupted keeps its pins although it has ended, since the
  trigger releases pins for the other end statuses only: until retention deletes the execution, whatever
  else happens, removing the plugin it used cannot be finalized.\<close>

theorem interrupted_execution_blocks_removal:
  assumes "refs_ok s" and "x \<in> set (pin_rows s)"
    and "execution_row_of s (pin_execution x) = Some e" and "exec_status e = ''interrupted''"
    and "list_all (\<lambda>c. \<not> deletes c) cs"
  shows "\<nexists>r s'. finalize_plugin_removal (pin_plugin x) (run_commands env cs s) = Inr (Some r, s')"
proof -
  have "exec_status e \<notin> set live_statuses" unfolding assms(4) by (simp add: live_statuses_def)
  from pin_kept_run [OF assms(1,2,3) this assms(5)]
  have "x \<in> set (pin_rows (run_commands env cs s))" .
  then have "list_ex (\<lambda>y. pin_plugin y = pin_plugin x) (pin_rows (run_commands env cs s))"
    by (auto simp: list_ex_iff)
  then show ?thesis by (auto simp: finalize_plugin_removal_def split: option.splits if_splits)
qed

definition sample_plugin :: plugin_row where
  "sample_plugin = \<lparr>plugin_id = ''p'', plugin_name = ''P'', plugin_version = ''1.0.0'', plugin_path = ''m'',
     plugin_digest = ''d'', plugin_enabled = True\<rparr>"

definition sample_pin :: pin_row where
  "sample_pin = \<lparr>pin_execution = ''e1'', pin_plugin = ''p'', pin_version = ''1.0.0'', pin_digest = ''d'',
     pin_path = ''m''\<rparr>"

definition interrupted_store :: store where
  "interrupted_store = run_commands plan_env
     [UpsertPlugin sample_plugin None,
      Admit ''e1'' 1 ''w'' ''r'' JNull None (False, False) [(''p'', None, None, None)],
      BeginCheckpoint ''e1'' ''n'' ''running'', Recover 2, RequestRemoval ''p'' 3 []] empty_store"

lemmas plugin_eval = upsert_plugin_install_with_source_def publish_plugin_def insert_pin_def
  pin_exists_def plugin_active_def matches_def request_plugin_removal_def finalize_plugin_removal_def
  lifecycle_of_def sample_plugin_def

lemmas recover_eval = recover_incomplete_executions_def interrupted_rows_def recover_execution_def
  recovered_status_def resumable_def uncertain_statuses_def begin_checkpoint_row_def
  require_execution_def require_def

lemma interrupted_store_rows:
  "sample_pin \<in> set (pin_rows interrupted_store)"
  "map_option exec_status (execution_row_of interrupted_store ''e1'') = Some ''interrupted''"
  by (simp_all add: interrupted_store_def sample_pin_def plugin_eval recover_eval admit_eval store_eval)

theorem interrupted_execution_blocks_removal_witness:
  "\<nexists>r s'. finalize_plugin_removal ''p'' interrupted_store = Inr (Some r, s')"
proof -
  have "refs_ok interrupted_store" unfolding interrupted_store_def by (rule refs.run) simp
  moreover obtain e where "execution_row_of interrupted_store (pin_execution sample_pin) = Some e"
    "exec_status e = ''interrupted''" using interrupted_store_rows(2) by (auto simp: sample_pin_def)
  ultimately show ?thesis
    using interrupted_execution_blocks_removal [OF _ interrupted_store_rows(1), of e "[]" test_env]
    by (simp add: sample_pin_def)
qed

section \<open>Events\<close>

definition safe_payload :: "json \<Rightarrow> bool" where
  "safe_payload v =
     (case v of
        JObject m \<Rightarrow> list_all (\<lambda>(k, x). is_scalar x \<and>
          k \<in> set (safe_event_keys @ [''safetyNotice'', ''availability'', ''guidance''])) m
      | _ \<Rightarrow> False)"

lemma set_map_insert: "set (map_insert k v m) \<subseteq> insert (k, v) (set m)"
  by (induction k v m rule: map_insert.induct) auto

lemma safe_payload_object:
  "safe_payload (JObject m) \<longleftrightarrow> (\<forall>(k, x) \<in> set m. is_scalar x
     \<and> k \<in> set (safe_event_keys @ [''safetyNotice'', ''availability'', ''guidance'']))"
  by (simp add: safe_payload_def list_all_iff)

lemma safe_payload_insert:
  assumes "safe_payload (JObject m)" and "is_scalar v" and "k \<in> {''safetyNotice'', ''availability'', ''guidance''}"
  shows "safe_payload (JObject (map_insert k v m))"
  unfolding safe_payload_object
proof
  fix y assume "y \<in> set (map_insert k v m)"
  with set_map_insert [of k v m] have "y = (k, v) \<or> y \<in> set m" by blast
  with assms show "case y of (k, x) \<Rightarrow> is_scalar x
      \<and> k \<in> set (safe_event_keys @ [''safetyNotice'', ''availability'', ''guidance''])"
    unfolding safe_payload_object by auto
qed

lemma safe_sanitized: "safe_payload (sanitize_event_payload v)"
proof (cases v)
  case (JObject m)
  let ?safe = "filter (\<lambda>(k, v). k \<in> set safe_event_keys \<and> is_scalar v) m"
  have safe: "safe_payload (JObject ?safe)" unfolding safe_payload_object by auto
  have "is_scalar (JString n)" for n by (simp add: is_scalar_def)
  with safe_payload_insert [OF safe] have "safe_payload (JObject (map_insert ''safetyNotice'' (JString n) ?safe))"
    for n by blast
  with JObject show ?thesis
    by (cases "?safe = m") (use safe in \<open>simp_all add: sanitize_event_payload_def\<close>)
qed (simp_all add: safe_payload_def sanitize_event_payload_def is_scalar_def)

text \<open>A later store: some old events are gone, and the new ones have larger numbers.\<close>

definition log_extends :: "store \<Rightarrow> store \<Rightarrow> bool" where
  "log_extends s s' \<longleftrightarrow> event_sequence s \<le> event_sequence s' \<and>
     (\<exists>P new. event_rows s' = filter P (event_rows s) @ new \<and> sorted_wrt (<) (map ev_sequence new)
        \<and> (\<forall>e \<in> set new. event_sequence s < ev_sequence e \<and> ev_sequence e \<le> event_sequence s'
             \<and> safe_payload (ev_payload e)))"

lemma log_extends_same:
  "event_rows s' = event_rows s \<Longrightarrow> event_sequence s' = event_sequence s \<Longrightarrow> log_extends s s'"
  unfolding log_extends_def by (auto intro!: exI [of _ "\<lambda>_. True"] exI [of _ "[]"])

lemma sorted_wrt_filter_map:
  "sorted_wrt (<) (map f xs) \<Longrightarrow> sorted_wrt (<) (map f (filter P xs) :: nat list)"
  by (simp add: sorted_wrt_map sorted_wrt_filter)

lemma log_extends_trans:
  assumes "log_extends s t" and "log_extends t u"
  shows "log_extends s u"
proof -
  from assms obtain P Q new later where
    t: "event_sequence s \<le> event_sequence t" "event_rows t = filter P (event_rows s) @ new"
      "sorted_wrt (<) (map ev_sequence new)"
      "\<And>e. e \<in> set new \<Longrightarrow> event_sequence s < ev_sequence e \<and> ev_sequence e \<le> event_sequence t
        \<and> safe_payload (ev_payload e)"
    and u: "event_sequence t \<le> event_sequence u" "event_rows u = filter Q (event_rows t) @ later"
      "sorted_wrt (<) (map ev_sequence later)"
      "\<And>e. e \<in> set later \<Longrightarrow> event_sequence t < ev_sequence e \<and> ev_sequence e \<le> event_sequence u
        \<and> safe_payload (ev_payload e)"
    unfolding log_extends_def by blast
  have "event_rows u = filter (\<lambda>x. P x \<and> Q x) (event_rows s) @ (filter Q new @ later)"
    using t(2) u(2) by simp
  moreover have "sorted_wrt (<) (map ev_sequence (filter Q new @ later))"
    using sorted_wrt_filter_map [OF t(3)] t(4) u(3,4) by (force simp: sorted_wrt_append)
  moreover have "\<forall>e \<in> set (filter Q new @ later). event_sequence s < ev_sequence e
      \<and> ev_sequence e \<le> event_sequence u \<and> safe_payload (ev_payload e)"
    using t(1,4) u(1,4) by (auto intro: order_trans le_less_trans)
  ultimately show ?thesis unfolding log_extends_def using order_trans [OF t(1) u(1)] by blast
qed

lemma log_extends_append: "log_extends s s' \<Longrightarrow> log_extends s (append_event t r x p now s')"
  by (rule log_extends_trans, assumption)
    (auto simp: log_extends_def append_event_def safe_sanitized intro!: exI [of _ "\<lambda>_. True"])

lemma log_extends_frame [simp]:
  "log_extends s (close_spans i st now err s') = log_extends s s'"
  "log_extends s (update_execution i f s') = log_extends s s'"
  by (simp_all add: log_extends_def)

lemma log_extends_refl [simp]: "log_extends s s"
  by (simp add: log_extends_same)

lemma log_extends_recover: "log_extends s s' \<Longrightarrow> log_extends s (fold (recover_execution now) es s')"
  by (induction es arbitrary: s') (auto simp: recover_execution_def log_extends_append split: prod.split)

lemma log_extends_admit:
  assumes "create_execution_with_plan_guarded decode i now w revision plan identity req plugins s
    = Inr ((e, True), s')"
  shows "log_extends s s'"
proof -
  from assms obtain status s2 s3 where *:
    "pin_plugins i plugins (s\<lparr>execution_rows := execution_rows s @ [e]\<rparr>) = Inr s2"
    "save_plan i now revision plan identity s2 = Inr s3"
    "s' = append_event (started_event status) w (Some i) (started_payload w status) now s3"
    by (rule admit_cases) blast+
  have "log_extends s s3"
    by (rule log_extends_same)
      (simp_all add: save_plan_frame [OF *(2)] same_but_pins_frame [OF pin_plugins_same [OF *(1)]])
  then show ?thesis unfolding *(3) by (rule log_extends_append)
qed

lemma log_extends_command: "log_extends s (apply_command env c s)"
proof (cases "plugin_command c")
  case True
  with plugin_frame [of c env s] show ?thesis by (intro log_extends_same) auto
next
  case False
  show ?thesis
  proof (cases c)
    case (Admit i now w revision plan identity req plugins)
    show ?thesis
      by (rule apply_admit_cases [of env i now w revision plan identity req plugins s])
        (use Admit in \<open>auto dest: log_extends_admit\<close>)
  next
    case (Recover now)
    then show ?thesis by (simp add: recover_incomplete_executions_def log_extends_recover)
  next
    case (Retain a b)
    then show ?thesis
      by (auto simp: log_extends_def apply_retention_def Let_def intro!: exI [of _ "[]"])
  next
    case (Create i now w)
    then show ?thesis
      by (auto simp: after_def create_execution_def insert_execution_def Let_def
          intro!: log_extends_append log_extends_same)
  next
    case (SetWorkflowStatus w now status)
    then show ?thesis
      by (auto simp: after_def set_workflow_status_def rbind_unit_Inr intro!: log_extends_append log_extends_same
          split: sum.split)
  next
    case (CreateWorkflow revision now doc source status)
    then show ?thesis
      by (auto simp: after_def create_workflow_def insert_revision_def rbind_unit_Inr rbind_Inr Let_def
          intro!: log_extends_append log_extends_same split: sum.splits if_splits)
  next
    case (UpsertWorkflow revision now doc source status)
    then show ?thesis
      by (auto simp: after_def upsert_workflow_def insert_revision_def rbind_unit_Inr rbind_Inr Let_def
          intro!: log_extends_append log_extends_same split: sum.splits if_splits)
  next
    case (UpdateWorkflow revision now doc source expected)
    then show ?thesis
      by (auto simp: after_def update_workflow_if_revision_def insert_revision_def rbind_unit_Inr rbind_Inr Let_def
          intro!: log_extends_append log_extends_same split: sum.splits option.splits if_splits)
  next
    case (SetStatusIfRevision w now status expected)
    then show ?thesis
      by (auto simp: after_def set_workflow_status_if_revision_def rbind_unit_Inr Let_def
          intro!: log_extends_append log_extends_same split: sum.splits option.splits if_splits)
  next
    case (Finish i now status err)
    then show ?thesis
      by (cases "execution_row_of s i") (auto simp: after_def finish_execution_def log_extends_append)
  next
    case (Claim i now limit)
    then show ?thesis
      by (auto simp: claim_execution_slot_def Let_def log_extends_append split: option.split)
  next
    case (Cancel i)
    then show ?thesis
      by (cases "execution_row_of s i") (auto simp: request_execution_cancel_def)
  next
    case (CancelOutcome i now)
    then show ?thesis
      by (cases "execution_row_of s i") (auto simp: request_execution_cancel_outcome_def log_extends_append)
  next
    case (CancelQueued i now)
    then show ?thesis
      by (cases "execution_row_of s i") (auto simp: cancel_queued_execution_def)
  next
    case (SetPinned i b)
    then show ?thesis by (auto simp: set_execution_pinned_def intro: log_extends_same)
  next
    case (RecordOutcome i n now status message r err)
    show ?thesis
    proof (cases "record_node_outcome i n now status message r err s")
      case (Inr s')
      then have "log_extends s s'"
        by (rule outcome_cases) (simp_all add: log_extends_append log_extends_same)
      with RecordOutcome Inr show ?thesis by (simp add: after_def)
    qed (use RecordOutcome in \<open>simp add: after_def log_extends_same\<close>)
  next
    case (SchedulerEvent t r p now)
    then show ?thesis by (simp add: record_scheduler_event_def log_extends_append log_extends_same)
  qed (use False in \<open>auto simp: after_def quiet_defs Let_def rbind_unit_Inr intro!: log_extends_same
      split: sum.split option.splits if_splits\<close>)
qed

interpretation event_log: store_invariant env "log_extends s0" for env s0
  by unfold_locales (rule log_extends_trans [OF _ log_extends_command])

text \<open>A reader of the event log misses nothing: after any commands, the events with numbers up to the
  last one it saw are events that were there before, and the later ones come in strictly increasing order
  of their numbers and carry only the safe keys with scalar values.\<close>

theorem event_log_extends:
  assumes "\<forall>e \<in> set (event_rows s). ev_sequence e \<le> event_sequence s"
  shows "\<exists>new. filter (\<lambda>e. event_sequence s < ev_sequence e) (event_rows (run_commands env cs s)) = new
    \<and> set (filter (\<lambda>e. ev_sequence e \<le> event_sequence s) (event_rows (run_commands env cs s)))
        \<subseteq> set (event_rows s)
    \<and> sorted_wrt (<) (map ev_sequence new) \<and> list_all (\<lambda>e. safe_payload (ev_payload e)) new"
proof -
  from event_log.run [of s s env cs] obtain P new where
    rows: "event_rows (run_commands env cs s) = filter P (event_rows s) @ new"
    and new: "sorted_wrt (<) (map ev_sequence new)"
      "\<forall>e \<in> set new. event_sequence s < ev_sequence e \<and> safe_payload (ev_payload e)"
    by (auto simp: log_extends_def)
  have "filter (\<lambda>e. event_sequence s < ev_sequence e) (filter P (event_rows s)) = []"
    using assms by (auto simp: filter_empty_conv)
  moreover have "filter (\<lambda>e. event_sequence s < ev_sequence e) new = new"
    using new(2) by (simp add: filter_id_conv)
  ultimately show ?thesis using rows new by (auto simp: list_all_iff)
qed

theorem event_log_extends_witness:
  "map ev_sequence (filter (\<lambda>e. event_sequence ended_store < ev_sequence e)
      (event_rows (run_commands test_env [Create ''f'' 3 ''w'', Finish ''f'' 4 ''succeeded'' None] ended_store))) = [3, 4]
   \<and> sorted_wrt (<) (map ev_sequence (filter (\<lambda>e. event_sequence ended_store < ev_sequence e)
      (event_rows (run_commands test_env [Create ''f'' 3 ''w'', Finish ''f'' 4 ''succeeded'' None] ended_store))))"
proof
  have "\<forall>e \<in> set (event_rows ended_store). ev_sequence e \<le> event_sequence ended_store"
    by (simp add: ended_store_def store_eval)
  from event_log_extends [OF this, of test_env "[Create ''f'' 3 ''w'', Finish ''f'' 4 ''succeeded'' None]"]
  show "sorted_wrt (<) (map ev_sequence (filter (\<lambda>e. event_sequence ended_store < ev_sequence e)
      (event_rows (run_commands test_env [Create ''f'' 3 ''w'', Finish ''f'' 4 ''succeeded'' None] ended_store))))"
    by blast
  show "map ev_sequence (filter (\<lambda>e. event_sequence ended_store < ev_sequence e)
      (event_rows (run_commands test_env [Create ''f'' 3 ''w'', Finish ''f'' 4 ''succeeded'' None] ended_store))) = [3, 4]"
    by (simp add: ended_store_def store_eval)
qed

end
