(* ===== verification/Execution_Run.thy ===== *)
theory Execution_Run
  imports Run_Frame Store_Props
begin

text \<open>
  Preparing and running an execution (\<open>src/runtime.rs\<close>), where the planner, the store and the interpreter
  meet: a source is compiled and its plan stored with the admission; later a worker reads the plan back,
  waits for a slot, runs the nodes and finishes the execution.  Between two calls of the store anybody else
  may use it: the commands of the others are part of the \<open>run_clock\<close>, next to the times the worker reads.
  The nodes run on a host whose world holds the store.
\<close>

section \<open>Provider profiles of a document\<close>

datatype provider_type = MiniMax | Codex

datatype profile_status = ProfileUnknown | ProfileAvailable | ProfileUnavailable

record provider_profile =
  profile_type :: provider_type
  allowed_models :: "string list"
  profile_state :: profile_status
  profile_message :: "string option"

definition provider_type_name :: "provider_type \<Rightarrow> string" where
  "provider_type_name t = (case t of MiniMax \<Rightarrow> ''MiniMax'' | Codex \<Rightarrow> ''Codex'')"

definition selected_model :: "workflow_node \<Rightarrow> (string, string) result" where
  "selected_model n =
     (case Option.bind (map_of (node_with n) ''model'') as_str of
        None \<Rightarrow> Inl (''node '' @ node_id n @ '' requires a non-empty with.model'')
      | Some m \<Rightarrow> (if trim m = [] then Inl (''node '' @ node_id n @ '' requires a non-empty with.model'') else Inr m))"

definition profile_for_node ::
  "(string \<Rightarrow> provider_profile option) \<Rightarrow> workflow_node \<Rightarrow> provider_type \<Rightarrow> (string, provider_profile) result" where
  "profile_for_node profiles n expected =
     (case Option.bind (map_of (node_with n) ''provider'') as_str of
        None \<Rightarrow> Inl (''node '' @ node_id n @ '' requires a non-empty with.provider'')
      | Some i \<Rightarrow>
          (if trim i = [] then Inl (''node '' @ node_id n @ '' requires a non-empty with.provider'')
           else (case profiles i of
               None \<Rightarrow> Inl (''provider profile '' @ i @ '' was not found'')
             | Some p \<Rightarrow>
                 (if profile_type p \<noteq> expected
                  then Inl (''provider profile '' @ i @ '' has type '' @ provider_type_name (profile_type p)
                    @ '', which cannot execute '' @ node_type n)
                  else rbind (selected_model n) (\<lambda>m.
                    if m \<notin> set (allowed_models p)
                    then Inl (''model '' @ m @ '' is not permitted by provider profile '' @ i)
                    else if profile_state p = ProfileUnavailable
                    then Inl (''provider profile '' @ i @ '' is unavailable: '' @
                      (case profile_message p of
                         None \<Rightarrow> ''run provider diagnose after correcting its configuration'' | Some e \<Rightarrow> e))
                    else Inr p)))))"

definition provider_node_types :: "string list" where
  "provider_node_types =
     [''kakune.ai.generate@1'', ''kakune.ai.extract@1'', ''kakune.ai.boolean@1'', ''kakune.ai.choose@1'',
      ''kakune.ai.agent@1'', ''kakune.ai.minimax.messages@1'', ''kakune.ai.codex.exec@1'']"

text \<open>The provider type a node runs on: the one of its profile, unless its node type fixes it.\<close>

definition expected_provider ::
  "(string \<Rightarrow> provider_profile option) \<Rightarrow> workflow_node \<Rightarrow> (string, provider_type) result" where
  "expected_provider profiles n =
     (if node_type n = ''kakune.ai.codex.exec@1'' then Inr Codex
      else if node_type n = ''kakune.ai.minimax.messages@1'' then Inr MiniMax
      else rbind (ok_or (Option.bind (map_of (node_with n) ''provider'') as_str) ''with.provider is required'')
        (\<lambda>i. rbind (ok_or (profiles i) ''provider profile was not found'') (\<lambda>p. Inr (profile_type p))))"

definition check_provider ::
  "(string \<Rightarrow> provider_profile option) \<Rightarrow> workflow_node \<Rightarrow> (string, unit) result" where
  "check_provider profiles n =
     (if node_type n \<in> set provider_node_types
      then rbind (expected_provider profiles n) (\<lambda>t. rbind (profile_for_node profiles n t) (\<lambda>_. Inr ()))
      else Inr ())"

function validate_provider_profiles ::
  "(string \<Rightarrow> provider_profile option) \<Rightarrow> workflow_node list \<Rightarrow> (string, unit) result" where
  "validate_provider_profiles profiles ns =
     all_ok (concat (map
       (\<lambda>n. check_provider profiles n
          # map (\<lambda>g. validate_provider_profiles profiles (sub_nodes g)) (subgraphs n)) ns))"
  by pat_completeness auto
termination
  by (relation "measure (\<lambda>(_, ns). size_list size ns)") (auto dest: scope_size)

declare validate_provider_profiles.simps [simp del]

section \<open>Preparing\<close>

record plugin_entry =
  manifest_id :: string
  entry_version :: string
  entry_path :: "string option"
  entry_digest :: string

text \<open>What preparing uses besides the store: the YAML reader, the plugin registry, the digest of the package
  a manifest is in, the provider profiles, and the JSON form of a plan.\<close>

record core_env =
  read_document :: "string \<Rightarrow> (string, workflow_document) result"
  registry :: "string \<Rightarrow> plugin_entry option"
  package_digest :: "string \<Rightarrow> (string, string) result"
  profiles :: "string \<Rightarrow> provider_profile option"
  encode_plan :: "execution_plan \<Rightarrow> json"
  decode_plan :: "json \<Rightarrow> (string, execution_plan) result"
  command_env :: store_env

type_synonym plugin_version_ref = "string \<times> string \<times> string \<times> string"

definition ref_less :: "plugin_version_ref \<Rightarrow> plugin_version_ref \<Rightarrow> bool" where
  "ref_less = (\<lambda>(a, b, c, d) (a', b', c', d').
     str_less a a' \<or> a = a' \<and> (str_less b b' \<or> b = b' \<and> (str_less c c' \<or> c = c' \<and> str_less d d')))"

fun insert_ref :: "plugin_version_ref \<Rightarrow> plugin_version_ref list \<Rightarrow> plugin_version_ref list" where
  "insert_ref x [] = [x]"
| "insert_ref x (y # ys) = (if x = y then y # ys else if ref_less x y then x # y # ys else y # insert_ref x ys)"

definition plugin_ref :: "core_env \<Rightarrow> plugin_entry \<Rightarrow> (string, plugin_version_ref) result" where
  "plugin_ref env p =
     (case entry_path p of
        None \<Rightarrow> Inl ''plugin catalog does not have a valid manifest path''
      | Some path \<Rightarrow>
          (if path_components path = [] then Inl ''plugin manifest has no package directory''
           else rbind (package_digest env path) (\<lambda>digest.
             if digest \<noteq> entry_digest p then Inl ''plugin content changed since catalog loading''
             else Inr (manifest_id p, entry_version p, path, entry_digest p))))"

text \<open>The stack of pending nodes, its top first; a node pushes those of its body and its branches.\<close>

definition pushed_nodes :: "workflow_node \<Rightarrow> workflow_node list" where
  "pushed_nodes n =
     (case node_body n of None \<Rightarrow> [] | Some b \<Rightarrow> sub_nodes b) @ concat (map sub_nodes (vals (node_branches n)))"

lemma branches_size: "size_list size (concat (map sub_nodes (vals bs))) \<le> size_list (size_prod (\<lambda>_. 0) size) bs"
proof (induction bs)
  case (Cons b bs)
  obtain k e ns outs where b: "b = (k, WorkflowSubgraph e ns outs)" by (metis prod.exhaust workflow_subgraph.exhaust)
  from Cons show ?case by (simp add: b vals_def)
qed (simp add: vals_def)

lemma body_size: "size_list size (case body of None \<Rightarrow> [] | Some b \<Rightarrow> sub_nodes b) \<le> size_option size body"
  by (cases body rule: option.exhaust; cases "the body") auto

lemma pushed_size: "size_list size (pushed_nodes n) < size n"
proof (cases n)
  case (WorkflowNode i t w inputs on retry bs body)
  with branches_size [of bs] body_size [of body] show ?thesis by (simp add: pushed_nodes_def)
qed

lemma size_list_rev [simp]: "size_list f (rev xs) = size_list f xs"
  by (induction xs) simp_all

function collect_plugins ::
  "core_env \<Rightarrow> workflow_node list \<Rightarrow> plugin_version_ref list \<Rightarrow> (string, plugin_version_ref list) result" where
  "collect_plugins env [] refs = Inr refs"
| "collect_plugins env (n # pending) refs =
     (let next_pending = rev (pushed_nodes n) @ pending in
      case registry env (node_type n) of
        None \<Rightarrow> collect_plugins env next_pending refs
      | Some p \<Rightarrow> rbind (plugin_ref env p) (\<lambda>r. collect_plugins env next_pending (insert_ref r refs)))"
  by pat_completeness auto
termination
  by (relation "measure (\<lambda>(_, ns, _). size_list size ns)")
    (auto simp: pushed_size less_SucI)

definition diagnostics_message :: "diagnostic list \<Rightarrow> string" where
  "diagnostics_message ds = join_str ''; '' (map diag_message ds)"

definition compile_source :: "core_env \<Rightarrow> string \<Rightarrow> (string, compiled_workflow) result" where
  "compile_source env source =
     (case compile (read_document env) (\<lambda>t. registry env t \<noteq> None) source of
        Inl ds \<Rightarrow> Inl (diagnostics_message ds) | Inr c \<Rightarrow> Inr c)"

text \<open>The plan of a run: that of the document with a finite timeout, the inputs and the trigger values.\<close>

definition run_plan :: "compiled_workflow \<Rightarrow> workflow_policy \<Rightarrow> json \<Rightarrow> json \<Rightarrow> execution_plan" where
  "run_plan c pol inputs trigger =
     (plan c)\<lparr>plan_policy := pol, input_values := inputs, trigger_values := trigger\<rparr>"

definition prepare_canonical_execution_with_eligibility ::
  "core_env \<Rightarrow> string \<Rightarrow> timestamp \<Rightarrow> string \<Rightarrow> string \<Rightarrow> json \<Rightarrow> json \<Rightarrow> (string \<times> string) option \<Rightarrow> bool
   \<Rightarrow> store \<Rightarrow> (string, (execution_row \<times> bool) \<times> store) result" where
  "prepare_canonical_execution_with_eligibility env i now source revision inputs trigger identity require_enabled s =
     (if \<not> is_object inputs \<or> \<not> is_object trigger
      then Inl ''execution inputs and trigger values must be objects''
      else rbind (compile_source env source) (\<lambda>c.
        rbind (validate_provider_profiles (profiles env) (nodes (ir c))) (\<lambda>_.
          rbind (ensure_finite_execution_timeout (plan_policy (plan c))) (\<lambda>(t, pol).
            rbind (collect_plugins env (rev (nodes (ir c))) []) (\<lambda>refs.
              admit_plan_with_plugin_versions (decode_policy (command_env env)) i now (meta_id (metadata (ir c)))
                revision (encode_plan env (run_plan c pol inputs trigger)) refs identity require_enabled s)))))"

text \<open>The older entry point: no plugin pins, and the revision need not be current.\<close>

definition prepare_execution_with_context_request ::
  "core_env \<Rightarrow> string \<Rightarrow> timestamp \<Rightarrow> string \<Rightarrow> string \<Rightarrow> json \<Rightarrow> json \<Rightarrow> (string \<times> string) option
   \<Rightarrow> store \<Rightarrow> (string, (execution_row \<times> bool) \<times> store) result" where
  "prepare_execution_with_context_request env i now source revision inputs trigger identity s =
     (if \<not> is_object inputs \<or> \<not> is_object trigger
      then Inl ''execution inputs and trigger values must be objects''
      else rbind (compile_source env source) (\<lambda>c.
        rbind (ensure_finite_execution_timeout (plan_policy (plan c))) (\<lambda>(t, pol).
          rbind (validate_provider_profiles (profiles env) (nodes (ir c))) (\<lambda>_.
            create_execution_with_plan_guarded (decode_policy (command_env env)) i now (meta_id (metadata (ir c)))
              revision (encode_plan env (run_plan c pol inputs trigger)) identity (False, False) [] s))))"

section \<open>Running\<close>

definition execution_plan_of :: "store \<Rightarrow> string \<Rightarrow> json option" where
  "execution_plan_of s i = map_option plan_json (find (\<lambda>p. plan_execution p = i) (plan_rows s))"

record execution_limits =
  max_execution_result_bytes :: "nat option"
  max_node_result_bytes :: "nat option"
  admission_wait :: "nat option"
  shutdown_grace :: "nat option"

definition default_limits :: execution_limits where
  "default_limits =
     \<lparr>max_execution_result_bytes = Some (4 * 1048576), max_node_result_bytes = Some 1048576,
      admission_wait = None, shutdown_grace = None\<rparr>"

definition standalone_limits :: execution_limits where
  "standalone_limits = default_limits\<lparr>admission_wait := Some 30000, shutdown_grace := Some 5000\<rparr>"

text \<open>One turn of the waiting loop: the time of the store and the clock, whether shutdown was requested,
  and the commands of others before each of its calls of the store.\<close>

record moment =
  m_now :: timestamp
  m_instant :: nat
  m_shutdown :: bool
  m_claim :: "store_command list"
  m_cancel :: "store_command list"
  m_finish :: "store_command list"

record run_clock =
  c_before :: "store_command list"
  c_start_ms :: int
  c_start :: nat
  c_admission :: nat
  c_moments :: "moment list"
  c_control :: nat
  c_others :: "store_command list"
  c_end :: timestamp

text \<open>How the waiting ends; \<open>None\<close> when the moments are used up first.\<close>

datatype wait_end = Claimed | Stopped "(string, string) result"

text \<open>\<open>finish_execution\<close> and then the answer of the run.\<close>

definition finish_with ::
  "string \<Rightarrow> timestamp \<Rightarrow> string \<Rightarrow> string option \<Rightarrow> (string, 'a) result \<Rightarrow> store
   \<Rightarrow> (string, 'a) result \<times> store" where
  "finish_with i now status err answer s =
     (case finish_execution i now status err s of Inl e \<Rightarrow> (Inl e, s) | Inr s' \<Rightarrow> (answer, s'))"

fun wait_for_slot ::
  "store_env \<Rightarrow> string \<Rightarrow> nat option \<Rightarrow> bool \<Rightarrow> nat option \<Rightarrow> nat \<Rightarrow> moment list \<Rightarrow> store
   \<Rightarrow> (wait_end \<times> store) option" where
  "wait_for_slot env i limit observed admission_deadline total_deadline [] s = None"
| "wait_for_slot env i limit observed admission_deadline total_deadline (m # ms) s =
     (case claim_execution_slot i (m_now m) limit (run_commands env (m_claim m) s) of
        (True, s1) \<Rightarrow> Some (Claimed, s1)
      | (False, s1) \<Rightarrow>
          (let s2 = run_commands env (m_cancel m) s1 in
           if execution_cancel_requested s2 i
           then Some (apfst Stopped (finish_with i (m_now m) ''cancelled'' None (Inr ''cancelled'')
             (run_commands env (m_finish m) s2)))
           else if observed \<and> m_shutdown m then Some (Stopped (Inl ''Core shutdown requested''), s2)
           else (case admission_deadline of
               Some d \<Rightarrow>
                 (if d \<le> m_instant m
                  then (let err = (if total_deadline \<le> m_instant m then ''execution timed out before admission''
                          else ''execution admission wait exceeded its limit'')
                        in Some (apfst Stopped (finish_with i (m_now m) ''timed_out'' (Some err) (Inl err)
                          (run_commands env (m_finish m) s2))))
                  else wait_for_slot env i limit observed admission_deadline total_deadline ms s2)
             | None \<Rightarrow> wait_for_slot env i limit observed admission_deadline total_deadline ms s2)))"

text \<open>From the claim on: the nodes run under the deadline, less the grace for shutting down, and their
  outcome decides how the execution is finished.  A shutdown leaves it as it is, for recovery.\<close>

definition nested_scopes_limit :: nat where "nested_scopes_limit = 33"

definition run_claimed ::
  "store_env \<Rightarrow> (store \<times> 'x) node_host \<Rightarrow> (string \<Rightarrow> bool) \<Rightarrow> execution_limits \<Rightarrow> nat option \<Rightarrow> nat \<Rightarrow> run_clock
   \<Rightarrow> execution_plan \<Rightarrow> execution_row \<Rightarrow> store \<times> 'x \<Rightarrow> (string, execution_row) result \<times> (store \<times> 'x)" where
  "run_claimed env nh plugin_secret limits shutdown total_deadline clock p e w =
     (case fresh_flag nh w of (flag, w0) \<Rightarrow>
       (let control = \<lparr>deadline = Some (reserve_shutdown_grace total_deadline (c_control clock) (shutdown_grace limits)),
              abort = flag, ancestors = [], shutdown_requested = shutdown\<rparr>
        in case execute_nodes nh plugin_secret control (max_node_result_bytes limits)
             (max_execution_result_bytes limits) nested_scopes_limit p w0 of
             (outcome, (s, x)) \<Rightarrow>
               (let ended = (\<lambda>status. e\<lparr>exec_status := status, exec_completed := Some (c_end clock)\<rparr>);
                    finish = (\<lambda>status err answer. map_prod id (\<lambda>s'. (s', x))
                      (finish_with (exec_id e) (c_end clock) status err answer (run_commands env (c_others clock) s)))
                in case outcome of
                     Inr _ \<Rightarrow> finish ''succeeded'' None (Inr (ended ''succeeded''))
                   | Inl err \<Rightarrow>
                       (if err = ''execution cancellation requested''
                        then finish ''cancelled'' None (Inr (ended ''cancelled''))
                        else if err = ''execution timed out'' then finish ''timed_out'' (Some err) (Inl err)
                        else if err = ''Core shutdown requested'' then (Inl err, (s, x))
                        else finish ''failed'' (Some err) (Inl err)))))"

definition execute_prepared_workflow_with_shutdown ::
  "core_env \<Rightarrow> (store \<times> 'x) node_host \<Rightarrow> (string \<Rightarrow> bool) \<Rightarrow> execution_limits \<Rightarrow> nat option \<Rightarrow> run_clock
   \<Rightarrow> execution_row \<Rightarrow> store \<times> 'x \<Rightarrow> ((string, execution_row) result \<times> (store \<times> 'x)) option" where
  "execute_prepared_workflow_with_shutdown env nh plugin_secret limits shutdown clock e = (\<lambda>(s, x).
     let i = exec_id e in
     case rbind (ok_or (execution_plan_of s i) (''execution '' @ i @ '' has no persisted plan'')) (\<lambda>j.
         case decode_plan env j of
           Inl err \<Rightarrow> Inl (''cannot decode persisted execution plan: '' @ err)
         | Inr p \<Rightarrow> rbind (ensure_finite_execution_timeout (plan_policy p)) (\<lambda>(t, pol).
             rbind (execution_time_remaining i (c_start_ms clock) t (run_commands (command_env env) (c_before clock) s))
               (\<lambda>(left, s1). Inr (p\<lparr>plan_policy := pol\<rparr>, c_start clock + left, s1)))) of
       Inl err \<Rightarrow> Some (Inl err, (run_commands (command_env env) (c_before clock) s, x))
     | Inr (p, total_deadline, s1) \<Rightarrow>
         (let run = run_claimed (command_env env) nh plugin_secret limits shutdown total_deadline clock p in
          if exec_status e = ''queued''
          then (case wait_for_slot (command_env env) i (Option.bind (concurrency (plan_policy p)) max_runs)
                   (shutdown \<noteq> None)
                   (map_option (\<lambda>wait. min total_deadline (c_admission clock + wait)) (admission_wait limits))
                   total_deadline (c_moments clock) s1 of
                  None \<Rightarrow> None
                | Some (Claimed, s2) \<Rightarrow> Some (run (e\<lparr>exec_status := ''running''\<rparr>) (s2, x))
                | Some (Stopped (Inl err), s2) \<Rightarrow> Some (Inl err, (s2, x))
                | Some (Stopped (Inr status), s2) \<Rightarrow>
                    Some (Inr (e\<lparr>exec_status := status, exec_completed := Some (c_end clock)\<rparr>), (s2, x)))
          else Some (run e (s1, x))))"

section \<open>The host of a run\<close>

text \<open>The interpreter's calls of the store, on the execution \<open>i\<close>: checkpoints, delays, trace spans, outcomes of
  nodes, the result, and the check of the control.  The rest (leaf nodes, files, waiting, flags) is a host below;
  \<open>outside\<close> reads the clocks and the flags, draws ids, knows the span a node runs in, and gives the JSON form of
  a result; a call takes time.\<close>

record 'x outside =
  out_now :: "'x \<Rightarrow> timestamp"
  out_ms :: "'x \<Rightarrow> int"
  out_instant :: "'x \<Rightarrow> nat"
  out_flags :: "'x \<Rightarrow> nat \<Rightarrow> bool"
  out_uuid :: "'x \<Rightarrow> string"
  out_parent :: "'x \<Rightarrow> string option"
  out_tick :: "'x \<Rightarrow> 'x"
  encode_result :: "node_result \<Rightarrow> json"
  decode_result :: "json \<Rightarrow> (string, node_result) result"

definition store_call ::
  "'x outside \<Rightarrow> ('x \<Rightarrow> store \<Rightarrow> (string, 'a \<times> store) result) \<Rightarrow> (store \<times> 'x, 'a) run" where
  "store_call out f = (\<lambda>(s, x).
     case f x s of
       Inl e \<Rightarrow> (Inl e, (s, out_tick out x)) | Inr (a, s') \<Rightarrow> (Inr a, (s', out_tick out x)))"

abbreviation answered :: "'a \<Rightarrow> (string, store) result \<Rightarrow> (string, 'a \<times> store) result" where
  "answered a r \<equiv> rbind r (\<lambda>s. Inr (a, s))"

definition store_host :: "'x outside \<Rightarrow> string \<Rightarrow> (store \<times> 'x) node_host \<Rightarrow> (store \<times> 'x) node_host" where
  "store_host out i base = base\<lparr>
     durable_delay := (\<lambda>n ms. store_call out (\<lambda>x. durable_delay_remaining i n (out_ms out x) ms)),
     checkpoint_result := (\<lambda>n. store_call out (\<lambda>x s.
       case checkpoint_result_of s i n of
         None \<Rightarrow> Inr (None, s)
       | Some v \<Rightarrow>
           (case decode_result out v of
              Inl e \<Rightarrow> Inl (''invalid node checkpoint: '' @ e) | Inr r \<Rightarrow> Inr (Some r, s)))),
     begin_checkpoint := (\<lambda>n status. store_call out (\<lambda>x s. answered () (begin_checkpoint_row i n status s))),
     complete_checkpoint := (\<lambda>n saved. store_call out (\<lambda>x s.
       Inr ((), complete_checkpoint_row i n (map_option (encode_result out) saved) s))),
     start_span := (\<lambda>n attempt. store_call out (\<lambda>x s.
       answered (out_uuid out x) (start_trace_span (out_uuid out x) i (out_parent out x) ''node'' s))),
     finish_span := (\<lambda>span status err. store_call out (\<lambda>x s.
       answered () (finish_trace_span span status (out_now out x) err s))),
     check_run := (\<lambda>c. store_call out (\<lambda>x s.
       rbind (control_check (out_flags out x) (Inr (execution_cancel_requested s i)) (out_instant out x) c)
         (\<lambda>_. Inr ((), s)))),
     record_outcome := (\<lambda>n status message r err. store_call out (\<lambda>x s.
       answered () (record_node_outcome i n (out_now out x) status message r err s))),
     store_result := (\<lambda>v. store_call out (\<lambda>x s. answered () (set_execution_result i v s)))\<rparr>"

end
