(* ===== verification/Run_Settles.thy ===== *)
theory Run_Settles
  imports Execution_Run
begin

text \<open>
  What an admitted execution is promised: the plan that was compiled is the plan that runs, whatever happens
  to the store in between; the run changes the store by commands of the store only, so that every invariant of
  the store is kept; and when it ends, the execution has ended, unless Core is shutting down.
\<close>

section \<open>Runs as commands of the store\<close>

definition spares :: "string \<Rightarrow> store_command list \<Rightarrow> bool" where
  "spares i cs \<longleftrightarrow> list_all (\<lambda>c. creates c \<noteq> Some i) cs"

definition reach :: "store_env \<Rightarrow> string \<Rightarrow> store \<times> 'x \<Rightarrow> store \<times> 'x \<Rightarrow> bool" where
  "reach env i w w' \<longleftrightarrow> (\<exists>cs. spares i cs \<and> fst w' = run_commands env cs (fst w))"

lemma run_commands_append: "run_commands env (cs @ ds) s = run_commands env ds (run_commands env cs s)"
  by (simp add: run_commands_def)

lemma spares_simps [simp]: "spares i []" "spares i (c # cs) \<longleftrightarrow> creates c \<noteq> Some i \<and> spares i cs"
  "spares i (cs @ ds) \<longleftrightarrow> spares i cs \<and> spares i ds"
  by (simp_all add: spares_def)

interpretation reach: world_relation "reach env i" for env i
proof
  show "reach env i w w" for w :: "store \<times> 'x"
    unfolding reach_def by (rule exI [of _ "[]"]) simp
  show "reach env i u w" if uv: "reach env i u v" and vw: "reach env i v w" for u v w :: "store \<times> 'x"
  proof -
    from uv vw obtain cs ds where "spares i cs" "fst v = run_commands env cs (fst u)"
      "spares i ds" "fst w = run_commands env ds (fst v)" by (auto simp: reach_def)
    then show ?thesis
      unfolding reach_def by (intro exI [of _ "cs @ ds"]) (simp add: run_commands_append)
  qed
qed

lemma reach_commands: "spares i cs \<Longrightarrow> reach env i (s, x) (run_commands env cs s, y)"
  by (auto simp: reach_def)

lemma reach_command: "creates c \<noteq> Some i \<Longrightarrow> reach env i (s, x) (apply_command env c s, y)"
  using reach_commands [of i "[c]" env s x y] by simp

lemma reach_invariant:
  assumes "store_invariant env ok" and "reach env i w w'" and "ok (fst w)"
  shows "ok (fst w')"
  using assms(2) store_invariant.run [OF assms(1,3)] by (auto simp: reach_def)

text \<open>The operations of a run are such commands.\<close>

lemma reach_claim: "claim_execution_slot j now limit s = (b, s') \<Longrightarrow> reach env i (s, x) (s', y)"
  using reach_command [of "Claim j now limit" i env s x y] by simp

lemma reach_finish: "reach env i (s, x) (snd (finish_with j now status err answer s), y)"
proof (cases "finish_execution j now status err s")
  case (Inl e)
  then show ?thesis using reach_commands [of i "[]" env s x y] by (simp add: finish_with_def)
next
  case (Inr s')
  with reach_command [of "Finish j now status err" i env s x y] show ?thesis
    by (simp add: finish_with_def after_def)
qed

lemma reach_time: "execution_time_remaining j now_ms t s = Inr (left, s') \<Longrightarrow> reach env i (s, x) (s', y)"
  using reach_command [of "TimeRemaining j now_ms t" i env s x y] by (simp add: after_def)

section \<open>Settled executions\<close>

definition is_settled :: "store \<Rightarrow> string \<Rightarrow> bool" where
  "is_settled s i \<longleftrightarrow> (\<forall>e. execution_row_of s i = Some e \<longrightarrow> exec_status e \<notin> set live_statuses)"

definition ending_statuses :: "string list" where
  "ending_statuses = [''succeeded'', ''failed'', ''cancelled'', ''timed_out'']"

lemma finish_settles:
  assumes "status \<in> set ending_statuses"
  shows "is_settled (snd (finish_with i now status err answer s)) i"
proof (cases "execution_row_of s i")
  case (Some e)
  with assms show ?thesis
    by (auto simp: finish_with_def finish_execution_def is_settled_def ending_statuses_def live_statuses_def)
qed (simp add: finish_with_def finish_execution_def is_settled_def)

lemma settled_commands:
  assumes "refs_ok s" and "is_settled s i" and "spares i cs"
  shows "is_settled (run_commands env cs s) i"
  using assms
proof (induction cs arbitrary: s)
  case (Cons c cs)
  have "is_settled (apply_command env c s) i"
    unfolding is_settled_def
  proof (intro allI impI)
    fix e'
    assume e': "execution_row_of (apply_command env c s) i = Some e'"
    with Cons.prems(3) row_gone [of i "[c]" s env] obtain e where e: "execution_row_of s i = Some e"
      by (cases "execution_row_of s i") auto
    with Cons.prems(2) have "exec_status e \<notin> set live_statuses" by (simp add: is_settled_def)
    with ended_step [OF refs_ok_ids [OF Cons.prems(1)] e this e'] show "exec_status e' \<notin> set live_statuses"
      by (metis execution_row.select_convs(3) execution_row.surjective execution_row.update_convs(7))
  qed
  with Cons refs_ok_command show ?case by simp
qed simp

section \<open>Waiting\<close>

definition moments_spare :: "string \<Rightarrow> moment list \<Rightarrow> bool" where
  "moments_spare i = list_all (\<lambda>m. spares i (m_claim m) \<and> spares i (m_cancel m) \<and> spares i (m_finish m))"

lemma wait_stopped_settles:
  "wait_for_slot env i limit observed adm total_deadline ms s = Some (Stopped r, s')
    \<Longrightarrow> r = Inl ''Core shutdown requested'' \<or> is_settled s' i"
proof (induction ms arbitrary: s)
  case (Cons m ms)
  have fin: "is_settled s' i" if "apfst Stopped (finish_with i now status err a s0) = (Stopped r, s')"
    "status \<in> set ending_statuses" for now status err a s0
    using that finish_settles [OF that(2), of i now err a s0] by (cases "finish_with i now status err a s0") auto
  from Cons show ?case
    by (auto simp: Let_def ending_statuses_def dest!: fin split: prod.splits bool.splits if_splits option.splits)
qed simp

lemma wait_reach:
  "wait_for_slot env i limit observed adm total_deadline ms s = Some (r, s') \<Longrightarrow> moments_spare j ms
    \<Longrightarrow> reach env j (s, x) (s', x)"
proof (induction ms arbitrary: s)
  case (Cons m ms)
  define s0 where "s0 = run_commands env (m_claim m) s"
  obtain b s1 where claim: "claim_execution_slot i (m_now m) limit s0 = (b, s1)" by fastforce
  define s2 where "s2 = run_commands env (m_cancel m) s1"
  define s3 where "s3 = run_commands env (m_finish m) s2"
  have spare: "spares j (m_claim m)" "spares j (m_cancel m)" "spares j (m_finish m)" "moments_spare j ms"
    using Cons.prems(2) by (simp_all add: moments_spare_def)
  have r1: "reach env j (s, x) (s1, x)"
    by (rule reach.relation_trans [OF reach_commands [OF spare(1)] reach_claim [OF claim [unfolded s0_def]]])
  have r2: "reach env j (s, x) (s2, x)"
    unfolding s2_def by (rule reach.relation_trans [OF r1 reach_commands [OF spare(2)]])
  have r3: "reach env j (s, x) (s3, x)"
    unfolding s3_def by (rule reach.relation_trans [OF r2 reach_commands [OF spare(3)]])
  have fin: "reach env j (s, x) (s', x)" if "apfst Stopped (finish_with i now status err a s3) = (r, s')"
    for now status err a
    using reach.relation_trans [OF r3 reach_finish [of env j s3 x i now status err a x]] that
    by (cases "finish_with i now status err a s3") auto
  have rest: "reach env j (s, x) (s', x)" if "wait_for_slot env i limit observed adm total_deadline ms s2 = Some (r, s')"
    using reach.relation_trans [OF r2 Cons.IH [OF that spare(4)]] .
  from Cons.prems(1) show ?case
    using r1 r2 fin rest
    by (auto simp: s0_def [symmetric] claim s2_def [symmetric] s3_def [symmetric] Let_def
        split: bool.splits if_splits option.splits)
qed simp

lemma wait_ends:
  assumes "\<exists>m \<in> set ms. d \<le> m_instant m"
  shows "wait_for_slot env i limit observed (Some d) total_deadline ms s \<noteq> None"
  using assms by (induction ms arbitrary: s) (auto simp: Let_def split: prod.split bool.split)

section \<open>The run\<close>

lemma run_claimed_settles:
  assumes "run_claimed env nh ps limits sd total_deadline clock p e w = (r, w')"
  shows "r = Inl ''Core shutdown requested'' \<or> is_settled (fst w') (exec_id e)"
proof -
  obtain flag w0 where flag: "fresh_flag nh w = (flag, w0)" by (cases "fresh_flag nh w")
  let ?control = "\<lparr>deadline = Some (reserve_shutdown_grace total_deadline (c_control clock) (shutdown_grace limits)),
    abort = flag, ancestors = [], shutdown_requested = sd\<rparr>"
  obtain outcome s x where run: "execute_nodes nh ps ?control (max_node_result_bytes limits)
    (max_execution_result_bytes limits) nested_scopes_limit p w0 = (outcome, (s, x))" by (metis prod.exhaust)
  have fin: "is_settled (fst w') (exec_id e)"
    if "map_prod id (\<lambda>s'. (s', x)) (finish_with (exec_id e) now status err a s0) = (r, w')"
      "status \<in> set ending_statuses" for now status err a s0
    using that finish_settles [OF that(2), of "exec_id e" now err a s0]
    by (cases "finish_with (exec_id e) now status err a s0") auto
  from assms show ?thesis
    unfolding run_claimed_def flag prod.case Let_def run
    by (auto simp: ending_statuses_def dest!: fin split: sum.splits if_splits)
qed

lemma run_claimed_reach:
  assumes "host_frame (reach env i) nh" and "spares i (c_others clock)"
    and "run_claimed env nh ps limits sd total_deadline clock p e w = (r, w')"
  shows "reach env i w w'"
proof -
  obtain flag w0 where flag: "fresh_flag nh w = (flag, w0)" by (cases "fresh_flag nh w")
  let ?control = "\<lparr>deadline = Some (reserve_shutdown_grace total_deadline (c_control clock) (shutdown_grace limits)),
    abort = flag, ancestors = [], shutdown_requested = sd\<rparr>"
  obtain outcome s x where run: "execute_nodes nh ps ?control (max_node_result_bytes limits)
    (max_execution_result_bytes limits) nested_scopes_limit p w0 = (outcome, (s, x))" by (metis prod.exhaust)
  have r0: "reach env i w w0"
    by (rule reach.stays_step [OF host_frame.flags(1) [OF assms(1)] flag])
  have r1: "reach env i w (s, x)"
    by (rule reach.relation_trans [OF r0 reach.stays_step [OF host_frame.execute_nodes_stays [OF assms(1)] run]])
  have r2: "reach env i w (run_commands env (c_others clock) s, x)"
    by (rule reach.relation_trans [OF r1 reach_commands [OF assms(2)]])
  have fin: "reach env i w w'"
    if "map_prod id (\<lambda>s'. (s', x)) (finish_with (exec_id e) now status err a
          (run_commands env (c_others clock) s)) = (r, w')" for now status err a
    using reach.relation_trans [OF r2 reach_finish [of env i _ x "exec_id e" now status err a x]] that
    by (cases "finish_with (exec_id e) now status err a (run_commands env (c_others clock) s)") auto
  from assms(3) r1 show ?thesis
    unfolding run_claimed_def flag prod.case Let_def run
    by (auto dest!: fin split: sum.splits if_splits)
qed

definition clock_spares :: "string \<Rightarrow> run_clock \<Rightarrow> bool" where
  "clock_spares i clock \<longleftrightarrow>
     spares i (c_before clock) \<and> moments_spare i (c_moments clock) \<and> spares i (c_others clock)"

text \<open>A run of an execution whose plan is there, from the time its deadline is known on.\<close>

lemma execute_prepared_cases:
  assumes "execute_prepared_workflow_with_shutdown env nh ps limits sd clock e (s, x) = Some (r, w')"
    and "execution_plan_of s (exec_id e) = Some j" and "decode_plan env j = Inr p"
    and "ensure_finite_execution_timeout (plan_policy p) = Inr (t, pol)"
  obtains (failed) err where
      "execution_time_remaining (exec_id e) (c_start_ms clock) t (run_commands (command_env env) (c_before clock) s) = Inl err"
      "r = Inl err" "w' = (run_commands (command_env env) (c_before clock) s, x)"
  | (ran) left s1 s2 f where
      "execution_time_remaining (exec_id e) (c_start_ms clock) t (run_commands (command_env env) (c_before clock) s)
        = Inr (left, s1)"
      "s2 = s1 \<or> (\<exists>limit observed adm. wait_for_slot (command_env env) (exec_id e) limit observed adm
        (c_start clock + left) (c_moments clock) s1 = Some (Claimed, s2))"
      "exec_id f = exec_id e"
      "run_claimed (command_env env) nh ps limits sd (c_start clock + left) clock (p\<lparr>plan_policy := pol\<rparr>) f (s2, x) = (r, w')"
  | (stopped) left s1 s2 limit observed adm answer where
      "execution_time_remaining (exec_id e) (c_start_ms clock) t (run_commands (command_env env) (c_before clock) s)
        = Inr (left, s1)"
      "wait_for_slot (command_env env) (exec_id e) limit observed adm (c_start clock + left) (c_moments clock) s1
        = Some (Stopped answer, s2)"
      "w' = (s2, x)" "r = Inl ''Core shutdown requested'' \<longleftrightarrow> answer = Inl ''Core shutdown requested''"
proof (cases "execution_time_remaining (exec_id e) (c_start_ms clock) t
    (run_commands (command_env env) (c_before clock) s)")
  case (Inl err)
  with assms show thesis
    by (intro failed) (auto simp: execute_prepared_workflow_with_shutdown_def Let_def ok_or_def)
next
  case (Inr y)
  obtain left s1 where y: "y = (left, s1)" by (cases y)
  note start = assms(1) [unfolded execute_prepared_workflow_with_shutdown_def prod.case Let_def]
  show thesis
  proof (cases "exec_status e = ''queued''")
    case False
    with start assms(2-4) Inr y show thesis by (intro ran [of left s1 s1 e]) (auto simp: ok_or_def)
  next
    case True
    let ?limit = "Option.bind (concurrency pol) max_runs" and ?adm = "map_option (\<lambda>wait. min (c_start clock + left)
      (c_admission clock + wait)) (admission_wait limits)"
    show thesis
    proof (cases "wait_for_slot (command_env env) (exec_id e) ?limit (sd \<noteq> None) ?adm (c_start clock + left)
        (c_moments clock) s1")
      case None
      with start assms(2-4) Inr y True show thesis by (simp add: ok_or_def)
    next
      case (Some z)
      obtain d s2 where z: "z = (d, s2)" by (cases z)
      show thesis
      proof (cases d)
        case Claimed
        with start assms(2-4) Inr y True Some z show thesis
          by (intro ran [of left s1 s2 "e\<lparr>exec_status := ''running''\<rparr>"]) (auto simp: ok_or_def)
      next
        case (Stopped answer)
        with start assms(2-4) Inr y True Some z show thesis
          by (intro stopped [of left s1 ?limit "sd \<noteq> None" ?adm answer s2])
            (auto simp: ok_or_def split: sum.splits)
      qed
    qed
  qed
qed

lemma prepared_run_settles:
  assumes "execute_prepared_workflow_with_shutdown env nh ps limits sd clock e (s, x) = Some (r, w')"
    and "execution_plan_of s (exec_id e) = Some j" and "decode_plan env j = Inr p"
    and "ensure_finite_execution_timeout (plan_policy p) = Inr (t, pol)"
    and "c_start_ms clock + int t \<le> i64_max"
  shows "r = Inl ''Core shutdown requested'' \<or> is_settled (fst w') (exec_id e)"
  using assms(1-4)
proof (cases rule: execute_prepared_cases)
  case (failed err)
  then have "execution_row_of (run_commands (command_env env) (c_before clock) s) (exec_id e) = None"
    using assms(5) by (auto simp: execution_time_remaining_def require_execution_def require_def
        split: option.splits if_splits)
  with failed show ?thesis by (simp add: is_settled_def)
next
  case (ran left s1 s2 f)
  from run_claimed_settles [OF ran(4)] ran(3) show ?thesis by simp
next
  case (stopped left s1 s2 limit observed adm answer)
  from wait_stopped_settles [OF stopped(2)] stopped show ?thesis by auto
qed

lemma prepared_run_reach:
  assumes "execute_prepared_workflow_with_shutdown env nh ps limits sd clock e (s, x) = Some (r, w')"
    and "execution_plan_of s (exec_id e) = Some j" and "decode_plan env j = Inr p"
    and "ensure_finite_execution_timeout (plan_policy p) = Inr (t, pol)"
    and "host_frame (reach (command_env env) i) nh" and "clock_spares i clock"
  shows "reach (command_env env) i (s, x) w'"
proof -
  have clock: "spares i (c_before clock)" "moments_spare i (c_moments clock)" "spares i (c_others clock)"
    using assms(6) by (simp_all add: clock_spares_def)
  have before: "reach (command_env env) i (s, x) (run_commands (command_env env) (c_before clock) s, x)"
    by (rule reach_commands [OF clock(1)])
  from assms(1-4) show ?thesis
  proof (cases rule: execute_prepared_cases)
    case (failed err)
    with before show ?thesis by simp
  next
    case (ran left s1 s2 f)
    have "reach (command_env env) i (s, x) (s1, x)"
      by (rule reach.relation_trans [OF before reach_time [OF ran(1)]])
    moreover have "reach (command_env env) i (s1, x) (s2, x)"
      using ran(2) by (auto intro: wait_reach [OF _ clock(2)] reach.relation_refl)
    ultimately have "reach (command_env env) i (s, x) (s2, x)" by (rule reach.relation_trans)
    then show ?thesis by (rule reach.relation_trans [OF _ run_claimed_reach [OF assms(5) clock(3) ran(4)]])
  next
    case (stopped left s1 s2 limit observed adm answer)
    have "reach (command_env env) i (s, x) (s1, x)"
      by (rule reach.relation_trans [OF before reach_time [OF stopped(1)]])
    then show ?thesis unfolding stopped(3) by (rule reach.relation_trans [OF _ wait_reach [OF stopped(2) clock(2)]])
  qed
qed

section \<open>The plan of an execution\<close>

lemma admit_plan_rows:
  assumes "create_execution_with_plan_guarded decode i now w revision pj identity req plugins s
    = Inr ((e, True), s')"
  shows "plan_rows s' = plan_rows s @
    [\<lparr>plan_execution = i, plan_revision = revision, plan_json = pj, plan_created = now\<rparr>]"
proof -
  from assms obtain status s2 s3 where
    "pin_plugins i plugins (s\<lparr>execution_rows := execution_rows s @ [e]\<rparr>) = Inr s2"
    and "save_plan i now revision pj identity s2 = Inr s3"
    and "s' = append_event (started_event status) w (Some i) (started_payload w status) now s3"
    by (rule admit_cases) blast+
  then show ?thesis
    using same_but_pins_frame(2) [OF pin_plugins_same]
    by (auto simp: save_plan_def Let_def split: option.splits if_splits)
qed

lemma find_append_other: "\<not> P x \<Longrightarrow> find P (xs @ [x]) = find P xs"
  by (induction xs) auto

lemma find_append_new: "find P xs = None \<Longrightarrow> P x \<Longrightarrow> find P (xs @ [x]) = Some x"
  by (induction xs) (auto split: if_splits)

lemma find_filter_kept: "keep i \<Longrightarrow> find (\<lambda>p. key p = i) (filter (keep \<circ> key) ps) = find (\<lambda>p. key p = i) ps"
  by (induction ps) auto

lemma plan_kept_step:
  assumes "refs_ok s" and "creates c \<noteq> Some i" and "execution_row_of (apply_command env c s) i = Some e"
  shows "execution_plan_of (apply_command env c s) i = execution_plan_of s i"
proof (cases "creates c = None \<and> \<not> deletes c")
  case True
  with update_frame [of c env s] show ?thesis by (simp add: execution_plan_of_def)
next
  case False
  then show ?thesis
  proof (cases c)
    case (Create j now w)
    then show ?thesis
      by (auto simp: execution_plan_of_def after_def create_execution_def insert_execution_def Let_def)
  next
    case (Admit j now w revision pj identity req plugins)
    show ?thesis
    proof (rule apply_admit_cases [of env j now w revision pj identity req plugins s])
      fix f s'
      assume new: "create_execution_with_plan_guarded (decode_policy env) j now w revision pj identity
          req plugins s = Inr ((f, True), s')"
        and "apply_command env (Admit j now w revision pj identity req plugins) s = s'"
      with Admit assms(2) show ?thesis
        by (simp add: execution_plan_of_def admit_plan_rows [OF new] find_append_other)
    qed (use Admit in simp)
  next
    case (Retain a b)
    let ?gone = "\<lambda>e. (case exec_completed e of None \<Rightarrow> False | Some t \<Rightarrow> t < a) \<and> \<not> exec_pinned e"
    from assms(3) Retain have e: "e \<in> set (execution_rows s)" "\<not> ?gone e" "exec_id e = i"
      by (auto simp: apply_retention_def Let_def dest!: execution_row_of_Some)
    have "i \<notin> set (map exec_id (filter ?gone (execution_rows s)))"
      using e refs_ok_ids [OF assms(1)] by (auto dest: eq_key_imp_eq_value simp: distinct_map inj_on_def)
    with Retain show ?thesis by (simp add: execution_plan_of_def apply_retention_def Let_def find_filter_kept)
  qed simp_all
qed

lemma plan_kept:
  assumes "refs_ok s" and "spares i cs" and "execution_row_of (run_commands env cs s) i = Some e"
  shows "execution_plan_of (run_commands env cs s) i = execution_plan_of s i"
  using assms
proof (induction cs arbitrary: s)
  case (Cons c cs)
  have "execution_row_of (apply_command env c s) i \<noteq> None"
    using row_gone [of i cs "apply_command env c s" env] Cons.prems(2,3) by (auto simp: spares_def)
  with Cons plan_kept_step [of s c i env] refs_ok_command show ?case by auto
qed simp

lemma plan_gone:
  assumes "refs_ok s" and "execution_row_of s i = None"
  shows "execution_plan_of s i = None"
  using assms by (auto simp: refs_ok_def execution_row_of_None execution_plan_of_def find_None_iff)

text \<open>What preparing stores.\<close>

lemma prepare_cases:
  assumes "prepare_canonical_execution_with_eligibility env i now source revision inputs trigger identity enabled s
    = Inr ((e, True), s')"
  obtains c t pol req where "compile (read_document env) (\<lambda>t. registry env t \<noteq> None) source = Inr c"
    "ensure_finite_execution_timeout (plan_policy (plan c)) = Inr (t, pol)"
    "create_execution_with_plan_guarded (decode_policy (command_env env)) i now (meta_id (metadata (ir c))) revision
      (encode_plan env (run_plan c pol inputs trigger)) identity (True, enabled) req s = Inr ((e, True), s')"
  using assms
  by (auto simp: prepare_canonical_execution_with_eligibility_def compile_source_def rbind_Inr
      admit_plan_with_plugin_versions_def split: if_splits sum.splits intro: that)

lemma prepared_plan:
  assumes "refs_ok s"
    and "create_execution_with_plan_guarded decode i now w revision pj identity req plugins s = Inr ((e, True), s')"
  shows "execution_plan_of s' i = Some pj"
proof -
  have "find (\<lambda>p. plan_execution p = i) (plan_rows s) = None"
    using assms(1) admit_new(4) [OF assms(2)] by (auto simp: refs_ok_def find_None_iff)
  then show ?thesis by (simp add: execution_plan_of_def admit_plan_rows [OF assms(2)] find_append_new)
qed

lemma admit_refs_ok:
  fixes env :: store_env
  assumes "refs_ok s"
    and "create_execution_with_plan_guarded (decode_policy env) i now w revision pj identity req plugins s = Inr ((e, b), s')"
  shows "refs_ok s'"
  using refs_ok_command [OF assms(1), of env "Admit i now w revision pj identity req plugins"] assms(2)
  by (simp add: after_def)

lemma timeout_idem:
  assumes "ensure_finite_execution_timeout p = Inr (t, pol)"
  shows "ensure_finite_execution_timeout pol = Inr (t, pol) \<and> t \<le> 3600000"
proof -
  let ?q = "if timeout p = None then p\<lparr>timeout := Some (show_nat (DEFAULT_EXECUTION_TIMEOUT div 1000) @ ''s'')\<rparr> else p"
  define q where "q = ?q"
  have q: "timeout q \<noteq> None" by (simp add: q_def)
  have "rbind (parse_duration (the (timeout q))) (\<lambda>t. if MAX_EXECUTION_TIMEOUT < t
      then Inl ''workflow timeout must not exceed 3,600 seconds'' else Inr (t, q)) = Inr (t, pol)"
    using assms by (simp only: ensure_finite_execution_timeout_def Let_def q_def)
  then have "pol = q" "parse_duration (the (timeout q)) = Inr t" "t \<le> MAX_EXECUTION_TIMEOUT"
    by (auto simp: rbind_Inr split: if_splits)
  with q show ?thesis by (auto simp: ensure_finite_execution_timeout_def Let_def MAX_EXECUTION_TIMEOUT_def)
qed

section \<open>The host of the store\<close>

lemma store_call_reach:
  assumes "\<And>x s a s'. f x s = Inr (a, s') \<Longrightarrow> s' = s \<or> creates (c x) = None \<and> s' = apply_command env (c x) s"
  shows "stays_in (reach env j) (store_call out f)"
  unfolding stays_in_def
proof
  fix w :: "store \<times> 'a"
  obtain s x where w: "w = (s, x)" by (cases w)
  show "reach env j w (snd (store_call out f w))"
  proof (cases "f x s")
    case (Inl e)
    then show ?thesis using reach_commands [of j "[]" env s x] by (simp add: w store_call_def)
  next
    case (Inr y)
    obtain a s' where y: "y = (a, s')" by (cases y)
    from assms [OF Inr [unfolded y]] show ?thesis
    proof
      assume "s' = s"
      with Inr y show ?thesis using reach_commands [of j "[]" env s x] by (simp add: w store_call_def)
    next
      assume "creates (c x) = None \<and> s' = apply_command env (c x) s"
      with Inr y show ?thesis using reach_command [of "c x" j env s x] by (auto simp: w store_call_def)
    qed
  qed
qed

lemma store_host_calls:
  "stays_in (reach env j) (durable_delay (store_host out i base) n ms)"
  "stays_in (reach env j) (checkpoint_result (store_host out i base) n)"
  "stays_in (reach env j) (begin_checkpoint (store_host out i base) n status)"
  "stays_in (reach env j) (complete_checkpoint (store_host out i base) n saved)"
  "stays_in (reach env j) (start_span (store_host out i base) n attempt)"
  "stays_in (reach env j) (finish_span (store_host out i base) sp status err)"
  "stays_in (reach env j) (record_outcome (store_host out i base) n status message r err)"
  "stays_in (reach env j) (store_result (store_host out i base) v)"
  "stays_in (reach env j) (check_run (store_host out i base) c)"
proof -
  note call = store_call_reach [where env = env and j = j and out = out]
  show "stays_in (reach env j) (durable_delay (store_host out i base) n ms)"
    unfolding store_host_def
    by simp (rule call [where c = "\<lambda>x. Delay i n (out_ms out x) ms"], simp add: after_def)
  show "stays_in (reach env j) (checkpoint_result (store_host out i base) n)"
    unfolding store_host_def by simp (rule call, auto split: option.splits sum.splits)
  show "stays_in (reach env j) (begin_checkpoint (store_host out i base) n status)"
    unfolding store_host_def
    by simp (rule call [where c = "\<lambda>x. BeginCheckpoint i n status"], auto simp: after_def rbind_Inr)
  show "stays_in (reach env j) (complete_checkpoint (store_host out i base) n saved)"
    unfolding store_host_def
    by simp (rule call [where c = "\<lambda>x. CompleteCheckpoint i n (map_option (encode_result out) saved)"], simp)
  show "stays_in (reach env j) (start_span (store_host out i base) n attempt)"
    unfolding store_host_def
    by simp (rule call [where c = "\<lambda>x. StartSpan (out_uuid out x) i (out_parent out x) ''node''"],
      auto simp: after_def rbind_Inr)
  show "stays_in (reach env j) (finish_span (store_host out i base) sp status err)"
    unfolding store_host_def
    by simp (rule call [where c = "\<lambda>x. FinishSpan sp status (out_now out x) err"], auto simp: after_def rbind_Inr)
  show "stays_in (reach env j) (record_outcome (store_host out i base) n status message r err)"
    unfolding store_host_def
    by simp (rule call [where c = "\<lambda>x. RecordOutcome i n (out_now out x) status message r err"],
      auto simp: after_def rbind_Inr)
  show "stays_in (reach env j) (store_result (store_host out i base) v)"
    unfolding store_host_def
    by simp (rule call [where c = "\<lambda>x. SetResult i v"], auto simp: after_def rbind_Inr)
  show "stays_in (reach env j) (check_run (store_host out i base) c)"
    unfolding store_host_def by simp (rule call, auto simp: rbind_Inr)
qed

text \<open>Its calls of the store are commands, so that a host below it that keeps to commands is enough.\<close>

lemma store_host_frame:
  assumes "host_frame (reach env j) base"
  shows "host_frame (reach env j) (store_host out i base)"
proof
  note base = host_frame.files [OF assms] host_frame.leaf [OF assms] host_frame.flags [OF assms]
    host_frame.waiting(1) [OF assms]
  have same: "node_files (store_host out i base) = node_files base" "leaf_run (store_host out i base) = leaf_run base"
    "fresh_flag (store_host out i base) = fresh_flag base" "set_flag (store_host out i base) = set_flag base"
    "wait_with_control (store_host out i base) = wait_with_control base"
    by (simp_all add: store_host_def)
  show "stays_in (reach env j) (workspace_dir (node_files (store_host out i base)))"
    "stays_in (reach env j) (create_dir_all (node_files (store_host out i base)) p)"
    "stays_in (reach env j) (write_file (node_files (store_host out i base)) p t)"
    "stays_in (reach env j) (read_to_string (node_files (store_host out i base)) p)"
    "stays_in (reach env j) (copy_file (node_files (store_host out i base)) p q)"
    "stays_in (reach env j) (rename_file (node_files (store_host out i base)) p q)"
    "stays_in (reach env j) (put_artifact (node_files (store_host out i base)) t media name)"
    "stays_in (reach env j) (leaf_run (store_host out i base) c scope n inputs)"
    "stays_in (reach env j) (fresh_flag (store_host out i base))"
    "reach env j w (set_flag (store_host out i base) f w)"
    "stays_in (reach env j) (wait_with_control (store_host out i base) c ms)"
    for p q t media name c scope n inputs w f ms
    unfolding same by (rule base)+
qed (rule store_host_calls)+

section \<open>Properties\<close>


text \<open>A host that does nothing, and the store's host on top of it.\<close>

definition idle_host :: "'w node_host" where
  "idle_host =
     \<lparr>node_files = \<lparr>workspace_dir = sreturn [], path_exists = (\<lambda>_ _. False), canonicalize = (\<lambda>_. Inr),
        is_file = (\<lambda>_ _. True), create_dir_all = (\<lambda>_. sreturn ()), write_file = (\<lambda>_ _. sreturn ()),
        read_to_string = (\<lambda>_. sreturn []), copy_file = (\<lambda>_ _. sreturn ()), rename_file = (\<lambda>_ _. sreturn ()),
        put_artifact = (\<lambda>_ _ _. sreturn JNull), display = (\<lambda>_. [])\<rparr>,
      leaf_run = (\<lambda>c scope n inputs. sreturn \<lparr>result_route = ''success'', result_outputs = [], result_message = None\<rparr>),
      fresh_flag = (\<lambda>w. (0, w)), set_flag = (\<lambda>_ w. w), durable_delay = (\<lambda>_. sreturn),
      checkpoint_result = (\<lambda>_. sreturn None), begin_checkpoint = (\<lambda>_ _. sreturn ()),
      complete_checkpoint = (\<lambda>_ _. sreturn ()), start_span = (\<lambda>_ _. sreturn []),
      finish_span = (\<lambda>_ _ _. sreturn ()), wait_with_control = (\<lambda>_ _. sreturn ()), check_run = (\<lambda>_. sreturn ()),
      record_outcome = (\<lambda>_ _ _ _ _. sreturn ()), store_result = (\<lambda>_. sreturn ()),
      secret_of = (\<lambda>_ _. Inl ''no secrets''), show_float = (\<lambda>_. []), encoded_len = (\<lambda>_. 0),
      encoded_value_len = (\<lambda>_. 0)\<rparr>"

lemma idle_host_frame: "host_frame (reach env i) idle_host"
proof
  have flag: "stays_in (reach env i) (\<lambda>w. (0, w))" by (rule reach.stays_pure(4))
  show "stays_in (reach env i) (fresh_flag idle_host)" by (simp add: idle_host_def flag)
  show "reach env i w (set_flag idle_host f w)" for w f by (simp add: idle_host_def reach.relation_refl)
qed (simp_all add: idle_host_def reach.stays_pure)

text \<open>The store as the host of a run keeps the frame, and so does the scheduler that runs on it, at every depth.\<close>

interpretation stored_run: host_frame "reach env j" "store_host out i idle_host" for env j out i
  by (rule store_host_frame [OF idle_host_frame])

interpretation stored_scope: graph_frame "reach env j"
    "host_of (store_host out i idle_host) ctx (run_subgraph (store_host out i idle_host) d ctx)" for env j out i ctx d
  by (rule stored_run.host_of_stays [OF stored_run.run_subgraph_stays])

definition plain_outside :: "nat outside" where
  "plain_outside =
     \<lparr>out_now = id, out_ms = int, out_instant = id, out_flags = (\<lambda>_ _. False), out_uuid = (\<lambda>n. replicate n CHR ''x''),
      out_parent = (\<lambda>_. None), out_tick = Suc, encode_result = (\<lambda>r. node_result_value r False),
      decode_result = (\<lambda>_. Inl ''no checkpoint'')\<rparr>"

definition finite_policy :: workflow_policy where
  "finite_policy = \<lparr>timeout = Some ''300s'', max_parallel_nodes = None, concurrency = None, ai = None\<rparr>"

definition copy_plan :: execution_plan where
  "copy_plan = run_plan (compiled copy_note) finite_policy (JObject []) (JObject [])"

definition small_core :: core_env where
  "small_core =
     \<lparr>read_document = (\<lambda>_. Inr copy_note), registry = (\<lambda>_. None), package_digest = (\<lambda>_. Inl ''no packages''),
      profiles = (\<lambda>_. None), encode_plan = (\<lambda>_. JNull), decode_plan = (\<lambda>_. Inr copy_plan),
      command_env = \<lparr>decode_policy = (\<lambda>_. Inr finite_policy), source_ok = (\<lambda>_. Inr ()), triggers_ok = (\<lambda>_. Inr ())\<rparr>\<rparr>"

definition ready_store :: store where
  "ready_store = empty_store\<lparr>workflow_rows :=
     [\<lparr>wf_id = ''write-note'', wf_name = ''Write note'', wf_source = [], wf_status = ''enabled'',
       wf_revision = ''r1'', wf_updated = 1\<rparr>]\<rparr>"

definition prepared :: "(string, (execution_row \<times> bool) \<times> store) result" where
  "prepared = prepare_canonical_execution_with_eligibility small_core ''e'' 1 [] ''r1'' (JObject []) (JObject [])
     None True ready_store"

lemma copy_timeout: "ensure_finite_execution_timeout (policy copy_note) = Inr (300000, finite_policy)"
  by code_simp

lemma small_core_compiles:
  "compile (read_document small_core) (\<lambda>t. registry small_core t \<noteq> None) [] = Inr (compiled copy_note)"
  using copy_note_compiles by (simp add: small_core_def)

lemma small_core_plan:
  assumes "compile (read_document small_core) (\<lambda>t. registry small_core t \<noteq> None) [] = Inr c"
    and "ensure_finite_execution_timeout (plan_policy (plan c)) = Inr (t, pol)"
  shows "decode_plan small_core (encode_plan small_core (run_plan c pol (JObject []) (JObject [])))
    = Inr (run_plan c pol (JObject []) (JObject []))"
proof -
  have "c = compiled copy_note" using assms(1) small_core_compiles by simp
  moreover have "pol = finite_policy" using assms(2) copy_timeout calculation by (simp add: compiled_def)
  ultimately show ?thesis by (simp add: small_core_def copy_plan_def)
qed

lemma small_core_checks:
  "validate_provider_profiles (\<lambda>_. None) (nodes copy_note) = Inr ()"
  by (subst validate_provider_profiles.simps)
    (simp add: copy_note_def document_of_def copy_node_def read_node_def check_provider_def provider_node_types_def
      subgraphs_def vals_def)

lemma no_plugins: "registry env = (\<lambda>_. None) \<Longrightarrow> collect_plugins env ns refs = Inr refs"
  by (induction env ns refs rule: collect_plugins.induct) (simp_all add: Let_def)

lemma prepared_new:
  "prepared = Inr ((new_execution ''e'' ''write-note'' ''running'' 1, True), snd (projr prepared))"
proof -
  have "compile_source small_core [] = Inr (compiled copy_note)"
    by (simp only: compile_source_def small_core_compiles sum.case)
  moreover have "profiles small_core = (\<lambda>_. None)" "registry small_core = (\<lambda>_. None)" by (simp_all add: small_core_def)
  moreover have "meta_id (metadata copy_note) = ''write-note''" by (simp add: copy_note_def document_of_def)
  ultimately show ?thesis
    unfolding prepared_def prepare_canonical_execution_with_eligibility_def
    using small_core_checks copy_timeout
    by (simp add: is_object_def compiled_def no_plugins admit_plan_with_plugin_versions_def small_core_def
        finite_policy_def admit_eval store_eval check_current_def ensure_workflow_not_blocked_def
        require_def ready_store_def)
qed

definition plain_clock :: run_clock where
  "plain_clock =
     \<lparr>c_before = [], c_start_ms = 0, c_start = 0, c_admission = 0, c_moments = [], c_control = 0, c_others = [], c_end = 2\<rparr>"

lemma claimed_run_returns:
  assumes "exec_status e \<noteq> ''queued''"
  obtains r s' x' where
    "execute_prepared_workflow_with_shutdown env nh ps limits sd clock e (s, x) = Some (r, (s', x'))"
proof -
  have "execute_prepared_workflow_with_shutdown env nh ps limits sd clock e (s, x) \<noteq> None"
    using assms
    by (simp add: execute_prepared_workflow_with_shutdown_def Let_def del: not_None_eq split: sum.split prod.split)
  then show thesis using that by (metis option.exhaust prod.exhaust)
qed


end
