(* ===== verification/Artifact_Store.thy ===== *)
theory Artifact_Store
  imports Store_Props
begin

text \<open>
  Artifacts: the references from executions to artifacts are kept by every command, and retention deletes the
  oldest artifacts that nothing refers to, and no more than it has to, until the rest fits the limit.  A file is
  removed before its row; what others do to the store in between is a list of commands per artifact.
\<close>

section \<open>References to artifacts\<close>

definition links_ok :: "store \<Rightarrow> bool" where
  "links_ok s \<longleftrightarrow>
     distinct (map art_id (artifact_rows s)) \<and> list_all (\<lambda>a. art_sha256 a = art_id a) (artifact_rows s)
     \<and> (\<forall>(i, n, a) \<in> set (link_rows s). a \<in> art_id ` set (artifact_rows s))"

definition same_links :: "store \<Rightarrow> store \<Rightarrow> bool" where
  "same_links s s' \<longleftrightarrow> artifact_rows s' = artifact_rows s \<and> set (link_rows s') \<subseteq> set (link_rows s)"

lemma same_links_ok: "same_links s s' \<Longrightarrow> links_ok s \<Longrightarrow> links_ok s'"
  by (auto simp: same_links_def links_ok_def)

lemma same_links_refl [simp]: "same_links s s"
  by (simp add: same_links_def)

lemma same_links_trans: "same_links s t \<Longrightarrow> same_links t u \<Longrightarrow> same_links s u"
  by (auto simp: same_links_def)

lemma same_links_blocks [simp]:
  "same_links s (append_event t r x p now s') = same_links s s'"
  "same_links s (close_spans i st now err s') = same_links s s'"
  "same_links s (update_execution i f s') = same_links s s'"
  "same_links s (publish_plugin row s') = same_links s s'"
  by (simp_all add: same_links_def append_event_def close_spans_def update_execution_def publish_plugin_def Let_def)

lemma same_links_rows: "artifact_rows s' = artifact_rows s \<Longrightarrow> link_rows s' = link_rows s \<Longrightarrow> same_links s s'"
  by (simp add: same_links_def)

lemma same_links_pins:
  assumes "same_but_pins s s'"
  shows "same_links s s'"
proof -
  from assms have "s' = s\<lparr>pin_rows := pin_rows s'\<rparr>" by (simp add: same_but_pins_def)
  then have "artifact_rows s' = artifact_rows s" "link_rows s' = link_rows s"
    by (metis store.select_convs(18) store.surjective store.update_convs(13),
        metis store.select_convs(19) store.surjective store.update_convs(13))
  then show ?thesis by (rule same_links_rows)
qed

lemma same_links_block_workflows: "block_workflows p now ws s = Inr s' \<Longrightarrow> same_links s s'"
proof (induction ws arbitrary: s)
  case (Cons w ws)
  let ?s = "s\<lparr>workflow_rows := update_rows (\<lambda>r. wf_id r = w)
      (\<lambda>r. r\<lparr>wf_status := ''disabled'', wf_updated := now\<rparr>) (workflow_rows s),
      removal_rows := List.insert (p, w) (removal_rows s)\<rparr>"
  have "same_links s ?s" by (simp add: same_links_def)
  with Cons same_links_trans [of s ?s s'] show ?case by (auto split: if_splits)
qed simp

lemma same_links_recover: "same_links s s' \<Longrightarrow> same_links s (fold (recover_execution now) es s')"
  by (induction es arbitrary: s') (auto simp: recover_execution_def split: prod.split)

lemma same_links_admit:
  assumes "create_execution_with_plan_guarded decode i now w revision pj identity req plugins s
    = Inr ((e, True), s')"
  shows "same_links s s'"
proof -
  from assms obtain status s2 s3 where *:
    "pin_plugins i plugins (s\<lparr>execution_rows := execution_rows s @ [e]\<rparr>) = Inr s2"
    "save_plan i now revision pj identity s2 = Inr s3"
    "s' = append_event (started_event status) w (Some i) (started_payload w status) now s3"
    by (rule admit_cases) blast+
  have "same_links s (s\<lparr>execution_rows := execution_rows s @ [e]\<rparr>)" by (simp add: same_links_def)
  moreover have "same_links s2 s3"
    using *(2) by (auto simp: save_plan_def Let_def same_links_def split: option.splits if_splits)
  ultimately show ?thesis
    using same_links_trans same_links_pins [OF pin_plugins_same [OF *(1)]] unfolding *(3) same_links_blocks by blast
qed

lemma link_artifacts_ok:
  "link_artifacts i n as s = Inr s' \<Longrightarrow> links_ok s \<Longrightarrow> links_ok s'"
  by (induction as arbitrary: s) (auto simp: links_ok_def split: if_splits)

lemma is_linked_iff: "is_linked s a \<longleftrightarrow> (\<exists>i n. (i, n, a) \<in> set (link_rows s))"
  by (auto simp: is_linked_def list_ex_iff)

lemma links_ok_linked: "links_ok s \<Longrightarrow> is_linked s a \<Longrightarrow> a \<in> art_id ` set (artifact_rows s)"
  by (auto simp: links_ok_def is_linked_iff)

lemma links_ok_delete:
  assumes "links_ok s" and "delete_artifact_row a s = Inr s'"
  shows "links_ok s'"
proof -
  have free: "\<not> is_linked s a" using assms links_ok_linked [of s a] by (auto simp: delete_artifact_row_def split: if_splits)
  have s': "s' = s\<lparr>artifact_rows := filter (\<lambda>r. art_id r \<noteq> a) (artifact_rows s)\<rparr>"
    using assms(2) by (auto simp: delete_artifact_row_def split: if_splits)
  have "b \<in> art_id ` set (artifact_rows s')" if link: "(i, n, b) \<in> set (link_rows s)" for i n b
  proof -
    from link free have "b \<noteq> a" by (auto simp: is_linked_iff)
    moreover from link assms(1) have "b \<in> art_id ` set (artifact_rows s)" by (auto simp: links_ok_def)
    ultimately show ?thesis by (auto simp: s')
  qed
  with assms(1) show ?thesis unfolding links_ok_def by (auto simp: s' distinct_map_filter list_all_iff)
qed

text \<open>The commands that change artifacts or their references.\<close>

fun artifact_command :: "store_command \<Rightarrow> bool" where
  "artifact_command (RecordOutcome i n now status message r err) = True"
| "artifact_command (PutArtifact sha n media name now) = True"
| "artifact_command (DeleteArtifact a) = True"
| "artifact_command c = False"

lemma same_links_plugin:
  assumes "plugin_command c"
  shows "same_links s (apply_command env c s)"
proof (cases c)
  case (UpsertPlugin r src)
  have "same_links s (publish_plugin r s\<lparr>lifecycle_rows := l\<rparr>)" for l
    using same_links_blocks(4) [of s r s] by (simp add: same_links_def)
  with UpsertPlugin show ?thesis
    by (auto simp: after_def upsert_plugin_install_with_source_def rbind_unit_Inr Let_def
        split: sum.splits option.splits if_splits)
next
  case (AcquireUses i ps)
  then show ?thesis
    by (auto simp: after_def acquire_plugin_uses_def dest!: acquire_each_same intro: same_links_pins
        split: sum.split if_splits)
next
  case (RequestRemoval p now ws)
  show ?thesis
  proof (cases "request_plugin_removal p now ws s")
    case (Inr x)
    then obtain s' where *: "snd x = s'" and b: "block_workflows p now ws (s\<lparr>lifecycle_rows := update_rows (\<lambda>l. life_plugin l = p)
        (\<lambda>l. l\<lparr>life_status := ''pending removal'', life_failure := None,
          life_requested := (case life_requested l of None \<Rightarrow> Some now | r \<Rightarrow> r)\<rparr>) (lifecycle_rows s),
        plugin_rows := update_rows (\<lambda>r. plugin_id r = p) (\<lambda>r. r\<lparr>plugin_enabled := False\<rparr>) (plugin_rows s)\<rparr>) = Inr s'"
      by (auto simp: request_plugin_removal_def rbind_Inr split: if_splits)
    from same_links_block_workflows [OF b] have "same_links s s'" by (simp add: same_links_def)
    with * RequestRemoval Inr show ?thesis by (simp add: after_def)
  qed (use RequestRemoval in \<open>simp add: after_def\<close>)
qed (use assms in \<open>auto simp: after_def mark_plugin_removal_failed_def resume_plugin_removal_def
    finalize_plugin_removal_def remove_plugin_install_def delete_plugin_def set_plugin_enabled_def Let_def
    intro!: same_links_rows split: sum.splits option.splits if_splits\<close>)

lemma same_links_command:
  assumes "\<not> artifact_command c"
  shows "same_links s (apply_command env c s)"
proof (cases "plugin_command c")
  case True
  then show ?thesis by (rule same_links_plugin)
next
  case False
  show ?thesis
  proof (cases c)
    case (Admit i now w revision pj identity req plugins)
    show ?thesis
      by (rule apply_admit_cases [of env i now w revision pj identity req plugins s])
        (use Admit in \<open>auto dest: same_links_admit\<close>)
  next
    case (Recover now)
    then show ?thesis by (simp add: recover_incomplete_executions_def same_links_recover)
  next
    case (Retain a b)
    then show ?thesis by (auto simp: apply_retention_def Let_def same_links_def)
  next
    case (Create i now w)
    then show ?thesis
      by (auto simp: after_def create_execution_def insert_execution_def Let_def same_links_def append_event_def)
  next
    case (Finish i now status err)
    then show ?thesis by (cases "execution_row_of s i") (auto simp: after_def finish_execution_def)
  next
    case (Cancel i)
    then show ?thesis by (cases "execution_row_of s i") (auto simp: request_execution_cancel_def)
  next
    case (CancelOutcome i now)
    then show ?thesis by (cases "execution_row_of s i") (auto simp: request_execution_cancel_outcome_def)
  next
    case (CancelQueued i now)
    then show ?thesis by (cases "execution_row_of s i") (auto simp: cancel_queued_execution_def)
  next
    case (Claim i now limit)
    then show ?thesis by (auto simp: claim_execution_slot_def Let_def split: option.split)
  qed (use assms False in \<open>auto simp: after_def quiet_defs set_execution_pinned_def Let_def rbind_unit_Inr rbind_Inr
      append_event_def intro!: same_links_rows split: sum.splits option.splits if_splits\<close>)
qed

lemma links_ok_artifact:
  assumes "artifact_command c" and ok: "links_ok s"
  shows "links_ok (apply_command env c s)"
proof (cases c)
  case (RecordOutcome i n now status message r err)
  show ?thesis
  proof (cases "record_node_outcome i n now status message r err s")
    case (Inr s')
    then have "links_ok s'"
    proof (rule outcome_cases)
      fix runs links s1
      assume "link_artifacts i n (case r of None \<Rightarrow> [] | Some v \<Rightarrow> artifact_ids_in_value v)
          (s\<lparr>node_run_rows := runs\<rparr>) = Inr s1"
        and s': "s' = append_event ''execution.node.outcome'' n (Some i) (outcome_payload n status message r err) now s1"
      from link_artifacts_ok [OF this(1)] ok have "links_ok s1" by (simp add: links_ok_def)
      then show ?thesis unfolding s' by (simp add: links_ok_def append_event_def)
    qed (use ok in simp)
    with RecordOutcome Inr show ?thesis by (simp add: after_def)
  qed (use ok RecordOutcome in \<open>simp add: after_def\<close>)
next
  case (PutArtifact sha n media name now)
  with ok show ?thesis by (auto simp: after_def put_artifact_row_def links_ok_def list_ex_iff)
next
  case (DeleteArtifact a)
  with ok links_ok_delete [of s a] show ?thesis by (auto simp: after_def split: sum.split)
qed (use assms in simp_all)

lemma links_ok_command: "links_ok s \<Longrightarrow> links_ok (apply_command env c s)"
  using links_ok_artifact same_links_ok [OF same_links_command] by (cases "artifact_command c") blast+

interpretation links: store_invariant env links_ok for env
  by unfold_locales (rule links_ok_command)

section \<open>Retention of artifacts\<close>

text \<open>The loop of \<open>apply_retention\<close>: \<open>remove\<close> removes a file, \<open>files\<close> are the digests of those there are.\<close>

fun delete_artifacts ::
  "store_env \<Rightarrow> (string \<Rightarrow> (string, unit) result) \<Rightarrow> nat \<Rightarrow> store_command list list \<Rightarrow> artifact_row list \<Rightarrow> nat
   \<Rightarrow> store \<times> string list \<Rightarrow> (string, unit) result \<times> store \<times> string list" where
  "delete_artifacts env remove limit others [] bytes w = (Inr (), w)"
| "delete_artifacts env remove limit others (a # as) bytes (s, files) =
     (if bytes \<le> limit then (Inr (), (s, files))
      else (case if art_sha256 a \<in> set files then remove (art_sha256 a) else Inr () of
          Inl e \<Rightarrow> (Inl (''cannot delete retained artifact: '' @ e), (s, files))
        | Inr _ \<Rightarrow>
            (let s1 = run_commands env (case others of [] \<Rightarrow> [] | cs # _ \<Rightarrow> cs) s;
                 files' = removeAll (art_sha256 a) files
             in case delete_artifact_row (art_id a) s1 of
                  Inl e \<Rightarrow> (Inl e, (s1, files'))
                | Inr s2 \<Rightarrow>
                    delete_artifacts env remove limit (drop 1 others) as (bytes - art_size a) (s2, files'))))"

definition retain_artifacts ::
  "store_env \<Rightarrow> (string \<Rightarrow> (string, unit) result) \<Rightarrow> nat \<Rightarrow> store_command list list \<Rightarrow> store \<times> string list
   \<Rightarrow> (string, unit) result \<times> store \<times> string list" where
  "retain_artifacts env remove limit others w =
     delete_artifacts env remove limit others (unreferenced_artifacts_oldest (fst w)) (artifact_bytes (fst w)) w"

lemma set_insert_older [simp]: "set (insert_older a as) = insert a (set as)"
  by (induction as) auto

lemma set_fold_older [simp]: "set (fold insert_older as bs) = set as \<union> set bs"
  by (induction as arbitrary: bs) auto

lemma mset_fold_older: "distinct (map f as) \<Longrightarrow> distinct (map f bs) \<Longrightarrow> f ` set as \<inter> f ` set bs = {}
    \<Longrightarrow> distinct (map f (fold insert_older as bs))"
proof (induction as arbitrary: bs)
  case (Cons a as)
  have "distinct (map f (insert_older a bs))" if "f a \<notin> f ` set bs" "distinct (map f bs)"
    using that by (induction bs) auto
  with Cons show ?case by simp
qed simp

lemma set_unreferenced: "set (unreferenced_artifacts_oldest s) = {a \<in> set (artifact_rows s). \<not> is_linked s (art_id a)}"
  by (auto simp: unreferenced_artifacts_oldest_def)

lemma distinct_unreferenced:
  "links_ok s \<Longrightarrow> distinct (map art_id (unreferenced_artifacts_oldest s))"
  unfolding unreferenced_artifacts_oldest_def links_ok_def by (intro mset_fold_older) (auto simp: distinct_map_filter)

lemma distinct_key_other: "distinct (map key (y # ys)) \<Longrightarrow> x \<in> set ys \<Longrightarrow> key x \<noteq> key y"
  by (metis distinct.simps(2) image_eqI list.simps(9) list.set_map)

lemma sum_list_filter_key:
  assumes "distinct (map key xs)" and "x \<in> set xs"
  shows "sum_list (map f (filter (\<lambda>y. key y \<noteq> key x) xs)) + f x = (sum_list (map f xs) :: nat)"
  using assms
proof (induction xs)
  case (Cons y ys)
  show ?case
  proof (cases "x = y")
    case True
    have "filter (\<lambda>z. key z \<noteq> key y) ys = ys" using distinct_key_other [OF Cons.prems(1)] by (intro filter_True) blast
    with True show ?thesis by simp
  qed (use Cons in auto)
qed simp

text \<open>What is left after the deletion of the first \<open>k\<close> artifacts.\<close>

definition without :: "artifact_row list \<Rightarrow> artifact_row list \<Rightarrow> artifact_row list" where
  "without gone as = filter (\<lambda>a. art_id a \<notin> art_id ` set gone) as"

lemma without_simps [simp]: "without [] as = as"
  "without (a # gone) as = without gone (filter (\<lambda>r. art_id r \<noteq> art_id a) as)"
  by (auto simp: without_def intro: filter_cong)

lemma delete_artifacts_run:
  assumes "delete_artifacts env remove limit [] as bytes (s, files) = (Inr (), (s', files'))"
    and "links_ok s" and "bytes = artifact_bytes s" and "distinct (map art_id as)"
    and "set as \<subseteq> {a \<in> set (artifact_rows s). \<not> is_linked s (art_id a)}"
  shows "\<exists>k \<le> length as. s' = s\<lparr>artifact_rows := without (take k as) (artifact_rows s)\<rparr>
    \<and> files' = filter (\<lambda>f. f \<notin> art_id ` set (take k as)) files
    \<and> artifact_bytes s' + sum_list (map art_size (take k as)) = artifact_bytes s
    \<and> (\<forall>j < k. limit + sum_list (map art_size (take j as)) < artifact_bytes s)
    \<and> (k < length as \<longrightarrow> artifact_bytes s' \<le> limit)"
  using assms
proof (induction as arbitrary: s files bytes)
  case Nil
  then show ?case by simp
next
  case (Cons a as)
  show ?case
  proof (cases "bytes \<le> limit")
    case True
    with Cons.prems show ?thesis by (intro exI [of _ 0]) simp
  next
    case False
    let ?s = "s\<lparr>artifact_rows := filter (\<lambda>r. art_id r \<noteq> art_id a) (artifact_rows s)\<rparr>"
    have a: "a \<in> set (artifact_rows s)" "\<not> is_linked s (art_id a)" "art_sha256 a = art_id a"
      using Cons.prems(2,5) by (auto simp: links_ok_def list_all_iff)
    have del: "delete_artifact_row (art_id a) s = Inr ?s" using a by (simp add: delete_artifact_row_def)
    have step: "delete_artifacts env remove limit [] as (bytes - art_size a) (?s, removeAll (art_id a) files)
        = (Inr (), (s', files'))"
      using Cons.prems(1) False a del by (simp add: run_commands_def split: sum.splits if_splits)
    have bytes: "artifact_bytes ?s + art_size a = artifact_bytes s"
      using sum_list_filter_key [of art_id "artifact_rows s" a art_size] Cons.prems(2) a(1)
      by (simp add: artifact_bytes_def links_ok_def)
    have "is_linked ?s b = is_linked s b" for b by (simp add: is_linked_def)
    moreover have "art_id b \<noteq> art_id a" if "b \<in> set as" for b by (rule distinct_key_other [OF Cons.prems(4) that])
    ultimately have free: "set as \<subseteq> {b \<in> set (artifact_rows ?s). \<not> is_linked ?s (art_id b)}"
      using Cons.prems(5) by auto
    have "bytes - art_size a = artifact_bytes ?s" "distinct (map art_id as)" using bytes Cons.prems(3,4) by simp_all
    from Cons.IH [OF step links_ok_delete [OF Cons.prems(2) del] this free] obtain k where
      k: "k \<le> length as" "s' = ?s\<lparr>artifact_rows := without (take k as) (artifact_rows ?s)\<rparr>"
        "files' = filter (\<lambda>f. f \<notin> art_id ` set (take k as)) (removeAll (art_id a) files)"
        "artifact_bytes s' + sum_list (map art_size (take k as)) = artifact_bytes ?s"
        "\<forall>j < k. limit + sum_list (map art_size (take j as)) < artifact_bytes ?s"
        "k < length as \<longrightarrow> artifact_bytes s' \<le> limit" by blast
    have "limit + sum_list (map art_size (take j (a # as))) < artifact_bytes s" if "j < Suc k" for j
      using that k(5) bytes False Cons.prems(3) by (cases j) auto
    with k bytes show ?thesis
      by (intro exI [of _ "Suc k"]) (auto simp: removeAll_filter_not_eq intro: filter_cong)
  qed
qed

section \<open>Properties\<close>


text \<open>A store with two artifacts, of which the execution \<open>e\<close> uses one.\<close>

definition artifact :: "string \<Rightarrow> nat \<Rightarrow> timestamp \<Rightarrow> artifact_row" where
  "artifact i n now =
     \<lparr>art_id = i, art_sha256 = i, art_size = n, art_media = ''text/plain'', art_name = None, art_created = now\<rparr>"

definition artifact_store :: store where
  "artifact_store = empty_store\<lparr>execution_rows := [new_execution ''e'' ''w'' ''running'' 1],
     artifact_rows := [artifact ''aa'' 10 1, artifact ''bb'' 20 2], link_rows := [(''e'', ''n'', ''aa'')]\<rparr>"

lemma artifact_store_ok: "links_ok artifact_store"
  by (simp add: links_ok_def artifact_store_def artifact_def)

lemmas artifact_eval = retain_artifacts_def artifact_store_def artifact_def artifact_bytes_def empty_store_def
  unreferenced_artifacts_oldest_def is_linked_def delete_artifact_row_def Let_def run_commands_def

lemma artifact_store_retained:
  "retain_artifacts test_env (\<lambda>_. Inr ()) 15 [] (artifact_store, [''aa'', ''bb''])
    = (Inr (), (artifact_store\<lparr>artifact_rows := [artifact ''aa'' 10 1]\<rparr>, [''aa'']))"
  by (simp add: artifact_eval)


text \<open>Retention reads which artifacts are unreferenced once, and removes a file before the row: when the
  outcome of a node comes to refer to the artifact in between, the row cannot be deleted any more and retention
  fails, but the file is gone and the execution keeps a reference to nothing.\<close>

theorem linked_while_retained_loses_file:
  "\<exists>err s'. retain_artifacts test_env (\<lambda>_. Inr ()) 15
      [[RecordOutcome ''e'' ''m'' 3 ''succeeded'' None
         (Some (JObject [(''id'', JString ''bb''), (''sha256'', JString ''bb''), (''sizeBytes'', JNumber (PosInt 20))])) None]]
      (artifact_store, [''aa'', ''bb''])
    = (Inl err, (s', [''aa'']))
    \<and> is_linked s' ''bb'' \<and> ''bb'' \<in> art_id ` set (artifact_rows s')"
  by (simp add: artifact_eval after_def record_node_outcome_def artifact_ids_in_value_def has_key_def keys_def
      require_execution_def require_def execution_row_of_def new_execution_def append_event_def)

text \<open>A result that only looks like a reference to an artifact fails the run: the reference is recorded with a
  foreign key, which \<open>INSERT OR IGNORE\<close> does not ignore.\<close>

lemma foreign_reference_fails:
  "record_node_outcome ''e'' ''n'' 3 ''succeeded'' None
      (Some (JObject [(''id'', JString ''cc''), (''sha256'', JNull), (''sizeBytes'', JNull)])) None artifact_store
    = Inl (database_error ''FOREIGN KEY constraint failed'')"
  by (simp add: record_node_outcome_def artifact_store_def empty_store_def artifact_def artifact_ids_in_value_def
      has_key_def keys_def require_execution_def require_def execution_row_of_def new_execution_def)

end
