(* ===== verification/Auth.thy ===== *)
theory Auth
  imports Execution_Store
begin

text \<open>
  API credentials and device pairing (\<open>src/store.rs\<close>): tokens are kept as hashes with their
  scopes, expiry and revocation; a device is paired by an invitation code that it claims with a
  secret of its own, that a user of the Core host approves, and that is then exchanged for a token.
  SHA-256 and the parser of RFC 3339 are parameters; times are numbers of nanoseconds.  Random
  identifiers and tokens and the time are arguments.  Each operation is one transaction.
\<close>

section \<open>Tables\<close>

datatype auth_scope = Read | Run | Manage | Admin

record auth_token =
  tok_id :: string
  tok_hash :: string
  tok_name :: string
  tok_scopes :: "auth_scope list"
  tok_created :: timestamp
  tok_expires :: "timestamp option"
  tok_revoked :: "timestamp option"

record pairing =
  pair_id :: string
  pair_code_hash :: string
  pair_scopes :: "auth_scope list"
  pair_created :: timestamp
  pair_expires :: timestamp
  pair_claim :: "string option"
  pair_device :: "string option"
  pair_claimed :: "timestamp option"
  pair_decision :: "string option"
  pair_consumed :: "timestamp option"

record auth =
  auth_tokens :: "auth_token list"
  pairings :: "pairing list"
  core_identity :: bool
  issuance_eligible :: bool

record auth_env =
  sha256 :: "string \<Rightarrow> string"
  parse_rfc3339 :: "string \<Rightarrow> timestamp option"

definition hex_digit :: "nat \<Rightarrow> char" where
  "hex_digit n = ''0123456789abcdef'' ! (n mod 16)"

definition token_hash :: "auth_env \<Rightarrow> string \<Rightarrow> string" where
  "token_hash env token =
     concat (map (\<lambda>c. [hex_digit (byte c div 16), hex_digit (byte c)]) (sha256 env token))"

section \<open>Tokens\<close>

fun push_unique :: "auth_scope list \<Rightarrow> auth_scope list \<Rightarrow> auth_scope list" where
  "push_unique unique [] = unique"
| "push_unique unique (x # xs) = push_unique (if x \<in> set unique then unique else unique @ [x]) xs"

definition unique_scopes :: "auth_scope list \<Rightarrow> (string, auth_scope list) result" where
  "unique_scopes scopes =
     (if scopes = [] then Inl ''at least one token scope is required'' else Inr (push_unique [] scopes))"

text \<open>The scopes are stored as JSON of the list; reading them back gives the list.\<close>

definition parse_scopes :: "auth_scope list \<Rightarrow> (string, auth_scope list) result" where
  "parse_scopes stored = unique_scopes stored"

definition normalize_expiration ::
  "auth_env \<Rightarrow> timestamp \<Rightarrow> string option \<Rightarrow> (string, timestamp option) result" where
  "normalize_expiration env now expires_at =
     (case expires_at of
        None \<Rightarrow> Inr None
      | Some text \<Rightarrow>
          (case parse_rfc3339 env text of
             None \<Rightarrow> Inl ''expiresAt must be an RFC 3339 timestamp''
           | Some t \<Rightarrow> (if t \<le> now then Inl ''expiresAt must be in the future'' else Inr (Some t))))"

definition is_expired :: "timestamp \<Rightarrow> timestamp option \<Rightarrow> bool" where
  "is_expired now expires_at = (case expires_at of None \<Rightarrow> False | Some t \<Rightarrow> t \<le> now)"

definition insert_token :: "auth_token \<Rightarrow> auth \<Rightarrow> (string, auth) result" where
  "insert_token t s =
     (if tok_id t \<in> tok_id ` set (auth_tokens s)
      then Inl (database_error ''UNIQUE constraint failed: auth_tokens.id'')
      else if tok_hash t \<in> tok_hash ` set (auth_tokens s)
      then Inl (database_error ''UNIQUE constraint failed: auth_tokens.token_hash'')
      else Inr (s\<lparr>auth_tokens := auth_tokens s @ [t]\<rparr>))"

definition create_auth_token ::
  "auth_env \<Rightarrow> string \<Rightarrow> string \<Rightarrow> timestamp \<Rightarrow> string \<Rightarrow> auth_scope list \<Rightarrow> string option \<Rightarrow> auth
   \<Rightarrow> (string, auth_token \<times> auth) result" where
  "create_auth_token env i token now name scopes expires_at s =
     (let name = trim name in
      if name = [] then Inl ''token name must not be empty''
      else if 120 < length name then Inl ''token name must be at most 120 characters''
      else rbind (unique_scopes scopes) (\<lambda>scopes.
        rbind (normalize_expiration env now expires_at) (\<lambda>expires.
          let t = \<lparr>tok_id = i, tok_hash = token_hash env token, tok_name = name, tok_scopes = scopes,
                   tok_created = now, tok_expires = expires, tok_revoked = None\<rparr>
          in rbind (insert_token t s) (\<lambda>s'. Inr (t, s')))))"

definition admin_token :: "auth_env \<Rightarrow> string \<Rightarrow> string \<Rightarrow> timestamp \<Rightarrow> string \<Rightarrow> auth_token" where
  "admin_token env i token now name =
     \<lparr>tok_id = i, tok_hash = token_hash env token, tok_name = name, tok_scopes = [Admin],
      tok_created = now, tok_expires = None, tok_revoked = None\<rparr>"

definition ensure_bootstrap_token ::
  "auth_env \<Rightarrow> string \<Rightarrow> string \<Rightarrow> timestamp \<Rightarrow> auth \<Rightarrow> (string, string option \<times> auth) result" where
  "ensure_bootstrap_token env i token now s =
     (if list_ex (\<lambda>t. tok_revoked t = None) (auth_tokens s) then Inr (None, s)
      else rbind (insert_token (admin_token env i token now ''Bootstrap token'') s)
        (\<lambda>s'. Inr (Some token, s')))"

definition issue_initial_admin_credential ::
  "auth_env \<Rightarrow> string \<Rightarrow> string \<Rightarrow> timestamp \<Rightarrow> auth \<Rightarrow> (string, string \<times> auth) result" where
  "issue_initial_admin_credential env i token now s =
     (if \<not> issuance_eligible s then Inl ''initial credential issuance requires a new installation''
      else if \<not> core_identity s \<or> auth_tokens s \<noteq> []
      then Inl ''installation identity or credential history prevents initial issuance''
      else rbind (insert_token (admin_token env i token now ''Initial local administrator'') s)
        (\<lambda>s'. Inr (token, s'\<lparr>issuance_eligible := False\<rparr>)))"

definition authorize_scope ::
  "auth_env \<Rightarrow> timestamp \<Rightarrow> string \<Rightarrow> auth_scope \<Rightarrow> auth \<Rightarrow> (string, bool) result" where
  "authorize_scope env now token required s =
     (case find (\<lambda>t. tok_revoked t = None \<and> tok_hash t = token_hash env token) (auth_tokens s) of
        None \<Rightarrow> Inr False
      | Some t \<Rightarrow>
          (if is_expired now (tok_expires t) then Inr False
           else rbind (parse_scopes (tok_scopes t))
             (\<lambda>scopes. Inr (Admin \<in> set scopes \<or> required \<in> set scopes))))"

definition authorize :: "auth_env \<Rightarrow> timestamp \<Rightarrow> string \<Rightarrow> auth \<Rightarrow> (string, bool) result" where
  "authorize env now token s = authorize_scope env now token Read s"

definition revoke_auth_token :: "string \<Rightarrow> timestamp \<Rightarrow> auth \<Rightarrow> bool \<times> auth" where
  "revoke_auth_token i now s =
     (let active = (\<lambda>t. tok_id t = i \<and> tok_revoked t = None) in
      (count_rows active (auth_tokens s) = 1,
       s\<lparr>auth_tokens := update_rows active (\<lambda>t. t\<lparr>tok_revoked := Some now\<rparr>) (auth_tokens s)\<rparr>))"

definition revoke_other_auth_tokens :: "string \<Rightarrow> timestamp \<Rightarrow> auth \<Rightarrow> nat \<times> auth" where
  "revoke_other_auth_tokens keep_id now s =
     (let other = (\<lambda>t. tok_revoked t = None \<and> tok_id t \<noteq> keep_id) in
      (count_rows other (auth_tokens s),
       s\<lparr>auth_tokens := update_rows other (\<lambda>t. t\<lparr>tok_revoked := Some now\<rparr>) (auth_tokens s)\<rparr>))"

section \<open>Pairing\<close>

datatype pairing_state = AwaitingClaim | AwaitingApproval | Approved | Rejected | Consumed | Expired

definition pairing_state_of :: "timestamp \<Rightarrow> pairing \<Rightarrow> pairing_state" where
  "pairing_state_of now p =
     (if pair_consumed p \<noteq> None then Consumed
      else if pair_expires p \<le> now then Expired
      else if pair_claim p = None then AwaitingClaim
      else if pair_decision p = Some ''approved'' then Approved
      else if pair_decision p = Some ''rejected'' then Rejected
      else AwaitingApproval)"

definition pairing_code_rejected :: string where
  "pairing_code_rejected = ''pairing QR code is invalid, expired, or already used''"

definition day :: nat where "day = 86400 * 10 ^ 9"

definition create_auth_pairing_code ::
  "auth_env \<Rightarrow> string \<Rightarrow> timestamp \<Rightarrow> string \<Rightarrow> auth_scope list \<Rightarrow> string \<Rightarrow> auth
   \<Rightarrow> (string, timestamp \<times> auth) result" where
  "create_auth_pairing_code env i now code scopes expires_at s =
     (if length code < 32 \<or> 256 < length code then Inl ''pairing code must be 32-256 characters''
      else rbind (unique_scopes scopes) (\<lambda>scopes.
        rbind (normalize_expiration env now (Some expires_at)) (\<lambda>expires.
          let h = token_hash env code;
              kept = filter (\<lambda>p. now < pair_expires p + day) (pairings s);
              t = the expires
          in if i \<in> pair_id ` set kept
             then Inl (database_error ''UNIQUE constraint failed: auth_pairing_codes.id'')
             else if h \<in> pair_code_hash ` set kept
             then Inl (database_error ''UNIQUE constraint failed: auth_pairing_codes.code_hash'')
             else Inr (t, s\<lparr>pairings := kept @
               [\<lparr>pair_id = i, pair_code_hash = h, pair_scopes = scopes, pair_created = now,
                 pair_expires = t, pair_claim = None, pair_device = None, pair_claimed = None,
                 pair_decision = None, pair_consumed = None\<rparr>]\<rparr>))))"

text \<open>\<open>char::is_control\<close> in UTF-8: the code points below 32, 127, and 128 to 159.\<close>

fun has_control :: "string \<Rightarrow> bool" where
  "has_control [] = False"
| "has_control [c] = (byte c < 32 \<or> byte c = 127)"
| "has_control (c # d # s) =
     (byte c < 32 \<or> byte c = 127 \<or> (byte c = 194 \<and> 128 \<le> byte d \<and> byte d < 160) \<or> has_control (d # s))"

definition code_lengths_ok :: "string \<Rightarrow> string \<Rightarrow> bool" where
  "code_lengths_ok code claim_secret =
     (32 \<le> length code \<and> length code \<le> 256 \<and> 32 \<le> length claim_secret \<and> length claim_secret \<le> 256)"

definition pairing_by_code :: "auth_env \<Rightarrow> string \<Rightarrow> auth \<Rightarrow> pairing option" where
  "pairing_by_code env code s = find (\<lambda>p. pair_code_hash p = token_hash env code) (pairings s)"

definition pairing_by_id :: "string \<Rightarrow> auth \<Rightarrow> pairing option" where
  "pairing_by_id i s = find (\<lambda>p. pair_id p = i) (pairings s)"

definition claim_auth_pairing_code ::
  "auth_env \<Rightarrow> timestamp \<Rightarrow> string \<Rightarrow> string \<Rightarrow> string \<Rightarrow> auth \<Rightarrow> (string, pairing_state \<times> auth) result" where
  "claim_auth_pairing_code env now code claim_secret device_name s =
     (let device = trim device_name in
      if \<not> code_lengths_ok code claim_secret then Inl pairing_code_rejected
      else if device = [] \<or> 120 < length device \<or> has_control device
      then Inl ''deviceName must be 1-120 characters''
      else (case pairing_by_code env code s of
          None \<Rightarrow> Inl pairing_code_rejected
        | Some p \<Rightarrow>
            (if pairing_state_of now p \<in> {Expired, Consumed} then Inl pairing_code_rejected
             else (case pair_claim p of
                 Some h \<Rightarrow>
                   (if h \<noteq> token_hash env claim_secret then Inl ''pairing invitation already has a claim''
                    else Inr (pairing_state_of now p, s))
               | None \<Rightarrow>
                   (let f = (\<lambda>p. p\<lparr>pair_claim := Some (token_hash env claim_secret),
                                   pair_device := Some device, pair_claimed := Some now\<rparr>)
                    in Inr (pairing_state_of now (f p),
                      s\<lparr>pairings := update_rows (\<lambda>q. pair_id q = pair_id p \<and> pair_claim q = None) f
                          (pairings s)\<rparr>))))))"

definition get_auth_pairing_status_for_claim ::
  "auth_env \<Rightarrow> timestamp \<Rightarrow> string \<Rightarrow> string \<Rightarrow> auth \<Rightarrow> (string, pairing_state) result" where
  "get_auth_pairing_status_for_claim env now code claim_secret s =
     (if \<not> code_lengths_ok code claim_secret then Inl pairing_code_rejected
      else (case pairing_by_code env code s of
          None \<Rightarrow> Inl pairing_code_rejected
        | Some p \<Rightarrow>
            (if pair_claim p \<noteq> Some (token_hash env claim_secret) then Inl pairing_code_rejected
             else Inr (pairing_state_of now p))))"

definition decide_auth_pairing ::
  "timestamp \<Rightarrow> string \<Rightarrow> bool \<Rightarrow> auth \<Rightarrow> (string, bool \<times> auth) result" where
  "decide_auth_pairing now i approved s =
     (case pairing_by_id i s of
        None \<Rightarrow> Inl pairing_code_rejected
      | Some p \<Rightarrow>
          (if pairing_state_of now p \<noteq> AwaitingApproval then Inr (False, s)
           else
             (let open_row = (\<lambda>q. pair_id q = i \<and> pair_decision q = None \<and> pair_consumed q = None) in
              Inr (count_rows open_row (pairings s) = 1,
                s\<lparr>pairings := update_rows open_row
                    (\<lambda>q. q\<lparr>pair_decision := Some (if approved then ''approved'' else ''rejected'')\<rparr>)
                    (pairings s)\<rparr>))))"

definition exchange_auth_pairing_code ::
  "auth_env \<Rightarrow> string \<Rightarrow> string \<Rightarrow> timestamp \<Rightarrow> string \<Rightarrow> string \<Rightarrow> auth
   \<Rightarrow> (string, auth_token \<times> auth) result" where
  "exchange_auth_pairing_code env i token now code claim_secret s =
     (if \<not> code_lengths_ok code claim_secret then Inl pairing_code_rejected
      else (case pairing_by_code env code s of
          None \<Rightarrow> Inl pairing_code_rejected
        | Some p \<Rightarrow>
            (if pair_claim p \<noteq> Some (token_hash env claim_secret) \<or> pair_consumed p \<noteq> None
               \<or> is_expired now (Some (pair_expires p))
             then Inl pairing_code_rejected
             else if pair_decision p = Some ''rejected''
             then Inl ''pairing request was rejected by the Core user''
             else if pair_decision p \<noteq> Some ''approved''
             then Inl ''pairing request is awaiting Core user approval''
             else (case pair_device p of
                 None \<Rightarrow> Inl ''approved pairing request has no device name''
               | Some device \<Rightarrow>
                   (let ready = (\<lambda>q. pair_id q = pair_id p \<and> pair_consumed q = None
                           \<and> pair_decision q = Some ''approved'') in
                    if count_rows ready (pairings s) \<noteq> 1 then Inl pairing_code_rejected
                    else rbind (parse_scopes (pair_scopes p)) (\<lambda>scopes.
                      create_auth_token env i token now device scopes None
                        (s\<lparr>pairings := update_rows ready (\<lambda>q. q\<lparr>pair_consumed := Some now\<rparr>)
                            (pairings s)\<rparr>)))))))"

section \<open>Histories\<close>

datatype auth_command =
    Bootstrap string string timestamp
  | IssueInitial string string timestamp
  | CreateToken string string timestamp string "auth_scope list" "string option"
  | RevokeToken string timestamp
  | RevokeOthers string timestamp
  | CreatePairing string timestamp string "auth_scope list" string
  | ClaimPairing timestamp string string string
  | DecidePairing timestamp string bool
  | ExchangePairing string string timestamp string string

definition committed :: "auth \<Rightarrow> (string, 'a \<times> auth) result \<Rightarrow> auth" where
  "committed s r = (case r of Inl e \<Rightarrow> s | Inr (x, s') \<Rightarrow> s')"

fun apply_auth :: "auth_env \<Rightarrow> auth_command \<Rightarrow> auth \<Rightarrow> auth" where
  "apply_auth env (Bootstrap i token now) s = committed s (ensure_bootstrap_token env i token now s)"
| "apply_auth env (IssueInitial i token now) s = committed s (issue_initial_admin_credential env i token now s)"
| "apply_auth env (CreateToken i token now name scopes expires_at) s =
     committed s (create_auth_token env i token now name scopes expires_at s)"
| "apply_auth env (RevokeToken i now) s = snd (revoke_auth_token i now s)"
| "apply_auth env (RevokeOthers keep_id now) s = snd (revoke_other_auth_tokens keep_id now s)"
| "apply_auth env (CreatePairing i now code scopes expires_at) s =
     committed s (create_auth_pairing_code env i now code scopes expires_at s)"
| "apply_auth env (ClaimPairing now code secret device) s =
     committed s (claim_auth_pairing_code env now code secret device s)"
| "apply_auth env (DecidePairing now i approved) s = committed s (decide_auth_pairing now i approved s)"
| "apply_auth env (ExchangePairing i token now code secret) s =
     committed s (exchange_auth_pairing_code env i token now code secret s)"

definition run_auth :: "auth_env \<Rightarrow> auth_command list \<Rightarrow> auth \<Rightarrow> auth" where
  "run_auth env cs s = fold (apply_auth env) cs s"

definition new_installation :: auth where
  "new_installation = \<lparr>auth_tokens = [], pairings = [], core_identity = True, issuance_eligible = True\<rparr>"

text \<open>The histories of an installation, the last command first.\<close>

inductive history :: "auth_env \<Rightarrow> auth_command list \<Rightarrow> auth \<Rightarrow> bool" for env where
  start: "history env [] new_installation"
| step: "history env cs s \<Longrightarrow> history env (c # cs) (apply_auth env c s)"

inductive_cases history_stepE: "history env (c # cs) s"

section \<open>What the operations change\<close>

lemma set_push_unique [simp]: "set (push_unique acc xs) = set acc \<union> set xs"
  by (induction acc xs rule: push_unique.induct) auto

lemma push_unique_distinct: "distinct acc \<Longrightarrow> distinct (push_unique acc xs)"
  by (induction acc xs rule: push_unique.induct) auto

lemma unique_scopes_Inr: "unique_scopes scopes = Inr u \<Longrightarrow> set u = set scopes \<and> u \<noteq> [] \<and> distinct u"
  using set_push_unique [of "[]" scopes] set_empty [of "push_unique [] scopes"]
  by (auto simp: unique_scopes_def push_unique_distinct split: if_splits simp del: set_empty set_empty2)

lemma insert_token_Inr:
  "insert_token t s = Inr s' \<longleftrightarrow> tok_id t \<notin> tok_id ` set (auth_tokens s)
     \<and> tok_hash t \<notin> tok_hash ` set (auth_tokens s) \<and> s' = s\<lparr>auth_tokens := auth_tokens s @ [t]\<rparr>"
  by (auto simp: insert_token_def)

lemma create_auth_token_Inr:
  assumes "create_auth_token env i token now name scopes expires_at s = Inr (t, s')"
  shows "tok_id t = i" "tok_hash t = token_hash env token" "set (tok_scopes t) = set scopes" "tok_scopes t \<noteq> []"
    "tok_revoked t = None" "insert_token t s = Inr s'"
proof -
  from assms obtain u where "unique_scopes scopes = Inr u" "tok_scopes t = u"
    by (auto simp: create_auth_token_def Let_def rbind_Inr split: if_splits)
  from unique_scopes_Inr [OF this(1)] this(2) show "set (tok_scopes t) = set scopes" "tok_scopes t \<noteq> []" by auto
  show "tok_id t = i" "tok_hash t = token_hash env token" "tok_revoked t = None" "insert_token t s = Inr s'"
    using assms by (auto simp: create_auth_token_def Let_def rbind_Inr split: if_splits)
qed

lemma exchange_Inr:
  assumes "exchange_auth_pairing_code env i token now code secret s = Inr (t, s')"
  obtains p ready where "pairing_by_code env code s = Some p" "pair_claim p = Some (token_hash env secret)"
    "pair_consumed p = None" "now < pair_expires p" "pair_decision p = Some ''approved''"
    "ready = (\<lambda>q. pair_id q = pair_id p \<and> pair_consumed q = None \<and> pair_decision q = Some ''approved'')"
    "pairings s' = update_rows ready (\<lambda>q. q\<lparr>pair_consumed := Some now\<rparr>) (pairings s)"
    "auth_tokens s' = auth_tokens s @ [t]" "tok_hash t = token_hash env token"
    "tok_hash t \<notin> tok_hash ` set (auth_tokens s)" "set (tok_scopes t) = set (pair_scopes p)" "tok_scopes t \<noteq> []"
    "tok_revoked t = None"
proof -
  from assms obtain p device scopes where p: "pairing_by_code env code s = Some p"
    "pair_claim p = Some (token_hash env secret)" "pair_consumed p = None" "now < pair_expires p"
    "pair_decision p = Some ''approved''" "parse_scopes (pair_scopes p) = Inr scopes"
    and created: "create_auth_token env i token now device scopes None (s\<lparr>pairings := update_rows
        (\<lambda>q. pair_id q = pair_id p \<and> pair_consumed q = None \<and> pair_decision q = Some ''approved'')
        (\<lambda>q. q\<lparr>pair_consumed := Some now\<rparr>) (pairings s)\<rparr>) = Inr (t, s')"
    by (auto simp: exchange_auth_pairing_code_def is_expired_def Let_def rbind_Inr
        split: if_splits option.splits)
  note t = create_auth_token_Inr [OF created]
  have "set scopes = set (pair_scopes p)" using unique_scopes_Inr p(6) by (simp add: parse_scopes_def)
  with that [OF p(1-5) refl] t show thesis by (auto simp: insert_token_Inr)
qed

text \<open>Tokens are only added, and only their revocation changes; the rows of a table have distinct keys.\<close>

definition auth_ok :: "auth \<Rightarrow> bool" where
  "auth_ok s \<longleftrightarrow> distinct (map tok_hash (auth_tokens s)) \<and> distinct (map pair_id (pairings s))
     \<and> distinct (map pair_code_hash (pairings s)) \<and> (\<forall>t \<in> set (auth_tokens s). tok_scopes t \<noteq> [])"

lemma map_update_key: "(\<And>x. key (f x) = key x) \<Longrightarrow> map key (update_rows p f xs) = map key xs"
  by (auto simp: update_rows_def)

lemma set_update: "set (update_rows p f xs) = (\<lambda>x. if p x then f x else x) ` set xs"
  by (simp add: update_rows_def)

lemma key_unique:
  "distinct (map key xs) \<Longrightarrow> x \<in> set xs \<Longrightarrow> y \<in> set xs \<Longrightarrow> key x = key y \<Longrightarrow> x = y"
  by (metis distinct_map inj_onD)

lemma find_mem: "find P xs = Some x \<Longrightarrow> x \<in> set xs \<and> P x"
  by (auto simp: find_Some_iff)

lemma claim_Inr:
  assumes "claim_auth_pairing_code env now code secret device s = Inr (st, s')"
  shows "s' = s \<or> (\<exists>r \<in> set (pairings s). pair_code_hash r = token_hash env code
    \<and> s' = s\<lparr>pairings := update_rows (\<lambda>q. pair_id q = pair_id r \<and> pair_claim q = None)
      (\<lambda>p. p\<lparr>pair_claim := Some (token_hash env secret), pair_device := Some (trim device),
             pair_claimed := Some now\<rparr>) (pairings s)\<rparr>)"
  using assms
  by (auto simp: claim_auth_pairing_code_def Let_def pairing_by_code_def dest!: find_mem
      split: option.splits if_splits)

lemma auth_ok_update:
  assumes "auth_ok s" and "auth_tokens s' = auth_tokens s"
    and "pairings s' = update_rows q f (pairings s)"
    and "\<And>p. pair_id (f p) = pair_id p" and "\<And>p. pair_code_hash (f p) = pair_code_hash p"
  shows "auth_ok s'"
  using assms by (simp add: auth_ok_def map_update_key)

lemma auth_ok_eligible [simp]: "auth_ok (s\<lparr>issuance_eligible := b\<rparr>) = auth_ok s"
  by (simp add: auth_ok_def)

lemma auth_ok_insert:
  assumes "auth_ok s" and "insert_token t s = Inr s'" and "tok_scopes t \<noteq> []"
  shows "auth_ok s'"
  using assms by (auto simp: auth_ok_def insert_token_Inr)

lemma auth_ok_step: "auth_ok s \<Longrightarrow> auth_ok (apply_auth env c s)"
proof -
  assume ok: "auth_ok s"
  show ?thesis
  proof (cases c)
    case (Bootstrap i token now)
    with ok show ?thesis
      by (auto simp: committed_def ensure_bootstrap_token_def rbind_Inr admin_token_def
          intro: auth_ok_insert split: sum.split)
  next
    case (IssueInitial i token now)
    with ok show ?thesis
      by (auto simp: committed_def issue_initial_admin_credential_def rbind_Inr admin_token_def
          dest: auth_ok_insert [OF ok] split: sum.split)
  next
    case (CreateToken i token now name scopes expires_at)
    with ok show ?thesis
      by (auto simp: committed_def dest: create_auth_token_Inr(4,6) intro: auth_ok_insert split: sum.split)
  next
    case (RevokeToken i now)
    with ok show ?thesis
      by (auto simp: revoke_auth_token_def Let_def auth_ok_def map_update_key set_update)
  next
    case (RevokeOthers keep_id now)
    with ok show ?thesis
      by (auto simp: revoke_other_auth_tokens_def Let_def auth_ok_def map_update_key set_update)
  next
    case (CreatePairing i now code scopes expires_at)
    with ok show ?thesis
      by (auto simp: committed_def create_auth_pairing_code_def rbind_Inr Let_def auth_ok_def distinct_map_filter
          split: sum.split if_splits)
  next
    case (ClaimPairing now code secret device)
    with ok show ?thesis
      by (auto simp: committed_def claim_auth_pairing_code_def Let_def intro: auth_ok_update
          split: sum.splits option.splits if_splits)
  next
    case (DecidePairing now i approved)
    with ok show ?thesis
      by (auto simp: committed_def decide_auth_pairing_def Let_def intro: auth_ok_update
          split: sum.splits option.splits if_splits)
  next
    case (ExchangePairing i token now code secret)
    show ?thesis
    proof (cases "exchange_auth_pairing_code env i token now code secret s")
      case (Inr x)
      then obtain t s' where x: "exchange_auth_pairing_code env i token now code secret s = Inr (t, s')"
        by (cases x) auto
      from x obtain p ready where "pairings s' = update_rows ready (\<lambda>q. q\<lparr>pair_consumed := Some now\<rparr>) (pairings s)"
        "auth_tokens s' = auth_tokens s @ [t]" "tok_hash t \<notin> tok_hash ` set (auth_tokens s)" "tok_scopes t \<noteq> []"
        by (rule exchange_Inr)
      with ok x ExchangePairing show ?thesis by (auto simp: committed_def auth_ok_def map_update_key)
    qed (use ok ExchangePairing in \<open>simp add: committed_def\<close>)
  qed
qed

lemma history_ok: "history env cs s \<Longrightarrow> auth_ok s"
  by (induction rule: history.induct) (simp_all add: auth_ok_step, simp add: auth_ok_def new_installation_def)

section \<open>Where tokens come from\<close>

text \<open>The commands of a history an invitation stems from: its creation, the claim it carries, and an
  approval that came after the claim and before the invitation expired.\<close>

definition invited :: "auth_env \<Rightarrow> auth_command list \<Rightarrow> pairing \<Rightarrow> bool" where
  "invited env cs p \<longleftrightarrow> (\<exists>now code scopes expires_at. CreatePairing (pair_id p) now code scopes expires_at \<in> set cs
     \<and> token_hash env code = pair_code_hash p \<and> set scopes = set (pair_scopes p))"

definition claimed_with :: "auth_env \<Rightarrow> auth_command list \<Rightarrow> pairing \<Rightarrow> string \<Rightarrow> bool" where
  "claimed_with env cs p h \<longleftrightarrow> (\<exists>now code secret device. ClaimPairing now code secret device \<in> set cs
     \<and> token_hash env code = pair_code_hash p \<and> token_hash env secret = h)"

definition approved_after_claim :: "auth_env \<Rightarrow> auth_command list \<Rightarrow> pairing \<Rightarrow> bool" where
  "approved_after_claim env cs p \<longleftrightarrow> (\<exists>h later now earlier. pair_claim p = Some h
     \<and> cs = later @ DecidePairing now (pair_id p) True # earlier \<and> now < pair_expires p
     \<and> claimed_with env earlier p h)"

definition traced :: "auth_env \<Rightarrow> auth_command list \<Rightarrow> pairing \<Rightarrow> bool" where
  "traced env cs p \<longleftrightarrow> invited env cs p
     \<and> (\<forall>h. pair_claim p = Some h \<longrightarrow> claimed_with env cs p h)
     \<and> (pair_decision p = Some ''approved'' \<longrightarrow> approved_after_claim env cs p)
     \<and> (pair_decision p \<noteq> None \<longrightarrow> pair_claim p \<noteq> None)"

lemma invited_Cons: "invited env cs p \<Longrightarrow> invited env (c # cs) p"
  unfolding invited_def by (meson list.set_intros(2))

lemma claimed_with_Cons: "claimed_with env cs p h \<Longrightarrow> claimed_with env (c # cs) p h"
  unfolding claimed_with_def by (metis list.set_intros(2))

lemma approved_Cons: "approved_after_claim env cs p \<Longrightarrow> approved_after_claim env (c # cs) p"
  unfolding approved_after_claim_def by (metis append_Cons)

lemma traced_cong:
  "pair_id q = pair_id p \<Longrightarrow> pair_code_hash q = pair_code_hash p \<Longrightarrow> pair_scopes q = pair_scopes p
    \<Longrightarrow> invited env cs q = invited env cs p"
  "pair_code_hash q = pair_code_hash p \<Longrightarrow> claimed_with env cs q h = claimed_with env cs p h"
  by (simp_all add: invited_def claimed_with_def)

lemma traced_Cons: "traced env cs p \<Longrightarrow> traced env (c # cs) p"
  by (simp add: traced_def invited_Cons claimed_with_Cons approved_Cons)

lemma traced_consumed [simp]: "traced env cs (p\<lparr>pair_consumed := x\<rparr>) = traced env cs p"
  by (simp add: traced_def invited_def claimed_with_def approved_after_claim_def)

lemma traced_claim:
  assumes "traced env cs p" and "pair_claim p = None" and "token_hash env code = pair_code_hash p"
  shows "traced env (ClaimPairing now code secret device # cs)
    (p\<lparr>pair_claim := Some (token_hash env secret), pair_device := d, pair_claimed := x\<rparr>)"
    (is "traced env ?cs ?p")
proof -
  have "invited env ?cs ?p"
    using assms(1) invited_Cons traced_cong(1) [of ?p p] by (simp add: traced_def)
  moreover have "claimed_with env ?cs ?p (token_hash env secret)"
    using assms(3) by (auto simp: claimed_with_def)
  ultimately show ?thesis using assms(1,2) by (auto simp: traced_def)
qed

lemma traced_decide:
  assumes "traced env cs p" and "pair_claim p = Some h" and "now < pair_expires p"
  shows "traced env (DecidePairing now (pair_id p) approved # cs)
    (p\<lparr>pair_decision := Some (if approved then ''approved'' else ''rejected'')\<rparr>)"
    (is "traced env ?cs ?p")
proof -
  have claim: "claimed_with env cs ?p h"
    using assms(1,2) traced_cong(2) [of ?p p] by (simp add: traced_def)
  have "approved_after_claim env ?cs ?p" if "approved"
    unfolding approved_after_claim_def using claim assms(2,3) that
    by (intro exI [of _ h] exI [of _ "[]"] exI [of _ now] exI [of _ cs]) simp
  moreover have "invited env ?cs ?p"
    using assms(1) invited_Cons traced_cong(1) [of ?p p] by (simp add: traced_def)
  ultimately show ?thesis
    using assms(2) claimed_with_Cons [OF claim] by (auto simp: traced_def)
qed

lemma traced_step:
  assumes ok: "auth_ok s" and traced: "\<And>p. p \<in> set (pairings s) \<Longrightarrow> traced env cs p"
    and p: "p \<in> set (pairings (apply_auth env c s))"
  shows "traced env (c # cs) p"
proof -
  have same: ?thesis if "p \<in> set (pairings s)" using traced [OF that] by (rule traced_Cons)
  show ?thesis
  proof (cases c)
    case (CreatePairing i now code scopes expires_at)
    show ?thesis
    proof (cases "create_auth_pairing_code env i now code scopes expires_at s")
      case (Inr x)
      then obtain u where u: "unique_scopes scopes = Inr u"
        and new: "p \<in> set (pairings s) \<or> p = p\<lparr>pair_id := i, pair_code_hash := token_hash env code,
          pair_scopes := u, pair_claim := None, pair_decision := None\<rparr>"
        using p CreatePairing
        by (auto simp: committed_def create_auth_pairing_code_def rbind_Inr Let_def split: if_splits)
      from new show ?thesis
      proof
        assume *: "p = p\<lparr>pair_id := i, pair_code_hash := token_hash env code,
          pair_scopes := u, pair_claim := None, pair_decision := None\<rparr>"
        have "pair_id p = i" "pair_code_hash p = token_hash env code" "pair_scopes p = u" "pair_claim p = None"
          "pair_decision p = None" by (subst *, simp)+
        moreover from this have "invited env (c # cs) p"
          using unique_scopes_Inr [OF u] CreatePairing by (auto simp: invited_def)
        ultimately show ?thesis by (simp add: traced_def)
      qed (rule same)
    qed (use same p CreatePairing in \<open>simp add: committed_def\<close>)
  next
    case (ClaimPairing now code secret device)
    then have "p \<in> set (pairings s) \<or> (\<exists>q \<in> set (pairings s). \<exists>r. r \<in> set (pairings s) \<and> pair_id q = pair_id r
        \<and> pair_code_hash r = token_hash env code \<and> pair_claim q = None
        \<and> p = q\<lparr>pair_claim := Some (token_hash env secret), pair_device := Some (trim device),
          pair_claimed := Some now\<rparr>)"
      using p by (auto simp: committed_def set_update dest!: claim_Inr split: sum.splits if_splits)
        (metis option.distinct(1))
    then show ?thesis
    proof (elim disjE bexE exE conjE)
      fix q r assume q: "q \<in> set (pairings s)" "pair_claim q = None" and r: "r \<in> set (pairings s)"
        "pair_id q = pair_id r" "pair_code_hash r = token_hash env code"
        and p: "p = q\<lparr>pair_claim := Some (token_hash env secret), pair_device := Some (trim device),
          pair_claimed := Some now\<rparr>"
      have "q = r" using ok q(1) r(1,2) by (auto simp: auth_ok_def intro: key_unique)
      with traced_claim [OF traced [OF q(1)] q(2)] r(3) show ?thesis by (simp add: p ClaimPairing)
    qed (rule same)
  next
    case (DecidePairing now i approved)
    then have "p \<in> set (pairings s) \<or> (\<exists>q r. q \<in> set (pairings s) \<and> r \<in> set (pairings s) \<and> pair_id q = i
        \<and> pair_id r = i \<and> pairing_state_of now r = AwaitingApproval
        \<and> p = q\<lparr>pair_decision := Some (if approved then ''approved'' else ''rejected'')\<rparr>)"
      using p by (auto simp: committed_def decide_auth_pairing_def Let_def pairing_by_id_def set_update
          dest!: find_mem split: sum.splits option.splits if_splits) blast+
    then show ?thesis
    proof (elim disjE exE conjE)
      fix q r assume q: "q \<in> set (pairings s)" "pair_id q = i" and r: "r \<in> set (pairings s)" "pair_id r = i"
        "pairing_state_of now r = AwaitingApproval"
        and p: "p = q\<lparr>pair_decision := Some (if approved then ''approved'' else ''rejected'')\<rparr>"
      have "q = r" using ok q r(1,2) by (auto simp: auth_ok_def intro: key_unique)
      with r(3) obtain h where "pair_claim q = Some h" "now < pair_expires q"
        by (auto simp: pairing_state_of_def split: if_splits)
      from traced_decide [OF traced [OF q(1)] this, of approved] show ?thesis by (simp add: p DecidePairing q(2))
    qed (rule same)
  next
    case (ExchangePairing i token now code secret)
    show ?thesis
    proof (cases "exchange_auth_pairing_code env i token now code secret s")
      case (Inr x)
      then obtain t s' where x: "exchange_auth_pairing_code env i token now code secret s = Inr (t, s')"
        by (cases x) auto
      from x obtain ready where "pairings s' = update_rows ready (\<lambda>q. q\<lparr>pair_consumed := Some now\<rparr>) (pairings s)"
        by (rule exchange_Inr)
      with p x ExchangePairing obtain q where "q \<in> set (pairings s)" "p = q \<or> p = q\<lparr>pair_consumed := Some now\<rparr>"
        by (auto simp: committed_def set_update split: if_splits)
      with traced_Cons [OF traced] show ?thesis by auto
    qed (use same p ExchangePairing in \<open>simp add: committed_def\<close>)
  qed (use same p in \<open>auto simp: committed_def ensure_bootstrap_token_def issue_initial_admin_credential_def
      create_auth_token_def revoke_auth_token_def revoke_other_auth_tokens_def rbind_Inr Let_def insert_token_Inr
      split: sum.splits if_splits\<close>)
qed

lemma history_traced: "history env cs s \<Longrightarrow> p \<in> set (pairings s) \<Longrightarrow> traced env cs p"
  by (induction arbitrary: p rule: history.induct)
    (auto simp: new_installation_def intro: traced_step [OF history_ok])

text \<open>C7: A device gets a token only through an approved invitation: when an exchange succeeds after
  some history, that history holds the creation of an invitation for the code, a claim of it with the same
  secret, and after the claim and before the invitation expired the approval by the user of the Core host; the
  token carries exactly the scopes of the invitation (codes and secrets up to collisions of the hash).\<close>

theorem exchange_needs_approval:
  assumes "history env cs s"
    and "exchange_auth_pairing_code env i token now code secret s = Inr (t, s')"
  shows "\<exists>later at_time invitation earlier claim_time code' secret' device.
    cs = later @ DecidePairing at_time invitation True # earlier
    \<and> ClaimPairing claim_time code' secret' device \<in> set earlier
    \<and> token_hash env code' = token_hash env code \<and> token_hash env secret' = token_hash env secret
    \<and> (\<exists>creation code'' scopes expires_at. CreatePairing invitation creation code'' scopes expires_at \<in> set cs
         \<and> token_hash env code'' = token_hash env code \<and> set (tok_scopes t) = set scopes)"
proof -
  from assms(2) obtain p where p: "pairing_by_code env code s = Some p"
    "pair_claim p = Some (token_hash env secret)" "pair_decision p = Some ''approved''"
    "set (tok_scopes t) = set (pair_scopes p)" by (rule exchange_Inr)
  from p(1) have row: "p \<in> set (pairings s)" "pair_code_hash p = token_hash env code"
    by (auto simp: pairing_by_code_def find_Some_iff)
  from history_traced [OF assms(1) row(1)] have traced: "invited env cs p" "approved_after_claim env cs p"
    using p(3) by (simp_all add: traced_def)
  from traced(2) p(2) obtain later at_time earlier where
    cs: "cs = later @ DecidePairing at_time (pair_id p) True # earlier"
    and claim: "claimed_with env earlier p (token_hash env secret)"
    by (auto simp: approved_after_claim_def)
  from claim obtain claim_time code' secret' device where
    "ClaimPairing claim_time code' secret' device \<in> set earlier"
    "token_hash env code' = token_hash env code" "token_hash env secret' = token_hash env secret"
    unfolding claimed_with_def row(2) by blast
  with cs traced(1) [unfolded invited_def row(2)] p(4) show ?thesis by blast
qed

section \<open>Used and revoked credentials\<close>

definition used_up :: "string \<Rightarrow> auth \<Rightarrow> bool" where
  "used_up h s \<longleftrightarrow> (\<forall>p \<in> set (pairings s). pair_code_hash p = h \<longrightarrow> pair_consumed p \<noteq> None)"

fun invites :: "auth_env \<Rightarrow> string \<Rightarrow> auth_command \<Rightarrow> bool" where
  "invites env h (CreatePairing i now code scopes expires_at) = (token_hash env code = h)"
| "invites env h c = False"

lemma used_up_update:
  assumes "used_up h s" and "\<And>p. pair_code_hash (f p) = pair_code_hash p"
    and "\<And>p. pair_consumed p \<noteq> None \<Longrightarrow> pair_consumed (f p) \<noteq> None"
  shows "used_up h (s\<lparr>pairings := update_rows q f (pairings s)\<rparr>)"
  using assms by (auto simp: used_up_def set_update)

lemma used_up_step:
  assumes "used_up h s" and "\<not> invites env h c"
  shows "used_up h (apply_auth env c s)"
proof (cases c)
  case (ExchangePairing i token now code secret)
  show ?thesis
  proof (cases "exchange_auth_pairing_code env i token now code secret s")
    case (Inr x)
    then obtain t s' where x: "exchange_auth_pairing_code env i token now code secret s = Inr (t, s')"
      by (cases x) auto
    then obtain ready where "pairings s' = update_rows ready (\<lambda>q. q\<lparr>pair_consumed := Some now\<rparr>) (pairings s)"
      by (rule exchange_Inr)
    with assms(1) x ExchangePairing show ?thesis by (auto simp: committed_def used_up_def set_update)
  qed (use assms(1) ExchangePairing in \<open>simp add: committed_def\<close>)
next
  case (CreatePairing i now code scopes expires_at)
  with assms show ?thesis
    by (auto simp: committed_def create_auth_pairing_code_def rbind_Inr Let_def used_up_def
        split: sum.split if_splits)
next
  case (ClaimPairing now code secret device)
  with assms(1) show ?thesis
    by (auto simp: committed_def claim_auth_pairing_code_def Let_def intro!: used_up_update
        split: sum.splits option.splits if_splits)
next
  case (DecidePairing now i approved)
  with assms(1) show ?thesis
    by (auto simp: committed_def decide_auth_pairing_def Let_def intro!: used_up_update
        split: sum.splits option.splits if_splits)
qed (use assms(1) in \<open>auto simp: committed_def ensure_bootstrap_token_def issue_initial_admin_credential_def
    create_auth_token_def revoke_auth_token_def revoke_other_auth_tokens_def rbind_Inr Let_def insert_token_Inr
    used_up_def split: sum.splits if_splits\<close>)

lemma used_up_run:
  "used_up h s \<Longrightarrow> list_all (\<lambda>c. \<not> invites env h c) cs \<Longrightarrow> used_up h (run_auth env cs s)"
  unfolding run_auth_def by (induction cs arbitrary: s) (simp_all add: used_up_step)

lemma exchange_used_up:
  assumes "history env cs s" and "exchange_auth_pairing_code env i token now code secret s = Inr (t, s')"
  shows "used_up (token_hash env code) s'"
proof -
  from assms(2) obtain p ready where p: "pairing_by_code env code s = Some p" "pair_consumed p = None"
    "pair_decision p = Some ''approved''"
    "ready = (\<lambda>q. pair_id q = pair_id p \<and> pair_consumed q = None \<and> pair_decision q = Some ''approved'')"
    "pairings s' = update_rows ready (\<lambda>q. q\<lparr>pair_consumed := Some now\<rparr>) (pairings s)" by (rule exchange_Inr)
  from p(1) have row: "p \<in> set (pairings s)" "pair_code_hash p = token_hash env code"
    by (auto simp: pairing_by_code_def find_Some_iff)
  have "q = p" if "q \<in> set (pairings s)" "pair_code_hash q = token_hash env code" for q
    using history_ok [OF assms(1)] key_unique [of pair_code_hash "pairings s"] row that by (simp add: auth_ok_def)
  then show ?thesis using p(2,3) by (auto simp: used_up_def p(4,5) set_update)
qed

text \<open>An invitation gives one token at most: after an exchange has succeeded, every later exchange of
  the code is refused, with any secret, at any time and after any commands, unless a new invitation is
  created for the code.\<close>

theorem exchange_succeeds_once:
  assumes "history env cs s"
    and "exchange_auth_pairing_code env i token now code secret s = Inr (t, s')"
    and "list_all (\<lambda>c. \<not> invites env (token_hash env code) c) later"
  shows "exchange_auth_pairing_code env i' token' now' code secret' (run_auth env later s')
    = Inl pairing_code_rejected"
proof -
  have used: "used_up (token_hash env code) (run_auth env later s')"
    using used_up_run [OF exchange_used_up [OF assms(1,2)] assms(3)] .
  show ?thesis
  proof (cases "pairing_by_code env code (run_auth env later s')")
    case (Some p)
    with used have "pair_consumed p \<noteq> None" by (auto simp: used_up_def pairing_by_code_def find_Some_iff)
    with Some show ?thesis by (auto simp: exchange_auth_pairing_code_def)
  qed (simp add: exchange_auth_pairing_code_def)
qed

text \<open>A revoked token: every row with its hash is revoked, and there is one.\<close>

definition revoked :: "string \<Rightarrow> auth \<Rightarrow> bool" where
  "revoked h s \<longleftrightarrow> (\<exists>t \<in> set (auth_tokens s). tok_hash t = h)
     \<and> (\<forall>t \<in> set (auth_tokens s). tok_hash t = h \<longrightarrow> tok_revoked t \<noteq> None)"

lemma revoked_same: "auth_tokens s' = auth_tokens s \<Longrightarrow> revoked h s' = revoked h s"
  by (simp add: revoked_def)

lemma revoked_insert: "revoked h s \<Longrightarrow> insert_token t s = Inr s' \<Longrightarrow> revoked h s'"
  by (auto simp: revoked_def insert_token_Inr)

lemma revoked_append:
  "revoked h s \<Longrightarrow> tok_hash t \<notin> tok_hash ` set (auth_tokens s) \<Longrightarrow> auth_tokens s' = auth_tokens s @ [t]
    \<Longrightarrow> revoked h s'"
  by (auto simp: revoked_def)

lemma revoked_step:
  assumes "revoked h s"
  shows "revoked h (apply_auth env c s)"
proof (cases c)
  case (ExchangePairing i token now code secret)
  show ?thesis
  proof (cases "exchange_auth_pairing_code env i token now code secret s")
    case (Inr x)
    then obtain t s' where x: "exchange_auth_pairing_code env i token now code secret s = Inr (t, s')"
      by (cases x) auto
    then have "auth_tokens s' = auth_tokens s @ [t]" "tok_hash t \<notin> tok_hash ` set (auth_tokens s)"
      by (rule exchange_Inr, simp)+
    with revoked_append [OF assms] x ExchangePairing show ?thesis by (simp add: committed_def)
  qed (use assms ExchangePairing in \<open>simp add: committed_def\<close>)
next
  case (RevokeToken i now)
  with assms show ?thesis by (fastforce simp: revoke_auth_token_def Let_def revoked_def set_update)
next
  case (RevokeOthers keep_id now)
  with assms show ?thesis by (fastforce simp: revoke_other_auth_tokens_def Let_def revoked_def set_update)
next
  case (CreateToken i token now name scopes expires_at)
  with assms show ?thesis
    by (auto simp: committed_def dest: create_auth_token_Inr(6) revoked_insert split: sum.split)
next
  case (Bootstrap i token now)
  with assms show ?thesis
    by (auto simp: committed_def ensure_bootstrap_token_def rbind_Inr dest: revoked_insert split: sum.split)
next
  case (IssueInitial i token now)
  with assms show ?thesis
    by (auto simp: committed_def issue_initial_admin_credential_def revoked_def rbind_Inr split: sum.split)
qed (use assms in \<open>auto simp: committed_def create_auth_pairing_code_def claim_auth_pairing_code_def
    decide_auth_pairing_def rbind_Inr Let_def revoked_def split: sum.splits option.splits if_splits\<close>)

text \<open>C18: Revocation is final: once a token has been revoked, no sequence of commands makes the Core accept
  it again, for any scope at any time.\<close>

theorem revoked_token_is_never_accepted:
  assumes "t \<in> set (auth_tokens s)" and "tok_hash t = token_hash env token"
    and "tok_revoked t \<noteq> None" and "auth_ok s"
  shows "authorize_scope env now token required (run_auth env cs s) = Inr False"
proof -
  have "u = t" if "u \<in> set (auth_tokens s)" "tok_hash u = token_hash env token" for u
    using assms key_unique [of tok_hash "auth_tokens s"] that by (simp add: auth_ok_def)
  with assms(1,2,3) have "revoked (token_hash env token) s" unfolding revoked_def by blast
  then have "revoked (token_hash env token) (run_auth env cs s)"
    unfolding run_auth_def by (induction cs arbitrary: s) (simp_all add: revoked_step)
  then have "find (\<lambda>t. tok_revoked t = None \<and> tok_hash t = token_hash env token)
      (auth_tokens (run_auth env cs s)) = None" by (auto simp: revoked_def find_None_iff)
  then show ?thesis by (simp add: authorize_scope_def)
qed

section \<open>A pairing\<close>

definition sample_auth_env :: auth_env where
  "sample_auth_env = \<lparr>sha256 = (\<lambda>x. x), parse_rfc3339 = (\<lambda>_. Some 1000)\<rparr>"

definition sample_code :: string where "sample_code = replicate 32 (CHR ''c'')"
definition sample_secret :: string where "sample_secret = replicate 32 (CHR ''s'')"

definition pairing_history :: "auth_command list" where
  "pairing_history =
     [DecidePairing 3 ''i'' True, ClaimPairing 2 sample_code sample_secret ''phone'',
      CreatePairing ''i'' 1 sample_code [Run, Read] ''t'']"

definition paired :: auth where
  "paired = new_installation\<lparr>pairings :=
     [\<lparr>pair_id = ''i'', pair_code_hash = token_hash sample_auth_env sample_code, pair_scopes = [Run, Read],
       pair_created = 1, pair_expires = 1000,
       pair_claim = Some (token_hash sample_auth_env sample_secret), pair_device = Some ''phone'',
       pair_claimed = Some 2, pair_decision = Some ''approved'', pair_consumed = None\<rparr>]\<rparr>"

lemma trim_phone: "trim ''phone'' = ''phone''"
  by code_simp

lemma has_control_phone: "\<not> has_control ''phone''"
  by code_simp

lemma sample_lengths: "code_lengths_ok sample_code sample_secret" "length sample_code = 32"
  by (simp_all add: code_lengths_ok_def sample_code_def sample_secret_def)

lemma unique_run_read: "unique_scopes [Run, Read] = Inr [Run, Read]"
  by (simp add: unique_scopes_def)

lemma expiration_1000: "now < 1000 \<Longrightarrow> normalize_expiration sample_auth_env now (Some t) = Inr (Some 1000)"
  by (simp add: normalize_expiration_def sample_auth_env_def)

lemma pairing_steps:
  "apply_auth sample_auth_env (DecidePairing 3 ''i'' True)
    (apply_auth sample_auth_env (ClaimPairing 2 sample_code sample_secret ''phone'')
      (apply_auth sample_auth_env (CreatePairing ''i'' 1 sample_code [Run, Read] ''t'') new_installation)) = paired"
  by (simp add: paired_def new_installation_def committed_def create_auth_pairing_code_def sample_lengths
      unique_run_read expiration_1000 claim_auth_pairing_code_def trim_phone has_control_phone
      pairing_by_code_def pairing_state_of_def update_rows_def decide_auth_pairing_def pairing_by_id_def
      count_rows_def)

lemma pairing_history_reaches: "history sample_auth_env pairing_history paired"
  unfolding pairing_history_def pairing_steps [symmetric] by (intro history.intros)

definition phone_token :: auth_token where
  "phone_token = \<lparr>tok_id = ''t'', tok_hash = token_hash sample_auth_env ''kakune_1'', tok_name = ''phone'',
     tok_scopes = [Run, Read], tok_created = 4, tok_expires = None, tok_revoked = None\<rparr>"

definition exchanged :: auth where
  "exchanged = paired\<lparr>auth_tokens := [phone_token],
     pairings := map (\<lambda>p. p\<lparr>pair_consumed := Some 4\<rparr>) (pairings paired)\<rparr>"

lemma sample_exchange:
  "exchange_auth_pairing_code sample_auth_env ''t'' ''kakune_1'' 4 sample_code sample_secret paired
    = Inr (phone_token, exchanged)"
  by (simp add: exchange_auth_pairing_code_def paired_def exchanged_def sample_lengths pairing_by_code_def
      is_expired_def count_rows_def parse_scopes_def unique_run_read create_auth_token_def trim_phone
      normalize_expiration_def insert_token_def new_installation_def update_rows_def phone_token_def Let_def)

theorem exchange_needs_approval_witness:
  "\<exists>later at_time invitation earlier.
    pairing_history = later @ DecidePairing at_time invitation True # earlier"
  using exchange_needs_approval [OF pairing_history_reaches sample_exchange] by blast

theorem exchange_succeeds_once_witness:
  "exchange_auth_pairing_code sample_auth_env ''u'' ''kakune_2'' 5 sample_code sample_secret
     (run_auth sample_auth_env [DecidePairing 5 ''i'' True] exchanged) = Inl pairing_code_rejected"
  by (rule exchange_succeeds_once [OF pairing_history_reaches sample_exchange]) simp

theorem revoked_token_is_never_accepted_witness:
  "authorize_scope sample_auth_env 4 ''kakune_1'' Run exchanged = Inr True
   \<and> authorize_scope sample_auth_env 9 ''kakune_1'' Run
      (run_auth sample_auth_env [Bootstrap ''b'' ''kakune_1'' 7]
        (run_auth sample_auth_env [RevokeToken ''t'' 6] exchanged)) = Inr False"
proof
  show "authorize_scope sample_auth_env 4 ''kakune_1'' Run exchanged = Inr True"
    by (simp add: authorize_scope_def exchanged_def phone_token_def is_expired_def parse_scopes_def unique_run_read)
  let ?s = "run_auth sample_auth_env [RevokeToken ''t'' 6] exchanged"
  have tokens: "auth_tokens ?s = [phone_token\<lparr>tok_revoked := Some 6\<rparr>]"
    by (simp add: run_auth_def revoke_auth_token_def Let_def exchanged_def update_rows_def phone_token_def)
  have "history sample_auth_env (RevokeToken ''t'' 6 # ExchangePairing ''t'' ''kakune_1'' 4 sample_code sample_secret
      # pairing_history) ?s"
    using history.step [OF history.step [OF pairing_history_reaches], of "RevokeToken ''t'' 6"
        "ExchangePairing ''t'' ''kakune_1'' 4 sample_code sample_secret"]
    by (simp add: run_auth_def sample_exchange committed_def)
  then have "auth_ok ?s" by (rule history_ok)
  then show "authorize_scope sample_auth_env 9 ''kakune_1'' Run
      (run_auth sample_auth_env [Bootstrap ''b'' ''kakune_1'' 7] ?s) = Inr False"
    by (intro revoked_token_is_never_accepted) (auto simp: tokens phone_token_def)
qed

end
