(* ===== verification/Scheduler.thy ===== *)
theory Scheduler
  imports Expr Execution_Store "HOL-Library.AList"
begin

text \<open>
  The trigger scheduler (\<open>src/scheduler.rs\<close>) and its table in the store: when calendar
  triggers are due and how often they fire, how file-system events are filtered, delayed and merged, and
  the scan over the enabled workflows.  Times are numbers of nanoseconds.  Time zones, cron expressions
  and date parsing are those of the crates the code calls, gathered in the record \<open>calendar\<close>.
  Reports to the diagnostic log are left out; a run that is started is an element of the result.
\<close>

section \<open>Calendar triggers\<close>

datatype local_result = Single int | Ambiguous int int | Nonexistent

record calendar =
  in_range :: "int \<Rightarrow> bool"
  range_error :: string
  parse_absolute :: "string \<Rightarrow> int option"
  timezone_known :: "string \<Rightarrow> bool"
  parse_naive :: "string \<Rightarrow> string \<Rightarrow> int option"
  from_local :: "string \<Rightarrow> int \<Rightarrow> local_result"
  cron_error :: "string \<Rightarrow> string option"
  cron_range :: "int \<Rightarrow> bool"
  next_occurrence :: "string \<Rightarrow> string \<Rightarrow> int \<Rightarrow> (string, int) result"
  trigger_digest :: "workflow_trigger \<Rightarrow> string"

definition validate_keys :: "workflow_trigger \<Rightarrow> string list \<Rightarrow> (string, unit) result" where
  "validate_keys t allowed =
     (case find (\<lambda>(k, v). k \<notin> set allowed) (trigger_with t) of
        None \<Rightarrow> Inr ()
      | Some (k, v) \<Rightarrow>
          Inl (''trigger '' @ trigger_id t @ '' type '' @ trigger_type t @ '' does not support with.'' @ k))"

text \<open>\<open>with.get(key).and_then(as_str).map(trim).filter(non empty)\<close>\<close>

definition with_text :: "workflow_trigger \<Rightarrow> string \<Rightarrow> string option" where
  "with_text t key =
     (case Option.bind (map_of (trigger_with t) key) as_str of
        None \<Rightarrow> None | Some s \<Rightarrow> (if trim s = [] then None else Some (trim s)))"

definition timezone_value :: "calendar \<Rightarrow> json \<Rightarrow> (string, string) result" where
  "timezone_value cal v =
     (case as_str v of
        None \<Rightarrow> Inl ''with.timezone must be a non-empty IANA timezone''
      | Some s \<Rightarrow>
          (if trim s = [] then Inl ''with.timezone must be a non-empty IANA timezone''
           else if timezone_known cal s then Inr s
           else Inl ''with.timezone must be a valid IANA timezone''))"

definition interval_seconds :: "workflow_trigger \<Rightarrow> (string, nat) result" where
  "interval_seconds t =
     rbind (validate_keys t [''everySeconds'', ''misfire'', ''maxCatchUp'']) (\<lambda>_.
       rbind (ok_or (map_of (trigger_with t) ''everySeconds'') ''with.everySeconds is required'') (\<lambda>v.
         ok_or (case (case v of JNumber _ \<Rightarrow> as_u64 v | JString s \<Rightarrow> parse_u64 s | _ \<Rightarrow> None) of
                  None \<Rightarrow> None | Some n \<Rightarrow> (if 0 < n then Some n else None))
           ''with.everySeconds must be a positive integer''))"

text \<open>Back to \<open>OffsetDateTime\<close>; its nanoseconds are always in range.\<close>

definition from_chrono :: "calendar \<Rightarrow> string \<Rightarrow> int \<Rightarrow> (string, int) result" where
  "from_chrono cal what x = (if in_range cal x then Inr x else Inl (what @ range_error cal))"

definition datetime_due :: "calendar \<Rightarrow> workflow_trigger \<Rightarrow> (string, int) result" where
  "datetime_due cal t =
     rbind (validate_keys t [''at'', ''timezone'', ''dst'', ''misfire'', ''maxCatchUp'']) (\<lambda>_.
       rbind (ok_or (with_text t ''at'') ''with.at must be a non-empty RFC 3339 timestamp'') (\<lambda>text.
         (case parse_absolute cal text of
            Some absolute \<Rightarrow>
              (case map_of (trigger_with t) ''timezone'' of
                 None \<Rightarrow> Inr absolute
               | Some v \<Rightarrow> rbind (timezone_value cal v) (\<lambda>_. Inr absolute))
          | None \<Rightarrow>
              rbind (case map_of (trigger_with t) ''timezone'' of
                  None \<Rightarrow> Inl ''with.timezone is required when with.at has no offset''
                | Some v \<Rightarrow> timezone_value cal v) (\<lambda>tz.
                rbind (ok_or
                  (case parse_naive cal ''%Y-%m-%dT%H:%M:%S'' text of
                     Some x \<Rightarrow> Some x | None \<Rightarrow> parse_naive cal ''%Y-%m-%dT%H:%M'' text)
                  ''with.at must be an RFC 3339 timestamp or a local YYYY-MM-DDTHH:MM[:SS] timestamp'') (\<lambda>wall.
                  rbind (case from_local cal tz wall of
                      Single x \<Rightarrow> Inr x
                    | Ambiguous earlier later \<Rightarrow>
                        (case Option.bind (map_of (trigger_with t) ''dst'') as_str of
                           None \<Rightarrow> Inr earlier
                         | Some d \<Rightarrow>
                             (if d = ''earliest'' then Inr earlier
                              else if d = ''latest'' then Inr later
                              else Inl ''with.dst must be earliest or latest''))
                    | Nonexistent \<Rightarrow>
                        Inl ''with.at is a nonexistent local time in with.timezone due to DST'')
                    (from_chrono cal ''with.at is outside the supported range: ''))))))"

definition cron_next_due :: "calendar \<Rightarrow> workflow_trigger \<Rightarrow> int \<Rightarrow> (string, int) result" where
  "cron_next_due cal t after_time =
     rbind (validate_keys t [''expression'', ''timezone'', ''misfire'', ''maxCatchUp'']) (\<lambda>_.
       rbind (ok_or (with_text t ''expression'') ''with.expression must be a non-empty cron expression'')
         (\<lambda>expression.
           (case cron_error cal expression of
              Some e \<Rightarrow> Inl (''with.expression is not a valid cron expression: '' @ e)
            | None \<Rightarrow>
                rbind (case map_of (trigger_with t) ''timezone'' of
                    None \<Rightarrow> Inr ''UTC'' | Some v \<Rightarrow> timezone_value cal v) (\<lambda>tz.
                  if \<not> cron_range cal after_time then Inl ''current time is outside the supported cron range''
                  else (case next_occurrence cal expression tz after_time of
                      Inl e \<Rightarrow> Inl (''cannot calculate next cron occurrence: '' @ e)
                    | Inr x \<Rightarrow>
                        from_chrono cal ''next cron occurrence is outside the supported range: '' x)))))"

definition datetime_types :: "string list" where
  "datetime_types = [''kakune.trigger.datetime@1'', ''kakune.trigger.date-time@1'']"

definition is_datetime_trigger :: "workflow_trigger \<Rightarrow> bool" where
  "is_datetime_trigger t = (trigger_type t \<in> set datetime_types)"

definition initial_due :: "calendar \<Rightarrow> workflow_trigger \<Rightarrow> int \<Rightarrow> (string, int) result" where
  "initial_due cal t now =
     (if is_datetime_trigger t then datetime_due cal t
      else if trigger_type t = ''kakune.trigger.interval@1'' then Inr now
      else if trigger_type t = ''kakune.trigger.cron@1'' then cron_next_due cal t now
      else Inl ''trigger is not calendar scheduled'')"

definition second :: int where "second = 10 ^ 9"

definition next_due_after :: "calendar \<Rightarrow> workflow_trigger \<Rightarrow> int \<Rightarrow> (string, int) result" where
  "next_due_after cal t after_time =
     (if is_datetime_trigger t then datetime_due cal t
      else if trigger_type t = ''kakune.trigger.interval@1''
      then rbind (interval_seconds t) (\<lambda>n.
        if i64_max < int n then Inl ''with.everySeconds is too large''
        else if in_range cal (after_time + int n * second) then Inr (after_time + int n * second)
        else Inl ''next interval deadline is outside the supported range'')
      else if trigger_type t = ''kakune.trigger.cron@1'' then cron_next_due cal t after_time
      else Inl ''trigger is not calendar scheduled'')"

datatype misfire_policy = Skip | RunOnce | CatchUp nat

definition policy_name :: "misfire_policy \<Rightarrow> string" where
  "policy_name p = (case p of Skip \<Rightarrow> ''skip'' | RunOnce \<Rightarrow> ''runOnce'' | CatchUp _ \<Rightarrow> ''catchUp'')"

definition misfire_config :: "workflow_trigger \<Rightarrow> (string, misfire_policy) result" where
  "misfire_config t =
     (let misfire = (case Option.bind (map_of (trigger_with t) ''misfire'') as_str of
            None \<Rightarrow> ''runOnce'' | Some s \<Rightarrow> s)
      in if misfire = ''skip'' then Inr Skip
         else if misfire = ''runOnce'' then Inr RunOnce
         else if misfire = ''catchUp''
         then (case Option.bind (map_of (trigger_with t) ''maxCatchUp'') as_u64 of
             None \<Rightarrow> Inl ''with.maxCatchUp is required for misfire catchUp and must be from 1 to 100''
           | Some n \<Rightarrow>
               (if 1 \<le> n \<and> n \<le> 100 then Inr (CatchUp n)
                else Inl ''with.maxCatchUp is required for misfire catchUp and must be from 1 to 100''))
         else Inl ''with.misfire must be skip, runOnce, or catchUp'')"

section \<open>The table of schedules\<close>

record scheduled_row =
  sched_workflow :: string
  sched_trigger :: string
  next_run_at :: int
  last_run_at :: "int option"
  completed_at :: "int option"
  schedule_identity :: string
  sched_updated :: int

record schedule =
  scheduled_rows :: "scheduled_row list"
  known_workflows :: "string list"

definition is_schedule :: "string \<Rightarrow> string \<Rightarrow> scheduled_row \<Rightarrow> bool" where
  "is_schedule w i r = (sched_workflow r = w \<and> sched_trigger r = i)"

definition scheduled_trigger :: "string \<Rightarrow> string \<Rightarrow> schedule \<Rightarrow> scheduled_row option" where
  "scheduled_trigger w i s = find (is_schedule w i) (scheduled_rows s)"

definition ensure_scheduled_trigger ::
  "string \<Rightarrow> string \<Rightarrow> int \<Rightarrow> string \<Rightarrow> int \<Rightarrow> bool \<Rightarrow> schedule \<Rightarrow> (string, schedule) result" where
  "ensure_scheduled_trigger w i due identity now reset_existing s =
     (if w \<notin> set (known_workflows s) then Inl (database_error ''FOREIGN KEY constraint failed'')
      else Inr (s\<lparr>scheduled_rows :=
        (if list_ex (is_schedule w i) (scheduled_rows s)
         then update_rows (is_schedule w i)
           (\<lambda>r. r\<lparr>next_run_at := (if reset_existing then due else next_run_at r),
                  last_run_at := (if reset_existing then None else last_run_at r),
                  completed_at := (if reset_existing then None else completed_at r),
                  schedule_identity := identity, sched_updated := now\<rparr>) (scheduled_rows s)
         else scheduled_rows s @
           [\<lparr>sched_workflow = w, sched_trigger = i, next_run_at = due, last_run_at = None,
             completed_at = None, schedule_identity = identity, sched_updated = now\<rparr>])\<rparr>))"

definition advance_scheduled_trigger ::
  "string \<Rightarrow> string \<Rightarrow> int \<Rightarrow> bool \<Rightarrow> int \<Rightarrow> schedule \<Rightarrow> schedule" where
  "advance_scheduled_trigger w i due completed now s =
     s\<lparr>scheduled_rows := update_rows (is_schedule w i)
         (\<lambda>r. r\<lparr>next_run_at := due, last_run_at := Some now,
                completed_at := (if completed then Some now else None), sched_updated := now\<rparr>)
         (scheduled_rows s)\<rparr>"

text \<open>\<open>claim_interval_trigger\<close>; \<open>now + seconds\<close> panics outside the range.\<close>

definition claim_interval_trigger ::
  "string \<Rightarrow> string \<Rightarrow> int \<Rightarrow> nat \<Rightarrow> schedule \<Rightarrow> (string, bool \<times> schedule) result" where
  "claim_interval_trigger w i now every_seconds s =
     (if i64_max < int every_seconds then Inl ''interval is too large''
      else if (case scheduled_trigger w i s of None \<Rightarrow> False | Some r \<Rightarrow> now < next_run_at r) then Inr (False, s)
      else if scheduled_trigger w i s = None \<and> w \<notin> set (known_workflows s)
      then Inl (database_error ''FOREIGN KEY constraint failed'')
      else Inr (True, s\<lparr>scheduled_rows :=
        (if list_ex (is_schedule w i) (scheduled_rows s)
         then update_rows (is_schedule w i)
           (\<lambda>r. r\<lparr>next_run_at := now + int every_seconds * second, sched_updated := now\<rparr>) (scheduled_rows s)
         else scheduled_rows s @
           [\<lparr>sched_workflow = w, sched_trigger = i, next_run_at = now + int every_seconds * second,
             last_run_at = None, completed_at = None, schedule_identity = ''runOnce'',
             sched_updated = now\<rparr>])\<rparr>))"

section \<open>Firing\<close>

fun catch_up ::
  "calendar \<Rightarrow> workflow_trigger \<Rightarrow> int \<Rightarrow> nat \<Rightarrow> nat \<Rightarrow> int \<Rightarrow> (string, nat \<times> int) result" where
  "catch_up cal t now 0 runs due = Inr (runs, due)"
| "catch_up cal t now (Suc left) runs due =
     (if due \<le> now then rbind (next_due_after cal t due) (catch_up cal t now left (Suc runs))
      else Inr (runs, due))"

text \<open>How often a due trigger fires, its next deadline and whether it is done.\<close>

definition fire_decision ::
  "calendar \<Rightarrow> workflow_trigger \<Rightarrow> misfire_policy \<Rightarrow> int \<Rightarrow> int \<Rightarrow> bool \<Rightarrow> (string, nat \<times> int \<times> bool) result" where
  "fire_decision cal t misfire due now recovering =
     (let one_shot = is_datetime_trigger t;
          once = (\<lambda>runs. rbind (next_due_after cal t now) (\<lambda>d. Inr (runs, d, one_shot)))
      in if \<not> recovering then once 1
         else (case misfire of
             Skip \<Rightarrow> once 0
           | RunOnce \<Rightarrow> once 1
           | CatchUp limit \<Rightarrow>
               (if one_shot then Inr (1, due, True)
                else rbind (catch_up cal t now limit 0 due) (\<lambda>(runs, d).
                  if d \<le> now then rbind (next_due_after cal t now) (\<lambda>d'. Inr (runs, d', False))
                  else Inr (runs, d, False)))))"

definition identity_of :: "calendar \<Rightarrow> misfire_policy \<Rightarrow> string \<Rightarrow> workflow_trigger \<Rightarrow> string" where
  "identity_of cal misfire revision t =
     policy_name misfire @ ''|revision:'' @ revision @ ''|trigger:'' @ trigger_digest cal t"

text \<open>The last part of \<open>schedule_trigger\<close>, for a row whose identity is current.\<close>

definition fire_if_due ::
  "calendar \<Rightarrow> string \<Rightarrow> workflow_trigger \<Rightarrow> misfire_policy \<Rightarrow> scheduled_row \<Rightarrow> int \<Rightarrow> bool \<Rightarrow> schedule
   \<Rightarrow> (string, nat) result \<times> schedule" where
  "fire_if_due cal w t misfire existing now recovering s =
     (if completed_at existing \<noteq> None \<or> now < next_run_at existing then (Inr 0, s)
      else (case fire_decision cal t misfire (next_run_at existing) now recovering of
          Inl e \<Rightarrow> (Inl e, s)
        | Inr (runs, due, completed) \<Rightarrow>
            (Inr runs, advance_scheduled_trigger w (trigger_id t) due completed now s)))"

text \<open>\<open>schedule_trigger\<close>: the number of runs to start, and the table afterwards, also after an error.\<close>

definition schedule_trigger ::
  "calendar \<Rightarrow> string \<Rightarrow> workflow_trigger \<Rightarrow> string \<Rightarrow> int \<Rightarrow> bool \<Rightarrow> schedule
   \<Rightarrow> (string, nat) result \<times> schedule" where
  "schedule_trigger cal w t revision now recovering s =
     (case misfire_config t of
        Inl e \<Rightarrow> (Inl e, s)
      | Inr misfire \<Rightarrow>
          (case initial_due cal t now of
             Inl e \<Rightarrow> (Inl e, s)
           | Inr due \<Rightarrow>
               (let identity = identity_of cal misfire revision t;
                    ensure = (\<lambda>reset. ensure_scheduled_trigger w (trigger_id t) due identity now reset s)
                in case scheduled_trigger w (trigger_id t) s of
                     None \<Rightarrow> (case ensure False of Inl e \<Rightarrow> (Inl e, s) | Inr s' \<Rightarrow> (Inr 0, s'))
                   | Some existing \<Rightarrow>
                       (if schedule_identity existing = identity
                        then fire_if_due cal w t misfire existing now recovering s
                        else (let legacy = (schedule_identity existing = policy_name misfire) in
                          (case ensure (\<not> legacy) of
                             Inl e \<Rightarrow> (Inl e, s)
                           | Inr s' \<Rightarrow>
                               (if legacy then fire_if_due cal w t misfire existing now recovering s'
                                else (Inr 0, s'))))))))"

section \<open>Inputs of a triggered run\<close>

fun walk_trigger :: "string \<Rightarrow> json \<Rightarrow> string list \<Rightarrow> (string, json) result" where
  "walk_trigger from v [] = Inr v"
| "walk_trigger from v (k # ks) =
     (case get_key v k of
        None \<Rightarrow> Inl (''trigger value '' @ from @ '' is unavailable'') | Some x \<Rightarrow> walk_trigger from x ks)"

definition trigger_input :: "json \<Rightarrow> string \<Rightarrow> workflow_binding \<Rightarrow> (string, json) result" where
  "trigger_input v name binding =
     (case binding of
        Literal x \<Rightarrow> Inr x
      | From from \<Rightarrow>
          (if from = ''$trigger'' then Inr v
           else if starts_with from ''$trigger.'' then walk_trigger from v (split_on CHR ''.'' (drop 9 from))
           else Inl (''trigger map '' @ name @ '' must use literal or $trigger''))
      | _ \<Rightarrow> Inl (''trigger map '' @ name @ '' must use literal or $trigger''))"

fun trigger_pairs :: "json \<Rightarrow> (string \<times> workflow_binding) list \<Rightarrow> json_map \<Rightarrow> (string, json_map) result" where
  "trigger_pairs v [] m = Inr m"
| "trigger_pairs v ((name, binding) # bs) m =
     rbind (trigger_input v name binding) (\<lambda>x. trigger_pairs v bs (map_insert name x m))"

definition trigger_inputs :: "workflow_trigger \<Rightarrow> json \<Rightarrow> (string, json) result" where
  "trigger_inputs t v = rbind (trigger_pairs v (trigger_map t) []) (\<lambda>m. Inr (JObject m))"

section \<open>File-system triggers\<close>

datatype fs_event_kind = Created | Modified | Removed | Renamed

record fs_config =
  fs_workspace :: "string list"
  fs_root :: "string list"
  fs_events :: "fs_event_kind set"
  fs_debounce :: nat

definition event_kind_of :: "json \<Rightarrow> (string, fs_event_kind) result" where
  "event_kind_of v =
     (case v of
        JString s \<Rightarrow>
          (if s = ''created'' then Inr Created else if s = ''modified'' then Inr Modified
           else if s = ''removed'' then Inr Removed else if s = ''renamed'' then Inr Renamed
           else Inl ''with.events may contain only created, modified, removed, or renamed'')
      | _ \<Rightarrow> Inl ''with.events may contain only created, modified, removed, or renamed'')"

fun event_kinds :: "json list \<Rightarrow> (string, fs_event_kind set) result" where
  "event_kinds [] = Inr {}"
| "event_kinds (v # vs) = rbind (event_kind_of v) (\<lambda>k. rbind (event_kinds vs) (\<lambda>ks. Inr (insert k ks)))"

definition debounce_of :: "workflow_trigger \<Rightarrow> (string, nat) result" where
  "debounce_of t =
     rbind (case map_of (trigger_with t) ''debounceMs'' of
         None \<Rightarrow> Inr 500
       | Some (JNumber n) \<Rightarrow> ok_or (as_u64 (JNumber n)) ''with.debounceMs must be an integer''
       | Some _ \<Rightarrow> Inl ''with.debounceMs must be an integer'') (\<lambda>d.
       if 10 \<le> d \<and> d \<le> 60000 then Inr d else Inl ''with.debounceMs must be between 10 and 60000'')"

definition filesystem_config ::
  "(string list \<Rightarrow> (string, string list) result) \<Rightarrow> (string list \<Rightarrow> bool) \<Rightarrow> workflow_trigger \<Rightarrow> string list
   \<Rightarrow> (string, fs_config) result" where
  "filesystem_config canonicalize is_dir t workspace =
     rbind (validate_keys t [''root'', ''events'', ''debounceMs'']) (\<lambda>_.
       rbind (ok_or (with_text t ''root'') ''with.root must be a non-empty workspace-relative path'') (\<lambda>text.
         if is_absolute text \<or> ''.'' \<in> set (path_components text) \<or> ''..'' \<in> set (path_components text)
         then Inl ''with.root must be a workspace-relative path without . or .. components''
         else (case canonicalize workspace of
             Inl e \<Rightarrow> Inl (''cannot resolve workspace: '' @ e)
           | Inr ws \<Rightarrow>
               (case canonicalize (ws @ path_components text) of
                  Inl e \<Rightarrow> Inl (''cannot resolve configured root: '' @ e)
                | Inr dir \<Rightarrow>
                    (if \<not> prefix ws dir then Inl ''with.root must resolve inside the workspace''
                     else if \<not> is_dir dir then Inl ''with.root must resolve to an existing directory''
                     else rbind
                       (case Option.bind (map_of (trigger_with t) ''events'') as_array of
                          None \<Rightarrow> Inl ''with.events must be a non-empty array''
                        | Some [] \<Rightarrow> Inl ''with.events must be a non-empty array''
                        | Some vs \<Rightarrow> event_kinds vs) (\<lambda>kinds.
                       rbind (debounce_of t) (\<lambda>d.
                         Inr \<lparr>fs_workspace = ws, fs_root = dir, fs_events = kinds, fs_debounce = d\<rparr>)))))))"

text \<open>Events of the \<open>notify\<close> crate; renames are one of its kinds of modification.\<close>

datatype notify_kind = NotifyCreate | NotifyRename | NotifyModify | NotifyRemove | NotifyOther

record fs_event =
  notify_kind :: notify_kind
  notify_paths :: "string list list"

definition filesystem_event_matches :: "notify_kind \<Rightarrow> fs_event_kind set \<Rightarrow> bool" where
  "filesystem_event_matches k events =
     (case k of
        NotifyCreate \<Rightarrow> Created \<in> events | NotifyRename \<Rightarrow> Renamed \<in> events
      | NotifyModify \<Rightarrow> Modified \<in> events | NotifyRemove \<Rightarrow> Removed \<in> events | NotifyOther \<Rightarrow> False)"

fun join_path :: "string list \<Rightarrow> string" where
  "join_path [] = []"
| "join_path [c] = c"
| "join_path (c # cs) = c @ ''/'' @ join_path cs"

definition relative_text :: "string list \<Rightarrow> string list \<Rightarrow> string" where
  "relative_text ws p =
     map (\<lambda>c. if byte c = 92 then CHR ''/'' else c) (join_path (drop (length ws) p))"

definition filesystem_trigger_values :: "fs_event \<Rightarrow> fs_config \<Rightarrow> json" where
  "filesystem_trigger_values e config =
     (let paths = map (\<lambda>p. JString (relative_text (fs_workspace config) p))
            (filter (\<lambda>p. prefix (fs_root config) p \<and> prefix (fs_workspace config) p) (notify_paths e))
      in JObject [(''path'', if paths = [] then JNull else List.last paths), (''paths'', JArray paths),
                  (''type'', JString ''filesystem'')])"

record fs_pending =
  pend_workflow :: workflow_document
  pend_source :: string
  pend_revision :: string
  pend_trigger :: workflow_trigger
  pend_values :: json
  pend_due :: int

record fs_watcher =
  watch_workflow :: workflow_document
  watch_source :: string
  watch_revision :: string
  watch_trigger :: workflow_trigger
  watch_config :: fs_config
  watch_overflow :: nat

type_synonym fs_notification = "string \<times> (string, fs_event) result"

record fs_scheduler =
  fs_queue :: "fs_notification list"
  fs_watchers :: "(string \<times> fs_watcher) list"
  fs_pending_runs :: "(string \<times> fs_pending) list"

fun push_missing :: "json list \<Rightarrow> json list \<Rightarrow> json list" where
  "push_missing known [] = known"
| "push_missing known (x # xs) = push_missing (if x \<in> set known then known else known @ [x]) xs"

text \<open>The values of a pending run with those of a new event; \<open>None\<close> is the panic of \<open>expect\<close>.\<close>

definition merge_values :: "json \<Rightarrow> json \<Rightarrow> json option" where
  "merge_values existing arriving =
     (let paths = (case Option.bind (get_key arriving ''paths'') as_array of None \<Rightarrow> [] | Some ps \<Rightarrow> ps) in
      (case existing of
         JObject m \<Rightarrow>
           (case Option.bind (map_of m ''paths'') as_array of
              None \<Rightarrow> None
            | Some known \<Rightarrow>
                (let m' = map_insert ''paths'' (JArray (push_missing known paths)) m in
                 Some (JObject (case get_key arriving ''path'' of
                   None \<Rightarrow> m' | Some p \<Rightarrow> map_insert ''path'' p m'))))
       | _ \<Rightarrow> None))"

definition coalesce_pending ::
  "(string \<times> fs_pending) list \<Rightarrow> string \<Rightarrow> fs_pending \<Rightarrow> (string \<times> fs_pending) list option" where
  "coalesce_pending runs key arriving =
     (case map_of runs key of
        None \<Rightarrow> Some (AList.update key arriving runs)
      | Some existing \<Rightarrow>
          map_option (\<lambda>v. AList.update key (arriving\<lparr>pend_values := v\<rparr>) runs)
            (merge_values (pend_values existing) (pend_values arriving)))"

definition take_due_pending ::
  "(string \<times> fs_pending) list \<Rightarrow> int \<Rightarrow> fs_pending list \<times> (string \<times> fs_pending) list" where
  "take_due_pending runs now =
     (map snd (filter (\<lambda>(k, p). pend_due p \<le> now) runs), filter (\<lambda>(k, p). now < pend_due p) runs)"

definition millisecond :: int where "millisecond = 10 ^ 6"

definition handle_event :: "int \<Rightarrow> fs_notification \<Rightarrow> fs_scheduler \<Rightarrow> fs_scheduler option" where
  "handle_event now n s =
     (case map_of (fs_watchers s) (fst n) of
        None \<Rightarrow> Some s
      | Some w \<Rightarrow>
          (case snd n of
             Inl e \<Rightarrow> Some s
           | Inr e \<Rightarrow>
               (if \<not> filesystem_event_matches (notify_kind e) (fs_events (watch_config w))
                  \<or> \<not> list_ex (prefix (fs_root (watch_config w))) (notify_paths e)
                then Some s
                else map_option (\<lambda>runs. s\<lparr>fs_pending_runs := runs\<rparr>)
                  (coalesce_pending (fs_pending_runs s) (fst n)
                     \<lparr>pend_workflow = watch_workflow w, pend_source = watch_source w,
                      pend_revision = watch_revision w, pend_trigger = watch_trigger w,
                      pend_values = filesystem_trigger_values e (watch_config w),
                      pend_due = now + int (fs_debounce (watch_config w)) * millisecond\<rparr>))))"

fun drain_all :: "int \<Rightarrow> fs_notification list \<Rightarrow> fs_scheduler \<Rightarrow> fs_scheduler option" where
  "drain_all now [] s = Some s"
| "drain_all now (n # ns) s = Option.bind (handle_event now n s) (drain_all now ns)"

definition drain_events :: "int \<Rightarrow> fs_scheduler \<Rightarrow> fs_scheduler option" where
  "drain_events now s = drain_all now (fs_queue s) (s\<lparr>fs_queue := []\<rparr>)"

definition FILESYSTEM_CHANNEL_CAPACITY :: nat where "FILESYSTEM_CHANNEL_CAPACITY = 1024"

text \<open>The callback of a watcher: an event that does not fit the channel is counted.\<close>

definition notify_watcher :: "string \<Rightarrow> (string, fs_event) result \<Rightarrow> fs_scheduler \<Rightarrow> fs_scheduler" where
  "notify_watcher key e s =
     (if length (fs_queue s) < FILESYSTEM_CHANNEL_CAPACITY then s\<lparr>fs_queue := fs_queue s @ [(key, e)]\<rparr>
      else s\<lparr>fs_watchers := map (\<lambda>(k, w). (k, if k = key then w\<lparr>watch_overflow := Suc (watch_overflow w)\<rparr> else w))
             (fs_watchers s)\<rparr>)"

text \<open>The events \<open>record_overflow\<close> adds to the log, with the number of dropped events.\<close>

definition record_overflow :: "fs_scheduler \<Rightarrow> (string \<times> nat) list \<times> fs_scheduler" where
  "record_overflow s =
     (filter (\<lambda>(k, n). 0 < n) (map (\<lambda>(k, w). (k, watch_overflow w)) (fs_watchers s)),
      s\<lparr>fs_watchers := map (\<lambda>(k, w). (k, w\<lparr>watch_overflow := 0\<rparr>)) (fs_watchers s)\<rparr>)"

record fs_spec =
  spec_key :: string
  spec_workflow :: workflow_document
  spec_source :: string
  spec_revision :: string
  spec_trigger :: workflow_trigger
  spec_config :: fs_config

definition watcher_of :: "fs_spec \<Rightarrow> nat \<Rightarrow> fs_watcher" where
  "watcher_of p dropped =
     \<lparr>watch_workflow = spec_workflow p, watch_source = spec_source p, watch_revision = spec_revision p,
      watch_trigger = spec_trigger p, watch_config = spec_config p, watch_overflow = dropped\<rparr>"

definition sync_spec :: "(string list \<Rightarrow> bool) \<Rightarrow> fs_spec \<Rightarrow> fs_scheduler \<Rightarrow> fs_scheduler" where
  "sync_spec watch_ok p s =
     (let key = spec_key p;
          fresh = s\<lparr>fs_pending_runs := AList.delete key (fs_pending_runs s)\<rparr>
      in case map_of (fs_watchers s) key of
           Some w \<Rightarrow>
             (if watch_config w = spec_config p
              then (if watch_revision w \<noteq> spec_revision p then fresh else s)
                \<lparr>fs_watchers := AList.update key (watcher_of p (watch_overflow w)) (fs_watchers s)\<rparr>
              else fresh\<lparr>fs_watchers :=
                (if watch_ok (fs_root (spec_config p))
                 then AList.update key (watcher_of p 0) (AList.delete key (fs_watchers s))
                 else AList.delete key (fs_watchers s))\<rparr>)
         | None \<Rightarrow>
             fresh\<lparr>fs_watchers :=
               (if watch_ok (fs_root (spec_config p)) then AList.update key (watcher_of p 0) (fs_watchers s)
                else fs_watchers s)\<rparr>)"

definition sync :: "(string list \<Rightarrow> bool) \<Rightarrow> fs_spec list \<Rightarrow> fs_scheduler \<Rightarrow> fs_scheduler" where
  "sync watch_ok specs s =
     (let desired = set (map spec_key specs) in
      fold (sync_spec watch_ok) specs
        (s\<lparr>fs_watchers := filter (\<lambda>(k, w). k \<in> desired) (fs_watchers s),
           fs_pending_runs := filter (\<lambda>(k, p). k \<in> desired) (fs_pending_runs s)\<rparr>))"

section \<open>The scan\<close>

text \<open>A run the scheduler starts: \<open>ScheduledExecution\<close>.\<close>

record invocation =
  inv_workflow :: string
  inv_source :: string
  inv_revision :: string
  inv_trigger :: workflow_trigger
  inv_values :: json

record scheduler =
  sch_started :: "string set"
  sch_seen :: "string set"
  sch_fs :: fs_scheduler
  sch_table :: schedule

record scheduler_env =
  env_calendar :: calendar
  env_parse :: "string \<Rightarrow> (string, workflow_document) result"
  env_canonicalize :: "string list \<Rightarrow> (string, string list) result"
  env_is_dir :: "string list \<Rightarrow> bool"
  env_watch_ok :: "string list \<Rightarrow> bool"
  env_workspace :: "string list"

definition trigger_key :: "string \<Rightarrow> string \<Rightarrow> string" where
  "trigger_key w i = w @ ''/'' @ i"

definition calendar_types :: "string list" where
  "calendar_types = datetime_types @ [''kakune.trigger.interval@1'', ''kakune.trigger.cron@1'']"

definition unix_timestamp :: "int \<Rightarrow> json" where
  "unix_timestamp now =
     (let n = now div second in JNumber (if n < 0 then NegInt n else PosInt (nat n)))"

definition trigger_event :: "string \<Rightarrow> int \<Rightarrow> json" where
  "trigger_event t now = JObject [(''timestamp'', unix_timestamp now), (''type'', JString t)]"

text \<open>One trigger of one workflow: runs to start, file-system triggers to watch, and the new state.\<close>

definition refresh_trigger ::
  "scheduler_env \<Rightarrow> int \<Rightarrow> string \<times> string \<times> string \<Rightarrow> workflow_document \<Rightarrow> workflow_trigger
   \<Rightarrow> scheduler \<Rightarrow> invocation list \<times> fs_spec list \<times> scheduler" where
  "refresh_trigger env now = (\<lambda>(w, source, revision) doc t s.
     let key = trigger_key w (trigger_id t);
         call = (\<lambda>label. \<lparr>inv_workflow = w, inv_source = source, inv_revision = revision, inv_trigger = t,
                       inv_values = trigger_event label now\<rparr>)
     in if trigger_type t = ''kakune.trigger.startup@1''
        then (if key \<in> sch_started s then ([], [], s)
              else ([call ''startup''], [], s\<lparr>sch_started := insert key (sch_started s)\<rparr>))
        else if trigger_type t \<in> set calendar_types
        then (case schedule_trigger (env_calendar env) w t revision now (key \<notin> sch_seen s) (sch_table s) of
            (Inl e, table) \<Rightarrow> ([], [], s\<lparr>sch_table := table\<rparr>)
          | (Inr runs, table) \<Rightarrow>
              (replicate runs (call (trigger_type t)), [],
               s\<lparr>sch_table := table, sch_seen := insert key (sch_seen s)\<rparr>))
        else if trigger_type t = ''kakune.trigger.filesystem@1''
        then (case filesystem_config (env_canonicalize env) (env_is_dir env) t (env_workspace env) of
            Inl e \<Rightarrow> ([], [], s)
          | Inr config \<Rightarrow>
              ([], [\<lparr>spec_key = key, spec_workflow = doc, spec_source = source, spec_revision = revision,
                     spec_trigger = t, spec_config = config\<rparr>], s))
        else ([], [], s))"

fun refresh_triggers ::
  "scheduler_env \<Rightarrow> int \<Rightarrow> string \<times> string \<times> string \<Rightarrow> workflow_document \<Rightarrow> workflow_trigger list
   \<Rightarrow> scheduler \<Rightarrow> invocation list \<times> fs_spec list \<times> scheduler" where
  "refresh_triggers env now row doc [] s = ([], [], s)"
| "refresh_triggers env now row doc (t # ts) s =
     (case refresh_trigger env now row doc t s of
        (calls, specs, s') \<Rightarrow>
          (case refresh_triggers env now row doc ts s' of
             (calls', specs', s'') \<Rightarrow> (calls @ calls', specs @ specs', s'')))"

fun refresh_workflows ::
  "scheduler_env \<Rightarrow> int \<Rightarrow> (string \<times> string \<times> string) list \<Rightarrow> scheduler
   \<Rightarrow> invocation list \<times> fs_spec list \<times> scheduler" where
  "refresh_workflows env now [] s = ([], [], s)"
| "refresh_workflows env now (row # rows) s =
     (case env_parse env (fst (snd row)) of
        Inl e \<Rightarrow> refresh_workflows env now rows s
      | Inr doc \<Rightarrow>
          (case refresh_triggers env now row doc (triggers doc) s of
             (calls, specs, s') \<Rightarrow>
               (case refresh_workflows env now rows s' of
                  (calls', specs', s'') \<Rightarrow> (calls @ calls', specs @ specs', s''))))"

definition refresh ::
  "scheduler_env \<Rightarrow> int \<Rightarrow> (string \<times> string \<times> string) list \<Rightarrow> scheduler \<Rightarrow> invocation list \<times> scheduler" where
  "refresh env now rows s =
     (case refresh_workflows env now rows s of
        (calls, specs, s') \<Rightarrow> (calls, s'\<lparr>sch_fs := sync (env_watch_ok env) specs (sch_fs s')\<rparr>))"

text \<open>\<open>validate_enabled_triggers\<close>, the check before a workflow is enabled.\<close>

definition validate_trigger :: "scheduler_env \<Rightarrow> int \<Rightarrow> workflow_trigger \<Rightarrow> (string, unit) result" where
  "validate_trigger env now t =
     (let misfire = rbind (misfire_config t) (\<lambda>_. Inr ()) in
      if is_datetime_trigger t then rbind (datetime_due (env_calendar env) t) (\<lambda>_. misfire)
      else if trigger_type t = ''kakune.trigger.interval@1'' then rbind (interval_seconds t) (\<lambda>_. misfire)
      else if trigger_type t = ''kakune.trigger.cron@1''
      then rbind (cron_next_due (env_calendar env) t now) (\<lambda>_. misfire)
      else if trigger_type t = ''kakune.trigger.filesystem@1''
      then rbind (filesystem_config (env_canonicalize env) (env_is_dir env) t (env_workspace env)) (\<lambda>_. Inr ())
      else if trigger_type t = ''kakune.trigger.startup@1'' then validate_keys t []
      else Inr ())"

fun validate_enabled_triggers :: "scheduler_env \<Rightarrow> int \<Rightarrow> workflow_trigger list \<Rightarrow> (string, unit) result" where
  "validate_enabled_triggers env now [] = Inr ()"
| "validate_enabled_triggers env now (t # ts) =
     rbind (validate_trigger env now t) (\<lambda>_. validate_enabled_triggers env now ts)"

end
