(* ===== verification/Scheduler_Props.thy ===== *)
theory Scheduler_Props
  imports Scheduler
begin

text \<open>
  What the scheduler promises: a date-time trigger fires once, an interval trigger at its rate, the runs
  after a restart are the missed ones up to the limit, and no file-system event is lost or makes the
  scheduler panic.
\<close>

section \<open>The row of a trigger\<close>

lemma find_update_schedule:
  assumes "\<And>r. is_schedule w i (f r) = is_schedule w i r"
  shows "find (is_schedule w i) (update_rows (is_schedule w i) f rs)
    = map_option f (find (is_schedule w i) rs)"
  using assms by (induction rs) (auto simp: update_rows_def)

lemma find_none_append: "find P xs = None \<Longrightarrow> find P (xs @ ys) = find P ys"
  by (induction xs) (auto split: if_splits)

lemma scheduled_advance [simp]:
  "scheduled_trigger w i (advance_scheduled_trigger w i due b now s)
    = map_option (\<lambda>r. r\<lparr>next_run_at := due, last_run_at := Some now,
        completed_at := (if b then Some now else None), sched_updated := now\<rparr>) (scheduled_trigger w i s)"
  by (simp add: scheduled_trigger_def advance_scheduled_trigger_def find_update_schedule is_schedule_def)

lemma scheduled_ensure:
  assumes "ensure_scheduled_trigger w i due identity now b s = Inr s'"
  shows "scheduled_trigger w i s' = Some (case scheduled_trigger w i s of
      None \<Rightarrow> \<lparr>sched_workflow = w, sched_trigger = i, next_run_at = due, last_run_at = None,
             completed_at = None, schedule_identity = identity, sched_updated = now\<rparr>
    | Some r \<Rightarrow> r\<lparr>next_run_at := (if b then due else next_run_at r),
                  last_run_at := (if b then None else last_run_at r),
                  completed_at := (if b then None else completed_at r),
                  schedule_identity := identity, sched_updated := now\<rparr>)"
proof (cases "scheduled_trigger w i s")
  case None
  then have "\<not> list_ex (is_schedule w i) (scheduled_rows s)"
    by (auto simp: scheduled_trigger_def find_None_iff list_ex_iff)
  with None assms show ?thesis
    by (auto simp: ensure_scheduled_trigger_def scheduled_trigger_def find_none_append is_schedule_def
        split: if_splits)
next
  case (Some r)
  then have "list_ex (is_schedule w i) (scheduled_rows s)"
    by (auto simp: scheduled_trigger_def find_Some_iff list_ex_iff)
  with Some assms show ?thesis
    by (auto simp: ensure_scheduled_trigger_def scheduled_trigger_def find_update_schedule is_schedule_def
        split: if_splits)
qed

text \<open>The outcomes of \<open>schedule_trigger\<close>: nothing fires and the row is new, reset or as before; or it
  was due and fires.\<close>

lemma schedule_trigger_cases:
  assumes "schedule_trigger cal w t revision now rec s = (Inr runs, s')"
  obtains misfire due where "misfire_config t = Inr misfire" "initial_due cal t now = Inr due"
    "runs = 0" "\<forall>r. scheduled_trigger w (trigger_id t) s = Some r
      \<longrightarrow> schedule_identity r \<noteq> identity_of cal misfire revision t"
    "\<exists>r. scheduled_trigger w (trigger_id t) s' = Some r \<and> next_run_at r = due
      \<and> completed_at r = None \<and> schedule_identity r = identity_of cal misfire revision t"
  | misfire due r where "misfire_config t = Inr misfire" "initial_due cal t now = Inr due"
    "scheduled_trigger w (trigger_id t) s = Some r" "completed_at r \<noteq> None \<or> now < next_run_at r" "runs = 0"
    "\<exists>r'. scheduled_trigger w (trigger_id t) s' = Some r' \<and> next_run_at r' = next_run_at r
      \<and> completed_at r' = completed_at r \<and> schedule_identity r' = identity_of cal misfire revision t"
  | misfire due r next_due done_now where "misfire_config t = Inr misfire" "initial_due cal t now = Inr due"
    "scheduled_trigger w (trigger_id t) s = Some r" "completed_at r = None" "next_run_at r \<le> now"
    "fire_decision cal t misfire (next_run_at r) now rec = Inr (runs, next_due, done_now)"
    "\<exists>r'. scheduled_trigger w (trigger_id t) s' = Some r' \<and> next_run_at r' = next_due
      \<and> completed_at r' = (if done_now then Some now else None)
      \<and> schedule_identity r' = identity_of cal misfire revision t"
proof -
  note outcome = that
  from assms obtain misfire where misfire: "misfire_config t = Inr misfire"
    by (auto simp: schedule_trigger_def split: sum.splits)
  with assms obtain due where due: "initial_due cal t now = Inr due"
    by (auto simp: schedule_trigger_def split: sum.splits)
  let ?i = "trigger_id t" and ?id = "identity_of cal misfire revision t"
  have fire: thesis
    if r: "scheduled_trigger w ?i s = Some r" and s1: "scheduled_trigger w ?i s1 = Some r1"
      "next_run_at r1 = next_run_at r" "completed_at r1 = completed_at r" "schedule_identity r1 = ?id"
      and f: "fire_if_due cal w t misfire r now rec s1 = (Inr runs, s')" for r s1 r1
  proof (cases "completed_at r \<noteq> None \<or> now < next_run_at r")
    case True
    with f have "runs = 0" "s' = s1" by (auto simp: fire_if_due_def)
    with True s1 outcome(2) [OF misfire due r] show thesis by simp
  next
    case False
    with f obtain d b where "fire_decision cal t misfire (next_run_at r) now rec = Inr (runs, d, b)"
      "s' = advance_scheduled_trigger w ?i d b now s1"
      by (auto simp: fire_if_due_def split: sum.splits)
    with False s1 outcome(3) [OF misfire due r] show thesis by auto
  qed
  show thesis
  proof (cases "scheduled_trigger w ?i s")
    case None
    with assms misfire due show thesis
      by (auto simp: schedule_trigger_def Let_def split: sum.splits
          dest!: scheduled_ensure intro!: outcome(1))
  next
    case (Some r)
    show thesis
    proof (cases "schedule_identity r = ?id")
      case True
      with assms misfire due Some fire [OF Some Some refl refl True] show thesis
        by (auto simp: schedule_trigger_def Let_def)
    next
      case False
      let ?legacy = "schedule_identity r = policy_name misfire"
      from assms misfire due Some False obtain s1 where
        e: "ensure_scheduled_trigger w ?i due ?id now (\<not> ?legacy) s = Inr s1"
        and rest: "(if ?legacy then fire_if_due cal w t misfire r now rec s1 else (Inr 0, s1)) = (Inr runs, s')"
        by (auto simp: schedule_trigger_def Let_def split: sum.splits)
      note row = scheduled_ensure [OF e, unfolded Some option.case]
      show thesis
      proof (cases ?legacy)
        case True
        with rest row show thesis by (intro fire [OF Some row]) auto
      next
        case False
        with rest row Some \<open>schedule_identity r \<noteq> ?id\<close> show thesis by (intro outcome(1) [OF misfire due]) auto
      qed
    qed
  qed
qed

section \<open>Sequences of scans\<close>

text \<open>The scans of one trigger: times, and whether the scan is the first after a start.\<close>

fun scan_runs ::
  "calendar \<Rightarrow> string \<Rightarrow> workflow_trigger \<Rightarrow> string \<Rightarrow> (int \<times> bool) list \<Rightarrow> schedule \<Rightarrow> nat" where
  "scan_runs cal w t revision [] s = 0"
| "scan_runs cal w t revision ((now, rec) # scans) s =
     (case schedule_trigger cal w t revision now rec s of
        (r, s') \<Rightarrow> (case r of Inl _ \<Rightarrow> 0 | Inr n \<Rightarrow> n) + scan_runs cal w t revision scans s')"

subsection \<open>One-shot triggers\<close>

definition finished :: "calendar \<Rightarrow> string \<Rightarrow> workflow_trigger \<Rightarrow> string \<Rightarrow> schedule \<Rightarrow> bool" where
  "finished cal w t revision s \<longleftrightarrow> (\<exists>misfire r. misfire_config t = Inr misfire
     \<and> scheduled_trigger w (trigger_id t) s = Some r \<and> completed_at r \<noteq> None
     \<and> schedule_identity r = identity_of cal misfire revision t)"

lemma finished_step:
  assumes "finished cal w t revision s"
  shows "snd (schedule_trigger cal w t revision now rec s) = s
    \<and> (\<forall>n. fst (schedule_trigger cal w t revision now rec s) = Inr n \<longrightarrow> n = 0)"
  using assms
  by (auto simp: finished_def schedule_trigger_def Let_def fire_if_due_def split: sum.split)

lemma finished_runs: "finished cal w t revision s \<Longrightarrow> scan_runs cal w t revision scans s = 0"
proof (induction scans)
  case (Cons x scans)
  obtain now rec where x: "x = (now, rec)" by (cases x)
  from finished_step [OF Cons.prems, of now rec] Cons show ?case
    by (auto simp: x split: prod.split sum.split)
qed simp

lemma one_shot_decision:
  "is_datetime_trigger t \<Longrightarrow> fire_decision cal t misfire due now rec = Inr (runs, d, b) \<Longrightarrow> runs \<le> 1 \<and> b"
  by (auto simp: fire_decision_def Let_def rbind_Inr split: if_splits misfire_policy.splits)

text \<open>C21: A date-time trigger fires at most once for a revision of its workflow, over any scans at any
  times, any restarts of the Core between them, and whatever row the table had before.\<close>

theorem datetime_fires_once:
  assumes "is_datetime_trigger t"
  shows "scan_runs cal w t revision scans s \<le> 1"
proof (induction scans arbitrary: s)
  case (Cons x scans)
  obtain now rec where x: "x = (now, rec)" by (cases x)
  obtain res s' where step: "schedule_trigger cal w t revision now rec s = (res, s')" by (cases rule: prod.exhaust)
  show ?case
  proof (cases res)
    case (Inr n)
    from step [unfolded Inr] show ?thesis
    proof (cases rule: schedule_trigger_cases)
      case (3 misfire due r next_due done_now)
      with one_shot_decision [OF assms 3(6)] have "n \<le> 1" "finished cal w t revision s'"
        by (auto simp: finished_def)
      with finished_runs show ?thesis by (simp add: x step Inr)
    qed (use Cons.IH [of s'] in \<open>simp_all add: x step Inr\<close>)
  qed (use Cons.IH [of s'] in \<open>simp add: x step\<close>)
qed simp

definition plain_calendar :: calendar where
  "plain_calendar =
     \<lparr>in_range = (\<lambda>_. True), range_error = [], parse_absolute = (\<lambda>_. Some 100), timezone_known = (\<lambda>_. True),
      parse_naive = (\<lambda>_ _. None), from_local = (\<lambda>_. Single), cron_error = (\<lambda>_. None), cron_range = (\<lambda>_. True),
      next_occurrence = (\<lambda>_ _ x. Inr (x + 1)), trigger_digest = (\<lambda>_. ''d'')\<rparr>"

definition date_trigger :: workflow_trigger where
  "date_trigger = \<lparr>trigger_id = ''at'', trigger_type = ''kakune.trigger.datetime@1'',
     trigger_with = [(''at'', JString ''x'')], trigger_map = []\<rparr>"

definition sample_table :: schedule where
  "sample_table = \<lparr>scheduled_rows = [], known_workflows = [''w'']\<rparr>"

lemma trim_x: "trim ''x'' = ''x''"
  by code_simp

lemmas schedule_eval = schedule_trigger_def misfire_config_def initial_due_def is_datetime_trigger_def
  datetime_types_def datetime_due_def validate_keys_def with_text_def ensure_scheduled_trigger_def
  scheduled_trigger_def is_schedule_def fire_if_due_def fire_decision_def next_due_after_def
  advance_scheduled_trigger_def update_rows_def Let_def plain_calendar_def sample_table_def ok_or_def

theorem datetime_fires_once_witness:
  "scan_runs plain_calendar ''w'' date_trigger ''r'' [(99, True), (100, False), (101, False), (102, True)] sample_table = 1
   \<and> scan_runs plain_calendar ''w'' date_trigger ''r'' [(99, True), (100, False), (101, False), (102, True)] sample_table \<le> 1"
  using datetime_fires_once [of date_trigger plain_calendar "''w''" "''r''"
      "[(99, True), (100, False), (101, False), (102, True)]" sample_table]
  by (simp add: schedule_eval date_trigger_def trim_x)

subsection \<open>Interval triggers\<close>

definition is_interval :: "workflow_trigger \<Rightarrow> nat \<Rightarrow> bool" where
  "is_interval t n \<longleftrightarrow> trigger_type t = ''kakune.trigger.interval@1'' \<and> interval_seconds t = Inr n"

lemma interval_pos: "is_interval t n \<Longrightarrow> 0 < n"
  by (auto simp: is_interval_def interval_seconds_def rbind_Inr ok_or_def split: option.splits if_splits json.splits)

lemma interval_not_datetime: "is_interval t n \<Longrightarrow> \<not> is_datetime_trigger t"
  by (simp add: is_interval_def is_datetime_trigger_def datetime_types_def)

lemma interval_next:
  "is_interval t n \<Longrightarrow> next_due_after cal t x = Inr d \<Longrightarrow> d = x + int n * second"
  by (auto simp: next_due_after_def interval_not_datetime is_interval_def split: if_splits)

lemma interval_initial: "is_interval t n \<Longrightarrow> initial_due cal t now = Inr now"
  by (auto simp: initial_due_def interval_not_datetime is_interval_def)

lemma interval_fires:
  assumes "is_interval t n" and "fire_decision cal t misfire due now False = Inr (runs, d, b)"
  shows "runs = 1 \<and> d = now + int n * second \<and> \<not> b"
  using assms interval_next [OF assms(1)] interval_not_datetime [OF assms(1)]
  by (auto simp: fire_decision_def Let_def rbind_Inr)

text \<open>The runs a trigger with its next deadline at \<open>d\<close> can have until \<open>b\<close>.\<close>

definition rate_bound :: "int \<Rightarrow> int \<Rightarrow> int \<Rightarrow> int" where
  "rate_bound period d b = (if d \<le> b then (b - d) div period + 1 else 0)"

lemma rate_bound_mono: "0 < period \<Longrightarrow> d \<le> d' \<Longrightarrow> rate_bound period d' b \<le> rate_bound period d b"
  by (auto simp: rate_bound_def zdiv_mono1 pos_imp_zdiv_nonneg_iff)

lemma rate_bound_nonneg: "0 < period \<Longrightarrow> 0 \<le> rate_bound period d b"
  by (auto simp: rate_bound_def pos_imp_zdiv_nonneg_iff)

lemma rate_bound_step:
  assumes "0 < period" and "d \<le> b"
  shows "1 + rate_bound period (d + period) b \<le> rate_bound period d b"
proof -
  have "(b - d) div period = (b - (d + period)) div period + 1"
    using assms(1) div_add_self2 [of period "b - (d + period)"] by (simp add: algebra_simps)
  with assms show ?thesis by (auto simp: rate_bound_def pos_imp_zdiv_nonneg_iff)
qed

text \<open>The earliest time the trigger can fire at or after \<open>a\<close>.\<close>

definition earliest :: "calendar \<Rightarrow> string \<Rightarrow> workflow_trigger \<Rightarrow> string \<Rightarrow> schedule \<Rightarrow> int \<Rightarrow> int" where
  "earliest cal w t revision s a =
     (case scheduled_trigger w (trigger_id t) s of
        None \<Rightarrow> a
      | Some r \<Rightarrow>
          (if \<exists>misfire. misfire_config t = Inr misfire \<and> schedule_identity r = identity_of cal misfire revision t
           then max a (next_run_at r) else a))"

lemma earliest_ge: "a \<le> earliest cal w t revision s a"
  by (simp add: earliest_def split: option.split)

lemma earliest_mono: "a \<le> b \<Longrightarrow> earliest cal w t revision s a \<le> earliest cal w t revision s b"
  by (auto simp: earliest_def split: option.split)

lemma earliest_current:
  assumes "misfire_config t = Inr misfire" and "scheduled_trigger w (trigger_id t) s = Some r"
    and "schedule_identity r = identity_of cal misfire revision t"
  shows "earliest cal w t revision s a = max a (next_run_at r)"
  using assms by (simp add: earliest_def)

lemma earliest_other:
  assumes "misfire_config t = Inr misfire"
    and "\<forall>r. scheduled_trigger w (trigger_id t) s = Some r \<longrightarrow> schedule_identity r \<noteq> identity_of cal misfire revision t"
  shows "earliest cal w t revision s a = a"
  using assms by (auto simp: earliest_def split: option.split)

lemma earliest_le_row:
  "scheduled_trigger w (trigger_id t) s = Some r \<Longrightarrow> earliest cal w t revision s a \<le> max a (next_run_at r)"
  by (auto simp: earliest_def)

lemma schedule_error:
  assumes "schedule_trigger cal w t revision now rec s = (Inl e, s')"
  shows "s' = s \<or> earliest cal w t revision s a = a"
proof (cases "misfire_config t")
  case (Inr misfire)
  show ?thesis
  proof (cases "\<exists>r. scheduled_trigger w (trigger_id t) s = Some r
      \<and> schedule_identity r = identity_of cal misfire revision t")
    case True
    with assms Inr show ?thesis
      by (auto simp: schedule_trigger_def Let_def fire_if_due_def split: sum.splits if_splits)
  next
    case False
    with earliest_other [OF Inr] show ?thesis by blast
  qed
qed (use assms in \<open>simp add: schedule_trigger_def\<close>)

lemma interval_runs:
  assumes t: "is_interval t n"
  shows "sorted (map fst scans) \<Longrightarrow> list_all (\<lambda>(now, rec). a \<le> now \<and> now \<le> b \<and> \<not> rec) scans
    \<Longrightarrow> int (scan_runs cal w t revision scans s)
        \<le> rate_bound (int n * second) (earliest cal w t revision s a) b"
proof (induction scans arbitrary: s a)
  case Nil
  then show ?case using interval_pos [OF t] by (simp add: rate_bound_nonneg second_def)
next
  case (Cons x scans)
  let ?p = "int n * second" and ?e = "earliest cal w t revision"
  have p: "0 < ?p" using interval_pos [OF t] by (simp add: second_def)
  obtain now where x: "x = (now, False)" "a \<le> now" "now \<le> b" using Cons.prems(2) by (cases x) auto
  obtain res s' where step: "schedule_trigger cal w t revision now False s = (res, s')"
    by (cases rule: prod.exhaust)
  have "list_all (\<lambda>(now', rec). now \<le> now' \<and> now' \<le> b \<and> \<not> rec) scans"
    using Cons.prems x(1) by (auto simp: list_all_iff)
  with Cons.IH [of now s'] Cons.prems(1) x(1)
  have rest: "int (scan_runs cal w t revision scans s') \<le> rate_bound ?p (?e s' now) b" by simp
  have quiet: ?case if "?e s a \<le> ?e s' now" "\<forall>k. res = Inr k \<longrightarrow> k = 0"
    using rest rate_bound_mono [OF p that(1), of b] that(2) by (auto simp: x(1) step split: sum.split)
  show ?case
  proof (cases res)
    case (Inl err)
    with schedule_error [OF step [unfolded Inl], of a] have "?e s a \<le> ?e s' now"
      using earliest_mono [OF x(2)] earliest_ge [of now] x(2) by (metis order_trans)
    with Inl quiet show ?thesis by simp
  next
    case (Inr k)
    from step [unfolded Inr] show ?thesis
    proof (cases rule: schedule_trigger_cases)
      case (1 misfire due)
      with earliest_other [OF 1(1), of w s cal revision a] earliest_ge [of now] x(2) Inr show ?thesis
        by (intro quiet) (auto intro: order_trans)
    next
      case (2 misfire due r)
      then obtain r' where "scheduled_trigger w (trigger_id t) s' = Some r'" "next_run_at r' = next_run_at r"
        "schedule_identity r' = identity_of cal misfire revision t" by blast
      with earliest_current [OF 2(1) this(1,3)] earliest_le_row [OF 2(3), of cal revision a] x(2) Inr 2(5)
      show ?thesis by (intro quiet) auto
    next
      case (3 misfire due r d done_now)
      note fires = interval_fires [OF t 3(6)]
      from 3(7) obtain r' where r': "scheduled_trigger w (trigger_id t) s' = Some r'" "next_run_at r' = d"
        "schedule_identity r' = identity_of cal misfire revision t" by blast
      have "?e s' now = now + ?p" using earliest_current [OF 3(1) r'(1,3)] r'(2) fires p by simp
      moreover have "?e s a \<le> now" using earliest_le_row [OF 3(3), of cal revision a] 3(5) x(2) by simp
      ultimately have "1 + rate_bound ?p (?e s' now) b \<le> rate_bound ?p (?e s a) b"
        using rate_bound_step [OF p x(3)] rate_bound_mono [OF p, of "?e s a" now b] by simp
      with rest fires show ?thesis by (simp add: x(1) step Inr)
    qed
  qed
qed

text \<open>An interval trigger keeps its rate: in scans between \<open>a\<close> and \<open>b\<close>, however many and
  whatever row it starts from, it fires at most once at the start and once per full period.\<close>

theorem interval_rate:
  assumes "is_interval t n" and "sorted (map fst scans)"
    and "list_all (\<lambda>(now, rec). a \<le> now \<and> now \<le> b \<and> \<not> rec) scans" and "a \<le> b"
  shows "int (scan_runs cal w t revision scans s) \<le> (b - a) div (int n * second) + 1"
proof -
  have p: "0 < int n * second" using interval_pos [OF assms(1)] by (simp add: second_def)
  have "int (scan_runs cal w t revision scans s)
      \<le> rate_bound (int n * second) (earliest cal w t revision s a) b"
    by (rule interval_runs [OF assms(1-3)])
  also have "\<dots> \<le> rate_bound (int n * second) a b" by (rule rate_bound_mono [OF p earliest_ge])
  finally show ?thesis using assms(4) by (simp add: rate_bound_def)
qed

definition tick_trigger :: workflow_trigger where
  "tick_trigger = \<lparr>trigger_id = ''tick'', trigger_type = ''kakune.trigger.interval@1'',
     trigger_with = [(''everySeconds'', JNumber (PosInt 60)), (''maxCatchUp'', JNumber (PosInt 2)),
       (''misfire'', JString ''catchUp'')], trigger_map = []\<rparr>"

lemma tick_interval: "is_interval tick_trigger 60"
  by (simp add: is_interval_def tick_trigger_def interval_seconds_def validate_keys_def ok_or_def)

lemma tick_misfire: "misfire_config tick_trigger = Inr (CatchUp 2)"
  by (simp add: misfire_config_def tick_trigger_def Let_def)

lemma tick_next: "next_due_after plain_calendar tick_trigger x = Inr (x + 60 * second)"
  using tick_interval interval_not_datetime [OF tick_interval]
  by (simp add: next_due_after_def is_interval_def plain_calendar_def i64_max_def)

definition tick_scans :: "(int \<times> bool) list" where
  "tick_scans = map (\<lambda>k. (k * second, False)) [0, 1, 2, 59, 60, 61, 62, 100, 121, 200]"

lemma tick_scan_runs: "scan_runs plain_calendar ''w'' tick_trigger ''r'' tick_scans sample_table = 4"
proof -
  have "trigger_id tick_trigger = ''tick''" "initial_due plain_calendar tick_trigger now = Inr now" for now
    using interval_initial [OF tick_interval] by (simp_all add: tick_trigger_def)
  then show ?thesis
    using interval_not_datetime [OF tick_interval]
    by (simp add: tick_scans_def schedule_trigger_def tick_misfire Let_def ensure_scheduled_trigger_def
        scheduled_trigger_def is_schedule_def fire_if_due_def fire_decision_def tick_next
        advance_scheduled_trigger_def update_rows_def sample_table_def second_def)
qed

theorem interval_rate_witness:
  "scan_runs plain_calendar ''w'' tick_trigger ''r'' tick_scans sample_table = 4
   \<and> int (scan_runs plain_calendar ''w'' tick_trigger ''r'' tick_scans sample_table)
      \<le> (200 * second - 0) div (int 60 * second) + 1"
proof
  show "int (scan_runs plain_calendar ''w'' tick_trigger ''r'' tick_scans sample_table)
      \<le> (200 * second - 0) div (int 60 * second) + 1"
    by (rule interval_rate [OF tick_interval]) (simp_all add: tick_scans_def second_def)
qed (rule tick_scan_runs)

subsection \<open>Catching up\<close>

lemma interval_next_ok:
  "is_interval t n \<Longrightarrow> int n \<le> i64_max \<Longrightarrow> in_range cal (x + int n * second)
    \<Longrightarrow> next_due_after cal t x = Inr (x + int n * second)"
  by (auto simp: next_due_after_def interval_not_datetime is_interval_def)

text \<open>The deadlines of a period missed from \<open>due\<close> to \<open>now\<close>.\<close>

definition missed :: "int \<Rightarrow> int \<Rightarrow> int \<Rightarrow> nat" where
  "missed period due now = (if due \<le> now then nat ((now - due) div period) + 1 else 0)"

lemma missed_step:
  assumes "0 < period" and "due \<le> now"
  shows "missed period due now = Suc (missed period (due + period) now)"
proof -
  have "(now - due) div period = (now - (due + period)) div period + 1"
    using assms(1) div_add_self2 [of period "now - (due + period)"] by (simp add: algebra_simps)
  moreover have "(now - due) div period = 0" if "\<not> due + period \<le> now"
    using assms that by (intro div_pos_pos_trivial) auto
  ultimately show ?thesis
    using assms pos_imp_zdiv_nonneg_iff [OF assms(1), of "now - (due + period)"]
    by (auto simp: missed_def nat_add_distrib)
qed

lemma catch_up_interval:
  assumes t: "is_interval t n" and big: "int n \<le> i64_max"
    and range: "\<And>x. x \<le> now + int n * second \<Longrightarrow> in_range cal x"
  shows "catch_up cal t now left runs due
    = Inr (runs + min left (missed (int n * second) due now),
           due + int (min left (missed (int n * second) due now)) * (int n * second))"
proof (induction left arbitrary: runs due)
  case (Suc left)
  let ?p = "int n * second"
  have p: "0 < ?p" using interval_pos [OF t] by (simp add: second_def)
  show ?case
  proof (cases "due \<le> now")
    case True
    with interval_next_ok [OF t big range, of due] missed_step [OF p True] Suc.IH [of "Suc runs" "due + ?p"]
    show ?thesis by (simp add: algebra_simps)
  qed (simp add: missed_def)
qed simp

lemma missed_beyond:
  assumes "0 < period" and "due \<le> now"
  shows "now < due + int (missed period due now) * period"
proof -
  have "now - due < ((now - due) div period + 1) * period"
    using assms(1) by (metis add.commute mult.commute pos_mod_bound div_mult_mod_eq add_strict_left_mono
        distrib_left mult.right_neutral)
  moreover have "0 \<le> (now - due) div period" using assms by (simp add: pos_imp_zdiv_nonneg_iff)
  ultimately show ?thesis using assms(2) by (simp add: missed_def algebra_simps)
qed

lemma missed_within:
  assumes "0 < period" and "k < missed period due now"
  shows "due + int k * period \<le> now"
proof -
  from assms(2) have "due \<le> now" "k \<le> nat ((now - due) div period)"
    by (auto simp: missed_def split: if_splits)
  moreover from this assms(1) have "0 \<le> (now - due) div period" by (simp add: pos_imp_zdiv_nonneg_iff)
  ultimately have "int k \<le> (now - due) div period" by linarith
  then have "int k * period \<le> (now - due) div period * period" using assms(1) by (simp add: mult_right_mono)
  also have "\<dots> \<le> now - due" using assms(1) by (metis div_mult_mod_eq le_add_same_cancel1 pos_mod_sign)
  finally show ?thesis by simp
qed

text \<open>After a restart a catch-up interval trigger fires once for each deadline it missed, up to its
  limit of at most 100, and its next deadline is in the future: on the old grid when all missed deadlines were
  made up, one period from now when the limit cut them off.\<close>

theorem catch_up_makes_up_missed:
  assumes "is_interval t n" and "misfire_config t = Inr (CatchUp limit)" and "int n \<le> i64_max"
    and "\<forall>x \<le> now + int n * second. in_range cal x"
    and "scheduled_trigger w (trigger_id t) s = Some r" and "completed_at r = None" and "next_run_at r \<le> now"
    and "schedule_identity r = identity_of cal (CatchUp limit) revision t"
  shows "\<exists>s' r'. schedule_trigger cal w t revision now True s
      = (Inr (min limit (missed (int n * second) (next_run_at r) now)), s')
    \<and> limit \<le> 100 \<and> scheduled_trigger w (trigger_id t) s' = Some r' \<and> now < next_run_at r'
    \<and> next_run_at r' =
        (if missed (int n * second) (next_run_at r) now \<le> limit
         then next_run_at r + int (missed (int n * second) (next_run_at r) now) * (int n * second)
         else now + int n * second)"
proof -
  let ?p = "int n * second" and ?m = "missed (int n * second) (next_run_at r) now"
  let ?d = "next_run_at r + int (min limit ?m) * ?p"
  have p: "0 < ?p" using interval_pos [OF assms(1)] by (simp add: second_def)
  define d where "d = (if ?d \<le> now then now + ?p else ?d)"
  have limit: "limit \<le> 100"
    using assms(2) by (auto simp: misfire_config_def Let_def split: option.splits if_splits)
  have "catch_up cal t now limit 0 (next_run_at r) = Inr (min limit ?m, ?d)"
    using catch_up_interval [OF assms(1,3), of now cal limit 0] assms(4) by simp
  then have "fire_decision cal t (CatchUp limit) (next_run_at r) now True = Inr (min limit ?m, d, False)"
    using interval_next_ok [OF assms(1,3), of cal now] assms(4) interval_not_datetime [OF assms(1)]
    by (simp add: fire_decision_def d_def)
  then have "schedule_trigger cal w t revision now True s
      = (Inr (min limit ?m), advance_scheduled_trigger w (trigger_id t) d False now s)"
    using assms(2,5-8) interval_initial [OF assms(1)]
    by (simp add: schedule_trigger_def Let_def fire_if_due_def)
  moreover have "now < d" using p by (simp add: d_def)
  moreover have "d = (if ?m \<le> limit then next_run_at r + int ?m * ?p
      else now + ?p)"
    using missed_beyond [OF p assms(7)] missed_within [OF p, of limit "next_run_at r" now]
    by (auto simp: d_def min_def)
  ultimately show ?thesis using limit assms(5) by auto
qed

definition ticked :: schedule where
  "ticked = \<lparr>scheduled_rows = [\<lparr>sched_workflow = ''w'', sched_trigger = ''tick'', next_run_at = 0, last_run_at = None,
     completed_at = None, schedule_identity = identity_of plain_calendar (CatchUp 2) ''r'' tick_trigger,
     sched_updated = 0\<rparr>], known_workflows = [''w'']\<rparr>"

theorem catch_up_makes_up_missed_witness:
  "\<exists>s' r'. schedule_trigger plain_calendar ''w'' tick_trigger ''r'' (300 * second) True ticked = (Inr 2, s')
    \<and> scheduled_trigger ''w'' ''tick'' s' = Some r' \<and> next_run_at r' = 360 * second"
proof -
  have id: "trigger_id tick_trigger = ''tick''" by (simp add: tick_trigger_def)
  have row: "scheduled_trigger ''w'' (trigger_id tick_trigger) ticked = Some (hd (scheduled_rows ticked))"
    by (simp add: scheduled_trigger_def ticked_def is_schedule_def id)
  have "missed (int 60 * second) (next_run_at (hd (scheduled_rows ticked))) (300 * second) = 6"
    by (simp add: missed_def ticked_def second_def)
  with catch_up_makes_up_missed [OF tick_interval tick_misfire _ _ row, of "300 * second" plain_calendar "''r''"]
  show ?thesis by (auto simp: id i64_max_def plain_calendar_def ticked_def second_def)
qed

section \<open>File-system events\<close>

text \<open>Pending runs carry the values \<open>filesystem_trigger_values\<close> builds.\<close>

definition paths_of :: "json \<Rightarrow> json list option" where
  "paths_of v = Option.bind (get_key v ''paths'') as_array"

definition fs_ok :: "fs_scheduler \<Rightarrow> bool" where
  "fs_ok s \<longleftrightarrow> (\<forall>k p. map_of (fs_pending_runs s) k = Some p \<longrightarrow>
     (\<exists>m ps. pend_values p = JObject m \<and> map_of m ''paths'' = Some (JArray ps)))"

lemma paths_of_values:
  "paths_of (filesystem_trigger_values e c) = Some (map (\<lambda>p. JString (relative_text (fs_workspace c) p))
     (filter (\<lambda>p. prefix (fs_root c) p \<and> prefix (fs_workspace c) p) (notify_paths e)))"
  by (simp add: paths_of_def filesystem_trigger_values_def Let_def get_key_def)

lemma set_push_missing [simp]: "set (push_missing known xs) = set known \<union> set xs"
  by (induction known xs rule: push_missing.induct) auto

lemma merge_values_ok:
  assumes "map_of m ''paths'' = Some (JArray ps)" and "paths_of v = Some qs"
  shows "\<exists>m'. merge_values (JObject m) v = Some (JObject m')
    \<and> map_of m' ''paths'' = Some (JArray (push_missing ps qs))"
  using assms by (auto simp: merge_values_def Let_def paths_of_def split: option.split)

text \<open>What one event does to the pending runs.\<close>

definition accepts :: "fs_scheduler \<Rightarrow> fs_notification \<Rightarrow> bool" where
  "accepts s n \<longleftrightarrow> (\<exists>w e. map_of (fs_watchers s) (fst n) = Some w \<and> snd n = Inr e
     \<and> filesystem_event_matches (notify_kind e) (fs_events (watch_config w))
     \<and> list_ex (prefix (fs_root (watch_config w))) (notify_paths e))"

definition pending_paths :: "fs_scheduler \<Rightarrow> string \<Rightarrow> json set" where
  "pending_paths s k =
     (case map_of (fs_pending_runs s) k of
        None \<Rightarrow> {} | Some p \<Rightarrow> (case paths_of (pend_values p) of None \<Rightarrow> {} | Some ps \<Rightarrow> set ps))"

lemma coalesce_ok:
  assumes "fs_ok s" and "paths_of (pend_values p) = Some qs" and "\<exists>m. pend_values p = JObject m"
  shows "\<exists>runs v m. coalesce_pending (fs_pending_runs s) k p = Some runs
    \<and> map_of runs = (map_of (fs_pending_runs s))(k \<mapsto> p\<lparr>pend_values := v\<rparr>)
    \<and> v = JObject m \<and> (\<exists>ps. map_of m ''paths'' = Some (JArray ps) \<and> set ps = pending_paths s k \<union> set qs)"
proof (cases "map_of (fs_pending_runs s) k")
  case None
  with assms(2,3) show ?thesis
    by (auto simp: coalesce_pending_def update_conv' pending_paths_def paths_of_def get_key_def bind_eq_Some_conv
        intro!: exI [of _ "pend_values p"])
next
  case (Some old)
  with assms(1) obtain m ps where old: "pend_values old = JObject m" "map_of m ''paths'' = Some (JArray ps)"
    unfolding fs_ok_def by blast
  from merge_values_ok [OF old(2) assms(2)] obtain m' where
    "merge_values (JObject m) (pend_values p) = Some (JObject m')"
    "map_of m' ''paths'' = Some (JArray (push_missing ps qs))" by blast
  with Some old show ?thesis
    by (auto simp: coalesce_pending_def update_conv' pending_paths_def paths_of_def get_key_def
        intro!: exI [of _ "JObject m'"])
qed

lemma handle_event_ok:
  assumes ok: "fs_ok s"
  shows "\<exists>s'. handle_event now n s = Some s' \<and> fs_ok s' \<and> fs_watchers s' = fs_watchers s
    \<and> fs_queue s' = fs_queue s \<and> (\<forall>k. pending_paths s k \<subseteq> pending_paths s' k)
    \<and> (\<forall>w e p. accepts s n \<longrightarrow> map_of (fs_watchers s) (fst n) = Some w \<longrightarrow> snd n = Inr e
         \<longrightarrow> p \<in> set (notify_paths e) \<longrightarrow> prefix (fs_root (watch_config w)) p
         \<longrightarrow> prefix (fs_workspace (watch_config w)) p
         \<longrightarrow> JString (relative_text (fs_workspace (watch_config w)) p) \<in> pending_paths s' (fst n))"
proof (cases "accepts s n")
  case False
  then have "handle_event now n s = Some s"
    by (auto simp: handle_event_def accepts_def split: option.split sum.split)
  with False ok show ?thesis by simp
next
  case True
  then obtain w e where w: "map_of (fs_watchers s) (fst n) = Some w" "snd n = Inr e"
    "filesystem_event_matches (notify_kind e) (fs_events (watch_config w))"
    "list_ex (prefix (fs_root (watch_config w))) (notify_paths e)" by (auto simp: accepts_def)
  let ?p = "\<lparr>pend_workflow = watch_workflow w, pend_source = watch_source w,
      pend_revision = watch_revision w, pend_trigger = watch_trigger w,
      pend_values = filesystem_trigger_values e (watch_config w),
      pend_due = now + int (fs_debounce (watch_config w)) * millisecond\<rparr>"
  from coalesce_ok [OF ok, of ?p _ "fst n"] obtain runs v m ps where
    runs: "coalesce_pending (fs_pending_runs s) (fst n) ?p = Some runs"
      "map_of runs = (map_of (fs_pending_runs s))(fst n \<mapsto> ?p\<lparr>pend_values := v\<rparr>)"
    and v: "v = JObject m" "map_of m ''paths'' = Some (JArray ps)"
      "set ps = pending_paths s (fst n) \<union> set (map (\<lambda>p. JString (relative_text (fs_workspace (watch_config w)) p))
        (filter (\<lambda>p. prefix (fs_root (watch_config w)) p \<and> prefix (fs_workspace (watch_config w)) p)
          (notify_paths e)))"
    by (auto simp: paths_of_values) (auto simp: filesystem_trigger_values_def Let_def)
  let ?s = "s\<lparr>fs_pending_runs := runs\<rparr>"
  have "handle_event now n s = Some ?s" using w runs(1) by (simp add: handle_event_def)
  moreover have "fs_ok ?s" using ok runs(2) v by (auto simp: fs_ok_def)
  moreover have paths: "pending_paths ?s (fst n) = set ps"
    using runs(2) v by (simp add: pending_paths_def paths_of_def get_key_def)
  moreover have "pending_paths s k \<subseteq> pending_paths ?s k" for k
    using paths v(3) runs(2) by (cases "k = fst n") (auto simp: pending_paths_def)
  ultimately show ?thesis using w v(3) by (intro exI [of _ ?s]) auto
qed

lemma drain_ok:
  "fs_ok s \<Longrightarrow> \<exists>s'. drain_all now ns s = Some s' \<and> fs_ok s' \<and> fs_watchers s' = fs_watchers s
    \<and> fs_queue s' = fs_queue s \<and> (\<forall>k. pending_paths s k \<subseteq> pending_paths s' k)
    \<and> (\<forall>n w e p. n \<in> set ns \<longrightarrow> accepts s n \<longrightarrow> map_of (fs_watchers s) (fst n) = Some w \<longrightarrow> snd n = Inr e
         \<longrightarrow> p \<in> set (notify_paths e) \<longrightarrow> prefix (fs_root (watch_config w)) p
         \<longrightarrow> prefix (fs_workspace (watch_config w)) p
         \<longrightarrow> JString (relative_text (fs_workspace (watch_config w)) p) \<in> pending_paths s' (fst n))"
proof (induction ns arbitrary: s)
  case (Cons m ns)
  from handle_event_ok [OF Cons.prems, of now m] obtain s1 where s1: "handle_event now m s = Some s1" "fs_ok s1"
    "fs_watchers s1 = fs_watchers s" "fs_queue s1 = fs_queue s" "\<And>k. pending_paths s k \<subseteq> pending_paths s1 k"
    and new: "\<And>w e p. accepts s m \<Longrightarrow> map_of (fs_watchers s) (fst m) = Some w \<Longrightarrow> snd m = Inr e
      \<Longrightarrow> p \<in> set (notify_paths e) \<Longrightarrow> prefix (fs_root (watch_config w)) p
      \<Longrightarrow> prefix (fs_workspace (watch_config w)) p
      \<Longrightarrow> JString (relative_text (fs_workspace (watch_config w)) p) \<in> pending_paths s1 (fst m)" by blast
  have same: "accepts s1 n = accepts s n" for n by (simp add: accepts_def s1(3))
  from Cons.IH [OF s1(2)] obtain s2 where s2: "drain_all now ns s1 = Some s2" "fs_ok s2"
    "fs_watchers s2 = fs_watchers s" "fs_queue s2 = fs_queue s" "\<And>k. pending_paths s1 k \<subseteq> pending_paths s2 k"
    and later: "\<And>n w e p. n \<in> set ns \<Longrightarrow> accepts s n \<Longrightarrow> map_of (fs_watchers s) (fst n) = Some w \<Longrightarrow> snd n = Inr e
      \<Longrightarrow> p \<in> set (notify_paths e) \<Longrightarrow> prefix (fs_root (watch_config w)) p
      \<Longrightarrow> prefix (fs_workspace (watch_config w)) p
      \<Longrightarrow> JString (relative_text (fs_workspace (watch_config w)) p) \<in> pending_paths s2 (fst n)"
    unfolding same s1(3,4) by blast
  show ?case
  proof (intro exI [of _ s2] conjI allI impI)
    show "drain_all now (m # ns) s = Some s2" by (simp add: s1(1) s2(1))
    show "pending_paths s k \<subseteq> pending_paths s2 k" for k using s1(5) s2(5) by blast
    show "JString (relative_text (fs_workspace (watch_config w)) p) \<in> pending_paths s2 (fst n)"
      if "n \<in> set (m # ns)" "accepts s n" "map_of (fs_watchers s) (fst n) = Some w" "snd n = Inr e"
        "p \<in> set (notify_paths e)" "prefix (fs_root (watch_config w)) p"
        "prefix (fs_workspace (watch_config w)) p" for n w e p
      using that later [OF _ that(2-7)] new [of w e p] s2(5) by auto
  qed (rule s2)+
qed auto


definition watched_event :: fs_event where
  "watched_event = \<lparr>notify_kind = NotifyCreate, notify_paths = [[''ws'', ''in'', ''a'']]\<rparr>"

definition sample_document :: workflow_document where
  "sample_document = \<lparr>api_version = [], kind = [],
     metadata = \<lparr>meta_id = ''w'', meta_name = [], meta_description = None, meta_labels = []\<rparr>,
     doc_inputs = JNull, triggers = [], entry = [], nodes = [], outputs = [],
     policy = \<lparr>timeout = None, max_parallel_nodes = None, concurrency = None, ai = None\<rparr>, layout = []\<rparr>"

definition watching :: fs_scheduler where
  "watching = \<lparr>fs_queue = [(''w/t'', Inr watched_event)],
     fs_watchers = [(''w/t'', \<lparr>watch_workflow = sample_document, watch_source = [], watch_revision = ''r'',
       watch_trigger = tick_trigger, watch_config = \<lparr>fs_workspace = [''ws''], fs_root = [''ws'', ''in''],
         fs_events = {Created}, fs_debounce = 500\<rparr>, watch_overflow = 0\<rparr>)],
     fs_pending_runs = []\<rparr>"


end
