(* ===== verification/Workflow_Revisions.thy ===== *)
theory Workflow_Revisions
  imports Plugin_Pins
begin

text \<open>
  Workflows and their revisions: only the three operations that store a source change the name, source or
  revision of a workflow, each gets a revision that never existed before, and so an update made on an
  outdated revision is always refused.
\<close>

section \<open>What the other commands keep\<close>

definition wf_core :: "workflow_row \<Rightarrow> string \<times> string \<times> string \<times> string" where
  "wf_core r = (wf_id r, wf_name r, wf_source r, wf_revision r)"

fun stores_source :: "store_command \<Rightarrow> bool" where
  "stores_source (CreateWorkflow revision now doc source status) = True"
| "stores_source (UpsertWorkflow revision now doc source status) = True"
| "stores_source (UpdateWorkflow revision now doc source expected) = True"
| "stores_source c = False"

definition same_sources :: "store \<Rightarrow> store \<Rightarrow> bool" where
  "same_sources s s' \<longleftrightarrow>
     map wf_core (workflow_rows s') = map wf_core (workflow_rows s) \<and> revision_rows s' = revision_rows s"

lemma same_sources_rows:
  "workflow_rows s' = workflow_rows s \<Longrightarrow> revision_rows s' = revision_rows s \<Longrightarrow> same_sources s s'"
  by (simp add: same_sources_def)

lemma same_sources_refl [simp]: "same_sources s s"
  by (simp add: same_sources_def)

lemma same_sources_trans: "same_sources s t \<Longrightarrow> same_sources t u \<Longrightarrow> same_sources s u"
  by (simp add: same_sources_def)

lemma same_sources_blocks [simp]:
  "same_sources s (append_event t r x p now s') = same_sources s s'"
  "same_sources s (close_spans i st now err s') = same_sources s s'"
  "same_sources s (update_execution i f s') = same_sources s s'"
  by (simp_all add: same_sources_def append_event_def close_spans_def update_execution_def Let_def)

lemma same_sources_pins: "same_but_pins s s' \<Longrightarrow> same_sources s s'"
  unfolding same_but_pins_def
  by (rule same_sources_rows) (metis store.select_convs(1) store.surjective store.update_convs(13),
      metis store.select_convs(16) store.surjective store.update_convs(13))

lemma core_update:
  "(\<And>r. wf_core (f r) = wf_core r) \<Longrightarrow> map wf_core (update_rows p f rs) = map wf_core rs"
  by (rule map_id_update_rows)

lemma same_sources_block: "block_workflows p now ws s = Inr s' \<Longrightarrow> same_sources s s'"
proof (induction ws arbitrary: s)
  case (Cons w ws)
  let ?s = "s\<lparr>workflow_rows := update_rows (\<lambda>r. wf_id r = w)
      (\<lambda>r. r\<lparr>wf_status := ''disabled'', wf_updated := now\<rparr>) (workflow_rows s),
      removal_rows := List.insert (p, w) (removal_rows s)\<rparr>"
  have "same_sources s ?s" by (simp add: same_sources_def core_update wf_core_def)
  with Cons same_sources_trans [of s ?s s'] show ?case by (auto split: if_splits)
qed simp

lemma same_sources_recover: "same_sources s s' \<Longrightarrow> same_sources s (fold (recover_execution now) es s')"
  by (induction es arbitrary: s') (auto simp: recover_execution_def split: prod.split)

lemma same_sources_admit:
  assumes "create_execution_with_plan_guarded decode i now w revision plan identity req plugins s
    = Inr ((e, True), s')"
  shows "same_sources s s'"
proof -
  from assms obtain status s2 s3 where *:
    "pin_plugins i plugins (s\<lparr>execution_rows := execution_rows s @ [e]\<rparr>) = Inr s2"
    "save_plan i now revision plan identity s2 = Inr s3"
    "s' = append_event (started_event status) w (Some i) (started_payload w status) now s3"
    by (rule admit_cases) blast+
  have "same_sources s (s\<lparr>execution_rows := execution_rows s @ [e]\<rparr>)" by (simp add: same_sources_def)
  moreover have "same_sources s2 s3"
    using *(2) by (auto simp: save_plan_def Let_def same_sources_def split: option.splits if_splits)
  ultimately show ?thesis
    using same_sources_trans same_sources_pins [OF pin_plugins_same [OF *(1)]] unfolding *(3) same_sources_blocks
    by blast
qed

lemma publish_sources [simp]: "same_sources s (publish_plugin r s)"
  by (simp add: publish_plugin_def same_sources_def)

lemma same_sources_command:
  assumes "\<not> stores_source c"
  shows "same_sources s (apply_command env c s)"
proof (cases c)
  case (Admit i now w revision plan identity req plugins)
  show ?thesis
    by (rule apply_admit_cases [of env i now w revision plan identity req plugins s])
      (use Admit in \<open>auto dest: same_sources_admit\<close>)
next
  case (Recover now)
  then show ?thesis by (simp add: recover_incomplete_executions_def same_sources_recover)
next
  case (RequestRemoval p now ws)
  show ?thesis
  proof (cases "request_plugin_removal p now ws s")
    case (Inr x)
    then obtain s' where *: "snd x = s'" and b: "block_workflows p now ws (s\<lparr>lifecycle_rows := update_rows (\<lambda>l. life_plugin l = p)
        (\<lambda>l. l\<lparr>life_status := ''pending removal'', life_failure := None,
          life_requested := (case life_requested l of None \<Rightarrow> Some now | r \<Rightarrow> r)\<rparr>) (lifecycle_rows s),
        plugin_rows := update_rows (\<lambda>r. plugin_id r = p) (\<lambda>r. r\<lparr>plugin_enabled := False\<rparr>) (plugin_rows s)\<rparr>) = Inr s'"
      by (auto simp: request_plugin_removal_def rbind_Inr split: if_splits)
    from same_sources_block [OF b] have "same_sources s s'" by (simp add: same_sources_def)
    with * RequestRemoval Inr show ?thesis by (simp add: after_def)
  qed (use RequestRemoval in \<open>simp add: after_def\<close>)
next
  case (AcquireUses i ps)
  then show ?thesis
    by (auto simp: after_def acquire_plugin_uses_def dest!: acquire_each_same intro: same_sources_pins
        split: sum.split if_splits)
next
  case (UpsertPlugin r src)
  have "same_sources s (publish_plugin r s\<lparr>lifecycle_rows := l\<rparr>)" for l
    using publish_sources [of s r] by (simp add: same_sources_def)
  with UpsertPlugin show ?thesis
    by (auto simp: after_def upsert_plugin_install_with_source_def rbind_unit_Inr Let_def
        split: sum.splits option.splits if_splits)
next
  case (Finish i now status err)
  then show ?thesis by (cases "execution_row_of s i") (auto simp: after_def finish_execution_def)
next
  case (SetWorkflowStatus w now status)
  then show ?thesis
    by (auto simp: after_def set_workflow_status_def rbind_unit_Inr same_sources_def core_update wf_core_def
        append_event_def split: sum.split)
next
  case (SetStatusIfRevision w now status expected)
  then show ?thesis
    by (auto simp: after_def set_workflow_status_if_revision_def rbind_unit_Inr same_sources_def core_update
        wf_core_def append_event_def split: sum.split option.splits if_splits)
next
  case (Create i now w)
  then show ?thesis
    by (auto simp: after_def create_execution_def insert_execution_def Let_def same_sources_def append_event_def)
next
  case (Cancel i)
  then show ?thesis by (cases "execution_row_of s i") (auto simp: request_execution_cancel_def)
next
  case (CancelOutcome i now)
  then show ?thesis by (cases "execution_row_of s i") (auto simp: request_execution_cancel_outcome_def)
next
  case (CancelQueued i now)
  then show ?thesis by (cases "execution_row_of s i") (auto simp: cancel_queued_execution_def)
next
  case (Claim i now limit)
  then show ?thesis by (auto simp: claim_execution_slot_def Let_def split: option.split)
next
  case (RecordOutcome i n now status message r err)
  then show ?thesis
    by (cases "record_node_outcome i n now status message r err s")
      (auto simp: after_def same_sources_def append_event_def dest!: outcome_frame)
qed (use assms in \<open>auto simp: after_def begin_checkpoint_row_def complete_checkpoint_row_def
    durable_delay_remaining_def execution_time_remaining_def set_execution_result_def reserve_provider_tokens_def
    start_trace_span_def finish_trace_span_def set_execution_pinned_def apply_retention_def
    mark_plugin_removal_failed_def resume_plugin_removal_def finalize_plugin_removal_def remove_plugin_install_def
    delete_plugin_def set_plugin_enabled_def record_scheduler_event_def put_artifact_row_def delete_artifact_row_def
    Let_def rbind_unit_Inr intro!: same_sources_rows
    split: sum.split option.splits if_splits\<close>)

section \<open>What storing a source adds\<close>

definition stored :: "workflow_row \<Rightarrow> store \<Rightarrow> store \<Rightarrow> bool" where
  "stored r s s' \<longleftrightarrow>
     wf_revision r \<notin> rev_id ` set (revision_rows s) \<and> revision_rows s' = revision_rows s @ [revision_of r]
     \<and> (wf_id r \<notin> wf_id ` set (workflow_rows s) \<and> workflow_rows s' = workflow_rows s @ [r]
        \<or> workflow_rows s' = update_rows (\<lambda>x. wf_id x = wf_id r) (\<lambda>_. r) (workflow_rows s))"

lemma revision_of_id [simp]: "rev_id (revision_of r) = wf_revision r" "rev_workflow (revision_of r) = wf_id r"
  "rev_source (revision_of r) = wf_source r"
  by (simp_all add: revision_of_def)

lemma insert_revision_Inr:
  "insert_revision v s = Inr s' \<longleftrightarrow> rev_id v \<notin> rev_id ` set (revision_rows s)
     \<and> s' = s\<lparr>revision_rows := revision_rows s @ [v]\<rparr>"
  by (auto simp: insert_revision_def)

lemma stored_append_event [simp]: "stored r s (append_event t x y p now s') = stored r s s'"
  by (simp add: stored_def append_event_def)

lemma workflow_of_None: "workflow_of s w = None \<longleftrightarrow> w \<notin> wf_id ` set (workflow_rows s)"
  unfolding workflow_of_def by (rule find_key_None)

lemma workflow_of_Some: "workflow_of s w = Some x \<Longrightarrow> x \<in> set (workflow_rows s) \<and> wf_id x = w"
  unfolding workflow_of_def by (rule find_key_Some)

lemma update_same_ids: "map wf_id (update_rows (\<lambda>x. wf_id x = wf_id r) (\<lambda>_. r) rs) = map wf_id rs"
  by (auto simp: update_rows_def)

lemma stored_ids: "stored r s s' \<Longrightarrow> wf_id ` set (workflow_rows s) \<subseteq> wf_id ` set (workflow_rows s')"
  unfolding stored_def by (metis (no_types) Un_iff image_Un set_append set_map subsetI update_same_ids)

lemma update_stores:
  assumes "update_workflow_if_revision ok revision now doc source expected s = Inr (WorkflowUpdated r, s')"
  shows "stored r s s' \<and> wf_id r = meta_id (metadata doc) \<and> wf_source r = source
    \<and> (\<exists>x. workflow_of s (wf_id r) = Some x \<and> wf_revision x = expected)"
  using assms
  by (auto simp: update_workflow_if_revision_def rbind_unit_Inr rbind_Inr Let_def insert_revision_Inr stored_def
      append_event_def new_workflow_def split: option.splits if_splits)

lemma source_command:
  assumes "stores_source c"
  shows "apply_command env c s = s \<or> (\<exists>r. stored r s (apply_command env c s))"
proof (cases c)
  case (CreateWorkflow revision now doc source status)
  let ?r = "new_workflow doc source status revision now"
  show ?thesis
  proof (cases "create_workflow (triggers_ok env) revision now doc source status s")
    case (Inr y)
    then have "snd y = s \<or> stored ?r s (snd y)"
      by (auto simp: create_workflow_def rbind_unit_Inr rbind_Inr Let_def insert_revision_Inr stored_def
          append_event_def split: if_splits)
    with CreateWorkflow Inr show ?thesis by (auto simp: after_def)
  qed (use CreateWorkflow in \<open>simp add: after_def\<close>)
next
  case (UpsertWorkflow revision now doc source status)
  let ?r = "new_workflow doc source status revision now"
  show ?thesis
  proof (cases "upsert_workflow (triggers_ok env) revision now doc source status s")
    case (Inr y)
    then have "stored ?r s (snd y)"
      by (auto simp: upsert_workflow_def rbind_unit_Inr rbind_Inr Let_def insert_revision_Inr workflow_of_None
          stored_def append_event_def split: if_splits)
    with UpsertWorkflow Inr show ?thesis by (auto simp: after_def)
  qed (use UpsertWorkflow in \<open>simp add: after_def\<close>)
next
  case (UpdateWorkflow revision now doc source expected)
  show ?thesis
  proof (cases "update_workflow_if_revision (triggers_ok env) revision now doc source expected s")
    case (Inr y)
    obtain u s' where y: "y = (u, s')" by (cases y)
    show ?thesis
    proof (cases u)
      case (WorkflowUpdated r)
      with update_stores [of "triggers_ok env" revision now doc source expected s r s'] Inr y UpdateWorkflow
      show ?thesis by (auto simp: after_def)
    qed (use Inr y UpdateWorkflow in \<open>auto simp: after_def update_workflow_if_revision_def rbind_unit_Inr
        rbind_Inr Let_def split: option.splits if_splits\<close>)
  qed (use UpdateWorkflow in \<open>simp add: after_def\<close>)
qed (use assms in simp_all)

lemma command_sources: "same_sources s (apply_command env c s) \<or> (\<exists>r. stored r s (apply_command env c s))"
proof (cases "stores_source c")
  case True
  from source_command [OF this, of env s] show ?thesis by (metis same_sources_refl)
next
  case False
  from same_sources_command [OF this] show ?thesis ..
qed

section \<open>Revisions\<close>

definition revisions_ok :: "store \<Rightarrow> bool" where
  "revisions_ok s \<longleftrightarrow>
     distinct (map fst (map wf_core (workflow_rows s))) \<and> distinct (map rev_id (revision_rows s))
     \<and> (\<forall>(w, name, source, revision) \<in> set (map wf_core (workflow_rows s)).
          \<exists>v \<in> set (revision_rows s). rev_id v = revision \<and> rev_workflow v = w \<and> rev_source v = source)"

lemma fst_core [simp]: "fst (wf_core r) = wf_id r"
  by (simp add: wf_core_def)

lemma revisions_ok_same: "same_sources s s' \<Longrightarrow> revisions_ok s \<Longrightarrow> revisions_ok s'"
  unfolding revisions_ok_def same_sources_def by (elim conjE) (simp only: simp_thms)

lemma revisions_ok_stored:
  assumes "revisions_ok s" and "stored r s s'"
  shows "revisions_ok s'"
proof -
  have rows: "set (workflow_rows s') \<subseteq> insert r (set (workflow_rows s))"
    using assms(2) by (auto simp: stored_def set_update_rows)
  have ids: "distinct (map wf_id (workflow_rows s'))"
    using assms by (auto simp: revisions_ok_def stored_def comp_def update_same_ids)
  have known: "\<exists>v \<in> set (revision_rows s'). rev_id v = wf_revision x \<and> rev_workflow v = wf_id x \<and> rev_source v = wf_source x"
    if "x \<in> set (workflow_rows s')" for x
  proof (cases "x = r")
    case True
    with assms(2) show ?thesis by (auto simp: stored_def)
  next
    case False
    with that rows have "x \<in> set (workflow_rows s)" by auto
    with assms show ?thesis unfolding revisions_ok_def stored_def by (force simp: wf_core_def)
  qed
  show ?thesis
    using assms ids known unfolding revisions_ok_def by (auto simp: stored_def comp_def wf_core_def)
qed

lemma revisions_ok_command: "revisions_ok s \<Longrightarrow> revisions_ok (apply_command env c s)"
  using command_sources [of s env c] revisions_ok_same revisions_ok_stored by blast

interpretation revisions: store_invariant env revisions_ok for env
  by unfold_locales (rule revisions_ok_command)

text \<open>A revision that a workflow had and no longer has.\<close>

definition retired :: "string \<Rightarrow> string \<Rightarrow> store \<Rightarrow> bool" where
  "retired w revision s \<longleftrightarrow> revision \<in> rev_id ` set (revision_rows s) \<and> w \<in> fst ` set (map wf_core (workflow_rows s))
     \<and> (\<forall>(w', name, source, revision') \<in> set (map wf_core (workflow_rows s)). w' = w \<longrightarrow> revision' \<noteq> revision)"

lemma retired_stored:
  assumes "retired w revision s" and "stored r s s'"
  shows "retired w revision s'"
proof -
  have rows: "set (workflow_rows s') \<subseteq> insert r (set (workflow_rows s))"
    using assms(2) by (auto simp: stored_def set_update_rows)
  have "wf_revision r \<noteq> revision" using assms by (auto simp: retired_def stored_def)
  then show ?thesis
    using assms rows stored_ids [OF assms(2)] by (auto simp: retired_def stored_def wf_core_def image_image)
qed

lemma retired_same: "same_sources s s' \<Longrightarrow> retired w revision s \<Longrightarrow> retired w revision s'"
  unfolding retired_def same_sources_def by (elim conjE) (simp only: simp_thms)

lemma retired_step: "retired w revision s \<Longrightarrow> retired w revision (apply_command env c s)"
  using command_sources [of s env c] retired_stored retired_same by blast

interpretation retired_revision: store_invariant env "retired w revision" for env w revision
  by unfold_locales (rule retired_step)

lemma retired_conflict:
  assumes "retired (meta_id (metadata doc)) expected s"
  shows "\<exists>current. update_workflow_if_revision ok revision now doc source expected s
    = Inr (WorkflowConflict current, s)"
proof (cases "workflow_of s (meta_id (metadata doc))")
  case None
  with assms show ?thesis by (auto simp: workflow_of_None retired_def image_image)
next
  case (Some x)
  with assms workflow_of_Some [OF Some] have "wf_revision x \<noteq> expected"
    by (auto simp: retired_def wf_core_def)
  with Some show ?thesis by (simp add: update_workflow_if_revision_def)
qed

lemma update_retires:
  assumes "revisions_ok s"
    and "update_workflow_if_revision ok revision now doc source expected s = Inr (WorkflowUpdated r, s')"
  shows "retired (meta_id (metadata doc)) expected s'"
proof -
  from update_stores [OF assms(2)] obtain x where r: "stored r s s'" "wf_id r = meta_id (metadata doc)"
    and x: "workflow_of s (wf_id r) = Some x" "wf_revision x = expected" by blast
  from workflow_of_Some [OF x(1)] have row: "x \<in> set (workflow_rows s)" "wf_id x = wf_id r" by auto
  with assms(1) x(2) have known: "expected \<in> rev_id ` set (revision_rows s)"
    unfolding revisions_ok_def by (force simp: wf_core_def)
  have new: "workflow_rows s' = update_rows (\<lambda>y. wf_id y = wf_id r) (\<lambda>_. r) (workflow_rows s)"
    "wf_revision r \<noteq> expected" using r(1) row known by (auto simp: stored_def image_iff)
  have "wf_id r \<in> wf_id ` set (workflow_rows s')" using stored_ids [OF r(1)] row by (metis image_eqI subsetD)
  with new known r show ?thesis
    by (auto simp: retired_def stored_def wf_core_def set_update_rows image_image)
qed

text \<open>C19: No update is lost: once an update of a workflow made on a revision has succeeded, every further update
  made on that revision is refused as a conflict and changes nothing, whatever commands come in between and
  whatever revisions they draw.\<close>

theorem outdated_update_is_refused:
  assumes "revisions_ok s"
    and "update_workflow_if_revision ok revision now doc source expected s = Inr (WorkflowUpdated r, s')"
    and "meta_id (metadata doc') = meta_id (metadata doc)"
  shows "\<exists>current. update_workflow_if_revision ok' revision' now' doc' source' expected (run_commands env cs s')
    = Inr (WorkflowConflict current, run_commands env cs s')"
  using retired_conflict retired_revision.run [OF update_retires [OF assms(1,2)]] assms(3) by metis

definition small_document :: workflow_document where
  "small_document = \<lparr>api_version = [], kind = [],
     metadata = \<lparr>meta_id = ''w'', meta_name = ''W'', meta_description = None, meta_labels = []\<rparr>,
     doc_inputs = JNull, triggers = [], entry = [], nodes = [], outputs = [],
     policy = \<lparr>timeout = None, max_parallel_nodes = None, concurrency = None, ai = None\<rparr>, layout = []\<rparr>"

definition small_store :: store where
  "small_store =
     \<lparr>workflow_rows = [new_workflow small_document ''a'' ''disabled'' ''r1'' 1], execution_rows = [], plan_rows = [],
      result_rows = [], idempotency_rows = [], checkpoint_rows = [], deadline_rows = [], reservation_rows = [],
      span_rows = [], plugin_rows = [], lifecycle_rows = [], removal_rows = [], pin_rows = [], event_rows = [],
      event_sequence = 0,
      revision_rows = [revision_of (new_workflow small_document ''a'' ''disabled'' ''r1'' 1)],
      node_run_rows = [], artifact_rows = [], link_rows = []\<rparr>"

lemma small_update:
  "update_workflow_if_revision (\<lambda>_. Inr ()) ''r2'' 2 small_document ''b'' ''r1'' small_store
    = Inr (WorkflowUpdated (new_workflow small_document ''b'' ''disabled'' ''r2'' 2),
        append_event ''workflow.updated'' ''w'' None
          (workflow_payload (new_workflow small_document ''b'' ''disabled'' ''r2'' 2)) 2
          (small_store\<lparr>workflow_rows := [new_workflow small_document ''b'' ''disabled'' ''r2'' 2],
             revision_rows := revision_rows small_store @
               [revision_of (new_workflow small_document ''b'' ''disabled'' ''r2'' 2)]\<rparr>))"
  by (simp add: update_workflow_if_revision_def workflow_of_def small_store_def new_workflow_def small_document_def
      check_triggers_def insert_revision_def revision_of_def update_rows_def Let_def)

lemma small_store_ok: "revisions_ok small_store"
  by (simp add: revisions_ok_def small_store_def new_workflow_def wf_core_def)

definition small_env :: store_env where
  "small_env = \<lparr>decode_policy = (\<lambda>_. Inl ''no plan''), source_ok = (\<lambda>_. Inr ()), triggers_ok = (\<lambda>_. Inr ())\<rparr>"

theorem outdated_update_is_refused_witness:
  "\<exists>s' current. update_workflow_if_revision (\<lambda>_. Inr ()) ''r3'' 3 small_document ''c'' ''r1'' s'
    = Inr (WorkflowConflict current, s')"
  using outdated_update_is_refused [OF small_store_ok small_update refl,
      where ok' = "\<lambda>_. Inr ()" and revision' = "''r3''" and now' = 3 and source' = "''c''" and env = small_env
        and cs = "[]"]
  by blast

end
