(* ===== verification/Lifecycle.thy ===== *)
theory Lifecycle
  imports Prelude
begin

text \<open>
  The life of a Core process (\<open>src/lifecycle/mod.rs\<close>, \<open>execution.rs\<close>): deadlines and the book that keeps
  one deadline per phase, the admission of work with its permits, and the phase of the process with the
  operations that publish readiness and begin shutdown.

  Each operation of the coordinator holds one lock and is one step.  The operations on the phase are sequences
  of atomic steps, and several threads may be in the middle of one: \<open>core_step\<close> interleaves them.  Nothing
  inside a critical section can panic, so that the lock is never poisoned.  Durations are nanoseconds.
\<close>

section \<open>Errors and deadlines\<close>

datatype lifecycle_error =
    DeadlineExpired string
  | OwnershipBusy
  | UnsafeOwnership string
  | UnsupportedSchema nat
  | UnverifiedProcess
  | ModeNotControllable string
  | MessageTooLarge nat
  | AuthenticationFailed
  | ChallengeConsumed
  | WrongOwner
  | InsecureProtection string
  | RandomnessFailed
  | UnconfirmedSuccess
  | AccessDenied string
  | ManagerUnavailable string
  | ConflictingServiceDefinition string
  | ServiceNotInstalled
  | UnresolvedServiceAttempt string
  | ServiceStateUnconfirmed
  | HelperUnreaped nat
  | LifecycleIo string
  | SerializationFailed string

fun error_message :: "lifecycle_error \<Rightarrow> string" where
  "error_message (DeadlineExpired phase) = ''lifecycle deadline expired during '' @ phase"
| "error_message OwnershipBusy = ''lifecycle ownership is busy''"
| "error_message (UnsafeOwnership e) = ''lifecycle ownership evidence is unknown or unsafe: '' @ e"
| "error_message (UnsupportedSchema n) = ''unsupported lifecycle metadata schema version '' @ show_nat n"
| "error_message UnverifiedProcess = ''process identity could not be verified''"
| "error_message (ModeNotControllable m) = ''lifecycle operation is not allowed for mode '' @ m"
| "error_message (MessageTooLarge n) = ''lifecycle message exceeds the '' @ show_nat n @ ''-byte limit''"
| "error_message AuthenticationFailed = ''lifecycle authentication failed''"
| "error_message ChallengeConsumed = ''lifecycle challenge has already been consumed''"
| "error_message WrongOwner = ''lifecycle client OS account does not match the verified owner''"
| "error_message (InsecureProtection e) = ''owner-protected capability storage is unavailable or unverified: '' @ e"
| "error_message RandomnessFailed = ''operating-system cryptographic randomness failed''"
| "error_message UnconfirmedSuccess = ''lifecycle success was requested without a confirmed state''"
| "error_message (AccessDenied e) = ''access to the native service manager was denied: '' @ e"
| "error_message (ManagerUnavailable e) = ''native service manager is unavailable: '' @ e"
| "error_message (ConflictingServiceDefinition e) =
     ''native service definition conflicts with the requested Kakune definition: '' @ e"
| "error_message ServiceNotInstalled = ''the requested native service is not installed''"
| "error_message (UnresolvedServiceAttempt e) = ''an unresolved service mutation blocks further changes: '' @ e"
| "error_message ServiceStateUnconfirmed = ''native service or Core did not reach the requested state''"
| "error_message (HelperUnreaped n) = ''owned native helper process '' @ show_nat n @ '' could not be confirmed reaped''"
| "error_message (LifecycleIo e) = ''lifecycle I/O failed: '' @ e"
| "error_message (SerializationFailed e) = ''lifecycle serialization failed: '' @ e"

type_synonym 'a lifecycle_result = "(lifecycle_error, 'a) result"

definition from_secs :: "nat \<Rightarrow> nat" where "from_secs n = n * 1000000000"

definition from_millis :: "nat \<Rightarrow> nat" where "from_millis n = n * 1000000"

text \<open>\<open>Duration::MAX\<close>, at which additions saturate.\<close>

definition duration_max :: nat where "duration_max = (2 ^ 64 - 1) * 1000000000 + 999999999"

datatype deadline = Deadline (endpoint: nat)

definition deadline_after :: "nat \<Rightarrow> nat \<Rightarrow> deadline" where
  "deadline_after now budget = Deadline (min duration_max (now + budget))"

definition deadline_remaining :: "deadline \<Rightarrow> nat \<Rightarrow> nat" where
  "deadline_remaining d now = endpoint d - now"

definition deadline_cap :: "deadline \<Rightarrow> nat \<Rightarrow> nat \<Rightarrow> deadline" where
  "deadline_cap d now maximum = Deadline (min (endpoint d) (min duration_max (now + maximum)))"

definition is_expired_at :: "deadline \<Rightarrow> nat \<Rightarrow> bool" where
  "is_expired_at d now = (deadline_remaining d now = 0)"

datatype lifecycle_budget =
    Readiness | CoreGrace | Acquisition | Status | Preflight | Helper | Install | StopDispatch | Removal
  | InstallCommand | StartCommand | StopCommand | UninstallCommand

definition budget_duration :: "lifecycle_budget \<Rightarrow> nat" where
  "budget_duration b = from_secs
     (case b of
        Readiness \<Rightarrow> 30 | CoreGrace \<Rightarrow> 30 | Acquisition \<Rightarrow> 10 | Status \<Rightarrow> 10 | Preflight \<Rightarrow> 10 | Helper \<Rightarrow> 10
      | Install \<Rightarrow> 30 | StopDispatch \<Rightarrow> 10 | Removal \<Rightarrow> 30
      | InstallCommand \<Rightarrow> 50 | StartCommand \<Rightarrow> 50 | StopCommand \<Rightarrow> 60 | UninstallCommand \<Rightarrow> 90)"

type_synonym deadline_book = "lifecycle_budget \<rightharpoonup> deadline"

definition start_once ::
  "lifecycle_budget \<Rightarrow> nat \<Rightarrow> deadline option \<Rightarrow> deadline_book \<Rightarrow> deadline \<times> deadline_book" where
  "start_once b now enclosing book =
     (case book b of
        Some d \<Rightarrow> (d, book)
      | None \<Rightarrow>
          (let requested = deadline_after now (budget_duration b);
               d = (if b = CoreGrace then requested
                    else (case enclosing of
                        None \<Rightarrow> requested | Some limit \<Rightarrow> Deadline (min (endpoint requested) (endpoint limit))))
           in (d, book(b \<mapsto> d))))"

section \<open>Admission\<close>

datatype tracked_state = Preparation | Queued | Active

record admission_snapshot =
  accepting :: bool
  preparation :: nat
  queued :: nat
  active :: nat

definition usize_max :: nat where "usize_max = 2 ^ 64 - 1"

definition saturating_add :: "nat \<Rightarrow> nat \<Rightarrow> nat" where
  "saturating_add a b = min usize_max (a + b)"

definition outstanding :: "admission_snapshot \<Rightarrow> nat" where
  "outstanding s = saturating_add (saturating_add (preparation s) (queued s)) (active s)"

definition is_drained :: "admission_snapshot \<Rightarrow> bool" where
  "is_drained s = (outstanding s = 0)"

record coordinator =
  snapshot :: admission_snapshot
  is_sealed :: bool

definition new_coordinator :: coordinator where
  "new_coordinator = \<lparr>snapshot = \<lparr>accepting = True, preparation = 0, queued = 0, active = 0\<rparr>, is_sealed = False\<rparr>"

definition closed_coordinator :: coordinator where
  "closed_coordinator = \<lparr>snapshot = \<lparr>accepting = False, preparation = 0, queued = 0, active = 0\<rparr>, is_sealed = False\<rparr>"

text \<open>A permit is an object of the process, so that there are always fewer than \<open>usize::MAX\<close> of them and the
  additions of \<open>increment\<close> do not overflow.\<close>

fun increment :: "tracked_state \<Rightarrow> admission_snapshot \<Rightarrow> admission_snapshot" where
  "increment Preparation s = s\<lparr>preparation := preparation s + 1\<rparr>"
| "increment Queued s = s\<lparr>queued := queued s + 1\<rparr>"
| "increment Active s = s\<lparr>active := active s + 1\<rparr>"

fun decrement :: "tracked_state \<Rightarrow> admission_snapshot \<Rightarrow> admission_snapshot" where
  "decrement Preparation s = s\<lparr>preparation := preparation s - 1\<rparr>"
| "decrement Queued s = s\<lparr>queued := queued s - 1\<rparr>"
| "decrement Active s = s\<lparr>active := active s - 1\<rparr>"

definition open_admission :: "coordinator \<Rightarrow> coordinator lifecycle_result" where
  "open_admission c =
     (if is_sealed c then Inl (UnsafeOwnership ''execution admission cannot reopen after shutdown begins'')
      else Inr (c\<lparr>snapshot := (snapshot c)\<lparr>accepting := True\<rparr>\<rparr>))"

definition close_admission :: "coordinator \<Rightarrow> admission_snapshot \<times> coordinator" where
  "close_admission c =
     (let s = (snapshot c)\<lparr>accepting := False\<rparr> in (s, c\<lparr>snapshot := s, is_sealed := True\<rparr>))"

record task_permit =
  permit_state :: tracked_state
  released :: bool

definition admit :: "tracked_state \<Rightarrow> coordinator \<Rightarrow> (task_permit \<times> coordinator) lifecycle_result" where
  "admit st c =
     (if \<not> accepting (snapshot c) then Inl (UnsafeOwnership ''execution admission is closed'')
      else Inr (\<lparr>permit_state = st, released = False\<rparr>, c\<lparr>snapshot := increment st (snapshot c)\<rparr>))"

definition transition_allowed :: "tracked_state \<Rightarrow> tracked_state \<Rightarrow> bool" where
  "transition_allowed st st' = (st = Preparation \<and> st' = Queued \<or> st = Queued \<and> st' = Active)"

definition permit_transition ::
  "tracked_state \<Rightarrow> task_permit \<Rightarrow> coordinator \<Rightarrow> (task_permit \<times> coordinator) lifecycle_result" where
  "permit_transition st p c =
     (if \<not> transition_allowed (permit_state p) st
      then Inl (UnsafeOwnership ''invalid execution admission state transition'')
      else Inr (p\<lparr>permit_state := st\<rparr>,
        c\<lparr>snapshot := increment st (decrement (permit_state p) (snapshot c))\<rparr>))"

definition release_inner :: "task_permit \<Rightarrow> coordinator \<Rightarrow> task_permit \<times> coordinator" where
  "release_inner p c =
     (if released p then (p, c)
      else (p\<lparr>released := True\<rparr>, c\<lparr>snapshot := decrement (permit_state p) (snapshot c)\<rparr>))"

text \<open>The waiting loops see the coordinator and the clock whenever they wake up; \<open>None\<close> when the wake-ups given
  are used up.\<close>

fun wait_for_drain :: "deadline \<Rightarrow> (coordinator \<times> nat) list \<Rightarrow> admission_snapshot lifecycle_result option" where
  "wait_for_drain d [] = None"
| "wait_for_drain d ((c, now) # ws) =
     (if is_drained (snapshot c) then Some (Inr (snapshot c))
      else if deadline_remaining d now = 0 then Some (Inl (DeadlineExpired ''execution drain''))
      else wait_for_drain d ws)"

fun wait_until_drained :: "coordinator list \<Rightarrow> admission_snapshot option" where
  "wait_until_drained [] = None"
| "wait_until_drained (c # ws) = (if is_drained (snapshot c) then Some (snapshot c) else wait_until_drained ws)"

section \<open>The phase of a Core\<close>

datatype lifecycle_phase = Starting | Ready | Stopping | Failed

fun from_byte :: "nat \<Rightarrow> lifecycle_phase" where
  "from_byte n = (if n = 1 then Ready else if n = 2 then Stopping else if n = 3 then Failed else Starting)"

fun to_byte :: "lifecycle_phase \<Rightarrow> nat" where
  "to_byte Starting = 0"
| "to_byte Ready = 1"
| "to_byte Stopping = 2"
| "to_byte Failed = 3"

record core_lifecycle =
  phase_byte :: nat
  admission :: coordinator
  shutdown_flag :: bool

definition core_with_phase :: "lifecycle_phase \<Rightarrow> core_lifecycle" where
  "core_with_phase p =
     \<lparr>phase_byte = to_byte p, admission = (if p = Ready then new_coordinator else closed_coordinator),
      shutdown_flag = False\<rparr>"

definition core_phase :: "core_lifecycle \<Rightarrow> lifecycle_phase" where
  "core_phase l = from_byte (phase_byte l)"

text \<open>The atomic steps the operations are made of.\<close>

definition open_core :: "core_lifecycle \<Rightarrow> core_lifecycle lifecycle_result" where
  "open_core l = rbind (open_admission (admission l)) (\<lambda>c. Inr (l\<lparr>admission := c\<rparr>))"

definition close_core :: "core_lifecycle \<Rightarrow> admission_snapshot \<times> core_lifecycle" where
  "close_core l = (case close_admission (admission l) of (s, c) \<Rightarrow> (s, l\<lparr>admission := c\<rparr>))"

definition publish_ready :: "core_lifecycle \<Rightarrow> unit lifecycle_result \<times> core_lifecycle" where
  "publish_ready l =
     (if phase_byte l = to_byte Starting then (Inr (), l\<lparr>phase_byte := to_byte Ready\<rparr>)
      else (Inl (UnsafeOwnership ''Core readiness can only be published while starting''), l))"

definition signal_shutdown :: "core_lifecycle \<Rightarrow> core_lifecycle" where
  "signal_shutdown l = l\<lparr>shutdown_flag := True\<rparr>"

definition store_phase :: "lifecycle_phase \<Rightarrow> core_lifecycle \<Rightarrow> core_lifecycle" where
  "store_phase p l = l\<lparr>phase_byte := to_byte p\<rparr>"

definition restore_failed :: "nat \<Rightarrow> core_lifecycle \<Rightarrow> core_lifecycle" where
  "restore_failed previous l = (if from_byte previous = Failed then store_phase Failed l else l)"

definition mark_ready :: "core_lifecycle \<Rightarrow> unit lifecycle_result \<times> core_lifecycle" where
  "mark_ready l = (case open_core l of Inl e \<Rightarrow> (Inl e, l) | Inr l' \<Rightarrow> publish_ready l')"

definition begin_stopping :: "core_lifecycle \<Rightarrow> admission_snapshot \<times> core_lifecycle" where
  "begin_stopping l =
     (case close_core l of (s, l1) \<Rightarrow>
        (let l2 = signal_shutdown l1 in (s, restore_failed (phase_byte l2) (store_phase Stopping l2))))"

definition mark_failed :: "core_lifecycle \<Rightarrow> admission_snapshot \<times> core_lifecycle" where
  "mark_failed l = (case close_core l of (s, l1) \<Rightarrow> (s, store_phase Failed (signal_shutdown l1)))"

section \<open>Interleaving\<close>

text \<open>Where a thread stands inside an operation on the phase.\<close>

datatype pending = ReadyOpened | StopClosed | StopSignalled | StopSwapped nat | FailClosed | FailSignalled

record core_state =
  lifecycle :: core_lifecycle
  permits :: "task_permit list"
  inflight :: "pending list"

abbreviation coordinator_of :: "core_state \<Rightarrow> coordinator" where
  "coordinator_of s \<equiv> admission (lifecycle s)"

definition advance :: "pending \<Rightarrow> pending list \<Rightarrow> core_lifecycle \<Rightarrow> core_state \<Rightarrow> core_state" where
  "advance t ts l s = s\<lparr>lifecycle := l, inflight := ts @ remove1 t (inflight s)\<rparr>"

definition with_permits :: "coordinator \<Rightarrow> task_permit list \<Rightarrow> core_state \<Rightarrow> core_state" where
  "with_permits c ps s = s\<lparr>lifecycle := (lifecycle s)\<lparr>admission := c\<rparr>, permits := ps\<rparr>"

text \<open>One atomic step of some thread.  A permit that was released is gone, so that it cannot change its state.\<close>

inductive core_step :: "core_state \<Rightarrow> core_state \<Rightarrow> bool" where
  ready_open: "open_core (lifecycle s) = Inr l
    \<Longrightarrow> core_step s (s\<lparr>lifecycle := l, inflight := ReadyOpened # inflight s\<rparr>)"
| ready_publish: "ReadyOpened \<in> set (inflight s)
    \<Longrightarrow> core_step s (advance ReadyOpened [] (snd (publish_ready (lifecycle s))) s)"
| stop_close: "core_step s (s\<lparr>lifecycle := snd (close_core (lifecycle s)), inflight := StopClosed # inflight s\<rparr>)"
| stop_signal: "StopClosed \<in> set (inflight s)
    \<Longrightarrow> core_step s (advance StopClosed [StopSignalled] (signal_shutdown (lifecycle s)) s)"
| stop_swap: "StopSignalled \<in> set (inflight s)
    \<Longrightarrow> core_step s (advance StopSignalled [StopSwapped (phase_byte (lifecycle s))] (store_phase Stopping (lifecycle s)) s)"
| stop_restore: "StopSwapped previous \<in> set (inflight s)
    \<Longrightarrow> core_step s (advance (StopSwapped previous) [] (restore_failed previous (lifecycle s)) s)"
| fail_close: "core_step s (s\<lparr>lifecycle := snd (close_core (lifecycle s)), inflight := FailClosed # inflight s\<rparr>)"
| fail_signal: "FailClosed \<in> set (inflight s)
    \<Longrightarrow> core_step s (advance FailClosed [FailSignalled] (signal_shutdown (lifecycle s)) s)"
| fail_store: "FailSignalled \<in> set (inflight s)
    \<Longrightarrow> core_step s (advance FailSignalled [] (store_phase Failed (lifecycle s)) s)"
| permit_admit: "admit st (coordinator_of s) = Inr (p, c) \<Longrightarrow> core_step s (with_permits c (permits s @ [p]) s)"
| permit_move: "k < length (permits s) \<Longrightarrow> \<not> released (permits s ! k)
    \<Longrightarrow> permit_transition st (permits s ! k) (coordinator_of s) = Inr (p, c)
    \<Longrightarrow> core_step s (with_permits c ((permits s)[k := p]) s)"
| permit_release: "k < length (permits s) \<Longrightarrow> release_inner (permits s ! k) (coordinator_of s) = (p, c)
    \<Longrightarrow> core_step s (with_permits c ((permits s)[k := p]) s)"

definition initial_core :: "lifecycle_phase \<Rightarrow> core_state" where
  "initial_core p = \<lparr>lifecycle = core_with_phase p, permits = [], inflight = []\<rparr>"

definition core_reachable :: "core_state \<Rightarrow> bool" where
  "core_reachable s = (\<exists>p \<in> {Starting, Ready}. core_step\<^sup>*\<^sup>* (initial_core p) s)"

text \<open>A property that every step keeps is kept by every run.\<close>

locale core_invariant =
  fixes inv :: "core_state \<Rightarrow> bool"
  assumes step: "inv s \<Longrightarrow> core_step s s' \<Longrightarrow> inv s'"
begin

lemma run: "core_step\<^sup>*\<^sup>* s s' \<Longrightarrow> inv s \<Longrightarrow> inv s'"
  by (induction rule: rtranclp_induct) (auto intro: step)

lemma reachable:
  assumes "core_reachable s" and "inv (initial_core Starting)" and "inv (initial_core Ready)"
  shows "inv s"
  using assms run by (auto simp: core_reachable_def)

end

subsection \<open>Permits are counted\<close>

definition live :: "tracked_state \<Rightarrow> task_permit list \<Rightarrow> nat" where
  "live st ps = length (filter (\<lambda>p. \<not> released p \<and> permit_state p = st) ps)"

fun counted :: "tracked_state \<Rightarrow> admission_snapshot \<Rightarrow> nat" where
  "counted Preparation s = preparation s"
| "counted Queued s = queued s"
| "counted Active s = active s"

definition accounted :: "core_state \<Rightarrow> bool" where
  "accounted s = (\<forall>st. counted st (snapshot (coordinator_of s)) = live st (permits s))"

lemma counted_step [simp]:
  "counted st (increment st' s) = counted st s + (if st = st' then 1 else 0)"
  "counted st (decrement st' s) = counted st s - (if st = st' then 1 else 0)"
  "counted st (s\<lparr>accepting := b\<rparr>) = counted st s"
  by (cases st; cases st'; simp; fail)+

lemma accepting_step [simp]:
  "accepting (increment st s) = accepting s" "accepting (decrement st s) = accepting s"
  by (cases st; simp)+

lemma live_simps [simp]:
  "live st [] = 0"
  "live st (p # ps) = (if \<not> released p \<and> permit_state p = st then 1 else 0) + live st ps"
  "live st (ps @ qs) = live st ps + live st qs"
  by (simp_all add: live_def)

lemma live_update:
  "k < length ps \<Longrightarrow> live st (ps[k := p]) + live st [ps ! k] = live st ps + live st [p]"
proof (induction ps arbitrary: k)
  case (Cons q ps)
  then show ?case by (cases k) auto
qed simp

lemmas core_ops = open_core_def open_admission_def close_core_def close_admission_def publish_ready_def
  signal_shutdown_def store_phase_def restore_failed_def admit_def permit_transition_def release_inner_def
  advance_def with_permits_def Let_def

text \<open>A step either leaves the permits alone, with their counts, or changes one of them, with its count.\<close>

lemma core_step_permits:
  assumes "core_step s s'"
  obtains (gate) "permits s' = permits s"
      "\<And>st. counted st (snapshot (coordinator_of s')) = counted st (snapshot (coordinator_of s))"
    | (admitted) st where "accepting (snapshot (coordinator_of s))"
        "s' = with_permits ((coordinator_of s)\<lparr>snapshot := increment st (snapshot (coordinator_of s))\<rparr>)
           (permits s @ [\<lparr>permit_state = st, released = False\<rparr>]) s"
    | (moved) k st where "k < length (permits s)" "\<not> released (permits s ! k)" "permit_state (permits s ! k) \<noteq> st"
        "s' = with_permits ((coordinator_of s)\<lparr>snapshot :=
             increment st (decrement (permit_state (permits s ! k)) (snapshot (coordinator_of s)))\<rparr>)
           ((permits s)[k := (permits s ! k)\<lparr>permit_state := st\<rparr>]) s"
    | (freed) k where "k < length (permits s)" "\<not> released (permits s ! k)"
        "s' = with_permits ((coordinator_of s)\<lparr>snapshot :=
             decrement (permit_state (permits s ! k)) (snapshot (coordinator_of s))\<rparr>)
           ((permits s)[k := (permits s ! k)\<lparr>released := True\<rparr>]) s"
  using assms
proof cases
  case (permit_admit st p c)
  then show thesis by (intro admitted) (auto simp: admit_def split: if_splits)
next
  case (permit_move k st p c)
  then have "permit_state (permits s ! k) \<noteq> st"
    by (auto simp: permit_transition_def transition_allowed_def split: if_splits)
  with permit_move show thesis by (intro moved [of k st]) (auto simp: permit_transition_def split: if_splits)
next
  case (permit_release k p c)
  show thesis
  proof (cases "released (permits s ! k)")
    case True
    with permit_release show thesis by (intro gate) (auto simp: release_inner_def with_permits_def)
  next
    case False
    with permit_release show thesis by (intro freed) (auto simp: release_inner_def)
  qed
qed (rule gate; auto simp: core_ops split: if_splits)+

lemma accounted_step:
  assumes "accounted s" and "core_step s s'"
  shows "accounted s'"
proof -
  have inv: "counted st (snapshot (coordinator_of s)) = live st (permits s)" for st
    using assms(1) by (simp add: accounted_def)
  from assms(2) show ?thesis
  proof (cases rule: core_step_permits)
    case (moved k st)
    then have "counted st' (snapshot (coordinator_of s')) = live st' (permits s')" for st'
      using inv [of st'] live_update [OF moved(1), of st' "(permits s ! k)\<lparr>permit_state := st\<rparr>"]
      by (cases "st' = st"; cases "st' = permit_state (permits s ! k)") (simp_all add: with_permits_def)
    then show ?thesis by (simp add: accounted_def)
  next
    case (freed k)
    then have "counted st (snapshot (coordinator_of s')) = live st (permits s')" for st
      using inv [of st] live_update [OF freed(1), of st "(permits s ! k)\<lparr>released := True\<rparr>"]
      by (cases "st = permit_state (permits s ! k)") (simp_all add: with_permits_def)
    then show ?thesis by (simp add: accounted_def)
  qed (simp_all add: accounted_def inv with_permits_def)
qed

interpretation accounting: core_invariant accounted
  by unfold_locales (rule accounted_step)

lemma accounted_initial: "accounted (initial_core p)"
  by (simp add: accounted_def initial_core_def core_with_phase_def new_coordinator_def closed_coordinator_def)
    (metis (full_types) counted.elims counted.simps admission_snapshot.select_convs(2-4))

lemma drained_iff: "is_drained s \<longleftrightarrow> (\<forall>st. counted st s = 0)"
proof -
  have "(\<forall>st. counted st s = 0) \<longleftrightarrow> preparation s = 0 \<and> queued s = 0 \<and> active s = 0"
    by (metis counted.simps tracked_state.exhaust)
  then show ?thesis by (auto simp: is_drained_def outstanding_def saturating_add_def usize_max_def)
qed

lemma no_live_iff: "(\<forall>st. live st ps = 0) \<longleftrightarrow> list_all released ps"
  by (auto simp: live_def filter_empty_conv list_all_iff)

subsection \<open>The gate and the phase\<close>

definition closing :: "pending \<Rightarrow> bool" where
  "closing t = (t \<noteq> ReadyOpened)"

definition signalled :: "pending \<Rightarrow> bool" where
  "signalled t = (closing t \<and> t \<noteq> StopClosed \<and> t \<noteq> FailClosed)"

definition is_stopped :: "core_state \<Rightarrow> bool" where
  "is_stopped s = (phase_byte (lifecycle s) \<in> {2, 3})"

definition gate_ok :: "core_state \<Rightarrow> bool" where
  "gate_ok s \<longleftrightarrow>
     (is_sealed (coordinator_of s) \<longrightarrow> \<not> accepting (snapshot (coordinator_of s)))
   \<and> ((\<exists>t \<in> set (inflight s). closing t) \<longrightarrow> is_sealed (coordinator_of s))
   \<and> ((\<exists>t \<in> set (inflight s). signalled t) \<or> is_stopped s \<longrightarrow> is_sealed (coordinator_of s) \<and> shutdown_flag (lifecycle s))
   \<and> (accepting (snapshot (coordinator_of s)) \<longrightarrow> phase_byte (lifecycle s) = 1 \<or> ReadyOpened \<in> set (inflight s))
   \<and> phase_byte (lifecycle s) \<le> 3"

lemma core_phase_byte:
  assumes "phase_byte l \<le> 3"
  shows "core_phase l = p \<longleftrightarrow> phase_byte l = to_byte p"
proof -
  have "phase_byte l = 0 \<or> phase_byte l = 1 \<or> phase_byte l = 2 \<or> phase_byte l = 3" using assms by arith
  then show ?thesis by (cases p) (auto simp: core_phase_def)
qed

lemma in_remove1: "t' \<in> set (remove1 t ts) \<Longrightarrow> t' \<in> set ts"
  by (rule subsetD [OF set_remove1_subset])

text \<open>What the gate depends on.\<close>

definition same_gate :: "core_state \<Rightarrow> core_state \<Rightarrow> bool" where
  "same_gate s s' \<longleftrightarrow>
     is_sealed (coordinator_of s') = is_sealed (coordinator_of s)
   \<and> accepting (snapshot (coordinator_of s')) = accepting (snapshot (coordinator_of s))
   \<and> shutdown_flag (lifecycle s') = shutdown_flag (lifecycle s) \<and> phase_byte (lifecycle s') = phase_byte (lifecycle s)
   \<and> inflight s' = inflight s"

lemma gate_ok_same: "same_gate s s' \<Longrightarrow> gate_ok s \<Longrightarrow> gate_ok s'"
  unfolding same_gate_def gate_ok_def is_stopped_def by (elim conjE) (simp only: simp_thms)

lemma permit_step_gate:
  assumes "c = (coordinator_of s)\<lparr>snapshot := f (snapshot (coordinator_of s))\<rparr>" and "\<And>x. accepting (f x) = accepting x"
  shows "same_gate s (with_permits c ps s)"
  by (simp add: same_gate_def with_permits_def assms)

lemmas gate_defs = gate_ok_def is_stopped_def closing_def signalled_def

lemma gate_ok_step:
  assumes "gate_ok s" and "core_step s s'"
  shows "gate_ok s'"
  using assms(2)
proof cases
  case (ready_open l)
  with assms(1) show ?thesis by (auto simp: gate_defs open_core_def open_admission_def split: if_splits)
next
  case ready_publish
  from assms(1) have "phase_byte (lifecycle s) = 0 \<or> phase_byte (lifecycle s) = 1 \<or> is_stopped s"
    by (auto simp: gate_ok_def is_stopped_def)
  with assms(1) ready_publish show ?thesis
    by (auto simp: gate_ok_def is_stopped_def publish_ready_def advance_def dest!: in_remove1 split: if_splits)
next
  case stop_close
  with assms(1) show ?thesis by (auto simp: gate_defs close_core_def close_admission_def Let_def)
next
  case stop_signal
  with assms(1) show ?thesis by (auto simp: gate_defs signal_shutdown_def advance_def dest!: in_remove1)
next
  case stop_swap
  with assms(1) show ?thesis by (auto simp: gate_defs store_phase_def advance_def dest!: in_remove1)
next
  case (stop_restore previous)
  with assms(1) show ?thesis
    by (auto simp: gate_defs restore_failed_def store_phase_def advance_def dest!: in_remove1 split: if_splits)
next
  case fail_close
  with assms(1) show ?thesis by (auto simp: gate_defs close_core_def close_admission_def Let_def)
next
  case fail_signal
  with assms(1) show ?thesis by (auto simp: gate_defs signal_shutdown_def advance_def dest!: in_remove1)
next
  case fail_store
  with assms(1) show ?thesis by (auto simp: gate_defs store_phase_def advance_def dest!: in_remove1)
next
  case (permit_admit st p c)
  then have "c = (coordinator_of s)\<lparr>snapshot := increment st (snapshot (coordinator_of s))\<rparr>"
    by (simp add: admit_def split: if_splits)
  from gate_ok_same [OF permit_step_gate [where f = "increment st", OF this] assms(1)] permit_admit show ?thesis by simp
next
  case (permit_move k st p c)
  let ?f = "\<lambda>x. increment st (decrement (permit_state (permits s ! k)) x)"
  from permit_move have "c = (coordinator_of s)\<lparr>snapshot := ?f (snapshot (coordinator_of s))\<rparr>"
    by (simp add: permit_transition_def split: if_splits)
  from gate_ok_same [OF permit_step_gate [where f = ?f, OF this] assms(1)] permit_move show ?thesis by simp
next
  case (permit_release k p c)
  let ?f = "if released (permits s ! k) then id else decrement (permit_state (permits s ! k))"
  from permit_release have "c = (coordinator_of s)\<lparr>snapshot := ?f (snapshot (coordinator_of s))\<rparr>"
    by (auto simp: release_inner_def split: if_splits)
  from gate_ok_same [OF permit_step_gate [where f = ?f, OF this] assms(1)] permit_release show ?thesis by simp
qed

interpretation gate: core_invariant gate_ok
  by unfold_locales (rule gate_ok_step)

lemma gate_ok_initial: "p \<in> {Starting, Ready} \<Longrightarrow> gate_ok (initial_core p)"
  by (auto simp: gate_ok_def initial_core_def core_with_phase_def new_coordinator_def closed_coordinator_def is_stopped_def)

lemma sealed_step: "is_sealed (coordinator_of s) \<Longrightarrow> core_step s s' \<Longrightarrow> is_sealed (coordinator_of s')"
  by (erule core_step.cases) (auto simp: core_ops split: if_splits)

text \<open>Once the gate is sealed and shut, every permit that is live was live before.\<close>

definition only_released :: "task_permit list \<Rightarrow> core_state \<Rightarrow> bool" where
  "only_released ps s \<longleftrightarrow>
     is_sealed (coordinator_of s) \<and> gate_ok s \<and> length (permits s) = length ps
   \<and> (\<forall>k < length ps. released (ps ! k) \<longrightarrow> released (permits s ! k))"

lemma only_released_step:
  assumes "only_released ps s" and "core_step s s'"
  shows "only_released ps s'"
proof -
  have old: "is_sealed (coordinator_of s)" "gate_ok s" using assms(1) by (simp_all add: only_released_def)
  then have closed: "\<not> accepting (snapshot (coordinator_of s))" by (simp add: gate_ok_def)
  have "is_sealed (coordinator_of s')" "gate_ok s'"
    by (rule sealed_step [OF old(1) assms(2)], rule gate_ok_step [OF old(2) assms(2)])
  moreover have "length (permits s') = length (permits s)
      \<and> (\<forall>k < length (permits s). released (permits s ! k) \<longrightarrow> released (permits s' ! k))"
    using assms(2)
  proof (cases rule: core_step_permits)
    case (admitted st)
    with closed show ?thesis by simp
  qed (auto simp: with_permits_def nth_list_update)
  ultimately show ?thesis using assms(1) by (simp add: only_released_def)
qed

interpretation drain: core_invariant "only_released ps" for ps
  by unfold_locales (rule only_released_step)

lemma stopped_step: "is_stopped s \<Longrightarrow> core_step s s' \<Longrightarrow> is_stopped s'"
  by (erule core_step.cases) (auto simp: core_ops is_stopped_def split: if_splits)

interpretation stopping: core_invariant is_stopped
  by unfold_locales (rule stopped_step)

text \<open>A failed Core stays failed, except that a thread that begins to stop it shows \<open>Stopping\<close> for a moment.\<close>

definition has_failed :: "core_state \<Rightarrow> bool" where
  "has_failed s \<longleftrightarrow>
     phase_byte (lifecycle s) = 3 \<or> phase_byte (lifecycle s) = 2 \<and> StopSwapped 3 \<in> set (inflight s)"

lemma has_failed_step: "has_failed s \<Longrightarrow> core_step s s' \<Longrightarrow> has_failed s'"
  by (erule core_step.cases) (auto simp: core_ops has_failed_def in_set_remove1 split: if_splits)

interpretation failing: core_invariant has_failed
  by unfold_locales (rule has_failed_step)

subsection \<open>The operations as runs\<close>

lemma mark_ready_run:
  assumes "mark_ready (lifecycle s) = (r, l)"
  shows "core_step\<^sup>*\<^sup>* s (s\<lparr>lifecycle := l\<rparr>)"
proof (cases "open_core (lifecycle s)")
  case (Inl e)
  with assms show ?thesis by (cases s) (auto simp: mark_ready_def)
next
  case (Inr l1)
  let ?s1 = "s\<lparr>lifecycle := l1, inflight := ReadyOpened # inflight s\<rparr>"
  have "core_step s ?s1" by (rule ready_open [OF Inr])
  moreover have "core_step ?s1 (advance ReadyOpened [] (snd (publish_ready (lifecycle ?s1))) ?s1)"
    by (rule ready_publish) simp
  ultimately show ?thesis using assms Inr by (simp add: mark_ready_def advance_def)
qed

lemma begin_stopping_run:
  assumes "begin_stopping (lifecycle s) = (snap, l)"
  shows "core_step\<^sup>*\<^sup>* s (s\<lparr>lifecycle := l\<rparr>)"
proof -
  define s1 where "s1 = s\<lparr>lifecycle := snd (close_core (lifecycle s)), inflight := StopClosed # inflight s\<rparr>"
  define s2 where "s2 = advance StopClosed [StopSignalled] (signal_shutdown (lifecycle s1)) s1"
  define p where "p = phase_byte (lifecycle s2)"
  define s3 where "s3 = advance StopSignalled [StopSwapped p] (store_phase Stopping (lifecycle s2)) s2"
  have "core_step s s1" unfolding s1_def by (rule stop_close)
  moreover have "core_step s1 s2" unfolding s2_def by (rule stop_signal) (simp add: s1_def)
  moreover have "core_step s2 s3" unfolding s3_def p_def by (rule stop_swap) (simp add: s2_def advance_def)
  moreover have "core_step s3 (advance (StopSwapped p) [] (restore_failed p (lifecycle s3)) s3)"
    by (rule stop_restore) (simp add: s3_def advance_def)
  moreover have "advance (StopSwapped p) [] (restore_failed p (lifecycle s3)) s3 = s\<lparr>lifecycle := l\<rparr>"
    using assms by (simp add: begin_stopping_def advance_def Let_def s1_def s2_def s3_def p_def split: prod.splits)
  ultimately show ?thesis by (metis converse_rtranclp_into_rtranclp rtranclp.rtrancl_refl)
qed

lemma mark_failed_run:
  assumes "mark_failed (lifecycle s) = (snap, l)"
  shows "core_step\<^sup>*\<^sup>* s (s\<lparr>lifecycle := l\<rparr>)"
proof -
  define s1 where "s1 = s\<lparr>lifecycle := snd (close_core (lifecycle s)), inflight := FailClosed # inflight s\<rparr>"
  define s2 where "s2 = advance FailClosed [FailSignalled] (signal_shutdown (lifecycle s1)) s1"
  have "core_step s s1" unfolding s1_def by (rule fail_close)
  moreover have "core_step s1 s2" unfolding s2_def by (rule fail_signal) (simp add: s1_def)
  moreover have "core_step s2 (advance FailSignalled [] (store_phase Failed (lifecycle s2)) s2)"
    by (rule fail_store) (simp add: s2_def advance_def)
  moreover have "advance FailSignalled [] (store_phase Failed (lifecycle s2)) s2 = s\<lparr>lifecycle := l\<rparr>"
    using assms by (simp add: mark_failed_def advance_def s1_def s2_def split: prod.splits)
  ultimately show ?thesis by (metis converse_rtranclp_into_rtranclp rtranclp.rtrancl_refl)
qed

lemma reachable_invs: "core_reachable s \<Longrightarrow> accounted s \<and> gate_ok s"
  using accounting.reachable [OF _ accounted_initial accounted_initial] gate.reachable [OF _ gate_ok_initial gate_ok_initial]
  by simp

lemma reachable_run: "core_reachable s \<Longrightarrow> core_step\<^sup>*\<^sup>* s s' \<Longrightarrow> core_reachable s'"
  unfolding core_reachable_def by (metis rtranclp_trans)

lemma sealed_run: "core_step\<^sup>*\<^sup>* s s' \<Longrightarrow> is_sealed (coordinator_of s) \<Longrightarrow> is_sealed (coordinator_of s')"
  by (induction rule: rtranclp_induct) (auto intro: sealed_step)

lemma sealed_drained_run:
  assumes "core_reachable s" and "is_sealed (coordinator_of s)" and "is_drained (snapshot (coordinator_of s))"
    and run: "core_step\<^sup>*\<^sup>* s s'"
  shows "list_all released (permits s')" and "is_drained (snapshot (coordinator_of s'))"
    and "admit st (coordinator_of s') = Inl (UnsafeOwnership ''execution admission is closed'')"
proof -
  have inv: "accounted s" "gate_ok s" using reachable_invs [OF assms(1)] by simp_all
  with assms(3) have "list_all released (permits s)" using no_live_iff by (auto simp: drained_iff accounted_def)
  moreover have "only_released (permits s) s" using assms(2) inv by (simp add: only_released_def)
  then have later: "only_released (permits s) s'" by (rule drain.run [OF run])
  ultimately show released: "list_all released (permits s')" by (auto simp: only_released_def list_all_length)
  with no_live_iff [of "permits s'"] reachable_invs [OF reachable_run [OF assms(1) run]]
  show "is_drained (snapshot (coordinator_of s'))" by (simp add: drained_iff accounted_def)
  from later show "admit st (coordinator_of s') = Inl (UnsafeOwnership ''execution admission is closed'')"
    by (simp add: only_released_def gate_ok_def admit_def)
qed

section \<open>Deadlines are kept\<close>

fun start_all ::
  "(lifecycle_budget \<times> nat \<times> deadline option) list \<Rightarrow> deadline_book \<Rightarrow> deadline list \<times> deadline_book" where
  "start_all [] book = ([], book)"
| "start_all ((b, now, enclosing) # calls) book =
     (case start_once b now enclosing book of
        (d, book') \<Rightarrow> (case start_all calls book' of (ds, book'') \<Rightarrow> (d # ds, book'')))"

lemma start_once_book:
  assumes "start_once b now enclosing book = (d, book')"
  shows "book' b = Some d" and "book b = Some d' \<Longrightarrow> d = d'" and "book b' = Some d' \<Longrightarrow> book' b' = Some d'"
    and "book b = None \<Longrightarrow> endpoint d \<le> now + budget_duration b"
    and "book b = None \<Longrightarrow> b \<noteq> CoreGrace \<Longrightarrow> enclosing = Some limit \<Longrightarrow> endpoint d \<le> endpoint limit"
    and "b' \<noteq> b \<Longrightarrow> book' b' = book b'"
  using assms by (auto simp: start_once_def Let_def deadline_after_def split: option.splits if_splits)

lemma start_all_known:
  assumes "start_all calls book = (ds, book')" and "book b = Some d" and "i < length calls" and "fst (calls ! i) = b"
  shows "ds ! i = d"
  using assms
proof (induction calls arbitrary: book ds i)
  case (Cons c calls)
  obtain b' now enclosing where c: "c = (b', now, enclosing)" by (cases c)
  obtain d' book1 where first: "start_once b' now enclosing book = (d', book1)" by fastforce
  obtain ds1 where rest: "start_all calls book1 = (ds1, book')" and ds: "ds = d' # ds1"
    using Cons.prems(1) by (auto simp: c first split: prod.splits)
  have known: "book1 b = Some d" by (rule start_once_book(3) [OF first Cons.prems(2)])
  show ?case
  proof (cases i)
    case 0
    with Cons.prems(4) start_once_book(2) [OF first, of d] Cons.prems(2) show ?thesis by (simp add: c ds)
  next
    case (Suc j)
    with Cons.IH [OF rest known] Cons.prems(3,4) show ?thesis by (simp add: ds)
  qed
qed simp

lemma start_all_first:
  assumes "start_all calls book = (ds, book')" and "i < length calls" and "calls ! i = (b, now, enclosing)"
    and "\<forall>j < i. fst (calls ! j) \<noteq> b" and "book b = None"
  shows "endpoint (ds ! i) \<le> now + budget_duration b
    \<and> (b \<noteq> CoreGrace \<longrightarrow> (\<forall>limit. enclosing = Some limit \<longrightarrow> endpoint (ds ! i) \<le> endpoint limit))
    \<and> (\<forall>j < length calls. i \<le> j \<longrightarrow> fst (calls ! j) = b \<longrightarrow> ds ! j = ds ! i)"
  using assms
proof (induction calls arbitrary: book ds i)
  case (Cons c calls)
  obtain b' now' enclosing' where c: "c = (b', now', enclosing')" by (cases c)
  obtain d' book1 where first: "start_once b' now' enclosing' book = (d', book1)" by fastforce
  obtain ds1 where rest: "start_all calls book1 = (ds1, book')" and ds: "ds = d' # ds1"
    using Cons.prems(1) by (auto simp: c first split: prod.splits)
  show ?case
  proof (cases i)
    case 0
    with Cons.prems(3) have b: "b' = b" "now' = now" "enclosing' = enclosing" by (simp_all add: c)
    note once = start_once_book [OF first [unfolded b]]
    have "(d' # ds1) ! j = d'" if "j < length (c # calls)" "fst ((c # calls) ! j) = b" for j
      using that start_all_known [OF rest once(1)] by (cases j) auto
    with once(4,5) Cons.prems(5) show ?thesis by (auto simp: 0 ds)
  next
    case (Suc j)
    with Cons.prems(4) have "b' \<noteq> b" by (auto simp: c)
    then have none: "book1 b = None" using start_once_book(6) [OF first] Cons.prems(5) by auto
    have fresh: "\<forall>k < j. fst (calls ! k) \<noteq> b" using Cons.prems(4) Suc by force
    have call: "j < length calls" "calls ! j = (b, now, enclosing)" using Cons.prems(2,3) Suc by simp_all
    have IH: "endpoint (ds1 ! j) \<le> now + budget_duration b
        \<and> (b \<noteq> CoreGrace \<longrightarrow> (\<forall>limit. enclosing = Some limit \<longrightarrow> endpoint (ds1 ! j) \<le> endpoint limit))
        \<and> (\<forall>k < length calls. j \<le> k \<longrightarrow> fst (calls ! k) = b \<longrightarrow> ds1 ! k = ds1 ! j)"
      by (rule Cons.IH [OF rest call fresh none])
    have "(d' # ds1) ! k = ds1 ! j" if "k < length (c # calls)" "Suc j \<le> k" "fst ((c # calls) ! k) = b" for k
      using that IH by (cases k) auto
    with IH show ?thesis by (simp add: Suc ds)
  qed
qed simp

section \<open>Properties\<close>

text \<open>The deadline of a phase is fixed by the first request for it: it lies within the budget of the phase
  from then and, except for the grace of Core, within the enclosing deadline, and no later request, retry or
  nested call of the same phase gets another one.\<close>

theorem deadlines_are_never_renewed:
  assumes "start_all calls Map.empty = (ds, book)" and "i < length calls" and "calls ! i = (b, now, enclosing)"
    and "\<forall>j < i. fst (calls ! j) \<noteq> b"
  shows "endpoint (ds ! i) \<le> now + budget_duration b
    \<and> (b \<noteq> CoreGrace \<longrightarrow> (\<forall>limit. enclosing = Some limit \<longrightarrow> endpoint (ds ! i) \<le> endpoint limit))
    \<and> (\<forall>j < length calls. i \<le> j \<longrightarrow> fst (calls ! j) = b \<longrightarrow> ds ! j = ds ! i)"
  by (rule start_all_first [OF assms]) simp

theorem deadlines_are_never_renewed_witness:
  "fst (start_all [(Status, 5, None), (Helper, 6, Some (Deadline 9)), (Status, 7, None)] Map.empty) ! 2
   = fst (start_all [(Status, 5, None), (Helper, 6, Some (Deadline 9)), (Status, 7, None)] Map.empty) ! 0"
proof -
  let ?calls = "[(Status, 5 :: nat, None), (Helper, 6, Some (Deadline 9)), (Status, 7, None)]"
  have "0 < length ?calls" "?calls ! 0 = (Status, 5, None)" "\<forall>j < 0. fst (?calls ! j) \<noteq> Status" by simp_all
  from deadlines_are_never_renewed [OF prod.collapse [symmetric] this]
  have "\<forall>j < length ?calls. 0 \<le> j \<longrightarrow> fst (?calls ! j) = Status
      \<longrightarrow> fst (start_all ?calls Map.empty) ! j = fst (start_all ?calls Map.empty) ! 0" by blast
  from spec [OF this, of 2] show ?thesis by (simp del: start_all.simps)
qed

text \<open>C9: Work is accounted for: in every state the threads of a Core can reach, the snapshot counts the permits
  that are held, state by state; and once admission is sealed and the snapshot is drained, nobody holds a permit
  any more, now or later, and no request for one succeeds.\<close>

theorem drained_core_stays_drained:
  assumes "core_reachable s"
  shows "(\<forall>st. counted st (snapshot (coordinator_of s)) = live st (permits s))
    \<and> (is_sealed (coordinator_of s) \<longrightarrow> is_drained (snapshot (coordinator_of s)) \<longrightarrow> core_step\<^sup>*\<^sup>* s s'
       \<longrightarrow> list_all released (permits s') \<and> is_drained (snapshot (coordinator_of s'))
         \<and> admit st (coordinator_of s') = Inl (UnsafeOwnership ''execution admission is closed''))"
  using reachable_invs [OF assms] sealed_drained_run [OF assms] by (simp add: accounted_def)

text \<open>A Core that fails to start and is then stopped.\<close>

definition failed_core :: core_state where
  "failed_core = (initial_core Starting)\<lparr>lifecycle := snd (mark_failed (core_with_phase Starting))\<rparr>"

definition stopped_core :: core_state where
  "stopped_core = failed_core\<lparr>lifecycle := snd (begin_stopping (lifecycle failed_core))\<rparr>"

lemma failed_core_reachable: "core_reachable failed_core"
proof -
  have "core_step\<^sup>*\<^sup>* (initial_core Starting) failed_core"
    unfolding failed_core_def by (rule mark_failed_run [of _ "fst (mark_failed (core_with_phase Starting))"]) (simp add: initial_core_def)
  then show ?thesis by (auto simp: core_reachable_def)
qed

lemma stopped_core_run: "core_step\<^sup>*\<^sup>* failed_core stopped_core"
  unfolding stopped_core_def by (rule begin_stopping_run [of _ "fst (begin_stopping (lifecycle failed_core))"]) simp

lemmas core_eval = failed_core_def stopped_core_def initial_core_def core_with_phase_def mark_failed_def
  begin_stopping_def closed_coordinator_def is_drained_def outstanding_def saturating_add_def core_phase_def

theorem drained_core_stays_drained_witness:
  "is_drained (snapshot (coordinator_of stopped_core))
   \<and> admit Queued (coordinator_of stopped_core) = Inl (UnsafeOwnership ''execution admission is closed'')"
proof -
  have "is_sealed (coordinator_of failed_core)" "is_drained (snapshot (coordinator_of failed_core))"
    by (simp_all add: core_eval core_ops)
  with drained_core_stays_drained [OF failed_core_reachable, of stopped_core] stopped_core_run show ?thesis by blast
qed

text \<open>Readiness and shutdown: at any moment, between the steps of any threads, work is admitted only when the
  Core is ready or about to publish that it is; once it is seen stopping or failed, it stays so, admits nothing and
  has signalled its workers; and a failed Core is seen as stopping only while a thread that stops it is about to
  put the failure back.\<close>

theorem core_phases_are_final:
  assumes "core_reachable s" and "core_step\<^sup>*\<^sup>* s s'"
  shows "(accepting (snapshot (coordinator_of s)) \<longrightarrow> core_phase (lifecycle s) = Ready \<or> ReadyOpened \<in> set (inflight s))
    \<and> (core_phase (lifecycle s) \<in> {Stopping, Failed} \<longrightarrow>
         core_phase (lifecycle s') \<in> {Stopping, Failed} \<and> shutdown_flag (lifecycle s')
         \<and> \<not> accepting (snapshot (coordinator_of s')))
    \<and> (core_phase (lifecycle s) = Failed \<longrightarrow> core_phase (lifecycle s') = Failed
         \<or> core_phase (lifecycle s') = Stopping \<and> StopSwapped (to_byte Failed) \<in> set (inflight s'))"
proof -
  have gates: "gate_ok s" "gate_ok s'"
    using reachable_invs [OF assms(1)] reachable_invs [OF reachable_run [OF assms]] by simp_all
  then have byte: "core_phase (lifecycle s) = p \<longleftrightarrow> phase_byte (lifecycle s) = to_byte p"
    "core_phase (lifecycle s') = p \<longleftrightarrow> phase_byte (lifecycle s') = to_byte p" for p
    by (simp_all add: core_phase_byte gate_ok_def)
  have stops: "is_stopped s'" if "is_stopped s" using stopping.run [OF assms(2) that] .
  have fails: "has_failed s'" if "has_failed s" using failing.run [OF assms(2) that] .
  show ?thesis
  proof (intro conjI impI)
    assume "accepting (snapshot (coordinator_of s))"
    with gates(1) show "core_phase (lifecycle s) = Ready \<or> ReadyOpened \<in> set (inflight s)"
      unfolding byte gate_ok_def by simp
  next
    assume "core_phase (lifecycle s) \<in> {Stopping, Failed}"
    then have stopped: "is_stopped s'" by (intro stops) (auto simp: byte is_stopped_def)
    then show "core_phase (lifecycle s') \<in> {Stopping, Failed}" unfolding insert_iff byte by (simp add: is_stopped_def)
    from gates(2) stopped show "shutdown_flag (lifecycle s')" "\<not> accepting (snapshot (coordinator_of s'))"
      by (simp_all add: gate_ok_def)
  next
    assume "core_phase (lifecycle s) = Failed"
    then have "has_failed s'" by (intro fails) (simp add: byte has_failed_def)
    then show "core_phase (lifecycle s') = Failed
        \<or> core_phase (lifecycle s') = Stopping \<and> StopSwapped (to_byte Failed) \<in> set (inflight s')"
      by (simp add: byte has_failed_def)
  qed
qed

theorem core_phases_are_final_witness:
  "core_phase (lifecycle failed_core) = Failed \<and> core_phase (lifecycle stopped_core) = Failed"
proof -
  have "core_phase (lifecycle failed_core) = Failed" by (simp add: core_eval core_ops)
  moreover have "inflight stopped_core = []" by (simp add: core_eval)
  ultimately show ?thesis
    using core_phases_are_final [OF failed_core_reachable stopped_core_run] by simp
qed

end
