(* ===== verification/Ownership.thy ===== *)
theory Ownership
  imports Lifecycle Json
begin

text \<open>
  Ownership of a data directory (\<open>src/lifecycle/ownership.rs\<close>): the identity of an instance, the record it
  publishes, who may remove it, and the locks.  A directory is the map of its entries; what the JSON and path
  libraries of the record do, and \<open>canonicalize\<close>, are parameters.  Reading a file that exists succeeds; writing
  may fail before or after the rename that makes a record visible.
\<close>

section \<open>Identities\<close>

datatype owner_identity = WindowsSid string | UnixUid nat | OtherOwner string

definition validate_owner :: "owner_identity \<Rightarrow> unit lifecycle_result" where
  "validate_owner owner =
     (case owner of
        WindowsSid sid \<Rightarrow> require (trim sid \<noteq> []) (UnsafeOwnership ''empty Windows SID'')
      | OtherOwner identity \<Rightarrow> require (trim identity \<noteq> []) (UnsafeOwnership ''empty OS user identity'')
      | UnixUid _ \<Rightarrow> Inr ())"

record process_identity =
  process_pid :: nat
  start_identity :: string
  executable :: string

definition validate_process :: "process_identity \<Rightarrow> unit lifecycle_result" where
  "validate_process p =
     require (process_pid p \<noteq> 0 \<and> trim (start_identity p) \<noteq> [] \<and> is_absolute (executable p))
       (UnsafeOwnership
          ''process identity is missing PID, start evidence, or absolute executable evidence'')"

datatype core_mode = Foreground | UserDaemon | SystemService

definition mode_name :: "core_mode \<Rightarrow> string" where
  "mode_name m = (case m of Foreground \<Rightarrow> ''foreground'' | UserDaemon \<Rightarrow> ''user_daemon'' | SystemService \<Rightarrow> ''system_service'')"

record core_instance =
  instance_id :: string
  instance_mode :: core_mode
  instance_owner :: owner_identity
  instance_process :: process_identity
  instance_data_dir :: string
  listen_address :: "string option"
  instance_phase :: lifecycle_phase
  diagnostic_location :: "string option"
  control_endpoint :: "string option"

definition validate_instance :: "(string \<Rightarrow> string lifecycle_result) \<Rightarrow> core_instance \<Rightarrow> unit lifecycle_result" where
  "validate_instance canonicalize i =
     rbind (validate_owner (instance_owner i)) (\<lambda>_.
     rbind (validate_process (instance_process i)) (\<lambda>_.
     rbind (require (is_absolute (instance_data_dir i)) (UnsafeOwnership ''Core data directory is not absolute'')) (\<lambda>_.
     rbind (canonicalize (instance_data_dir i)) (\<lambda>dir.
     rbind (require (dir = instance_data_dir i) (UnsafeOwnership ''Core data directory is not canonicalized'')) (\<lambda>_.
       require
         (case listen_address i of
            None \<Rightarrow> True
          | Some a \<Rightarrow> trim a \<noteq> [] \<and> list_all (\<lambda>c. c \<notin> {CHR 0x0D, CHR 0x0A, CHR ''@'', CHR ''?'', CHR ''#''}) a)
         (UnsafeOwnership ''listen address is empty or contains credentials/control suffixes''))))))"

section \<open>The record\<close>

definition OWNERSHIP_SCHEMA_VERSION :: nat where "OWNERSHIP_SCHEMA_VERSION = 1"

definition MAX_CONTROL_MESSAGE_BYTES :: nat where "MAX_CONTROL_MESSAGE_BYTES = 64 * 1024"

record ownership_record =
  schema_version :: nat
  owned_instance :: core_instance

datatype ownership_read = CurrentRecord ownership_record | LegacyRecord "nat option"

text \<open>The libraries the record passes through.\<close>

record ownership_env =
  record_path :: string
  canonical_path :: "string \<Rightarrow> string lifecycle_result"
  record_bytes :: "ownership_record \<Rightarrow> (string, string) result"
  json_of_bytes :: "string \<Rightarrow> (string, json) result"
  record_of_json :: "json \<Rightarrow> (string, ownership_record) result"

definition validate_record :: "ownership_env \<Rightarrow> ownership_record \<Rightarrow> unit lifecycle_result" where
  "validate_record env r =
     (if schema_version r \<noteq> OWNERSHIP_SCHEMA_VERSION then Inl (UnsupportedSchema (schema_version r))
      else validate_instance (canonical_path env) (owned_instance r))"

definition new_record :: "ownership_env \<Rightarrow> core_instance \<Rightarrow> ownership_record lifecycle_result" where
  "new_record env i =
     rbind (validate_instance (canonical_path env) i) (\<lambda>_.
       Inr \<lparr>schema_version = OWNERSHIP_SCHEMA_VERSION, owned_instance = i\<rparr>)"

datatype dir_entry = RegularFile string | Symlink | OtherEntry

type_synonym directory = "string \<rightharpoonup> dir_entry"

definition OWNERSHIP_RECORD_FILE :: string where "OWNERSHIP_RECORD_FILE = ''ownership.json''"

definition LEGACY_PID_FILE :: string where "LEGACY_PID_FILE = ''daemon.pid''"

definition decode_current :: "ownership_env \<Rightarrow> json \<Rightarrow> nat \<Rightarrow> ownership_read option lifecycle_result" where
  "decode_current env v version =
     (let version' = min version u32_max in
      if version' \<noteq> OWNERSHIP_SCHEMA_VERSION then Inl (UnsupportedSchema version')
      else (case record_of_json env v of
          Inl e \<Rightarrow> Inl (SerializationFailed e)
        | Inr r \<Rightarrow> rbind (validate_record env r) (\<lambda>_. Inr (Some (CurrentRecord r)))))"

definition read_ownership_record :: "ownership_env \<Rightarrow> directory \<Rightarrow> ownership_read option lifecycle_result" where
  "read_ownership_record env dir =
     (case dir OWNERSHIP_RECORD_FILE of
        None \<Rightarrow> Inr None
      | Some (RegularFile bytes) \<Rightarrow>
          (if MAX_CONTROL_MESSAGE_BYTES < length bytes then Inl (MessageTooLarge MAX_CONTROL_MESSAGE_BYTES)
           else (case json_of_bytes env bytes of
               Inl e \<Rightarrow>
                 (case parse_u32 (trim bytes) of
                    Some pid \<Rightarrow> (if 0 < pid then Inr (Some (LegacyRecord (Some pid))) else Inl (SerializationFailed e))
                  | None \<Rightarrow> Inl (SerializationFailed e))
             | Inr v \<Rightarrow>
                 (case Option.bind (get_key v ''schema_version'') as_u64 of
                    Some version \<Rightarrow> decode_current env v version
                  | None \<Rightarrow>
                      Inr (Some (LegacyRecord
                        (case Option.bind (get_key v ''pid'') as_u64 of
                           None \<Rightarrow> None | Some n \<Rightarrow> if n \<le> u32_max then Some n else None))))))
      | Some _ \<Rightarrow> Inl (UnsafeOwnership ''ownership metadata is redirected or not a regular file''))"

definition read_legacy_pid_file :: "directory \<Rightarrow> nat option lifecycle_result" where
  "read_legacy_pid_file dir =
     (case dir LEGACY_PID_FILE of
        None \<Rightarrow> Inr None
      | Some (RegularFile text) \<Rightarrow>
          rbind (ok_or (parse_u32 (trim text)) (UnsafeOwnership ''legacy PID file is malformed'')) (\<lambda>pid.
          rbind (require (pid \<noteq> 0) (UnsafeOwnership ''legacy PID file contains an invalid process identifier'')) (\<lambda>_.
            Inr (Some pid)))
      | Some _ \<Rightarrow> Inl (UnsafeOwnership ''legacy PID path is redirected or not a regular file''))"

definition reject_link_if_present :: "string \<Rightarrow> dir_entry option \<Rightarrow> unit lifecycle_result" where
  "reject_link_if_present path entry =
     (case entry of
        Some Symlink \<Rightarrow> Inl (UnsafeOwnership (path @ '' is a symlink or reparse point''))
      | Some OtherEntry \<Rightarrow> Inl (UnsafeOwnership (path @ '' is not a regular file''))
      | _ \<Rightarrow> Inr ())"

text \<open>Writing the record: a temporary file under a fresh name is renamed over it.\<close>

datatype write_fault = BeforeRename string | AfterRename string

definition publish_record_locked ::
  "ownership_env \<Rightarrow> write_fault option \<Rightarrow> ownership_record \<Rightarrow> directory \<Rightarrow> unit lifecycle_result \<times> directory" where
  "publish_record_locked env fault r dir =
     (case validate_record env r of
        Inl e \<Rightarrow> (Inl e, dir)
      | Inr _ \<Rightarrow>
          (case record_bytes env r of
             Inl e \<Rightarrow> (Inl (SerializationFailed e), dir)
           | Inr bytes \<Rightarrow>
               (if MAX_CONTROL_MESSAGE_BYTES < length bytes then (Inl (MessageTooLarge MAX_CONTROL_MESSAGE_BYTES), dir)
                else (case reject_link_if_present (record_path env) (dir OWNERSHIP_RECORD_FILE) of
                    Inl e \<Rightarrow> (Inl e, dir)
                  | Inr _ \<Rightarrow>
                      (case fault of
                         Some (BeforeRename e) \<Rightarrow> (Inl (LifecycleIo e), dir)
                       | Some (AfterRename e) \<Rightarrow> (Inl (LifecycleIo e), dir(OWNERSHIP_RECORD_FILE \<mapsto> RegularFile bytes))
                       | None \<Rightarrow> (Inr (), dir(OWNERSHIP_RECORD_FILE \<mapsto> RegularFile bytes)))))))"

definition cleanup_record_if_instance_locked ::
  "ownership_env \<Rightarrow> string \<Rightarrow> directory \<Rightarrow> bool lifecycle_result \<times> directory" where
  "cleanup_record_if_instance_locked env expected dir =
     (case read_ownership_record env dir of
        Inl e \<Rightarrow> (Inl e, dir)
      | Inr (Some (CurrentRecord r)) \<Rightarrow>
          (if instance_id (owned_instance r) \<noteq> expected then (Inr False, dir)
           else (Inr True, dir(OWNERSHIP_RECORD_FILE := None)))
      | Inr _ \<Rightarrow> (Inr False, dir))"

definition cleanup_legacy_if_proven_dead_locked ::
  "ownership_env \<Rightarrow> (nat \<Rightarrow> bool lifecycle_result) \<Rightarrow> directory \<Rightarrow> bool lifecycle_result \<times> directory" where
  "cleanup_legacy_if_proven_dead_locked env process_is_absent dir =
     (let remove = (\<lambda>pid name.
            case process_is_absent pid of
              Inl e \<Rightarrow> (Inl e, dir)
            | Inr absent \<Rightarrow> (if absent then (Inr True, dir(name := None)) else (Inr False, dir)))
      in case read_ownership_record env dir of
           Inl e \<Rightarrow> (Inl e, dir)
         | Inr (Some (LegacyRecord (Some pid))) \<Rightarrow> remove pid OWNERSHIP_RECORD_FILE
         | Inr _ \<Rightarrow>
             (case read_legacy_pid_file dir of
                Inl e \<Rightarrow> (Inl e, dir)
              | Inr None \<Rightarrow> (Inr False, dir)
              | Inr (Some pid) \<Rightarrow> remove pid LEGACY_PID_FILE))"

section \<open>Locks and leases\<close>

text \<open>Taking a file lock: the answers of \<open>try_lock\<close> with the clock after each; \<open>None\<close> when they are used up.\<close>

datatype try_lock = Locked | WouldBlock | LockError string

fun acquire_file_lock :: "deadline \<Rightarrow> string \<Rightarrow> (try_lock \<times> nat) list \<Rightarrow> unit lifecycle_result option" where
  "acquire_file_lock d phase [] = None"
| "acquire_file_lock d phase ((answer, now) # rest) =
     (case answer of
        Locked \<Rightarrow> Some (Inr ())
      | LockError e \<Rightarrow> Some (Inl (LifecycleIo e))
      | WouldBlock \<Rightarrow>
          (if deadline_remaining d now = 0
           then Some (Inl (if phase = ''runtime lease'' then OwnershipBusy else DeadlineExpired phase))
           else acquire_file_lock d phase rest))"

record runtime_lease =
  lease_data_dir :: string
  lease_instance :: string

text \<open>Publishing and cleaning up under a lease; the answer of the administrative lock is given.\<close>

definition lease_publish ::
  "ownership_env \<Rightarrow> runtime_lease \<Rightarrow> unit lifecycle_result \<Rightarrow> write_fault option \<Rightarrow> ownership_record \<Rightarrow> directory
   \<Rightarrow> unit lifecycle_result \<times> directory" where
  "lease_publish env lease admin fault r dir =
     (case validate_record env r of
        Inl e \<Rightarrow> (Inl e, dir)
      | Inr _ \<Rightarrow>
          (if instance_id (owned_instance r) \<noteq> lease_instance lease
             \<or> instance_data_dir (owned_instance r) \<noteq> lease_data_dir lease
           then (Inl (UnsafeOwnership ''ownership record does not match the held lease''), dir)
           else (case admin of Inl e \<Rightarrow> (Inl e, dir) | Inr _ \<Rightarrow> publish_record_locked env fault r dir)))"

definition lease_cleanup ::
  "ownership_env \<Rightarrow> runtime_lease \<Rightarrow> unit lifecycle_result \<Rightarrow> directory \<Rightarrow> bool lifecycle_result \<times> directory" where
  "lease_cleanup env lease admin dir =
     (case admin of
        Inl e \<Rightarrow> (Inl e, dir) | Inr _ \<Rightarrow> cleanup_record_if_instance_locked env (lease_instance lease) dir)"

lemma publish_record_file:
  assumes "publish_record_locked env fault r dir = (Inr (), dir')"
  obtains bytes where "validate_record env r = Inr ()" "record_bytes env r = Inr bytes"
    "length bytes \<le> MAX_CONTROL_MESSAGE_BYTES" "dir' = dir(OWNERSHIP_RECORD_FILE \<mapsto> RegularFile bytes)"
  using assms
  by (auto simp: publish_record_locked_def split: sum.splits if_splits option.splits write_fault.splits)

lemma read_published:
  assumes "length bytes \<le> MAX_CONTROL_MESSAGE_BYTES" and "json_of_bytes env bytes = Inr v"
    and "get_key v ''schema_version'' = Some (JNumber (PosInt 1))" and "record_of_json env v = Inr r"
    and "validate_record env r = Inr ()" and "dir OWNERSHIP_RECORD_FILE = Some (RegularFile bytes)"
  shows "read_ownership_record env dir = Inr (Some (CurrentRecord r))"
  using assms by (simp add: read_ownership_record_def decode_current_def OWNERSHIP_SCHEMA_VERSION_def u32_max_def)

text \<open>A lock that stays taken is given up at the deadline, not before.\<close>

lemma acquire_file_lock_expires:
  assumes "acquire_file_lock d ''runtime lease'' answers = Some (Inl OwnershipBusy)"
  shows "\<exists>(answer, now) \<in> set answers. answer = WouldBlock \<and> endpoint d \<le> now"
  using assms
  by (induction answers) (auto simp: deadline_remaining_def split: try_lock.splits if_splits)

lemma acquire_file_lock_returns:
  assumes "(answer, now) \<in> set answers" and "answer \<noteq> WouldBlock \<or> endpoint d \<le> now"
  shows "acquire_file_lock d phase answers \<noteq> None"
  using assms
  by (induction answers) (auto simp: deadline_remaining_def split: try_lock.splits)

section \<open>Properties\<close>

text \<open>What a lease publishes is what others read, and only its own instance can take it away: provided that
  the JSON form of the record reads back, after a publication the directory shows this record, the clean-up of
  the lease removes it, and the clean-up of any other instance leaves everything as it is.\<close>

theorem published_record_is_owned:
  assumes "lease_publish env lease admin fault r dir = (Inr (), dir')"
    and "\<And>bytes. record_bytes env r = Inr bytes \<Longrightarrow> \<exists>v. json_of_bytes env bytes = Inr v
        \<and> get_key v ''schema_version'' = Some (JNumber (PosInt 1)) \<and> record_of_json env v = Inr r"
  shows "read_ownership_record env dir' = Inr (Some (CurrentRecord r))
    \<and> lease_cleanup env lease (Inr ()) dir' = (Inr True, dir'(OWNERSHIP_RECORD_FILE := None))
    \<and> (lease_instance other \<noteq> lease_instance lease \<longrightarrow> lease_cleanup env other (Inr ()) dir' = (Inr False, dir'))"
proof -
  from assms(1) have own: "instance_id (owned_instance r) = lease_instance lease"
    and "publish_record_locked env fault r dir = (Inr (), dir')"
    by (auto simp: lease_publish_def split: sum.splits if_splits)
  then obtain bytes where bytes: "validate_record env r = Inr ()" "record_bytes env r = Inr bytes"
    "length bytes \<le> MAX_CONTROL_MESSAGE_BYTES" "dir' = dir(OWNERSHIP_RECORD_FILE \<mapsto> RegularFile bytes)"
    by (elim publish_record_file)
  from assms(2) [OF bytes(2)] obtain v where "json_of_bytes env bytes = Inr v"
    "get_key v ''schema_version'' = Some (JNumber (PosInt 1))" "record_of_json env v = Inr r" by blast
  with bytes have "read_ownership_record env dir' = Inr (Some (CurrentRecord r))" by (intro read_published) simp_all
  with own show ?thesis by (simp add: lease_cleanup_def cleanup_record_if_instance_locked_def)
qed

definition small_instance :: core_instance where
  "small_instance =
     \<lparr>instance_id = ''i1'', instance_mode = UserDaemon, instance_owner = UnixUid 7,
      instance_process = \<lparr>process_pid = 1, start_identity = ''s'', executable = ''/k''\<rparr>, instance_data_dir = ''/d'',
      listen_address = None, instance_phase = Starting, diagnostic_location = None, control_endpoint = None\<rparr>"

definition small_ownership :: ownership_env where
  "small_ownership =
     \<lparr>record_path = ''/d/.kakune/ownership.json'', canonical_path = Inr, record_bytes = (\<lambda>_. Inr []),
      json_of_bytes = (\<lambda>_. Inr (JObject [(''schema_version'', JNumber (PosInt 1))])),
      record_of_json = (\<lambda>_. Inr \<lparr>schema_version = 1, owned_instance = small_instance\<rparr>)\<rparr>"

theorem published_record_is_owned_witness:
  "lease_cleanup small_ownership \<lparr>lease_data_dir = ''/d'', lease_instance = ''i2''\<rparr> (Inr ())
     [OWNERSHIP_RECORD_FILE \<mapsto> RegularFile []] = (Inr False, [OWNERSHIP_RECORD_FILE \<mapsto> RegularFile []])"
proof -
  let ?r = "\<lparr>schema_version = 1, owned_instance = small_instance\<rparr>"
  have space: "trim ''s'' = ''s''" by code_simp
  have "lease_publish small_ownership \<lparr>lease_data_dir = ''/d'', lease_instance = ''i1''\<rparr> (Inr ()) None ?r Map.empty
      = (Inr (), [OWNERSHIP_RECORD_FILE \<mapsto> RegularFile []])"
    by (simp add: lease_publish_def publish_record_locked_def validate_record_def validate_instance_def
        validate_owner_def validate_process_def require_def small_ownership_def small_instance_def space is_absolute_def
        OWNERSHIP_SCHEMA_VERSION_def reject_link_if_present_def)
  from published_record_is_owned [OF this, of "\<lparr>lease_data_dir = ''/d'', lease_instance = ''i2''\<rparr>"]
  show ?thesis by (simp add: small_ownership_def get_key_def)
qed

end
