(* ===== verification/Core_Host.thy ===== *)
theory Core_Host
  imports Ownership
begin

text \<open>
  The controller of a Core process and its shutdown (\<open>CoreInstanceController\<close> in \<open>src/lifecycle/mod.rs\<close>,
  \<open>drain\<close> and \<open>startup_failure\<close> in \<open>src/lifecycle/host.rs\<close>): publishing the phase, and giving up the
  ownership of the data directory only after all accepted work is done.  The answers of locks, disk, tasks and
  reports are given; the coordinator is shared with the workers, so that shutdown sees it in the states other
  threads have brought it to.
\<close>

section \<open>The controller\<close>

record controller =
  ctl_core :: core_lifecycle
  ctl_record :: ownership_record
  ctl_lease :: runtime_lease

text \<open>How a publication meets the administrative lock and the disk.\<close>

type_synonym publish_io = "unit lifecycle_result \<times> write_fault option"

definition publish_controller ::
  "ownership_env \<Rightarrow> publish_io \<Rightarrow> controller \<Rightarrow> directory \<Rightarrow> unit lifecycle_result \<times> controller \<times> directory" where
  "publish_controller env io ctl dir =
     (case lease_publish env (ctl_lease ctl) (fst io) (snd io) (ctl_record ctl) dir of (r, dir') \<Rightarrow> (r, ctl, dir'))"

definition update_instance :: "(core_instance \<Rightarrow> core_instance) \<Rightarrow> controller \<Rightarrow> controller" where
  "update_instance f ctl = ctl\<lparr>ctl_record := (ctl_record ctl)\<lparr>owned_instance := f (owned_instance (ctl_record ctl))\<rparr>\<rparr>"

definition set_diagnostic_location ::
  "ownership_env \<Rightarrow> publish_io \<Rightarrow> string \<Rightarrow> controller \<Rightarrow> directory \<Rightarrow> unit lifecycle_result \<times> controller \<times> directory" where
  "set_diagnostic_location env io location ctl =
     publish_controller env io (update_instance (\<lambda>i. i\<lparr>diagnostic_location := Some location\<rparr>) ctl)"

definition publish_listen_address ::
  "ownership_env \<Rightarrow> publish_io \<Rightarrow> string \<Rightarrow> bool \<Rightarrow> controller \<Rightarrow> directory \<Rightarrow> unit lifecycle_result \<times> controller \<times> directory" where
  "publish_listen_address env io address tls ctl =
     publish_controller env io
       (update_instance (\<lambda>i. i\<lparr>listen_address := Some ((if tls then ''https'' else ''http'') @ ''://'' @ address)\<rparr>) ctl)"

definition controller_mark_ready ::
  "ownership_env \<Rightarrow> publish_io \<Rightarrow> controller \<Rightarrow> directory \<Rightarrow> unit lifecycle_result \<times> controller \<times> directory" where
  "controller_mark_ready env io ctl dir =
     (case mark_ready (ctl_core ctl) of
        (Inl e, l) \<Rightarrow> (Inl e, ctl\<lparr>ctl_core := l\<rparr>, dir)
      | (Inr _, l) \<Rightarrow>
          publish_controller env io (update_instance (\<lambda>i. i\<lparr>instance_phase := Ready\<rparr>) (ctl\<lparr>ctl_core := l\<rparr>)) dir)"

definition controller_mark_stopping ::
  "ownership_env \<Rightarrow> publish_io \<Rightarrow> controller \<Rightarrow> directory \<Rightarrow> unit lifecycle_result \<times> controller \<times> directory" where
  "controller_mark_stopping env io ctl =
     publish_controller env io (update_instance (\<lambda>i. i\<lparr>instance_phase := Stopping\<rparr>) ctl)"

definition controller_mark_failed ::
  "ownership_env \<Rightarrow> publish_io \<Rightarrow> controller \<Rightarrow> directory \<Rightarrow> unit lifecycle_result \<times> controller \<times> directory" where
  "controller_mark_failed env io ctl =
     publish_controller env io (update_instance (\<lambda>i. i\<lparr>instance_phase := Failed\<rparr>)
       (ctl\<lparr>ctl_core := snd (mark_failed (ctl_core ctl))\<rparr>))"

text \<open>The capability file is removed first, when there is an endpoint; \<open>removal\<close> is how that went.\<close>

definition release_after_drain ::
  "ownership_env \<Rightarrow> unit lifecycle_result \<Rightarrow> unit lifecycle_result \<Rightarrow> controller \<Rightarrow> directory \<Rightarrow> unit lifecycle_result \<times> directory" where
  "release_after_drain env admin removal ctl dir =
     (if \<not> is_drained (snapshot (admission (ctl_core ctl)))
      then (Inl (UnsafeOwnership ''runtime ownership cannot be released while accepted work remains''), dir)
      else (case if control_endpoint (owned_instance (ctl_record ctl)) \<noteq> None then removal else Inr () of
          Inl e \<Rightarrow> (Inl e, dir)
        | Inr _ \<Rightarrow>
            (case lease_cleanup env (ctl_lease ctl) admin dir of
               (Inl e, dir') \<Rightarrow> (Inl e, dir')
             | (Inr False, dir') \<Rightarrow> (Inl (UnsafeOwnership ''runtime ownership record changed before cleanup''), dir')
             | (Inr True, dir') \<Rightarrow> (Inr (), dir'))))"

definition startup_failure ::
  "ownership_env \<Rightarrow> publish_io \<Rightarrow> unit lifecycle_result \<Rightarrow> unit lifecycle_result \<Rightarrow> string \<Rightarrow> controller \<Rightarrow> directory
   \<Rightarrow> string \<times> controller \<times> directory" where
  "startup_failure env io admin removal err ctl dir =
     (case controller_mark_failed env io ctl dir of
        (published, ctl1, dir1) \<Rightarrow>
          (case release_after_drain env admin removal ctl1 dir1 of
             (rel, dir2) \<Rightarrow>
               (err
                @ (case published of
                     Inl e \<Rightarrow> ''; failed to publish failed-start state: '' @ error_message e | Inr _ \<Rightarrow> [])
                @ (case rel of
                     Inl e \<Rightarrow> ''; runtime ownership remains for recovery: '' @ error_message e | Inr _ \<Rightarrow> []),
                ctl1, dir2)))"

section \<open>Shutdown\<close>

datatype host_event = HostStopping | HostStopped | HostDiagnostic string

datatype task_end = TaskOk | TaskFailed string | TaskPanicked string

text \<open>What shutdown meets: reports, the disk, how the scheduler, the server and the control task end (and whether
  before the deadline), and the states of the Core when it looks at the coordinator.\<close>

record drain_io =
  report_stopping :: "(string, unit) result"
  stopping_io :: publish_io
  scheduler_end :: "((string, unit) result \<times> (string, unit) result) option"
  server_end :: "(bool \<times> task_end) option"
  control_end :: "(bool \<times> task_end) option"
  drain_start :: nat
  drain_wakes :: "(core_state \<times> nat) list"
  at_check :: core_state
  until_wakes :: "core_state list"
  at_release :: core_state
  release_admin :: "unit lifecycle_result"
  capability_removal :: "unit lifecycle_result"
  report_stopped :: "(string, unit) result"

definition failure :: "(string, unit) result \<Rightarrow> string list" where
  "failure r = (case r of Inl e \<Rightarrow> [e] | Inr _ \<Rightarrow> [])"

definition record_server_result :: "task_end \<Rightarrow> string list" where
  "record_server_result r =
     (case r of
        TaskOk \<Rightarrow> []
      | TaskFailed e \<Rightarrow> [''Core transport failed during shutdown: '' @ e]
      | TaskPanicked e \<Rightarrow> [''Core transport task failed during shutdown: '' @ e])"

definition record_control_result :: "task_end \<Rightarrow> string list" where
  "record_control_result r =
     (case r of
        TaskOk \<Rightarrow> []
      | TaskFailed e \<Rightarrow> [''lifecycle control server failed: '' @ e]
      | TaskPanicked e \<Rightarrow> [''lifecycle control task failed: '' @ e])"

text \<open>The tasks are stopped in order: scheduler, server (unless it has ended), control.\<close>

definition stop_tasks :: "drain_io \<Rightarrow> string list" where
  "stop_tasks io =
     (case scheduler_end io of
        None \<Rightarrow> [] | Some (stopped, joined) \<Rightarrow> (case stopped of Inr _ \<Rightarrow> [] | Inl e \<Rightarrow> e # failure joined))
   @ (case server_end io of
        None \<Rightarrow> []
      | Some (in_time, r) \<Rightarrow>
          (if in_time then [] else [''Core transport did not drain before the grace deadline'']) @ record_server_result r)
   @ (case control_end io of
        None \<Rightarrow> []
      | Some (in_time, r) \<Rightarrow>
          (if in_time then [] else [''lifecycle control server did not stop before the grace deadline''])
          @ record_control_result r)"

definition grace_message :: string where
  "grace_message = ''Core shutdown grace expired; retaining runtime ownership while accepted workers finish.''"

text \<open>Waiting for the work: first up to the deadline, then, if work is left, without one.\<close>

definition await_work :: "drain_io \<Rightarrow> (string list \<times> host_event list) option" where
  "await_work io =
     Option.bind (wait_for_drain (deadline_after (drain_start io) (budget_duration CoreGrace))
         (map (\<lambda>(s, now). (coordinator_of s, now)) (drain_wakes io)))
       (\<lambda>r. let failures = (if is_ok r then []
                 else [''Core execution grace expired or drain failed; ownership is retained until workers finish''])
            in if is_drained (snapshot (coordinator_of (at_check io))) then Some (failures, [])
               else Option.bind (wait_until_drained (map coordinator_of (until_wakes io)))
                 (\<lambda>_. Some (failures, [HostDiagnostic grace_message])))"

definition drain ::
  "ownership_env \<Rightarrow> drain_io \<Rightarrow> string list \<Rightarrow> controller \<Rightarrow> directory
   \<Rightarrow> ((string, unit) result \<times> host_event list \<times> directory) option" where
  "drain env io failures ctl dir =
     (let ctl1 = ctl\<lparr>ctl_core := snd (begin_stopping (ctl_core ctl))\<rparr> in
      case controller_mark_stopping env (stopping_io io) ctl1 dir of
        (published, ctl2, dir2) \<Rightarrow>
          Option.bind (await_work io) (\<lambda>(expired, events).
            (let ctl3 = ctl2\<lparr>ctl_core := lifecycle (at_release io)\<rparr>;
                 early = failures @ failure (report_stopping io)
                   @ failure (map_sum (\<lambda>e. ''cannot publish Core stopping state: '' @ error_message e) id published)
                   @ stop_tasks io @ expired
             in case release_after_drain env (release_admin io) (capability_removal io) ctl3 dir2 of
                  (Inr _, dir3) \<Rightarrow>
                    (let fs = early @ failure (report_stopped io)
                     in Some (if fs = [] then Inr () else Inl (join_str ''; '' fs), HostStopping # events @ [HostStopped], dir3))
                | (Inl e, dir3) \<Rightarrow>
                    (let fs = early @ [''Core ownership cleanup failed; inspect retained lifecycle state: '' @ error_message e]
                     in Some (Inl (join_str ''; '' fs), HostStopping # events, dir3)))))"

section \<open>Ownership outlives the work\<close>

lemma cleanup_gone: "lease_cleanup env lease admin dir = (Inr True, dir') \<Longrightarrow> dir' OWNERSHIP_RECORD_FILE = None"
  by (auto simp: lease_cleanup_def cleanup_record_if_instance_locked_def
      split: sum.splits option.splits ownership_read.splits if_splits)

lemma release_gone: "release_after_drain env admin removal ctl dir = (Inr u, dir') \<Longrightarrow> dir' OWNERSHIP_RECORD_FILE = None"
  by (auto simp: release_after_drain_def dest: cleanup_gone split: if_splits sum.splits prod.splits bool.splits)

lemma wait_until_drained_Some: "wait_until_drained cs = Some r \<Longrightarrow> \<exists>c \<in> set cs. is_drained (snapshot c)"
  by (induction cs) (auto split: if_splits)

lemma await_work_drained:
  assumes "await_work io = Some r"
  shows "is_drained (snapshot (coordinator_of (at_check io)))
    \<or> (\<exists>s \<in> set (until_wakes io). is_drained (snapshot (coordinator_of s)))"
  using assms
  by (auto simp: await_work_def Let_def bind_eq_Some_conv dest!: wait_until_drained_Some split: if_splits)

lemma drain_Some:
  assumes "drain env io failures ctl dir = Some (r, events, dir')"
  shows "(\<exists>x. await_work io = Some x) \<and> (HostStopped \<in> set events \<longrightarrow> dir' OWNERSHIP_RECORD_FILE = None)
    \<and> (r = Inr () \<longrightarrow> HostStopped \<in> set events)"
proof -
  obtain published ctl2 dir2 where pub: "controller_mark_stopping env (stopping_io io)
      (ctl\<lparr>ctl_core := snd (begin_stopping (ctl_core ctl))\<rparr>) dir = (published, ctl2, dir2)" by (metis prod.exhaust)
  from assms obtain expired evs where aw: "await_work io = Some (expired, evs)"
    by (auto simp: drain_def Let_def pub bind_eq_Some_conv)
  then have quiet: "HostStopped \<notin> set evs" by (auto simp: await_work_def Let_def bind_eq_Some_conv split: if_splits)
  obtain rel dir3 where rel: "release_after_drain env (release_admin io) (capability_removal io)
      (ctl2\<lparr>ctl_core := lifecycle (at_release io)\<rparr>) dir2 = (rel, dir3)" by (metis prod.exhaust)
  show ?thesis
  proof (cases rel)
    case (Inl e)
    with assms quiet aw show ?thesis by (auto simp: drain_def Let_def pub rel)
  next
    case (Inr u)
    with assms aw release_gone [OF rel [unfolded Inr]] show ?thesis by (auto simp: drain_def Let_def pub rel)
  qed
qed

lemma begin_stopping_sealed: "is_sealed (admission (snd (begin_stopping l)))"
  by (simp add: begin_stopping_def close_core_def close_admission_def signal_shutdown_def store_phase_def
      restore_failed_def Let_def)

section \<open>Properties\<close>

text \<open>C10: Ownership outlives the work: when shutdown comes to its end, however long workers took and whatever else
  failed, nobody holds a permit any more and nobody ever will; the Core is reported as stopped only with its record
  removed, and a shutdown without failures has reported it.\<close>

theorem drain_releases_idle_core:
  assumes "core_reachable s" and "lifecycle s = ctl_core ctl"
    and "core_step\<^sup>*\<^sup>* (s\<lparr>lifecycle := snd (begin_stopping (ctl_core ctl))\<rparr>) (at_check io)"
    and "core_step\<^sup>*\<^sup>* (at_check io) (at_release io)"
    and "list_all (\<lambda>w. core_step\<^sup>*\<^sup>* (at_check io) w \<and> core_step\<^sup>*\<^sup>* w (at_release io)) (until_wakes io)"
    and "drain env io failures ctl dir = Some (r, events, dir')"
  shows "(\<forall>s'. core_step\<^sup>*\<^sup>* (at_release io) s' \<longrightarrow> list_all released (permits s'))
    \<and> (HostStopped \<in> set events \<longrightarrow> dir' OWNERSHIP_RECORD_FILE = None)
    \<and> (r = Inr () \<longrightarrow> HostStopped \<in> set events)"
proof -
  let ?s1 = "s\<lparr>lifecycle := snd (begin_stopping (ctl_core ctl))\<rparr>"
  have "core_step\<^sup>*\<^sup>* s ?s1"
    by (rule begin_stopping_run [of _ "fst (begin_stopping (ctl_core ctl))"]) (simp add: assms(2))
  then have "core_reachable ?s1" by (rule reachable_run [OF assms(1)])
  then have reach: "core_reachable w" if "core_step\<^sup>*\<^sup>* ?s1 w" for w by (rule reachable_run [OF _ that])
  have sealed: "is_sealed (coordinator_of w)" if "core_step\<^sup>*\<^sup>* ?s1 w" for w
    by (rule sealed_run [OF that]) (simp add: begin_stopping_sealed)
  from drain_Some [OF assms(6)] obtain x where aw: "await_work io = Some x" by blast
  from await_work_drained [OF aw] assms(3-5) obtain w where
    w: "core_step\<^sup>*\<^sup>* ?s1 w" "core_step\<^sup>*\<^sup>* w (at_release io)" "is_drained (snapshot (coordinator_of w))"
    by (auto simp: list_all_iff intro: rtranclp_trans)
  then have "list_all released (permits s')" if "core_step\<^sup>*\<^sup>* (at_release io) s'" for s'
    by (intro sealed_drained_run(1) [OF reach [OF w(1)] sealed [OF w(1)] w(3)]) (rule rtranclp_trans [OF w(2) that])
  with drain_Some [OF assms(6)] show ?thesis by blast
qed

definition idle_io :: "core_state \<Rightarrow> drain_io" where
  "idle_io s =
     \<lparr>report_stopping = Inr (), stopping_io = (Inr (), None), scheduler_end = Some (Inr (), Inr ()),
      server_end = Some (True, TaskOk), control_end = None, drain_start = 0, drain_wakes = [(s, 0)], at_check = s,
      until_wakes = [], at_release = s, release_admin = Inr (), capability_removal = Inr (), report_stopped = Inr ()\<rparr>"

definition small_controller :: controller where
  "small_controller =
     \<lparr>ctl_core = core_with_phase Starting, ctl_record = \<lparr>schema_version = 1, owned_instance = small_instance\<rparr>,
      ctl_lease = \<lparr>lease_data_dir = ''/d'', lease_instance = ''i1''\<rparr>\<rparr>"

definition stopping_core :: core_state where
  "stopping_core = (initial_core Starting)\<lparr>lifecycle := snd (begin_stopping (core_with_phase Starting))\<rparr>"

lemma small_instance_valid: "validate_instance Inr (small_instance\<lparr>instance_phase := ph\<rparr>) = Inr ()"
proof -
  have "trim ''s'' = ''s''" by code_simp
  then show ?thesis
    by (simp add: validate_instance_def validate_owner_def validate_process_def require_def small_instance_def is_absolute_def)
qed

lemma small_cleanup:
  "lease_cleanup small_ownership (ctl_lease small_controller) (Inr ()) [OWNERSHIP_RECORD_FILE \<mapsto> RegularFile []]
    = (Inr True, Map.empty)"
proof -
  have "small_instance\<lparr>instance_phase := Starting\<rparr> = small_instance" by (simp add: small_instance_def)
  with small_instance_valid [of Starting] have "validate_record small_ownership (ctl_record small_controller) = Inr ()"
    by (simp add: validate_record_def small_ownership_def small_controller_def OWNERSHIP_SCHEMA_VERSION_def)
  then have "read_ownership_record small_ownership [OWNERSHIP_RECORD_FILE \<mapsto> RegularFile []]
      = Inr (Some (CurrentRecord (ctl_record small_controller)))"
    by (intro read_published [of "[]" _ "JObject [(''schema_version'', JNumber (PosInt 1))]"])
      (simp_all add: small_ownership_def small_controller_def get_key_def)
  then show ?thesis
    by (simp add: lease_cleanup_def cleanup_record_if_instance_locked_def small_controller_def small_instance_def)
qed

lemma small_drain:
  "drain small_ownership (idle_io stopping_core) [] small_controller Map.empty
    = Some (Inr (), [HostStopping, HostStopped], Map.empty)"
proof -
  let ?ctl = "small_controller\<lparr>ctl_core := snd (begin_stopping (ctl_core small_controller))\<rparr>"
  let ?stopping = "update_instance (\<lambda>i. i\<lparr>instance_phase := Stopping\<rparr>) ?ctl"
  have idle: "is_drained (snapshot (coordinator_of stopping_core))"
    by (simp add: stopping_core_def core_eval core_ops)
  then have "await_work (idle_io stopping_core) = Some ([], [])" by (simp add: await_work_def idle_io_def)
  moreover have "controller_mark_stopping small_ownership (Inr (), None) ?ctl Map.empty
      = (Inr (), ?stopping, [OWNERSHIP_RECORD_FILE \<mapsto> RegularFile []])"
    using small_instance_valid [of Stopping]
    by (simp add: controller_mark_stopping_def publish_controller_def lease_publish_def publish_record_locked_def
        validate_record_def update_instance_def small_controller_def small_ownership_def OWNERSHIP_SCHEMA_VERSION_def
        reject_link_if_present_def) (simp add: small_instance_def)
  moreover have "ctl_lease ?stopping = ctl_lease small_controller"
    "control_endpoint (owned_instance (ctl_record ?stopping)) = None"
    by (simp_all add: update_instance_def small_controller_def small_instance_def)
  ultimately show ?thesis
    using idle small_cleanup
    by (simp add: drain_def Let_def idle_io_def release_after_drain_def failure_def stop_tasks_def record_server_result_def)
qed

theorem drain_releases_idle_core_witness:
  "drain small_ownership (idle_io stopping_core) [] small_controller Map.empty
     = Some (Inr (), [HostStopping, HostStopped], Map.empty)
   \<and> list_all released (permits stopping_core)"
proof -
  have "core_reachable (initial_core Starting)" by (auto simp: core_reachable_def)
  moreover have "lifecycle (initial_core Starting) = ctl_core small_controller"
    by (simp add: initial_core_def small_controller_def)
  moreover have "(initial_core Starting)\<lparr>lifecycle := snd (begin_stopping (ctl_core small_controller))\<rparr> = stopping_core"
    by (simp add: stopping_core_def small_controller_def)
  ultimately have "\<forall>s'. core_step\<^sup>*\<^sup>* stopping_core s' \<longrightarrow> list_all released (permits s')"
    using drain_releases_idle_core [OF _ _ _ _ _ small_drain, of "initial_core Starting"] by (simp add: idle_io_def)
  with small_drain show ?thesis by blast
qed

end
