(* ===== verification/Control.thy ===== *)
theory Control
  imports Ownership
begin

text \<open>
  The local control channel of a running Core (\<open>src/lifecycle/control.rs\<close>): framed messages, challenges with
  nonces, proofs by a keyed hash over a transcript, the guard against replays, and the two ends of an exchange.
  HMAC-SHA-256, the JSON form of messages and owners, the random source, the clock and the network are
  parameters; the other end of a connection may be anybody, and its answers may depend on what it was sent.
\<close>

section \<open>Frames\<close>

definition to_be_bytes :: "nat \<Rightarrow> string" where
  "to_be_bytes n = map char_of [n div 2 ^ 24 mod 256, n div 2 ^ 16 mod 256, n div 2 ^ 8 mod 256, n mod 256]"

definition from_be_bytes :: "string \<Rightarrow> nat" where
  "from_be_bytes bs = foldl (\<lambda>n c. 256 * n + byte c) 0 bs"

definition FRAME_HEADER_BYTES :: nat where "FRAME_HEADER_BYTES = 4"

definition validate_size :: "nat \<Rightarrow> unit lifecycle_result" where
  "validate_size n = require (n \<le> MAX_CONTROL_MESSAGE_BYTES) (MessageTooLarge MAX_CONTROL_MESSAGE_BYTES)"

datatype control_message =
    ClientHello nat string string
  | ServerChallenge nat string owner_identity core_mode string string
  | ClientRequest string string string
  | ServerResponse string string string

record control_env =
  mac :: "string \<Rightarrow> string \<Rightarrow> string"
  owner_transcript :: "owner_identity \<Rightarrow> core_mode \<Rightarrow> string"
  message_bytes :: "control_message \<Rightarrow> (string, string) result"
  message_of_bytes :: "string \<Rightarrow> (string, control_message) result"

definition encode_control_message :: "control_env \<Rightarrow> control_message \<Rightarrow> string lifecycle_result" where
  "encode_control_message env m =
     (case message_bytes env m of
        Inl e \<Rightarrow> Inl (SerializationFailed e)
      | Inr body \<Rightarrow> rbind (validate_size (length body)) (\<lambda>_. Inr (to_be_bytes (length body) @ body)))"

text \<open>Reading a message from the bytes that arrive before the deadline (\<open>None\<close> if they do not), with the bytes
  that are left.\<close>

definition remaining_time :: "deadline \<Rightarrow> nat \<Rightarrow> string \<Rightarrow> nat lifecycle_result" where
  "remaining_time d now phase =
     (if deadline_remaining d now = 0 then Inl (DeadlineExpired phase) else Inr (deadline_remaining d now))"

definition read_frame :: "string \<Rightarrow> (string \<times> string) lifecycle_result" where
  "read_frame bytes =
     (if length bytes < FRAME_HEADER_BYTES then Inl (LifecycleIo ''early eof'')
      else (let n = from_be_bytes (take FRAME_HEADER_BYTES bytes) in
        if MAX_CONTROL_MESSAGE_BYTES < n then Inl (LifecycleIo ''control frame exceeds size limit'')
        else if length bytes < FRAME_HEADER_BYTES + n then Inl (LifecycleIo ''early eof'')
        else Inr (take n (drop FRAME_HEADER_BYTES bytes), drop (FRAME_HEADER_BYTES + n) bytes)))"

definition read_control_message ::
  "control_env \<Rightarrow> deadline \<Rightarrow> nat \<Rightarrow> string option \<Rightarrow> (control_message \<times> string) lifecycle_result" where
  "read_control_message env d now input =
     rbind (remaining_time d now ''control read'') (\<lambda>_.
     rbind (ok_or input (DeadlineExpired ''control read'')) (\<lambda>bytes.
     rbind (read_frame bytes) (\<lambda>(body, rest).
       case message_of_bytes env body of Inl e \<Rightarrow> Inl (SerializationFailed e) | Inr m \<Rightarrow> Inr (m, rest))))"

definition write_control_message ::
  "control_env \<Rightarrow> deadline \<Rightarrow> nat \<Rightarrow> unit lifecycle_result \<Rightarrow> control_message \<Rightarrow> string lifecycle_result" where
  "write_control_message env d now sent m =
     rbind (encode_control_message env m) (\<lambda>frame.
     rbind (remaining_time d now ''control write'') (\<lambda>_.
     rbind sent (\<lambda>_. Inr frame)))"

section \<open>Challenges and proofs\<close>

definition CONTROL_PROTOCOL_VERSION :: nat where "CONTROL_PROTOCOL_VERSION = 1"

definition CONTROL_NONCE_BYTES :: nat where "CONTROL_NONCE_BYTES = 32"

record control_context =
  ctx_instance :: string
  ctx_owner :: owner_identity
  ctx_mode :: core_mode

record control_challenge =
  challenge_version :: nat
  challenge_context :: control_context
  client_nonce :: string
  server_nonce :: string

definition all_zero :: "string \<Rightarrow> bool" where
  "all_zero bs = list_all (\<lambda>c. byte c = 0) bs"

definition validate_challenge :: "control_challenge \<Rightarrow> unit lifecycle_result" where
  "validate_challenge ch =
     rbind (require (challenge_version ch = CONTROL_PROTOCOL_VERSION) AuthenticationFailed) (\<lambda>_.
     rbind (validate_owner (ctx_owner (challenge_context ch))) (\<lambda>_.
       require (\<not> all_zero (client_nonce ch) \<and> \<not> all_zero (server_nonce ch)) AuthenticationFailed))"

definition challenge_of :: "control_context \<Rightarrow> string \<Rightarrow> string \<Rightarrow> control_challenge" where
  "challenge_of ctx nonce drawn =
     \<lparr>challenge_version = CONTROL_PROTOCOL_VERSION, challenge_context = ctx, client_nonce = nonce, server_nonce = drawn\<rparr>"

definition answer_client_hello ::
  "control_context \<Rightarrow> string \<Rightarrow> string lifecycle_result \<Rightarrow> control_challenge lifecycle_result" where
  "answer_client_hello ctx nonce random =
     rbind (require (\<not> all_zero nonce) AuthenticationFailed) (\<lambda>_.
     rbind random (\<lambda>drawn.
       (let ch = challenge_of ctx nonce drawn in rbind (validate_challenge ch) (\<lambda>_. Inr ch))))"

datatype control_operation = Readiness | GracefulStop | ServiceShutdown

definition operation_str :: "control_operation \<Rightarrow> string" where
  "operation_str op =
     (case op of Readiness \<Rightarrow> ''readiness'' | GracefulStop \<Rightarrow> ''graceful-stop'' | ServiceShutdown \<Rightarrow> ''service-shutdown'')"

definition parse_operation :: "string \<Rightarrow> control_operation lifecycle_result" where
  "parse_operation s =
     (if s = ''readiness'' then Inr Readiness
      else if s = ''graceful-stop'' then Inr GracefulStop
      else if s = ''service-shutdown'' then Inr ServiceShutdown
      else Inl AuthenticationFailed)"

definition base_fields :: "control_env \<Rightarrow> control_challenge \<Rightarrow> string \<Rightarrow> string list" where
  "base_fields env ch role =
     [[char_of CONTROL_PROTOCOL_VERSION], client_nonce ch, server_nonce ch, ctx_instance (challenge_context ch),
      owner_transcript env (ctx_owner (challenge_context ch)) (ctx_mode (challenge_context ch)), role]"

text \<open>What the keyed hash is computed over: each field with its length in front.\<close>

fun transcript :: "string list \<Rightarrow> string lifecycle_result" where
  "transcript [] = Inr []"
| "transcript (f # fs) =
     rbind (require (length f < 2 ^ 32) (MessageTooLarge MAX_CONTROL_MESSAGE_BYTES)) (\<lambda>_.
     rbind (transcript fs) (\<lambda>rest. Inr (to_be_bytes (length f) @ f @ rest)))"

definition calculate_proof :: "control_env \<Rightarrow> string \<Rightarrow> string list \<Rightarrow> string lifecycle_result" where
  "calculate_proof env key fs = rbind (transcript fs) (\<lambda>m. Inr (mac env key m))"

definition validate_control_payload :: "string \<Rightarrow> string \<Rightarrow> unit lifecycle_result" where
  "validate_control_payload operation arguments =
     rbind (require (operation \<noteq> [] \<and> length operation \<le> 256)
       (UnsafeOwnership ''control operation name has an invalid length'')) (\<lambda>_. validate_size (length arguments))"

definition server_proof :: "control_env \<Rightarrow> string \<Rightarrow> control_challenge \<Rightarrow> string lifecycle_result" where
  "server_proof env key ch =
     rbind (validate_challenge ch) (\<lambda>_. calculate_proof env key (base_fields env ch ''server-proof''))"

definition request_fields :: "control_env \<Rightarrow> control_challenge \<Rightarrow> control_operation \<Rightarrow> string \<Rightarrow> string list" where
  "request_fields env ch op args = base_fields env ch ''client-request'' @ [operation_str op, args]"

definition client_request_proof ::
  "control_env \<Rightarrow> string \<Rightarrow> control_challenge \<Rightarrow> control_operation \<Rightarrow> string \<Rightarrow> string lifecycle_result" where
  "client_request_proof env key ch op args =
     rbind (validate_control_payload (operation_str op) args) (\<lambda>_.
     rbind (validate_challenge ch) (\<lambda>_. calculate_proof env key (request_fields env ch op args)))"

definition server_response_proof ::
  "control_env \<Rightarrow> string \<Rightarrow> control_challenge \<Rightarrow> control_operation \<Rightarrow> string \<Rightarrow> string \<Rightarrow> string lifecycle_result" where
  "server_response_proof env key ch op args res =
     rbind (validate_control_payload (operation_str op) args) (\<lambda>_.
     rbind (validate_size (length res)) (\<lambda>_.
     rbind (validate_challenge ch) (\<lambda>_.
       calculate_proof env key (base_fields env ch ''server-response'' @ [operation_str op, args, res]))))"

definition verify_proof :: "string \<Rightarrow> string \<Rightarrow> unit lifecycle_result" where
  "verify_proof expected supplied = require (expected = supplied) AuthenticationFailed"

section \<open>Sessions\<close>

definition MAX_USED_CONTROL_CHALLENGES :: nat where "MAX_USED_CONTROL_CHALLENGES = 65536"

text \<open>The set of the nonces used, as the list of them.\<close>

type_synonym challenge_registry = "string list"

record single_request_session =
  session_challenge :: control_challenge
  session_deadline :: deadline
  consumed :: bool

definition open_session ::
  "control_challenge \<Rightarrow> deadline \<Rightarrow> nat \<Rightarrow> challenge_registry
   \<Rightarrow> (single_request_session \<times> challenge_registry) lifecycle_result" where
  "open_session ch d now used =
     rbind (validate_challenge ch) (\<lambda>_.
     rbind (require (\<not> is_expired_at d now) (DeadlineExpired ''control challenge'')) (\<lambda>_.
     rbind (require (server_nonce ch \<notin> set used) AuthenticationFailed) (\<lambda>_.
     rbind (require (length used < MAX_USED_CONTROL_CHALLENGES)
       (UnsafeOwnership ''control replay guard reached its bounded capacity'')) (\<lambda>_.
       Inr (\<lparr>session_challenge = ch, session_deadline = d, consumed = False\<rparr>, server_nonce ch # used)))))"

definition mode_allows :: "control_operation \<Rightarrow> core_mode \<Rightarrow> bool" where
  "mode_allows op m =
     (case op of Readiness \<Rightarrow> True | GracefulStop \<Rightarrow> m = UserDaemon | ServiceShutdown \<Rightarrow> m = SystemService)"

definition verify_request ::
  "control_env \<Rightarrow> string \<Rightarrow> control_operation \<Rightarrow> string \<Rightarrow> string \<Rightarrow> nat \<Rightarrow> single_request_session
   \<Rightarrow> unit lifecycle_result \<times> single_request_session" where
  "verify_request env key op args proof now sess =
     (if consumed sess then (Inl ChallengeConsumed, sess)
      else
        (rbind (require (\<not> is_expired_at (session_deadline sess) now) (DeadlineExpired ''control challenge'')) (\<lambda>_.
         rbind (require (mode_allows op (ctx_mode (challenge_context (session_challenge sess))))
           (ModeNotControllable (mode_name (ctx_mode (challenge_context (session_challenge sess)))))) (\<lambda>_.
         rbind (client_request_proof env key (session_challenge sess) op args) (\<lambda>expected.
           verify_proof expected proof))),
         sess\<lparr>consumed := True\<rparr>))"

definition response_proof ::
  "control_env \<Rightarrow> string \<Rightarrow> control_operation \<Rightarrow> string \<Rightarrow> string \<Rightarrow> nat \<Rightarrow> single_request_session
   \<Rightarrow> string lifecycle_result" where
  "response_proof env key op args res now sess =
     rbind (require (\<not> is_expired_at (session_deadline sess) now) (DeadlineExpired ''control response'')) (\<lambda>_.
       server_response_proof env key (session_challenge sess) op args res)"

section \<open>The two ends\<close>

text \<open>One connection as the server sees it: what the other end sends first and, knowing the challenge frame,
  next; the nonce drawn; whether a write gets through; the readings of the clock; and the phase of the Core.\<close>

record peer =
  hello_bytes :: "string option"
  reply_bytes :: "string \<Rightarrow> string option"
  drawn_nonce :: "string lifecycle_result"
  sent_ok :: "nat \<Rightarrow> unit lifecycle_result"
  tick :: "nat \<Rightarrow> nat"
  seen_phase :: lifecycle_phase

definition STOP_DISPATCH_BUDGET :: nat where "STOP_DISPATCH_BUDGET = from_secs 10"

definition connection_deadline :: "peer \<Rightarrow> deadline" where
  "connection_deadline p = deadline_after (tick p 0) STOP_DISPATCH_BUDGET"

definition readiness_result :: "string \<Rightarrow> lifecycle_phase \<Rightarrow> string" where
  "readiness_result args ph =
     (if args = ''prepared'' \<and> ph = Starting then ''prepared''
      else if args = ''ready'' \<and> ph = Ready then ''ready'' else ''not-ready'')"

definition dispatch_operation :: "control_operation \<Rightarrow> string \<Rightarrow> lifecycle_phase \<Rightarrow> string \<times> bool" where
  "dispatch_operation op args ph =
     (if op = Readiness then (readiness_result args ph, False) else (''accepted'', True))"

text \<open>The first half, up to the challenge frame; then the second half, in a session.\<close>

definition challenge_peer ::
  "control_env \<Rightarrow> control_context \<Rightarrow> string \<Rightarrow> peer \<Rightarrow> (control_challenge \<times> string \<times> string) lifecycle_result" where
  "challenge_peer env ctx key p =
     rbind (read_control_message env (connection_deadline p) (tick p 1) (hello_bytes p)) (\<lambda>(hello, rest).
       case hello of
         ClientHello version i nonce \<Rightarrow>
           rbind (require (version = CONTROL_PROTOCOL_VERSION \<and> i = ctx_instance ctx) AuthenticationFailed) (\<lambda>_.
           rbind (answer_client_hello ctx nonce (drawn_nonce p)) (\<lambda>ch.
           rbind (server_proof env key ch) (\<lambda>proof.
           rbind (write_control_message env (connection_deadline p) (tick p 2) (sent_ok p 0)
             (ServerChallenge CONTROL_PROTOCOL_VERSION (ctx_instance ctx) (ctx_owner ctx) (ctx_mode ctx)
               (server_nonce ch) proof)) (\<lambda>frame. Inr (ch, frame, rest)))))
       | _ \<Rightarrow> Inl AuthenticationFailed)"

definition serve_session ::
  "control_env \<Rightarrow> string \<Rightarrow> peer \<Rightarrow> single_request_session \<Rightarrow> string option \<Rightarrow> (string \<times> bool) lifecycle_result" where
  "serve_session env key p sess input =
     rbind (read_control_message env (connection_deadline p) (tick p 4) input) (\<lambda>(request, _).
       case request of
         ClientRequest name args proof \<Rightarrow>
           rbind (parse_operation name) (\<lambda>op.
             case verify_request env key op args proof (tick p 5) sess of
               (Inl e, _) \<Rightarrow> Inl e
             | (Inr _, sess') \<Rightarrow>
                 (case dispatch_operation op args (seen_phase p) of (res, stop) \<Rightarrow>
                    rbind (response_proof env key op args res (tick p 6) sess') (\<lambda>rp.
                    rbind (write_control_message env (connection_deadline p) (tick p 7) (sent_ok p 1)
                      (ServerResponse (operation_str op) res rp)) (\<lambda>frame. Inr (frame, stop)))))
       | _ \<Rightarrow> Inl AuthenticationFailed)"

text \<open>The answer (whether to stop), the nonces used, and the frames written.\<close>

definition handle_control_connection ::
  "control_env \<Rightarrow> control_context \<Rightarrow> string \<Rightarrow> peer \<Rightarrow> challenge_registry
   \<Rightarrow> bool lifecycle_result \<times> challenge_registry \<times> string list" where
  "handle_control_connection env ctx key p used =
     (case challenge_peer env ctx key p of
        Inl e \<Rightarrow> (Inl e, used, [])
      | Inr (ch, frame, rest) \<Rightarrow>
          (case open_session ch (connection_deadline p) (tick p 3) used of
             Inl e \<Rightarrow> (Inl e, used, [frame])
           | Inr (sess, used') \<Rightarrow>
               (case serve_session env key p sess (map_option (\<lambda>more. rest @ more) (reply_bytes p frame)) of
                  Inl e \<Rightarrow> (Inl e, used', [frame])
                | Inr (frame', stop) \<Rightarrow> (Inr stop, used', [frame, frame']))))"

text \<open>The accept loop.  Its end is \<open>None\<close> while it goes on; next to it whether stopping was requested, and
  what became of each connection.  A shutdown that arrives during an exchange drops the exchange and ends the
  loop, like one that arrives before it: both are \<open>ShutdownRequested\<close>.\<close>

datatype accept_event = ShutdownRequested | AcceptFailed string | Accepted bool peer

fun serve_control ::
  "control_env \<Rightarrow> control_context \<Rightarrow> string \<Rightarrow> accept_event list \<Rightarrow> challenge_registry
   \<Rightarrow> unit lifecycle_result option \<times> bool \<times> (peer \<times> bool lifecycle_result) list" where
  "serve_control env ctx key [] used = (None, False, [])"
| "serve_control env ctx key (ShutdownRequested # es) used = (Some (Inr ()), False, [])"
| "serve_control env ctx key (AcceptFailed e # es) used = (Some (Inl (LifecycleIo e)), False, [])"
| "serve_control env ctx key (Accepted loopback p # es) used =
     (if \<not> loopback then serve_control env ctx key es used
      else (case handle_control_connection env ctx key p used of
          (answer, used', _) \<Rightarrow>
            (case serve_control env ctx key es used' of
               (fin, stop, served) \<Rightarrow> (fin, answer = Inr True \<or> stop, (p, answer) # served))))"

text \<open>The client: the server is what it answers to each frame.\<close>

record server =
  answer_bytes :: "nat \<Rightarrow> string \<Rightarrow> string option"
  connected :: "unit lifecycle_result"
  client_random :: "string lifecycle_result"
  client_sent :: "nat \<Rightarrow> unit lifecycle_result"
  client_tick :: "nat \<Rightarrow> nat"

definition verify_client_owner :: "owner_identity \<Rightarrow> owner_identity \<Rightarrow> unit lifecycle_result" where
  "verify_client_owner client live_owner =
     rbind (validate_owner client) (\<lambda>_.
     rbind (validate_owner live_owner) (\<lambda>_. require (client = live_owner) WrongOwner))"

definition request_allowed ::
  "control_context \<Rightarrow> owner_identity \<Rightarrow> control_operation \<Rightarrow> string \<Rightarrow> deadline \<Rightarrow> nat \<Rightarrow> unit lifecycle_result" where
  "request_allowed ctx client op args d now =
     rbind (if ctx_mode ctx \<noteq> SystemService \<or> op \<noteq> Readiness then verify_client_owner client (ctx_owner ctx) else Inr ()) (\<lambda>_.
     rbind (validate_control_payload (operation_str op) args) (\<lambda>_.
       require (\<not> is_expired_at d now) (DeadlineExpired ''control connection'')))"

definition accept_challenge ::
  "control_env \<Rightarrow> control_context \<Rightarrow> string \<Rightarrow> string \<Rightarrow> control_message \<Rightarrow> control_challenge lifecycle_result" where
  "accept_challenge env ctx key nonce m =
     (case m of
        ServerChallenge version i owner mode drawn proof \<Rightarrow>
          rbind (require (version = CONTROL_PROTOCOL_VERSION \<and> i = ctx_instance ctx \<and> owner = ctx_owner ctx \<and> mode = ctx_mode ctx)
            AuthenticationFailed) (\<lambda>_.
          (let ch = \<lparr>challenge_version = version, challenge_context = ctx, client_nonce = nonce, server_nonce = drawn\<rparr> in
           rbind (validate_challenge ch) (\<lambda>_.
           rbind (server_proof env key ch) (\<lambda>expected.
           rbind (verify_proof expected proof) (\<lambda>_. Inr ch)))))
      | _ \<Rightarrow> Inl AuthenticationFailed)"

definition accept_response ::
  "control_env \<Rightarrow> string \<Rightarrow> control_challenge \<Rightarrow> control_operation \<Rightarrow> string \<Rightarrow> control_message \<Rightarrow> string lifecycle_result" where
  "accept_response env key ch op args m =
     (case m of
        ServerResponse name res proof \<Rightarrow>
          rbind (require (name = operation_str op) AuthenticationFailed) (\<lambda>_.
          rbind (server_response_proof env key ch op args res) (\<lambda>expected.
          rbind (verify_proof expected proof) (\<lambda>_. Inr res)))
      | _ \<Rightarrow> Inl AuthenticationFailed)"

definition request_control ::
  "control_env \<Rightarrow> control_context \<Rightarrow> owner_identity \<Rightarrow> string \<Rightarrow> control_operation \<Rightarrow> string \<Rightarrow> deadline \<Rightarrow> server
   \<Rightarrow> string lifecycle_result" where
  "request_control env ctx client key op args d srv =
     rbind (request_allowed ctx client op args d (client_tick srv 0)) (\<lambda>_.
     rbind (connected srv) (\<lambda>_.
     rbind (client_random srv) (\<lambda>nonce.
     rbind (require (\<not> all_zero nonce) RandomnessFailed) (\<lambda>_.
     rbind (write_control_message env d (client_tick srv 1) (client_sent srv 0)
       (ClientHello CONTROL_PROTOCOL_VERSION (ctx_instance ctx) nonce)) (\<lambda>hello.
     rbind (read_control_message env d (client_tick srv 2) (answer_bytes srv 0 hello)) (\<lambda>(m, rest).
     rbind (accept_challenge env ctx key nonce m) (\<lambda>ch.
     rbind (client_request_proof env key ch op args) (\<lambda>proof.
     rbind (write_control_message env d (client_tick srv 3) (client_sent srv 1)
       (ClientRequest (operation_str op) args proof)) (\<lambda>request.
     rbind (read_control_message env d (client_tick srv 4)
       (map_option (\<lambda>more. rest @ more) (answer_bytes srv 1 request))) (\<lambda>(response, _).
       accept_response env key ch op args response))))))))))"

section \<open>Frames read back\<close>

lemma length_to_be_bytes [simp]: "length (to_be_bytes n) = 4"
  by (simp add: to_be_bytes_def)

lemma be_bytes_roundtrip: "n < 2 ^ 32 \<Longrightarrow> from_be_bytes (to_be_bytes n) = n"
proof -
  assume "n < 2 ^ 32"
  then have "n div 2 ^ 24 < 256" by (simp add: div_less_iff_less_mult)
  moreover have "256 * (256 * (256 * (n div 2 ^ 24) + n div 2 ^ 16 mod 256) + n div 2 ^ 8 mod 256) + n mod 256 = n"
  proof -
    have "256 * (n div 2 ^ 24) + n div 2 ^ 16 mod 256 = n div 2 ^ 16"
      using mult_div_mod_eq [of 256 "n div 2 ^ 16"] by (simp add: div_mult2_eq [symmetric])
    moreover have "256 * (n div 2 ^ 16) + n div 2 ^ 8 mod 256 = n div 2 ^ 8"
      using mult_div_mod_eq [of 256 "n div 2 ^ 8"] by (simp add: div_mult2_eq [symmetric])
    ultimately show ?thesis using mult_div_mod_eq [of 256 n] by simp
  qed
  ultimately show ?thesis by (simp add: from_be_bytes_def to_be_bytes_def)
qed

lemma to_be_bytes_inj: "a < 2 ^ 32 \<Longrightarrow> b < 2 ^ 32 \<Longrightarrow> to_be_bytes a = to_be_bytes b \<Longrightarrow> a = b"
  by (metis be_bytes_roundtrip)

lemma read_frame_encoded:
  assumes "length body \<le> MAX_CONTROL_MESSAGE_BYTES"
  shows "read_frame (to_be_bytes (length body) @ body @ rest) = Inr (body, rest)"
proof -
  have "length body < 2 ^ 32" using assms by (simp add: MAX_CONTROL_MESSAGE_BYTES_def)
  then have "from_be_bytes (to_be_bytes (length body)) = length body" by (rule be_bytes_roundtrip)
  with assms show ?thesis by (simp add: read_frame_def FRAME_HEADER_BYTES_def)
qed

lemma transcript_Inr_Cons:
  "transcript (f # fs) = Inr m \<longleftrightarrow> length f < 2 ^ 32 \<and> (\<exists>r. transcript fs = Inr r \<and> m = to_be_bytes (length f) @ f @ r)"
  by (auto simp: rbind_Inr)

lemma transcript_inj: "transcript fs = Inr m \<Longrightarrow> transcript gs = Inr m \<Longrightarrow> fs = gs"
proof (induction fs arbitrary: gs m)
  case Nil
  then show ?case by (cases gs) (auto simp: transcript_Inr_Cons to_be_bytes_def simp del: transcript.simps(2))
next
  case (Cons f fs)
  then obtain r where f: "length f < 2 ^ 32" "transcript fs = Inr r" "m = to_be_bytes (length f) @ f @ r"
    by (auto simp: transcript_Inr_Cons simp del: transcript.simps(2))
  show ?case
  proof (cases gs)
    case Nil
    with Cons.prems(2) f show ?thesis by (simp add: to_be_bytes_def)
  next
    case (Cons g gs')
    with \<open>transcript gs = Inr m\<close> obtain r' where
      g: "length g < 2 ^ 32" "transcript gs' = Inr r'" "m = to_be_bytes (length g) @ g @ r'"
      by (auto simp: transcript_Inr_Cons simp del: transcript.simps(2))
    from f(3) g(3) have "to_be_bytes (length f) = to_be_bytes (length g)" "f @ r = g @ r'" by (simp_all add: append_eq_append_conv)
    with to_be_bytes_inj [OF f(1) g(1)] have "f = g" "r = r'" by simp_all
    with Cons.IH [OF f(2)] g(2) \<open>gs = g # gs'\<close> show ?thesis by simp
  qed
qed

lemma operation_str_inj: "operation_str a = operation_str b \<Longrightarrow> a = b"
  by (cases a; cases b) (simp_all add: operation_str_def)

lemma parse_operation_str [simp]: "parse_operation (operation_str op) = Inr op"
  by (cases op) (simp_all add: parse_operation_def operation_str_def)

section \<open>What an accepted request shows\<close>

text \<open>The other end presented, on a challenge with the nonce drawn for this connection, the proof of a request to
  stop that the mode of the Core allows.\<close>

definition presents_proof :: "control_env \<Rightarrow> control_context \<Rightarrow> string \<Rightarrow> peer \<Rightarrow> bool" where
  "presents_proof env ctx key p \<longleftrightarrow>
     (\<exists>ch op args m frame rest more body left.
        challenge_context ch = ctx \<and> drawn_nonce p = Inr (server_nonce ch)
      \<and> op \<noteq> Readiness \<and> mode_allows op (ctx_mode ctx)
      \<and> transcript (request_fields env ch op args) = Inr m
      \<and> reply_bytes p frame = Some more \<and> read_frame (rest @ more) = Inr (body, left)
      \<and> message_of_bytes env body = Inr (ClientRequest (operation_str op) args (mac env key m)))"

lemma parse_operation_Inr: "parse_operation s = Inr op \<Longrightarrow> s = operation_str op"
  by (auto simp: parse_operation_def operation_str_def split: if_splits)

lemma challenge_peer_nonce:
  assumes "challenge_peer env ctx key p = Inr (ch, frame, rest)"
  shows "challenge_context ch = ctx \<and> drawn_nonce p = Inr (server_nonce ch)"
proof -
  have answered: "challenge_context ch' = ctx \<and> drawn_nonce p = Inr (server_nonce ch')"
    if "answer_client_hello ctx nonce (drawn_nonce p) = Inr ch'" for nonce ch'
    using that by (auto simp: answer_client_hello_def challenge_of_def Let_def rbind_Inr)
  from assms obtain hello rest' where "read_control_message env (connection_deadline p) (tick p 1) (hello_bytes p) = Inr (hello, rest')"
    by (auto simp: challenge_peer_def rbind_Inr)
  with assms show ?thesis
    by (cases hello) (auto simp: challenge_peer_def rbind_Inr dest!: answered)
qed

lemma open_session_Inr:
  "open_session ch d now used = Inr (sess, used') \<Longrightarrow>
     server_nonce ch \<notin> set used \<and> used' = server_nonce ch # used
   \<and> sess = \<lparr>session_challenge = ch, session_deadline = d, consumed = False\<rparr>"
  by (auto simp: open_session_def rbind_Inr)

lemma verify_request_Inr:
  assumes "verify_request env key op args proof now sess = (Inr u, sess')"
  shows "mode_allows op (ctx_mode (challenge_context (session_challenge sess)))
    \<and> (\<exists>m. transcript (request_fields env (session_challenge sess) op args) = Inr m \<and> proof = mac env key m)"
  using assms
  by (auto simp: verify_request_def client_request_proof_def calculate_proof_def verify_proof_def rbind_Inr
      split: if_splits)

lemma read_control_message_Inr:
  "read_control_message env d now input = Inr (m, left) \<Longrightarrow>
     \<exists>bytes body. input = Some bytes \<and> read_frame bytes = Inr (body, left) \<and> message_of_bytes env body = Inr m"
  by (cases input; cases "read_frame (the input)"; cases "message_of_bytes env (fst (projr (read_frame (the input))))")
    (auto simp: read_control_message_def rbind_Inr)

lemma serve_session_stop:
  assumes "serve_session env key p sess input = Inr (frame', True)"
  shows "\<exists>op args m body bytes left. op \<noteq> Readiness \<and> mode_allows op (ctx_mode (challenge_context (session_challenge sess)))
    \<and> transcript (request_fields env (session_challenge sess) op args) = Inr m
    \<and> input = Some bytes \<and> read_frame bytes = Inr (body, left)
    \<and> message_of_bytes env body = Inr (ClientRequest (operation_str op) args (mac env key m))"
proof -
  from assms obtain request left where read: "read_control_message env (connection_deadline p) (tick p 4) input = Inr (request, left)"
    by (auto simp: serve_session_def rbind_Inr)
  with assms obtain name args pf where request: "request = ClientRequest name args pf"
    by (cases request) (auto simp: serve_session_def)
  from assms obtain op where op: "parse_operation name = Inr op"
    by (auto simp: serve_session_def read request rbind_Inr)
  obtain r sess' where verified: "verify_request env key op args pf (tick p 5) sess = (r, sess')" by fastforce
  obtain res st where outcome: "dispatch_operation op args (seen_phase p) = (res, st)" by fastforce
  from assms obtain u where r: "r = Inr u" and stop: st
    by (cases r) (auto simp: serve_session_def read request op verified outcome rbind_Inr)
  note ok = verified [unfolded r]
  from stop outcome have "op \<noteq> Readiness" by (auto simp: dispatch_operation_def)
  with verify_request_Inr [OF ok] read_control_message_Inr [OF read] parse_operation_Inr [OF op]
  show ?thesis unfolding request by blast
qed

lemma handle_used:
  assumes "handle_control_connection env ctx key p used = (answer, used', frames)"
  shows "used' = used \<or> (\<exists>drawn. drawn_nonce p = Inr drawn \<and> drawn \<notin> set used \<and> used' = drawn # used)"
    and "answer = Inr b \<Longrightarrow> used' \<noteq> used"
  using assms unfolding handle_control_connection_def
  by (auto dest!: challenge_peer_nonce open_session_Inr split: sum.splits prod.splits)

lemma handle_stop:
  assumes "handle_control_connection env ctx key p used = (Inr True, used', frames)"
  shows "presents_proof env ctx key p"
proof -
  from assms obtain ch frame rest sess frame' where
    ch: "challenge_peer env ctx key p = Inr (ch, frame, rest)"
    and sess: "open_session ch (connection_deadline p) (tick p 3) used = Inr (sess, used')"
    and stop: "serve_session env key p sess (map_option (\<lambda>more. rest @ more) (reply_bytes p frame)) = Inr (frame', True)"
    unfolding handle_control_connection_def by (auto split: sum.splits prod.splits)
  have challenge: "session_challenge sess = ch" using open_session_Inr [OF sess] by simp
  from serve_session_stop [OF stop] obtain op args m body bytes left where
    req: "op \<noteq> Readiness" "mode_allows op (ctx_mode (challenge_context ch))"
      "transcript (request_fields env ch op args) = Inr m"
      "map_option (\<lambda>more. rest @ more) (reply_bytes p frame) = Some bytes" "read_frame bytes = Inr (body, left)"
      "message_of_bytes env body = Inr (ClientRequest (operation_str op) args (mac env key m))"
    unfolding challenge by blast
  with challenge_peer_nonce [OF ch] show ?thesis unfolding presents_proof_def by blast
qed

definition accepted_nonces :: "(peer \<times> bool lifecycle_result) list \<Rightarrow> string lifecycle_result list" where
  "accepted_nonces served = map (\<lambda>(p, _). drawn_nonce p) (filter (\<lambda>(_, answer). is_ok answer) served)"

lemma serve_control_fresh:
  assumes "serve_control env ctx key es used = (fin, stop, served)"
  shows "distinct (accepted_nonces served) \<and> set (accepted_nonces served) \<inter> Inr ` set used = {}"
  using assms
proof (induction env ctx key es used arbitrary: fin stop served rule: serve_control.induct)
  case (4 env ctx key loopback p es used)
  show ?case
  proof (cases loopback)
    case False
    with 4 show ?thesis by simp
  next
    case True
    obtain answer used' frames where h: "handle_control_connection env ctx key p used = (answer, used', frames)"
      by (metis prod.exhaust)
    obtain fin' stop' served' where rest: "serve_control env ctx key es used' = (fin', stop', served')"
      by (metis prod.exhaust)
    from 4(2) [OF _ h [symmetric] refl rest] True
    have IH: "distinct (accepted_nonces served')" "set (accepted_nonces served') \<inter> Inr ` set used' = {}" by auto
    have served: "served = (p, answer) # served'" using 4(3) True by (simp add: h rest)
    have sub: "set used \<subseteq> set used'" using handle_used(1) [OF h] by auto
    show ?thesis
    proof (cases "is_ok answer")
      case False
      with IH sub show ?thesis by (auto simp: served accepted_nonces_def)
    next
      case ok: True
      then obtain b where "answer = Inr b" by (auto simp: is_ok_def split: sum.splits)
      with handle_used [OF h] obtain drawn where "drawn_nonce p = Inr drawn" "drawn \<notin> set used" "used' = drawn # used"
        by auto
      with IH ok show ?thesis by (auto simp: served accepted_nonces_def)
    qed
  qed
qed (auto simp: accepted_nonces_def)

lemma serve_control_proofs:
  assumes "serve_control env ctx key es used = (fin, stop, served)" and "(p, Inr True) \<in> set served"
  shows "presents_proof env ctx key p"
  using assms
proof (induction env ctx key es used arbitrary: fin stop served rule: serve_control.induct)
  case (4 env ctx key loopback q es used)
  obtain answer used' frames where h: "handle_control_connection env ctx key q used = (answer, used', frames)"
    by (metis prod.exhaust)
  obtain fin' stop' served' where rest: "serve_control env ctx key es used' = (fin', stop', served')"
    by (metis prod.exhaust)
  show ?case
  proof (cases loopback)
    case True
    with 4(3) have "served = (q, answer) # served'" by (simp add: h rest)
    with 4(4) 4(2) [OF _ h [symmetric] refl rest] True handle_stop [of env ctx key q used used' frames] h
    show ?thesis by auto
  qed (use 4 in simp)
qed auto

lemma serve_control_stop:
  "serve_control env ctx key es used = (fin, stop, served) \<Longrightarrow> stop \<longleftrightarrow> (\<exists>p. (p, Inr True) \<in> set served)"
  by (induction env ctx key es used arbitrary: fin stop served rule: serve_control.induct)
    (fastforce split: if_splits prod.splits)+

section \<open>Properties\<close>

text \<open>A proof is bound to one request: two requests with the same transcript have the same nonces, the same
  instance, the same owner and mode in their JSON form, the same operation and the same arguments, and no
  transcript of a request is one of the server's own proofs, which have another role in it.\<close>

theorem transcript_binds_request:
  assumes "transcript (request_fields env ch op args) = Inr m"
  shows "(transcript (request_fields env ch' op' args') = Inr m \<longrightarrow>
      client_nonce ch' = client_nonce ch \<and> server_nonce ch' = server_nonce ch
    \<and> ctx_instance (challenge_context ch') = ctx_instance (challenge_context ch)
    \<and> owner_transcript env (ctx_owner (challenge_context ch')) (ctx_mode (challenge_context ch'))
        = owner_transcript env (ctx_owner (challenge_context ch)) (ctx_mode (challenge_context ch))
    \<and> op' = op \<and> args' = args)
    \<and> transcript (base_fields env ch' ''server-proof'') \<noteq> Inr m
    \<and> transcript (base_fields env ch' ''server-response'' @ extra) \<noteq> Inr m"
proof (intro conjI impI notI)
  assume "transcript (request_fields env ch' op' args') = Inr m"
  from transcript_inj [OF this assms]
  have same: "request_fields env ch' op' args' = request_fields env ch op args" .
  then show "client_nonce ch' = client_nonce ch" "server_nonce ch' = server_nonce ch"
    "ctx_instance (challenge_context ch') = ctx_instance (challenge_context ch)"
    "owner_transcript env (ctx_owner (challenge_context ch')) (ctx_mode (challenge_context ch'))
      = owner_transcript env (ctx_owner (challenge_context ch)) (ctx_mode (challenge_context ch))"
    "args' = args" by (simp_all add: request_fields_def base_fields_def)
  from same show "op' = op" by (intro operation_str_inj) (simp add: request_fields_def base_fields_def)
next
  assume "transcript (base_fields env ch' ''server-proof'') = Inr m"
  from transcript_inj [OF this assms] show False by (simp add: request_fields_def base_fields_def)
next
  assume "transcript (base_fields env ch' ''server-response'' @ extra) = Inr m"
  from transcript_inj [OF this assms] show False by (simp add: request_fields_def base_fields_def)
qed

text \<open>A message carried by a frame, and ends that are in time and get through.\<close>

definition carried :: "control_env \<Rightarrow> control_message \<Rightarrow> string \<Rightarrow> bool" where
  "carried env m f \<longleftrightarrow>
     (\<exists>body. message_bytes env m = Inr body \<and> message_of_bytes env body = Inr m
        \<and> length body \<le> MAX_CONTROL_MESSAGE_BYTES \<and> f = to_be_bytes (length body) @ body)"

definition timely_peer :: "peer \<Rightarrow> bool" where
  "timely_peer p \<longleftrightarrow> (\<forall>k. tick p k < endpoint (connection_deadline p) \<and> sent_ok p k = Inr ())"

definition timely_server :: "server \<Rightarrow> deadline \<Rightarrow> bool" where
  "timely_server srv d \<longleftrightarrow> connected srv = Inr () \<and> (\<forall>k. client_tick srv k < endpoint d \<and> client_sent srv k = Inr ())"

lemma carried_write: "carried env m f \<Longrightarrow> now < endpoint d \<Longrightarrow> write_control_message env d now (Inr ()) m = Inr f"
  by (auto simp: carried_def write_control_message_def encode_control_message_def validate_size_def require_def
      remaining_time_def deadline_remaining_def)

lemma carried_read: "carried env m f \<Longrightarrow> now < endpoint d \<Longrightarrow> read_control_message env d now (Some f) = Inr (m, [])"
  using read_frame_encoded [of _ "[]"]
  by (auto simp: carried_def read_control_message_def remaining_time_def deadline_remaining_def)

lemma proof_validates:
  "server_proof env key ch = Inr sp \<Longrightarrow> validate_challenge ch = Inr ()"
  "server_response_proof env key ch op args res = Inr pp \<Longrightarrow> validate_challenge ch = Inr ()"
  by (auto simp: server_proof_def server_response_proof_def rbind_Inr)

text \<open>The two ends fit together: a client and a server that share the capability, in time and with nonces that
  are neither zero nor used, complete the exchange for every operation the mode allows: the server answers the
  request, marks its nonce as used and stops exactly if it was asked to, and the client gets the server's result.\<close>

theorem control_exchange_succeeds:
  assumes proofs: "server_proof env key (challenge_of ctx nonce drawn) = Inr sp" "client_request_proof env key (challenge_of ctx nonce drawn) op args = Inr rp"
      "server_response_proof env key (challenge_of ctx nonce drawn) op args res = Inr pp"
    and frames: "carried env (ClientHello CONTROL_PROTOCOL_VERSION (ctx_instance ctx) nonce) f1"
      "carried env (ServerChallenge CONTROL_PROTOCOL_VERSION (ctx_instance ctx) (ctx_owner ctx) (ctx_mode ctx) drawn sp) c1"
      "carried env (ClientRequest (operation_str op) args rp) f2" "carried env (ServerResponse (operation_str op) res pp) c2"
    and server: "timely_peer p" "drawn_nonce p = Inr drawn" "dispatch_operation op args (seen_phase p) = (res, stop)"
      "hello_bytes p = Some f1" "reply_bytes p c1 = Some f2" "mode_allows op (ctx_mode ctx)" "drawn \<notin> set used"
      "length used < MAX_USED_CONTROL_CHALLENGES"
    and client: "timely_server srv d" "client_random srv = Inr nonce" "answer_bytes srv 0 f1 = Some c1"
      "answer_bytes srv 1 f2 = Some c2" "request_allowed ctx owner op args d (client_tick srv 0) = Inr ()"
  shows "handle_control_connection env ctx key p used = (Inr stop, drawn # used, [c1, c2])
    \<and> request_control env ctx owner key op args d srv = Inr res"
proof
  let ?ch = "challenge_of ctx nonce drawn"
  note peer = server(1) [unfolded timely_peer_def, THEN spec]
  have valid: "validate_challenge ?ch = Inr ()" by (rule proof_validates(1) [OF proofs(1)])
  then have nonzero: "\<not> all_zero nonce" by (simp add: validate_challenge_def challenge_of_def rbind_Inr)
  have "answer_client_hello ctx nonce (drawn_nonce p) = Inr ?ch"
    using valid nonzero by (simp add: answer_client_hello_def server(2) challenge_of_def require_def)
  then have first: "challenge_peer env ctx key p = Inr (?ch, c1, [])"
    using peer proofs(1) carried_read [OF frames(1)] carried_write [OF frames(2)]
    by (simp add: challenge_peer_def server(4) require_def) (simp add: challenge_of_def)
  let ?sess = "\<lparr>session_challenge = ?ch, session_deadline = connection_deadline p, consumed = False\<rparr>"
  have not_expired: "\<not> is_expired_at (connection_deadline p) (tick p k)" for k
    using peer by (simp add: is_expired_at_def deadline_remaining_def not_le)
  then have session: "open_session ?ch (connection_deadline p) (tick p 3) used = Inr (?sess, drawn # used)"
    using valid server(7,8) by (simp add: open_session_def require_def) (simp add: challenge_of_def)
  have mode: "mode_allows op (ctx_mode (challenge_context ?ch))" by (simp add: challenge_of_def server(6))
  have "serve_session env key p ?sess (Some f2) = Inr (c2, stop)"
    using peer not_expired mode proofs(2,3) carried_read [OF frames(3)] carried_write [OF frames(4)]
    by (simp add: serve_session_def verify_request_def verify_proof_def response_proof_def server(3) require_def)
  with session show "handle_control_connection env ctx key p used = (Inr stop, drawn # used, [c1, c2])"
    by (simp add: handle_control_connection_def first server(5))
  from client(1) have in_time: "connected srv = Inr ()" "client_tick srv k < endpoint d" "client_sent srv k = Inr ()" for k
    by (simp_all add: timely_server_def)
  have accept: "accept_challenge env ctx key nonce
      (ServerChallenge CONTROL_PROTOCOL_VERSION (ctx_instance ctx) (ctx_owner ctx) (ctx_mode ctx) drawn sp) = Inr ?ch"
    using valid proofs(1) by (simp add: accept_challenge_def require_def verify_proof_def Let_def challenge_of_def)
  have "accept_response env key ?ch op args (ServerResponse (operation_str op) res pp) = Inr res"
    using proofs(3) by (simp add: accept_response_def require_def verify_proof_def)
  with in_time nonzero proofs(2) accept
    carried_write [OF frames(1)] carried_read [OF frames(2)] carried_write [OF frames(3)] carried_read [OF frames(4)]
  show "request_control env ctx owner key op args d srv = Inr res"
    by (simp add: request_control_def client(2-5) require_def del: One_nat_def)
qed


section \<open>A small exchange\<close>

definition small_context :: control_context where
  "small_context = \<lparr>ctx_instance = ''i'', ctx_owner = UnixUid 7, ctx_mode = UserDaemon\<rparr>"

definition small_control :: control_env where
  "small_control =
     \<lparr>mac = (\<lambda>key m. key), owner_transcript = (\<lambda>_ _. ''o''),
      message_bytes = (\<lambda>m. Inr (case m of ClientHello _ _ _ \<Rightarrow> ''h'' | ServerChallenge _ _ _ _ _ _ \<Rightarrow> ''c''
        | ClientRequest _ _ _ \<Rightarrow> ''q'' | ServerResponse _ _ _ \<Rightarrow> ''r'')),
      message_of_bytes = (\<lambda>b.
        if b = ''h'' then Inr (ClientHello 1 ''i'' ''a'')
        else if b = ''c'' then Inr (ServerChallenge 1 ''i'' (UnixUid 7) UserDaemon ''b'' ''k'')
        else if b = ''q'' then Inr (ClientRequest ''graceful-stop'' [] ''k'')
        else if b = ''r'' then Inr (ServerResponse ''graceful-stop'' ''accepted'' ''k'') else Inl ''bad message'')\<rparr>"

definition small_frame :: "char \<Rightarrow> string" where
  "small_frame c = to_be_bytes 1 @ [c]"

definition small_peer :: peer where
  "small_peer =
     \<lparr>hello_bytes = Some (small_frame CHR ''h''), reply_bytes = (\<lambda>_. Some (small_frame CHR ''q'')),
      drawn_nonce = Inr ''b'', sent_ok = (\<lambda>_. Inr ()), tick = (\<lambda>_. 0), seen_phase = Ready\<rparr>"

definition small_server :: server where
  "small_server =
     \<lparr>answer_bytes = (\<lambda>k _. Some (small_frame (if k = 0 then CHR ''c'' else CHR ''r''))), connected = Inr (),
      client_random = Inr ''a'', client_sent = (\<lambda>_. Inr ()), client_tick = (\<lambda>_. 0)\<rparr>"

definition small_challenge :: control_challenge where
  "small_challenge = challenge_of small_context ''a'' ''b''"

lemmas small_defs = small_context_def small_control_def small_frame_def small_peer_def small_server_def small_challenge_def
  challenge_of_def

lemma small_valid: "validate_challenge small_challenge = Inr ()"
  by (simp add: small_defs validate_challenge_def validate_owner_def all_zero_def require_def)

lemma small_transcript: "\<exists>m. transcript fs = Inr m" if "list_all (\<lambda>f. length f < 2 ^ 32) fs"
  using that by (induction fs) (auto simp: require_def)

lemma small_proof: "list_all (\<lambda>f. length f < 2 ^ 32) fs \<Longrightarrow> calculate_proof small_control ''k'' fs = Inr ''k''"
  using small_transcript [of fs] by (auto simp: calculate_proof_def small_control_def)

lemma small_proofs:
  "server_proof small_control ''k'' small_challenge = Inr ''k''"
  "client_request_proof small_control ''k'' small_challenge GracefulStop [] = Inr ''k''"
  "server_response_proof small_control ''k'' small_challenge GracefulStop [] ''accepted'' = Inr ''k''"
  by (simp_all add: server_proof_def client_request_proof_def server_response_proof_def small_valid
      validate_control_payload_def validate_size_def MAX_CONTROL_MESSAGE_BYTES_def require_def operation_str_def)
    (rule small_proof; simp add: request_fields_def base_fields_def small_defs operation_str_def)+

lemma small_carried:
  "carried small_control (ClientHello CONTROL_PROTOCOL_VERSION (ctx_instance small_context) ''a'') (small_frame CHR ''h'')"
  "carried small_control (ServerChallenge CONTROL_PROTOCOL_VERSION (ctx_instance small_context) (ctx_owner small_context)
     (ctx_mode small_context) ''b'' ''k'') (small_frame CHR ''c'')"
  "carried small_control (ClientRequest (operation_str GracefulStop) [] ''k'') (small_frame CHR ''q'')"
  "carried small_control (ServerResponse (operation_str GracefulStop) ''accepted'' ''k'') (small_frame CHR ''r'')"
  by (simp_all add: carried_def small_defs MAX_CONTROL_MESSAGE_BYTES_def CONTROL_PROTOCOL_VERSION_def operation_str_def)

lemma small_timely: "timely_peer small_peer" "timely_server small_server (Deadline 5)"
  by (simp_all add: timely_peer_def timely_server_def small_defs connection_deadline_def deadline_after_def
      duration_max_def STOP_DISPATCH_BUDGET_def from_secs_def)

theorem control_exchange_succeeds_witness:
  "handle_control_connection small_control small_context ''k'' small_peer []
     = (Inr True, [''b''], [small_frame CHR ''c'', small_frame CHR ''r''])
   \<and> request_control small_control small_context (UnixUid 7) ''k'' GracefulStop [] (Deadline 5) small_server = Inr ''accepted''"
proof -
  have "dispatch_operation GracefulStop [] (seen_phase small_peer) = (''accepted'', True)"
    by (simp add: dispatch_operation_def)
  moreover have "request_allowed small_context (UnixUid 7) GracefulStop [] (Deadline 5) (client_tick small_server 0) = Inr ()"
    by (simp add: request_allowed_def verify_client_owner_def validate_owner_def small_defs validate_control_payload_def
        validate_size_def operation_str_def require_def is_expired_at_def deadline_remaining_def)
  ultimately show ?thesis
    using small_timely
    by (intro control_exchange_succeeds [OF small_proofs [unfolded small_challenge_def] small_carried])
      (simp_all add: small_peer_def small_server_def small_context_def mode_allows_def MAX_USED_CONTROL_CHALLENGES_def)
qed

theorem transcript_binds_request_witness:
  "transcript (base_fields small_control small_challenge ''server-proof'')
    \<noteq> transcript (request_fields small_control small_challenge GracefulStop [])"
proof -
  have "list_all (\<lambda>f. length f < 2 ^ 32) (request_fields small_control small_challenge GracefulStop [])"
    by (simp add: request_fields_def base_fields_def small_defs operation_str_def)
  from small_transcript [OF this] obtain m where m: "transcript (request_fields small_control small_challenge GracefulStop []) = Inr m"
    by blast
  from transcript_binds_request [OF m] show ?thesis unfolding m by blast
qed


end
