(* ===== verification/Service_Journal.thy ===== *)
theory Service_Journal
  imports Ownership
begin

text \<open>
  The definition of the native service and the journal of attempts to change it
  (\<open>src/lifecycle/service/mod.rs\<close>, the steps of \<open>src/lifecycle/service/helper.rs\<close>): before a service manager is
  asked for anything, the attempt is on disk, as a line appended to a file.  A write may be cut short anywhere, by
  an error or by the end of the process: a fault says where.  The JSON form of a journal is a parameter, and so is
  what the operating system says about the protection of the file.  Paths are those of Unix.
\<close>

section \<open>Service definitions\<close>

datatype service_manager_kind = WindowsScm | LinuxSystemd | MacosLaunchd

fun manager_key :: "service_manager_kind \<Rightarrow> string" where
  "manager_key WindowsScm = ''scm''"
| "manager_key LinuxSystemd = ''systemd''"
| "manager_key MacosLaunchd = ''launchd''"

fun platform_service_id :: "service_manager_kind \<Rightarrow> string" where
  "platform_service_id WindowsScm = ''KakuneCore''"
| "platform_service_id LinuxSystemd = ''kakune-core.service''"
| "platform_service_id MacosLaunchd = ''dev.kakune.core''"

fun default_account :: "service_manager_kind \<Rightarrow> string" where
  "default_account WindowsScm = ''LocalSystem''"
| "default_account _ = ''root''"

datatype boot_policy = Automatic

record service_definition =
  def_manager :: service_manager_kind
  def_service_id :: string
  def_executable :: string
  def_arguments :: "string list"
  def_account :: string
  def_boot :: boot_policy
  def_data_dir :: string
  def_fingerprint :: "string option"

definition validate_service_id :: "service_manager_kind \<Rightarrow> string \<Rightarrow> unit lifecycle_result" where
  "validate_service_id m i =
     rbind (require (i \<noteq> [] \<and> length i \<le> 128 \<and> i \<noteq> ''.'' \<and> i \<noteq> ''..''
         \<and> list_all (\<lambda>c. is_ascii_alphanumeric c \<or> c \<in> {CHR ''-'', CHR ''_'', CHR ''.''}) i)
       (UnsafeOwnership ''native service identifier must be one validated path component'')) (\<lambda>_.
     require (\<not> (m = WindowsScm \<and> CHR ''.'' \<in> set i))
       (UnsafeOwnership ''SCM service identifiers cannot contain periods''))"

definition canonical_service_id :: "service_manager_kind \<Rightarrow> string \<Rightarrow> string" where
  "canonical_service_id m i = (if m = WindowsScm then to_ascii_lowercase i else i)"

text \<open>Paths are compared by components: repeated and final slashes and single dots do not count, except a dot
  that begins a relative path.\<close>

definition path_parts :: "string \<Rightarrow> bool \<times> string list" where
  "path_parts p =
     (let cs = split_on CHR ''/'' p
      in (is_absolute p, (if take 1 cs = [''.''] then [''.''] else []) @ filter (\<lambda>c. c \<noteq> [] \<and> c \<noteq> ''.'') cs))"

definition has_parent_dir :: "string \<Rightarrow> bool" where
  "has_parent_dir p \<longleftrightarrow> ''..'' \<in> set (split_on CHR ''/'' p)"

definition has_line_break :: "string \<Rightarrow> bool" where
  "has_line_break s \<longleftrightarrow> list_ex (\<lambda>c. c \<in> {CHR 0x00, CHR 0x0D, CHR 0x0A}) s"

definition service_arguments_ok :: "service_definition \<Rightarrow> bool" where
  "service_arguments_ok d =
     (case def_arguments d of
        [a, b, c, dir] \<Rightarrow> a = ''service'' \<and> b = ''run'' \<and> c = ''--data-dir'' \<and> path_parts dir = path_parts (def_data_dir d)
      | _ \<Rightarrow> False)"

definition validate_fields :: "service_definition \<Rightarrow> unit lifecycle_result" where
  "validate_fields d =
     rbind (require (is_absolute (def_executable d) \<and> is_absolute (def_data_dir d))
       (UnsafeOwnership ''service executable and data directory must be absolute paths'')) (\<lambda>_.
     rbind (require (\<not> has_parent_dir (def_executable d) \<and> \<not> has_parent_dir (def_data_dir d))
       (UnsafeOwnership ''service paths must be normalized absolute paths'')) (\<lambda>_.
     rbind (validate_service_id (def_manager d) (def_service_id d)) (\<lambda>_.
     rbind (require (trim (def_account d) \<noteq> [] \<and> \<not> has_line_break (def_account d)
         \<and> \<not> list_ex has_line_break (def_arguments d))
       (UnsafeOwnership ''service account or arguments contain invalid control characters'')) (\<lambda>_.
     require (service_arguments_ok d)
       (UnsafeOwnership (''service arguments must be exactly `service run --data-dir <definition data path>`, ''
          @ ''with no secrets or extra options''))))))"

section \<open>Observations\<close>

datatype installation = Installed | NotInstalled | InstallationUnknown

datatype manager_state =
  ManagerStopped | ManagerStarting | ManagerRunning | ManagerStopping | ManagerFailed | ManagerUnknown

datatype observed_state = CoreStarting | CoreReady | CoreStopping | CoreStopped | CoreFailed | CoreUnknown

record core_observation =
  seen_mode :: core_mode
  seen_state :: observed_state
  seen_instance :: "string option"
  seen_owner :: "owner_identity option"
  seen_process :: "process_identity option"
  seen_data_dir :: string
  seen_address :: "string option"
  seen_diagnostic :: "string option"
  identity_verified :: bool

record service_observation =
  obs_installed :: installation
  obs_manager :: manager_state
  obs_definition :: "service_definition option"
  obs_account :: "string option"
  boot_enabled :: bool
  obs_core :: "core_observation option"
  core_unknown :: "string option"
  obs_diagnostic :: "string option"
  pending_operation :: bool

section \<open>Actions and their native steps\<close>

datatype service_action = ActInstall | ActStart | ActStop | ActRemove

fun action_label :: "service_action \<Rightarrow> string" where
  "action_label ActInstall = ''service install''"
| "action_label ActStart = ''service start''"
| "action_label ActStop = ''service stop''"
| "action_label ActRemove = ''service uninstall''"

datatype native_mutation =
  Register | Description | FailurePolicy | Publish | Reload | Enable | StartNow | StopNow | Disable | Delete

fun native_steps :: "service_manager_kind \<Rightarrow> service_action \<Rightarrow> native_mutation list" where
  "native_steps WindowsScm ActInstall = [Register, Description, FailurePolicy]"
| "native_steps LinuxSystemd ActInstall = [Publish, Reload, Enable]"
| "native_steps MacosLaunchd ActInstall = [Publish]"
| "native_steps _ ActStart = [StartNow]"
| "native_steps _ ActStop = [StopNow]"
| "native_steps LinuxSystemd ActRemove = [Disable, Delete, Reload]"
| "native_steps _ ActRemove = [Delete]"

fun mutation_name :: "native_mutation \<Rightarrow> string" where
  "mutation_name Register = ''register''"
| "mutation_name Description = ''description''"
| "mutation_name FailurePolicy = ''failure_policy''"
| "mutation_name Publish = ''publish''"
| "mutation_name Reload = ''reload''"
| "mutation_name Enable = ''enable''"
| "mutation_name StartNow = ''start''"
| "mutation_name StopNow = ''stop''"
| "mutation_name Disable = ''disable''"
| "mutation_name Delete = ''delete''"

text \<open>A step is written as its index and its JSON form, a name in quotes.\<close>

definition step_label :: "nat \<Rightarrow> native_mutation \<Rightarrow> string" where
  "step_label i s = show_nat i @ '':'' @ [CHR 0x22] @ mutation_name s @ [CHR 0x22]"

datatype attempt_status = Prepared | Authorized | ObservedComplete | Reconciled | OutcomeUnknown

record journal =
  journal_schema :: nat
  attempt_id :: string
  journal_manager :: service_manager_kind
  native_service_id :: string
  journal_action :: service_action
  journal_step :: string
  expected_definition :: service_definition
  prior_state :: service_observation
  helper_pid :: "nat option"
  helper_owner :: "string option"
  attempt_status :: attempt_status
  completion_observation :: "service_observation option"
  residual_resources :: "string list"
  recovery_guidance :: "string list"

text \<open>What is outside: the JSON forms, the hash, and the protection of the file.\<close>

record service_env =
  fingerprint_bytes :: "service_manager_kind \<times> string \<times> string \<times> string list \<times> string \<times> boot_policy \<times> string \<Rightarrow> string lifecycle_result"
  service_sha256 :: "string \<Rightarrow> string"
  encode_journal :: "journal \<Rightarrow> string lifecycle_result"
  decode_journal :: "string \<Rightarrow> journal lifecycle_result"
  file_guard :: "unit lifecycle_result"
  attempt_path :: string

definition fingerprint :: "service_env \<Rightarrow> service_definition \<Rightarrow> string lifecycle_result" where
  "fingerprint env d =
     rbind (validate_fields (d\<lparr>def_fingerprint := None\<rparr>)) (\<lambda>_.
     rbind (fingerprint_bytes env (def_manager d, canonical_service_id (def_manager d) (def_service_id d),
         def_executable d, def_arguments d, def_account d, def_boot d, def_data_dir d)) (\<lambda>bytes.
       Inr (hex_lower (service_sha256 env bytes))))"

definition validate_definition :: "service_env \<Rightarrow> service_definition \<Rightarrow> unit lifecycle_result" where
  "validate_definition env d =
     rbind (validate_fields d) (\<lambda>_.
       case def_fingerprint d of
         None \<Rightarrow> Inr ()
       | Some f \<Rightarrow> rbind (fingerprint env d) (\<lambda>g.
           require (f = g) (UnsafeOwnership ''service definition fingerprint does not match its fields'')))"

definition new_definition ::
  "service_env \<Rightarrow> service_manager_kind \<Rightarrow> string \<Rightarrow> string \<Rightarrow> string list \<Rightarrow> string \<Rightarrow> string \<Rightarrow> service_definition lifecycle_result" where
  "new_definition env m i exe args account dir =
     (let d = \<lparr>def_manager = m, def_service_id = i, def_executable = exe, def_arguments = args, def_account = account,
          def_boot = Automatic, def_data_dir = dir, def_fingerprint = None\<rparr>
      in rbind (validate_definition env d) (\<lambda>_.
         rbind (fingerprint env d) (\<lambda>f. Inr (d\<lparr>def_fingerprint := Some f\<rparr>))))"

definition equivalent_to :: "service_definition \<Rightarrow> service_definition \<Rightarrow> bool" where
  "equivalent_to d e \<longleftrightarrow>
     def_manager d = def_manager e
   \<and> canonical_service_id (def_manager d) (def_service_id d) = canonical_service_id (def_manager e) (def_service_id e)
   \<and> path_parts (def_executable d) = path_parts (def_executable e) \<and> def_arguments d = def_arguments e
   \<and> def_account d = def_account e \<and> def_boot d = def_boot e
   \<and> path_parts (def_data_dir d) = path_parts (def_data_dir e) \<and> def_fingerprint d = def_fingerprint e"

text \<open>The derived equality of definitions, which compares the identifiers literally.\<close>

definition definition_eq :: "service_definition \<Rightarrow> service_definition \<Rightarrow> bool" where
  "definition_eq d e \<longleftrightarrow> equivalent_to d e \<and> def_service_id d = def_service_id e"

section \<open>Snapshots\<close>

definition step_for :: "journal \<Rightarrow> (nat \<times> native_mutation) lifecycle_result" where
  "step_for j =
     ok_or (find (\<lambda>(i, s). journal_step j = step_label i s)
         (enumerate 0 (native_steps (journal_manager j) (journal_action j))))
       (UnresolvedServiceAttempt ''journal does not identify a supported single native mutation'')"

definition is_native_step :: "journal \<Rightarrow> bool" where
  "is_native_step j = is_ok (step_for j)"

definition is_final_step :: "journal \<Rightarrow> bool" where
  "is_final_step j =
     (case step_for j of
        Inl _ \<Rightarrow> False
      | Inr (i, _) \<Rightarrow> i + 1 = length (native_steps (journal_manager j) (journal_action j)))"

definition valid_next_step :: "journal \<Rightarrow> journal \<Rightarrow> bool" where
  "valid_next_step p j \<longleftrightarrow>
     attempt_status p = ObservedComplete \<and> attempt_status j = Prepared \<and> helper_pid j = None
   \<and> (case (step_for p, step_for j) of (Inr (before, _), Inr (after, _)) \<Rightarrow> before + 1 = after | _ \<Rightarrow> False)"

definition valid_attempt_transition :: "attempt_status \<Rightarrow> attempt_status \<Rightarrow> bool" where
  "valid_attempt_transition p n \<longleftrightarrow>
     p = n \<or> (p, n) \<in> {(Prepared, Authorized), (Authorized, ObservedComplete), (Authorized, OutcomeUnknown),
       (ObservedComplete, Reconciled), (ObservedComplete, OutcomeUnknown), (OutcomeUnknown, ObservedComplete)}"

definition SERVICE_STATE_SCHEMA_VERSION :: nat where "SERVICE_STATE_SCHEMA_VERSION = 1"

definition follows :: "journal \<Rightarrow> journal \<Rightarrow> bool" where
  "follows p j \<longleftrightarrow>
     attempt_id p = attempt_id j \<and> journal_manager p = journal_manager j
   \<and> native_service_id p = native_service_id j \<and> journal_action p = journal_action j
   \<and> (journal_step p = journal_step j \<or> valid_next_step p j)
   \<and> definition_eq (expected_definition p) (expected_definition j)
   \<and> (valid_attempt_transition (attempt_status p) (attempt_status j) \<or> valid_next_step p j)"

definition validate_attempt_snapshot :: "service_env \<Rightarrow> journal \<Rightarrow> journal option \<Rightarrow> unit lifecycle_result" where
  "validate_attempt_snapshot env j prev =
     rbind (require (journal_schema j = SERVICE_STATE_SCHEMA_VERSION) (UnsupportedSchema (journal_schema j))) (\<lambda>_.
     rbind (validate_service_id (journal_manager j) (native_service_id j)) (\<lambda>_.
     rbind (validate_definition env (expected_definition j)) (\<lambda>_.
     rbind (require (def_manager (expected_definition j) = journal_manager j
         \<and> canonical_service_id (journal_manager j) (def_service_id (expected_definition j))
             = canonical_service_id (journal_manager j) (native_service_id j)
         \<and> trim (journal_step j) \<noteq> [])
       (UnsafeOwnership ''service attempt identity, expected definition, or mutation step is invalid'')) (\<lambda>_.
     require (\<forall>p \<in> set_option prev. follows p j)
       (UnsafeOwnership ''service attempt journal changes identity or expected definition'')))))"

record attempt_snapshot =
  snap_latest :: journal
  valid_length :: nat
  has_torn_tail :: bool
  needs_separator :: bool

definition MAX_ATTEMPT_BYTES :: nat where "MAX_ATTEMPT_BYTES = MAX_CONTROL_MESSAGE_BYTES"

abbreviation newline :: char where "newline \<equiv> CHR 0x0A"

fun replay_lines :: "service_env \<Rightarrow> string list \<Rightarrow> journal option \<Rightarrow> journal option lifecycle_result" where
  "replay_lines env [] latest = Inr latest"
| "replay_lines env (line # lines) latest =
     (if line = [] then replay_lines env lines latest
      else rbind (decode_journal env line) (\<lambda>j.
           rbind (validate_attempt_snapshot env j latest) (\<lambda>_. replay_lines env lines (Some j))))"

text \<open>The part up to the last line break, and the rest.\<close>

definition complete_part :: "string \<Rightarrow> string \<times> string" where
  "complete_part bytes =
     (case rsplit_once newline bytes of None \<Rightarrow> ([], bytes) | Some (a, b) \<Rightarrow> (a @ [newline], b))"

definition parse_attempts :: "service_env \<Rightarrow> string \<Rightarrow> attempt_snapshot lifecycle_result" where
  "parse_attempts env bytes =
     (case decode_journal env bytes of
        Inr j \<Rightarrow>
          rbind (validate_attempt_snapshot env j None) (\<lambda>_.
            Inr \<lparr>snap_latest = j, valid_length = length bytes, has_torn_tail = False,
              needs_separator = (bytes = [] \<or> List.last bytes \<noteq> newline)\<rparr>)
      | Inl err \<Rightarrow>
          (case complete_part bytes of
             (whole, tail) \<Rightarrow>
               rbind (replay_lines env (split_on newline whole) None) (\<lambda>latest.
               rbind (if tail = [] then Inr (latest, length whole, False, False)
                   else (case decode_journal env tail of
                       Inl _ \<Rightarrow> Inr (latest, length whole, True, False)
                     | Inr j \<Rightarrow> rbind (validate_attempt_snapshot env j latest) (\<lambda>_.
                         Inr (Some j, length bytes, False, True)))) (\<lambda>(latest', len, torn, sep).
               case latest' of
                 None \<Rightarrow> Inl err
               | Some j \<Rightarrow> rbind (validate_attempt_snapshot env j None) (\<lambda>_.
                   Inr \<lparr>snap_latest = j, valid_length = len, has_torn_tail = torn, needs_separator = sep\<rparr>)))))"

definition read_attempt_snapshot :: "service_env \<Rightarrow> dir_entry option \<Rightarrow> attempt_snapshot option lifecycle_result" where
  "read_attempt_snapshot env entry =
     (case entry of
        None \<Rightarrow> Inr None
      | Some (RegularFile bytes) \<Rightarrow>
          rbind (file_guard env) (\<lambda>_.
          rbind (require (length bytes \<le> MAX_ATTEMPT_BYTES) (MessageTooLarge MAX_ATTEMPT_BYTES)) (\<lambda>_.
          rbind (parse_attempts env bytes) (\<lambda>s. Inr (Some s))))
      | Some _ \<Rightarrow> Inl (UnsafeOwnership ''service attempt journal is redirected or not a regular file''))"

definition read_attempt_file :: "service_env \<Rightarrow> dir_entry option \<Rightarrow> journal option lifecycle_result" where
  "read_attempt_file env entry = rbind (read_attempt_snapshot env entry) (\<lambda>s. Inr (map_option snap_latest s))"

section \<open>Writing\<close>

text \<open>Where a write stops: before the directory is ready, before a torn tail is trimmed, in the middle of the
  appended bytes, or, for a new file, before or after the link that publishes it.\<close>

datatype attempt_fault = NotReady lifecycle_error | TrimFailed string | CutAfter nat string | LinkFailed string | LinkedThenFailed string

definition append_attempt ::
  "attempt_fault option \<Rightarrow> string \<Rightarrow> string \<Rightarrow> unit lifecycle_result \<times> dir_entry option" where
  "append_attempt fault base payload =
     (case fault of
        Some (CutAfter n e) \<Rightarrow> (Inl (LifecycleIo e), Some (RegularFile (base @ take n payload)))
      | _ \<Rightarrow> (Inr (), Some (RegularFile (base @ payload))))"

definition extend_attempt_file ::
  "service_env \<Rightarrow> attempt_fault option \<Rightarrow> journal \<Rightarrow> string \<Rightarrow> attempt_snapshot \<Rightarrow> string \<Rightarrow> unit lifecycle_result \<times> dir_entry option" where
  "extend_attempt_file env fault j bytes s old =
     (case validate_attempt_snapshot env j (Some (snap_latest s)) of
        Inl e \<Rightarrow> (Inl e, Some (RegularFile old))
      | Inr _ \<Rightarrow>
          (case (has_torn_tail s, fault) of
             (True, Some (TrimFailed e)) \<Rightarrow> (Inl (LifecycleIo e), Some (RegularFile old))
           | _ \<Rightarrow>
               (let base = (if has_torn_tail s then take (valid_length s) old else old);
                    payload = (if needs_separator s then [newline] else []) @ bytes @ [newline]
                in if MAX_ATTEMPT_BYTES < length base + length payload
                   then (Inl (MessageTooLarge MAX_ATTEMPT_BYTES), Some (RegularFile base))
                   else append_attempt fault base payload)))"

definition publish_attempt_file :: "attempt_fault option \<Rightarrow> string \<Rightarrow> unit lifecycle_result \<times> dir_entry option" where
  "publish_attempt_file fault bytes =
     (case fault of
        Some (LinkFailed e) \<Rightarrow> (Inl (LifecycleIo e), None)
      | Some (LinkedThenFailed e) \<Rightarrow> (Inl (LifecycleIo e), Some (RegularFile (bytes @ [newline])))
      | _ \<Rightarrow> (Inr (), Some (RegularFile (bytes @ [newline]))))"

definition write_attempt_file ::
  "service_env \<Rightarrow> attempt_fault option \<Rightarrow> journal \<Rightarrow> dir_entry option \<Rightarrow> unit lifecycle_result \<times> dir_entry option" where
  "write_attempt_file env fault j entry =
     (case encode_journal env j of
        Inl e \<Rightarrow> (Inl e, entry)
      | Inr bytes \<Rightarrow>
          (if MAX_ATTEMPT_BYTES < length bytes + 1 then (Inl (MessageTooLarge MAX_ATTEMPT_BYTES), entry)
           else (case fault of
               Some (NotReady e) \<Rightarrow> (Inl e, entry)
             | _ \<Rightarrow>
                 (if entry = Some Symlink
                  then (Inl (UnsafeOwnership (attempt_path env @ '' is a symlink or redirected path'')), entry)
                  else (case read_attempt_snapshot env entry of
                      Inl e \<Rightarrow> (Inl e, entry)
                    | Inr (Some s) \<Rightarrow>
                        (case entry of
                           Some (RegularFile old) \<Rightarrow> extend_attempt_file env fault j bytes s old
                         | _ \<Rightarrow> (Inr (), entry))
                    | Inr None \<Rightarrow> publish_attempt_file fault bytes)))))"

section \<open>What is on file\<close>

text \<open>What is used of the JSON form: it is one line, an object, it reads back (also with a line break after it), and
  neither a proper prefix of it nor the form followed by another object is the form of a journal.\<close>

definition codec_ok :: "service_env \<Rightarrow> journal list \<Rightarrow> bool" where
  "codec_ok env all \<longleftrightarrow>
     (\<forall>j b. j \<in> set all \<longrightarrow> encode_journal env j = Inr b \<longrightarrow>
        (\<exists>r. b = CHR 0x7B # r) \<and> newline \<notin> set b
      \<and> decode_journal env b = Inr j \<and> decode_journal env (b @ [newline]) = Inr j
      \<and> (\<forall>p. strict_prefix p b \<longrightarrow> \<not> is_ok (decode_journal env p))
      \<and> (\<forall>rest. \<not> is_ok (decode_journal env (b @ newline # CHR 0x7B # rest))))"

definition form :: "service_env \<Rightarrow> journal list \<Rightarrow> journal \<Rightarrow> string \<Rightarrow> bool" where
  "form env all j b \<longleftrightarrow> j \<in> set all \<and> encode_journal env j = Inr b"

definition line_text :: "string list \<Rightarrow> string" where
  "line_text bs = concat (map (\<lambda>b. b @ [newline]) bs)"

fun chained :: "service_env \<Rightarrow> journal option \<Rightarrow> journal list \<Rightarrow> bool" where
  "chained env prev [] = True"
| "chained env prev (j # js) = (validate_attempt_snapshot env j prev = Inr () \<and> chained env (Some j) js)"

text \<open>The file is a list of complete lines and a rest, which is a torn record or a whole one without its line
  break.\<close>

definition journal_logged :: "service_env \<Rightarrow> journal list \<Rightarrow> string \<Rightarrow> journal \<Rightarrow> bool" where
  "journal_logged env all bytes latest \<longleftrightarrow>
     (\<exists>js bs rest. list_all2 (form env all) js bs \<and> chained env None js \<and> bytes = line_text bs @ rest
        \<and> length bytes \<le> MAX_ATTEMPT_BYTES
        \<and> (js \<noteq> [] \<and> latest = List.last js \<and> (\<exists>j b. form env all j b \<and> strict_prefix rest b)
           \<or> form env all latest rest \<and> chained env None (js @ [latest])))"

definition on_file :: "service_env \<Rightarrow> journal list \<Rightarrow> dir_entry option \<Rightarrow> journal option \<Rightarrow> bool" where
  "on_file env all entry latest \<longleftrightarrow>
     (case latest of
        None \<Rightarrow> entry = None
      | Some j \<Rightarrow> (\<exists>bytes. entry = Some (RegularFile bytes) \<and> journal_logged env all bytes j))"

lemma line_text_simps [simp]:
  "line_text [] = []" "line_text (b # bs) = b @ newline # line_text bs"
  "line_text (bs @ cs) = line_text bs @ line_text cs"
  by (simp_all add: line_text_def)

lemma rsplit_once_last: "c \<notin> set b \<Longrightarrow> rsplit_once c (a @ c # b) = Some (a, b)"
  by (simp add: rsplit_once_def split_once_first)

lemma rsplit_once_None: "c \<notin> set b \<Longrightarrow> rsplit_once c b = None"
  by (simp add: rsplit_once_def split_once_None)

lemma split_on_line: "c \<notin> set a \<Longrightarrow> split_on c (a @ c # s) = a # split_on c s"
  by (induction a) auto

lemma complete_part_lines:
  assumes "newline \<notin> set rest"
  shows "complete_part (line_text bs @ rest) = (line_text bs, rest)"
proof (cases bs rule: rev_exhaust)
  case (snoc cs b)
  have "rsplit_once newline ((line_text cs @ b) @ newline # rest) = Some (line_text cs @ b, rest)"
    by (rule rsplit_once_last [OF assms])
  then show ?thesis by (simp add: complete_part_def snoc)
qed (simp add: complete_part_def rsplit_once_None [OF assms])

lemma split_on_lines: "list_all (\<lambda>b. newline \<notin> set b) bs \<Longrightarrow> split_on newline (line_text bs) = bs @ [[]]"
  by (induction bs) (auto simp: split_on_line)

lemma codec_form:
  assumes "codec_ok env all" and "form env all j b"
  shows "\<exists>r. b = CHR 0x7B # r" "newline \<notin> set b" "b \<noteq> []" "decode_journal env b = Inr j"
    "decode_journal env (b @ [newline]) = Inr j" "strict_prefix p b \<Longrightarrow> \<not> is_ok (decode_journal env p)"
    "\<not> is_ok (decode_journal env (b @ newline # CHR 0x7B # rest))"
proof -
  from assms have all: "(\<exists>r. b = CHR 0x7B # r) \<and> newline \<notin> set b
      \<and> decode_journal env b = Inr j \<and> decode_journal env (b @ [newline]) = Inr j
      \<and> (\<forall>p. strict_prefix p b \<longrightarrow> \<not> is_ok (decode_journal env p))
      \<and> (\<forall>rest. \<not> is_ok (decode_journal env (b @ newline # CHR 0x7B # rest)))"
    unfolding codec_ok_def form_def by blast
  then show "\<exists>r. b = CHR 0x7B # r" "newline \<notin> set b" "decode_journal env b = Inr j"
    "decode_journal env (b @ [newline]) = Inr j" "strict_prefix p b \<Longrightarrow> \<not> is_ok (decode_journal env p)"
    "\<not> is_ok (decode_journal env (b @ newline # CHR 0x7B # rest))" by blast+
  from all show "b \<noteq> []" by auto
qed

lemma forms_lines: "codec_ok env all \<Longrightarrow> list_all2 (form env all) js bs \<Longrightarrow> list_all (\<lambda>b. newline \<notin> set b) bs"
  by (rotate_tac, induction rule: list_all2_induct) (auto dest: codec_form(2))

lemma validate_None: "validate_attempt_snapshot env j prev = Inr () \<Longrightarrow> validate_attempt_snapshot env j None = Inr ()"
  by (auto simp: validate_attempt_snapshot_def rbind_Inr)

lemma chained_snoc:
  "chained env prev (js @ [j]) \<longleftrightarrow> chained env prev js
     \<and> validate_attempt_snapshot env j (if js = [] then prev else Some (List.last js)) = Inr ()"
  by (induction js arbitrary: prev) auto

lemma chained_last: "chained env prev js \<Longrightarrow> js \<noteq> [] \<Longrightarrow> validate_attempt_snapshot env (List.last js) None = Inr ()"
  by (cases js rule: rev_exhaust) (auto simp: chained_snoc dest: validate_None)

lemma replay_forms:
  assumes "codec_ok env all"
  shows "list_all2 (form env all) js bs \<Longrightarrow> chained env prev js
    \<Longrightarrow> replay_lines env (bs @ [[]]) prev = Inr (if js = [] then prev else Some (List.last js))"
proof (induction arbitrary: prev rule: list_all2_induct)
  case (Cons j js b bs)
  from codec_form(3,4) [OF assms Cons.hyps(1)] Cons.prems Cons.IH [of "Some j"] show ?case by simp
qed simp

text \<open>Only a file with one record is itself the form of a journal.\<close>

lemma decode_many:
  assumes "codec_ok env all" and "list_all2 (form env all) js bs" and "form env all j b" and "strict_prefix rest b \<or> rest = b"
    and "bs \<noteq> []" and "rest \<noteq> [] \<or> length bs \<noteq> 1"
  shows "\<not> is_ok (decode_journal env (line_text bs @ rest))"
proof -
  from assms(5,2) obtain b1 cs j1 ks where split: "bs = b1 # cs" "form env all j1 b1" "list_all2 (form env all) ks cs"
    by (cases bs) (auto simp: list_all2_Cons2)
  have "\<exists>r. line_text cs @ rest = CHR 0x7B # r"
  proof (cases cs)
    case Nil
    obtain r where r: "b = CHR 0x7B # r" using codec_form(1) [OF assms(1,3)] by blast
    from assms(6) Nil split(1) have "rest \<noteq> []" by simp
    with assms(4) r show ?thesis by (cases rest) (auto simp: Nil)
  next
    case (Cons b2 ds)
    with split(3) obtain j2 where "form env all j2 b2" by (auto simp: list_all2_Cons2)
    from codec_form(1) [OF assms(1) this] Cons show ?thesis by auto
  qed
  then obtain r where "line_text bs @ rest = b1 @ newline # CHR 0x7B # r" by (auto simp: split(1))
  with codec_form(7) [OF assms(1) split(2)] show ?thesis by simp
qed


definition trimmed :: "attempt_snapshot \<Rightarrow> string \<Rightarrow> string" where
  "trimmed s old = (if has_torn_tail s then take (valid_length s) old else old)"

definition separator :: "attempt_snapshot \<Rightarrow> string" where
  "separator s = (if needs_separator s then [newline] else [])"

text \<open>Parsing finds the latest record, and what a write would keep of the file is complete lines.\<close>

lemma parse_torn:
  assumes codec: "codec_ok env all" and forms: "list_all2 (form env all) js bs" and chain: "chained env None js" and "js \<noteq> []"
    and torn: "form env all j b" "strict_prefix rest b"
  shows "\<exists>s. parse_attempts env (line_text bs @ rest) = Inr s \<and> snap_latest s = List.last js
    \<and> trimmed s (line_text bs @ rest) @ separator s = line_text bs"
proof (cases "rest = [] \<and> length bs = 1")
  case True
  with forms obtain j1 b1 where one: "js = [j1]" "bs = [b1]" "form env all j1 b1"
    by (auto simp: length_Suc_conv list_all2_Cons2)
  from codec_form(5) [OF codec one(3)] chain True one(1,2) show ?thesis
    by (simp add: parse_attempts_def trimmed_def separator_def)
next
  case False
  from forms \<open>js \<noteq> []\<close> have "bs \<noteq> []" by auto
  then have "\<not> is_ok (decode_journal env (line_text bs @ rest))"
    using decode_many [OF codec forms torn(1), of rest] torn(2) False by blast
  then obtain err where err: "decode_journal env (line_text bs @ rest) = Inl err" by (auto simp: is_ok_def split: sum.splits)
  have "newline \<notin> set rest" using codec_form(2) [OF codec torn(1)] torn(2)
    by (auto simp: strict_prefix_def dest: set_mono_prefix)
  then have part: "complete_part (line_text bs @ rest) = (line_text bs, rest)" by (rule complete_part_lines)
  have replay: "replay_lines env (split_on newline (line_text bs)) None = Inr (Some (List.last js))"
    using replay_forms [OF codec forms chain] \<open>js \<noteq> []\<close> by (simp add: split_on_lines [OF forms_lines [OF codec forms]])
  obtain err' where "decode_journal env rest = Inl err'"
    using codec_form(6) [OF codec torn] by (cases "decode_journal env rest") auto
  then show ?thesis
    using chained_last [OF chain \<open>js \<noteq> []\<close>]
    by (cases "rest = []") (use err part replay in \<open>simp_all add: parse_attempts_def trimmed_def separator_def\<close>)
qed

lemma parse_whole:
  assumes codec: "codec_ok env all" and forms: "list_all2 (form env all) js bs" and chain: "chained env None (js @ [j])"
    and whole: "form env all j rest"
  shows "\<exists>s. parse_attempts env (line_text bs @ rest) = Inr s \<and> snap_latest s = j
    \<and> trimmed s (line_text bs @ rest) @ separator s = line_text (bs @ [rest])"
proof -
  have rest: "newline \<notin> set rest" "rest \<noteq> []" "decode_journal env rest = Inr j"
    by (rule codec_form [OF codec whole])+
  have valid: "validate_attempt_snapshot env j None = Inr ()"
    using chained_last [OF chain] by simp
  show ?thesis
  proof (cases "bs = []")
    case True
    have "List.last rest \<noteq> newline" using rest(1,2) last_in_set by metis
    with True rest valid show ?thesis by (simp add: parse_attempts_def trimmed_def separator_def)
  next
    case False
    then have "\<not> is_ok (decode_journal env (line_text bs @ rest))"
      using decode_many [OF codec forms whole, of rest] rest(2) by blast
    then obtain err where err: "decode_journal env (line_text bs @ rest) = Inl err" by (auto simp: is_ok_def split: sum.splits)
    have part: "complete_part (line_text bs @ rest) = (line_text bs, rest)" by (rule complete_part_lines [OF rest(1)])
    have nonempty: "js \<noteq> []" using False forms by auto
    from chain have chain': "chained env None js" "validate_attempt_snapshot env j (Some (List.last js)) = Inr ()"
      using nonempty by (simp_all add: chained_snoc)
    have "replay_lines env (split_on newline (line_text bs)) None = Inr (Some (List.last js))"
      using replay_forms [OF codec forms chain'(1)] nonempty by (simp add: split_on_lines [OF forms_lines [OF codec forms]])
    then show ?thesis
      using rest(2,3) chain'(2) valid by (simp add: parse_attempts_def err part trimmed_def separator_def)
  qed
qed

lemma parse_logged:
  assumes "codec_ok env all" and "journal_logged env all bytes latest"
  obtains s js bs where "parse_attempts env bytes = Inr s" "snap_latest s = latest" "length bytes \<le> MAX_ATTEMPT_BYTES"
    "list_all2 (form env all) js bs" "chained env None js" "js \<noteq> []" "latest = List.last js"
    "trimmed s bytes @ separator s = line_text bs"
proof -
  from assms(2) obtain js bs rest where on: "list_all2 (form env all) js bs" "chained env None js"
    "bytes = line_text bs @ rest" "length bytes \<le> MAX_ATTEMPT_BYTES"
    "js \<noteq> [] \<and> latest = List.last js \<and> (\<exists>j b. form env all j b \<and> strict_prefix rest b)
     \<or> form env all latest rest \<and> chained env None (js @ [latest])" unfolding journal_logged_def by blast
  from on(5) show thesis
  proof
    assume "js \<noteq> [] \<and> latest = List.last js \<and> (\<exists>j b. form env all j b \<and> strict_prefix rest b)"
    then obtain j b where torn: "js \<noteq> []" "latest = List.last js" "form env all j b" "strict_prefix rest b" by blast
    from parse_torn [OF assms(1) on(1,2) torn(1,3,4)] torn(1,2) on that show thesis by blast
  next
    assume whole: "form env all latest rest \<and> chained env None (js @ [latest])"
    have forms: "list_all2 (form env all) (js @ [latest]) (bs @ [rest])" using on(1) whole by (simp add: list_all2_appendI)
    from parse_whole [OF assms(1) on(1)] whole obtain s where
      s: "parse_attempts env bytes = Inr s" "snap_latest s = latest" "trimmed s bytes @ separator s = line_text (bs @ [rest])"
      unfolding on(3) by blast
    show thesis by (rule that [OF s(1,2) on(4) forms]) (use whole s(3) in simp_all)
  qed
qed

text \<open>Appending a record, cut anywhere, leaves the old latest record or the new one.\<close>

lemma logged_append:
  assumes codec: "codec_ok env all" and forms: "list_all2 (form env all) js bs" and chain: "chained env None js" and "js \<noteq> []"
    and new: "form env all j b" "validate_attempt_snapshot env j (Some (List.last js)) = Inr ()"
    and size: "length (line_text bs @ take n (b @ [newline])) \<le> MAX_ATTEMPT_BYTES"
  shows "journal_logged env all (line_text bs @ take n (b @ [newline])) (if n < length b then List.last js else j)"
proof -
  have chain': "chained env None (js @ [j])" using chain new(2) \<open>js \<noteq> []\<close> by (simp add: chained_snoc)
  consider "n < length b" | "n = length b" | "length b < n" by linarith
  then show ?thesis
  proof cases
    case 1
    then have "strict_prefix (take n b) b"
      by (metis take_is_prefix strict_prefixI length_take min.strict_order_iff nat_neq_iff not_less_iff_gr_or_eq min_def)
    with 1 assms show ?thesis unfolding journal_logged_def by (auto intro!: exI [of _ js] exI [of _ bs])
  next
    case 2
    with chain' forms chain new(1) size show ?thesis unfolding journal_logged_def
      by (intro exI [of _ js] exI [of _ bs] exI [of _ b]) simp
  next
    case 3
    have "list_all2 (form env all) (js @ [j]) (bs @ [b])" using forms new(1) by (simp add: list_all2_appendI)
    moreover have "strict_prefix [] b" using codec_form(3) [OF codec new(1)] by (simp add: strict_prefix_def)
    ultimately show ?thesis using 3 chain' new(1) size unfolding journal_logged_def
      by (intro exI [of _ "js @ [j]"] exI [of _ "bs @ [b]"] exI [of _ "[]"]) auto
  qed
qed


lemma logged_base:
  assumes codec: "codec_ok env all" and forms: "list_all2 (form env all) js bs" and chain: "chained env None js" and "js \<noteq> []"
    and base: "base @ separator s = line_text bs" and size: "length base \<le> MAX_ATTEMPT_BYTES"
  shows "journal_logged env all base (List.last js)"
proof -
  from \<open>js \<noteq> []\<close> forms obtain ks j cs c where split: "js = ks @ [j]" "bs = cs @ [c]" "list_all2 (form env all) ks cs" "form env all j c"
    by (cases js rule: rev_exhaust) (auto simp: list_all2_append1 list_all2_Cons1)
  show ?thesis
  proof (cases "needs_separator s")
    case True
    with base have "base = line_text cs @ c" by (simp add: separator_def split(2))
    with split chain size show ?thesis unfolding journal_logged_def
      by (intro exI [of _ ks] exI [of _ cs] exI [of _ c]) (simp add: chained_snoc)
  next
    case False
    have "strict_prefix [] c" using codec_form(3) [OF codec split(4)] by (simp add: strict_prefix_def)
    with False base forms chain \<open>js \<noteq> []\<close> split(4) size show ?thesis unfolding journal_logged_def
      by (intro exI [of _ js] exI [of _ bs] exI [of _ "[]"]) (auto simp: separator_def)
  qed
qed

lemma logged_extended:
  assumes codec: "codec_ok env all" and forms: "list_all2 (form env all) js bs" and chain: "chained env None js" and "js \<noteq> []"
    and base: "base @ separator s = line_text bs"
    and new: "form env all j b" "validate_attempt_snapshot env j (Some (List.last js)) = Inr ()"
    and size: "length base + length (separator s @ b @ [newline]) \<le> MAX_ATTEMPT_BYTES"
  shows "journal_logged env all (base @ separator s @ b @ [newline]) j"
    and "journal_logged env all (base @ take n (separator s @ b @ [newline])) (List.last js)
      \<or> journal_logged env all (base @ take n (separator s @ b @ [newline])) j"
proof -
  have append: "journal_logged env all (line_text bs @ take k (b @ [newline])) (if k < length b then List.last js else j)" for k
    using size by (intro logged_append [OF codec forms chain \<open>js \<noteq> []\<close> new]) (auto simp: base [symmetric])
  from append [of "Suc (length b)"] show "journal_logged env all (base @ separator s @ b @ [newline]) j"
    by (simp add: base [symmetric])
  show "journal_logged env all (base @ take n (separator s @ b @ [newline])) (List.last js)
      \<or> journal_logged env all (base @ take n (separator s @ b @ [newline])) j"
  proof (cases "n < length (separator s)")
    case True
    then have "base @ take n (separator s @ b @ [newline]) = base" by (simp add: separator_def split: if_splits)
    with logged_base [OF codec forms chain \<open>js \<noteq> []\<close> base] size show ?thesis by (metis add_leD1)
  next
    case False
    then have "base @ take n (separator s @ b @ [newline]) = line_text bs @ take (n - length (separator s)) (b @ [newline])"
      by (simp add: base [symmetric])
    with append [of "n - length (separator s)"] show ?thesis by (metis (full_types))
  qed
qed

lemma read_on_file:
  assumes "codec_ok env all" and "on_file env all entry latest" and "file_guard env = Inr ()"
  shows "read_attempt_file env entry = Inr latest"
proof (cases latest)
  case (Some j)
  with assms(2) obtain bytes where bytes: "entry = Some (RegularFile bytes)" "journal_logged env all bytes j"
    by (auto simp: on_file_def)
  from parse_logged [OF assms(1) bytes(2)] obtain s where
    "parse_attempts env bytes = Inr s" "snap_latest s = j" "length bytes \<le> MAX_ATTEMPT_BYTES" by metis
  with bytes(1) Some assms(3) show ?thesis by (simp add: read_attempt_file_def read_attempt_snapshot_def require_def)
qed (use assms(2) in \<open>simp add: on_file_def read_attempt_file_def read_attempt_snapshot_def\<close>)

lemma publish_on_file:
  assumes "codec_ok env all" and "form env all j b" and "validate_attempt_snapshot env j None = Inr ()"
    and "length b + 1 \<le> MAX_ATTEMPT_BYTES" and "publish_attempt_file fault b = (r, entry')"
  shows "(r = Inr () \<longrightarrow> on_file env all entry' (Some j)) \<and> (on_file env all entry' None \<or> on_file env all entry' (Some j))"
proof -
  have "strict_prefix [] b" using codec_form(3) [OF assms(1,2)] by (simp add: strict_prefix_def)
  with assms(2-4) have "journal_logged env all (b @ [newline]) j" unfolding journal_logged_def
    by (intro exI [of _ "[j]"] exI [of _ "[b]"] exI [of _ "[]"]) auto
  with assms(5) show ?thesis
    by (auto simp: publish_attempt_file_def on_file_def split: option.splits attempt_fault.splits)
qed

lemma extend_on_file:
  assumes "codec_ok env all" and "form env all j b" and "journal_logged env all old l" and "parse_attempts env old = Inr s"
    and "extend_attempt_file env fault j b s old = (r, entry')"
  shows "(r = Inr () \<longrightarrow> on_file env all entry' (Some j)) \<and> (on_file env all entry' (Some l) \<or> on_file env all entry' (Some j))"
proof -
  from parse_logged [OF assms(1,3)] assms(4) obtain js bs where s: "snap_latest s = l" "length old \<le> MAX_ATTEMPT_BYTES"
    "list_all2 (form env all) js bs" "chained env None js" "js \<noteq> []" "l = List.last js"
    "trimmed s old @ separator s = line_text bs" by (metis sum.inject(2))
  note base = logged_base [OF assms(1) s(3-5,7)] and extended = logged_extended [OF assms(1) s(3-5,7) assms(2)]
  have short: "length (trimmed s old) \<le> MAX_ATTEMPT_BYTES" using s(2) by (auto simp: trimmed_def)
  have old: "on_file env all (Some (RegularFile old)) (Some l)" by (simp add: on_file_def assms(3))
  show ?thesis
  proof (cases "validate_attempt_snapshot env j (Some l)")
    case (Inl e)
    with assms(5) s(1) old show ?thesis by (auto simp: extend_attempt_file_def)
  next
    case (Inr u)
    let ?payload = "separator s @ b @ [newline]"
    consider (trim) e where "has_torn_tail s" "fault = Some (TrimFailed e)"
      | (large) "MAX_ATTEMPT_BYTES < length (trimmed s old) + length ?payload"
          "(r, entry') = (Inl (MessageTooLarge MAX_ATTEMPT_BYTES), Some (RegularFile (trimmed s old)))"
      | (full) "length (trimmed s old) + length ?payload \<le> MAX_ATTEMPT_BYTES"
          "append_attempt fault (trimmed s old) ?payload = (r, entry')"
      using assms(5) Inr s(1)
      by (auto simp: extend_attempt_file_def trimmed_def separator_def Let_def not_less
          split: if_splits bool.splits option.splits attempt_fault.splits)
    then show ?thesis
    proof cases
      case trim
      with assms(5) Inr s(1) old show ?thesis by (auto simp: extend_attempt_file_def)
    next
      case large
      with base short s(6) show ?thesis by (simp add: on_file_def)
    next
      case full
      from extended Inr s(6) full(1) have new: "journal_logged env all (trimmed s old @ ?payload) j"
        "journal_logged env all (trimmed s old @ take n ?payload) l \<or> journal_logged env all (trimmed s old @ take n ?payload) j" for n
        by simp_all
      from full(2) consider "r = Inr ()" "entry' = Some (RegularFile (trimmed s old @ ?payload))"
        | n e where "r = Inl (LifecycleIo e)" "entry' = Some (RegularFile (trimmed s old @ take n ?payload))"
        by (auto simp: append_attempt_def split: option.splits attempt_fault.splits)
      then show ?thesis using new by cases (auto simp: on_file_def)
    qed
  qed
qed

lemma write_on_file:
  assumes "codec_ok env all" and "on_file env all entry latest" and "file_guard env = Inr ()"
    and "j \<in> set all" and "validate_attempt_snapshot env j None = Inr ()"
    and "write_attempt_file env fault j entry = (r, entry')"
  shows "(r = Inr () \<longrightarrow> on_file env all entry' (Some j)) \<and> (on_file env all entry' latest \<or> on_file env all entry' (Some j))"
proof (cases "\<exists>e. (r, entry') = (Inl e, entry)")
  case True
  with assms(2) show ?thesis by auto
next
  case False
  with assms(6) obtain b where b: "encode_journal env j = Inr b" "length b + 1 \<le> MAX_ATTEMPT_BYTES"
    by (auto simp: write_attempt_file_def split: sum.splits if_splits)
  then have fm: "form env all j b" by (simp add: form_def assms(4))
  show ?thesis
  proof (cases latest)
    case None
    with assms(2) have "entry = None" by (simp add: on_file_def)
    with assms(6) b False have "publish_attempt_file fault b = (r, entry')"
      by (auto simp: write_attempt_file_def read_attempt_snapshot_def split: option.splits attempt_fault.splits)
    from publish_on_file [OF assms(1) fm assms(5) b(2) this] None show ?thesis by simp
  next
    case (Some l)
    with assms(2) obtain old where old: "entry = Some (RegularFile old)" "journal_logged env all old l" by (auto simp: on_file_def)
    from parse_logged [OF assms(1) old(2)] obtain s where
      s: "parse_attempts env old = Inr s" "length old \<le> MAX_ATTEMPT_BYTES" by metis
    with assms(3,6) b False old(1) have "extend_attempt_file env fault j b s old = (r, entry')"
      by (auto simp: write_attempt_file_def read_attempt_snapshot_def require_def split: option.splits attempt_fault.splits)
    from extend_on_file [OF assms(1) fm old(2) s(1) this] Some show ?thesis by simp
  qed
qed


section \<open>Property\<close>

text \<open>The answers of a sequence of writes, and the file after them.\<close>

fun run_writes ::
  "service_env \<Rightarrow> (journal \<times> attempt_fault option) list \<Rightarrow> dir_entry option \<Rightarrow> unit lifecycle_result list \<times> dir_entry option" where
  "run_writes env [] entry = ([], entry)"
| "run_writes env ((j, fault) # ws) entry =
     (case write_attempt_file env fault j entry of
        (r, entry1) \<Rightarrow> (case run_writes env ws entry1 of (rs, entry2) \<Rightarrow> (r # rs, entry2)))"

lemma run_writes_on_file:
  assumes "codec_ok env all" and "file_guard env = Inr ()"
  shows "on_file env all entry latest
    \<Longrightarrow> list_all (\<lambda>(j, _). j \<in> set all \<and> validate_attempt_snapshot env j None = Inr ()) ws
    \<Longrightarrow> run_writes env ws entry = (rs, entry')
    \<Longrightarrow> length rs = length ws
      \<and> (on_file env all entry' latest \<and> (\<forall>i < length ws. rs ! i \<noteq> Inr ())
         \<or> (\<exists>k < length ws. on_file env all entry' (Some (fst (ws ! k))) \<and> (\<forall>i < length ws. rs ! i = Inr () \<longrightarrow> i \<le> k)))"
proof (induction ws arbitrary: entry latest rs)
  case (Cons w ws)
  obtain j fault where w: "w = (j, fault)" by (cases w)
  obtain r entry1 where wr: "write_attempt_file env fault j entry = (r, entry1)" by (metis prod.exhaust)
  from Cons.prems(3) w wr obtain rs1 where rs1: "run_writes env ws entry1 = (rs1, entry')" "rs = r # rs1"
    by (auto split: prod.splits)
  from Cons.prems(2) have ok: "j \<in> set all" "validate_attempt_snapshot env j None = Inr ()" by (simp_all add: w)
  from write_on_file [OF assms(1) Cons.prems(1) assms(2) ok wr] obtain l where
    l: "on_file env all entry1 l" "l = Some j \<or> l = latest \<and> r \<noteq> Inr ()" by blast
  from Cons.prems(2) have "list_all (\<lambda>(j, _). j \<in> set all \<and> validate_attempt_snapshot env j None = Inr ()) ws" by simp
  from Cons.IH [OF l(1) this rs1(1)]
  have len: "length rs1 = length ws" and rest:
    "on_file env all entry' l \<and> (\<forall>i < length ws. rs1 ! i \<noteq> Inr ())
     \<or> (\<exists>k < length ws. on_file env all entry' (Some (fst (ws ! k))) \<and> (\<forall>i < length ws. rs1 ! i = Inr () \<longrightarrow> i \<le> k))"
    by blast+
  from rest show ?case
  proof (elim disjE)
    assume quiet: "on_file env all entry' l \<and> (\<forall>i < length ws. rs1 ! i \<noteq> Inr ())"
    then have "\<forall>i < length (w # ws). rs ! i = Inr () \<longrightarrow> i = 0" by (auto simp: rs1(2) nth_Cons split: nat.splits)
    with l(2) quiet show ?thesis by (auto simp: len rs1(2) w nth_Cons split: nat.splits intro!: exI [of _ "0 :: nat"])
  next
    assume "\<exists>k < length ws. on_file env all entry' (Some (fst (ws ! k))) \<and> (\<forall>i < length ws. rs1 ! i = Inr () \<longrightarrow> i \<le> k)"
    then obtain k where "k < length ws" "on_file env all entry' (Some (fst (ws ! k)))"
      "\<forall>i < length ws. rs1 ! i = Inr () \<longrightarrow> i \<le> k" by blast
    then show ?thesis by (auto simp: len rs1(2) nth_Cons split: nat.splits intro!: exI [of _ "Suc k"])
  qed
qed simp

text \<open>C30: The journal survives torn writes: after any sequence of writes, each complete, refused, or cut short at any
  byte, the file can still be read, and what is read is the journal of the last write that succeeded or of a later
  one; before the first write that reached the disk there is no journal.  So an authorization that was
  acknowledged is never lost and never replaced by an earlier state.\<close>

theorem journal_survives_torn_writes:
  assumes "codec_ok env (map fst ws)" and "file_guard env = Inr ()"
    and "list_all (\<lambda>(j, _). validate_attempt_snapshot env j None = Inr ()) ws"
    and "run_writes env ws None = (rs, entry)"
  shows "read_attempt_file env entry = Inr None \<and> (\<forall>i < length ws. rs ! i \<noteq> Inr ())
    \<or> (\<exists>k < length ws. read_attempt_file env entry = Inr (Some (fst (ws ! k)))
        \<and> (\<forall>i < length ws. rs ! i = Inr () \<longrightarrow> i \<le> k))"
proof -
  have "on_file env (map fst ws) None None" by (simp add: on_file_def)
  moreover have "list_all (\<lambda>(j, _). j \<in> set (map fst ws) \<and> validate_attempt_snapshot env j None = Inr ()) ws"
    using assms(3) by (force simp: list_all_iff)
  ultimately have "on_file env (map fst ws) entry None \<and> (\<forall>i < length ws. rs ! i \<noteq> Inr ())
      \<or> (\<exists>k < length ws. on_file env (map fst ws) entry (Some (fst (ws ! k))) \<and> (\<forall>i < length ws. rs ! i = Inr () \<longrightarrow> i \<le> k))"
    using run_writes_on_file [OF assms(1,2) _ _ assms(4)] by blast
  then show ?thesis using read_on_file [OF assms(1) _ assms(2)] by blast
qed

text \<open>An attempt that is prepared, and whose authorization is cut short after one byte.\<close>

definition small_definition :: service_definition where
  "small_definition =
     \<lparr>def_manager = LinuxSystemd, def_service_id = ''k'', def_executable = ''/k'',
      def_arguments = [''service'', ''run'', ''--data-dir'', ''/d''], def_account = ''root'', def_boot = Automatic,
      def_data_dir = ''/d'', def_fingerprint = None\<rparr>"

definition absent_observation :: service_observation where
  "absent_observation =
     \<lparr>obs_installed = NotInstalled, obs_manager = ManagerStopped, obs_definition = None, obs_account = None,
      boot_enabled = False, obs_core = None, core_unknown = None, obs_diagnostic = None, pending_operation = False\<rparr>"

definition small_journal :: "attempt_status \<Rightarrow> journal" where
  "small_journal st =
     \<lparr>journal_schema = 1, attempt_id = ''a'', journal_manager = LinuxSystemd, native_service_id = ''k'',
      journal_action = ActStart, journal_step = ''service start'', expected_definition = small_definition,
      prior_state = absent_observation, helper_pid = None, helper_owner = None, attempt_status = st,
      completion_observation = None, residual_resources = [], recovery_guidance = []\<rparr>"

definition small_service :: service_env where
  "small_service =
     \<lparr>fingerprint_bytes = (\<lambda>_. Inr []), service_sha256 = id,
      encode_journal = (\<lambda>j. Inr (if attempt_status j = Prepared then ''{p}'' else ''{a}'')),
      decode_journal = (\<lambda>s. if s = ''{p}'' \<or> s = ''{p}'' @ [newline] then Inr (small_journal Prepared)
        else if s = ''{a}'' \<or> s = ''{a}'' @ [newline] then Inr (small_journal Authorized)
        else Inl (SerializationFailed ''not a journal'')),
      file_guard = Inr (), attempt_path = ''/s/attempt.json''\<rparr>"

lemma small_journal_valid: "validate_attempt_snapshot small_service (small_journal st) None = Inr ()"
proof -
  have "validate_definition small_service small_definition = Inr ()" "trim ''service start'' \<noteq> []" by code_simp+
  moreover have "validate_service_id LinuxSystemd ''k'' = Inr ()" by code_simp
  ultimately show ?thesis
    by (simp add: validate_attempt_snapshot_def small_journal_def SERVICE_STATE_SCHEMA_VERSION_def require_def
        small_definition_def)
qed

lemma small_prefix:
  assumes "strict_prefix p [CHR ''{'', c, CHR ''}'']"
  shows "p \<in> {[], ''{'', [CHR ''{'', c]}"
proof -
  have "length p < 3" using prefix_length_less [OF assms] by simp
  then consider "p = []" | x where "p = [x]" | x y where "p = [x, y]"
    by (cases p; cases "tl p"; cases "tl (tl p)") auto
  then show ?thesis using assms by cases (auto simp: strict_prefix_def)
qed

lemma small_codec: "codec_ok small_service [small_journal Prepared, small_journal Authorized]"
proof -
  have "(\<exists>r. b = CHR 0x7B # r) \<and> newline \<notin> set b
      \<and> decode_journal small_service b = Inr j \<and> decode_journal small_service (b @ [newline]) = Inr j
      \<and> (\<forall>p. strict_prefix p b \<longrightarrow> \<not> is_ok (decode_journal small_service p))
      \<and> (\<forall>rest. \<not> is_ok (decode_journal small_service (b @ newline # CHR 0x7B # rest)))"
    if "j = small_journal Prepared \<and> b = ''{p}'' \<or> j = small_journal Authorized \<and> b = ''{a}''" for j b
    using that by (elim disjE conjE) (auto simp: small_service_def dest!: small_prefix)
  then show ?thesis
    unfolding codec_ok_def by (auto simp: small_service_def small_journal_def)
qed

theorem journal_survives_torn_writes_witness:
  "read_attempt_file small_service
     (snd (run_writes small_service [(small_journal Prepared, None), (small_journal Authorized, Some (CutAfter 1 ''disk full''))] None))
   \<in> {Inr (Some (small_journal Prepared)), Inr (Some (small_journal Authorized))}"
proof -
  let ?ws = "[(small_journal Prepared, None), (small_journal Authorized, Some (CutAfter 1 ''disk full''))]"
  obtain rs entry where run: "run_writes small_service ?ws None = (rs, entry)" by (metis prod.exhaust)
  have "codec_ok small_service (map fst ?ws)" using small_codec by simp
  moreover have "file_guard small_service = Inr ()" by (simp add: small_service_def)
  moreover have "list_all (\<lambda>(j, _). validate_attempt_snapshot small_service j None = Inr ()) ?ws"
    by (simp add: small_journal_valid)
  ultimately have "read_attempt_file small_service entry = Inr None \<and> (\<forall>i < length ?ws. rs ! i \<noteq> Inr ())
    \<or> (\<exists>k < length ?ws. read_attempt_file small_service entry = Inr (Some (fst (?ws ! k)))
        \<and> (\<forall>i < length ?ws. rs ! i = Inr () \<longrightarrow> i \<le> k))"
    by (rule journal_survives_torn_writes [OF _ _ _ run])
  moreover have "rs ! 0 = Inr ()"
    using run by (auto simp: write_attempt_file_def read_attempt_snapshot_def publish_attempt_file_def small_service_def
        small_journal_def MAX_ATTEMPT_BYTES_def MAX_CONTROL_MESSAGE_BYTES_def split: prod.splits)
  ultimately have "\<exists>k < length ?ws. read_attempt_file small_service entry = Inr (Some (fst (?ws ! k)))" by auto
  then have "read_attempt_file small_service entry
      \<in> {Inr (Some (small_journal Prepared)), Inr (Some (small_journal Authorized))}" by (auto simp: less_Suc_eq)
  then show ?thesis unfolding run by simp
qed

end
