(* ===== verification/Service_Control.thy ===== *)
theory Service_Control
  imports Service_Journal State_Run
begin

text \<open>
  Control of the native service (\<open>ServiceController\<close> of \<open>src/lifecycle/service/mod.rs\<close>, \<open>run_mutations\<close> and
  \<open>run_one\<close> of \<open>src/lifecycle/service/helper.rs\<close>): install, start, stop, uninstall and status.  The world holds the
  file of the journal and whatever is outside Core: the service manager, helper processes, locks, disk and clock,
  which are reached through the operations of a \<open>manager\<close>; each may change it, so that the clock advances and
  others act between any two of them.  The loops that observe until something has happened wait at least a
  nanosecond in each round, so that there are at most as many rounds as nanoseconds before the deadline.
\<close>

section \<open>The world of a command\<close>

type_synonym ('m, 'a) native_op = "(lifecycle_error, 'm, 'a) fallible"

record 'm manager =
  mgr_isolated :: bool
  requires_owned_helper :: bool
  m_observe :: "service_manager_kind \<Rightarrow> string \<Rightarrow> deadline \<Rightarrow> ('m, service_observation) native_op"
  m_mutate :: "service_action \<Rightarrow> service_definition \<Rightarrow> deadline \<Rightarrow> ('m, unit) native_op"
  m_clock :: "'m \<Rightarrow> nat \<times> 'm"
  m_wait :: "nat \<Rightarrow> 'm \<Rightarrow> 'm"
  m_uuid :: "'m \<Rightarrow> string \<times> 'm"
  m_lock :: "string \<Rightarrow> deadline \<Rightarrow> ('m, unit) native_op"
  m_state_path :: "('m, unit) native_op"
  m_disk :: "'m \<Rightarrow> attempt_fault option \<times> 'm"
  m_unlink :: "('m, unit) native_op"
  h_retained :: "'m \<Rightarrow> nat \<times> 'm"
  h_spawn :: "journal \<Rightarrow> ('m, nat) native_op"
  h_evidence :: "nat \<Rightarrow> deadline \<Rightarrow> ('m, string) native_op"
  h_send :: "string \<Rightarrow> ('m, unit) native_op"
  h_receive :: "deadline \<Rightarrow> ('m, string) native_op"
  h_exit :: "deadline \<Rightarrow> ('m, unit) native_op"
  h_terminate :: "'m \<Rightarrow> 'm"
  h_reap :: "deadline \<Rightarrow> 'm \<Rightarrow> unit lifecycle_result option \<times> 'm"

record 'm service_world =
  attempt_entry :: "dir_entry option"
  native :: 'm

type_synonym ('m, 'a) act = "(lifecycle_error, 'm service_world, 'a) fallible"

definition on_native :: "('m \<Rightarrow> 'a \<times> 'm) \<Rightarrow> 'm service_world \<Rightarrow> 'a \<times> 'm service_world" where
  "on_native f w = (case f (native w) of (x, m) \<Rightarrow> (x, w\<lparr>native := m\<rparr>))"

definition pure_native :: "('m \<Rightarrow> 'a \<times> 'm) \<Rightarrow> ('m, 'a) act" where
  "pure_native f w = (case on_native f w of (x, w') \<Rightarrow> (Inr x, w'))"

abbreviation now_of :: "'m manager \<Rightarrow> ('m, nat) act" where
  "now_of mgr \<equiv> pure_native (m_clock mgr)"

definition ensure_remaining :: "'m manager \<Rightarrow> deadline \<Rightarrow> string \<Rightarrow> ('m, nat) act" where
  "ensure_remaining mgr d phase =
     sbind (now_of mgr) (\<lambda>now.
       if deadline_remaining d now = 0 then sfail (DeadlineExpired phase) else sreturn (deadline_remaining d now))"

definition start_deadline :: "'m manager \<Rightarrow> lifecycle_budget \<Rightarrow> ('m, deadline) act" where
  "start_deadline mgr b = sbind (now_of mgr) (\<lambda>now. sreturn (deadline_after now (budget_duration b)))"

text \<open>A phase of a command: its own budget, capped by what is left of the command.\<close>

definition phase_deadline :: "'m manager \<Rightarrow> deadline \<Rightarrow> lifecycle_budget \<Rightarrow> ('m, deadline) act" where
  "phase_deadline mgr command b =
     sbind (start_deadline mgr b) (\<lambda>d.
     sbind (now_of mgr) (\<lambda>t.
     sbind (now_of mgr) (\<lambda>now. sreturn (deadline_cap d now (deadline_remaining command t)))))"

section \<open>The journal of a service\<close>

definition paths_for :: "'m manager \<Rightarrow> service_manager_kind \<Rightarrow> string \<Rightarrow> unit lifecycle_result" where
  "paths_for mgr m i =
     rbind (validate_service_id m i) (\<lambda>_.
       require (mgr_isolated mgr \<or> canonical_service_id m i = canonical_service_id m (platform_service_id m))
         (UnsafeOwnership ''production service operations are limited to Kakune's native service identifier''))"

definition read_attempt_for_service ::
  "service_env \<Rightarrow> service_manager_kind \<Rightarrow> string \<Rightarrow> dir_entry option \<Rightarrow> journal option lifecycle_result" where
  "read_attempt_for_service env m i entry =
     rbind (read_attempt_file env entry) (\<lambda>found.
       case found of
         None \<Rightarrow> Inr None
       | Some j \<Rightarrow>
           rbind (require (journal_manager j = m
               \<and> canonical_service_id (journal_manager j) (native_service_id j) = canonical_service_id m i
               \<and> def_manager (expected_definition j) = m
               \<and> canonical_service_id (def_manager (expected_definition j)) (def_service_id (expected_definition j))
                   = canonical_service_id m i)
             (UnsafeOwnership ''service attempt identity does not match its machine-wide journal key'')) (\<lambda>_.
             Inr (Some j)))"

definition read_attempt :: "service_env \<Rightarrow> service_manager_kind \<Rightarrow> string \<Rightarrow> ('m, journal option) act" where
  "read_attempt env m i w = (read_attempt_for_service env m i (attempt_entry w), w)"

definition write_journal :: "service_env \<Rightarrow> 'm manager \<Rightarrow> journal \<Rightarrow> ('m, unit) act" where
  "write_journal env mgr j w =
     (case on_native (m_disk mgr) w of
        (fault, w1) \<Rightarrow>
          (case write_attempt_file env fault j (attempt_entry w1) of (r, e) \<Rightarrow> (r, w1\<lparr>attempt_entry := e\<rparr>)))"

text \<open>Removing the file; \<open>fs::remove_file\<close> fails when there is none, which some callers accept.\<close>

definition remove_journal :: "'m manager \<Rightarrow> bool \<Rightarrow> ('m, unit) act" where
  "remove_journal mgr may_be_gone w =
     (if attempt_entry w = None
      then (if may_be_gone then Inr () else Inl (LifecycleIo ''entity not found''), w)
      else (case on_native (m_unlink mgr) w of
          (Inl e, w1) \<Rightarrow> (Inl e, w1)
        | (Inr _, w1) \<Rightarrow> (Inr (), w1\<lparr>attempt_entry := None\<rparr>)))"

section \<open>What observations mean\<close>

definition require_definition :: "service_observation \<Rightarrow> service_definition lifecycle_result" where
  "require_definition ob =
     rbind (require (obs_installed ob \<noteq> NotInstalled) ServiceNotInstalled) (\<lambda>_.
       ok_or (obs_definition ob) (UnsafeOwnership ''installed service definition is missing or unverified''))"

definition fallback_definition :: "service_manager_kind \<Rightarrow> string \<Rightarrow> service_definition" where
  "fallback_definition m i =
     \<lparr>def_manager = m, def_service_id = i, def_executable = [], def_arguments = [], def_account = default_account m,
      def_boot = Automatic, def_data_dir = [], def_fingerprint = None\<rparr>"

definition core_is_ready :: "core_observation option \<Rightarrow> bool" where
  "core_is_ready core =
     (case core of
        None \<Rightarrow> False
      | Some c \<Rightarrow> seen_mode c = SystemService \<and> seen_state c = CoreReady \<and> identity_verified c)"

definition foreign_core :: "core_mode \<Rightarrow> lifecycle_error" where
  "foreign_core mode = UnsafeOwnership (''service data directory is owned by a '' @ mode_name mode @ '' Core instance'')"

definition ensure_service_mode :: "service_observation \<Rightarrow> unit lifecycle_result" where
  "ensure_service_mode ob =
     (case obs_core ob of
        None \<Rightarrow> Inr () | Some c \<Rightarrow> require (seen_mode c = SystemService) (foreign_core (seen_mode c)))"

definition core_is_absent_or_stopped :: "core_observation option \<Rightarrow> string option \<Rightarrow> bool" where
  "core_is_absent_or_stopped core unknown \<longleftrightarrow>
     unknown = None \<and> (case core of None \<Rightarrow> True | Some c \<Rightarrow> seen_state c = CoreStopped)"

abbreviation core_gone :: "service_observation \<Rightarrow> bool" where
  "core_gone ob \<equiv> core_is_absent_or_stopped (obs_core ob) (core_unknown ob)"

definition has_equivalent :: "service_definition \<Rightarrow> service_observation \<Rightarrow> bool" where
  "has_equivalent d ob = (case obs_definition ob of None \<Rightarrow> False | Some e \<Rightarrow> equivalent_to d e)"

definition ensure_expected_definition :: "service_definition \<Rightarrow> service_observation \<Rightarrow> unit lifecycle_result" where
  "ensure_expected_definition d ob =
     require (obs_installed ob = Installed \<and> has_equivalent d ob)
       (ConflictingServiceDefinition (''service definition disappeared or changed while observing the requested operation; ''
          @ ''retained attempt requires reconciliation''))"

definition native_effects_are_settled :: "journal \<Rightarrow> service_observation \<Rightarrow> bool" where
  "native_effects_are_settled j ob \<longleftrightarrow>
     \<not> pending_operation ob \<and> obs_manager ob \<in> {ManagerStopped, ManagerFailed} \<and> core_gone ob
   \<and> (case obs_installed ob of
        InstallationUnknown \<Rightarrow> False
      | NotInstalled \<Rightarrow> True
      | Installed \<Rightarrow> is_ok (ensure_expected_definition (expected_definition j) ob))"

definition native_attempt_outcome_is_known :: "journal \<Rightarrow> bool" where
  "native_attempt_outcome_is_known j =
     (case attempt_status j of
        Authorized \<Rightarrow> helper_pid j = None
      | OutcomeUnknown \<Rightarrow> completion_observation j \<noteq> None
      | _ \<Rightarrow> False)"

definition operation_satisfied :: "service_action \<Rightarrow> service_definition \<Rightarrow> service_observation \<Rightarrow> bool" where
  "operation_satisfied a d ob \<longleftrightarrow>
     \<not> pending_operation ob \<and> core_unknown ob = None
   \<and> (a = ActRemove \<or> is_ok (ensure_expected_definition d ob))
   \<and> (case a of
        ActInstall \<Rightarrow> obs_installed ob = Installed \<and> has_equivalent d ob \<and> obs_manager ob = ManagerStopped
          \<and> boot_enabled ob \<and> core_is_absent_or_stopped (obs_core ob) None
      | ActStart \<Rightarrow> obs_manager ob = ManagerRunning \<and> core_is_ready (obs_core ob)
      | ActStop \<Rightarrow> obs_manager ob = ManagerStopped \<and> core_gone ob
      | ActRemove \<Rightarrow> obs_installed ob = NotInstalled \<and> core_is_absent_or_stopped (obs_core ob) None)"

section \<open>Observing and waiting\<close>

definition check_observation ::
  "service_env \<Rightarrow> service_manager_kind \<Rightarrow> string \<Rightarrow> service_observation \<Rightarrow> service_observation lifecycle_result" where
  "check_observation env m i ob =
     rbind (require (obs_installed ob \<noteq> InstallationUnknown \<and> obs_manager ob \<noteq> ManagerUnknown)
       (UnsafeOwnership (case obs_diagnostic ob of None \<Rightarrow> ''native service state is unknown'' | Some e \<Rightarrow> e))) (\<lambda>_.
     rbind (if obs_installed ob \<noteq> Installed then Inr ()
         else rbind (require_definition ob) (\<lambda>d.
              rbind (validate_definition env d) (\<lambda>_.
                require (def_manager d = m \<and> canonical_service_id (def_manager d) (def_service_id d) = canonical_service_id m i)
                  (ConflictingServiceDefinition ''native observation belongs to another manager or service identifier'')))) (\<lambda>_.
       Inr ob))"

definition observe_service ::
  "service_env \<Rightarrow> 'm manager \<Rightarrow> service_manager_kind \<Rightarrow> string \<Rightarrow> deadline \<Rightarrow> ('m, service_observation) act" where
  "observe_service env mgr m i d =
     sbind (ensure_remaining mgr d ''service observation'') (\<lambda>_.
     sbind (on_native (m_observe mgr m i d)) (\<lambda>ob.
     sbind (ensure_remaining mgr d ''service observation'') (\<lambda>_.
       slift (check_observation env m i ob))))"

definition OBSERVATION_RETRY_INTERVAL :: nat where "OBSERVATION_RETRY_INTERVAL = from_millis 100"

text \<open>The body of the three loops: observe, decide, and wait for the next round.\<close>

fun await_observation ::
  "service_env \<Rightarrow> 'm manager \<Rightarrow> service_definition \<Rightarrow> deadline \<Rightarrow> string
   \<Rightarrow> (service_observation \<Rightarrow> ('m, service_observation option) act) \<Rightarrow> nat \<Rightarrow> ('m, service_observation) act" where
  "await_observation env mgr d dl phase decide 0 = sfail (DeadlineExpired phase)"
| "await_observation env mgr d dl phase decide (Suc n) =
     sbind (observe_service env mgr (def_manager d) (def_service_id d) dl) (\<lambda>ob.
     sbind (decide ob) (\<lambda>answer.
       case answer of
         Some seen \<Rightarrow> sreturn seen
       | None \<Rightarrow>
           sbind (ensure_remaining mgr dl phase) (\<lambda>left.
           sbind (pure_native (\<lambda>m. ((), m_wait mgr (min left OBSERVATION_RETRY_INTERVAL) m))) (\<lambda>_.
             await_observation env mgr d dl phase decide n))))"

definition mark_attempt_unknown ::
  "service_env \<Rightarrow> 'm manager \<Rightarrow> service_manager_kind \<Rightarrow> string \<Rightarrow> service_observation \<Rightarrow> ('m, unit) act" where
  "mark_attempt_unknown env mgr m i ob =
     sbind (read_attempt env m i) (\<lambda>found.
       case found of
         None \<Rightarrow> sreturn ()
       | Some j \<Rightarrow>
           (let note = ''requested state was not confirmed'';
                changed = (attempt_status j \<noteq> OutcomeUnknown \<or> completion_observation j \<noteq> Some ob
                  \<or> note \<notin> set (residual_resources j));
                j' = j\<lparr>attempt_status := OutcomeUnknown, completion_observation := Some ob,
                  residual_resources := residual_resources j @ (if note \<in> set (residual_resources j) then [] else [note])\<rparr>
            in if changed then write_journal env mgr j' else sreturn ()))"

text \<open>An attempt is closed in three writes: seen complete, reconciled, gone.\<close>

definition close_attempt :: "service_env \<Rightarrow> 'm manager \<Rightarrow> bool \<Rightarrow> service_observation \<Rightarrow> journal \<Rightarrow> ('m, unit) act" where
  "close_attempt env mgr may_be_gone ob j =
     sbind (write_journal env mgr (j\<lparr>attempt_status := ObservedComplete, completion_observation := Some ob\<rparr>)) (\<lambda>_.
     sbind (write_journal env mgr (j\<lparr>attempt_status := Reconciled, completion_observation := Some ob\<rparr>)) (\<lambda>_.
       remove_journal mgr may_be_gone))"

definition record_failed_attempt ::
  "service_env \<Rightarrow> 'm manager \<Rightarrow> service_manager_kind \<Rightarrow> string \<Rightarrow> service_observation \<Rightarrow> ('m, unit) act" where
  "record_failed_attempt env mgr m i ob =
     sbind (read_attempt env m i) (\<lambda>found.
       case found of
         None \<Rightarrow> sreturn ()
       | Some j \<Rightarrow>
           (if native_effects_are_settled j ob \<and> native_attempt_outcome_is_known j then close_attempt env mgr True ob j
            else mark_attempt_unknown env mgr m i ob))"

definition complete_attempt ::
  "service_env \<Rightarrow> 'm manager \<Rightarrow> service_manager_kind \<Rightarrow> string \<Rightarrow> service_observation \<Rightarrow> ('m, unit) act" where
  "complete_attempt env mgr m i ob =
     sbind (read_attempt env m i) (\<lambda>found.
       case found of None \<Rightarrow> sreturn () | Some j \<Rightarrow> close_attempt env mgr True ob j)"

definition ready_decision ::
  "service_env \<Rightarrow> 'm manager \<Rightarrow> service_manager_kind \<Rightarrow> string \<Rightarrow> service_definition \<Rightarrow> service_observation
   \<Rightarrow> ('m, service_observation option) act" where
  "ready_decision env mgr m i d ob =
     sbind (slift (ensure_expected_definition d ob)) (\<lambda>_.
       case core_unknown ob of
         Some detail \<Rightarrow> sfail (UnsafeOwnership (''cannot verify Core readiness: '' @ detail))
       | None \<Rightarrow>
           (if obs_manager ob = ManagerFailed
            then sbind (record_failed_attempt env mgr m i ob) (\<lambda>_. sfail ServiceStateUnconfirmed)
            else if obs_manager ob = ManagerRunning \<and> core_is_ready (obs_core ob) \<and> \<not> pending_operation ob
            then sreturn (Some ob) else sreturn None))"

definition stopped_decision :: "service_definition \<Rightarrow> service_observation \<Rightarrow> ('m, service_observation option) act" where
  "stopped_decision d ob =
     sbind (slift (ensure_expected_definition d ob)) (\<lambda>_.
     sbind (slift (ensure_service_mode ob)) (\<lambda>_.
       sreturn (if obs_manager ob = ManagerStopped \<and> \<not> pending_operation ob \<and> core_gone ob then Some ob else None)))"

definition wait_for_ready ::
  "service_env \<Rightarrow> 'm manager \<Rightarrow> service_manager_kind \<Rightarrow> string \<Rightarrow> service_definition \<Rightarrow> deadline \<Rightarrow> ('m, service_observation) act" where
  "wait_for_ready env mgr m i d dl =
     await_observation env mgr d dl ''service readiness'' (ready_decision env mgr m i d) (Suc (endpoint dl))"

definition wait_for_stopped ::
  "service_env \<Rightarrow> 'm manager \<Rightarrow> service_definition \<Rightarrow> deadline \<Rightarrow> ('m, service_observation) act" where
  "wait_for_stopped env mgr d dl =
     await_observation env mgr d dl ''service stop'' (stopped_decision d) (Suc (endpoint dl))"

section \<open>Reconciling an earlier attempt\<close>

definition attempt_title :: "journal \<Rightarrow> string" where
  "attempt_title j = action_label (journal_action j) @ '' ('' @ attempt_id j @ '')''"

text \<open>The reasons to leave an attempt as it is and to refuse every further change.\<close>

definition attempt_barrier :: "'m manager \<Rightarrow> journal \<Rightarrow> service_observation \<Rightarrow> unit lifecycle_result" where
  "attempt_barrier mgr j ob =
     rbind (require (\<not> (requires_owned_helper mgr \<and> \<not> is_native_step j \<and> attempt_status j \<notin> {Prepared, Reconciled}))
       (UnresolvedServiceAttempt (''legacy operation-level native attempt lacks single-step completion evidence; ''
          @ ''inspect its manager effects before recovery''))) (\<lambda>_.
     rbind (require (\<not> (is_native_step j \<and> attempt_status j = OutcomeUnknown
           \<and> \<not> (native_attempt_outcome_is_known j \<and> native_effects_are_settled j ob)))
       (UnresolvedServiceAttempt (attempt_title j @ '' has unknown native effects at '' @ journal_step j
          @ ''; a matching definition alone cannot prove this step completed or that manager work was cancelled''))) (\<lambda>_.
     require (\<not> (is_native_step j \<and> \<not> is_final_step j
           \<and> (attempt_status j \<noteq> Prepared \<or> \<not> starts_with (journal_step j) ''0:'' \<or> helper_pid j \<noteq> None)))
       (UnresolvedServiceAttempt (attempt_title j @ '' stopped at native step '' @ journal_step j
          @ ''; inspect the recorded partial resources before recovery''))))"

definition unconfirmed_attempt :: "service_env \<Rightarrow> 'm manager \<Rightarrow> deadline \<Rightarrow> journal \<Rightarrow> ('m, unit) act" where
  "unconfirmed_attempt env mgr d j =
     sbind (now_of mgr) (\<lambda>now.
       if is_expired_at d now then sfail (DeadlineExpired ''service journal reconciliation'')
       else sbind (if attempt_status j = OutcomeUnknown then sreturn ()
           else write_journal env mgr (j\<lparr>attempt_status := OutcomeUnknown, residual_resources := residual_resources j
             @ [''native manager effect is not confirmed; registration was not changed again'']\<rparr>)) (\<lambda>_.
         sfail (UnresolvedServiceAttempt (attempt_title j))))"

definition settle_attempt ::
  "service_env \<Rightarrow> 'm manager \<Rightarrow> service_observation \<Rightarrow> deadline \<Rightarrow> journal \<Rightarrow> ('m, unit) act" where
  "settle_attempt env mgr ob d j =
     (if attempt_status j = Prepared
      then (case helper_pid j of
          None \<Rightarrow> remove_journal mgr False
        | Some pid \<Rightarrow> sfail (UnresolvedServiceAttempt (attempt_title j @ '' was prepared for helper '' @ show_nat pid
            @ '' but was not authorized'')))
      else if attempt_status j = Reconciled then remove_journal mgr False
      else (case helper_pid j of
          Some pid \<Rightarrow> sfail (UnresolvedServiceAttempt (attempt_title j @ '' retains unconfirmed helper '' @ show_nat pid
            @ ''; verify helper exit and pending manager work before retrying''))
        | None \<Rightarrow>
            (if is_native_step j \<and> native_attempt_outcome_is_known j \<and> native_effects_are_settled j ob
                \<or> operation_satisfied (journal_action j) (expected_definition j) ob \<and> \<not> pending_operation ob
             then close_attempt env mgr False ob j
             else unconfirmed_attempt env mgr d j)))"

definition reconcile_pending ::
  "service_env \<Rightarrow> 'm manager \<Rightarrow> service_manager_kind \<Rightarrow> string \<Rightarrow> service_observation \<Rightarrow> deadline \<Rightarrow> ('m, unit) act" where
  "reconcile_pending env mgr m i ob d =
     sbind (read_attempt env m i) (\<lambda>found.
       case found of
         None \<Rightarrow> sreturn ()
       | Some j \<Rightarrow>
           sbind (slift (require (journal_schema j = SERVICE_STATE_SCHEMA_VERSION) (UnsupportedSchema (journal_schema j)))) (\<lambda>_.
           sbind (ensure_remaining mgr d ''service journal reconciliation'') (\<lambda>_.
           sbind (slift (attempt_barrier mgr j ob)) (\<lambda>_. settle_attempt env mgr ob d j))))"

section \<open>Changing the service\<close>

definition new_attempt ::
  "string \<Rightarrow> service_action \<Rightarrow> string \<Rightarrow> service_definition \<Rightarrow> service_observation \<Rightarrow> string list \<Rightarrow> journal" where
  "new_attempt i a st d ob guidance =
     \<lparr>journal_schema = SERVICE_STATE_SCHEMA_VERSION, attempt_id = i, journal_manager = def_manager d,
      native_service_id = def_service_id d, journal_action = a, journal_step = st, expected_definition = d,
      prior_state = ob, helper_pid = None, helper_owner = None, attempt_status = Prepared,
      completion_observation = None, residual_resources = [], recovery_guidance = guidance\<rparr>"

text \<open>The helper process: it is started, identified, told to prepare, and only then authorized.\<close>

definition helper_work_deadline :: "'m manager \<Rightarrow> deadline \<Rightarrow> ('m, deadline) act" where
  "helper_work_deadline mgr d =
     sbind (now_of mgr) (\<lambda>now. sreturn (Deadline (endpoint d - min (deadline_remaining d now) (from_secs 1))))"

definition frame_error :: "string \<Rightarrow> lifecycle_error option" where
  "frame_error frame =
     (if frame = ''KAKUNE-HELPER-ERROR access_denied'' @ [newline]
      then Some (AccessDenied (''native helper was denied access; inspect the protected service journal and ''
        @ ''installed account permissions''))
      else if frame = ''KAKUNE-HELPER-ERROR manager_unavailable'' @ [newline]
      then Some (ManagerUnavailable (''native helper could not access the service manager; inspect its availability ''
        @ ''and retained journal''))
      else if frame = ''KAKUNE-HELPER-ERROR conflict'' @ [newline]
      then Some (ConflictingServiceDefinition ''native definition changed before the authorized mutation'')
      else if frame = ''KAKUNE-HELPER-ERROR identity'' @ [newline]
      then Some (UnsafeOwnership ''native helper could not verify protected ownership'')
      else None)"

definition expect_frame :: "'m manager \<Rightarrow> string \<Rightarrow> deadline \<Rightarrow> ('m, unit) act" where
  "expect_frame mgr expected d =
     sbind (on_native (h_receive mgr d)) (\<lambda>frame.
       case frame_error frame of
         Some e \<Rightarrow> sfail e
       | None \<Rightarrow>
           (if frame \<noteq> expected @ [newline] then sfail (UnresolvedServiceAttempt ''unexpected service helper response'')
            else sbind (ensure_remaining mgr d ''service helper IPC'') (\<lambda>_. sreturn ())))"

definition authorization :: "journal \<Rightarrow> string" where
  "authorization j = ''AUTHORIZE '' @ attempt_id j @ [newline]"

definition prepare_helper :: "service_env \<Rightarrow> 'm manager \<Rightarrow> deadline \<Rightarrow> journal \<Rightarrow> ('m, unit) act" where
  "prepare_helper env mgr work j =
     sbind (write_journal env mgr j) (\<lambda>_.
     sbind (on_native (h_send mgr (''PREPARE'' @ [newline]))) (\<lambda>_. expect_frame mgr ''KAKUNE-HELPER-READY'' work))"

definition authorize_helper :: "service_env \<Rightarrow> 'm manager \<Rightarrow> deadline \<Rightarrow> journal \<Rightarrow> ('m, unit) act" where
  "authorize_helper env mgr work j =
     sbind (write_journal env mgr j) (\<lambda>_.
     sbind (ensure_remaining mgr work ''service helper authorization'') (\<lambda>_.
     sbind (on_native (h_send mgr (authorization j))) (\<lambda>_.
     sbind (expect_frame mgr ''KAKUNE-HELPER-DONE'' work) (\<lambda>_. on_native (h_exit mgr work)))))"

text \<open>The session with a started helper: how it went, and the journal as far as it got.\<close>

definition helper_session ::
  "service_env \<Rightarrow> 'm manager \<Rightarrow> deadline \<Rightarrow> nat \<Rightarrow> journal \<Rightarrow> 'm service_world \<Rightarrow> (unit lifecycle_result \<times> journal) \<times> 'm service_world" where
  "helper_session env mgr work pid j w =
     (case on_native (h_evidence mgr pid work) w of
        (Inl e, w1) \<Rightarrow> ((Inl e, j), w1)
      | (Inr owner, w1) \<Rightarrow>
          (let j1 = j\<lparr>helper_pid := Some pid, helper_owner := Some owner\<rparr>;
               j2 = j1\<lparr>attempt_status := Authorized\<rparr>
           in case prepare_helper env mgr work j1 w1 of
                (Inl e, w2) \<Rightarrow> ((Inl e, j1), w2)
              | (Inr _, w2) \<Rightarrow>
                  (case authorize_helper env mgr work j2 w2 of (r, w3) \<Rightarrow> ((r, j2), w3))))"

text \<open>A helper that cannot be reaped in time is kept, and the attempt keeps its process identifier.\<close>

definition reap_helper ::
  "service_env \<Rightarrow> 'm manager \<Rightarrow> deadline \<Rightarrow> nat \<Rightarrow> unit lifecycle_result \<Rightarrow> journal \<Rightarrow> 'm service_world
   \<Rightarrow> (unit lifecycle_result \<times> journal) \<times> 'm service_world" where
  "reap_helper env mgr d pid r j w =
     (case on_native (h_reap mgr d) w of
        (None, w1) \<Rightarrow> ((Inl (HelperUnreaped pid), j), w1)
      | (Some (Inl e), w1) \<Rightarrow> ((Inl e, j), w1)
      | (Some (Inr _), w1) \<Rightarrow>
          (let j1 = j\<lparr>helper_pid := None,
                 attempt_status := (if \<not> is_ok r \<and> attempt_status j = Authorized then OutcomeUnknown else attempt_status j)\<rparr>
           in case write_journal env mgr j1 w1 of
                (Inl e, w2) \<Rightarrow> ((Inl e, j1), w2)
              | (Inr _, w2) \<Rightarrow> ((r, j1), w2)))"

definition launch_helper :: "'m manager \<Rightarrow> deadline \<Rightarrow> journal \<Rightarrow> ('m, deadline \<times> nat) act" where
  "launch_helper mgr d j =
     sbind (pure_native (h_retained mgr)) (\<lambda>k.
       if 16 \<le> k then sfail (UnresolvedServiceAttempt
         (''sixteen owned helper resources remain unresolved; reconcile them before launching another helper''))
       else sbind (helper_work_deadline mgr d) (\<lambda>work.
            sbind (ensure_remaining mgr work ''service helper launch'') (\<lambda>_.
            sbind (on_native (h_spawn mgr j)) (\<lambda>pid. sreturn (work, pid)))))"

definition run_one ::
  "service_env \<Rightarrow> 'm manager \<Rightarrow> deadline \<Rightarrow> journal \<Rightarrow> 'm service_world \<Rightarrow> (unit lifecycle_result \<times> journal) \<times> 'm service_world" where
  "run_one env mgr d j w =
     (case launch_helper mgr d j w of
        (Inl e, w1) \<Rightarrow> ((Inl e, j), w1)
      | (Inr (work, pid), w1) \<Rightarrow>
          (case helper_session env mgr work pid j w1 of
             ((r, j2), w2) \<Rightarrow>
               reap_helper env mgr d pid r j2 (if is_ok r then w2 else snd (on_native (\<lambda>m. ((), h_terminate mgr m)) w2))))"

definition failed_step :: "service_env \<Rightarrow> 'm manager \<Rightarrow> journal \<Rightarrow> ('m, unit) act" where
  "failed_step env mgr j =
     write_journal env mgr (j\<lparr>attempt_status := (if attempt_status j = Authorized then OutcomeUnknown else attempt_status j),
       residual_resources := residual_resources j
         @ [''native step '' @ journal_step j @ '' is unconfirmed; no compensating mutation was attempted'']\<rparr>)"

fun run_steps ::
  "service_env \<Rightarrow> 'm manager \<Rightarrow> service_definition \<Rightarrow> deadline \<Rightarrow> (nat \<times> native_mutation) list \<Rightarrow> journal \<Rightarrow> ('m, unit) act" where
  "run_steps env mgr d dl [] j = sreturn ()"
| "run_steps env mgr d dl ((index, s) # rest) j =
     (let j0 = j\<lparr>journal_step := step_label index s, attempt_status := Prepared, helper_pid := None, helper_owner := None,
           completion_observation := None\<rparr>
      in sbind (ensure_remaining mgr dl ''service mutation phase'') (\<lambda>_.
         sbind (write_journal env mgr j0) (\<lambda>_.
         sbind (now_of mgr) (\<lambda>now w.
           case run_one env mgr (deadline_cap dl now (budget_duration Helper)) j0 w of
             ((Inl e, j1), w1) \<Rightarrow> sbind (failed_step env mgr j1) (\<lambda>_. sfail e) w1
           | ((Inr _, j1), w1) \<Rightarrow>
               (if rest = [] then (Inr (), w1)
                else sbind (observe_service env mgr (def_manager d) (def_service_id d) dl) (\<lambda>ob.
                  (let j2 = j1\<lparr>attempt_status := ObservedComplete, completion_observation := Some ob\<rparr>
                   in sbind (write_journal env mgr j2) (\<lambda>_. run_steps env mgr d dl rest j2))) w1)))))"

definition run_mutations ::
  "service_env \<Rightarrow> 'm manager \<Rightarrow> service_action \<Rightarrow> service_definition \<Rightarrow> service_observation \<Rightarrow> deadline \<Rightarrow> ('m, unit) act" where
  "run_mutations env mgr a d ob dl =
     sbind (pure_native (m_uuid mgr)) (\<lambda>i.
       run_steps env mgr d dl (enumerate 0 (native_steps (def_manager d) a))
         (new_attempt i a [] d ob [''Inspect native manager effects and the retained attempt at '' @ attempt_path env
            @ '' before retrying; helper timeout does not cancel manager work.'']))"

text \<open>Without helpers, the manager is asked once, after the authorization is on disk.\<close>

definition failed_mutation :: "service_env \<Rightarrow> 'm manager \<Rightarrow> journal \<Rightarrow> lifecycle_error \<Rightarrow> ('m, unit) act" where
  "failed_mutation env mgr j e =
     sbind (write_journal env mgr (j\<lparr>attempt_status := OutcomeUnknown,
         helper_pid := (case e of HelperUnreaped pid \<Rightarrow> Some pid | _ \<Rightarrow> helper_pid j),
         residual_resources := residual_resources j
           @ [''authorized '' @ action_label (journal_action j) @ '' mutation has an unconfirmed outcome'']\<rparr>)) (\<lambda>_.
       sfail e)"

definition ask_manager :: "service_env \<Rightarrow> 'm manager \<Rightarrow> deadline \<Rightarrow> journal \<Rightarrow> ('m, unit) act" where
  "ask_manager env mgr dl j =
     shandle (sbind (now_of mgr) (\<lambda>now.
        (let hd = deadline_cap dl now (budget_duration Helper)
         in sbind (on_native (m_mutate mgr (journal_action j) (expected_definition j) hd)) (\<lambda>_.
            sbind (ensure_remaining mgr hd ''native service helper'') (\<lambda>_. sreturn ())))))
       (failed_mutation env mgr j)"

definition mutate_and_authorize ::
  "service_env \<Rightarrow> 'm manager \<Rightarrow> service_action \<Rightarrow> service_definition \<Rightarrow> service_observation \<Rightarrow> deadline \<Rightarrow> ('m, unit) act" where
  "mutate_and_authorize env mgr a d ob dl =
     (if requires_owned_helper mgr then run_mutations env mgr a d ob dl
      else sbind (ensure_remaining mgr dl (action_label a)) (\<lambda>_.
           sbind (pure_native (m_uuid mgr)) (\<lambda>i.
           (let j = new_attempt i a (action_label a) d ob
              [''Inspect the native manager and reconcile this Kakune service attempt before retrying.'']
            in sbind (write_journal env mgr j) (\<lambda>_.
               sbind (write_journal env mgr (j\<lparr>attempt_status := Authorized\<rparr>)) (\<lambda>_.
                 ask_manager env mgr dl (j\<lparr>attempt_status := Authorized\<rparr>)))))))"

definition mutate_and_confirm ::
  "service_env \<Rightarrow> 'm manager \<Rightarrow> service_manager_kind \<Rightarrow> string \<Rightarrow> service_action \<Rightarrow> service_definition \<Rightarrow> service_observation
   \<Rightarrow> deadline \<Rightarrow> ('m, service_observation) act" where
  "mutate_and_confirm env mgr m i a d ob dl =
     sbind (mutate_and_authorize env mgr a d ob dl) (\<lambda>_.
     sbind (await_observation env mgr d dl ''native service convergence''
         (\<lambda>seen. sreturn (if pending_operation seen then None else Some seen)) (Suc (endpoint dl))) (\<lambda>seen.
       if \<not> operation_satisfied a d seen
       then sbind (record_failed_attempt env mgr m i seen) (\<lambda>_. sfail ServiceStateUnconfirmed)
       else sbind (complete_attempt env mgr m i seen) (\<lambda>_. sreturn seen)))"

section \<open>The commands\<close>

datatype operation_outcome = Success | Noop

record operation_report =
  op_action :: string
  op_scope :: string
  op_outcome :: operation_outcome
  op_state :: observed_state
  op_pid :: "nat option"
  op_data_dir :: string
  op_diagnostic :: "string option"
  op_changed :: "string list"
  op_remaining :: "string list"
  op_guidance :: "string list"
  op_elapsed :: nat
  op_limitations :: "string list"
  op_observation :: service_observation

definition command_budget :: "service_action \<Rightarrow> lifecycle_budget" where
  "command_budget a =
     (case a of ActInstall \<Rightarrow> InstallCommand | ActStart \<Rightarrow> StartCommand | ActStop \<Rightarrow> StopCommand | ActRemove \<Rightarrow> UninstallCommand)"

definition operation_result ::
  "'m manager \<Rightarrow> service_action \<Rightarrow> deadline \<Rightarrow> service_definition \<Rightarrow> service_observation \<Rightarrow> operation_outcome \<Rightarrow> string list
   \<Rightarrow> ('m, operation_report) act" where
  "operation_result mgr a command d ob outcome changed =
     sbind (now_of mgr) (\<lambda>now. sreturn
       \<lparr>op_action = action_label a, op_scope = ''system_service'', op_outcome = outcome,
        op_state = (case obs_core ob of
            None \<Rightarrow> if core_unknown ob \<noteq> None then CoreUnknown else CoreStopped | Some c \<Rightarrow> seen_state c),
        op_pid = Option.bind (obs_core ob) (\<lambda>c. map_option process_pid (seen_process c)),
        op_data_dir = def_data_dir d, op_diagnostic = obs_diagnostic ob, op_changed = changed,
        op_remaining = (if pending_operation ob
            then [manager_key (def_manager d) @ '':'' @ def_service_id d @ '' pending manager operation''] else []),
        op_guidance = [], op_elapsed = budget_duration (command_budget a) - deadline_remaining command now,
        op_limitations = [''Native manager requests may outlive a bounded helper; unresolved effects remain journaled.''],
        op_observation = ob\<rparr>)"

definition acquire_service_lease :: "'m manager \<Rightarrow> deadline \<Rightarrow> ('m, unit) act" where
  "acquire_service_lease mgr d =
     sbind (on_native (m_lock mgr ''admin.lock'' d)) (\<lambda>_. on_native (m_lock mgr ''helper.lock'' d))"

text \<open>What every change begins with, once its deadlines are set: both locks, the journal, an observation, and what
  is to be done about an earlier attempt.\<close>

definition begin_change ::
  "service_env \<Rightarrow> 'm manager \<Rightarrow> service_manager_kind \<Rightarrow> string \<Rightarrow> deadline \<Rightarrow> deadline \<Rightarrow> ('m, service_observation) act" where
  "begin_change env mgr m i command acquisition =
     sbind (acquire_service_lease mgr acquisition) (\<lambda>_.
     sbind (phase_deadline mgr command Preflight) (\<lambda>preflight.
     sbind (read_attempt env m i) (\<lambda>_.
     sbind (observe_service env mgr m i preflight) (\<lambda>ob.
     sbind (reconcile_pending env mgr m i ob preflight) (\<lambda>_. sreturn ob)))))"

definition install :: "service_env \<Rightarrow> 'm manager \<Rightarrow> service_definition \<Rightarrow> ('m, operation_report) act" where
  "install env mgr d =
     (let m = def_manager d; i = def_service_id d in
      sbind (slift (validate_definition env d)) (\<lambda>_.
      sbind (start_deadline mgr InstallCommand) (\<lambda>command.
      sbind (phase_deadline mgr command Acquisition) (\<lambda>acquisition.
      sbind (slift (paths_for mgr m i)) (\<lambda>_.
      sbind (begin_change env mgr m i command acquisition) (\<lambda>ob.
        if pending_operation ob then sfail ServiceStateUnconfirmed
        else (case obs_installed ob of
            Installed \<Rightarrow>
              sbind (slift (ok_or (obs_definition ob) (UnsafeOwnership ''installed service definition could not be verified''))) (\<lambda>e.
                if \<not> equivalent_to d e \<or> \<not> boot_enabled ob
                then sfail (ConflictingServiceDefinition ''executable, arguments, data path, account, or boot policy differs'')
                else operation_result mgr ActInstall command d ob Noop [])
          | InstallationUnknown \<Rightarrow>
              sfail (UnsafeOwnership ''service installation state is unknown; no mutation was attempted'')
          | NotInstalled \<Rightarrow>
              sbind (phase_deadline mgr command Install) (\<lambda>dl.
              sbind (mutate_and_confirm env mgr m i ActInstall d ob dl) (\<lambda>seen.
                if obs_installed seen \<noteq> Installed \<or> \<not> has_equivalent d seen \<or> \<not> boot_enabled seen
                   \<or> obs_manager seen \<noteq> ManagerStopped
                then sfail ServiceStateUnconfirmed
                else operation_result mgr ActInstall command d seen Success [manager_key m @ '':'' @ i])))))))))"

definition start_stopped ::
  "service_env \<Rightarrow> 'm manager \<Rightarrow> service_manager_kind \<Rightarrow> string \<Rightarrow> deadline \<Rightarrow> service_definition \<Rightarrow> service_observation
   \<Rightarrow> ('m, operation_report) act" where
  "start_stopped env mgr m i command d ob =
     sbind (phase_deadline mgr command Readiness) (\<lambda>dl.
     sbind (mutate_and_authorize env mgr ActStart d ob dl) (\<lambda>_.
     sbind (wait_for_ready env mgr m i d dl) (\<lambda>seen.
       if obs_manager seen \<noteq> ManagerRunning \<or> \<not> core_is_ready (obs_core seen)
       then sbind (record_failed_attempt env mgr m i seen) (\<lambda>_. sfail ServiceStateUnconfirmed)
       else sbind (complete_attempt env mgr m i seen) (\<lambda>_.
         operation_result mgr ActStart command d seen Success []))))"

definition start :: "service_env \<Rightarrow> 'm manager \<Rightarrow> service_manager_kind \<Rightarrow> string \<Rightarrow> ('m, operation_report) act" where
  "start env mgr m i =
     sbind (slift (validate_service_id m i)) (\<lambda>_.
     sbind (start_deadline mgr StartCommand) (\<lambda>command.
     sbind (slift (paths_for mgr m i)) (\<lambda>_.
     sbind (phase_deadline mgr command Acquisition) (\<lambda>acquisition.
     sbind (begin_change env mgr m i command acquisition) (\<lambda>ob.
     sbind (slift (require_definition ob)) (\<lambda>d.
     sbind (slift (require (obs_installed ob \<noteq> NotInstalled) ServiceNotInstalled)) (\<lambda>_.
     sbind (slift (case core_unknown ob of
         None \<Rightarrow> Inr () | Some e \<Rightarrow> Inl (UnsafeOwnership (''cannot verify the installed service data owner: '' @ e)))) (\<lambda>_.
     sbind (slift (ensure_service_mode ob)) (\<lambda>_.
       if obs_manager ob = ManagerRunning \<and> \<not> pending_operation ob \<and> core_is_ready (obs_core ob)
       then operation_result mgr ActStart command d ob Noop []
       else if obs_manager ob = ManagerRunning then sfail ServiceStateUnconfirmed
       else if obs_manager ob = ManagerStarting
       then sbind (phase_deadline mgr command Readiness) (\<lambda>dl.
            sbind (wait_for_ready env mgr m i d dl) (\<lambda>seen. operation_result mgr ActStart command d seen Success []))
       else if pending_operation ob \<or> obs_manager ob \<noteq> ManagerStopped then sfail ServiceStateUnconfirmed
       else start_stopped env mgr m i command d ob)))))))))"

definition service_status ::
  "service_env \<Rightarrow> 'm manager \<Rightarrow> service_manager_kind \<Rightarrow> string \<Rightarrow> ('m, service_observation) act" where
  "service_status env mgr m i =
     sbind (slift (validate_service_id m i)) (\<lambda>_.
     sbind (start_deadline mgr Status) (\<lambda>d.
     sbind (slift (paths_for mgr m i)) (\<lambda>_.
     sbind (on_native (m_state_path mgr)) (\<lambda>_.
     sbind (read_attempt env m i) (\<lambda>found.
     sbind (observe_service env mgr m i d) (\<lambda>ob.
     sbind (ensure_remaining mgr d ''service status'') (\<lambda>_.
       sreturn (ob\<lparr>pending_operation := pending_operation ob
         \<or> (case found of None \<Rightarrow> False | Some j \<Rightarrow> attempt_status j \<noteq> Reconciled)\<rparr>))))))))"

text \<open>Stopping: the request is dispatched, then the grace of Core is waited for.\<close>

definition stop_running ::
  "service_env \<Rightarrow> 'm manager \<Rightarrow> service_manager_kind \<Rightarrow> string \<Rightarrow> deadline \<Rightarrow> service_definition \<Rightarrow> service_observation
   \<Rightarrow> ('m, service_observation) act" where
  "stop_running env mgr m i command d ob =
     sbind (phase_deadline mgr command StopDispatch) (\<lambda>dl.
     sbind (mutate_and_authorize env mgr ActStop d ob dl) (\<lambda>_.
     sbind (phase_deadline mgr command CoreGrace) (\<lambda>grace.
     sbind (wait_for_stopped env mgr d grace) (\<lambda>seen.
     sbind (complete_attempt env mgr m i seen) (\<lambda>_. sreturn seen)))))"

definition safe_to_change :: "string \<Rightarrow> service_observation \<Rightarrow> unit lifecycle_result" where
  "safe_to_change verb ob =
     rbind (case core_unknown ob of
         None \<Rightarrow> Inr ()
       | Some e \<Rightarrow> Inl (UnsafeOwnership (''cannot safely '' @ verb @ '' a service with unknown Core state: '' @ e))) (\<lambda>_.
     rbind (require (\<not> pending_operation ob) ServiceStateUnconfirmed) (\<lambda>_. ensure_service_mode ob))"

definition stop :: "service_env \<Rightarrow> 'm manager \<Rightarrow> service_manager_kind \<Rightarrow> string \<Rightarrow> ('m, operation_report) act" where
  "stop env mgr m i =
     sbind (slift (validate_service_id m i)) (\<lambda>_.
     sbind (start_deadline mgr StopCommand) (\<lambda>command.
     sbind (slift (paths_for mgr m i)) (\<lambda>_.
     sbind (phase_deadline mgr command Acquisition) (\<lambda>acquisition.
     sbind (begin_change env mgr m i command acquisition) (\<lambda>ob.
     sbind (slift (safe_to_change ''stop'' ob)) (\<lambda>_.
       if obs_installed ob = NotInstalled \<or> obs_manager ob = ManagerStopped \<and> core_gone ob
       then operation_result mgr ActStop command
         (case obs_definition ob of None \<Rightarrow> fallback_definition m i | Some d \<Rightarrow> d) ob Noop []
       else sbind (slift (require_definition ob)) (\<lambda>d.
            sbind (stop_running env mgr m i command d ob) (\<lambda>seen.
              operation_result mgr ActStop command d seen Success []))))))))"

definition uninstall :: "service_env \<Rightarrow> 'm manager \<Rightarrow> service_manager_kind \<Rightarrow> string \<Rightarrow> ('m, operation_report) act" where
  "uninstall env mgr m i =
     sbind (slift (validate_service_id m i)) (\<lambda>_.
     sbind (start_deadline mgr UninstallCommand) (\<lambda>command.
     sbind (slift (paths_for mgr m i)) (\<lambda>_.
     sbind (phase_deadline mgr command Acquisition) (\<lambda>acquisition.
     sbind (begin_change env mgr m i command acquisition) (\<lambda>ob.
     sbind (slift (safe_to_change ''uninstall'' ob)) (\<lambda>_.
       if obs_installed ob = NotInstalled
       then operation_result mgr ActRemove command (fallback_definition m i) ob Noop []
       else sbind (slift (require_definition ob)) (\<lambda>d.
            sbind (if obs_manager ob \<noteq> ManagerStopped \<or> \<not> core_gone ob then stop_running env mgr m i command d ob
                else sreturn ob) (\<lambda>stopped.
              if obs_manager stopped \<noteq> ManagerStopped \<or> \<not> core_gone stopped then sfail ServiceStateUnconfirmed
              else sbind (phase_deadline mgr command Removal) (\<lambda>dl.
                sbind (mutate_and_confirm env mgr m i ActRemove d stopped dl) (\<lambda>gone.
                  if obs_installed gone \<noteq> NotInstalled then sfail ServiceStateUnconfirmed
                  else operation_result mgr ActRemove command d gone Success [manager_key m @ '':'' @ i]))))))))))"

end
