(* ===== verification/Service_Safety.thy ===== *)
theory Service_Safety
  imports Service_Control
begin

text \<open>
  What the control of the service promises, whatever the manager, the helpers, the disk and the clock do: nothing is
  changed without an authorization on disk, an attempt whose helper may still be running blocks every change, and a
  command that reports success has seen the state it was asked for and leaves no attempt behind.
\<close>

section \<open>Looking\<close>

text \<open>Everything that is not a change: observing, waiting, locking, the disk, and helpers that are not authorized.\<close>

inductive native_look :: "'m manager \<Rightarrow> 'm \<Rightarrow> 'm \<Rightarrow> bool" for mgr where
  "native_look mgr m (snd (m_observe mgr k i d m))"
| "native_look mgr m (snd (m_clock mgr m))"
| "native_look mgr m (m_wait mgr t m)"
| "native_look mgr m (snd (m_uuid mgr m))"
| "native_look mgr m (snd (m_lock mgr name d m))"
| "native_look mgr m (snd (m_state_path mgr m))"
| "native_look mgr m (snd (m_disk mgr m))"
| "native_look mgr m (snd (m_unlink mgr m))"
| "native_look mgr m (snd (h_retained mgr m))"
| "native_look mgr m (snd (h_spawn mgr j m))"
| "native_look mgr m (snd (h_evidence mgr pid d m))"
| "native_look mgr m (snd (h_send mgr (''PREPARE'' @ [newline]) m))"
| "native_look mgr m (snd (h_receive mgr d m))"
| "native_look mgr m (snd (h_exit mgr d m))"
| "native_look mgr m (h_terminate mgr m)"
| "native_look mgr m (snd (h_reap mgr d m))"

definition looked :: "'m manager \<Rightarrow> 'm service_world \<Rightarrow> 'm service_world \<Rightarrow> bool" where
  "looked mgr w w' \<longleftrightarrow> attempt_entry w' = attempt_entry w \<and> (native_look mgr)\<^sup>*\<^sup>* (native w) (native w')"

interpretation look: world_relation "looked mgr" for mgr :: "'m manager"
  by unfold_locales (auto simp: looked_def)

named_theorems looks

lemma look_on_native:
  "(\<And>m. native_look mgr m (snd (f m))) \<Longrightarrow> stays_in (looked mgr) (on_native f)"
  "(\<And>m. native_look mgr m (snd (f m))) \<Longrightarrow> stays_in (looked mgr) (pure_native f)"
  by (auto simp: stays_in_def looked_def on_native_def pure_native_def split: prod.split) (metis r_into_rtranclp snd_conv)+

lemma look_ops [looks]:
  "stays_in (looked mgr) (on_native (m_observe mgr k i d))" "stays_in (looked mgr) (now_of mgr)"
  "stays_in (looked mgr) (pure_native (\<lambda>m. ((), m_wait mgr t m)))" "stays_in (looked mgr) (pure_native (m_uuid mgr))"
  "stays_in (looked mgr) (on_native (m_lock mgr name d))" "stays_in (looked mgr) (on_native (m_state_path mgr))"
  "stays_in (looked mgr) (on_native (m_disk mgr))" "stays_in (looked mgr) (on_native (m_unlink mgr))"
  "stays_in (looked mgr) (pure_native (h_retained mgr))" "stays_in (looked mgr) (on_native (h_spawn mgr j))"
  "stays_in (looked mgr) (on_native (h_evidence mgr pid d))" "stays_in (looked mgr) (on_native (h_send mgr (''PREPARE'' @ [newline])))"
  "stays_in (looked mgr) (on_native (h_receive mgr d))" "stays_in (looked mgr) (on_native (h_exit mgr d))"
  "stays_in (looked mgr) (on_native (\<lambda>m. ((), h_terminate mgr m)))" "stays_in (looked mgr) (on_native (h_reap mgr d))"
  by (rule look_on_native, (simp only: snd_conv)?, rule native_look.intros)+

lemma look_read [looks]: "stays_in (looked mgr) (read_attempt env m i)"
  by (simp add: stays_in_def read_attempt_def look.relation_refl)

lemma look_deadlines [looks]:
  "stays_in (looked mgr) (ensure_remaining mgr d phase)" "stays_in (looked mgr) (start_deadline mgr b)"
  "stays_in (looked mgr) (phase_deadline mgr command b)" "stays_in (looked mgr) (helper_work_deadline mgr d)"
  unfolding ensure_remaining_def start_deadline_def phase_deadline_def helper_work_deadline_def
  by (intro look.stays_bind look.stays_pure look.stays_if looks)+

lemma look_observe [looks]: "stays_in (looked mgr) (observe_service env mgr m i d)"
  unfolding observe_service_def by (intro look.stays_bind look.stays_pure looks)

lemma look_frame [looks]: "stays_in (looked mgr) (expect_frame mgr expected d)"
  unfolding expect_frame_def by (intro look.stays_bind look.stays_pure look.stays_option look.stays_if looks)

lemma look_launch [looks]: "stays_in (looked mgr) (launch_helper mgr d j)"
  unfolding launch_helper_def by (intro look.stays_bind look.stays_pure look.stays_if looks)

lemma look_lease [looks]: "stays_in (looked mgr) (acquire_service_lease mgr d)"
  unfolding acquire_service_lease_def by (intro look.stays_bind looks)

lemma look_result [looks]: "stays_in (looked mgr) (operation_result mgr a command d ob outcome changed)"
  unfolding operation_result_def by (intro look.stays_bind look.stays_pure looks)

lemma look_status: "stays_in (looked mgr) (service_status env mgr m i)"
  unfolding service_status_def by (intro look.stays_bind look.stays_pure looks)

section \<open>Authorized changes\<close>

text \<open>The life of a world, next to the journal that was last written with success and is still on file: the manager is
  asked for a change, and a helper is authorized to make one, only when that journal authorizes it.\<close>

inductive service_step ::
  "service_env \<Rightarrow> 'm manager \<Rightarrow> 'm service_world \<times> journal option \<Rightarrow> 'm service_world \<times> journal option \<Rightarrow> bool" for env mgr where
  Looked: "looked mgr w w' \<Longrightarrow> service_step env mgr (w, g) (w', g)"
| Wrote: "write_attempt_file env fault j (attempt_entry w) = (r, e)
    \<Longrightarrow> service_step env mgr (w, g) (w\<lparr>attempt_entry := e\<rparr>, if r = Inr () then Some j else None)"
| Removed: "service_step env mgr (w, g) (w\<lparr>attempt_entry := None\<rparr>, None)"
| Mutated: "attempt_status j = Authorized \<Longrightarrow> service_step env mgr (w, Some j)
    (w\<lparr>native := snd (m_mutate mgr (journal_action j) (expected_definition j) d (native w))\<rparr>, Some j)"
| HelperAuthorized: "attempt_status j = Authorized \<Longrightarrow> helper_pid j \<noteq> None \<Longrightarrow> service_step env mgr (w, Some j)
    (w\<lparr>native := snd (h_send mgr (authorization j) (native w))\<rparr>, Some j)"

definition service_traced :: "service_env \<Rightarrow> 'm manager \<Rightarrow> 'm service_world \<Rightarrow> 'm service_world \<Rightarrow> bool" where
  "service_traced env mgr w w' \<longleftrightarrow> (\<forall>g. \<exists>g'. (service_step env mgr)\<^sup>*\<^sup>* (w, g) (w', g'))"

interpretation trace: world_relation "service_traced env mgr" for env and mgr :: "'m manager"
proof
  show "service_traced env mgr w w" for w :: "'m service_world" by (auto simp: service_traced_def)
  show "service_traced env mgr u w" if "service_traced env mgr u v" "service_traced env mgr v w" for u v w :: "'m service_world"
    unfolding service_traced_def
  proof
    fix g
    from that(1) obtain g1 where one: "(service_step env mgr)\<^sup>*\<^sup>* (u, g) (v, g1)" by (auto simp: service_traced_def)
    from that(2) obtain g2 where "(service_step env mgr)\<^sup>*\<^sup>* (v, g1) (w, g2)" unfolding service_traced_def by blast
    with one show "\<exists>g'. (service_step env mgr)\<^sup>*\<^sup>* (u, g) (w, g')" by (meson rtranclp_trans)
  qed
qed

text \<open>What is done while the journal \<open>j\<close> is known to be on file.\<close>

definition holding :: "service_env \<Rightarrow> 'm manager \<Rightarrow> journal \<Rightarrow> ('m service_world \<Rightarrow> 'a \<times> 'm service_world) \<Rightarrow> bool" where
  "holding env mgr j run \<longleftrightarrow> (\<forall>w. \<exists>g'. (service_step env mgr)\<^sup>*\<^sup>* (w, Some j) (snd (run w), g'))"

named_theorems traces

lemma looked_step: "looked mgr w w' \<Longrightarrow> (service_step env mgr)\<^sup>*\<^sup>* (w, g) (w', g)"
  by (intro r_into_rtranclp Looked)

lemma look_traced: "stays_in (looked mgr) run \<Longrightarrow> stays_in (service_traced env mgr) run"
  by (auto simp: stays_in_def service_traced_def intro: looked_step)

lemma traced_holding: "stays_in (service_traced env mgr) run \<Longrightarrow> holding env mgr j run"
  by (simp add: stays_in_def service_traced_def holding_def)

lemma holding_look:
  assumes "stays_in (looked mgr) run" and "\<And>x. holding env mgr j (f x)"
  shows "holding env mgr j (sbind run f)"
  unfolding holding_def
proof
  fix w
  obtain r w1 where run: "run w = (r, w1)" by (metis prod.exhaust)
  have first: "(service_step env mgr)\<^sup>*\<^sup>* (w, Some j) (w1, Some j)" by (rule looked_step [OF look.stays_step [OF assms(1) run]])
  show "\<exists>g'. (service_step env mgr)\<^sup>*\<^sup>* (w, Some j) (snd (sbind run f w), g')"
  proof (cases r)
    case (Inl e)
    with first show ?thesis by (auto simp: sbind_def run)
  next
    case (Inr x)
    from assms(2) obtain g' where "(service_step env mgr)\<^sup>*\<^sup>* (w1, Some j) (snd (f x w1), g')" unfolding holding_def by blast
    with first show ?thesis by (auto simp: sbind_def run Inr intro: rtranclp_trans)
  qed
qed

lemma holding_step:
  assumes "\<And>w. service_step env mgr (w, Some j) (snd (run w), Some j)" and "\<And>x. stays_in (service_traced env mgr) (f x)"
  shows "holding env mgr j (sbind run f)"
  unfolding holding_def
proof
  fix w
  obtain r w1 where run: "run w = (r, w1)" by (metis prod.exhaust)
  from assms(1) [of w] have first: "service_step env mgr (w, Some j) (w1, Some j)" by (simp add: run)
  show "\<exists>g'. (service_step env mgr)\<^sup>*\<^sup>* (w, Some j) (snd (sbind run f w), g')"
  proof (cases r)
    case (Inl e)
    with first show ?thesis by (auto simp: sbind_def run)
  next
    case (Inr x)
    from assms(2) obtain g' where "(service_step env mgr)\<^sup>*\<^sup>* (w1, Some j) (snd (f x w1), g')"
      unfolding stays_in_def service_traced_def by blast
    with first show ?thesis by (auto simp: sbind_def run Inr intro: converse_rtranclp_into_rtranclp)
  qed
qed

lemma holding_shandle:
  assumes "holding env mgr j run" and "\<And>e. stays_in (service_traced env mgr) (h e)"
  shows "holding env mgr j (shandle run h)"
  unfolding holding_def
proof
  fix w
  obtain r w1 where run: "run w = (r, w1)" by (metis prod.exhaust)
  from assms(1) obtain g1 where first: "(service_step env mgr)\<^sup>*\<^sup>* (w, Some j) (w1, g1)"
    unfolding holding_def by (metis run snd_conv)
  show "\<exists>g'. (service_step env mgr)\<^sup>*\<^sup>* (w, Some j) (snd (shandle run h w), g')"
  proof (cases r)
    case (Inl e)
    from assms(2) obtain g' where "(service_step env mgr)\<^sup>*\<^sup>* (w1, g1) (snd (h e w1), g')"
      unfolding stays_in_def service_traced_def by blast
    with first show ?thesis by (auto simp: shandle_def run Inl intro: rtranclp_trans)
  next
    case (Inr x)
    with first show ?thesis by (auto simp: shandle_def run)
  qed
qed

lemma write_step:
  assumes "write_journal env mgr j w = (r, w')"
  shows "(service_step env mgr)\<^sup>*\<^sup>* (w, g) (w', if r = Inr () then Some j else None)"
proof -
  obtain fault w1 where disk: "on_native (m_disk mgr) w = (fault, w1)" by (metis prod.exhaust)
  then have "looked mgr w w1" by (rule look.stays_step [OF look_ops(7)])
  then have first: "(service_step env mgr)\<^sup>*\<^sup>* (w, g) (w1, g)" by (rule looked_step)
  obtain e where "write_attempt_file env fault j (attempt_entry w1) = (r, e)" "w' = w1\<lparr>attempt_entry := e\<rparr>"
    using assms disk by (auto simp: write_journal_def split: prod.splits)
  then have "service_step env mgr (w1, g) (w', if r = Inr () then Some j else None)" using Wrote by metis
  with first show ?thesis by (rule rtranclp.rtrancl_into_rtrancl)
qed

lemma traced_write [traces]: "stays_in (service_traced env mgr) (write_journal env mgr j)"
  unfolding stays_in_def service_traced_def by (metis prod.collapse write_step)

lemma traced_write_then:
  assumes "holding env mgr j run"
  shows "stays_in (service_traced env mgr) (sbind (write_journal env mgr j) (\<lambda>_. run))"
  unfolding stays_in_def service_traced_def
proof (intro allI)
  fix w g
  obtain r w1 where wr: "write_journal env mgr j w = (r, w1)" by (metis prod.exhaust)
  show "\<exists>g'. (service_step env mgr)\<^sup>*\<^sup>* (w, g) (snd (sbind (write_journal env mgr j) (\<lambda>_. run) w), g')"
  proof (cases r)
    case (Inl e)
    with write_step [OF wr, of g] show ?thesis by (auto simp: sbind_def wr)
  next
    case (Inr u)
    then have first: "(service_step env mgr)\<^sup>*\<^sup>* (w, g) (w1, Some j)" using write_step [OF wr, of g] by simp
    from assms obtain g' where "(service_step env mgr)\<^sup>*\<^sup>* (w1, Some j) (snd (run w1), g')" unfolding holding_def by blast
    with first show ?thesis by (auto simp: sbind_def wr Inr intro: rtranclp_trans)
  qed
qed

lemma traced_remove [traces]: "stays_in (service_traced env mgr) (remove_journal mgr b)"
  unfolding stays_in_def
proof
  fix w
  obtain r w1 where un: "on_native (m_unlink mgr) w = (r, w1)" by (metis prod.exhaust)
  then have "looked mgr w w1" by (rule look.stays_step [OF look_ops(8)])
  then have first: "(service_step env mgr)\<^sup>*\<^sup>* (w, g) (w1, g)" for g by (rule looked_step)
  have "service_traced env mgr w w1" using first unfolding service_traced_def by blast
  moreover have "service_traced env mgr w (w1\<lparr>attempt_entry := None\<rparr>)"
    unfolding service_traced_def
  proof (intro allI exI)
    show "(service_step env mgr)\<^sup>*\<^sup>* (w, g) (w1\<lparr>attempt_entry := None\<rparr>, None)" for g
      by (rule rtranclp.rtrancl_into_rtrancl [OF first Removed])
  qed
  ultimately show "service_traced env mgr w (snd (remove_journal mgr b w))"
    by (auto simp: remove_journal_def un trace.relation_refl split: sum.split)
qed


lemmas traced_looks = looks [THEN look_traced]

lemma traced_native_step:
  fixes mgr :: "'a manager"
  assumes "attempt_status j = Authorized" and "\<And>x. stays_in (service_traced env mgr) (f x)"
  shows "holding env mgr j (sbind (on_native (m_mutate mgr (journal_action j) (expected_definition j) d)) f)"
    and "helper_pid j \<noteq> None \<Longrightarrow> holding env mgr j (sbind (on_native (h_send mgr (authorization j))) f)"
proof -
  have snd_on: "snd (on_native f w) = w\<lparr>native := snd (f (native w))\<rparr>" for f :: "'a \<Rightarrow> 'c \<times> 'a" and w
    by (simp add: on_native_def split: prod.split)
  show "holding env mgr j (sbind (on_native (m_mutate mgr (journal_action j) (expected_definition j) d)) f)"
    by (rule holding_step [OF _ assms(2)]) (simp only: snd_on, rule Mutated [OF assms(1)])
  show "holding env mgr j (sbind (on_native (h_send mgr (authorization j))) f)" if "helper_pid j \<noteq> None"
    by (rule holding_step [OF _ assms(2)]) (simp only: snd_on, rule HelperAuthorized [OF assms(1) that])
qed

lemma traced_authorize: "attempt_status j = Authorized \<Longrightarrow> helper_pid j \<noteq> None
  \<Longrightarrow> stays_in (service_traced env mgr) (authorize_helper env mgr work j)"
  unfolding authorize_helper_def
  by (intro traced_write_then holding_look looks traced_native_step trace.stays_bind traced_looks)

lemma traced_ask: "attempt_status j = Authorized
  \<Longrightarrow> stays_in (service_traced env mgr) (sbind (write_journal env mgr j) (\<lambda>_. ask_manager env mgr dl j))"
  unfolding ask_manager_def failed_mutation_def Let_def
  by (intro traced_write_then holding_shandle holding_look looks traced_native_step trace.stays_bind traced_looks traces
      trace.stays_pure)

lemma traced_close [traces]: "stays_in (service_traced env mgr) (close_attempt env mgr b ob j)"
  unfolding close_attempt_def by (intro trace.stays_bind traces)

lemma traced_unknown [traces]: "stays_in (service_traced env mgr) (mark_attempt_unknown env mgr m i ob)"
  unfolding mark_attempt_unknown_def Let_def
  by (intro trace.stays_bind trace.stays_option trace.stays_if trace.stays_pure traced_looks traces)

lemma traced_failed [traces]: "stays_in (service_traced env mgr) (record_failed_attempt env mgr m i ob)"
  unfolding record_failed_attempt_def
  by (intro trace.stays_bind trace.stays_option trace.stays_if trace.stays_pure traced_looks traces)

lemma traced_complete [traces]: "stays_in (service_traced env mgr) (complete_attempt env mgr m i ob)"
  unfolding complete_attempt_def by (intro trace.stays_bind trace.stays_option trace.stays_pure traced_looks traces)

lemma traced_await [traces]:
  assumes "\<And>ob. stays_in (service_traced env mgr) (decide ob)"
  shows "stays_in (service_traced env mgr) (await_observation env mgr d dl phase decide n)"
proof (induction n)
  case (Suc n)
  show ?case unfolding await_observation.simps
    by (intro trace.stays_bind trace.stays_option trace.stays_pure traced_looks assms Suc)
qed (simp add: trace.stays_pure)

lemma traced_decisions [traces]:
  "stays_in (service_traced env mgr) (ready_decision env mgr m i d ob)" "stays_in (service_traced env mgr) (stopped_decision d ob)"
  unfolding ready_decision_def stopped_decision_def
  by (intro trace.stays_bind trace.stays_option trace.stays_if trace.stays_pure traces)+

lemma traced_waits [traces]:
  "stays_in (service_traced env mgr) (wait_for_ready env mgr m i d dl)" "stays_in (service_traced env mgr) (wait_for_stopped env mgr d dl)"
  unfolding wait_for_ready_def wait_for_stopped_def by (intro traces)+

lemma traced_reconcile [traces]: "stays_in (service_traced env mgr) (reconcile_pending env mgr m i ob d)"
  unfolding reconcile_pending_def settle_attempt_def unconfirmed_attempt_def
  by (intro trace.stays_bind trace.stays_option trace.stays_if trace.stays_pure traced_looks traces)

lemma traced_prepare: "stays_in (service_traced env mgr) (prepare_helper env mgr work j)"
  unfolding prepare_helper_def by (intro trace.stays_bind traced_looks traces)

lemma traced_session: "service_traced env mgr w (snd (helper_session env mgr work pid j w))"
proof -
  let ?j1 = "\<lambda>owner. j\<lparr>helper_pid := Some pid, helper_owner := Some owner\<rparr>"
  obtain r w1 where ev: "on_native (h_evidence mgr pid work) w = (r, w1)" by (metis prod.exhaust)
  have one: "service_traced env mgr w w1" by (rule trace.stays_step [OF traced_looks(11) ev])
  show ?thesis
  proof (cases r)
    case (Inl e)
    with one show ?thesis by (simp add: helper_session_def ev)
  next
    case (Inr owner)
    obtain p w2 where prep: "prepare_helper env mgr work (?j1 owner) w1 = (p, w2)" by (metis prod.exhaust)
    have two: "service_traced env mgr w1 w2" by (rule trace.stays_step [OF traced_prepare prep])
    obtain a w3 where au: "authorize_helper env mgr work ((?j1 owner)\<lparr>attempt_status := Authorized\<rparr>) w2 = (a, w3)"
      by (metis prod.exhaust)
    have three: "service_traced env mgr w2 w3" by (rule trace.stays_step [OF traced_authorize au]) simp_all
    note trace.relation_trans [OF one two] trace.relation_trans [OF trace.relation_trans [OF one two] three]
    then show ?thesis by (simp add: helper_session_def ev Inr prep au Let_def split: sum.split)
  qed
qed

lemma traced_reap: "service_traced env mgr w (snd (reap_helper env mgr d pid r j w))"
proof -
  obtain q w1 where reap: "on_native (h_reap mgr d) w = (q, w1)" by (metis prod.exhaust)
  have one: "service_traced env mgr w w1" by (rule trace.stays_step [OF traced_looks(16) reap])
  let ?j1 = "j\<lparr>helper_pid := None,
    attempt_status := (if \<not> is_ok r \<and> attempt_status j = Authorized then OutcomeUnknown else attempt_status j)\<rparr>"
  obtain v w2 where wr: "write_journal env mgr ?j1 w1 = (v, w2)" by (metis prod.exhaust)
  have "service_traced env mgr w w2" by (rule trace.relation_trans [OF one trace.stays_step [OF traced_write wr]])
  with one show ?thesis by (simp add: reap_helper_def reap Let_def wr split: option.split sum.split split del: if_split)
qed

lemma traced_run_one: "service_traced env mgr w (snd (run_one env mgr d j w))"
proof -
  obtain r w1 where launch: "launch_helper mgr d j w = (r, w1)" by (metis prod.exhaust)
  have one: "service_traced env mgr w w1" by (rule trace.stays_step [OF look_traced [OF look_launch] launch])
  show ?thesis
  proof (cases r)
    case (Inl e)
    with one show ?thesis by (simp add: run_one_def launch)
  next
    case (Inr x)
    obtain work pid where x: "x = (work, pid)" by (cases x)
    obtain q j2 w2 where session: "helper_session env mgr work pid j w1 = ((q, j2), w2)" by (metis prod.exhaust)
    from traced_session [of env mgr w1 work pid j] have two: "service_traced env mgr w1 w2" by (simp add: session)
    let ?w3 = "if is_ok q then w2 else snd (on_native (\<lambda>m. ((), h_terminate mgr m)) w2)"
    have "stays_in (service_traced env mgr) (on_native (\<lambda>m. ((), h_terminate mgr m)))" by (rule traced_looks)
    then have three: "service_traced env mgr w2 ?w3" by (simp add: stays_in_def trace.relation_refl)
    note trace.relation_trans [OF trace.relation_trans [OF trace.relation_trans [OF one two] three]
      traced_reap [of env mgr ?w3 d pid q j2]]
    then show ?thesis by (simp add: run_one_def launch Inr x session)
  qed
qed


lemma traced_steps: "stays_in (service_traced env mgr) (run_steps env mgr d dl steps j)"
proof (induction steps arbitrary: j)
  case (Cons s rest)
  obtain index st where s: "s = (index, st)" by (cases s)
  let ?j0 = "j\<lparr>journal_step := step_label index st, attempt_status := Prepared, helper_pid := None, helper_owner := None,
    completion_observation := None\<rparr>"
  have step: "stays_in (service_traced env mgr) (\<lambda>w.
      case run_one env mgr (deadline_cap dl now (budget_duration Helper)) ?j0 w of
        ((Inl e, j1), w1) \<Rightarrow> sbind (failed_step env mgr j1) (\<lambda>_. sfail e) w1
      | ((Inr _, j1), w1) \<Rightarrow>
          (if rest = [] then (Inr (), w1)
           else sbind (observe_service env mgr (def_manager d) (def_service_id d) dl) (\<lambda>ob.
             (let j2 = j1\<lparr>attempt_status := ObservedComplete, completion_observation := Some ob\<rparr>
              in sbind (write_journal env mgr j2) (\<lambda>_. run_steps env mgr d dl rest j2))) w1))" (is "stays_in _ ?run") for now
    unfolding stays_in_def
  proof
    fix w
    obtain r j1 w1 where one: "run_one env mgr (deadline_cap dl now (budget_duration Helper)) ?j0 w = ((r, j1), w1)"
      by (metis prod.exhaust)
    have first: "service_traced env mgr w w1"
      using traced_run_one [of env mgr w "deadline_cap dl now (budget_duration Helper)" ?j0] by (simp only: one snd_conv)
    have "stays_in (service_traced env mgr) (sbind (failed_step env mgr j1) (\<lambda>_. sfail e) :: _ \<Rightarrow> (_, unit) result \<times> _)" for e
      unfolding failed_step_def by (intro trace.stays_bind trace.stays_pure traces)
    moreover have "stays_in (service_traced env mgr) (sbind (observe_service env mgr (def_manager d) (def_service_id d) dl) (\<lambda>ob.
        (let j2 = j1\<lparr>attempt_status := ObservedComplete, completion_observation := Some ob\<rparr>
         in sbind (write_journal env mgr j2) (\<lambda>_. run_steps env mgr d dl rest j2))))"
      unfolding Let_def by (intro trace.stays_bind traced_looks traces Cons)
    ultimately have "service_traced env mgr w1 (snd (?run w))"
      by (simp add: one stays_in_def trace.relation_refl split: sum.split)
    then show "service_traced env mgr w (snd (?run w))" by (rule trace.relation_trans [OF first])
  qed
  show ?case unfolding s run_steps.simps Let_def
    by (intro trace.stays_bind traced_looks traces step [unfolded Let_def])
qed (simp add: trace.stays_pure)

lemma traced_mutations [traces]: "stays_in (service_traced env mgr) (mutate_and_authorize env mgr a d ob dl)"
proof (cases "requires_owned_helper mgr")
  case True
  then show ?thesis by (simp add: mutate_and_authorize_def run_mutations_def)
      (intro trace.stays_bind traced_looks traced_steps)
next
  case False
  then show ?thesis unfolding mutate_and_authorize_def Let_def
    by (simp del: fun_upd_apply) (intro trace.stays_bind traced_looks traces traced_ask; simp)
qed

lemma traced_confirm [traces]: "stays_in (service_traced env mgr) (mutate_and_confirm env mgr m i a d ob dl)"
  unfolding mutate_and_confirm_def by (intro trace.stays_bind trace.stays_if trace.stays_pure traces)

lemma traced_begin [traces]: "stays_in (service_traced env mgr) (begin_change env mgr m i command acquisition)"
  unfolding begin_change_def by (intro trace.stays_bind trace.stays_pure traced_looks traces)

lemma stays_installation:
  "stays_in R a \<Longrightarrow> stays_in R b \<Longrightarrow> stays_in R c
   \<Longrightarrow> stays_in R (case x of Installed \<Rightarrow> a | NotInstalled \<Rightarrow> b | InstallationUnknown \<Rightarrow> c)"
  by (cases x) simp_all

lemmas command_rules = trace.stays_bind trace.stays_if trace.stays_pure stays_installation traced_looks traces

lemma traced_install: "stays_in (service_traced env mgr) (install env mgr d)"
  unfolding install_def Let_def by (intro command_rules)

lemma traced_start: "stays_in (service_traced env mgr) (start env mgr m i)"
  unfolding start_def start_stopped_def by (intro command_rules)

lemma traced_stop_running [traces]: "stays_in (service_traced env mgr) (stop_running env mgr m i command d ob)"
  unfolding stop_running_def by (intro command_rules)

lemma traced_stop: "stays_in (service_traced env mgr) (stop env mgr m i)"
  unfolding stop_def by (intro command_rules traced_stop_running)

lemma traced_uninstall: "stays_in (service_traced env mgr) (uninstall env mgr m i)"
  unfolding uninstall_def by (intro command_rules traced_stop_running)

section \<open>Attempts that block\<close>

definition blocked :: "'m manager \<Rightarrow> dir_entry option \<Rightarrow> ('m, 'a) act \<Rightarrow> bool" where
  "blocked mgr entry run \<longleftrightarrow> (\<forall>w. attempt_entry w = entry \<longrightarrow> (\<exists>e w'. run w = (Inl e, w') \<and> looked mgr w w'))"

lemma blocked_look:
  assumes "stays_in (looked mgr) run" and "\<And>x. blocked mgr entry (f x)"
  shows "blocked mgr entry (sbind run f)"
  unfolding blocked_def
proof (intro allI impI)
  fix w :: "'a service_world"
  assume w: "attempt_entry w = entry"
  obtain r w1 where run: "run w = (r, w1)" by (metis prod.exhaust)
  have first: "looked mgr w w1" by (rule look.stays_step [OF assms(1) run])
  show "\<exists>e w'. sbind run f w = (Inl e, w') \<and> looked mgr w w'"
  proof (cases r)
    case (Inl e)
    with first show ?thesis by (simp add: sbind_def run)
  next
    case (Inr x)
    from first w have "attempt_entry w1 = entry" by (simp add: looked_def)
    with assms(2) [of x] obtain e w2 where "f x w1 = (Inl e, w2)" "looked mgr w1 w2" unfolding blocked_def by blast
    with look.relation_trans [OF first] show ?thesis by (simp add: sbind_def run Inr)
  qed
qed

lemma blocked_first: "blocked mgr entry run \<Longrightarrow> blocked mgr entry (sbind run f)"
  by (fastforce simp: blocked_def sbind_def)

lemma blocked_fail: "blocked mgr entry (sfail e)"
  by (auto simp: blocked_def sfail_def look.relation_refl)

lemma blocked_read:
  "read_attempt_for_service env m i entry = Inr found \<Longrightarrow> blocked mgr entry (f found) \<Longrightarrow> blocked mgr entry (sbind (read_attempt env m i) f)"
  by (simp add: blocked_def sbind_def read_attempt_def)

lemma blocked_reconcile:
  assumes "read_attempt_for_service env m i entry = Inr (Some j)" and "helper_pid j = Some pid" and "attempt_status j \<noteq> Reconciled"
  shows "blocked mgr entry (reconcile_pending env mgr m i ob d)"
  unfolding reconcile_pending_def
proof (rule blocked_read [OF assms(1)], simp only: option.case, intro blocked_look look.stays_pure looks)
  show "blocked mgr entry (settle_attempt env mgr ob d j)"
    using assms(2,3) by (simp add: settle_attempt_def blocked_fail)
qed

lemma blocked_begin:
  assumes "read_attempt_for_service env m i entry = Inr (Some j)" and "helper_pid j = Some pid" and "attempt_status j \<noteq> Reconciled"
  shows "blocked mgr entry (begin_change env mgr m i command acquisition)"
  unfolding begin_change_def by (intro blocked_look looks blocked_first blocked_reconcile [OF assms])

lemma blocked_commands:
  assumes "read_attempt_for_service env m i entry = Inr (Some j)" and "helper_pid j = Some pid" and "attempt_status j \<noteq> Reconciled"
  shows "blocked mgr entry (start env mgr m i)" "blocked mgr entry (stop env mgr m i)" "blocked mgr entry (uninstall env mgr m i)"
    "def_manager d = m \<Longrightarrow> def_service_id d = i \<Longrightarrow> blocked mgr entry (install env mgr d)"
  unfolding start_def stop_def uninstall_def install_def Let_def
  by (intro blocked_look look.stays_pure looks blocked_first blocked_begin [OF assms] | simp only:)+

section \<open>Success\<close>

lemma look_Inr: "stays_in (looked mgr) run \<Longrightarrow> run w = (r, w') \<Longrightarrow> attempt_entry w' = attempt_entry w"
  by (drule (1) look.stays_step) (simp add: looked_def)

lemma result_Inr:
  assumes "operation_result mgr a command d ob outcome changed w = (Inr r, w')"
  shows "op_observation r = ob \<and> attempt_entry w' = attempt_entry w"
  using look_Inr [OF look_result assms] assms by (auto simp: operation_result_def sbind_Inr)

lemma await_Inr:
  "await_observation env mgr d dl phase decide n w = (Inr seen, w') \<Longrightarrow> \<exists>ob w1. decide ob w1 = (Inr (Some seen), w')"
proof (induction n arbitrary: w)
  case (Suc n)
  then show ?case by (auto simp: sbind_Inr split: option.splits)
qed simp

lemma decided_Inr:
  "ready_decision env mgr m i d ob w = (Inr (Some seen), w')
    \<Longrightarrow> obs_manager seen = ManagerRunning \<and> core_is_ready (obs_core seen) \<and> \<not> pending_operation seen"
  "stopped_decision d ob w = (Inr (Some seen), w')
    \<Longrightarrow> obs_manager seen = ManagerStopped \<and> core_gone seen \<and> \<not> pending_operation seen"
  by (auto simp: ready_decision_def stopped_decision_def sbind_Inr split: option.splits if_splits)

lemma wait_Inr:
  "wait_for_ready env mgr m i d dl w = (Inr seen, w')
    \<Longrightarrow> obs_manager seen = ManagerRunning \<and> core_is_ready (obs_core seen) \<and> \<not> pending_operation seen"
  "wait_for_stopped env mgr d dl w = (Inr seen, w')
    \<Longrightarrow> obs_manager seen = ManagerStopped \<and> core_gone seen \<and> \<not> pending_operation seen"
  unfolding wait_for_ready_def wait_for_stopped_def by (drule await_Inr, blast dest: decided_Inr)+

lemma remove_Inr: "remove_journal mgr b w = (Inr u, w') \<Longrightarrow> attempt_entry w' = None"
  by (auto simp: remove_journal_def split: if_splits sum.splits prod.splits)

lemma close_Inr: "close_attempt env mgr b ob j w = (Inr u, w') \<Longrightarrow> attempt_entry w' = None"
  by (auto simp: close_attempt_def sbind_Inr dest: remove_Inr)

lemma read_none: "read_attempt env m i w = (Inr None, w') \<Longrightarrow> w' = w \<and> attempt_entry w = None"
  by (auto simp: read_attempt_def read_attempt_for_service_def read_attempt_file_def read_attempt_snapshot_def rbind_Inr
      split: option.splits dir_entry.splits)

lemma read_Inr: "read_attempt env m i w = (Inr found, w') \<Longrightarrow> found \<noteq> None \<or> attempt_entry w' = None"
  by (cases found) (auto dest: read_none)

lemma complete_Inr:
  assumes "complete_attempt env mgr m i ob w = (Inr u, w')"
  shows "attempt_entry w' = None"
proof -
  from assms obtain found w1 where read: "read_attempt env m i w = (Inr found, w1)"
    and rest: "(case found of None \<Rightarrow> sreturn () | Some j \<Rightarrow> close_attempt env mgr True ob j) w1 = (Inr u, w')"
    by (auto simp: complete_attempt_def sbind_Inr)
  show ?thesis
  proof (cases found)
    case None
    with read_Inr [OF read] rest show ?thesis by simp
  next
    case (Some j)
    with rest show ?thesis by (auto dest: close_Inr)
  qed
qed

lemma unconfirmed_Inr: "unconfirmed_attempt env mgr d j w \<noteq> (Inr u, w')"
  by (simp add: unconfirmed_attempt_def sbind_Inr)

lemma reconcile_Inr:
  assumes "reconcile_pending env mgr m i ob d w = (Inr u, w')"
  shows "attempt_entry w' = None"
proof -
  from assms obtain found w1 where read: "read_attempt env m i w = (Inr found, w1)"
    by (auto simp: reconcile_pending_def sbind_Inr)
  show ?thesis
  proof (cases found)
    case None
    with read_Inr [OF read] assms read show ?thesis by (simp add: reconcile_pending_def sbind_def)
  next
    case (Some j)
    with assms read obtain w2 where "settle_attempt env mgr ob d j w2 = (Inr u, w')"
      by (auto simp: reconcile_pending_def sbind_Inr)
    then show ?thesis
      by (auto simp: settle_attempt_def unconfirmed_Inr split: if_splits option.splits dest: remove_Inr close_Inr)
  qed
qed

lemma begin_Inr: "begin_change env mgr m i command acquisition w = (Inr ob, w') \<Longrightarrow> attempt_entry w' = None"
  by (auto simp: begin_change_def sbind_Inr dest: reconcile_Inr)

lemma stop_running_Inr:
  "stop_running env mgr m i command d ob w = (Inr seen, w') \<Longrightarrow> obs_manager seen = ManagerStopped \<and> core_gone seen
    \<and> \<not> pending_operation seen \<and> attempt_entry w' = None"
  by (auto simp: stop_running_def sbind_Inr dest: complete_Inr wait_Inr(2))

lemma confirm_Inr:
  "mutate_and_confirm env mgr m i a d ob dl w = (Inr seen, w') \<Longrightarrow> operation_satisfied a d seen \<and> attempt_entry w' = None"
  by (auto simp: mutate_and_confirm_def sbind_Inr split: if_splits dest: complete_Inr)

lemma install_Inr:
  assumes "install env mgr d w = (Inr r, w')"
  shows "obs_installed (op_observation r) = Installed \<and> has_equivalent d (op_observation r)
    \<and> boot_enabled (op_observation r) \<and> \<not> pending_operation (op_observation r) \<and> attempt_entry w' = None"
proof -
  let ?m = "def_manager d" and ?i = "def_service_id d"
  from assms obtain command acquisition w1 ob w2 where begun: "begin_change env mgr ?m ?i command acquisition w1 = (Inr ob, w2)"
    and calm: "\<not> pending_operation ob"
    and rest: "(case obs_installed ob of
            Installed \<Rightarrow>
              sbind (slift (ok_or (obs_definition ob) (UnsafeOwnership ''installed service definition could not be verified''))) (\<lambda>e.
                if \<not> equivalent_to d e \<or> \<not> boot_enabled ob
                then sfail (ConflictingServiceDefinition ''executable, arguments, data path, account, or boot policy differs'')
                else operation_result mgr ActInstall command d ob Noop [])
          | InstallationUnknown \<Rightarrow>
              sfail (UnsafeOwnership ''service installation state is unknown; no mutation was attempted'')
          | NotInstalled \<Rightarrow>
              sbind (phase_deadline mgr command Install) (\<lambda>dl.
              sbind (mutate_and_confirm env mgr ?m ?i ActInstall d ob dl) (\<lambda>seen.
                if obs_installed seen \<noteq> Installed \<or> \<not> has_equivalent d seen \<or> \<not> boot_enabled seen
                   \<or> obs_manager seen \<noteq> ManagerStopped
                then sfail ServiceStateUnconfirmed
                else operation_result mgr ActInstall command d seen Success [manager_key ?m @ '':'' @ ?i]))) w2 = (Inr r, w')"
    unfolding install_def Let_def sbind_Inr by (auto split: if_splits)
  show ?thesis
  proof (cases "obs_installed ob")
    case Installed
    with rest calm begin_Inr [OF begun] show ?thesis
      by (auto simp: sbind_Inr has_equivalent_def ok_or_Inr dest: result_Inr split: if_splits)
  next
    case NotInstalled
    with rest show ?thesis
      by (auto simp: sbind_Inr operation_satisfied_def dest!: result_Inr confirm_Inr split: if_splits)
  qed (use rest in simp)
qed

lemma safe_Inr: "safe_to_change verb ob = Inr u \<Longrightarrow> \<not> pending_operation ob"
  by (auto simp: safe_to_change_def rbind_Inr require_Inr)

lemma stop_Inr:
  assumes "stop env mgr m i w = (Inr r, w')"
  shows "(obs_installed (op_observation r) = NotInstalled
      \<or> obs_manager (op_observation r) = ManagerStopped \<and> core_gone (op_observation r))
    \<and> \<not> pending_operation (op_observation r) \<and> attempt_entry w' = None"
  using assms unfolding stop_def sbind_Inr
  by (auto simp: sbind_Inr split: if_splits dest!: begin_Inr safe_Inr result_Inr stop_running_Inr)

lemma uninstall_Inr:
  assumes "uninstall env mgr m i w = (Inr r, w')"
  shows "obs_installed (op_observation r) = NotInstalled \<and> \<not> pending_operation (op_observation r) \<and> attempt_entry w' = None"
  using assms unfolding uninstall_def sbind_Inr
  by (auto simp: sbind_Inr operation_satisfied_def split: if_splits dest!: begin_Inr safe_Inr result_Inr confirm_Inr)

text \<open>Waiting for readiness leaves no file where there was none.\<close>

definition no_file :: "'m service_world \<Rightarrow> 'm service_world \<Rightarrow> bool" where
  "no_file w w' \<longleftrightarrow> (attempt_entry w = None \<longrightarrow> attempt_entry w' = None)"

interpretation no_file: world_relation "no_file :: 'm service_world \<Rightarrow> 'm service_world \<Rightarrow> bool"
  by unfold_locales (auto simp: no_file_def)

lemma no_file_look: "stays_in (looked mgr) run \<Longrightarrow> stays_in no_file run"
  by (simp add: stays_in_def looked_def no_file_def)

lemma no_file_failed:
  fixes mgr :: "'m manager"
  shows "stays_in no_file (record_failed_attempt env mgr m i ob)"
proof -
  have "read_attempt env m i w = (Inr None, w)" if "attempt_entry w = None" for w :: "'m service_world"
    using that by (simp add: read_attempt_def read_attempt_for_service_def read_attempt_file_def read_attempt_snapshot_def)
  then show ?thesis by (simp add: stays_in_def no_file_def record_failed_attempt_def sbind_def sreturn_def)
qed

lemma no_file_decision: "stays_in no_file (ready_decision env mgr m i d ob)"
  unfolding ready_decision_def
  by (intro no_file.stays_bind no_file.stays_option no_file.stays_if no_file.stays_pure no_file_failed)

lemma no_file_ready: "stays_in no_file (await_observation env mgr d dl phase (ready_decision env mgr m i d) n)"
proof (induction n)
  case (Suc n)
  show ?case unfolding await_observation.simps
    by (intro no_file.stays_bind no_file.stays_option no_file.stays_pure no_file_decision
        no_file_look [OF look_observe] no_file_look [OF look_deadlines(1)] no_file_look [OF look_ops(3)] Suc)
qed (simp add: no_file.stays_pure)

lemma start_Inr:
  assumes "start env mgr m i w = (Inr r, w')"
  shows "obs_manager (op_observation r) = ManagerRunning \<and> core_is_ready (obs_core (op_observation r))
    \<and> \<not> pending_operation (op_observation r) \<and> attempt_entry w' = None"
proof -
  from assms obtain command acquisition w1 ob w2 d w3 where begun: "begin_change env mgr m i command acquisition w1 = (Inr ob, w2)"
    and same: "w3 = w2"
    and rest: "(if obs_manager ob = ManagerRunning \<and> \<not> pending_operation ob \<and> core_is_ready (obs_core ob)
       then operation_result mgr ActStart command d ob Noop []
       else if obs_manager ob = ManagerRunning then sfail ServiceStateUnconfirmed
       else if obs_manager ob = ManagerStarting
       then sbind (phase_deadline mgr command Readiness) (\<lambda>dl.
            sbind (wait_for_ready env mgr m i d dl) (\<lambda>seen. operation_result mgr ActStart command d seen Success []))
       else if pending_operation ob \<or> obs_manager ob \<noteq> ManagerStopped then sfail ServiceStateUnconfirmed
       else start_stopped env mgr m i command d ob) w3 = (Inr r, w')"
    unfolding start_def sbind_Inr slift_eq by blast
  note none = begin_Inr [OF begun, folded same]
  consider (noop) "operation_result mgr ActStart command d ob Noop [] w3 = (Inr r, w')"
      "obs_manager ob = ManagerRunning" "\<not> pending_operation ob" "core_is_ready (obs_core ob)"
    | (starting) dl w4 seen w5 where "phase_deadline mgr command Readiness w3 = (Inr dl, w4)"
      "wait_for_ready env mgr m i d dl w4 = (Inr seen, w5)" "operation_result mgr ActStart command d seen Success [] w5 = (Inr r, w')"
    | (stopped) "start_stopped env mgr m i command d ob w3 = (Inr r, w')"
    using rest by (auto simp: sbind_Inr split: if_splits)
  then show ?thesis
  proof cases
    case noop
    with none result_Inr [OF noop(1)] show ?thesis by simp
  next
    case starting
    from none look_Inr [OF look_deadlines(3) starting(1)] have "attempt_entry w4 = None" by simp
    with no_file.stays_step [OF no_file_ready starting(2) [unfolded wait_for_ready_def]]
    have "attempt_entry w5 = None" by (simp add: no_file_def)
    with result_Inr [OF starting(3)] wait_Inr(1) [OF starting(2)] show ?thesis by simp
  next
    case stopped
    then show ?thesis
      by (auto simp: start_stopped_def sbind_Inr split: if_splits dest!: result_Inr complete_Inr wait_Inr(1))
  qed
qed

section \<open>Waiting ends\<close>

text \<open>A clock that never goes back, and that waiting advances.\<close>

definition advancing :: "('m \<Rightarrow> nat) \<Rightarrow> 'm manager \<Rightarrow> bool" where
  "advancing time mgr \<longleftrightarrow>
     (\<forall>m m'. native_look mgr m m' \<longrightarrow> time m \<le> time m')
   \<and> (\<forall>m. time m \<le> fst (m_clock mgr m) \<and> fst (m_clock mgr m) \<le> time (snd (m_clock mgr m)))
   \<and> (\<forall>t m. time m + t \<le> time (m_wait mgr t m))"

definition later :: "('m \<Rightarrow> nat) \<Rightarrow> 'm service_world \<Rightarrow> 'm service_world \<Rightarrow> bool" where
  "later time w w' \<longleftrightarrow> time (native w) \<le> time (native w')"

interpretation later: world_relation "later time" for time :: "'m \<Rightarrow> nat"
  by unfold_locales (auto simp: later_def)

lemma look_later:
  assumes "advancing time mgr" and "stays_in (looked mgr) run"
  shows "stays_in (later time) run"
proof -
  have "time m \<le> time m'" if "(native_look mgr)\<^sup>*\<^sup>* m m'" for m m'
    using that assms(1) by (induction rule: rtranclp_induct) (auto simp: advancing_def intro: order_trans)
  with assms(2) show ?thesis by (simp add: stays_in_def looked_def later_def)
qed

lemma later_journal:
  assumes "advancing time mgr"
  shows "stays_in (later time) (write_journal env mgr j)" "stays_in (later time) (remove_journal mgr b)"
proof -
  have disk: "stays_in (later time) (on_native (m_disk mgr))" "stays_in (later time) (on_native (m_unlink mgr))"
    by (rule look_later [OF assms] looks)+
  from disk(1) show "stays_in (later time) (write_journal env mgr j)"
    by (auto simp: stays_in_def later_def write_journal_def split: prod.splits) (metis snd_conv)
  from disk(2) show "stays_in (later time) (remove_journal mgr b)"
    by (auto simp: stays_in_def later_def remove_journal_def split: prod.splits sum.splits) (metis snd_conv)+
qed

lemma later_decisions:
  assumes "advancing time mgr"
  shows "stays_in (later time) (ready_decision env mgr m i d ob)" "stays_in (later time) (stopped_decision d ob)"
  unfolding ready_decision_def stopped_decision_def record_failed_attempt_def mark_attempt_unknown_def close_attempt_def Let_def
  by (intro later.stays_bind later.stays_option later.stays_if later.stays_pure later_journal [OF assms]
      look_later [OF assms look_read])+

text \<open>A round that waits brings the clock at least one nanosecond nearer to the deadline.\<close>

lemma pure_native_eq: "pure_native f w = (Inr (fst (f (native w))), w\<lparr>native := snd (f (native w))\<rparr>)"
  by (simp add: pure_native_def on_native_def split: prod.split)

lemma round_advances:
  assumes "advancing time mgr" and "ensure_remaining mgr dl phase w = (Inr left, w1)"
    and "pure_native (\<lambda>m. ((), m_wait mgr (min left OBSERVATION_RETRY_INTERVAL) m)) w1 = (Inr u, w2)"
  shows "time (native w) < time (native w2)" "time (native w) < endpoint dl"
proof -
  define now where "now = fst (m_clock mgr (native w))"
  from assms(2) have left: "0 < left" "left = endpoint dl - now" "native w1 = snd (m_clock mgr (native w))"
    by (auto simp: ensure_remaining_def sbind_Inr pure_native_eq now_def deadline_remaining_def split: if_splits)
  from assms(1) have now: "time (native w) \<le> now" "now \<le> time (native w1)"
    by (simp_all add: left(3) now_def advancing_def)
  have "0 < OBSERVATION_RETRY_INTERVAL" by (simp add: OBSERVATION_RETRY_INTERVAL_def from_millis_def)
  moreover from assms(3) have "w2 = w1\<lparr>native := m_wait mgr (min left OBSERVATION_RETRY_INTERVAL) (native w1)\<rparr>"
    by (simp add: pure_native_eq)
  moreover have "time (native w1) + t \<le> time (m_wait mgr t (native w1))" for t using assms(1) by (simp add: advancing_def)
  ultimately show "time (native w) < time (native w2)" using now left(1)
    by (metis add_less_cancel_left add_0_right le_less_trans less_le_trans min_less_iff_conj service_world.select_convs(2)
        service_world.surjective service_world.update_convs(2))
  show "time (native w) < endpoint dl" using now(1) left(1,2) by linarith
qed

lemma await_round_cong:
  assumes "advancing time mgr" and "\<And>ob. stays_in (later time) (decide ob)"
    and "\<And>w2. time (native w) < endpoint dl \<Longrightarrow> time (native w) < time (native w2)
      \<Longrightarrow> await_observation env mgr d dl phase decide k w2 = await_observation env mgr d dl phase decide n w2"
  shows "await_observation env mgr d dl phase decide (Suc k) w = await_observation env mgr d dl phase decide (Suc n) w"
proof -
  obtain r w1 where ob: "observe_service env mgr (def_manager d) (def_service_id d) dl w = (r, w1)" by (metis prod.exhaust)
  have t1: "time (native w) \<le> time (native w1)"
    using later.stays_step [OF look_later [OF assms(1) look_observe] ob] by (simp add: later_def)
  show ?thesis
  proof (cases r)
    case (Inr seen)
    obtain answer w2 where an: "decide seen w1 = (answer, w2)" by (metis prod.exhaust)
    have t2: "time (native w1) \<le> time (native w2)" using later.stays_step [OF assms(2) an] by (simp add: later_def)
    obtain left w3 where en: "ensure_remaining mgr dl phase w2 = (left, w3)" by (metis prod.exhaust)
    have "await_observation env mgr d dl phase decide k w4 = await_observation env mgr d dl phase decide n w4"
      if "left = Inr l" "pure_native (\<lambda>m. ((), m_wait mgr (min l OBSERVATION_RETRY_INTERVAL) m)) w3 = (Inr u, w4)" for l u w4
      using round_advances [OF assms(1) en [unfolded that(1)] that(2)] t1 t2 by (intro assms(3)) simp_all
    then show ?thesis
      by (auto simp: sbind_def ob Inr an en split: option.splits sum.splits prod.splits)
  qed (simp add: sbind_def ob)
qed

lemma await_more:
  assumes "advancing time mgr" and "\<And>ob. stays_in (later time) (decide ob)"
  shows "endpoint dl \<le> n + time (native w) \<Longrightarrow> n \<le> k
    \<Longrightarrow> await_observation env mgr d dl phase decide (Suc k) w = await_observation env mgr d dl phase decide (Suc n) w"
proof (induction n arbitrary: w k)
  case (0 w k)
  then show ?case by (intro await_round_cong [OF assms]) simp
next
  case (Suc n w k)
  then obtain k' where k: "k = Suc k'" "n \<le> k'" by (cases k) auto
  show ?case unfolding k(1)
  proof (rule await_round_cong [OF assms])
    fix w2 :: "'a service_world"
    assume "time (native w) < time (native w2)"
    with Suc.prems(1) show "await_observation env mgr d dl phase decide (Suc k') w2
        = await_observation env mgr d dl phase decide (Suc n) w2" by (intro Suc.IH k(2)) simp
  qed
qed

section \<open>Properties\<close>



text \<open>C29: Success is seen, not assumed: a command that reports success, or that there was nothing to do, gives an
  observation without pending work that shows what was asked for, the service installed as defined and enabled,
  running with its Core ready, stopped or not installed, or gone; and it leaves no attempt behind.\<close>

theorem reported_success_was_observed:
  "(install env mgr d w = (Inr r, w') \<longrightarrow> obs_installed (op_observation r) = Installed
      \<and> has_equivalent d (op_observation r) \<and> boot_enabled (op_observation r)
      \<and> \<not> pending_operation (op_observation r) \<and> attempt_entry w' = None)
   \<and> (start env mgr m i w = (Inr r, w') \<longrightarrow> obs_manager (op_observation r) = ManagerRunning
      \<and> core_is_ready (obs_core (op_observation r))
      \<and> \<not> pending_operation (op_observation r) \<and> attempt_entry w' = None)
   \<and> (stop env mgr m i w = (Inr r, w') \<longrightarrow> (obs_installed (op_observation r) = NotInstalled
        \<or> obs_manager (op_observation r) = ManagerStopped \<and> core_gone (op_observation r))
      \<and> \<not> pending_operation (op_observation r) \<and> attempt_entry w' = None)
   \<and> (uninstall env mgr m i w = (Inr r, w') \<longrightarrow> obs_installed (op_observation r) = NotInstalled
      \<and> \<not> pending_operation (op_observation r) \<and> attempt_entry w' = None)"
  using install_Inr [of env mgr d w r w'] start_Inr [of env mgr m i w r w'] stop_Inr [of env mgr m i w r w']
    uninstall_Inr [of env mgr m i w r w'] by blast

text \<open>Waiting ends with the deadline: when the clock never goes back and waiting advances it, the rounds that the
  loops are given are enough, that is, no greater number of rounds gives another result.\<close>

theorem waiting_rounds_suffice:
  assumes "advancing time mgr" and "endpoint dl \<le> k"
  shows "await_observation env mgr d dl ''service readiness'' (ready_decision env mgr m i d) (Suc k) w
      = wait_for_ready env mgr m i d dl w
    \<and> await_observation env mgr d dl ''service stop'' (stopped_decision d) (Suc k) w = wait_for_stopped env mgr d dl w"
  unfolding wait_for_ready_def wait_for_stopped_def using assms(2)
  by (intro conjI await_more [OF assms(1)] later_decisions [OF assms(1)]) simp_all

section \<open>A quiet machine\<close>

text \<open>Nothing is installed, every answer is immediate, and the world is its clock.\<close>

definition quiet_manager :: "nat manager" where
  "quiet_manager =
     \<lparr>mgr_isolated = True, requires_owned_helper = False, m_observe = (\<lambda>_ _ _. sreturn absent_observation),
      m_mutate = (\<lambda>_ _ _. sreturn ()), m_clock = (\<lambda>m. (m, m)), m_wait = (\<lambda>t m. m + t), m_uuid = (\<lambda>m. (''u'', m)),
      m_lock = (\<lambda>_ _. sreturn ()), m_state_path = sreturn (), m_disk = (\<lambda>m. (None, m)), m_unlink = sreturn (),
      h_retained = (\<lambda>m. (0, m)), h_spawn = (\<lambda>_. sreturn 7), h_evidence = (\<lambda>_ _. sreturn ''me''),
      h_send = (\<lambda>_. sreturn ()), h_receive = (\<lambda>_. sreturn []), h_exit = (\<lambda>_. sreturn ()), h_terminate = id,
      h_reap = (\<lambda>_ m. (Some (Inr ()), m))\<rparr>"

definition quiet_world :: "nat service_world" where
  "quiet_world = \<lparr>attempt_entry = None, native = 5\<rparr>"

lemma quiet_advancing: "advancing id quiet_manager"
proof -
  have "m \<le> m'" if "native_look quiet_manager m m'" for m m'
    using that by cases (auto simp: quiet_manager_def sreturn_def)
  then show ?thesis by (simp add: advancing_def quiet_manager_def)
qed

theorem waiting_rounds_suffice_witness:
  "await_observation small_service quiet_manager small_definition (Deadline 9) ''service stop''
     (stopped_decision small_definition) 40 quiet_world
   = wait_for_stopped small_service quiet_manager small_definition (Deadline 9) quiet_world"
proof -
  have "endpoint (Deadline 9) \<le> 39" by simp
  from waiting_rounds_suffice [OF quiet_advancing this] show ?thesis by (simp del: await_observation.simps)
qed

definition held_service :: service_env where
  "held_service = small_service\<lparr>decode_journal := (\<lambda>_. Inr ((small_journal Authorized)\<lparr>helper_pid := Some 7\<rparr>))\<rparr>"

definition held_world :: "nat service_world" where
  "held_world = \<lparr>attempt_entry = Some (RegularFile ''{h}''), native = 5\<rparr>"

lemma held_attempt:
  "read_attempt_for_service held_service LinuxSystemd ''k'' (attempt_entry held_world)
    = Inr (Some ((small_journal Authorized)\<lparr>helper_pid := Some 7\<rparr>))"
proof -
  let ?j = "(small_journal Authorized)\<lparr>helper_pid := Some 7\<rparr>"
  have same: "validate_definition held_service small_definition = validate_definition small_service small_definition"
    by (simp add: validate_definition_def small_definition_def)
  have "validate_attempt_snapshot held_service ?j None = validate_attempt_snapshot small_service (small_journal Authorized) None"
    using same by (simp add: validate_attempt_snapshot_def small_journal_def)
  then have "validate_attempt_snapshot held_service ?j None = Inr ()" by (simp add: small_journal_valid)
  then have "parse_attempts held_service ''{h}'' = Inr \<lparr>snap_latest = ?j, valid_length = 3, has_torn_tail = False,
      needs_separator = True\<rparr>"
    by (simp add: parse_attempts_def) (simp add: held_service_def)
  moreover have "file_guard held_service = Inr ()" by (simp add: held_service_def small_service_def)
  ultimately show ?thesis
    by (simp add: read_attempt_for_service_def read_attempt_file_def read_attempt_snapshot_def held_world_def require_def
        MAX_ATTEMPT_BYTES_def MAX_CONTROL_MESSAGE_BYTES_def small_journal_def small_definition_def)
qed


lemma quiet_stop:
  "\<exists>r w'. stop small_service quiet_manager LinuxSystemd ''k'' quiet_world = (Inr r, w')"
proof -
  have id_ok: "validate_service_id LinuxSystemd ''k'' = Inr ()" by code_simp
  have ok: "stop small_service quiet_manager LinuxSystemd ''k'' quiet_world
      = operation_result quiet_manager ActStop (Deadline (5 + budget_duration StopCommand))
          (fallback_definition LinuxSystemd ''k'') absent_observation Noop [] quiet_world"
    by code_simp
  then show ?thesis by (simp add: operation_result_def sbind_def pure_native_def on_native_def quiet_manager_def sreturn_def)
qed

theorem reported_success_was_observed_witness:
  "\<exists>r w'. stop small_service quiet_manager LinuxSystemd ''k'' quiet_world = (Inr r, w')
    \<and> \<not> pending_operation (op_observation r) \<and> attempt_entry w' = None"
proof -
  from quiet_stop obtain r w' where run: "stop small_service quiet_manager LinuxSystemd ''k'' quiet_world = (Inr r, w')" by blast
  with reported_success_was_observed [where env = small_service and mgr = quiet_manager and m = LinuxSystemd and i = "''k''"
      and w = quiet_world and r = r and w' = w'] show ?thesis by blast
qed

end
