(* ===== verification/Service_Native.thy ===== *)
theory Service_Native
  imports Service_Journal
begin

text \<open>
  The native forms of a service definition (\<open>src/lifecycle/service/mod.rs\<close>, \<open>linux.rs\<close>, \<open>macos.rs\<close> and
  \<open>windows.rs\<close> beside it): the systemd unit, the launchd property list and the command line of the Windows
  service manager, each with the code that reads it back.  A definition that is read back must be the one that was
  written: otherwise an installed service can be neither recognised nor changed again.  Text is UTF-8, so that a
  multi-byte white space is a sequence of bytes of \<^const>\<open>white_space\<close>.
\<close>

section \<open>White space\<close>

fun has_white_space :: "string \<Rightarrow> bool" where
  "has_white_space [] = False"
| "has_white_space (c # s) = (leading_space white_space (c # s) \<noteq> None \<or> has_white_space s)"

text \<open>The white space that is not ASCII.\<close>

definition wide_spaces :: "string list" where
  "wide_spaces = filter (\<lambda>w. 1 < length w) white_space"

fun has_wide_space :: "string \<Rightarrow> bool" where
  "has_wide_space [] = False"
| "has_wide_space (c # s) = (leading_space wide_spaces (c # s) \<noteq> None \<or> has_wide_space s)"

text \<open>\<open>str::split_whitespace\<close>\<close>

fun take_word :: "string \<Rightarrow> string \<times> string" where
  "take_word [] = ([], [])"
| "take_word (c # s) =
     (if leading_space white_space (c # s) \<noteq> None then ([], c # s)
      else (case take_word s of (w, r) \<Rightarrow> (c # w, r)))"

lemma strip_front_length: "length (strip_front ws s) \<le> length s"
proof (induction ws s rule: strip_front.induct)
  case (1 ws s)
  then show ?case by (subst strip_front.simps) (auto split: option.splits intro: order_trans dest: leading_space_pos)
qed

lemma strip_front_leading: "leading_space ws (strip_front ws s) = None"
proof (induction ws s rule: strip_front.induct)
  case (1 ws s)
  then show ?case by (cases "leading_space ws s") (simp_all add: strip_front.simps [of ws s])
qed

lemma strip_front_None: "leading_space ws s = None \<Longrightarrow> strip_front ws s = s"
  by (simp add: strip_front.simps)

lemma take_word_length: "length (fst (take_word s)) + length (snd (take_word s)) = length s"
  by (induction s) (auto split: prod.splits)

lemma take_word_first: "leading_space white_space s = None \<Longrightarrow> s \<noteq> [] \<Longrightarrow> fst (take_word s) \<noteq> []"
  by (cases s) (auto split: prod.splits)

function split_whitespace :: "string \<Rightarrow> string list" where
  "split_whitespace s =
     (let t = strip_front white_space s
      in if t = [] then [] else fst (take_word t) # split_whitespace (snd (take_word t)))"
  by pat_completeness auto

termination split_whitespace
proof (relation "measure length")
  fix s t :: string
  assume t: "t = strip_front white_space s" and "t \<noteq> []"
  then have "fst (take_word t) \<noteq> []" by (intro take_word_first) (simp_all add: strip_front_leading)
  then have "length (snd (take_word t)) < length t" using take_word_length [of t] by (cases "fst (take_word t)") auto
  with t strip_front_length [of white_space s] show "(snd (take_word t), s) \<in> measure length" by simp
qed simp

declare split_whitespace.simps [simp del]

text \<open>The first bytes of white space, and what follows them, are known.\<close>

lemma white_space_bytes:
  "\<forall>w \<in> set white_space. w \<noteq> [] \<and> byte (hd w) \<in> {9, 10, 11, 12, 13, 32, 194, 225, 226, 227}
     \<and> (1 < length w \<longrightarrow> list_all (\<lambda>c. 128 \<le> byte c) w) \<and> (128 \<le> byte (hd w) \<longrightarrow> 1 < length w)"
  by code_simp

lemma leading_space_None:
  "leading_space ws s = None \<longleftrightarrow> (\<forall>w \<in> set ws. w = [] \<or> \<not> prefix w s)"
  by (auto simp: leading_space_def find_None_iff starts_with_prefix)

lemma no_leading_space:
  assumes "byte c \<notin> {9, 10, 11, 12, 13, 32, 194, 225, 226, 227}"
  shows "leading_space white_space (c # s) = None"
  unfolding leading_space_None
proof
  fix w assume "w \<in> set white_space"
  with white_space_bytes have "w \<noteq> []" "byte (hd w) \<in> {9, 10, 11, 12, 13, 32, 194, 225, 226, 227}" by auto
  with assms show "w = [] \<or> \<not> prefix w (c # s)" by (cases w) auto
qed

lemma ascii_not_wide: "w \<in> set wide_spaces \<Longrightarrow> list_all (\<lambda>c. 128 \<le> byte c) w \<and> w \<noteq> []"
  using white_space_bytes by (auto simp: wide_spaces_def)

lemma leading_space_before:
  assumes "x \<noteq> []"
  shows "leading_space white_space (x @ CHR '' '' # r) = None \<longleftrightarrow> leading_space white_space x = None"
proof -
  have "prefix w (x @ CHR '' '' # r) \<longleftrightarrow> prefix w x" if w: "w \<in> set white_space" for w
  proof
    assume p: "prefix w (x @ CHR '' '' # r)"
    show "prefix w x"
    proof (cases "1 < length w")
      case True
      with white_space_bytes w have high: "list_all (\<lambda>c. 128 \<le> byte c) w" by blast
      show ?thesis
      proof (rule ccontr)
        assume "\<not> prefix w x"
        with p obtain v where "w = x @ v" "v \<noteq> []" "prefix v (CHR '' '' # r)"
          by (auto simp: prefix_append)
        then have "CHR '' '' \<in> set w" by (cases v) auto
        with high show False by (auto simp: list_all_iff)
      qed
    next
      case False
      with white_space_bytes w have "w \<noteq> []" "length w \<le> 1" by auto
      then obtain c where "w = [c]" by (cases w) auto
      with p \<open>x \<noteq> []\<close> show ?thesis by (cases x) auto
    qed
  qed auto
  then show ?thesis by (auto simp: leading_space_None)
qed

lemma take_word_until:
  "\<not> has_white_space w \<Longrightarrow> take_word w = (w, []) \<and> take_word (w @ CHR '' '' # r) = (w, CHR '' '' # r)"
proof (induction w)
  case Nil
  have "leading_space white_space (CHR '' '' # r) \<noteq> None"
    by (auto simp: leading_space_None intro!: bexI [of _ "'' ''"]) (code_simp)
  then show ?case by simp
next
  case (Cons c w)
  then show ?case using leading_space_before [of "c # w" r] by simp
qed

lemma ascii_space: "leading_space white_space (CHR '' '' # r) = Some 1"
proof -
  have "'' '' \<in> set white_space" by code_simp
  moreover have "prefix '' '' (CHR '' '' # r)" by simp
  ultimately have "leading_space white_space (CHR '' '' # r) \<noteq> None" unfolding leading_space_None by blast
  then obtain w where w: "find (\<lambda>w. w \<noteq> [] \<and> starts_with (CHR '' '' # r) w) white_space = Some w"
    by (auto simp: leading_space_def)
  then have "w \<in> set white_space" "w \<noteq> []" "prefix w (CHR '' '' # r)"
    by (auto simp: find_Some_iff starts_with_prefix)
  then have "CHR '' '' \<in> set w" by (cases w rule: list.exhaust) auto
  moreover from white_space_bytes \<open>w \<in> set white_space\<close> have "1 < length w \<longrightarrow> list_all (\<lambda>c. 128 \<le> byte c) w" by blast
  moreover have "\<not> 128 \<le> byte (CHR '' '')" by simp
  ultimately have "\<not> 1 < length w" unfolding list_all_iff by blast
  with \<open>w \<noteq> []\<close> have "length w = 1" by (cases w) auto
  with w show ?thesis by (simp add: leading_space_def)
qed

section \<open>Command lines of the Windows service manager\<close>

abbreviation backslash :: char where "backslash \<equiv> CHR 0x5C"

abbreviation quote :: char where "quote \<equiv> CHR 0x22"

text \<open>The loop over the characters of an argument, with the backslashes seen and not yet written.\<close>

fun quote_loop :: "nat \<Rightarrow> string \<Rightarrow> string" where
  "quote_loop n [] = replicate (2 * n) backslash @ [quote]"
| "quote_loop n (c # s) =
     (if c = backslash then quote_loop (Suc n) s
      else if c = quote then replicate (2 * n + 1) backslash @ quote # quote_loop 0 s
      else replicate n backslash @ c # quote_loop 0 s)"

definition quote_windows_argument :: "string \<Rightarrow> string" where
  "quote_windows_argument a =
     (if a \<noteq> [] \<and> \<not> has_white_space a \<and> quote \<notin> set a then a else quote # quote_loop 0 a)"

definition render_windows_command_line :: "service_definition \<Rightarrow> string" where
  "render_windows_command_line d = join_str '' '' (map quote_windows_argument (def_executable d # def_arguments d))"

text \<open>Reading one argument: what it is, whether a quote is open at its end, and what follows it.\<close>

definition with_front :: "string \<Rightarrow> string \<times> bool \<times> string \<Rightarrow> string \<times> bool \<times> string" where
  "with_front f r = (f @ fst r, snd r)"

function scan_argument :: "bool \<Rightarrow> string \<Rightarrow> string \<times> bool \<times> string" where
  "scan_argument q [] = ([], q, [])"
| "scan_argument q (c # s) =
     (if c = backslash
      then (let n = Suc (length (takeWhile (\<lambda>d. d = backslash) s)); r = dropWhile (\<lambda>d. d = backslash) s
            in if r \<noteq> [] \<and> hd r = quote
               then (if even n then with_front (replicate (n div 2) backslash) (scan_argument (\<not> q) (tl r))
                     else with_front (replicate (n div 2) backslash @ [quote]) (scan_argument q (tl r)))
               else with_front (replicate n backslash) (scan_argument q r))
      else if c = quote then scan_argument (\<not> q) s
      else if \<not> q \<and> leading_space white_space (c # s) \<noteq> None
      then ([], q, drop (the (leading_space white_space (c # s))) (c # s))
      else with_front [c] (scan_argument q s))"
  by pat_completeness auto

lemma dropWhile_shorter: "length (dropWhile P s) < Suc (length s)"
  by (simp add: length_dropWhile_le less_Suc_eq_le)

lemma tl_dropWhile_shorter: "length (dropWhile P s) - Suc 0 < Suc (length s)"
  using dropWhile_shorter [of P s] by simp

termination scan_argument
  by (relation "measure (\<lambda>(q, s). length s)") (auto simp: dropWhile_shorter tl_dropWhile_shorter)

declare scan_argument.simps(2) [simp del]

lemma with_front_simps [simp]:
  "with_front [] r = r" "with_front f (with_front g r) = with_front (f @ g) r"
  "snd (snd (with_front f r)) = snd (snd r)" "with_front f (a, b) = (f @ a, b)"
  by (simp_all add: with_front_def)

lemma scan_argument_shorter:
  "length (snd (snd (scan_argument q s))) \<le> length s"
  "s \<noteq> [] \<Longrightarrow> length (snd (snd (scan_argument q s))) < length s"
proof -
  have "length (snd (snd (scan_argument q s))) \<le> length s \<and> (s \<noteq> [] \<longrightarrow> length (snd (snd (scan_argument q s))) < length s)"
  proof (induction q s rule: scan_argument.induct)
    case (2 q c s)
    let ?r = "dropWhile (\<lambda>d. d = backslash) s"
    have r: "length ?r \<le> length s" by (rule length_dropWhile_le)
    consider "c = backslash" | "c = quote" | "c \<noteq> backslash" "c \<noteq> quote" "\<not> q" "leading_space white_space (c # s) \<noteq> None"
      | "c \<noteq> backslash" "c \<noteq> quote" "q \<or> leading_space white_space (c # s) = None" by blast
    then show ?case
    proof cases
      case 1
      then show ?thesis using 2(1-3) [OF 1 refl refl] r
        by (cases "?r \<noteq> [] \<and> hd ?r = quote"; cases "even (Suc (length (takeWhile (\<lambda>d. d = backslash) s)))")
          (auto simp add: scan_argument.simps(2) [of q backslash] Let_def)
    next
      case 2
      with 2 \<open>\<lbrakk>c \<noteq> backslash; c = quote\<rbrakk> \<Longrightarrow> _\<close> show ?thesis by (simp add: scan_argument.simps(2))
    next
      case 3
      then obtain n where "leading_space white_space (c # s) = Some n" by blast
      with 3 leading_space_pos [OF this] show ?thesis by (simp add: scan_argument.simps(2))
    next
      case 4
      with \<open>\<lbrakk>c \<noteq> backslash; c \<noteq> quote; \<not> (\<not> q \<and> leading_space white_space (c # s) \<noteq> None)\<rbrakk> \<Longrightarrow> _\<close> show ?thesis
        by (auto simp: scan_argument.simps(2))
    qed
  qed simp
  then show "length (snd (snd (scan_argument q s))) \<le> length s"
    "s \<noteq> [] \<Longrightarrow> length (snd (snd (scan_argument q s))) < length s" by blast+
qed

function parse_windows_command_line :: "string \<Rightarrow> string list lifecycle_result" where
  "parse_windows_command_line s =
     (let t = strip_front white_space s
      in if t = [] then Inr []
         else (case scan_argument False t of (a, q, r) \<Rightarrow>
           if q then Inl (UnsafeOwnership ''SCM binary path contains an unterminated quote'')
           else rbind (parse_windows_command_line r) (\<lambda>as. Inr (a # as))))"
  by pat_completeness auto

lemma scan_rest_shorter:
  assumes "strip_front white_space s \<noteq> []" and "scan_argument False (strip_front white_space s) = (a, q, r)"
  shows "length r < length s"
  using scan_argument_shorter(2) [OF assms(1), of False] assms(2) strip_front_length [of white_space s] by simp

termination parse_windows_command_line
  by (relation "measure length") (auto intro: scan_rest_shorter [OF _ sym])

declare parse_windows_command_line.simps [simp del]

text \<open>Runs of backslashes, before a quote and elsewhere.\<close>

lemma run_of_backslashes:
  "c \<noteq> backslash \<Longrightarrow> takeWhile (\<lambda>d. d = backslash) (replicate n backslash @ c # r) = replicate n backslash
     \<and> dropWhile (\<lambda>d. d = backslash) (replicate n backslash @ c # r) = c # r"
  by (induction n) auto

lemma scan_quote:
  "scan_argument q (replicate n backslash @ quote # r)
    = (if even n then with_front (replicate (n div 2) backslash) (scan_argument (\<not> q) r)
       else with_front (replicate (n div 2) backslash @ [quote]) (scan_argument q r))"
proof (cases n)
  case 0
  then show ?thesis by (simp add: scan_argument.simps(2))
next
  case (Suc m)
  have "takeWhile (\<lambda>d. d = backslash) (replicate m backslash @ quote # r) = replicate m backslash
      \<and> dropWhile (\<lambda>d. d = backslash) (replicate m backslash @ quote # r) = quote # r"
    by (rule run_of_backslashes) simp
  then show ?thesis by (simp add: Suc scan_argument.simps(2) Let_def)
qed

lemma scan_backslash:
  assumes "dropWhile (\<lambda>d. d = backslash) s = [] \<or> hd (dropWhile (\<lambda>d. d = backslash) s) \<noteq> quote"
  shows "scan_argument q (backslash # s) = with_front [backslash] (scan_argument q s)"
proof (cases s)
  case (Cons c r)
  show ?thesis
  proof (cases "c = backslash")
    case True
    with Cons assms show ?thesis by (auto simp: scan_argument.simps(2) [of _ backslash] Let_def)
  next
    case False
    with Cons assms show ?thesis by (simp add: scan_argument.simps(2) [of _ backslash])
  qed
qed (simp add: scan_argument.simps(2))

lemma scan_backslashes:
  assumes "c \<noteq> backslash" "c \<noteq> quote"
  shows "scan_argument q (replicate n backslash @ c # r) = with_front (replicate n backslash) (scan_argument q (c # r))"
proof (induction n)
  case (Suc n)
  have "dropWhile (\<lambda>d. d = backslash) (replicate n backslash @ c # r) = c # r"
    using run_of_backslashes [OF assms(1)] by blast
  with assms(2) Suc show ?case by (simp add: scan_backslash)
qed simp

lemma scan_quoted:
  "scan_argument True (quote_loop n a @ r) = with_front (replicate n backslash @ a) (scan_argument False r)"
proof (induction n a rule: quote_loop.induct)
  case (1 n)
  then show ?case by (simp add: scan_quote)
next
  case (2 n c a)
  consider "c = backslash" | "c = quote" | "c \<noteq> backslash" "c \<noteq> quote" by blast
  then show ?case
  proof cases
    case 1
    with 2(1) show ?thesis by (simp add: replicate_app_Cons_same)
  next
    case 2
    with \<open>\<lbrakk>c \<noteq> backslash; c = quote\<rbrakk> \<Longrightarrow> _\<close> show ?thesis
      using scan_quote [of True "2 * n + 1" "quote_loop 0 a @ r"] by simp
  next
    case 3
    with \<open>\<lbrakk>c \<noteq> backslash; c \<noteq> quote\<rbrakk> \<Longrightarrow> _\<close> show ?thesis
      by (simp add: scan_backslashes scan_argument.simps(2) [of True c])
  qed
qed

text \<open>An argument without quotes and white space is read as it is.\<close>

lemma scan_plain:
  assumes "\<not> has_white_space a" and "quote \<notin> set a" and "r = [] \<or> (\<exists>t. r = CHR '' '' # t)"
  shows "scan_argument False (a @ r) = with_front a (scan_argument False r)"
  using assms
proof (induction a)
  case (Cons c a)
  then have IH: "scan_argument False (a @ r) = with_front a (scan_argument False r)" by simp
  have free: "leading_space white_space (c # a @ r) = None"
    using Cons.prems(1,3) leading_space_before [of "c # a"] by auto
  have after: "dropWhile (\<lambda>d. d = backslash) (a @ r) = [] \<or> hd (dropWhile (\<lambda>d. d = backslash) (a @ r)) \<noteq> quote"
  proof (rule ccontr)
    assume "\<not> ?thesis"
    then have "dropWhile (\<lambda>d. d = backslash) (a @ r) \<noteq> []" "hd (dropWhile (\<lambda>d. d = backslash) (a @ r)) = quote" by auto
    then obtain u where u: "dropWhile (\<lambda>d. d = backslash) (a @ r) = quote # u" by (metis list.collapse)
    show False
    proof (cases "\<exists>d \<in> set a. d \<noteq> backslash")
      case True
      with u have "dropWhile (\<lambda>d. d = backslash) a @ r = quote # u" by (simp add: dropWhile_append) metis
      moreover from True have "dropWhile (\<lambda>d. d = backslash) a \<noteq> []" by auto
      ultimately have "quote \<in> set (dropWhile (\<lambda>d. d = backslash) a)" by (cases "dropWhile (\<lambda>d. d = backslash) a") auto
      with Cons.prems(2) show False by (auto dest: set_dropWhileD)
    next
      case False
      with u have "dropWhile (\<lambda>d. d = backslash) r = quote # u" by (simp add: dropWhile_append)
      with Cons.prems(3) show False by auto
    qed
  qed
  show ?case
  proof (cases "c = backslash")
    case True
    with IH after show ?thesis by (simp add: scan_backslash)
  next
    case False
    with Cons.prems(2) free IH show ?thesis by (auto simp: scan_argument.simps(2))
  qed
qed simp

lemma scan_space: "scan_argument False (CHR '' '' # r) = ([], False, r)"
  by (simp add: scan_argument.simps(2) ascii_space)

lemma scan_windows_argument:
  "scan_argument False (quote_windows_argument a) = (a, False, [])"
  "scan_argument False (quote_windows_argument a @ CHR '' '' # r) = (a, False, r)"
proof -
  have "scan_argument False (quote_windows_argument a @ r) = with_front a (scan_argument False r)"
    if "r = [] \<or> (\<exists>t. r = CHR '' '' # t)" for r
  proof (cases "a \<noteq> [] \<and> \<not> has_white_space a \<and> quote \<notin> set a")
    case True
    with that show ?thesis by (simp add: quote_windows_argument_def scan_plain)
  next
    case False
    then have "quote_windows_argument a = quote # quote_loop 0 a" by (auto simp: quote_windows_argument_def)
    then show ?thesis using scan_quoted [of 0 a r] by (simp add: scan_argument.simps(2))
  qed
  from this [of "[]"] this [of "CHR '' '' # r"] show "scan_argument False (quote_windows_argument a) = (a, False, [])"
    "scan_argument False (quote_windows_argument a @ CHR '' '' # r) = (a, False, r)" by (simp_all add: scan_space)
qed

lemma quoted_first:
  "\<exists>c t. quote_windows_argument a = c # t \<and> leading_space white_space (c # t) = None"
proof (cases "a \<noteq> [] \<and> \<not> has_white_space a \<and> quote \<notin> set a")
  case True
  then show ?thesis by (cases a) (auto simp: quote_windows_argument_def)
next
  case False
  then show ?thesis using no_leading_space [of quote "quote_loop 0 a"] by (auto simp: quote_windows_argument_def)
qed

lemma quoted_not_blank: "quote_windows_argument a \<noteq> []"
  using quoted_first [of a] by auto

lemma strip_quoted:
  assumes "r = [] \<or> (\<exists>t. r = CHR '' '' # t)"
  shows "strip_front white_space (quote_windows_argument a @ r) = quote_windows_argument a @ r"
proof -
  obtain c t where c: "quote_windows_argument a = c # t" "leading_space white_space (c # t) = None"
    using quoted_first by blast
  with assms leading_space_before [of "c # t"] have "leading_space white_space (c # t @ r) = None" by auto
  then show ?thesis by (simp add: c(1) strip_front_None)
qed

lemma parse_windows_arguments:
  "parse_windows_command_line (join_str '' '' (map quote_windows_argument as)) = Inr as"
proof (induction as rule: induct_list012)
  case (2 a)
  have "parse_windows_command_line [] = Inr []" by (simp add: parse_windows_command_line.simps)
  then show ?case using strip_quoted [of "[]" a]
    by (subst parse_windows_command_line.simps) (simp add: scan_windows_argument quoted_not_blank)
next
  case (3 a b as)
  let ?r = "CHR '' '' # join_str '' '' (map quote_windows_argument (b # as))"
  from 3 show ?case using strip_quoted [of ?r a]
    by (subst parse_windows_command_line.simps) (simp add: scan_windows_argument quoted_not_blank)
qed (simp add: parse_windows_command_line.simps)

section \<open>Systemd units\<close>

text \<open>\<open>String::from_utf8\<close>\<close>

definition continuation :: "char \<Rightarrow> bool" where
  "continuation c \<longleftrightarrow> 128 \<le> byte c \<and> byte c \<le> 191"

definition second_byte :: "nat \<Rightarrow> char \<Rightarrow> bool" where
  "second_byte a c \<longleftrightarrow>
     (if a = 224 then 160 \<le> byte c else if a = 240 then 144 \<le> byte c else 128 \<le> byte c)
   \<and> (if a = 237 then byte c \<le> 159 else if a = 244 then byte c \<le> 143 else byte c \<le> 191)"

fun valid_utf8 :: "string \<Rightarrow> bool" where
  "valid_utf8 [] = True"
| "valid_utf8 (c # s) =
     (let a = byte c in
      if a < 128 then valid_utf8 s
      else (case s of
          [] \<Rightarrow> False
        | d # s1 \<Rightarrow>
            if 194 \<le> a \<and> a \<le> 223 then continuation d \<and> valid_utf8 s1
            else (case s1 of
                [] \<Rightarrow> False
              | e # s2 \<Rightarrow>
                  if 224 \<le> a \<and> a \<le> 239 then second_byte a d \<and> continuation e \<and> valid_utf8 s2
                  else (case s2 of
                      [] \<Rightarrow> False
                    | f # s3 \<Rightarrow>
                        240 \<le> a \<and> a \<le> 244 \<and> second_byte a d \<and> continuation e \<and> continuation f \<and> valid_utf8 s3))))"

definition systemd_escape_byte :: "char \<Rightarrow> string" where
  "systemd_escape_byte c =
     (if 128 \<le> byte c then [c]
      else if c = CHR '' '' \<or> c = CHR 0x09 \<or> c = quote \<or> byte c < 32 \<or> byte c = 127
      then [backslash, CHR ''x'', hex_nibble (byte c div 16), hex_nibble (byte c)]
      else if c = backslash \<or> c = CHR ''$'' \<or> c = CHR ''%'' then [c, c]
      else [c])"

definition systemd_escape_argument :: "string \<Rightarrow> string" where
  "systemd_escape_argument s = concat (map systemd_escape_byte s)"

definition unit_lines :: "service_definition \<Rightarrow> string list" where
  "unit_lines d =
     [''[Unit]'', ''Description=Kakune Core local automation runtime'', ''After=network-online.target'',
      ''Wants=network-online.target'', [], ''[Service]'', ''Type=notify'', ''NotifyAccess=main'',
      ''User='' @ def_account d,
      ''ExecStart='' @ join_str '' '' (map systemd_escape_argument (def_executable d # def_arguments d)),
      ''Restart=on-failure'', ''RestartSec=5'', ''KillMode=mixed'', ''SendSIGKILL=no'', ''TimeoutStartSec=30'',
      ''TimeoutStopSec=30'', ''NoNewPrivileges=true'', ''PrivateTmp=true'', ''ProtectSystem=strict'',
      ''ReadWritePaths='' @ systemd_escape_argument (def_data_dir d), [], ''[Install]'', ''WantedBy=multi-user.target'']"

definition render_systemd_unit :: "service_definition \<Rightarrow> string" where
  "render_systemd_unit d = line_text (unit_lines d)"

text \<open>\<open>u8::from_str_radix\<close> on two characters: the sign plus is allowed.\<close>

definition hex_value :: "char \<Rightarrow> nat option" where
  "hex_value c =
     (if is_ascii_digit c then Some (byte c - 48)
      else if 97 \<le> byte c \<and> byte c \<le> 102 then Some (byte c - 87)
      else if 65 \<le> byte c \<and> byte c \<le> 70 then Some (byte c - 55) else None)"

definition hex_byte :: "char \<Rightarrow> char \<Rightarrow> char option" where
  "hex_byte a b =
     (if a = CHR ''+'' then map_option char_of (hex_value b)
      else Option.bind (hex_value a) (\<lambda>x. map_option (\<lambda>y. char_of (16 * x + y)) (hex_value b)))"

definition push :: "char \<Rightarrow> string lifecycle_result \<Rightarrow> string lifecycle_result" where
  "push c r = rbind r (\<lambda>s. Inr (c # s))"

fun decode_systemd_bytes :: "string \<Rightarrow> string lifecycle_result" where
  "decode_systemd_bytes [] = Inr []"
| "decode_systemd_bytes (c # s) =
     (if c = backslash
      then (case s of
          [] \<Rightarrow> Inl (UnsafeOwnership ''unsupported systemd escape in native definition'')
        | d # s1 \<Rightarrow>
            if d = backslash then push backslash (decode_systemd_bytes s1)
            else (case s1 of
                a # b # s2 \<Rightarrow>
                  if d = CHR ''x''
                  then (case hex_byte a b of
                      None \<Rightarrow> Inl (UnsafeOwnership ''invalid systemd hex escape'')
                    | Some e \<Rightarrow> push e (decode_systemd_bytes s2))
                  else Inl (UnsafeOwnership ''unsupported systemd escape in native definition'')
              | _ \<Rightarrow> Inl (UnsafeOwnership ''unsupported systemd escape in native definition'')))
      else if c = CHR ''$'' \<or> c = CHR ''%''
      then (case s of
          d # s1 \<Rightarrow> if d = c then push c (decode_systemd_bytes s1) else push c (decode_systemd_bytes s)
        | [] \<Rightarrow> push c (decode_systemd_bytes s))
      else push c (decode_systemd_bytes s))"

definition decode_systemd_word :: "string \<Rightarrow> string lifecycle_result" where
  "decode_systemd_word s =
     rbind (decode_systemd_bytes s) (\<lambda>r. rbind (require (valid_utf8 r) (UnsafeOwnership ''systemd value is not UTF-8'')) (\<lambda>_. Inr r))"

fun parse_systemd_words :: "string list \<Rightarrow> string list lifecycle_result" where
  "parse_systemd_words [] = Inr []"
| "parse_systemd_words (w # ws) =
     rbind (decode_systemd_word w) (\<lambda>a. rbind (parse_systemd_words ws) (\<lambda>as. Inr (a # as)))"

text \<open>\<open>str::lines\<close>: the pieces between line breaks, without a carriage return before one; the piece after the last
  line break only when it is not empty.\<close>

definition strip_return :: "string \<Rightarrow> string" where
  "strip_return l = (if l \<noteq> [] \<and> List.last l = CHR 0x0D then butlast l else l)"

fun lines_of :: "string list \<Rightarrow> string list" where
  "lines_of [] = []"
| "lines_of [l] = (if l = [] then [] else [l])"
| "lines_of (l # ls) = strip_return l # lines_of ls"

definition text_lines :: "string \<Rightarrow> string list" where
  "text_lines s = lines_of (split_on newline s)"

text \<open>\<open>find_map\<close> with \<open>strip_prefix\<close>\<close>

fun find_line :: "string \<Rightarrow> string list \<Rightarrow> string option" where
  "find_line p [] = None"
| "find_line p (l # ls) = (if starts_with l p then Some (drop (length p) l) else find_line p ls)"

definition required_settings :: "string list" where
  "required_settings =
     [''Type=notify'', ''NotifyAccess=main'', ''Restart=on-failure'', ''KillMode=mixed'', ''SendSIGKILL=no'',
      ''TimeoutStopSec=30'', ''WantedBy=multi-user.target'']"

definition parse_unit_definition :: "service_env \<Rightarrow> string \<Rightarrow> string \<Rightarrow> service_definition lifecycle_result" where
  "parse_unit_definition env i contents =
     (let ls = text_lines contents in
      rbind (for_each (\<lambda>r. require (r \<in> set ls)
          (ConflictingServiceDefinition (''systemd unit is missing required setting '' @ r))) required_settings) (\<lambda>_.
      rbind (ok_or (find_line ''User='' ls)
          (ConflictingServiceDefinition ''systemd unit has no explicit service account'')) (\<lambda>account.
      rbind (ok_or (find_line ''ExecStart='' ls) (ConflictingServiceDefinition ''systemd unit has no ExecStart'')) (\<lambda>command.
      rbind (parse_systemd_words (split_whitespace command)) (\<lambda>words.
      case words of
        [] \<Rightarrow> Inl (ConflictingServiceDefinition ''systemd ExecStart is empty'')
      | exe # args \<Rightarrow>
          rbind (ok_or (find_line ''ReadWritePaths='' ls)
            (ConflictingServiceDefinition ''systemd unit does not identify the persistent data path'')) (\<lambda>dir.
          rbind (decode_systemd_word dir) (\<lambda>dir'.
          rbind (new_definition env LinuxSystemd i exe args account dir') (\<lambda>d.
          rbind (validate_definition env d) (\<lambda>_.
          rbind (require (render_systemd_unit d = contents)
            (ConflictingServiceDefinition ''systemd unit contains fields outside Kakune's verified definition'')) (\<lambda>_.
            Inr d))))))))))"

subsection \<open>Escapes\<close>

lemma hex_nibble_mod: "hex_nibble (n mod 16) = hex_nibble n"
  by (simp add: hex_nibble_def)

lemma hex_digits: "\<forall>k \<in> set [0..<16]. hex_value (hex_nibble k) = Some k \<and> hex_nibble k \<noteq> CHR ''+''
    \<and> 48 \<le> byte (hex_nibble k) \<and> byte (hex_nibble k) \<le> 102"
  by code_simp

lemma hex_nibble_facts:
  "hex_value (hex_nibble n) = Some (n mod 16)" "hex_nibble n \<noteq> CHR ''+''"
  "48 \<le> byte (hex_nibble n)" "byte (hex_nibble n) \<le> 102"
proof -
  have "n mod 16 \<in> set [0..<16]" by simp
  with hex_digits have "hex_value (hex_nibble (n mod 16)) = Some (n mod 16) \<and> hex_nibble (n mod 16) \<noteq> CHR ''+''
    \<and> 48 \<le> byte (hex_nibble (n mod 16)) \<and> byte (hex_nibble (n mod 16)) \<le> 102" by blast
  then show "hex_value (hex_nibble n) = Some (n mod 16)" "hex_nibble n \<noteq> CHR ''+''"
    "48 \<le> byte (hex_nibble n)" "byte (hex_nibble n) \<le> 102" by (simp_all add: hex_nibble_mod)
qed

lemma byte_less: "byte c < 256"
  by simp

lemma hex_byte_nibbles: "hex_byte (hex_nibble (byte c div 16)) (hex_nibble (byte c)) = Some c"
proof -
  have "byte c div 16 mod 16 = byte c div 16" using byte_less [of c] by (intro mod_less) (simp add: less_mult_imp_div_less)
  then have "16 * (byte c div 16 mod 16) + byte c mod 16 = byte c" by simp
  then show ?thesis by (simp add: hex_byte_def hex_nibble_facts)
qed

lemma decode_escaped: "decode_systemd_bytes (systemd_escape_byte c @ r) = push c (decode_systemd_bytes r)"
  by (auto simp: systemd_escape_byte_def hex_byte_nibbles)

lemma decode_escape: "decode_systemd_bytes (systemd_escape_argument s) = Inr s"
  by (induction s) (simp_all add: systemd_escape_argument_def decode_escaped push_def)

lemma decode_escaped_word: "valid_utf8 s \<Longrightarrow> decode_systemd_word (systemd_escape_argument s) = Inr s"
  by (simp add: decode_systemd_word_def decode_escape require_def)

lemma parse_escaped_words:
  "list_all valid_utf8 ws \<Longrightarrow> parse_systemd_words (map systemd_escape_argument ws) = Inr ws"
  by (induction ws) (simp_all add: decode_escaped_word)

subsection \<open>Words and lines\<close>

lemma has_white_space_plain:
  "list_all (\<lambda>c. byte c \<notin> {9, 10, 11, 12, 13, 32, 194, 225, 226, 227}) x \<Longrightarrow> has_white_space (x @ r) = has_white_space r"
  by (induction x) (simp_all add: no_leading_space)

lemma byte_space: "byte c = 32 \<longleftrightarrow> c = CHR '' ''"
proof -
  have "byte c = byte (CHR '' '') \<longleftrightarrow> c = CHR '' ''" by (rule of_char_eq_iff)
  then show ?thesis by simp
qed

lemma escaped_ascii:
  assumes "byte c < 128"
  shows "list_all (\<lambda>d. 33 \<le> byte d \<and> byte d < 128) (systemd_escape_byte c)"
proof -
  have "33 \<le> byte c" if "c \<noteq> CHR '' ''" "\<not> byte c < 32" using that byte_space [of c] by linarith
  then show ?thesis
    using assms hex_nibble_facts(3,4) [of "byte c div 16"] hex_nibble_facts(3,4) [of "byte c"]
    by (auto simp: systemd_escape_byte_def)
qed

lemma escape_Cons: "systemd_escape_argument (c # s) = systemd_escape_byte c @ systemd_escape_argument s"
  by (simp add: systemd_escape_argument_def)

lemma escaped_wide: "128 \<le> byte c \<Longrightarrow> systemd_escape_byte c = [c]"
  by (simp add: systemd_escape_byte_def)

lemma escaped_bytes: "list_all (\<lambda>d. 33 \<le> byte d) (systemd_escape_argument s)"
proof (induction s)
  case (Cons c s)
  then show ?case
    using escaped_ascii [of c] escaped_wide [of c] by (cases "byte c < 128") (auto simp: escape_Cons list_all_iff)
qed (simp add: systemd_escape_argument_def)

lemma escape_not_Nil: "s \<noteq> [] \<Longrightarrow> systemd_escape_argument s \<noteq> []"
  by (cases s) (auto simp: escape_Cons systemd_escape_byte_def)

lemma wide_prefix_escape:
  "list_all (\<lambda>c. 128 \<le> byte c) w \<Longrightarrow> prefix w (systemd_escape_argument s) \<Longrightarrow> prefix w s"
proof (induction w arbitrary: s)
  case (Cons c w)
  then obtain d t where s: "s = d # t" by (cases s) (auto simp: systemd_escape_argument_def)
  have "128 \<le> byte d"
  proof (rule ccontr)
    assume "\<not> 128 \<le> byte d"
    with escaped_ascii [of d] obtain e u where "systemd_escape_byte d = e # u" "byte e < 128"
      by (cases "systemd_escape_byte d") (auto simp: systemd_escape_byte_def split: if_splits)
    with Cons.prems s show False by (simp add: escape_Cons)
  qed
  with Cons s show ?case by (simp add: escape_Cons escaped_wide)
qed simp

lemma escape_no_white_space: "\<not> has_wide_space s \<Longrightarrow> \<not> has_white_space (systemd_escape_argument s)"
proof (induction s)
  case (Cons c s)
  then have IH: "\<not> has_white_space (systemd_escape_argument s)" by simp
  show ?case
  proof (cases "byte c < 128")
    case True
    then have "list_all (\<lambda>c. byte c \<notin> {9, 10, 11, 12, 13, 32, 194, 225, 226, 227}) (systemd_escape_byte c)"
      using escaped_ascii [of c] by (auto simp: list_all_iff)
    then show ?thesis using IH by (simp add: escape_Cons has_white_space_plain)
  next
    case False
    have "leading_space white_space (c # systemd_escape_argument s) = None"
      unfolding leading_space_None
    proof (rule ballI, rule ccontr)
      fix w assume w1: "w \<in> set white_space" and "\<not> (w = [] \<or> \<not> prefix w (c # systemd_escape_argument s))"
      with w1 have w: "w \<in> set white_space" "prefix w (c # systemd_escape_argument s)" by blast+
      from w(1) white_space_bytes have "w \<noteq> []" "byte (hd w) \<in> {9, 10, 11, 12, 13, 32, 194, 225, 226, 227}"
        "1 < length w \<longrightarrow> list_all (\<lambda>c. 128 \<le> byte c) w" "128 \<le> byte (hd w) \<longrightarrow> 1 < length w" by blast+
      moreover from this w(2) have "hd w = c" by (cases w) auto
      ultimately show False using w Cons.prems False wide_prefix_escape [of w "c # s"]
        by (cases "1 < length w") (auto simp: leading_space_None wide_spaces_def escape_Cons escaped_wide)
    qed
    with False IH show ?thesis by (simp add: escape_Cons escaped_wide)
  qed
qed (simp add: systemd_escape_argument_def)

lemma strip_front_space: "strip_front white_space (CHR '' '' # r) = strip_front white_space r"
  by (simp add: strip_front.simps [of white_space "CHR '' '' # r"] ascii_space)

lemma split_words:
  "list_all (\<lambda>w. w \<noteq> [] \<and> \<not> has_white_space w) ws \<Longrightarrow> split_whitespace (join_str '' '' ws) = ws
    \<and> split_whitespace (CHR '' '' # join_str '' '' ws) = ws"
proof (induction ws rule: induct_list012)
  case 1
  show ?case by (simp add: split_whitespace.simps strip_front_space)
next
  case (2 w)
  then have "leading_space white_space w = None" "w \<noteq> []" by (cases w; simp)+
  moreover have "split_whitespace [] = []" by (simp add: split_whitespace.simps)
  ultimately have "split_whitespace w = [w]" using 2 take_word_until [of w]
    by (subst split_whitespace.simps) (simp add: strip_front_None)
  then show ?case by (simp add: split_whitespace.simps [of "CHR '' '' # w"] split_whitespace.simps [of w] strip_front_space)
next
  case (3 w v ws)
  let ?r = "join_str '' '' (v # ws)"
  from 3 have "leading_space white_space (w @ CHR '' '' # ?r) = None" "w \<noteq> []"
    using leading_space_before [of w ?r] by (cases w; simp)+
  with 3 have "split_whitespace (w @ CHR '' '' # ?r) = w # v # ws"
    using take_word_until [of w ?r] by (subst split_whitespace.simps) (simp add: strip_front_None)
  then show ?case
    by (simp add: split_whitespace.simps [of "CHR '' '' # w @ CHR '' '' # ?r"] split_whitespace.simps [of "w @ CHR '' '' # ?r"]
        strip_front_space)
qed

lemma lines_of_pieces: "lines_of (ls @ [[]]) = map strip_return ls"
proof (induction ls)
  case (Cons l ls)
  then show ?case by (cases ls) simp_all
qed simp

lemma text_lines_line_text:
  assumes "list_all (\<lambda>l. newline \<notin> set l \<and> CHR 0x0D \<notin> set l) ls"
  shows "text_lines (line_text ls) = ls"
proof -
  have "strip_return l = l" if "l \<in> set ls" for l
    using that assms by (auto simp: strip_return_def list_all_iff dest: last_in_set)
  then have "map strip_return ls = ls" by (simp add: map_idI)
  moreover have "list_all (\<lambda>b. newline \<notin> set b) ls" using assms by (auto simp: list_all_iff)
  ultimately show ?thesis by (simp add: text_lines_def split_on_lines lines_of_pieces)
qed

subsection \<open>Reading a unit back\<close>

text \<open>The definitions that Core makes: their fingerprint is that of their fields.\<close>

definition made_by :: "service_env \<Rightarrow> service_definition \<Rightarrow> bool" where
  "made_by env d \<longleftrightarrow>
     new_definition env (def_manager d) (def_service_id d) (def_executable d) (def_arguments d) (def_account d) (def_data_dir d)
       = Inr d"

lemma fingerprint_kept: "fingerprint env (d\<lparr>def_fingerprint := f\<rparr>) = fingerprint env d"
  by (simp add: fingerprint_def)

lemma validate_fields_kept: "validate_fields (d\<lparr>def_fingerprint := f\<rparr>) = validate_fields d"
  by (simp add: validate_fields_def service_arguments_ok_def cong: list.case_cong)

lemma new_definition_Inr:
  assumes "new_definition env m i exe args account dir = Inr d"
  shows "d = \<lparr>def_manager = m, def_service_id = i, def_executable = exe, def_arguments = args, def_account = account,
      def_boot = Automatic, def_data_dir = dir, def_fingerprint = def_fingerprint d\<rparr>"
    "validate_fields d = Inr ()" "validate_definition env d = Inr ()"
proof -
  let ?d = "\<lparr>def_manager = m, def_service_id = i, def_executable = exe, def_arguments = args, def_account = account,
      def_boot = Automatic, def_data_dir = dir, def_fingerprint = None\<rparr>"
  from assms obtain f where f: "validate_fields ?d = Inr ()" "fingerprint env ?d = Inr f"
    and d: "d = ?d\<lparr>def_fingerprint := Some f\<rparr>"
    by (auto simp: new_definition_def validate_definition_def Let_def result_simps)
  then show "d = \<lparr>def_manager = m, def_service_id = i, def_executable = exe, def_arguments = args, def_account = account,
      def_boot = Automatic, def_data_dir = dir, def_fingerprint = def_fingerprint d\<rparr>" by simp
  from f(1) d show valid: "validate_fields d = Inr ()" by (simp only: validate_fields_kept)
  moreover have "fingerprint env d = Inr f" unfolding d fingerprint_kept by (rule f(2))
  moreover have "def_fingerprint d = Some f" by (simp add: d)
  ultimately show "validate_definition env d = Inr ()" by (simp add: validate_definition_def require_def)
qed

lemma validate_fields_Inr:
  assumes "validate_fields d = Inr ()"
  shows "def_executable d \<noteq> []" "newline \<notin> set (def_account d)" "CHR 0x0D \<notin> set (def_account d)"
    "\<exists>dir. def_arguments d = [''service'', ''run'', ''--data-dir'', dir] \<and> dir \<noteq> []"
proof -
  from assms have ok: "is_absolute (def_executable d)" "is_absolute (def_data_dir d)" "\<not> has_line_break (def_account d)"
    "service_arguments_ok d"
    by (auto simp: validate_fields_def result_simps)
  from ok(1) show "def_executable d \<noteq> []" by (auto simp: is_absolute_def)
  from ok(3) show "newline \<notin> set (def_account d)" "CHR 0x0D \<notin> set (def_account d)"
    by (auto simp: has_line_break_def list_ex_iff)
  from ok(4) obtain dir where dir: "def_arguments d = [''service'', ''run'', ''--data-dir'', dir]"
    "path_parts dir = path_parts (def_data_dir d)"
    by (auto simp: service_arguments_ok_def split: list.splits)
  with ok(2) have "is_absolute dir" by (simp add: path_parts_def Let_def)
  then have "dir \<noteq> []" by (auto simp: is_absolute_def)
  with dir show "\<exists>dir. def_arguments d = [''service'', ''run'', ''--data-dir'', dir] \<and> dir \<noteq> []" by blast
qed

definition systemd_expressible :: "service_env \<Rightarrow> service_definition \<Rightarrow> bool" where
  "systemd_expressible env d \<longleftrightarrow>
     def_manager d = LinuxSystemd \<and> made_by env d \<and> valid_utf8 (def_data_dir d)
   \<and> list_all (\<lambda>s. valid_utf8 s \<and> \<not> has_wide_space s) (def_executable d # def_arguments d)"

lemma set_join_str: "set (join_str sep ss) \<subseteq> set sep \<union> (\<Union>s \<in> set ss. set s)"
  by (induction sep ss rule: join_str.induct) auto

lemma escape_no_break: "newline \<notin> set (systemd_escape_argument s)" "CHR 0x0D \<notin> set (systemd_escape_argument s)"
  using escaped_bytes [of s] by (auto simp: list_all_iff)

lemma command_no_break:
  "newline \<notin> set (join_str '' '' (map systemd_escape_argument ss))"
  "CHR 0x0D \<notin> set (join_str '' '' (map systemd_escape_argument ss))"
  using set_join_str [of "'' ''" "map systemd_escape_argument ss"] by (auto simp: escape_no_break)

lemma unit_text_lines:
  assumes "validate_fields d = Inr ()"
  shows "text_lines (render_systemd_unit d) = unit_lines d"
  unfolding render_systemd_unit_def
  by (rule text_lines_line_text)
    (simp add: unit_lines_def validate_fields_Inr [OF assms] escape_no_break command_no_break del: join_str.simps list.map)

lemma unit_settings:
  "find_line ''User='' (unit_lines d) = Some (def_account d)"
  "find_line ''ExecStart='' (unit_lines d)
    = Some (join_str '' '' (map systemd_escape_argument (def_executable d # def_arguments d)))"
  "find_line ''ReadWritePaths='' (unit_lines d) = Some (systemd_escape_argument (def_data_dir d))"
  "for_each (\<lambda>r. require (r \<in> set (unit_lines d)) (e r)) required_settings = Inr ()"
  by (simp_all add: unit_lines_def required_settings_def require_def del: join_str.simps list.map)

lemma parse_rendered_unit:
  assumes "systemd_expressible env d"
  shows "parse_unit_definition env (def_service_id d) (render_systemd_unit d) = Inr d"
proof -
  let ?words = "def_executable d # def_arguments d"
  from assms have made: "new_definition env LinuxSystemd (def_service_id d) (def_executable d) (def_arguments d)
      (def_account d) (def_data_dir d) = Inr d"
    and utf8: "valid_utf8 (def_data_dir d)" "list_all valid_utf8 ?words"
    and narrow: "list_all (\<lambda>s. \<not> has_wide_space s) ?words"
    by (auto simp: systemd_expressible_def made_by_def list_all_iff)
  note d = new_definition_Inr [OF made]
  have "list_all (\<lambda>s. s \<noteq> []) ?words" using validate_fields_Inr [OF d(2)] by auto
  with narrow have "list_all (\<lambda>w. w \<noteq> [] \<and> \<not> has_white_space w) (map systemd_escape_argument ?words)"
    by (auto simp: list_all_iff escape_not_Nil escape_no_white_space)
  then have "split_whitespace (join_str '' '' (map systemd_escape_argument ?words)) = map systemd_escape_argument ?words"
    using split_words by blast
  with utf8 have "parse_systemd_words (split_whitespace (join_str '' '' (map systemd_escape_argument ?words))) = Inr ?words"
    using parse_escaped_words by metis
  with made d(3) utf8(1) show ?thesis
    by (simp add: parse_unit_definition_def Let_def unit_text_lines [OF d(2)] unit_settings decode_escaped_word require_def [of True]
        del: join_str.simps list.map)
qed

lemma parsed_unit_Inr:
  assumes "parse_unit_definition env i c = Inr d"
  shows "render_systemd_unit d = c" "def_service_id d = i"
proof -
  from assms obtain exe args account dir where "new_definition env LinuxSystemd i exe args account dir = Inr d"
    "render_systemd_unit d = c"
    by (auto simp: parse_unit_definition_def Let_def result_simps neq_Nil_conv split: list.split_asm)
  with arg_cong [OF new_definition_Inr(1), of _ _ i _ _ _ _ d def_service_id] show "render_systemd_unit d = c" "def_service_id d = i"
    by simp_all
qed

text \<open>What the controller relies on: a form that can be written is read back as it was, and nothing else is read as
  that definition.\<close>

locale native_format =
  fixes render :: "service_definition \<Rightarrow> string" and parse :: "string \<Rightarrow> string \<Rightarrow> service_definition lifecycle_result"
    and expressible :: "service_definition \<Rightarrow> bool"
  assumes parse_render: "expressible d \<Longrightarrow> parse (def_service_id d) (render d) = Inr d"
    and parse_checked: "parse i c = Inr d \<Longrightarrow> render d = c \<and> def_service_id d = i"
begin

lemma parse_exactly: "expressible d \<Longrightarrow> parse i c = Inr d \<longleftrightarrow> c = render d \<and> i = def_service_id d"
proof (intro iffI)
  assume "parse i c = Inr d"
  then show "c = render d \<and> i = def_service_id d" using parse_checked [of i c d] by simp
next
  assume "expressible d" "c = render d \<and> i = def_service_id d"
  then show "parse i c = Inr d" using parse_render [of d] by simp
qed

lemma render_determines:
  "expressible d \<Longrightarrow> expressible e \<Longrightarrow> def_service_id d = def_service_id e \<Longrightarrow> render d = render e \<Longrightarrow> d = e"
  using parse_render [of d] parse_render [of e] by (metis sum.inject(2))

lemma parse_unambiguous: "parse i c = Inr d \<Longrightarrow> parse i (render d) = Inr d"
  using parse_checked [of i c d] by simp

end

interpretation systemd: native_format render_systemd_unit "parse_unit_definition env" "systemd_expressible env" for env
  by unfold_locales (simp_all add: parse_rendered_unit parsed_unit_Inr)

section \<open>Properties\<close>

text \<open>C32: The command line of the Windows service manager reads back: whatever the executable and the arguments are, with
  spaces, quotes, backslashes before quotes or at the end, or nothing at all, parsing the quoted command line gives
  exactly them.\<close>

theorem windows_command_line_reads_back:
  "parse_windows_command_line (render_windows_command_line d) = Inr (def_executable d # def_arguments d)"
  unfolding render_windows_command_line_def by (rule parse_windows_arguments)

text \<open>C31: A systemd unit is read as a definition exactly when it is the unit written for it: a definition made by Core, with
  text in UTF-8 and no white space outside ASCII in its command, is what its own unit file is read as, under its own
  identifier, and no other file or identifier is read as that definition.\<close>

theorem systemd_unit_reads_back:
  assumes "systemd_expressible env d"
  shows "parse_unit_definition env i c = Inr d \<longleftrightarrow> c = render_systemd_unit d \<and> i = def_service_id d"
  by (rule systemd.parse_exactly [OF assms])

definition spaced_service :: service_env where
  "spaced_service =
     \<lparr>fingerprint_bytes = (\<lambda>_. Inr []), service_sha256 = id, encode_journal = (\<lambda>_. Inr []),
      decode_journal = (\<lambda>_. Inl ServiceStateUnconfirmed), file_guard = Inr (), attempt_path = ''/s/attempt.json''\<rparr>"

definition spaced_definition :: "service_manager_kind \<Rightarrow> service_definition" where
  "spaced_definition m =
     \<lparr>def_manager = m, def_service_id = ''k'', def_executable = ''/opt/kakune core'',
      def_arguments = [''service'', ''run'', ''--data-dir'', ''/var/$x & 100%''], def_account = ''root'',
      def_boot = Automatic, def_data_dir = ''/var/$x & 100%'', def_fingerprint = Some []\<rparr>"

lemma spaced_fields: "validate_fields ((spaced_definition m)\<lparr>def_fingerprint := None\<rparr>) = Inr ()"
proof (cases m)
  case WindowsScm
  show ?thesis unfolding WindowsScm by code_simp
next
  case LinuxSystemd
  show ?thesis unfolding LinuxSystemd by code_simp
next
  case MacosLaunchd
  show ?thesis unfolding MacosLaunchd by code_simp
qed

lemma spaced_made: "made_by spaced_service (spaced_definition m)"
proof -
  let ?d = "(spaced_definition m)\<lparr>def_fingerprint := None\<rparr>"
  have "fingerprint spaced_service ?d = Inr []"
    using spaced_fields [of m] by (simp add: fingerprint_def) (simp add: spaced_service_def hex_lower_def)
  then show ?thesis
    using spaced_fields [of m]
    by (simp add: made_by_def new_definition_def validate_definition_def Let_def spaced_definition_def)
qed

theorem systemd_unit_reads_back_witness:
  "parse_unit_definition spaced_service ''k'' (render_systemd_unit (spaced_definition LinuxSystemd))
    = Inr (spaced_definition LinuxSystemd)"
proof -
  have "valid_utf8 (def_data_dir (spaced_definition LinuxSystemd)) \<and> list_all (\<lambda>s. valid_utf8 s \<and> \<not> has_wide_space s)
      (def_executable (spaced_definition LinuxSystemd) # def_arguments (spaced_definition LinuxSystemd))"
    by code_simp
  then have "systemd_expressible spaced_service (spaced_definition LinuxSystemd)"
    using spaced_made [of LinuxSystemd] by (simp add: systemd_expressible_def) (simp add: spaced_definition_def)
  from systemd_unit_reads_back [OF this, of "''k''" "render_systemd_unit (spaced_definition LinuxSystemd)"] show ?thesis
    by (simp add: spaced_definition_def)
qed

end
