(* ===== verification/Service_Plist.thy ===== *)
theory Service_Plist
  imports Service_Native
begin

text \<open>
  The property list of the macOS service manager (\<open>render_launchd_plist\<close> of \<open>src/lifecycle/service/mod.rs\<close>,
  \<open>parse_plist_definition\<close> of \<open>src/lifecycle/service/macos.rs\<close>): XML escapes, searching in text, and that a list is
  read back as the definition it was written for.
\<close>

section \<open>Searching and replacing\<close>

text \<open>\<open>str::find\<close> and \<open>str::split_once\<close> with a string: what is before and after its first occurrence.\<close>

fun split_str :: "string \<Rightarrow> string \<Rightarrow> (string \<times> string) option" where
  "split_str n [] = (if n = [] then Some ([], []) else None)"
| "split_str n (c # s) =
     (if starts_with (c # s) n then Some ([], drop (length n) (c # s))
      else map_option (\<lambda>(a, b). (c # a, b)) (split_str n s))"

lemma split_str_append: "split_str n s = Some (a, b) \<Longrightarrow> s = a @ n @ b"
proof (induction s arbitrary: a)
  case (Cons c s)
  then show ?case by (auto simp: starts_with_prefix prefix_def split: if_splits)
qed (simp split: if_splits)

lemma contains_split: "contains_str s n \<longleftrightarrow> split_str n s \<noteq> None"
  by (induction s) auto

text \<open>\<open>str::split\<close> with a string that is not empty.\<close>

function split_all :: "string \<Rightarrow> string \<Rightarrow> string list" where
  "split_all n s =
     (if n = [] then [s] else (case split_str n s of None \<Rightarrow> [s] | Some (a, b) \<Rightarrow> a # split_all n b))"
  by pat_completeness auto

termination split_all
  by (relation "measure (\<lambda>(n, s). length s)") (auto dest: split_str_append)

declare split_all.simps [simp del]

text \<open>\<open>str::replace\<close>\<close>

function replace_str :: "string \<Rightarrow> string \<Rightarrow> string \<Rightarrow> string" where
  "replace_str p r [] = []"
| "replace_str p r (c # s) =
     (if starts_with (c # s) p then r @ replace_str p r (drop (length p - 1) s) else c # replace_str p r s)"
  by pat_completeness auto

termination replace_str
  by (relation "measure (\<lambda>(p, r, s). length s)") auto

section \<open>XML escapes\<close>

definition xml_escape :: "string \<Rightarrow> string" where
  "xml_escape s =
     replace_str [CHR 0x27] ''&apos;'' (replace_str [quote] ''&quot;''
       (replace_str ''>'' ''&gt;'' (replace_str ''<'' ''&lt;'' (replace_str ''&'' ''&amp;'' s))))"

definition xml_entities :: "(string \<times> string) list" where
  "xml_entities = [(''&quot;'', [quote]), (''&apos;'', [CHR 0x27]), (''&gt;'', ''>''), (''&lt;'', ''<''), (''&amp;'', ''&'')]"

definition xml_unescape :: "string \<Rightarrow> string lifecycle_result" where
  "xml_unescape s =
     (let out = foldl (\<lambda>t (e, c). replace_str e c t) s xml_entities;
          rest = foldl (\<lambda>t (e, c). replace_str e [] t) s xml_entities
      in rbind (require (\<not> contains_str rest ''&'')
           (UnsafeOwnership ''launchd plist contains an unsupported XML entity'')) (\<lambda>_. Inr out))"

text \<open>Escaping works on each character.\<close>

definition xml_char :: "char \<Rightarrow> string" where
  "xml_char c =
     (if c = CHR ''&'' then ''&amp;'' else if c = CHR ''<'' then ''&lt;'' else if c = CHR ''>'' then ''&gt;''
      else if c = quote then ''&quot;'' else if c = CHR 0x27 then ''&apos;'' else [c])"

lemma replace_char: "replace_str [x] r s = concat (map (\<lambda>c. if c = x then r else [c]) s)"
  by (induction s) auto

lemma concat_map_concat: "concat (map f (concat (map g s))) = concat (map (\<lambda>c. concat (map f (g c))) s)"
  by (induction s) auto

lemma xml_escape_chars: "xml_escape s = concat (map xml_char s)"
  unfolding xml_escape_def replace_char concat_map_concat
  by (rule arg_cong [where f = concat], rule map_cong) (auto simp: xml_char_def)

text \<open>Replacing a pattern in a text made of pieces none of which it crosses.\<close>

lemma replace_pieces:
  assumes "\<And>c r. replace_str p q (f c @ r) = g c @ replace_str p q r"
  shows "replace_str p q (concat (map f s)) = concat (map g s)"
  by (induction s) (simp_all add: assms)

lemma replace_skip: "CHR ''&'' \<notin> set a \<Longrightarrow> replace_str (CHR ''&'' # p) q (a @ r) = a @ replace_str (CHR ''&'' # p) q r"
  by (induction a) auto

lemma special_cases:
  obtains "c = CHR ''&''" | "c = CHR ''<''" | "c = CHR ''>''" | "c = quote" | "c = CHR 0x27"
    | "c \<notin> {CHR ''&'', CHR ''<'', CHR ''>'', quote, CHR 0x27}"
  by auto

text \<open>The characters of \<open>S\<close> are unescaped already.\<close>

definition stage :: "char set \<Rightarrow> (char \<Rightarrow> string) \<Rightarrow> char \<Rightarrow> string" where
  "stage S g c = (if c \<in> S then g c else xml_char c)"

lemma stage_step:
  assumes "x \<in> {CHR ''&'', CHR ''<'', CHR ''>'', quote, CHR 0x27}" "x \<notin> S" "\<And>c. c \<in> S \<Longrightarrow> CHR ''&'' \<notin> set (g c)"
  shows "replace_str (xml_char x) (g x) (concat (map (stage S g) s)) = concat (map (stage (insert x S) g) s)"
proof (rule replace_pieces)
  fix c r
  obtain p where p: "xml_char x = CHR ''&'' # p" using assms(1) by (auto simp: xml_char_def)
  consider "c \<in> S" | "c = x" "c \<notin> S" | "c \<notin> S" "c \<noteq> x" by blast
  then show "replace_str (xml_char x) (g x) (stage S g c @ r) = stage (insert x S) g c @ replace_str (xml_char x) (g x) r"
  proof cases
    case 1
    with assms(2,3) show ?thesis by (auto simp: stage_def p replace_skip)
  next
    case 2
    with assms(1) show ?thesis by (auto simp: stage_def xml_char_def)
  next
    case 3
    then have "stage S g c = xml_char c" "stage (insert x S) g c = xml_char c" by (simp_all add: stage_def)
    moreover have "replace_str (xml_char x) (g x) (xml_char c @ r) = xml_char c @ replace_str (xml_char x) (g x) r"
      using assms(1) 3(2) by (cases c rule: special_cases) (auto simp: xml_char_def)
    ultimately show ?thesis by simp
  qed
qed

lemma undo_stages_of:
  assumes "\<And>c. c \<noteq> CHR ''&'' \<Longrightarrow> CHR ''&'' \<notin> set (g c)"
  shows "\<lbrakk>set xs \<subseteq> {CHR ''&'', CHR ''<'', CHR ''>'', quote, CHR 0x27}; distinct xs; set xs \<inter> S = {}; CHR ''&'' \<notin> S;
      CHR ''&'' \<notin> set (butlast xs)\<rbrakk>
    \<Longrightarrow> foldl (\<lambda>t x. replace_str (xml_char x) (g x) t) (concat (map (stage S g) s)) xs = concat (map (stage (set xs \<union> S) g) s)"
proof (induction xs arbitrary: S)
  case (Cons x xs)
  have step: "replace_str (xml_char x) (g x) (concat (map (stage S g) s)) = concat (map (stage (insert x S) g) s)"
  proof (rule stage_step)
    show "CHR ''&'' \<notin> set (g c)" if "c \<in> S" for c using that Cons.prems(4) by (intro assms) blast
  qed (use Cons.prems(1,3) in simp_all)
  show ?case
  proof (cases "xs = []")
    case True
    with step show ?thesis by simp
  next
    case False
    with Cons.prems have "foldl (\<lambda>t x. replace_str (xml_char x) (g x) t) (concat (map (stage (insert x S) g) s)) xs
        = concat (map (stage (set xs \<union> insert x S) g) s)"
      by (intro Cons.IH) auto
    with step show ?thesis by simp
  qed
qed simp

lemma xml_entities_chars: "xml_entities = map (\<lambda>x. (xml_char x, [x])) [quote, CHR 0x27, CHR ''>'', CHR ''<'', CHR ''&'']"
  by (simp add: xml_entities_def xml_char_def)

lemma undo_stages:
  assumes "\<And>c. c \<noteq> CHR ''&'' \<Longrightarrow> CHR ''&'' \<notin> set (g c)"
  shows "foldl (\<lambda>t (e, c). replace_str e (g (hd c)) t) (xml_escape s) xml_entities
    = concat (map (stage {CHR ''&'', CHR ''<'', CHR ''>'', CHR 0x27, quote} g) s)"
proof -
  let ?xs = "[quote, CHR 0x27, CHR ''>'', CHR ''<'', CHR ''&'']"
  have "foldl (\<lambda>t x. replace_str (xml_char x) (g x) t) (concat (map (stage {} g) s)) ?xs = concat (map (stage (set ?xs \<union> {}) g) s)"
    by (rule undo_stages_of [OF assms]) auto
  moreover have "set ?xs \<union> {} = {CHR ''&'', CHR ''<'', CHR ''>'', CHR 0x27, quote}" by auto
  moreover have "stage {} g = xml_char" by (rule ext) (simp add: stage_def)
  moreover note xml_escape_chars [of s]
  ultimately show ?thesis by (simp only: xml_entities_chars foldl_map case_prod_conv list.sel)
qed

lemma unescape_escape: "xml_unescape (xml_escape s) = Inr s"
proof -
  let ?all = "{CHR ''&'', CHR ''<'', CHR ''>'', CHR 0x27, quote}"
  have ent: "(\<lambda>t (e, c). replace_str e c t) t x = (\<lambda>t (e, c). replace_str e [hd c] t) t x" if "x \<in> set xml_entities" for t x
    using that by (auto simp: xml_entities_def)
  have "foldl (\<lambda>t (e, c). replace_str e c t) (xml_escape s) xml_entities
      = foldl (\<lambda>t (e, c). replace_str e [hd c] t) (xml_escape s) xml_entities"
    by (rule foldl_cong) (simp_all only: ent)
  also have "\<dots> = concat (map (stage ?all (\<lambda>c. [c])) s)" by (rule undo_stages) simp
  also have "stage ?all (\<lambda>c. [c]) = (\<lambda>c. [c])" by (auto simp: stage_def xml_char_def)
  finally have out: "foldl (\<lambda>t (e, c). replace_str e c t) (xml_escape s) xml_entities = s" by simp
  have "foldl (\<lambda>t (e, c). replace_str e [] t) (xml_escape s) xml_entities = concat (map (stage ?all (\<lambda>_. [])) s)"
    by (rule undo_stages) simp
  moreover have "CHR ''&'' \<notin> set (stage ?all (\<lambda>_. []) c)" for c by (auto simp: stage_def xml_char_def)
  ultimately have "CHR ''&'' \<notin> set (foldl (\<lambda>t (e, c). replace_str e [] t) (xml_escape s) xml_entities)" by simp
  moreover have "contains_str t ''&'' \<longleftrightarrow> CHR ''&'' \<in> set t" for t by (induction t) auto
  ultimately show ?thesis by (simp add: xml_unescape_def Let_def out require_def)
qed

lemma escape_no_angle: "CHR ''<'' \<notin> set (xml_escape s)"
  by (auto simp: xml_escape_chars xml_char_def split: if_splits)

text \<open>No occurrence of \<open>n\<close> begins in a text, whatever follows it.\<close>

fun misses :: "string \<Rightarrow> string \<Rightarrow> bool" where
  "misses n [] = True"
| "misses n (c # a) = (\<not> starts_with (c # a) n \<and> \<not> starts_with n (c # a) \<and> misses n a)"

lemma misses_starts: "\<not> starts_with a n \<Longrightarrow> \<not> starts_with n a \<Longrightarrow> \<not> starts_with (a @ b) n"
  by (auto simp: starts_with_prefix prefix_append)

lemma misses_append [intro]: "misses n a \<Longrightarrow> misses n b \<Longrightarrow> misses n (a @ b)"
proof (induction a)
  case (Cons c a)
  then show ?case using misses_starts [of "c # a" n b] append_prefixD [of "c # a" b n] by (auto simp: starts_with_prefix)
qed simp

lemma misses_without: "x \<notin> set a \<Longrightarrow> misses (x # n) a"
  by (induction a) auto

lemma misses_escaped [intro]: "misses (CHR ''<'' # n) (xml_escape s)"
  by (rule misses_without) (rule escape_no_angle)

lemma split_str_at:
  assumes "n \<noteq> []" and "misses n a"
  shows "split_str n (a @ n @ b) = Some (a, b)"
  using assms(2)
proof (induction a)
  case Nil
  from assms(1) obtain c m where n: "n = c # m" by (cases n) auto
  then have "starts_with (n @ b) n" by (simp add: starts_with_prefix)
  with n show ?case by simp
next
  case (Cons c a)
  then show ?case using misses_starts [of "c # a" n "n @ b"] by simp
qed

lemma split_str_none: "n \<noteq> [] \<Longrightarrow> misses n a \<Longrightarrow> split_str n a = None"
  by (induction a) auto

lemma split_all_at: "n \<noteq> [] \<Longrightarrow> misses n a \<Longrightarrow> split_all n (a @ n @ b) = a # split_all n b"
  by (simp add: split_all.simps [of n "a @ n @ b"] split_str_at)

lemma split_all_none: "n \<noteq> [] \<Longrightarrow> misses n a \<Longrightarrow> split_all n a = [a]"
  by (simp add: split_all.simps [of n a] split_str_none)

section \<open>The property list\<close>

definition in_quotes :: "string \<Rightarrow> string" where
  "in_quotes s = quote # s @ [quote]"

definition plist_lines :: "service_definition \<Rightarrow> string list" where
  "plist_lines d =
     [''<?xml version='' @ in_quotes ''1.0'' @ '' encoding='' @ in_quotes ''UTF-8'' @ ''?>'',
      ''<!DOCTYPE plist PUBLIC '' @ in_quotes ''-//Apple//DTD PLIST 1.0//EN'' @ '' ''
        @ in_quotes ''http://www.apple.com/DTDs/PropertyList-1.0.dtd'' @ ''>'',
      ''<plist version='' @ in_quotes ''1.0'' @ ''><dict>'',
      ''  <key>Label</key><string>'' @ xml_escape (def_service_id d) @ ''</string>'',
      ''  <key>UserName</key><string>'' @ xml_escape (def_account d) @ ''</string>'',
      ''  <key>ProgramArguments</key><array>'']
     @ map (\<lambda>a. ''    <string>'' @ xml_escape a @ ''</string>'') (def_executable d # def_arguments d)
     @ [''  </array>'', ''  <key>RunAtLoad</key><true/>'', ''  <key>KeepAlive</key><true/>'',
        ''  <key>ExitTimeOut</key><integer>0</integer>'',
        ''  <key>StandardOutPath</key><string>/var/log/kakune-core.log</string>'',
        ''  <key>StandardErrorPath</key><string>/var/log/kakune-core.log</string>'', ''</dict></plist>'']"

definition render_launchd_plist :: "service_definition \<Rightarrow> string" where
  "render_launchd_plist d = line_text (plist_lines d)"

definition xml_value_after_key :: "string \<Rightarrow> string \<Rightarrow> string lifecycle_result" where
  "xml_value_after_key contents key =
     rbind (ok_or (split_str (''<key>'' @ key @ ''</key><string>'') contents)
         (ConflictingServiceDefinition (''launchd plist has no '' @ key @ '' field''))) (\<lambda>(_, rest).
     rbind (ok_or (split_str ''</string>'' rest)
         (ConflictingServiceDefinition (''launchd '' @ key @ '' field is unterminated''))) (\<lambda>(v, _). xml_unescape v))"

fun plist_arguments :: "string list \<Rightarrow> string list lifecycle_result" where
  "plist_arguments [] = Inr []"
| "plist_arguments (p # ps) =
     rbind (ok_or (split_str ''</string>'' p) (ConflictingServiceDefinition ''launchd argument is malformed'')) (\<lambda>(v, _).
     rbind (xml_unescape v) (\<lambda>a. rbind (plist_arguments ps) (\<lambda>as. Inr (a # as))))"

text \<open>\<open>arguments.windows(2).find(\<dots>)\<close>\<close>

fun value_after :: "string \<Rightarrow> string list \<Rightarrow> string option" where
  "value_after k (a # b # r) = (if a = k then Some b else value_after k (b # r))"
| "value_after k _ = None"

definition plist_markers :: "string list" where
  "plist_markers =
     [''<key>RunAtLoad</key><true/>'', ''<key>KeepAlive</key><true/>'', ''<key>ExitTimeOut</key><integer>0</integer>'']"

definition program_arguments :: "string \<Rightarrow> string list lifecycle_result" where
  "program_arguments contents =
     rbind (ok_or (split_str ''<key>ProgramArguments</key><array>'' contents)
         (ConflictingServiceDefinition ''launchd plist has no ProgramArguments array'')) (\<lambda>(_, rest).
     rbind (ok_or (split_str ''</array>'' rest)
         (ConflictingServiceDefinition ''launchd ProgramArguments array is unterminated'')) (\<lambda>(body, _).
       plist_arguments (drop 1 (split_all ''<string>'' body))))"

definition parse_plist_definition :: "service_env \<Rightarrow> string \<Rightarrow> string \<Rightarrow> service_definition lifecycle_result" where
  "parse_plist_definition env i contents =
     rbind (require (list_all (contains_str contents) plist_markers \<and> \<not> contains_str contents ''/bin/sh'')
         (ConflictingServiceDefinition ''launchd plist does not match Kakune's protected system definition'')) (\<lambda>_.
     rbind (xml_value_after_key contents ''Label'') (\<lambda>label.
     rbind (xml_value_after_key contents ''UserName'') (\<lambda>account.
     rbind (require (label = i)
         (ConflictingServiceDefinition ''launchd plist label does not match its native identifier'')) (\<lambda>_.
     rbind (program_arguments contents) (\<lambda>words.
     case words of
       [] \<Rightarrow> Inl (ConflictingServiceDefinition ''launchd ProgramArguments is empty'')
     | exe # args \<Rightarrow>
         rbind (ok_or (value_after ''--data-dir'' args)
           (ConflictingServiceDefinition ''launchd definition does not identify the data directory'')) (\<lambda>dir.
         rbind (new_definition env MacosLaunchd i exe args account dir) (\<lambda>d.
         rbind (validate_definition env d) (\<lambda>_.
         rbind (require (render_launchd_plist d = contents)
           (ConflictingServiceDefinition ''launchd plist contains fields outside Kakune's verified definition'')) (\<lambda>_.
           Inr d)))))))))"

subsection \<open>Reading a list back\<close>

definition launchd_expressible :: "service_env \<Rightarrow> service_definition \<Rightarrow> bool" where
  "launchd_expressible env d \<longleftrightarrow>
     def_manager d = MacosLaunchd \<and> made_by env d \<and> def_arguments d ! 3 = def_data_dir d
   \<and> \<not> contains_str (render_launchd_plist d) ''/bin/sh''"

text \<open>The fixed parts of the text.\<close>

definition plist_head :: string where
  "plist_head = ''<?xml version='' @ in_quotes ''1.0'' @ '' encoding='' @ in_quotes ''UTF-8'' @ ''?>'' @ newline #
    ''<!DOCTYPE plist PUBLIC '' @ in_quotes ''-//Apple//DTD PLIST 1.0//EN'' @ '' ''
        @ in_quotes ''http://www.apple.com/DTDs/PropertyList-1.0.dtd'' @ ''>'' @ newline #
    ''<plist version='' @ in_quotes ''1.0'' @ ''><dict>'' @ newline # ''  ''"

definition plist_tail :: string where
  "plist_tail = newline # ''  <key>RunAtLoad</key><true/>'' @ newline # ''  <key>KeepAlive</key><true/>'' @ newline #
    ''  <key>ExitTimeOut</key><integer>0</integer>'' @ newline #
    ''  <key>StandardOutPath</key><string>/var/log/kakune-core.log</string>'' @ newline #
    ''  <key>StandardErrorPath</key><string>/var/log/kakune-core.log</string>'' @ newline # ''</dict></plist>'' @ [newline]"

abbreviation next_key :: string where "next_key \<equiv> ''</string>'' @ newline # ''  ''"

abbreviation next_argument :: string where "next_argument \<equiv> ''</string>'' @ newline # ''    ''"

fun argument_text :: "string list \<Rightarrow> string" where
  "argument_text [] = []"
| "argument_text (a # as) = ''<string>'' @ xml_escape a @ (if as = [] then next_key else next_argument) @ argument_text as"

lemma argument_lines:
  "as \<noteq> [] \<Longrightarrow> line_text (map (\<lambda>a. ''    <string>'' @ xml_escape a @ ''</string>'') as) @ ''  '' @ r = ''    '' @ argument_text as @ r"
proof (induction as)
  case (Cons a as)
  then show ?case by (cases "as = []") simp_all
qed simp

lemma plist_text:
  "render_launchd_plist d =
     plist_head @ ''<key>Label</key><string>'' @ xml_escape (def_service_id d) @ next_key
     @ ''<key>UserName</key><string>'' @ xml_escape (def_account d) @ next_key
     @ ''<key>ProgramArguments</key><array>'' @ (newline # ''    '') @ argument_text (def_executable d # def_arguments d)
     @ ''</array>'' @ plist_tail"
proof -
  have "line_text (map (\<lambda>a. ''    <string>'' @ xml_escape a @ ''</string>'') (def_executable d # def_arguments d)) @ ''  '' @ r
      = ''    '' @ argument_text (def_executable d # def_arguments d) @ r" for r
    by (rule argument_lines) simp
  then show ?thesis
    by (simp add: render_launchd_plist_def plist_lines_def plist_head_def plist_tail_def
        del: argument_text.simps list.map in_quotes_def)
qed

abbreviation label_key :: string where "label_key \<equiv> ''<key>Label</key><string>''"
abbreviation user_key :: string where "user_key \<equiv> ''<key>UserName</key><string>''"
abbreviation array_key :: string where "array_key \<equiv> ''<key>ProgramArguments</key><array>''"

lemma fixed_parts:
  "misses label_key plist_head" "misses user_key plist_head" "misses array_key plist_head"
  "misses user_key (label_key @ [])" "misses array_key label_key" "misses array_key user_key"
  "misses user_key next_key" "misses array_key next_key" "misses ''</array>'' (newline # ''    '')"
  "misses ''</array>'' ''<string>''" "misses ''</array>'' next_key" "misses ''</array>'' next_argument"
  "misses ''<string>'' (newline # ''    '')" "misses ''<string>'' next_key" "misses ''<string>'' next_argument"
  by code_simp+

lemma misses_arguments: "misses ''</array>'' (argument_text as)"
proof (induction as)
  case (Cons a as)
  have "misses ''</array>'' (''<string>'' @ xml_escape a @ (if as = [] then next_key else next_argument) @ argument_text as)"
    using Cons fixed_parts(10-12) by (intro misses_append misses_escaped) auto
  then show ?case by (simp only: argument_text.simps)
qed simp

lemma value_of_key:
  assumes "misses (''<key>'' @ key @ ''</key><string>'') a" and "contents = a @ (''<key>'' @ key @ ''</key><string>'') @ xml_escape v @ ''</string>'' @ r"
  shows "xml_value_after_key contents key = Inr v"
proof -
  have "split_str (''<key>'' @ key @ ''</key><string>'') contents = Some (a, xml_escape v @ ''</string>'' @ r)"
    unfolding assms(2) by (rule split_str_at) (use assms(1) in simp_all)
  moreover have "split_str ''</string>'' (xml_escape v @ ''</string>'' @ r) = Some (xml_escape v, r)"
    by (rule split_str_at) auto
  ultimately show ?thesis by (simp only: xml_value_after_key_def) (simp add: unescape_escape)
qed

lemma split_arguments:
  "plist_arguments (split_all ''<string>'' (xml_escape a @ (if as = [] then next_key else next_argument) @ argument_text as))
    = Inr (a # as)"
proof (induction as arbitrary: a)
  case Nil
  have "misses ''<string>'' (xml_escape a @ next_key)" by (rule misses_append [OF misses_escaped fixed_parts(14)])
  then have "split_all ''<string>'' (xml_escape a @ next_key) = [xml_escape a @ next_key]" by (intro split_all_none) simp_all
  moreover have "split_str ''</string>'' (xml_escape a @ ''</string>'' @ newline # ''  '') = Some (xml_escape a, newline # ''  '')"
    by (rule split_str_at) auto
  ultimately show ?case by (simp add: unescape_escape)
next
  case (Cons b as)
  have "misses ''<string>'' (xml_escape a @ next_argument)" by (rule misses_append [OF misses_escaped fixed_parts(15)])
  then have "split_all ''<string>'' ((xml_escape a @ next_argument) @ ''<string>'' @ r) = (xml_escape a @ next_argument) # split_all ''<string>'' r" for r
    by (intro split_all_at) simp_all
  moreover have "split_str ''</string>'' (xml_escape a @ ''</string>'' @ newline # ''    '') = Some (xml_escape a, newline # ''    '')"
    by (rule split_str_at) auto
  ultimately show ?case using Cons.IH [of b] by (simp add: unescape_escape)
qed

lemma plist_program: "program_arguments (render_launchd_plist d) = Inr (def_executable d # def_arguments d)"
proof -
  let ?words = "def_executable d # def_arguments d"
  let ?a = "plist_head @ label_key @ xml_escape (def_service_id d) @ next_key @ user_key @ xml_escape (def_account d) @ next_key"
  let ?body = "(newline # ''    '') @ argument_text ?words"
  have "misses array_key ?a" using fixed_parts by (intro misses_append misses_escaped) auto
  then have "split_str array_key (?a @ array_key @ ?body @ ''</array>'' @ plist_tail) = Some (?a, ?body @ ''</array>'' @ plist_tail)"
    by (intro split_str_at) simp_all
  moreover have "render_launchd_plist d = ?a @ array_key @ ?body @ ''</array>'' @ plist_tail"
    by (simp only: plist_text append_assoc)
  moreover have "misses ''</array>'' ?body" using fixed_parts(9) by (intro misses_append misses_arguments)
  then have "split_str ''</array>'' (?body @ ''</array>'' @ plist_tail) = Some (?body, plist_tail)"
    by (intro split_str_at) simp_all
  moreover have "split_all ''<string>'' ((newline # ''    '') @ ''<string>'' @ r) = (newline # ''    '') # split_all ''<string>'' r" for r
    using fixed_parts(13) by (intro split_all_at) simp_all
  then have "plist_arguments (drop 1 (split_all ''<string>'' ?body)) = Inr ?words"
    using split_arguments [of "def_executable d" "def_arguments d"] by simp
  ultimately show ?thesis by (simp only: program_arguments_def ok_or_simps rbind_simps case_prod_conv)
qed

lemma plist_values:
  "xml_value_after_key (render_launchd_plist d) ''Label'' = Inr (def_service_id d)"
  "xml_value_after_key (render_launchd_plist d) ''UserName'' = Inr (def_account d)"
proof -
  let ?r = "newline # ''  '' @ user_key @ xml_escape (def_account d) @ next_key @ array_key @ (newline # ''    '')
    @ argument_text (def_executable d # def_arguments d) @ ''</array>'' @ plist_tail"
  let ?t = "newline # ''  '' @ array_key @ (newline # ''    '')
    @ argument_text (def_executable d # def_arguments d) @ ''</array>'' @ plist_tail"
  show "xml_value_after_key (render_launchd_plist d) ''Label'' = Inr (def_service_id d)"
    by (rule value_of_key [of _ plist_head _ _ ?r]) (use fixed_parts(1) in simp, simp add: plist_text del: argument_text.simps)
  have "misses user_key (plist_head @ label_key @ xml_escape (def_service_id d) @ next_key)"
    using fixed_parts by (intro misses_append misses_escaped) auto
  then show "xml_value_after_key (render_launchd_plist d) ''UserName'' = Inr (def_account d)"
    by (intro value_of_key [of _ "plist_head @ label_key @ xml_escape (def_service_id d) @ next_key" _ _ ?t])
      (simp_all add: plist_text del: argument_text.simps)
qed

lemma contains_middle: "contains_str (a @ n @ b) n"
proof (induction a)
  case Nil
  have "starts_with (n @ b) n" by (simp add: starts_with_prefix)
  then show ?case by (cases "n @ b") auto
qed simp

lemma contains_append: "contains_str b n \<Longrightarrow> contains_str (a @ b) n"
  by (induction a) auto

lemma plist_marked: "list_all (contains_str (render_launchd_plist d)) plist_markers"
proof -
  have "list_all (contains_str plist_tail) plist_markers" by code_simp
  then show ?thesis by (auto simp: list_all_iff plist_text intro!: contains_append simp del: append_Cons append_Nil)
qed

lemma parse_rendered_plist:
  assumes "launchd_expressible env d"
  shows "parse_plist_definition env (def_service_id d) (render_launchd_plist d) = Inr d"
proof -
  from assms have made: "new_definition env MacosLaunchd (def_service_id d) (def_executable d) (def_arguments d)
      (def_account d) (def_data_dir d) = Inr d"
    and "def_arguments d ! 3 = def_data_dir d" and no_shell: "\<not> contains_str (render_launchd_plist d) ''/bin/sh''"
    by (auto simp: launchd_expressible_def made_by_def)
  note d = new_definition_Inr [OF made]
  from validate_fields_Inr(4) [OF d(2)] \<open>def_arguments d ! 3 = def_data_dir d\<close>
  have "value_after ''--data-dir'' (def_arguments d) = Some (def_data_dir d)" by auto
  with made d(3) no_shell show ?thesis
    by (simp add: parse_plist_definition_def plist_marked plist_values plist_program require_def [of True])
qed

lemma parsed_plist_Inr:
  assumes "parse_plist_definition env i c = Inr d"
  shows "render_launchd_plist d = c" "def_service_id d = i"
proof -
  from assms obtain exe args account dir where "new_definition env MacosLaunchd i exe args account dir = Inr d"
    "render_launchd_plist d = c"
    by (auto simp: parse_plist_definition_def result_simps neq_Nil_conv split: list.split_asm)
  with arg_cong [OF new_definition_Inr(1), of _ _ i _ _ _ _ d def_service_id] show "render_launchd_plist d = c" "def_service_id d = i"
    by simp_all
qed

interpretation launchd: native_format render_launchd_plist "parse_plist_definition env" "launchd_expressible env" for env
  by unfold_locales (simp_all add: parse_rendered_plist parsed_plist_Inr)

definition render_service_definition :: "service_env \<Rightarrow> service_definition \<Rightarrow> string lifecycle_result" where
  "render_service_definition env d =
     rbind (validate_definition env d) (\<lambda>_.
       Inr (case def_manager d of
           WindowsScm \<Rightarrow> render_windows_command_line d
         | LinuxSystemd \<Rightarrow> render_systemd_unit d
         | MacosLaunchd \<Rightarrow> render_launchd_plist d))"

section \<open>Properties\<close>

text \<open>A property list is read as a definition exactly when it is the one written for it: a definition made by Core,
  whose last argument is its data directory and whose list nowhere mentions \<open>/bin/sh\<close>, is what its own list is read
  as, under its own label, whatever characters special to XML it contains, and no other file or label is read as that
  definition.\<close>

theorem launchd_plist_reads_back:
  assumes "launchd_expressible env d"
  shows "parse_plist_definition env i c = Inr d \<longleftrightarrow> c = render_launchd_plist d \<and> i = def_service_id d"
  by (rule launchd.parse_exactly [OF assms])

theorem launchd_plist_reads_back_witness:
  "parse_plist_definition spaced_service ''k'' (render_launchd_plist (spaced_definition MacosLaunchd))
    = Inr (spaced_definition MacosLaunchd)"
proof -
  have "\<not> contains_str (render_launchd_plist (spaced_definition MacosLaunchd)) ''/bin/sh''" by code_simp
  then have "launchd_expressible spaced_service (spaced_definition MacosLaunchd)"
    using spaced_made [of MacosLaunchd] by (simp add: launchd_expressible_def) (simp add: spaced_definition_def)
  from launchd_plist_reads_back [OF this, of "''k''" "render_launchd_plist (spaced_definition MacosLaunchd)"] show ?thesis
    by (simp add: spaced_definition_def)
qed

end
