(* ===== verification/Service_Linux.thy ===== *)
theory Service_Linux
  imports Service_Control Service_Plist
begin

text \<open>
  The systemd adapter (\<open>src/lifecycle/service/linux.rs\<close>, \<open>native.rs\<close> and the parsers of \<open>mod.rs\<close> beside it): what the
  output of the native manager means, how a unit is observed, and how a single step changes it.  The world of the
  adapter holds the unit file and whatever is outside Core, which is reached through the operations of a
  \<open>linux_os\<close>: running \<open>systemctl\<close>, the protection of the directory, faults of the disk, and the Core that owns the data
  directory.
\<close>

section \<open>Output of the native managers\<close>

definition to_ascii_uppercase :: "string \<Rightarrow> string" where
  "to_ascii_uppercase s = map (\<lambda>c. if is_ascii_lowercase c then char_of (byte c - 32) else c) s"

definition eq_ignore_ascii_case :: "string \<Rightarrow> string \<Rightarrow> bool" where
  "eq_ignore_ascii_case s t \<longleftrightarrow> to_ascii_lowercase s = to_ascii_lowercase t"

definition denied_phrases :: "string list" where
  "denied_phrases = [''access is denied'', ''permission denied'', ''operation not permitted'', ''not authorized'']"

definition unavailable_phrases :: "string list" where
  "unavailable_phrases = [''failed to connect to bus'', ''system has not been booted'']"

definition reported_fault :: "string \<Rightarrow> string \<Rightarrow> unit lifecycle_result" where
  "reported_fault lower output =
     rbind (require (\<not> list_ex (contains_str lower) denied_phrases) (AccessDenied (trim output))) (\<lambda>_.
       require (\<not> list_ex (contains_str lower) unavailable_phrases) (ManagerUnavailable (trim output)))"

text \<open>\<open>find_map\<close>\<close>

fun find_map :: "('a \<Rightarrow> 'b option) \<Rightarrow> 'a list \<Rightarrow> 'b option" where
  "find_map f [] = None"
| "find_map f (x # xs) = (case f x of None \<Rightarrow> find_map f xs | Some y \<Rightarrow> Some y)"

text \<open>\<open>u32::from_str_radix(hex, 16)\<close>\<close>

definition parse_hex_u32 :: "string \<Rightarrow> nat option" where
  "parse_hex_u32 s =
     (let ds = (case s of [] \<Rightarrow> [] | c # r \<Rightarrow> if c = CHR ''+'' then r else s)
      in if ds \<noteq> [] \<and> list_all (\<lambda>c. hex_value c \<noteq> None) ds
            \<and> foldl (\<lambda>n c. 16 * n + the (hex_value c)) 0 ds \<le> u32_max
         then Some (foldl (\<lambda>n c. 16 * n + the (hex_value c)) 0 ds) else None)"

definition scm_code :: "string \<Rightarrow> string \<Rightarrow> nat option" where
  "scm_code output label =
     find_map (\<lambda>line. case split_once CHR '':'' line of
         None \<Rightarrow> None
       | Some (name, v) \<Rightarrow>
           (if \<not> eq_ignore_ascii_case (trim name) label then None
            else (case split_whitespace v of
                [] \<Rightarrow> None
              | code # _ \<Rightarrow>
                  (case (if starts_with code ''0x'' then parse_hex_u32 (drop 2 code) else None) of
                     Some n \<Rightarrow> Some n | None \<Rightarrow> parse_u32 code)))) (text_lines output)"

definition scm_reports_failed_exit :: "string \<Rightarrow> bool" where
  "scm_reports_failed_exit output =
     (case scm_code output ''WIN32_EXIT_CODE'' of
        None \<Rightarrow> False
      | Some n \<Rightarrow>
          (if n = 0 then False
           else if n = 1066 then (case scm_code output ''SERVICE_EXIT_CODE'' of None \<Rightarrow> False | Some k \<Rightarrow> k \<noteq> 0)
           else True))"

definition scm_state :: "string \<Rightarrow> string option" where
  "scm_state output =
     find_map (\<lambda>line. case split_once CHR '':'' line of
         None \<Rightarrow> None
       | Some (name, v) \<Rightarrow>
           (if eq_ignore_ascii_case (trim name) ''state''
            then (case split_whitespace v of _ # s # _ \<Rightarrow> Some s | _ \<Rightarrow> None) else None)) (text_lines output)"

definition scm_manager_state :: "string \<Rightarrow> string \<Rightarrow> manager_state" where
  "scm_manager_state lower output =
     (case scm_state output of
        None \<Rightarrow> (if contains_str lower ''1060'' \<or> contains_str lower ''does not exist'' then ManagerStopped else ManagerUnknown)
      | Some s \<Rightarrow>
          (let st = to_ascii_uppercase s in
           if st = ''STOPPED'' then (if scm_reports_failed_exit output then ManagerFailed else ManagerStopped)
           else if st = ''START_PENDING'' then ManagerStarting
           else if st = ''RUNNING'' then ManagerRunning
           else if st = ''STOP_PENDING'' then ManagerStopping
           else if st = ''FAILED'' then ManagerFailed else ManagerUnknown))"

text \<open>The properties collected in a map: a later line replaces an earlier one.\<close>

definition unit_properties :: "string \<Rightarrow> (string \<times> string) list" where
  "unit_properties output = rev (List.map_filter (split_once CHR ''='') (text_lines output))"

definition systemd_manager_state :: "string \<Rightarrow> manager_state" where
  "systemd_manager_state output =
     (let prop = (\<lambda>k. case map_of (unit_properties output) k of None \<Rightarrow> [] | Some v \<Rightarrow> v);
          active = prop ''ActiveState''; sub = prop ''SubState''
      in if prop ''LoadState'' = ''not-found'' \<or> active = ''inactive'' \<and> sub = ''dead'' then ManagerStopped
         else if active = ''activating'' then ManagerStarting
         else if active = ''deactivating'' then ManagerStopping
         else if active = ''failed'' then ManagerFailed
         else if active = ''active'' \<and> sub = ''running'' then ManagerRunning else ManagerUnknown)"

definition launchd_manager_state :: "string \<Rightarrow> manager_state" where
  "launchd_manager_state lower =
     (if contains_str lower ''could not find service'' \<or> contains_str lower ''service not found'' then ManagerStopped
      else if contains_str lower ''state = running'' then ManagerRunning
      else if contains_str lower ''state = waiting'' then ManagerStopped
      else if contains_str lower ''state = spawn'' \<or> contains_str lower ''state = throttled'' then ManagerStarting
      else if contains_str lower ''state = stopping'' then ManagerStopping
      else if contains_str lower ''state = exited'' then ManagerFailed else ManagerUnknown)"

definition parse_manager_state :: "service_manager_kind \<Rightarrow> string \<Rightarrow> manager_state lifecycle_result" where
  "parse_manager_state m output =
     (let lower = to_ascii_lowercase output in
      rbind (reported_fault lower output) (\<lambda>_.
        Inr (case m of
            WindowsScm \<Rightarrow> scm_manager_state lower output
          | LinuxSystemd \<Rightarrow> systemd_manager_state output
          | MacosLaunchd \<Rightarrow> launchd_manager_state lower)))"

definition disabled_states :: "string list" where
  "disabled_states =
     [''disabled'', ''static'', ''indirect'', ''generated'', ''transient'', ''masked'', ''masked-runtime'',
      ''enabled-runtime'', ''linked'', ''linked-runtime'', ''alias'', ''not-found'']"

definition parse_systemd_enabled :: "string \<Rightarrow> bool \<Rightarrow> bool lifecycle_result" where
  "parse_systemd_enabled output succeeded =
     (let st = to_ascii_lowercase (trim output) in
      rbind (reported_fault st output) (\<lambda>_.
        if succeeded \<and> st = ''enabled'' then Inr True
        else if st \<in> set disabled_states then Inr False
        else Inl (ManagerUnavailable (if st = [] then ''systemctl is-enabled returned no state''
          else ''systemctl is-enabled returned an unrecognized state: '' @ st))))"

section \<open>Native definitions on disk\<close>

text \<open>A step runs alone on the unit file: the second look at the path before it is linked, which only differs from the
  first when somebody else creates the file in between, is not repeated.\<close>

record command_output =
  status_success :: bool
  exit_text :: string
  out_text :: string

definition require_success :: "command_output \<Rightarrow> string \<Rightarrow> string lifecycle_result" where
  "require_success out action =
     (if status_success out then Inr (out_text out)
      else if list_ex (contains_str (to_ascii_lowercase (out_text out))) denied_phrases
      then Inl (AccessDenied (trim (out_text out)))
      else Inl (ManagerUnavailable (action @ '' failed (exit '' @ exit_text out @ ''): '' @ trim (out_text out))))"

datatype unit_fault = NotPublished string | PublishedThenFailed string | NotRemoved string

record 'm linux_os =
  systemctl_present :: "('m, unit) native_op"
  run_systemctl :: "string list \<Rightarrow> deadline \<Rightarrow> ('m, command_output) native_op"
  unit_directory :: "('m, unit) native_op"
  unit_protection :: "('m, unit) native_op"
  unit_disk :: "'m \<Rightarrow> unit_fault option \<times> 'm"
  observe_core :: "string \<Rightarrow> deadline \<Rightarrow> ('m, core_observation option \<times> string option) native_op"

record 'm unit_world =
  unit_entry :: "dir_entry option"
  os :: 'm

type_synonym ('m, 'a) unit_act = "(lifecycle_error, 'm unit_world, 'a) fallible"

definition on_os :: "('m \<Rightarrow> 'a \<times> 'm) \<Rightarrow> 'm unit_world \<Rightarrow> 'a \<times> 'm unit_world" where
  "on_os f w = (case f (os w) of (x, m) \<Rightarrow> (x, w\<lparr>os := m\<rparr>))"

definition write_native_definition :: "'m linux_os \<Rightarrow> string \<Rightarrow> string \<Rightarrow> ('m, unit) unit_act" where
  "write_native_definition sys path contents =
     sbind (on_os (unit_directory sys)) (\<lambda>_ w.
       if unit_entry w \<noteq> None
       then (Inl (ConflictingServiceDefinition (path @ '' already exists outside this install attempt'')), w)
       else (case on_os (unit_disk sys) w of
           (Some (NotPublished e), w1) \<Rightarrow> (Inl (LifecycleIo e), w1)
         | (Some (PublishedThenFailed e), w1) \<Rightarrow> (Inl (LifecycleIo e), w1\<lparr>unit_entry := Some (RegularFile contents)\<rparr>)
         | (_, w1) \<Rightarrow> (Inr (), w1\<lparr>unit_entry := Some (RegularFile contents)\<rparr>)))"

definition remove_native_definition :: "'m linux_os \<Rightarrow> string \<Rightarrow> ('m, bool) unit_act" where
  "remove_native_definition sys expected =
     sbind (on_os (unit_directory sys)) (\<lambda>_ w.
       case unit_entry w of
         None \<Rightarrow> (Inr False, w)
       | Some (RegularFile actual) \<Rightarrow>
           (if actual \<noteq> expected
            then (Inl (ConflictingServiceDefinition ''native definition changed after ownership was observed''), w)
            else (case on_os (unit_disk sys) w of
                (Some (NotRemoved e), w1) \<Rightarrow> (Inl (LifecycleIo e), w1)
              | (_, w1) \<Rightarrow> (Inr True, w1\<lparr>unit_entry := None\<rparr>)))
       | Some _ \<Rightarrow> (Inl (UnsafeOwnership ''native definition is redirected or is not a regular file''), w))"

definition read_native_definition :: "'m linux_os \<Rightarrow> string \<Rightarrow> ('m, string) unit_act" where
  "read_native_definition sys bytes =
     sbind (on_os (unit_directory sys)) (\<lambda>_.
       slift (rbind (require (length bytes \<le> MAX_CONTROL_MESSAGE_BYTES) (MessageTooLarge MAX_CONTROL_MESSAGE_BYTES)) (\<lambda>_.
              rbind (require (valid_utf8 bytes) (UnsafeOwnership ''native service definition is not UTF-8'')) (\<lambda>_. Inr bytes))))"

definition read_unit_file :: "'m linux_os \<Rightarrow> ('m, string option) unit_act" where
  "read_unit_file sys w =
     (case unit_entry w of
        None \<Rightarrow> (Inr None, w)
      | Some (RegularFile bytes) \<Rightarrow>
          sbind (on_os (unit_protection sys)) (\<lambda>_.
          sbind (read_native_definition sys bytes) (\<lambda>c. sreturn (Some c))) w
      | Some _ \<Rightarrow> (Inl (UnsafeOwnership ''systemd unit file is redirected or not a regular file''), w))"

section \<open>The adapter\<close>

definition unit_path :: "string \<Rightarrow> string lifecycle_result" where
  "unit_path i =
     rbind (require (i \<noteq> [] \<and> list_all (\<lambda>c. is_ascii_alphanumeric c \<or> c \<in> {CHR ''-'', CHR ''_'', CHR ''.''}) i)
       (UnsafeOwnership ''invalid systemd unit identifier'')) (\<lambda>_. Inr (''/etc/systemd/system/'' @ i))"

definition unit_property :: "string \<Rightarrow> string \<Rightarrow> string option" where
  "unit_property output key =
     find_map (\<lambda>line. case split_once CHR ''='' line of
        None \<Rightarrow> None | Some (name, v) \<Rightarrow> if name = key then Some v else None) (text_lines output)"

definition systemctl :: "'m linux_os \<Rightarrow> string list \<Rightarrow> deadline \<Rightarrow> ('m, command_output) unit_act" where
  "systemctl sys args d = sbind (on_os (systemctl_present sys)) (\<lambda>_. on_os (run_systemctl sys args d))"

definition unknown_observation :: "string \<Rightarrow> service_observation" where
  "unknown_observation detail =
     \<lparr>obs_installed = InstallationUnknown, obs_manager = ManagerUnknown, obs_definition = None, obs_account = None,
      boot_enabled = False, obs_core = None, core_unknown = None, obs_diagnostic = Some detail, pending_operation = False\<rparr>"

definition check_query :: "command_output \<Rightarrow> unit lifecycle_result" where
  "check_query q =
     rbind (require (status_success q \<or> \<not> contains_str (to_ascii_lowercase (out_text q)) ''permission denied'')
       (AccessDenied (trim (out_text q)))) (\<lambda>_.
     require (status_success q \<or> trim (out_text q) \<noteq> [])
       (ManagerUnavailable ''systemctl show failed without a diagnostic''))"

definition observe_unit ::
  "service_env \<Rightarrow> 'm linux_os \<Rightarrow> string \<Rightarrow> deadline \<Rightarrow> string \<Rightarrow> manager_state \<Rightarrow> string \<Rightarrow> ('m, service_observation) unit_act" where
  "observe_unit env sys i d output state contents =
     sbind (slift (parse_unit_definition env i contents)) (\<lambda>def.
     sbind (systemctl sys [''is-enabled'', i] d) (\<lambda>en.
     sbind (slift (parse_systemd_enabled (out_text en) (status_success en))) (\<lambda>enabled.
     sbind (on_os (observe_core sys (def_data_dir def) d)) (\<lambda>(core, unknown).
       let job = (case unit_property output ''Job'' of None \<Rightarrow> [] | Some v \<Rightarrow> v)
       in sreturn \<lparr>obs_installed = Installed, obs_manager = state, obs_definition = Some def,
            obs_account = Some (def_account def), boot_enabled = enabled, obs_core = core, core_unknown = unknown,
            obs_diagnostic = Some (''systemd journal: '' @ i),
            pending_operation = (job \<noteq> [] \<and> job \<noteq> ''0'' \<and> job \<noteq> ''-'')\<rparr>))))"

definition linux_observe ::
  "service_env \<Rightarrow> 'm linux_os \<Rightarrow> service_manager_kind \<Rightarrow> string \<Rightarrow> deadline \<Rightarrow> ('m, service_observation) unit_act" where
  "linux_observe env sys m i d =
     sbind (slift (require (m = LinuxSystemd) (ManagerUnavailable ''Linux adapter received a non-systemd request''))) (\<lambda>_.
     sbind (slift (unit_path i)) (\<lambda>_.
     sbind (systemctl sys [''--no-pager'', ''show'', ''--property=LoadState,ActiveState,SubState,MainPID,Job'', i] d) (\<lambda>q.
     sbind (slift (check_query q)) (\<lambda>_.
     sbind (slift (parse_manager_state LinuxSystemd (out_text q))) (\<lambda>state.
     sbind (read_unit_file sys) (\<lambda>file.
       case file of
         None \<Rightarrow> sreturn (if unit_property (out_text q) ''LoadState'' = Some ''not-found'' then absent_observation
           else unknown_observation (''systemd reports '' @ i @ '' loaded without the Kakune-owned unit file''))
       | Some contents \<Rightarrow> observe_unit env sys i d (out_text q) state contents))))))"

definition step_arguments :: "native_mutation \<Rightarrow> string \<Rightarrow> string list option" where
  "step_arguments s i =
     (case s of
        Reload \<Rightarrow> Some [''daemon-reload'']
      | Enable \<Rightarrow> Some [''enable'', i]
      | Disable \<Rightarrow> Some [''disable'', i]
      | StartNow \<Rightarrow> Some [''start'', ''--no-block'', i]
      | StopNow \<Rightarrow> Some [''stop'', ''--no-block'', i]
      | _ \<Rightarrow> None)"

definition linux_apply_step ::
  "service_env \<Rightarrow> 'm linux_os \<Rightarrow> native_mutation \<Rightarrow> service_definition \<Rightarrow> deadline \<Rightarrow> string \<Rightarrow> ('m, unit) unit_act" where
  "linux_apply_step env sys s d dl path =
     (if s = Publish then sbind (slift (render_service_definition env d)) (write_native_definition sys path)
      else if s = Delete
      then sbind (slift (render_service_definition env d)) (\<lambda>c. sbind (remove_native_definition sys c) (\<lambda>_. sreturn ()))
      else (case step_arguments s (def_service_id d) of
          None \<Rightarrow> sfail (UnsafeOwnership ''unsupported systemd mutation step'')
        | Some args \<Rightarrow>
            sbind (on_os (run_systemctl sys args dl)) (\<lambda>out.
            sbind (slift (require_success out ''authorized systemd mutation'')) (\<lambda>_. sreturn ()))))"

definition linux_execute_step ::
  "service_env \<Rightarrow> 'm linux_os \<Rightarrow> native_mutation \<Rightarrow> service_definition \<Rightarrow> deadline \<Rightarrow> ('m, unit) unit_act" where
  "linux_execute_step env sys s d dl =
     sbind (slift (unit_path (def_service_id d))) (\<lambda>path.
     sbind (on_os (systemctl_present sys)) (\<lambda>_. linux_apply_step env sys s d dl path))"

section \<open>What a step does to the unit file\<close>

definition same_unit :: "'m unit_world \<Rightarrow> 'm unit_world \<Rightarrow> bool" where
  "same_unit w w' \<longleftrightarrow> unit_entry w' = unit_entry w"

interpretation unit_kept: world_relation same_unit
  by unfold_locales (simp_all add: same_unit_def)

named_theorems keeps_unit

lemma on_os_keeps [keeps_unit]: "stays_in same_unit (on_os f)"
  by (simp add: stays_in_def same_unit_def on_os_def split: prod.split)

lemma systemctl_keeps [keeps_unit]: "stays_in same_unit (systemctl sys args d)"
  unfolding systemctl_def by (intro unit_kept.stays_bind keeps_unit)

lemma read_unit_keeps [keeps_unit]: "stays_in same_unit (read_unit_file sys)"
proof -
  have "stays_in same_unit (sbind (on_os (unit_protection sys)) (\<lambda>_. sbind (read_native_definition sys b) (\<lambda>c. sreturn (Some c))))"
    for b
    unfolding read_native_definition_def by (intro unit_kept.stays_bind unit_kept.stays_pure keeps_unit)
  then show ?thesis
    unfolding stays_in_def read_unit_file_def by (auto split: option.split dir_entry.split simp: unit_kept.relation_refl)
qed

lemma observe_keeps [keeps_unit]: "stays_in same_unit (linux_observe env sys m i d)"
proof -
  have "stays_in same_unit (observe_unit env sys i d out st c)" for out st c
    unfolding observe_unit_def Let_def case_prod_unfold by (intro unit_kept.stays_bind unit_kept.stays_pure keeps_unit)
  then show ?thesis
    unfolding linux_observe_def
    by (intro unit_kept.stays_bind unit_kept.stays_pure unit_kept.stays_option unit_kept.stays_if keeps_unit)
qed

lemma write_native_entry:
  "unit_entry (snd (write_native_definition sys path c w)) = unit_entry w
   \<or> unit_entry w = None \<and> unit_entry (snd (write_native_definition sys path c w)) = Some (RegularFile c)"
  by (auto simp: write_native_definition_def sbind_def on_os_def split: prod.split sum.split option.split unit_fault.split)

lemma remove_native_entry:
  "unit_entry (snd (remove_native_definition sys c w)) = unit_entry w
   \<or> unit_entry w = Some (RegularFile c) \<and> unit_entry (snd (remove_native_definition sys c w)) = None"
  by (auto simp: remove_native_definition_def sbind_def on_os_def
      split: prod.split sum.split option.split unit_fault.split dir_entry.split)

lemma sbind_after:
  assumes "stays_in same_unit m" and "\<And>x w'. m w = (Inr x, w') \<Longrightarrow> unit_entry w' = unit_entry w \<Longrightarrow> P (unit_entry (snd (f x w')))"
    and "P (unit_entry w)"
  shows "P (unit_entry (snd (sbind m f w)))"
proof -
  obtain r w' where run: "m w = (r, w')" by (metis prod.exhaust)
  with assms(1) have kept: "unit_entry w' = unit_entry w" by (metis unit_kept.stays_step same_unit_def)
  show ?thesis
  proof (cases r)
    case (Inl e)
    with run kept assms(3) show ?thesis by (simp add: sbind_def)
  next
    case (Inr x)
    with run kept assms(2) [of x w'] show ?thesis by (simp add: sbind_def)
  qed
qed

text \<open>What a step may do to the file of a unit.\<close>

definition step_effect :: "service_env \<Rightarrow> native_mutation \<Rightarrow> service_definition \<Rightarrow> dir_entry option \<Rightarrow> dir_entry option \<Rightarrow> bool" where
  "step_effect env s d e e' \<longleftrightarrow>
     e' = e
   \<or> (\<exists>c. render_service_definition env d = Inr c
        \<and> (s = Publish \<and> e = None \<and> e' = Some (RegularFile c) \<or> s = Delete \<and> e = Some (RegularFile c) \<and> e' = None))"

lemma write_effect:
  assumes "render_service_definition env d = Inr c"
  shows "step_effect env Publish d (unit_entry w) (unit_entry (snd (write_native_definition sys path c w)))"
  using write_native_entry [of sys path c w] assms by (auto simp: step_effect_def)

lemma remove_effect:
  assumes "render_service_definition env d = Inr c"
  shows "step_effect env Delete d (unit_entry w)
    (unit_entry (snd (sbind (remove_native_definition sys c) (\<lambda>_. sreturn ()) w)))"
proof -
  have "snd (sbind (remove_native_definition sys c) (\<lambda>_. sreturn ()) w) = snd (remove_native_definition sys c w)"
    by (auto simp: sbind_def sreturn_def split: prod.split sum.split)
  then show ?thesis using remove_native_entry [of sys c w] assms by (auto simp: step_effect_def)
qed

lemma slift_keeps [keeps_unit]: "stays_in same_unit (slift r)"
  by (rule unit_kept.stays_pure)

lemma same_effect: "step_effect env s d e e"
  by (simp add: step_effect_def)

lemma apply_effect: "step_effect env s d (unit_entry w) (unit_entry (snd (linux_apply_step env sys s d dl path w)))"
proof -
  consider "s = Publish" | "s = Delete" | "s \<noteq> Publish" "s \<noteq> Delete" by blast
  then show ?thesis
  proof cases
    case 1
    have "step_effect env Publish d (unit_entry w) (unit_entry (snd
        (sbind (slift (render_service_definition env d)) (write_native_definition sys path) w)))"
      by (rule sbind_after [OF slift_keeps _ same_effect]) (auto simp: write_effect)
    with 1 show ?thesis by (simp add: linux_apply_step_def)
  next
    case 2
    have "step_effect env Delete d (unit_entry w) (unit_entry (snd
        (sbind (slift (render_service_definition env d)) (\<lambda>c. sbind (remove_native_definition sys c) (\<lambda>_. sreturn ())) w)))"
      by (rule sbind_after [OF slift_keeps _ same_effect]) (auto simp: remove_effect)
    with 2 show ?thesis by (simp add: linux_apply_step_def)
  next
    case 3
    then have "stays_in same_unit (linux_apply_step env sys s d dl path)"
      unfolding linux_apply_step_def
      by (simp, intro unit_kept.stays_option unit_kept.stays_bind unit_kept.stays_pure keeps_unit)
    then show ?thesis by (simp add: stays_in_def same_unit_def step_effect_def)
  qed
qed

lemma step_effects:
  fixes w :: "'m unit_world"
  shows "step_effect env s d (unit_entry w) (unit_entry (snd (linux_execute_step env sys s d dl w)))"
  unfolding linux_execute_step_def
proof (rule sbind_after [OF slift_keeps _ same_effect])
  fix path and w1 :: "'m unit_world"
  assume w1: "unit_entry w1 = unit_entry w"
  have "step_effect env s d (unit_entry w1) (unit_entry (snd (sbind (on_os (systemctl_present sys)) (\<lambda>_. linux_apply_step env sys s d dl path) w1)))"
    by (rule sbind_after [OF on_os_keeps _ same_effect]) (metis apply_effect)
  with w1 show "step_effect env s d (unit_entry w) (unit_entry (snd (sbind (on_os (systemctl_present sys)) (\<lambda>_. linux_apply_step env sys s d dl path) w1)))"
    by simp
qed

section \<open>Properties\<close>

text \<open>C33: A step of the systemd adapter only touches the unit that Core wrote: whatever the operating system answers, publishing
  creates the file where there was none, with the unit of the definition as its contents; deleting removes a file
  with exactly these contents; and nothing else changes the file.\<close>

theorem only_own_unit_changes:
  "unit_entry (snd (linux_execute_step env sys s d dl w)) = unit_entry w
   \<or> s = Publish \<and> unit_entry w = None
       \<and> (\<exists>c. render_service_definition env d = Inr c \<and> unit_entry (snd (linux_execute_step env sys s d dl w)) = Some (RegularFile c))
   \<or> s = Delete \<and> unit_entry (snd (linux_execute_step env sys s d dl w)) = None
       \<and> (\<exists>c. render_service_definition env d = Inr c \<and> unit_entry w = Some (RegularFile c))"
  using step_effects [of env s d w sys dl] unfolding step_effect_def by blast

lemma observed_unit:
  assumes "systemd_expressible env d" and "unit_entry w = Some (RegularFile (render_systemd_unit d))"
    and "linux_observe env sys LinuxSystemd (def_service_id d) dl w = (Inr ob, w')"
  shows "obs_installed ob = Installed" "obs_definition ob = Some d"
proof -
  from assms(3) obtain q w1 state found w2 where read: "read_unit_file sys w1 = (Inr found, w2)"
    and w1: "systemctl sys [''--no-pager'', ''show'', ''--property=LoadState,ActiveState,SubState,MainPID,Job'', def_service_id d] dl w
        = (Inr q, w1)"
    and ob: "(case found of
         None \<Rightarrow> sreturn (if unit_property (out_text q) ''LoadState'' = Some ''not-found'' then absent_observation
           else unknown_observation (''systemd reports '' @ def_service_id d @ '' loaded without the Kakune-owned unit file''))
       | Some contents \<Rightarrow> observe_unit env sys (def_service_id d) dl (out_text q) state contents) w2 = (Inr ob, w')"
    by (auto simp: linux_observe_def sbind_Inr)
  from unit_kept.stays_step [OF systemctl_keeps w1] assms(2) have "unit_entry w1 = Some (RegularFile (render_systemd_unit d))"
    by (simp add: same_unit_def)
  with read have "found = Some (render_systemd_unit d)"
    by (auto simp: read_unit_file_def read_native_definition_def sbind_Inr result_simps)
  with ob parse_rendered_unit [OF assms(1)] show "obs_installed ob = Installed" "obs_definition ob = Some d"
    by (auto simp: observe_unit_def sbind_Inr Let_def)
qed

lemma expressible_rendered: "systemd_expressible env d \<Longrightarrow> render_service_definition env d = Inr (render_systemd_unit d)"
  using new_definition_Inr(3) by (auto simp: systemd_expressible_def made_by_def render_service_definition_def)

lemma published_entry:
  assumes "systemd_expressible env d" and "linux_execute_step env sys Publish d dl w = (Inr (), w')"
  shows "unit_entry w' = Some (RegularFile (render_systemd_unit d))"
  using assms(2) expressible_rendered [OF assms(1)]
  by (auto simp: linux_execute_step_def linux_apply_step_def sbind_Inr write_native_definition_def on_os_def
      split: prod.splits option.splits unit_fault.splits if_splits)

text \<open>What is installed is recognised: once publishing a definition has succeeded, and as long as nobody else touches the
  file, every observation that succeeds, at any time and in whatever state the manager is, reports the service as
  installed with exactly that definition, and leaves the file as it is.\<close>

theorem published_unit_is_recognised:
  assumes "systemd_expressible env d" and "linux_execute_step env sys Publish d dl w = (Inr (), w1)"
    and "unit_entry w2 = unit_entry w1" and "linux_observe env sys LinuxSystemd (def_service_id d) dl' w2 = (Inr ob, w3)"
  shows "obs_installed ob = Installed \<and> obs_definition ob = Some d \<and> unit_entry w3 = unit_entry w1"
proof -
  from published_entry [OF assms(1,2)] assms(3) have "unit_entry w2 = Some (RegularFile (render_systemd_unit d))" by simp
  note observed_unit [OF assms(1) this assms(4)]
  moreover from unit_kept.stays_step [OF observe_keeps assms(4)] assms(3) have "unit_entry w3 = unit_entry w1"
    by (simp add: same_unit_def)
  ultimately show ?thesis by blast
qed

definition plain_os :: "unit linux_os" where
  "plain_os =
     \<lparr>systemctl_present = sreturn (),
      run_systemctl = (\<lambda>args _. sreturn \<lparr>status_success = True, exit_text = ''0'',
        out_text = (if args = [''is-enabled'', ''k''] then ''enabled'' else ''ActiveState=inactive'' @ [newline] @ ''SubState=dead'')\<rparr>),
      unit_directory = sreturn (), unit_protection = sreturn (), unit_disk = (\<lambda>u. (None, u)),
      observe_core = (\<lambda>_ _. sreturn (None, None))\<rparr>"

definition plain_unit :: "unit unit_world" where
  "plain_unit = \<lparr>unit_entry = Some (RegularFile (render_systemd_unit (spaced_definition LinuxSystemd))), os = ()\<rparr>"

lemma spaced_expressible: "systemd_expressible spaced_service (spaced_definition LinuxSystemd)"
proof -
  have "valid_utf8 (def_data_dir (spaced_definition LinuxSystemd)) \<and> list_all (\<lambda>s. valid_utf8 s \<and> \<not> has_wide_space s)
      (def_executable (spaced_definition LinuxSystemd) # def_arguments (spaced_definition LinuxSystemd))"
    by code_simp
  then show ?thesis
    using spaced_made [of LinuxSystemd] by (simp add: systemd_expressible_def) (simp add: spaced_definition_def)
qed

lemma spaced_published:
  "linux_execute_step spaced_service plain_os Publish (spaced_definition LinuxSystemd) (Deadline 9) \<lparr>unit_entry = None, os = ()\<rparr>
    = (Inr (), plain_unit)"
proof -
  have "unit_path (def_service_id (spaced_definition LinuxSystemd)) = Inr ''/etc/systemd/system/k''" by code_simp
  then show ?thesis
    using expressible_rendered [OF spaced_expressible]
    by (simp add: linux_execute_step_def linux_apply_step_def sbind_def slift_def on_os_def plain_os_def sreturn_def
        write_native_definition_def plain_unit_def)
qed

lemma spaced_observed:
  "is_ok (fst (linux_observe spaced_service plain_os LinuxSystemd ''k'' (Deadline 9) plain_unit))"
proof -
  let ?out = "''ActiveState=inactive'' @ [newline] @ ''SubState=dead''"
  let ?text = "render_systemd_unit (spaced_definition LinuxSystemd)"
  have "unit_path ''k'' = Inr ''/etc/systemd/system/k''" "parse_manager_state LinuxSystemd ?out = Inr ManagerStopped"
    "parse_systemd_enabled ''enabled'' True = Inr True" by code_simp+
  moreover have "valid_utf8 ?text \<and> length ?text \<le> MAX_CONTROL_MESSAGE_BYTES" by code_simp
  moreover have "parse_unit_definition spaced_service ''k'' ?text = Inr (spaced_definition LinuxSystemd)"
    using parse_rendered_unit [OF spaced_expressible] by (simp add: spaced_definition_def)
  ultimately show ?thesis
    by (simp add: linux_observe_def observe_unit_def sbind_def slift_def on_os_def systemctl_def plain_os_def sreturn_def
        check_query_def read_unit_file_def read_native_definition_def plain_unit_def require_def Let_def)
qed

theorem published_unit_is_recognised_witness:
  "\<exists>ob w3. linux_observe spaced_service plain_os LinuxSystemd ''k'' (Deadline 9) plain_unit = (Inr ob, w3)
    \<and> obs_definition ob = Some (spaced_definition LinuxSystemd)"
proof -
  obtain ob w3 where ob: "linux_observe spaced_service plain_os LinuxSystemd ''k'' (Deadline 9) plain_unit = (Inr ob, w3)"
    using spaced_observed by (cases "linux_observe spaced_service plain_os LinuxSystemd ''k'' (Deadline 9) plain_unit"; cases "fst
      (linux_observe spaced_service plain_os LinuxSystemd ''k'' (Deadline 9) plain_unit)") (auto simp: is_ok_def)
  have "def_service_id (spaced_definition LinuxSystemd) = ''k''" by (simp add: spaced_definition_def)
  with ob published_unit_is_recognised [OF spaced_expressible spaced_published refl, of "Deadline 9" ob w3] show ?thesis by simp
qed

end
