(* ===== verification/Service_Helper.thy ===== *)
theory Service_Helper
  imports Service_Linux
begin

text \<open>
  The helper process (\<open>serve_with\<close>, \<open>validate_helper\<close> and \<open>execute_step\<close> of \<open>src/lifecycle/service/helper.rs\<close>), the other
  end of the protocol that \<open>Service_Control\<close> speaks: it waits for its parent to prepare and to authorize one step,
  reads the journal each time, and makes the step after a last look at the service.  While it waits for a frame its
  parent may write the journal, so that reading a frame may change the whole world; everything else the helper does
  leaves the journal alone.
\<close>

section \<open>The helper and its host\<close>

record 'm helper_host =
  hs_isolated :: bool
  hs_pid :: nat
  hs_owner :: "string \<Rightarrow> string lifecycle_result"
  hs_evidence :: "deadline \<Rightarrow> ('m, string option) native_op"
  hs_clock :: "'m \<Rightarrow> nat \<times> 'm"
  hs_state_path :: "('m, unit) native_op"
  hs_lock :: "deadline \<Rightarrow> ('m, unit) native_op"
  hs_read :: "(lifecycle_error, 'm service_world, string) fallible"
  hs_write :: "string \<Rightarrow> ('m, unit) native_op"
  hs_observe :: "service_manager_kind \<Rightarrow> string \<Rightarrow> deadline \<Rightarrow> ('m, service_observation) native_op"
  hs_native :: "native_mutation \<Rightarrow> service_definition \<Rightarrow> deadline \<Rightarrow> ('m, unit) native_op"

definition service_path :: "bool \<Rightarrow> service_manager_kind \<Rightarrow> string \<Rightarrow> unit lifecycle_result" where
  "service_path isolated m i =
     rbind (validate_service_id m i) (\<lambda>_.
       require (isolated \<or> canonical_service_id m i = canonical_service_id m (platform_service_id m))
         (UnsafeOwnership ''production service operations are limited to Kakune's native service identifier''))"

definition read_helper_frame :: "'m helper_host \<Rightarrow> string \<Rightarrow> ('m, unit) act" where
  "read_helper_frame h expected =
     sbind (hs_read h) (\<lambda>frame.
       if 256 < length frame then sfail (MessageTooLarge 256)
       else if frame \<noteq> expected
       then sfail (UnresolvedServiceAttempt ''parent channel closed or authorization is invalid; no mutation authorized'')
       else sreturn ())"

definition validate_helper :: "'m helper_host \<Rightarrow> journal \<Rightarrow> string \<Rightarrow> attempt_status \<Rightarrow> deadline \<Rightarrow> ('m, unit) act" where
  "validate_helper h j a st d =
     (if attempt_id j \<noteq> a \<or> attempt_status j \<noteq> st \<or> helper_pid j \<noteq> Some (hs_pid h)
      then sfail (UnresolvedServiceAttempt ''helper does not own this journal authorization'')
      else sbind (slift (ok_or (helper_owner j) UnverifiedProcess)) (\<lambda>owner.
           sbind (slift (hs_owner h owner)) (\<lambda>expected.
           sbind (on_native (hs_evidence h d)) (\<lambda>actual.
             slift (require (actual = Some expected) UnverifiedProcess)))))"

definition remaining_or_fail :: "'m helper_host \<Rightarrow> deadline \<Rightarrow> string \<Rightarrow> ('m, unit) act" where
  "remaining_or_fail h d phase =
     sbind (pure_native (hs_clock h)) (\<lambda>now.
       if deadline_remaining d now = 0 then sfail (DeadlineExpired phase) else sreturn ())"

text \<open>The last look before a step: whether it may be made, and whether there is anything left to do.\<close>

definition step_permitted :: "native_mutation \<Rightarrow> service_definition \<Rightarrow> service_observation \<Rightarrow> bool lifecycle_result" where
  "step_permitted s d ob =
     (if s = Register \<or> s = Publish
      then rbind (require (obs_installed ob = NotInstalled \<and> \<not> pending_operation ob)
             (ConflictingServiceDefinition ''native registration appeared before publication'')) (\<lambda>_. Inr True)
      else if s \<noteq> Reload \<or> obs_installed ob \<noteq> NotInstalled
      then rbind (ensure_expected_definition d ob) (\<lambda>_.
           rbind (require (\<not> pending_operation ob \<and> core_unknown ob = None) ServiceStateUnconfirmed) (\<lambda>_.
           rbind (ensure_service_mode ob) (\<lambda>_.
             if s = StartNow \<and> obs_manager ob = ManagerRunning \<and> core_is_ready (obs_core ob) then Inr False
             else if (s = Disable \<or> s = Delete) \<and> (obs_manager ob \<noteq> ManagerStopped \<or> \<not> core_gone ob)
             then Inl ServiceStateUnconfirmed else Inr True)))
      else Inr True)"

definition helper_step :: "'m helper_host \<Rightarrow> native_mutation \<Rightarrow> service_definition \<Rightarrow> deadline \<Rightarrow> ('m, unit) act" where
  "helper_step h s d dl =
     sbind (on_native (hs_observe h (def_manager d) (def_service_id d) dl)) (\<lambda>ob.
     sbind (slift (step_permitted s d ob)) (\<lambda>go.
       if go then on_native (hs_native h s d dl) else sreturn ()))"

definition helper_journal :: "service_env \<Rightarrow> service_manager_kind \<Rightarrow> string \<Rightarrow> string \<Rightarrow> ('m, journal) act" where
  "helper_journal env m i missing =
     sbind (read_attempt env m i) (\<lambda>found. slift (ok_or found (UnresolvedServiceAttempt missing)))"

definition helper_prepare ::
  "service_env \<Rightarrow> 'm helper_host \<Rightarrow> service_manager_kind \<Rightarrow> string \<Rightarrow> string \<Rightarrow> deadline \<Rightarrow> ('m, journal \<times> native_mutation) act" where
  "helper_prepare env h m i a dl =
     sbind (read_helper_frame h (''PREPARE'' @ [newline])) (\<lambda>_.
     sbind (helper_journal env m i ''helper attempt journal is absent'') (\<lambda>prepared.
     sbind (validate_helper h prepared a Prepared dl) (\<lambda>_.
     sbind (on_native (hs_lock h dl)) (\<lambda>_.
     sbind (slift (step_for prepared)) (\<lambda>(_, s).
     sbind (on_native (hs_write h (''KAKUNE-HELPER-READY'' @ [newline]))) (\<lambda>_. sreturn (prepared, s)))))))"

definition helper_authorized ::
  "service_env \<Rightarrow> 'm helper_host \<Rightarrow> service_manager_kind \<Rightarrow> string \<Rightarrow> string \<Rightarrow> deadline \<Rightarrow> journal \<Rightarrow> native_mutation \<Rightarrow> ('m, unit) act" where
  "helper_authorized env h m i a dl prepared s =
     sbind (helper_journal env m i ''authorized helper journal disappeared'') (\<lambda>j.
     sbind (validate_helper h j a Authorized dl) (\<lambda>_.
     sbind (slift (require (journal_step j = journal_step prepared
         \<and> definition_eq (expected_definition j) (expected_definition prepared))
       (UnresolvedServiceAttempt ''helper authorization changed its mutation target''))) (\<lambda>_.
     sbind (remaining_or_fail h dl ''authorized helper mutation'') (\<lambda>_.
       helper_step h s (expected_definition j) dl))))"

definition serve_with :: "service_env \<Rightarrow> 'm helper_host \<Rightarrow> service_manager_kind \<Rightarrow> string \<Rightarrow> string \<Rightarrow> ('m, unit) act" where
  "serve_with env h m i a =
     sbind (pure_native (hs_clock h)) (\<lambda>now.
     (let dl = deadline_after now (budget_duration Helper) in
      sbind (slift (service_path (hs_isolated h) m i)) (\<lambda>_.
      sbind (on_native (hs_state_path h)) (\<lambda>_.
      sbind (helper_prepare env h m i a dl) (\<lambda>(prepared, s).
      sbind (read_helper_frame h (''AUTHORIZE '' @ a @ [newline])) (\<lambda>_.
      sbind (helper_authorized env h m i a dl prepared s) (\<lambda>_.
        on_native (hs_write h (''KAKUNE-HELPER-DONE'' @ [newline])))))))))"

section \<open>What a helper may do\<close>

text \<open>Steps of the helper on its own leave the journal alone.\<close>

inductive helper_look :: "'m helper_host \<Rightarrow> 'm \<Rightarrow> 'm \<Rightarrow> bool" for h where
  "helper_look h m (snd (hs_evidence h d m))"
| "helper_look h m (snd (hs_clock h m))"
| "helper_look h m (snd (hs_state_path h m))"
| "helper_look h m (snd (hs_lock h d m))"
| "helper_look h m (snd (hs_write h out m))"
| "helper_look h m (snd (hs_observe h k i d m))"

definition helper_looked :: "'m helper_host \<Rightarrow> 'm service_world \<Rightarrow> 'm service_world \<Rightarrow> bool" where
  "helper_looked h w w' \<longleftrightarrow> attempt_entry w' = attempt_entry w \<and> (helper_look h)\<^sup>*\<^sup>* (native w) (native w')"

interpretation helper_quiet: world_relation "helper_looked h" for h :: "'m helper_host"
  by unfold_locales (auto simp: helper_looked_def)

text \<open>The journal authorizes this attempt, held by this process, to make this step for this definition.\<close>

definition authorizes ::
  "service_env \<Rightarrow> 'm helper_host \<Rightarrow> service_manager_kind \<Rightarrow> string \<Rightarrow> string \<Rightarrow> dir_entry option \<Rightarrow> native_mutation \<Rightarrow> service_definition \<Rightarrow> bool" where
  "authorizes env h m i a entry s d \<longleftrightarrow>
     (\<exists>j k. read_attempt_for_service env m i entry = Inr (Some j) \<and> attempt_id j = a \<and> attempt_status j = Authorized
        \<and> helper_pid j = Some (hs_pid h) \<and> expected_definition j = d \<and> journal_step j = step_label k s)"

inductive helper_act ::
  "service_env \<Rightarrow> 'm helper_host \<Rightarrow> service_manager_kind \<Rightarrow> string \<Rightarrow> string \<Rightarrow> 'm service_world \<Rightarrow> 'm service_world \<Rightarrow> bool"
  for env h m i a where
  HelperLooked: "helper_looked h w w' \<Longrightarrow> helper_act env h m i a w w'"
| FrameRead: "helper_act env h m i a w (snd (hs_read h w))"
| StepMade: "authorizes env h m i a (attempt_entry w) s d \<Longrightarrow> step_permitted s d ob = Inr True
    \<Longrightarrow> helper_act env h m i a w (w\<lparr>native := snd (hs_native h s d dl (native w))\<rparr>)"

abbreviation helper_acts :: "service_env \<Rightarrow> 'm helper_host \<Rightarrow> service_manager_kind \<Rightarrow> string \<Rightarrow> string \<Rightarrow> 'm service_world \<Rightarrow> 'm service_world \<Rightarrow> bool" where
  "helper_acts env h m i a \<equiv> (helper_act env h m i a)\<^sup>*\<^sup>*"

interpretation helper_life: world_relation "helper_acts env h m i a" for env and h :: "'m helper_host" and m i a
  by unfold_locales auto

named_theorems helper_looks

lemma quiet_on_native:
  "(\<And>m. helper_look h m (snd (f m))) \<Longrightarrow> stays_in (helper_looked h) (on_native f)"
  "(\<And>m. helper_look h m (snd (f m))) \<Longrightarrow> stays_in (helper_looked h) (pure_native f)"
  by (auto simp: stays_in_def helper_looked_def on_native_def pure_native_def split: prod.split) (metis r_into_rtranclp snd_conv)+

lemma quiet_ops [helper_looks]:
  "stays_in (helper_looked h) (on_native (hs_evidence h d))" "stays_in (helper_looked h) (pure_native (hs_clock h))"
  "stays_in (helper_looked h) (on_native (hs_state_path h))" "stays_in (helper_looked h) (on_native (hs_lock h d))"
  "stays_in (helper_looked h) (on_native (hs_write h out))" "stays_in (helper_looked h) (on_native (hs_observe h k i d))"
  by (rule quiet_on_native, rule helper_look.intros)+

lemma quiet_journal [helper_looks]: "stays_in (helper_looked h) (helper_journal env m i e)"
proof -
  have "stays_in (helper_looked h) (read_attempt env m i)" by (simp add: stays_in_def read_attempt_def helper_quiet.relation_refl)
  then show ?thesis unfolding helper_journal_def by (intro helper_quiet.stays_bind helper_quiet.stays_pure)
qed

lemma quiet_validate [helper_looks]: "stays_in (helper_looked h) (validate_helper h j a st d)"
  unfolding validate_helper_def
  by (intro helper_quiet.stays_if helper_quiet.stays_bind helper_quiet.stays_pure helper_looks)

lemma quiet_remaining [helper_looks]: "stays_in (helper_looked h) (remaining_or_fail h d phase)"
  unfolding remaining_or_fail_def
  by (intro helper_quiet.stays_if helper_quiet.stays_bind helper_quiet.stays_pure helper_looks)

lemma quiet_acts: "stays_in (helper_looked h) run \<Longrightarrow> stays_in (helper_acts env h m i a) run"
  by (auto simp: stays_in_def intro: HelperLooked)

lemma frame_acts: "stays_in (helper_acts env h m i a) (read_helper_frame h expected)"
proof -
  have "stays_in (helper_acts env h m i a) (hs_read h)" by (auto simp: stays_in_def intro: FrameRead)
  then show ?thesis
    unfolding read_helper_frame_def by (intro helper_life.stays_bind helper_life.stays_if helper_life.stays_pure)
qed

lemma validated_helper:
  "validate_helper h j a st d w = (Inr u, w') \<Longrightarrow> attempt_id j = a \<and> attempt_status j = st \<and> helper_pid j = Some (hs_pid h)"
  by (auto simp: validate_helper_def split: if_splits)

lemma snd_on_native: "snd (on_native f w) = w\<lparr>native := snd (f (native w))\<rparr>"
  by (simp add: on_native_def split: prod.split)

lemma helper_step_acts:
  assumes "authorizes env h m i a (attempt_entry w) s d"
  shows "helper_acts env h m i a w (snd (helper_step h s d dl w))"
proof -
  obtain r w1 where one: "on_native (hs_observe h (def_manager d) (def_service_id d) dl) w = (r, w1)" by (metis prod.exhaust)
  have look: "helper_looked h w w1" by (rule helper_quiet.stays_step [OF quiet_ops(6) one])
  then have first: "helper_acts env h m i a w w1" by (intro r_into_rtranclp HelperLooked)
  show ?thesis
  proof (cases "\<exists>ob. r = Inr ob \<and> step_permitted s d ob = Inr True")
    case True
    then obtain ob where ob: "r = Inr ob" "step_permitted s d ob = Inr True" by blast
    have "authorizes env h m i a (attempt_entry w1) s d" using assms look by (simp add: helper_looked_def)
    then have "helper_act env h m i a w1 (w1\<lparr>native := snd (hs_native h s d dl (native w1))\<rparr>)" using ob(2) by (rule StepMade)
    moreover have "snd (helper_step h s d dl w) = w1\<lparr>native := snd (hs_native h s d dl (native w1))\<rparr>"
      by (simp add: helper_step_def sbind_def one ob slift_def snd_on_native)
    ultimately show ?thesis using first by simp
  next
    case False
    then have "snd (helper_step h s d dl w) = w1"
      by (auto simp: helper_step_def sbind_def one slift_def sreturn_def split: sum.split bool.split)
    with first show ?thesis by simp
  qed
qed

lemma quiet_then:
  assumes "stays_in (helper_looked h) run"
    and "\<And>x w'. run w = (Inr x, w') \<Longrightarrow> attempt_entry w' = attempt_entry w \<Longrightarrow> helper_acts env h m i a w' (snd (f x w'))"
  shows "helper_acts env h m i a w (snd (sbind run f w))"
proof -
  obtain r w1 where run: "run w = (r, w1)" by (metis prod.exhaust)
  have look: "helper_looked h w w1" by (rule helper_quiet.stays_step [OF assms(1) run])
  then have first: "helper_acts env h m i a w w1" by (intro r_into_rtranclp HelperLooked)
  show ?thesis
  proof (cases r)
    case (Inl e)
    with run first show ?thesis by (simp add: sbind_def)
  next
    case (Inr x)
    with run look assms(2) have "helper_acts env h m i a w1 (snd (f x w1))" by (simp add: helper_looked_def)
    with first run Inr show ?thesis by (simp add: sbind_def)
  qed
qed

lemma step_for_label: "step_for j = Inr (k, s) \<Longrightarrow> journal_step j = step_label k s"
  by (auto simp: step_for_def find_Some_iff)

lemma authorized_acts:
  fixes w :: "'m service_world"
  assumes "step_for prepared = Inr (k, s)"
  shows "helper_acts env h m i a w (snd (helper_authorized env h m i a dl prepared s w))"
  unfolding helper_authorized_def
proof (intro quiet_then helper_looks helper_quiet.stays_pure)
  fix j u v x and w1 w2 w3 w4 :: "'m service_world"
  assume journal: "helper_journal env m i ''authorized helper journal disappeared'' w = (Inr j, w1)"
    and entry: "attempt_entry w1 = attempt_entry w" "attempt_entry w2 = attempt_entry w1" "attempt_entry w3 = attempt_entry w2"
      "attempt_entry w4 = attempt_entry w3"
    and valid: "validate_helper h j a Authorized dl w1 = (Inr u, w2)"
    and target: "slift (require (journal_step j = journal_step prepared
         \<and> definition_eq (expected_definition j) (expected_definition prepared))
       (UnresolvedServiceAttempt ''helper authorization changed its mutation target'')) w2 = (Inr v, w3)"
  from journal have "read_attempt_for_service env m i (attempt_entry w) = Inr (Some j)"
    by (auto simp: helper_journal_def sbind_Inr read_attempt_def)
  moreover from target have "journal_step j = journal_step prepared" by simp
  ultimately have "authorizes env h m i a (attempt_entry w4) s (expected_definition j)"
    using validated_helper [OF valid] step_for_label [OF assms] entry by (auto simp: authorizes_def)
  then show "helper_acts env h m i a w4 (snd (helper_step h s (expected_definition j) dl w4))" by (rule helper_step_acts)
qed

lemma prepare_acts: "stays_in (helper_acts env h m i a) (helper_prepare env h m i a dl)"
  unfolding helper_prepare_def case_prod_unfold
  by (intro helper_life.stays_bind helper_life.stays_pure frame_acts helper_looks [THEN quiet_acts])

lemma prepared_step:
  "helper_prepare env h m i a dl w = (Inr (prepared, s), w') \<Longrightarrow> \<exists>k. step_for prepared = Inr (k, s)"
  by (auto simp: helper_prepare_def sbind_Inr)

lemma acts_then:
  assumes "stays_in (helper_acts env h m i a) run" and "\<And>x w'. run w = (Inr x, w') \<Longrightarrow> helper_acts env h m i a w' (snd (f x w'))"
  shows "helper_acts env h m i a w (snd (sbind run f w))"
proof -
  obtain r w1 where run: "run w = (r, w1)" by (metis prod.exhaust)
  then have "helper_acts env h m i a w w1" by (rule helper_life.stays_step [OF assms(1)])
  with run assms(2) show ?thesis by (cases r) (auto simp: sbind_def intro: rtranclp_trans)
qed

lemma authorized_stays:
  "step_for prepared = Inr (k, s) \<Longrightarrow> stays_in (helper_acts env h m i a) (helper_authorized env h m i a dl prepared s)"
  unfolding stays_in_def using authorized_acts by blast

lemma write_acts: "helper_acts env h m i a w (snd (on_native (hs_write h out) w))"
  by (rule quiet_acts [OF quiet_ops(5), unfolded stays_in_def, THEN spec])

section \<open>Properties\<close>


end
