(* ===== verification/Api_Routes.thy ===== *)
theory Api_Routes
  imports Auth Service_Linux
begin

text \<open>
  Which requests the HTTP API may serve (\<open>src/api.rs\<close>): the hosts a request may name, the routes of the API and the
  scope that a token needs for each.  A host is accepted when it is the machine itself or configured; addresses are
  read as the standard library reads them.  Scopes are decided by comparing strings, so that the question is
  whether every route, with any identifier in its place, gets the scope that its resource needs.
\<close>

section \<open>Addresses\<close>

text \<open>\<open>str::parse::<IpAddr>\<close> of the standard library: numbers with a limit on their digits, separators, the four
  numbers of IPv4 and the groups of IPv6 with one \<open>::\<close> and an IPv4 address as the last two groups.\<close>

definition to_digit :: "nat \<Rightarrow> char \<Rightarrow> nat option" where
  "to_digit radix c = (case hex_value c of None \<Rightarrow> None | Some d \<Rightarrow> if d < radix then Some d else None)"

fun read_digits :: "nat \<Rightarrow> nat \<Rightarrow> nat \<Rightarrow> nat \<Rightarrow> nat \<Rightarrow> string \<Rightarrow> (nat \<times> nat \<times> string) option" where
  "read_digits radix digits bound v n [] = Some (v, n, [])"
| "read_digits radix digits bound v n (c # s) =
     (case to_digit radix c of
        None \<Rightarrow> Some (v, n, c # s)
      | Some d \<Rightarrow>
          if bound < radix * v + d \<or> digits < Suc n then None
          else read_digits radix digits bound (radix * v + d) (Suc n) s)"

definition read_number :: "nat \<Rightarrow> nat \<Rightarrow> bool \<Rightarrow> nat \<Rightarrow> string \<Rightarrow> (nat \<times> string) option" where
  "read_number radix digits zero_prefix bound s =
     (case read_digits radix digits bound 0 0 s of
        None \<Rightarrow> None
      | Some (v, n, r) \<Rightarrow>
          if n = 0 \<or> \<not> zero_prefix \<and> starts_with s ''0'' \<and> 1 < n then None else Some (v, r))"

definition read_given_char :: "char \<Rightarrow> string \<Rightarrow> string option" where
  "read_given_char c s = (case s of [] \<Rightarrow> None | d # r \<Rightarrow> if d = c then Some r else None)"

definition read_separator :: "char \<Rightarrow> nat \<Rightarrow> (string \<Rightarrow> 'a option) \<Rightarrow> string \<Rightarrow> 'a option" where
  "read_separator c index inner s = (if 0 < index then Option.bind (read_given_char c s) inner else inner s)"

fun read_octets :: "nat \<Rightarrow> nat \<Rightarrow> string \<Rightarrow> (nat list \<times> string) option" where
  "read_octets 0 i s = Some ([], s)"
| "read_octets (Suc k) i s =
     Option.bind (read_separator CHR ''.'' i (read_number 10 3 False 255) s)
       (\<lambda>(v, r). map_option (\<lambda>(vs, t). (v # vs, t)) (read_octets k (Suc i) r))"

definition read_ipv4_addr :: "string \<Rightarrow> (nat list \<times> string) option" where
  "read_ipv4_addr s = read_octets 4 0 s"

fun read_groups :: "nat \<Rightarrow> nat \<Rightarrow> string \<Rightarrow> nat list \<times> bool \<times> string" where
  "read_groups 0 i s = ([], False, s)"
| "read_groups (Suc k) i s =
     (case if 0 < k then read_separator CHR '':'' i read_ipv4_addr s else None of
        Some (v, r) \<Rightarrow> ([256 * v ! 0 + v ! 1, 256 * v ! 2 + v ! 3], True, r)
      | None \<Rightarrow>
          (case read_separator CHR '':'' i (read_number 16 4 True 65535) s of
             None \<Rightarrow> ([], False, s)
           | Some (g, r) \<Rightarrow> (case read_groups k (Suc i) r of (gs, v4, t) \<Rightarrow> (g # gs, v4, t))))"

definition read_ipv6_addr :: "string \<Rightarrow> (nat list \<times> string) option" where
  "read_ipv6_addr s =
     (case read_groups 8 0 s of (front, v4, r) \<Rightarrow>
        if length front = 8 then Some (front, r)
        else if v4 then None
        else Option.bind (read_given_char CHR '':'' r) (\<lambda>r1.
             Option.bind (read_given_char CHR '':'' r1) (\<lambda>r2.
             case read_groups (7 - length front) 0 r2 of (back, _, t) \<Rightarrow>
               Some (front @ replicate (8 - length front - length back) 0 @ back, t))))"

datatype ip_addr = V4 "nat list" | V6 "nat list"

definition parse_ip :: "string \<Rightarrow> ip_addr option" where
  "parse_ip s =
     (case read_ipv4_addr s of
        Some (v, r) \<Rightarrow> if r = [] then Some (V4 v) else None
      | None \<Rightarrow> (case read_ipv6_addr s of Some (v, r) \<Rightarrow> if r = [] then Some (V6 v) else None | None \<Rightarrow> None))"

fun is_loopback :: "ip_addr \<Rightarrow> bool" where
  "is_loopback (V4 v) = (v ! 0 = 127)"
| "is_loopback (V6 v) = (v = [0, 0, 0, 0, 0, 0, 0, 1])"

section \<open>Hosts\<close>

text \<open>The \<open>http\<close> crate is a parameter: the text of a header value, if it is text, and the host of an authority.\<close>

record http_env =
  header_text :: "string \<Rightarrow> string option"
  authority_host :: "string \<Rightarrow> string option"

definition host_name :: "string \<Rightarrow> string" where
  "host_name host =
     (if starts_with host ''['' then dropWhile (\<lambda>c. c = CHR ''['') (hd (split_on CHR '']'' host))
      else hd (split_on CHR '':'' host))"

definition allowed_host :: "http_env \<Rightarrow> string option \<Rightarrow> bool" where
  "allowed_host env header =
     (case header of
        None \<Rightarrow> True
      | Some v \<Rightarrow>
          (case header_text env v of
             None \<Rightarrow> False
           | Some host \<Rightarrow>
               eq_ignore_ascii_case (host_name host) ''localhost''
               \<or> (case parse_ip (host_name host) of None \<Rightarrow> False | Some a \<Rightarrow> is_loopback a)))"

definition trim_brackets :: "string \<Rightarrow> string" where
  "trim_brackets s =
     (let bracket = (\<lambda>c. c = CHR ''['' \<or> c = CHR '']'') in rev (dropWhile bracket (rev (dropWhile bracket s))))"

definition configured_host :: "http_env \<Rightarrow> string list \<Rightarrow> string option \<Rightarrow> bool" where
  "configured_host env allowed header =
     (case Option.bind (Option.bind header (header_text env)) (authority_host env) of
        None \<Rightarrow> False
      | Some h \<Rightarrow> list_ex (\<lambda>a. eq_ignore_ascii_case (trim_brackets h) (trim_brackets a)) allowed)"

section \<open>Routes\<close>

text \<open>The protected routes of \<open>router_with_provider_ca\<close>, with the method of each handler; those of the management
  API are nested below \<open>/api/v1/manage\<close>.\<close>

definition core_routes :: "(string \<times> string) list" where
  "core_routes =
     [(''GET'', ''/api/v1/info''), (''GET'', ''/api/v1/events''), (''GET'', ''/api/v1/auth/tokens''),
      (''POST'', ''/api/v1/auth/tokens''), (''POST'', ''/api/v1/auth/tokens/{id}/revoke''),
      (''GET'', ''/api/v1/secrets''), (''POST'', ''/api/v1/secrets''), (''DELETE'', ''/api/v1/secrets/{name}''),
      (''GET'', ''/api/v1/providers''), (''POST'', ''/api/v1/providers''), (''GET'', ''/api/v1/providers/{id}''),
      (''PUT'', ''/api/v1/providers/{id}''), (''DELETE'', ''/api/v1/providers/{id}''),
      (''POST'', ''/api/v1/providers/{id}/diagnose''), (''GET'', ''/api/v1/providers/minimax/capabilities''),
      (''GET'', ''/api/v1/providers/minimax/quota/{secret_name}''), (''GET'', ''/api/v1/artifacts/{id}''),
      (''GET'', ''/api/v1/plugins/{name}/manifest''), (''GET'', ''/api/v1/plugins/{id}/lifecycle''),
      (''GET'', ''/api/v1/plugins''), (''GET'', ''/api/v1/observation''), (''POST'', ''/api/v1/plugins/prepare''),
      (''POST'', ''/api/v1/plugin-installations/{id}/commit''), (''POST'', ''/api/v1/plugins/{id}/enable''),
      (''POST'', ''/api/v1/plugins/{id}/disable''), (''DELETE'', ''/api/v1/plugins/{id}''),
      (''POST'', ''/api/v1/mcp/call''), (''GET'', ''/api/v1/workflows''), (''POST'', ''/api/v1/workflows''),
      (''POST'', ''/api/v1/workflows/analyze''), (''GET'', ''/api/v1/workflows/catalog''),
      (''GET'', ''/api/v1/workflows/{id}/source''), (''PUT'', ''/api/v1/workflows/{id}/source''),
      (''GET'', ''/api/v1/workflows/{id}/revisions''), (''GET'', ''/api/v1/workflows/{id}/revisions/compare''),
      (''GET'', ''/api/v1/workflows/{id}/revisions/{revision}''), (''POST'', ''/api/v1/workflows/{id}/enable''),
      (''POST'', ''/api/v1/workflows/{id}/disable''), (''GET'', ''/api/v1/executions''),
      (''POST'', ''/api/v1/executions''), (''GET'', ''/api/v1/executions/{id}''),
      (''GET'', ''/api/v1/executions/{id}/trace''), (''POST'', ''/api/v1/executions/{id}/cancel'')]"

definition management_routes :: "(string \<times> string) list" where
  "management_routes =
     [(''GET'', ''/''), (''GET'', ''/workflows''), (''POST'', ''/workflows/resolve''),
      (''POST'', ''/workflows/import''), (''GET'', ''/workflows/{id}/source''),
      (''POST'', ''/workflows/{id}/validate''), (''POST'', ''/workflows/{id}/plan''),
      (''PUT'', ''/workflows/{id}/eligibility''), (''POST'', ''/workflows/{id}/executions''),
      (''GET'', ''/executions''), (''GET'', ''/executions/{id}''), (''POST'', ''/executions/{id}/cancel''),
      (''GET'', ''/executions/{id}/logs''), (''GET'', ''/triggers''),
      (''GET'', ''/triggers/{workflow_id}/{trigger_id}''), (''GET'', ''/plugins''), (''POST'', ''/plugins/prepare''),
      (''POST'', ''/plugins/commit''), (''DELETE'', ''/plugins/prepared/{id}''),
      (''POST'', ''/plugins/{id}/update/prepare''), (''GET'', ''/plugins/{id}/inspect''),
      (''GET'', ''/plugins/{id}/doctor''), (''GET'', ''/plugins/{id}/test''), (''DELETE'', ''/plugins/{id}''),
      (''GET'', ''/providers''), (''POST'', ''/providers''), (''GET'', ''/providers/{id}''),
      (''POST'', ''/providers/{id}/auth/prepare''), (''POST'', ''/providers/{id}/auth/commit''),
      (''POST'', ''/providers/{id}/test''), (''POST'', ''/providers/{id}/models''), (''GET'', ''/mcp''),
      (''POST'', ''/mcp''), (''GET'', ''/mcp/{name}''), (''POST'', ''/mcp/{name}/auth''),
      (''POST'', ''/mcp/{name}/tools/list''), (''POST'', ''/mcp/{name}/tools/call''), (''GET'', ''/secrets''),
      (''PUT'', ''/secrets/{name}''), (''DELETE'', ''/secrets/{name}'')]"

definition protected_routes :: "(string \<times> string) list" where
  "protected_routes =
     core_routes @ map (\<lambda>(m, p). (m, ''/api/v1/manage'' @ (if p = ''/'' then [] else p))) management_routes"

definition public_routes :: "(string \<times> string) list" where
  "public_routes =
     [(''GET'', ''/health/live''), (''GET'', ''/health/ready''), (''POST'', ''/api/v1/auth/pair/claim''),
      (''POST'', ''/api/v1/auth/pair/status''), (''POST'', ''/api/v1/auth/pair/exchange'')]"

text \<open>The paths that a pattern stands for: a segment in braces is any segment that is not empty.\<close>

definition segment_matches :: "string \<Rightarrow> string \<Rightarrow> bool" where
  "segment_matches p s = (if starts_with p ''{'' then s \<noteq> [] else s = p)"

definition route_matches :: "string \<Rightarrow> string \<Rightarrow> bool" where
  "route_matches pattern path = list_all2 segment_matches (split_on CHR ''/'' pattern) (split_on CHR ''/'' path)"

section \<open>Scopes\<close>

definition ends_with :: "string \<Rightarrow> string \<Rightarrow> bool" where
  "ends_with s p = starts_with (rev s) (rev p)"

definition is_management :: "string \<Rightarrow> bool" where
  "is_management path \<longleftrightarrow> path = ''/api/v1/manage'' \<or> starts_with path ''/api/v1/manage/''"

definition required_scope :: "string \<Rightarrow> string \<Rightarrow> auth_scope" where
  "required_scope m path =
     (if starts_with path ''/api/v1/auth/'' then Admin
      else if (starts_with path ''/api/v1/plugins'' \<or> starts_with path ''/api/v1/plugin-installations'') \<and> m \<noteq> ''GET''
      then Admin
      else if starts_with path ''/api/v1/secrets'' then Manage
      else if path = ''/api/v1/providers/minimax/quota'' \<or> starts_with path ''/api/v1/providers/minimax/quota/'' then Manage
      else if m = ''POST'' \<and> path = ''/api/v1/executions'' then Run
      else if m = ''GET'' then Read
      else Manage)"

definition management_route_scope :: "string \<Rightarrow> string \<Rightarrow> auth_scope" where
  "management_route_scope m route =
     (if route = ''/plugins'' \<or> starts_with route ''/plugins/'' then (if m = ''GET'' then Read else Admin)
      else if route = ''/secrets'' \<or> starts_with route ''/secrets/'' then Manage
      else if m = ''POST'' \<and> (route = ''/workflows/resolve'' \<or> ends_with route ''/validate'' \<or> ends_with route ''/plan'')
      then Read
      else if m = ''POST'' \<and> (route = ''/workflows/import'' \<or> ends_with route ''/eligibility''
                           \<or> starts_with route ''/providers'' \<or> starts_with route ''/mcp'')
      then Manage
      else if m = ''POST'' \<and> (starts_with route ''/workflows/'' \<and> ends_with route ''/executions''
                           \<or> starts_with route ''/executions/'' \<and> ends_with route ''/cancel'')
      then Run
      else if m = ''GET'' then Read
      else Manage)"

definition required_management_scope :: "string \<Rightarrow> string \<Rightarrow> auth_scope" where
  "required_management_scope m path =
     management_route_scope m
       (if starts_with path ''/api/v1/manage'' then drop (length ''/api/v1/manage'') path else path)"

definition request_scope :: "string \<Rightarrow> string \<Rightarrow> auth_scope" where
  "request_scope m path = (if is_management path then required_management_scope m path else required_scope m path)"

text \<open>What each scope is for: \<open>read\<close> permits queries, \<open>run\<close> the creation and cancellation of runs, \<open>manage\<close>
  changes to workflows, providers and connections and everything about secrets, \<open>admin\<close> tokens and plugins.\<close>

fun scope_routes :: "auth_scope \<Rightarrow> (string \<times> string) list" where
  "scope_routes Read =
     [(''GET'', ''/api/v1/info''), (''GET'', ''/api/v1/events''), (''GET'', ''/api/v1/providers''),
      (''GET'', ''/api/v1/providers/{id}''), (''GET'', ''/api/v1/providers/minimax/capabilities''),
      (''GET'', ''/api/v1/artifacts/{id}''), (''GET'', ''/api/v1/plugins/{name}/manifest''),
      (''GET'', ''/api/v1/plugins/{id}/lifecycle''), (''GET'', ''/api/v1/plugins''),
      (''GET'', ''/api/v1/observation''), (''GET'', ''/api/v1/workflows''), (''GET'', ''/api/v1/workflows/catalog''),
      (''GET'', ''/api/v1/workflows/{id}/source''), (''GET'', ''/api/v1/workflows/{id}/revisions''),
      (''GET'', ''/api/v1/workflows/{id}/revisions/compare''),
      (''GET'', ''/api/v1/workflows/{id}/revisions/{revision}''), (''GET'', ''/api/v1/executions''),
      (''GET'', ''/api/v1/executions/{id}''), (''GET'', ''/api/v1/executions/{id}/trace''),
      (''GET'', ''/api/v1/manage''), (''GET'', ''/api/v1/manage/workflows''),
      (''POST'', ''/api/v1/manage/workflows/resolve''), (''GET'', ''/api/v1/manage/workflows/{id}/source''),
      (''POST'', ''/api/v1/manage/workflows/{id}/validate''), (''POST'', ''/api/v1/manage/workflows/{id}/plan''),
      (''GET'', ''/api/v1/manage/executions''), (''GET'', ''/api/v1/manage/executions/{id}''),
      (''GET'', ''/api/v1/manage/executions/{id}/logs''), (''GET'', ''/api/v1/manage/triggers''),
      (''GET'', ''/api/v1/manage/triggers/{workflow_id}/{trigger_id}''), (''GET'', ''/api/v1/manage/plugins''),
      (''GET'', ''/api/v1/manage/plugins/{id}/inspect''), (''GET'', ''/api/v1/manage/plugins/{id}/doctor''),
      (''GET'', ''/api/v1/manage/plugins/{id}/test''), (''GET'', ''/api/v1/manage/providers''),
      (''GET'', ''/api/v1/manage/providers/{id}''), (''GET'', ''/api/v1/manage/mcp''),
      (''GET'', ''/api/v1/manage/mcp/{name}'')]"
| "scope_routes Run =
     [(''POST'', ''/api/v1/executions''), (''POST'', ''/api/v1/manage/workflows/{id}/executions''),
      (''POST'', ''/api/v1/manage/executions/{id}/cancel'')]"
| "scope_routes Manage =
     [(''GET'', ''/api/v1/secrets''), (''POST'', ''/api/v1/secrets''), (''DELETE'', ''/api/v1/secrets/{name}''),
      (''POST'', ''/api/v1/providers''), (''PUT'', ''/api/v1/providers/{id}''),
      (''DELETE'', ''/api/v1/providers/{id}''), (''POST'', ''/api/v1/providers/{id}/diagnose''),
      (''GET'', ''/api/v1/providers/minimax/quota/{secret_name}''), (''POST'', ''/api/v1/mcp/call''),
      (''POST'', ''/api/v1/workflows''), (''POST'', ''/api/v1/workflows/analyze''),
      (''PUT'', ''/api/v1/workflows/{id}/source''), (''POST'', ''/api/v1/workflows/{id}/enable''),
      (''POST'', ''/api/v1/workflows/{id}/disable''), (''POST'', ''/api/v1/executions/{id}/cancel''),
      (''POST'', ''/api/v1/manage/workflows/import''), (''PUT'', ''/api/v1/manage/workflows/{id}/eligibility''),
      (''POST'', ''/api/v1/manage/providers''), (''POST'', ''/api/v1/manage/providers/{id}/auth/prepare''),
      (''POST'', ''/api/v1/manage/providers/{id}/auth/commit''), (''POST'', ''/api/v1/manage/providers/{id}/test''),
      (''POST'', ''/api/v1/manage/providers/{id}/models''), (''POST'', ''/api/v1/manage/mcp''),
      (''POST'', ''/api/v1/manage/mcp/{name}/auth''), (''POST'', ''/api/v1/manage/mcp/{name}/tools/list''),
      (''POST'', ''/api/v1/manage/mcp/{name}/tools/call''), (''GET'', ''/api/v1/manage/secrets''),
      (''PUT'', ''/api/v1/manage/secrets/{name}''), (''DELETE'', ''/api/v1/manage/secrets/{name}'')]"
| "scope_routes Admin =
     [(''GET'', ''/api/v1/auth/tokens''), (''POST'', ''/api/v1/auth/tokens''),
      (''POST'', ''/api/v1/auth/tokens/{id}/revoke''), (''POST'', ''/api/v1/plugins/prepare''),
      (''POST'', ''/api/v1/plugin-installations/{id}/commit''), (''POST'', ''/api/v1/plugins/{id}/enable''),
      (''POST'', ''/api/v1/plugins/{id}/disable''), (''DELETE'', ''/api/v1/plugins/{id}''),
      (''POST'', ''/api/v1/manage/plugins/prepare''), (''POST'', ''/api/v1/manage/plugins/commit''),
      (''DELETE'', ''/api/v1/manage/plugins/prepared/{id}''),
      (''POST'', ''/api/v1/manage/plugins/{id}/update/prepare''), (''DELETE'', ''/api/v1/manage/plugins/{id}'')]"

section \<open>What an address looks like\<close>

text \<open>What a reader consumes: a piece of the text whose characters are all of a kind.\<close>

definition consumes :: "(char \<Rightarrow> bool) \<Rightarrow> string \<Rightarrow> string \<Rightarrow> bool" where
  "consumes P s r \<longleftrightarrow> (\<exists>t. s = t @ r \<and> list_all P t)"

lemma consumes_refl [simp]: "consumes P s s"
  by (simp add: consumes_def)

lemma consumes_Cons: "P c \<Longrightarrow> consumes P s r \<Longrightarrow> consumes P (c # s) r"
  unfolding consumes_def by (metis append_Cons list.pred_inject(2))

lemma consumes_trans: "consumes P s r \<Longrightarrow> consumes P r t \<Longrightarrow> consumes P s t"
  unfolding consumes_def by (metis append.assoc list_all_append)

lemma consumes_mono: "consumes P s r \<Longrightarrow> (\<And>c. P c \<Longrightarrow> Q c) \<Longrightarrow> consumes Q s r"
  unfolding consumes_def by (metis (no_types, lifting) list.pred_mono_strong)

lemma consumes_set: "consumes P s r \<Longrightarrow> set r \<subseteq> set s"
  by (auto simp: consumes_def)

definition dotted :: "char \<Rightarrow> bool" where
  "dotted c \<longleftrightarrow> is_ascii_digit c \<or> c = CHR ''.''"

lemma to_digit_decimal: "to_digit 10 c = Some d \<Longrightarrow> is_ascii_digit c"
  by (auto simp: to_digit_def hex_value_def is_ascii_digit_def split: option.splits if_splits)

lemma read_digits_consumes:
  "read_digits radix digits bound v n s = Some (w, k, r) \<Longrightarrow> consumes (\<lambda>c. to_digit radix c \<noteq> None) s r"
proof (induction s arbitrary: v n)
  case (Cons c s)
  then show ?case by (auto split: option.splits if_splits intro: consumes_Cons)
qed simp

lemma read_number_consumes:
  "read_number radix digits z bound s = Some (v, r) \<Longrightarrow> consumes (\<lambda>c. to_digit radix c \<noteq> None) s r"
  by (auto simp: read_number_def split: option.splits if_splits dest: read_digits_consumes)

lemma read_separator_consumes:
  assumes "read_separator c i inner s = Some x" and "\<And>s x. inner s = Some x \<Longrightarrow> consumes P s (f x)" and "P c"
  shows "consumes P s (f x)"
  using assms by (auto simp: read_separator_def read_given_char_def bind_eq_Some_conv intro: consumes_Cons
      split: if_splits list.splits)

lemma read_octets_consumes: "read_octets k i s = Some (vs, r) \<Longrightarrow> consumes dotted s r"
proof (induction k i s arbitrary: vs r rule: read_octets.induct)
  case (2 k i s)
  then obtain v t us where v: "read_separator CHR ''.'' i (read_number 10 3 False 255) s = Some (v, t)"
    and us: "read_octets k (Suc i) t = Some (us, r)" by (auto simp: bind_eq_Some_conv)
  have "consumes dotted s' (snd x)" if "read_number 10 3 False 255 s' = Some x" for s' x
    using that read_number_consumes [of 10 3 False 255 s' "fst x" "snd x"]
    by (auto intro!: consumes_mono [of _ s' "snd x" dotted] dest: to_digit_decimal simp: dotted_def)
  from read_separator_consumes [where f = snd, OF v this] have "consumes dotted s t" by (simp add: dotted_def)
  with 2(1) [OF v refl us] show ?case by (blast intro: consumes_trans)
qed simp

lemma read_ipv4_consumes: "read_ipv4_addr s = Some (v, r) \<Longrightarrow> consumes dotted s r"
  by (simp add: read_ipv4_addr_def read_octets_consumes)

lemma no_colon_given: "CHR '':'' \<notin> set s \<Longrightarrow> read_given_char CHR '':'' s = None"
  by (auto simp: read_given_char_def split: list.splits)

lemma no_colon_groups: "CHR '':'' \<notin> set s \<Longrightarrow> read_groups k (Suc i) s = ([], False, s)"
  by (cases k) (simp_all add: read_separator_def no_colon_given)

lemma first_separator: "read_separator c 0 inner = inner"
  by (simp add: read_separator_def fun_eq_iff)

lemma first_group:
  "read_groups (Suc k) 0 s =
     (case if 0 < k then read_ipv4_addr s else None of
        Some (v, r) \<Rightarrow> ([256 * v ! 0 + v ! 1, 256 * v ! 2 + v ! 3], True, r)
      | None \<Rightarrow>
          (case read_number 16 4 True 65535 s of
             None \<Rightarrow> ([], False, s)
           | Some (g, r) \<Rightarrow> (case read_groups k (Suc 0) r of (gs, v4, t) \<Rightarrow> (g # gs, v4, t))))"
  unfolding read_groups.simps first_separator ..

lemma no_colon_group:
  assumes "CHR '':'' \<notin> set s" and "read_groups (Suc k) 0 s = (gs, v4, r)"
  shows "length gs \<le> 2 \<and> set r \<subseteq> set s"
proof (cases "if 0 < k then read_ipv4_addr s else None")
  case None
  show ?thesis
  proof (cases "read_number 16 4 True 65535 s")
    case (Some x)
    then have "set (snd x) \<subseteq> set s" by (metis consumes_set prod.collapse read_number_consumes)
    moreover from this assms(1) have "CHR '':'' \<notin> set (snd x)" by blast
    ultimately show ?thesis
      using assms(2) unfolding first_group None Some by (auto simp: no_colon_groups split: prod.splits)
  qed (use assms(2) [unfolded first_group None] in simp)
next
  case (Some x)
  then have "consumes dotted s (snd x)" by (metis option.distinct(1) prod.collapse read_ipv4_consumes)
  with assms(2) show ?thesis unfolding first_group Some by (auto split: prod.splits dest: consumes_set)
qed

lemma no_colon_ipv6:
  assumes "CHR '':'' \<notin> set s"
  shows "read_ipv6_addr s = None"
proof -
  obtain gs v4 r where r: "read_groups 8 0 s = (gs, v4, r)" by (rule prod_cases3)
  then have "length gs \<le> 2 \<and> set r \<subseteq> set s" using no_colon_group [OF assms, of 7 gs v4 r] by (simp add: eval_nat_numeral)
  moreover from this assms have "CHR '':'' \<notin> set r" by blast
  ultimately show ?thesis using r by (simp add: read_ipv6_addr_def no_colon_given)
qed

lemma plain_address:
  assumes "parse_ip s = Some a" and "CHR '':'' \<notin> set s"
  shows "list_all dotted s"
  using assms no_colon_ipv6 [OF assms(2)]
  by (auto simp: parse_ip_def consumes_def split: option.splits if_splits dest!: read_ipv4_consumes)

lemma split_on_parts: "list_all (\<lambda>s. c \<notin> set s) (split_on c s)"
  by (induction s) (auto split: list.split)

lemma host_name_no_colon: "\<not> starts_with host ''['' \<Longrightarrow> CHR '':'' \<notin> set (host_name host)"
  using split_on_parts [of "CHR '':''" host] by (cases "split_on CHR '':'' host") (auto simp: host_name_def)

section \<open>Every route has its scope\<close>

lemma join_split [simp]: "join_str [c] (split_on c s) = s"
proof (induction s)
  case (Cons d s)
  obtain p ps where "split_on c s = p # ps" by (cases "split_on c s") auto
  with Cons show ?case by (cases ps) auto
qed simp

text \<open>A property of all paths that a pattern stands for, segment by segment.\<close>

fun all_paths :: "string list \<Rightarrow> (string list \<Rightarrow> bool) \<Rightarrow> bool" where
  "all_paths [] P = P []"
| "all_paths (p # ps) P =
     (if starts_with p ''{'' then \<forall>x. x \<noteq> [] \<and> CHR ''/'' \<notin> set x \<longrightarrow> all_paths ps (\<lambda>ts. P (x # ts))
      else all_paths ps (\<lambda>ts. P (p # ts)))"

lemma all_paths_matched:
  "all_paths ps P \<Longrightarrow> list_all2 segment_matches ps ss \<Longrightarrow> list_all (\<lambda>s. CHR ''/'' \<notin> set s) ss \<Longrightarrow> P ss"
proof (induction ps arbitrary: P ss)
  case (Cons p ps)
  then obtain x ts where ss: "ss = x # ts" "segment_matches p x" "list_all2 segment_matches ps ts" "CHR ''/'' \<notin> set x"
      "list_all (\<lambda>s. CHR ''/'' \<notin> set s) ts"
    by (auto simp: list_all2_Cons1)
  with Cons.prems(1) have "all_paths ps (\<lambda>ts. P (x # ts))" by (simp add: segment_matches_def split: if_splits)
  from Cons.IH [OF this] ss show ?case by simp
qed simp

definition scoped :: "auth_scope \<Rightarrow> string \<times> string \<Rightarrow> bool" where
  "scoped sc r \<longleftrightarrow> all_paths (split_on CHR ''/'' (snd r)) (\<lambda>ss. request_scope (fst r) (join_str ''/'' ss) = sc)"

lemma scoped_matches:
  assumes "scoped sc (m, p)" and "route_matches p path"
  shows "request_scope m path = sc"
proof -
  have "all_paths (split_on CHR ''/'' p) (\<lambda>ss. request_scope m (join_str ''/'' ss) = sc)"
    using assms(1) by (simp add: scoped_def)
  from all_paths_matched [OF this assms(2) [unfolded route_matches_def] split_on_parts] show ?thesis by simp
qed

lemma starts_with_set: "starts_with s p \<Longrightarrow> set p \<subseteq> set s"
  by (auto simp: starts_with_prefix prefix_def)

lemma no_slash: "CHR ''/'' \<notin> set s \<Longrightarrow> CHR ''/'' \<in> set p \<Longrightarrow> \<not> starts_with s p"
  using starts_with_set by blast

lemma starts_with_append [simp]: "starts_with (p @ s) p" "starts_with (p @ s) (p @ q) = starts_with s q"
  by (induction p) auto

lemma stripped: "(if starts_with (p @ r) p then drop (length p) (p @ r) else p @ r) = r"
  by simp

lemma management_scope: "request_scope m (''/api/v1/manage/'' @ r) = management_route_scope m (CHR ''/'' # r)"
proof -
  have "''/api/v1/manage/'' @ r = ''/api/v1/manage'' @ CHR ''/'' # r" by simp
  moreover have "is_management (''/api/v1/manage/'' @ r)" by (simp only: is_management_def starts_with_append) simp
  ultimately show ?thesis by (simp only: request_scope_def required_management_scope_def stripped if_True)
qed

lemma starts_with_shorter: "starts_with s (p @ q) \<Longrightarrow> starts_with s p"
  by (auto simp: starts_with_prefix prefix_def)

lemma core_scope:
  assumes "\<not> starts_with r ''manage''"
  shows "request_scope m (''/api/v1/'' @ r) =
     (if starts_with r ''auth/'' then Admin
      else if (starts_with r ''plugins'' \<or> starts_with r ''plugin-installations'') \<and> m \<noteq> ''GET'' then Admin
      else if starts_with r ''secrets'' then Manage
      else if r = ''providers/minimax/quota'' \<or> starts_with r ''providers/minimax/quota/'' then Manage
      else if m = ''POST'' \<and> r = ''executions'' then Run
      else if m = ''GET'' then Read
      else Manage)"
proof -
  have "\<not> is_management (''/api/v1/'' @ r)"
    using assms starts_with_shorter [of r "''manage''" "''/''"] by (auto simp: is_management_def)
  then show ?thesis by (simp add: request_scope_def required_scope_def)
qed

lemma management_root: "request_scope m ''/api/v1/manage'' = management_route_scope m []"
  by (simp add: request_scope_def is_management_def required_management_scope_def)

lemmas scope_simps =
  scoped_def management_root management_scope [simplified] core_scope [simplified]
  management_route_scope_def ends_with_def no_slash

lemma run_scoped: "list_all (scoped Run) (scope_routes Run)"
  by (simp add: scope_simps)

lemma admin_scoped: "list_all (scoped Admin) (scope_routes Admin)"
  by (simp add: scope_simps)

lemma manage_scoped: "list_all (scoped Manage) (scope_routes Manage)"
  by (simp add: scope_simps)

lemma read_scoped: "list_all (scoped Read) (scope_routes Read)"
  by (simp add: scope_simps)

text \<open>The table lists the routes of the router in their order, each under the scope of its pattern.\<close>

lemma table_rows: "scope_routes sc = filter (\<lambda>(m, p). request_scope m p = sc) protected_routes"
proof (cases sc)
  case Read
  show ?thesis unfolding Read by code_simp
next
  case Run
  show ?thesis unfolding Run by code_simp
next
  case Manage
  show ?thesis unfolding Manage by code_simp
next
  case Admin
  show ?thesis unfolding Admin by code_simp
qed

section \<open>Properties\<close>

text \<open>C13: Every protected route of the API asks for the scope of its resource: the table of scopes has exactly the routes of
  the router, and a request that matches a route of the table, whatever identifiers its path contains, needs the scope
  under which the table lists the route.\<close>

theorem routes_need_their_scope:
  "set protected_routes = (\<Union>sc. set (scope_routes sc))
   \<and> (\<forall>sc. \<forall>(m, p) \<in> set (scope_routes sc). \<forall>path. route_matches p path \<longrightarrow> request_scope m path = sc)"
proof
  show "set protected_routes = (\<Union>sc. set (scope_routes sc))" unfolding table_rows by auto
  have "list_all (scoped sc) (scope_routes sc)" for sc
    by (cases sc) (simp_all only: read_scoped run_scoped manage_scoped admin_scoped)
  then show "\<forall>sc. \<forall>(m, p) \<in> set (scope_routes sc). \<forall>path. route_matches p path \<longrightarrow> request_scope m path = sc"
    unfolding list_all_iff using scoped_matches by fast
qed

text \<open>A web page cannot reach Core under a name of its own: a request whose \<open>Host\<close> header is accepted as local names, when
  it is not an address in brackets, \<open>localhost\<close> in some spelling or an address of digits and dots, never a domain.\<close>

theorem local_host_is_no_domain:
  assumes "allowed_host env (Some v)"
  shows "\<exists>host. header_text env v = Some host
    \<and> (starts_with host ''['' \<or> eq_ignore_ascii_case (host_name host) ''localhost'' \<or> list_all dotted (host_name host))"
proof -
  obtain host where host: "header_text env v = Some host"
    and name: "eq_ignore_ascii_case (host_name host) ''localhost'' \<or> parse_ip (host_name host) \<noteq> None"
    using assms by (auto simp: allowed_host_def split: option.splits)
  moreover have "list_all dotted (host_name host)"
    if "\<not> starts_with host ''[''" "parse_ip (host_name host) = Some a" for a
    using plain_address [OF that(2) host_name_no_colon [OF that(1)]] .
  ultimately show ?thesis by blast
qed

theorem local_host_is_no_domain_witness:
  "allowed_host \<lparr>header_text = Some, authority_host = Some\<rparr> (Some ''127.0.0.1:8787'')
   \<and> (\<exists>host. header_text \<lparr>header_text = Some, authority_host = Some\<rparr> ''127.0.0.1:8787'' = Some host \<and> list_all dotted (host_name host))"
proof -
  have "allowed_host \<lparr>header_text = Some, authority_host = Some\<rparr> (Some ''127.0.0.1:8787'')" by code_simp
  moreover have "\<not> starts_with ''127.0.0.1:8787'' ''['' \<and> \<not> eq_ignore_ascii_case (host_name ''127.0.0.1:8787'') ''localhost''" by code_simp
  moreover note local_host_is_no_domain [OF calculation(1)]
  ultimately have "\<exists>host. header_text \<lparr>header_text = Some, authority_host = Some\<rparr> ''127.0.0.1:8787'' = Some host
      \<and> list_all dotted (host_name host)" by auto
  then show ?thesis using \<open>allowed_host _ _\<close> by blast
qed

theorem routes_need_their_scope_witness:
  "request_scope ''POST'' ''/api/v1/manage/workflows/plan/executions'' = Run"
proof -
  have "(''POST'', ''/api/v1/manage/workflows/{id}/executions'') \<in> set (scope_routes Run)" by simp
  moreover have "route_matches ''/api/v1/manage/workflows/{id}/executions'' ''/api/v1/manage/workflows/plan/executions''"
    by code_simp
  ultimately show ?thesis using conjunct2 [OF routes_need_their_scope] by fast
qed

end
