(* ===== verification/Api_Gate.thy ===== *)
theory Api_Gate
  imports Api_Routes
begin

text \<open>
  What happens to a request before a handler sees it (\<open>src/api.rs\<close>, \<open>src/management.rs\<close>): errors and their
  redacted messages, the rate limit, the limits on the body, the token, and the layers of the router in their order.
  The handlers are a parameter; so are the \<open>http\<close> crate, the way axum matches a path with the pattern of a route, JSON
  and the clock, whose readings are arguments.
\<close>

section \<open>Errors of the management API\<close>

datatype management_error_code =
    InvalidRequest | Unauthenticated | Forbidden | ResourceNotFound | ResourceConflict | PreconditionFailed
  | PayloadTooLarge | InvalidOperation | Unsupported | UpstreamFailure | DeadlineExceeded | InternalError

fun http_status :: "management_error_code \<Rightarrow> nat" where
  "http_status InvalidRequest = 400"
| "http_status Unauthenticated = 401"
| "http_status Forbidden = 403"
| "http_status ResourceNotFound = 404"
| "http_status ResourceConflict = 409"
| "http_status PreconditionFailed = 412"
| "http_status PayloadTooLarge = 413"
| "http_status InvalidOperation = 422"
| "http_status Unsupported = 501"
| "http_status UpstreamFailure = 502"
| "http_status DeadlineExceeded = 504"
| "http_status InternalError = 500"

fun guidance :: "management_error_code \<Rightarrow> string" where
  "guidance InvalidRequest = ''Check the request syntax and documented limits.''"
| "guidance Unauthenticated = ''Provide a valid Core credential.''"
| "guidance Forbidden = ''Use a credential with the required management scope.''"
| "guidance ResourceNotFound = ''Verify the selected resource and Core context.''"
| "guidance ResourceConflict = ''Refresh the resource and resolve the reported conflict.''"
| "guidance PreconditionFailed = ''Read the current revision and retry with its revision guard.''"
| "guidance PayloadTooLarge = ''Reduce the encoded request or source to its documented limit.''"
| "guidance InvalidOperation = ''Correct the supplied definition or operation input.''"
| "guidance Unsupported = ''This Core does not support the requested operation.''"
| "guidance UpstreamFailure = ''Check the configured integration and retry explicitly if safe.''"
| "guidance DeadlineExceeded = ''The bounded operation did not finish before its deadline.''"
| "guidance InternalError = ''Inspect sanitized Core diagnostics; do not repeat mutations automatically.''"

definition credential_markers :: "string list" where
  "credential_markers = [''Bearer '', ''bearer '', ''api_key='', ''apiKey='', ''token='']"

definition redacted :: string where "redacted = ''[redacted]''"

text \<open>The loop over one marker.  Each marker ends in a character that the replacement does not have, so that the
  loop ends; for any other marker the model leaves the text alone.\<close>

definition marker_ok :: "string \<Rightarrow> bool" where
  "marker_ok m \<longleftrightarrow> m \<noteq> [] \<and> last m \<notin> set redacted \<and> CHR ''['' \<notin> set m \<and> CHR '']'' \<notin> set m"

function redact :: "string \<Rightarrow> string \<Rightarrow> string" where
  "redact m s =
     (if \<not> marker_ok m then s
      else (case split_str m s of
          None \<Rightarrow> s
        | Some (before, rest) \<Rightarrow> redact m (before @ redacted @ snd (take_word rest))))"
  by pat_completeness auto

lemma take_word_append: "fst (take_word s) @ snd (take_word s) = s"
  by (induction s) (auto split: prod.splits)

lemma count_list_append [simp]: "count_list (xs @ ys) x = count_list xs x + count_list ys x"
  by (induction xs) auto

lemma take_word_count: "count_list (snd (take_word s)) c \<le> count_list s c"
  using count_list_append [of "fst (take_word s)" "snd (take_word s)" c] by (simp add: take_word_append)

termination redact
proof (relation "measure (\<lambda>(m, s). count_list s (last m))", simp)
  fix m s x before rest
  assume *: "\<not> \<not> marker_ok m" "split_str m s = Some x" "(before, rest) = x"
  then have s: "s = before @ m @ rest" using split_str_append by metis
  have "count_list redacted (last m) = 0" using *(1) by (auto simp: marker_ok_def count_list_0_iff)
  moreover have "0 < count_list m (last m)"
    using *(1) by (metis count_list_0_iff gr0I last_in_set marker_ok_def)
  ultimately show "((m, before @ redacted @ snd (take_word rest)), m, s) \<in> measure (\<lambda>(m, s). count_list s (last m))"
    using take_word_count [of rest "last m"] by (simp add: s)
qed

declare redact.simps [simp del]

definition sanitize_message :: "string \<Rightarrow> string" where
  "sanitize_message s = fold redact credential_markers s"

record management_error =
  me_code :: management_error_code
  me_message :: string
  me_guidance :: string
  me_details :: "json option"

definition management_error_new :: "management_error_code \<Rightarrow> string \<Rightarrow> management_error" where
  "management_error_new code message =
     \<lparr>me_code = code, me_message = sanitize_message message, me_guidance = guidance code, me_details = None\<rparr>"

section \<open>What is left of a message\<close>

lemma starts_with_cut: "c \<notin> set m \<Longrightarrow> starts_with (u @ c # v) m = starts_with u m"
proof (induction u m rule: starts_with.induct)
  case (2 p ps)
  then show ?case by auto
qed auto

lemma contains_cut:
  assumes "c \<notin> set m" and "m \<noteq> []"
  shows "contains_str (u @ c # v) m \<longleftrightarrow> contains_str u m \<or> contains_str v m"
proof (induction u)
  case Nil
  show ?case using starts_with_cut [OF assms(1), of "[]"] assms(2) by (cases m) auto
next
  case (Cons d u)
  with starts_with_cut [OF assms(1), of "d # u"] show ?case by auto
qed

lemma contains_suffix: "contains_str v m \<Longrightarrow> contains_str (u @ v) m"
  by (induction u) auto

lemma contains_prefix: "contains_str u m \<Longrightarrow> contains_str (u @ v) m"
proof (induction u)
  case Nil
  then show ?case by (cases v) auto
next
  case (Cons a u)
  then show ?case by (auto simp: starts_with_prefix) (metis append_Cons prefix_append)
qed

lemma redacted_word: "marker_ok m \<Longrightarrow> contains_str (a @ redacted @ r) m \<longleftrightarrow> contains_str a m \<or> contains_str r m"
proof -
  assume m: "marker_ok m"
  have "a @ redacted @ r = a @ CHR ''['' # ''redacted'' @ CHR '']'' # r" by (simp add: redacted_def)
  moreover have "\<not> contains_str ''redacted'' m"
  proof
    assume "contains_str ''redacted'' m"
    then obtain x y where "''redacted'' = x @ m @ y" unfolding contains_split using split_str_append by fast
    with m have "last m \<in> set ''redacted''" by (metis UnCI last_in_set marker_ok_def set_append)
    with m show False by (auto simp: marker_ok_def redacted_def)
  qed
  ultimately show ?thesis using m contains_cut unfolding marker_ok_def by metis
qed

lemma redact_keeps:
  "marker_ok k \<Longrightarrow> \<not> contains_str s k \<Longrightarrow> \<not> contains_str (redact m s) k"
proof (induction m s rule: redact.induct)
  case (1 m s)
  show ?case
  proof (cases "marker_ok m \<and> split_str m s \<noteq> None")
    case True
    then obtain a b where s: "split_str m s = Some (a, b)" "marker_ok m" by auto
    then have whole: "s = a @ m @ fst (take_word b) @ snd (take_word b)" by (simp add: split_str_append take_word_append)
    then have "\<not> contains_str a k" "\<not> contains_str (snd (take_word b)) k"
      using 1(3) contains_suffix contains_prefix by (metis append.assoc)+
    with 1(1) [of "(a, b)" a b] 1(2) s show ?thesis by (simp add: redact.simps [of m s] redacted_word)
  qed (use 1(3) in \<open>auto simp: redact.simps [of m s] split: option.splits\<close>)
qed

lemma redact_removes: "marker_ok m \<Longrightarrow> \<not> contains_str (redact m s) m"
proof (induction m s rule: redact.induct)
  case (1 m s)
  then show ?case by (cases "split_str m s") (auto simp: redact.simps [of m s] contains_split)
qed

lemma markers_ok: "list_all marker_ok credential_markers"
  by code_simp

lemma fold_redact:
  assumes "list_all marker_ok ms" and "marker_ok k" and "k \<in> set ms \<or> \<not> contains_str s k"
  shows "\<not> contains_str (fold redact ms s) k"
  using assms
proof (induction ms arbitrary: s)
  case (Cons m ms)
  then have "k \<in> set ms \<or> \<not> contains_str (redact m s) k" using redact_removes [of m s] redact_keeps [of k s m] by auto
  with Cons show ?case by simp
qed simp

section \<open>The rate limit\<close>

record rate_limit =
  rl_started_at :: nat
  rl_requests :: nat

abbreviation nanos_per_second :: nat where "nanos_per_second \<equiv> 1000000000"

text \<open>Instants are nanoseconds; \<open>t\<close> is the reading that gives the elapsed time, \<open>t'\<close> the one that starts a new
  minute.  Nothing under the lock panics, so that the lock is never poisoned.\<close>

definition take_rate_limit :: "nat \<Rightarrow> nat \<Rightarrow> nat \<Rightarrow> rate_limit \<Rightarrow> (nat + unit) \<times> rate_limit" where
  "take_rate_limit limit t t' rl =
     (let secs = (t - rl_started_at rl) div nanos_per_second;
          rl1 = (if 60 \<le> secs then \<lparr>rl_started_at = t', rl_requests = 0\<rparr> else rl)
      in if limit \<le> rl_requests rl1 then (Inl (60 - min secs 60), rl1)
         else (Inr (), rl1\<lparr>rl_requests := Suc (rl_requests rl1)\<rparr>))"

text \<open>The moments at which a sequence of requests was let through, and the readings of a clock that does not run
  backwards.\<close>

fun accepted_at :: "nat \<Rightarrow> rate_limit \<Rightarrow> (nat \<times> nat) list \<Rightarrow> nat list" where
  "accepted_at limit rl [] = []"
| "accepted_at limit rl ((t, t') # calls) =
     (case take_rate_limit limit t t' rl of (r, rl') \<Rightarrow>
        (if is_ok r then [t] else []) @ accepted_at limit rl' calls)"

fun clock_runs :: "nat \<Rightarrow> (nat \<times> nat) list \<Rightarrow> bool" where
  "clock_runs now [] = True"
| "clock_runs now ((t, t') # calls) = (now \<le> t \<and> t \<le> t' \<and> clock_runs t' calls)"

abbreviation accepted_before :: "nat \<Rightarrow> nat list \<Rightarrow> nat" where
  "accepted_before u ts \<equiv> length (filter (\<lambda>t. t < u) ts)"

lemma full_minute: "60 \<le> x div nanos_per_second \<longleftrightarrow> 60 * nanos_per_second \<le> x"
  by (simp add: less_eq_div_iff_mult_less_eq)

lemma same_minute:
  "t < rl_started_at rl + 60 * nanos_per_second \<Longrightarrow> take_rate_limit limit t t' rl =
     (if limit \<le> rl_requests rl then (Inl (60 - min ((t - rl_started_at rl) div nanos_per_second) 60), rl)
      else (Inr (), rl\<lparr>rl_requests := Suc (rl_requests rl)\<rparr>))"
  unfolding take_rate_limit_def Let_def full_minute by auto

lemma next_minute:
  "rl_started_at rl + 60 * nanos_per_second \<le> t \<Longrightarrow> take_rate_limit limit t t' rl =
     (if limit = 0 then (Inl 0, \<lparr>rl_started_at = t', rl_requests = 0\<rparr>)
      else (Inr (), \<lparr>rl_started_at = t', rl_requests = 1\<rparr>))"
  using full_minute [of "t - rl_started_at rl"] unfolding take_rate_limit_def Let_def by auto

lemma clock_runs_mono: "clock_runs now calls \<Longrightarrow> now' \<le> now \<Longrightarrow> clock_runs now' calls"
  by (cases calls) auto

lemma accepted_after: "clock_runs now calls \<Longrightarrow> u \<in> set (accepted_at limit rl calls) \<Longrightarrow> now \<le> u"
proof (induction calls arbitrary: now rl)
  case (Cons c calls)
  obtain t t' where c: "c = (t, t')" by (cases c)
  from Cons.prems(2) have "u = t \<or> u \<in> set (accepted_at limit (snd (take_rate_limit limit t t' rl)) calls)"
    by (auto simp: c case_prod_unfold split: if_splits)
  with Cons.IH [of t'] Cons.prems(1) show ?case by (force simp: c)
qed simp

lemma minute_bound:
  assumes "clock_runs now calls" and "rl_requests rl \<le> limit"
  shows "accepted_before (rl_started_at rl + 60 * nanos_per_second) (accepted_at limit rl calls) \<le> limit - rl_requests rl"
  using assms
proof (induction calls arbitrary: now rl)
  case (Cons c calls)
  obtain t t' where c: "c = (t, t')" by (cases c)
  show ?case
  proof (cases "t < rl_started_at rl + 60 * nanos_per_second")
    case True
    with Cons.IH [of t' "rl\<lparr>rl_requests := Suc (rl_requests rl)\<rparr>"] Cons.IH [of t' rl] Cons.prems show ?thesis
      by (auto simp: c same_minute is_ok_def)
  next
    case False
    have "\<not> u < rl_started_at rl + 60 * nanos_per_second" if "u \<in> set (accepted_at limit rl (c # calls))" for u
      using accepted_after [OF _ that, of t] Cons.prems(1) False by (auto simp: c)
    then show ?thesis by (simp add: filter_empty_conv)
  qed
qed simp

text \<open>The requests let through in a minute that has begun: what is left of the running window, and one window more.\<close>

abbreviation accepted_within :: "nat \<Rightarrow> nat list \<Rightarrow> nat" where
  "accepted_within u ts \<equiv> length (filter (\<lambda>t. u \<le> t \<and> t < u + 60 * nanos_per_second) ts)"

lemma window_bound:
  assumes "u \<le> rl_started_at rl" and "clock_runs now calls" and "rl_requests rl \<le> limit"
  shows "accepted_within u (accepted_at limit rl calls) \<le> limit - rl_requests rl"
proof -
  have "accepted_within u ts \<le> accepted_before (rl_started_at rl + 60 * nanos_per_second) ts" for ts
    using assms(1) by (induction ts) auto
  from order_trans [OF this minute_bound [OF assms(2,3)]] show ?thesis .
qed

lemma begun_bound:
  assumes "clock_runs now calls" and "u \<le> now" and "rl_requests rl \<le> limit"
  shows "accepted_within u (accepted_at limit rl calls) \<le> (limit - rl_requests rl) + limit"
  using assms
proof (induction calls arbitrary: now rl)
  case (Cons c calls)
  obtain t t' where c: "c = (t, t')" by (cases c)
  show ?case
  proof (cases "t < rl_started_at rl + 60 * nanos_per_second")
    case True
    with Cons.IH [of t' "rl\<lparr>rl_requests := Suc (rl_requests rl)\<rparr>"] Cons.IH [of t' rl] Cons.prems show ?thesis
      by (auto simp: c same_minute is_ok_def)
  next
    case False
    with window_bound [of u "\<lparr>rl_started_at = t', rl_requests = min 1 limit\<rparr>" t' calls limit] Cons.prems show ?thesis
      by (auto simp: c next_minute is_ok_def min_def split: if_splits)
  qed
qed simp

lemma rate_bound:
  assumes "clock_runs now calls" and "rl_requests rl \<le> limit"
  shows "accepted_within u (accepted_at limit rl calls) \<le> 2 * limit"
  using assms
proof (induction calls arbitrary: now rl)
  case (Cons c calls)
  obtain t t' where c: "c = (t, t')" by (cases c)
  show ?case
  proof (cases "u \<le> t")
    case True
    have "clock_runs t (c # calls)" using Cons.prems(1) by (simp add: c)
    from begun_bound [OF this True Cons.prems(2)] show ?thesis by simp
  next
    case False
    have "rl_requests (snd (take_rate_limit limit t t' rl)) \<le> limit"
      using Cons.prems(2) by (auto simp: take_rate_limit_def Let_def)
    with Cons.IH [of t' "snd (take_rate_limit limit t t' rl)"] Cons.prems(1) False show ?thesis
      by (auto simp: c split: prod.splits)
  qed
qed simp

section \<open>Requests and responses\<close>

record api_config =
  allowed_hosts :: "string list"
  allowed_origins :: "string list"
  request_body_limit_bytes :: nat
  rate_limit_requests_per_minute :: nat

record request =
  rq_method :: string
  rq_path :: string
  rq_host :: "string option"
  rq_origin :: "string option"
  rq_authorization :: "string option"
  rq_body :: string

datatype 'r reply = ErrorReply nat string string | ManagementReply management_error | NoContent | NotRouted | Handled 'r

record 'r response =
  rs_reply :: "'r reply"
  rs_cors :: "string option"

record 'w app_state =
  as_rate :: rate_limit
  as_auth :: auth
  as_world :: 'w

type_synonym ('w, 'r) handler = "request \<Rightarrow> 'w app_state \<Rightarrow> 'r response \<times> 'w app_state"

record api_env =
  http :: http_env
  path_matches :: "string \<Rightarrow> string \<Rightarrow> bool"
  tokens :: auth_env
  json_decode :: "string \<Rightarrow> json option"
  json_encode :: "json \<Rightarrow> string option"

definition plain :: "'r reply \<Rightarrow> 'r response" where
  "plain r = \<lparr>rs_reply = r, rs_cors = None\<rparr>"

definition management_reply :: "management_error_code \<Rightarrow> string \<Rightarrow> 'r response" where
  "management_reply code message = plain (ManagementReply (management_error_new code message))"

definition api_invalid :: "string \<Rightarrow> 'r response" where
  "api_invalid message = plain (ErrorReply 400 ''invalid_request'' message)"

definition api_unauthorized :: "string \<Rightarrow> 'r response" where
  "api_unauthorized message = plain (ErrorReply 401 ''unauthorized'' message)"

definition api_forbidden :: "string \<Rightarrow> 'r response" where
  "api_forbidden message = plain (ErrorReply 403 ''forbidden'' message)"

definition api_payload_too_large :: "string \<Rightarrow> 'r response" where
  "api_payload_too_large message = plain (ErrorReply 413 ''payload_too_large'' message)"

definition api_rate_limited :: "nat \<Rightarrow> 'r response" where
  "api_rate_limited retry_after =
     plain (ErrorReply 429 ''rate_limited'' (''request limit reached; retry after '' @ show_nat retry_after @ '' seconds''))"

definition api_internal :: "string \<Rightarrow> 'r response" where
  "api_internal message = plain (ErrorReply 500 ''internal_error'' message)"

section \<open>Layers\<close>

definition DEFAULT_REQUEST_BYTES :: nat where "DEFAULT_REQUEST_BYTES = 1048576"
definition WORKFLOW_IMPORT_REQUEST_BYTES :: nat where "WORKFLOW_IMPORT_REQUEST_BYTES = 8388608"
definition WORKFLOW_IMPORT_SOURCE_BYTES :: nat where "WORKFLOW_IMPORT_SOURCE_BYTES = 1048576"
definition WORKFLOW_IMPORT_ENVELOPE_BYTES :: nat where "WORKFLOW_IMPORT_ENVELOPE_BYTES = 65536"

definition is_import :: "string \<Rightarrow> bool" where
  "is_import path \<longleftrightarrow> path = ''/api/v1/manage/workflows/import''"

definition body_limit :: "api_config \<Rightarrow> string \<Rightarrow> nat" where
  "body_limit cfg path =
     (if is_import path then WORKFLOW_IMPORT_REQUEST_BYTES
      else if is_management path then DEFAULT_REQUEST_BYTES
      else request_body_limit_bytes cfg)"

definition import_fault :: "api_env \<Rightarrow> string \<Rightarrow> string option" where
  "import_fault env body =
     (case json_decode env body of
        Some (JObject m) \<Rightarrow>
          (case Option.bind (map_of m ''source'') as_str of
             None \<Rightarrow> None
           | Some source \<Rightarrow>
               if WORKFLOW_IMPORT_SOURCE_BYTES < length source then Some ''decoded workflow source exceeds 1 MiB''
               else (case json_encode env (JObject (filter (\<lambda>(k, _). k \<noteq> ''source'') m)) of
                   Some encoded \<Rightarrow>
                     if WORKFLOW_IMPORT_ENVELOPE_BYTES < length encoded
                     then Some ''encoded workflow import envelope exceeds 64 KiB'' else None
                 | None \<Rightarrow> Some ''encoded workflow import envelope exceeds 64 KiB''))
      | _ \<Rightarrow> None)"

definition enforce_request_size :: "api_env \<Rightarrow> api_config \<Rightarrow> ('w, 'r) handler \<Rightarrow> ('w, 'r) handler" where
  "enforce_request_size env cfg next rq s =
     (if body_limit cfg (rq_path rq) < length (rq_body rq)
      then (if is_management (rq_path rq)
            then management_reply PayloadTooLarge ''encoded management request exceeds its route limit''
            else api_payload_too_large ''request body exceeds configured limit'', s)
      else (case if is_import (rq_path rq) then import_fault env (rq_body rq) else None of
          Some message \<Rightarrow> (management_reply PayloadTooLarge message, s)
        | None \<Rightarrow> next rq s))"

definition bearer_token :: "api_env \<Rightarrow> request \<Rightarrow> string option" where
  "bearer_token env rq =
     Option.bind (Option.bind (rq_authorization rq) (header_text (http env)))
       (\<lambda>v. if starts_with v ''Bearer '' then Some (drop 7 v) else None)"

definition require_auth :: "api_env \<Rightarrow> timestamp \<Rightarrow> ('w, 'r) handler \<Rightarrow> ('w, 'r) handler" where
  "require_auth env now next rq s =
     (case map_option (\<lambda>token. authorize_scope (tokens env) now token (request_scope (rq_method rq) (rq_path rq)) (as_auth s))
             (bearer_token env rq) of
        Some (Inr True) \<Rightarrow> next rq s
      | Some (Inr False) \<Rightarrow>
          (if is_management (rq_path rq)
           then management_reply Forbidden ''the credential does not include the required management scope''
           else api_unauthorized ''a valid Bearer token is required'', s)
      | None \<Rightarrow>
          (if is_management (rq_path rq) then management_reply Unauthenticated ''a valid Core credential is required''
           else api_unauthorized ''a valid Bearer token is required'', s)
      | Some (Inl e) \<Rightarrow>
          (if is_management (rq_path rq) then management_reply InternalError ''Core could not verify the management credential''
           else api_internal e, s))"

definition cors_response :: "'r response \<Rightarrow> string \<Rightarrow> 'r response" where
  "cors_response r origin = r\<lparr>rs_cors := Some origin\<rparr>"

definition request_origin :: "api_env \<Rightarrow> request \<Rightarrow> string option" where
  "request_origin env rq = Option.bind (rq_origin rq) (header_text (http env))"

definition origin_allowed :: "api_env \<Rightarrow> api_config \<Rightarrow> request \<Rightarrow> bool" where
  "origin_allowed env cfg rq =
     (case request_origin env rq of None \<Rightarrow> True | Some origin \<Rightarrow> origin \<in> set (allowed_origins cfg))"

definition host_accepted :: "api_env \<Rightarrow> api_config \<Rightarrow> request \<Rightarrow> bool" where
  "host_accepted env cfg rq \<longleftrightarrow>
     allowed_host (http env) (rq_host rq) \<or> configured_host (http env) (allowed_hosts cfg) (rq_host rq)"

definition enforce_local_policy ::
  "api_env \<Rightarrow> api_config \<Rightarrow> nat \<Rightarrow> nat \<Rightarrow> ('w, 'r) handler \<Rightarrow> ('w, 'r) handler" where
  "enforce_local_policy env cfg t t' next rq s =
     (if \<not> host_accepted env cfg rq then (api_forbidden ''the Host header is not a local Core address'', s)
      else if \<not> origin_allowed env cfg rq then (api_forbidden ''the request Origin is not allowed by local Core policy'', s)
      else if rq_method rq = ''OPTIONS''
      then (case request_origin env rq of
          None \<Rightarrow> (api_invalid ''CORS preflight requests require an Origin header'', s)
        | Some origin \<Rightarrow> (cors_response (plain NoContent) origin, s))
      else (case take_rate_limit (rate_limit_requests_per_minute cfg) t t' (as_rate s) of
          (Inl retry_after, rl) \<Rightarrow> (api_rate_limited retry_after, s\<lparr>as_rate := rl\<rparr>)
        | (Inr _, rl) \<Rightarrow>
            (case next rq (s\<lparr>as_rate := rl\<rparr>) of (r, s') \<Rightarrow>
               (case request_origin env rq of None \<Rightarrow> r | Some origin \<Rightarrow> cors_response r origin, s'))))"

text \<open>The router: public routes are served as they are, everything below \<open>/api/v1/manage\<close> and the other
  protected routes behind the token and the size of the body.\<close>

definition routed :: "api_env \<Rightarrow> (string \<times> string) list \<Rightarrow> string \<Rightarrow> bool" where
  "routed env routes path = list_ex (\<lambda>(_, p). path_matches env p path) routes"

definition router ::
  "api_env \<Rightarrow> api_config \<Rightarrow> nat \<Rightarrow> nat \<Rightarrow> timestamp \<Rightarrow> ('w, 'r) handler \<Rightarrow> ('w, 'r) handler" where
  "router env cfg t t' now handlers =
     enforce_local_policy env cfg t t' (\<lambda>rq s.
       if routed env public_routes (rq_path rq) then handlers rq s
       else if is_management (rq_path rq) \<or> routed env protected_routes (rq_path rq)
       then require_auth env now (enforce_request_size env cfg handlers) rq s
       else (plain NotRouted, s))"

section \<open>What the layers refuse\<close>

definition refused :: "'w app_state \<Rightarrow> 'r response \<times> 'w app_state \<Rightarrow> bool" where
  "refused s out \<longleftrightarrow> (\<exists>reply rl. out = (reply, s\<lparr>as_rate := rl\<rparr>) \<and> rs_reply reply \<notin> range Handled)"

lemma refused_error:
  fixes s :: "'w app_state"
  shows "rs_reply reply \<notin> range Handled \<Longrightarrow> refused s (reply, s)"
    "rs_reply reply \<notin> range Handled \<Longrightarrow> refused s (reply, s\<lparr>as_rate := rl\<rparr>)"
    "refused (s\<lparr>as_rate := rl\<rparr>) (reply, s') \<Longrightarrow> rs_reply reply' = rs_reply reply \<Longrightarrow> refused s (reply', s')"
  unfolding refused_def by (metis app_state.surjective app_state.update_convs(1), blast, force)

lemmas reply_simps =
  plain_def management_reply_def api_invalid_def api_unauthorized_def api_forbidden_def api_payload_too_large_def
  api_rate_limited_def api_internal_def cors_response_def image_iff

lemma size_refused: "refused s (enforce_request_size env cfg next rq s) \<or> length (rq_body rq) \<le> body_limit cfg (rq_path rq)"
  by (auto simp: enforce_request_size_def reply_simps intro: refused_error)

lemma auth_refused:
  "refused s (require_auth env now next rq s)
   \<or> (\<exists>token. bearer_token env rq = Some token
        \<and> authorize_scope (tokens env) now token (request_scope (rq_method rq) (rq_path rq)) (as_auth s) = Inr True)
     \<and> require_auth env now next rq s = next rq s"
  by (auto simp: require_auth_def reply_simps intro: refused_error split: option.split sum.split bool.split)

lemma policy_refused:
  "refused s (enforce_local_policy env cfg t t' next rq s)
   \<or> host_accepted env cfg rq \<and> origin_allowed env cfg rq \<and> rq_method rq \<noteq> ''OPTIONS''
     \<and> is_ok (fst (take_rate_limit (rate_limit_requests_per_minute cfg) t t' (as_rate s)))
     \<and> (\<exists>rl. \<not> refused (s\<lparr>as_rate := rl\<rparr>) (next rq (s\<lparr>as_rate := rl\<rparr>)))"
proof (cases "host_accepted env cfg rq \<and> origin_allowed env cfg rq \<and> rq_method rq \<noteq> ''OPTIONS''")
  case False
  then show ?thesis
    by (auto simp: enforce_local_policy_def reply_simps intro: refused_error split: option.split)
next
  case True
  obtain r rl where rl: "take_rate_limit (rate_limit_requests_per_minute cfg) t t' (as_rate s) = (r, rl)" by fastforce
  obtain reply s' where inner: "next rq (s\<lparr>as_rate := rl\<rparr>) = (reply, s')" by fastforce
  have "refused s (reply', s')"
    if "\<forall>rl. refused (s\<lparr>as_rate := rl\<rparr>) (next rq (s\<lparr>as_rate := rl\<rparr>))" "rs_reply reply' = rs_reply reply" for reply'
    using refused_error(3) [where s = s and rl = rl and reply = reply] that inner by metis
  with True rl inner show ?thesis
    by (cases r) (auto simp: enforce_local_policy_def reply_simps is_ok_def intro: refused_error split: option.split)
qed

section \<open>Properties\<close>

text \<open>C12: No handler runs unguarded: a request is either answered by the layers themselves, with nothing changed but the count
  of requests, or its host is local or configured, its origin allowed, it is not a preflight, a request was left in
  the minute, and its path is public, or its token carries the scope that the path and the method need, now, and its
  body is within the limit of its route.\<close>

theorem requests_are_guarded:
  "(\<exists>reply rl. router env cfg t t' now handlers rq s = (reply, s\<lparr>as_rate := rl\<rparr>) \<and> rs_reply reply \<notin> range Handled)
   \<or> host_accepted env cfg rq \<and> origin_allowed env cfg rq \<and> rq_method rq \<noteq> ''OPTIONS''
     \<and> is_ok (fst (take_rate_limit (rate_limit_requests_per_minute cfg) t t' (as_rate s)))
     \<and> (routed env public_routes (rq_path rq)
        \<or> (\<exists>token. bearer_token env rq = Some token
              \<and> authorize_scope (tokens env) now token (request_scope (rq_method rq) (rq_path rq)) (as_auth s) = Inr True)
          \<and> length (rq_body rq) \<le> body_limit cfg (rq_path rq))"
proof -
  define inner where "inner = (\<lambda>rq s. if routed env public_routes (rq_path rq) then handlers rq s
       else if is_management (rq_path rq) \<or> routed env protected_routes (rq_path rq)
       then require_auth env now (enforce_request_size env cfg handlers) rq s
       else (plain NotRouted, s))"
  have "routed env public_routes (rq_path rq)
      \<or> (\<exists>token. bearer_token env rq = Some token
            \<and> authorize_scope (tokens env) now token (request_scope (rq_method rq) (rq_path rq)) (as_auth s) = Inr True)
        \<and> length (rq_body rq) \<le> body_limit cfg (rq_path rq)"
    if "\<not> refused (s\<lparr>as_rate := rl\<rparr>) (inner rq (s\<lparr>as_rate := rl\<rparr>))" for rl
    using that auth_refused [of "s\<lparr>as_rate := rl\<rparr>" env now "enforce_request_size env cfg handlers" rq]
      size_refused [of "s\<lparr>as_rate := rl\<rparr>" env cfg handlers rq]
    by (auto simp: inner_def reply_simps refused_error split: if_splits)
  with policy_refused [of s env cfg t t' inner rq] show ?thesis
    unfolding router_def refused_def inner_def by blast
qed

text \<open>The rate limit bounds the load: whatever the moments at which requests come, in any sixty seconds at most twice the
  configured number of requests is let through, at the end of one counted minute and at the beginning of the next.\<close>

theorem rate_limit_bounds_load:
  assumes "clock_runs now calls" and "rl_requests rl \<le> limit"
  shows "length (filter (\<lambda>t. u \<le> t \<and> t < u + 60 * nanos_per_second) (accepted_at limit rl calls)) \<le> 2 * limit"
  by (rule rate_bound [OF assms])

theorem rate_limit_bounds_load_witness:
  "accepted_at 1 \<lparr>rl_started_at = 0, rl_requests = 0\<rparr> [(59 * nanos_per_second, 59 * nanos_per_second), (60 * nanos_per_second, 61 * nanos_per_second), (62 * nanos_per_second, 62 * nanos_per_second)]
     = [59 * nanos_per_second, 60 * nanos_per_second]
   \<and> length (filter (\<lambda>t. 59 * nanos_per_second \<le> t \<and> t < 59 * nanos_per_second + 60 * nanos_per_second)
       (accepted_at 1 \<lparr>rl_started_at = 0, rl_requests = 0\<rparr>
          [(59 * nanos_per_second, 59 * nanos_per_second), (60 * nanos_per_second, 61 * nanos_per_second), (62 * nanos_per_second, 62 * nanos_per_second)])) \<le> 2 * 1"
proof
  show "accepted_at 1 \<lparr>rl_started_at = 0, rl_requests = 0\<rparr> [(59 * nanos_per_second, 59 * nanos_per_second), (60 * nanos_per_second, 61 * nanos_per_second), (62 * nanos_per_second, 62 * nanos_per_second)]
     = [59 * nanos_per_second, 60 * nanos_per_second]" by (simp add: take_rate_limit_def Let_def is_ok_def)
  show "length (filter (\<lambda>t. 59 * nanos_per_second \<le> t \<and> t < 59 * nanos_per_second + 60 * nanos_per_second)
       (accepted_at 1 \<lparr>rl_started_at = 0, rl_requests = 0\<rparr>
          [(59 * nanos_per_second, 59 * nanos_per_second), (60 * nanos_per_second, 61 * nanos_per_second), (62 * nanos_per_second, 62 * nanos_per_second)])) \<le> 2 * 1"
    by (rule rate_limit_bounds_load [of 0]) simp_all
qed

text \<open>An error of the management API never repeats a credential behind one of the known markers: redaction ends, and its
  result contains none of them, wherever and however often they occur in the message.\<close>

theorem error_messages_are_redacted:
  "list_all (\<lambda>m. \<not> contains_str (me_message (management_error_new code message)) m) credential_markers"
  using fold_redact [OF markers_ok, of _ message] markers_ok
  by (simp add: management_error_new_def sanitize_message_def list_all_iff)

end
