(* ===== verification/Api_Pages.thy ===== *)
theory Api_Pages
  imports Api_Gate Store_Props
begin

text \<open>
  Lists in pages (\<open>src/management.rs\<close>, \<open>src/api.rs\<close>, \<open>src/store.rs\<close>): cursors, the list of workflows, the
  list of executions, and lists of things that are not in the store.  A page ends with a cursor when there is
  more; the next request brings it back.  JSON is a parameter; encoding a cursor, which has only text, numbers and
  maps from text, does not fail.  Locale \<open>paged_list\<close> states what a list in pages promises: whoever follows the
  cursors has seen every row, once and in order.
\<close>

section \<open>Cursors\<close>

datatype cursor_order =
    ExecutionCreatedDescending | MetadataIdentityAscending | NodeRowIdAscending | TriggerCompositeIdentityAscending
  | EventSequenceAscending

record management_cursor =
  cur_filters :: "string btree_map"
  cur_order :: cursor_order
  cur_high_water :: "nat option"
  cur_position :: "string list"

record page_env =
  cursor_bytes :: "management_cursor \<Rightarrow> string"
  cursor_of_bytes :: "string \<Rightarrow> management_cursor option"
  identity_bytes :: "string list \<Rightarrow> string"
  page_sha256 :: "string \<Rightarrow> string"
  time_text :: "timestamp \<Rightarrow> string"

type_synonym 'a management_result = "(management_error, 'a) result"

definition encode_cursor :: "page_env \<Rightarrow> management_cursor \<Rightarrow> string" where
  "encode_cursor env c = hex_lower (cursor_bytes env c)"

fun unhex :: "string \<Rightarrow> string option" where
  "unhex (a # b # s) =
     (case hex_byte a b of None \<Rightarrow> None | Some c \<Rightarrow> map_option (\<lambda>r. c # r) (unhex s))"
| "unhex _ = Some []"

definition decode_cursor :: "page_env \<Rightarrow> string \<Rightarrow> (string, management_cursor) result" where
  "decode_cursor env v =
     (if v = [] \<or> odd (length v) \<or> 16384 < length v then Inl ''management cursor is malformed or exceeds its limit''
      else (case Option.bind (unhex v) (cursor_of_bytes env) of
          None \<Rightarrow> Inl ''management cursor is invalid'' | Some c \<Rightarrow> Inr c))"

definition validate_cursor_binding ::
  "management_cursor \<Rightarrow> string btree_map \<Rightarrow> cursor_order \<Rightarrow> nat option \<Rightarrow> (string, unit) result" where
  "validate_cursor_binding c filters ord high_water =
     require (cur_filters c = filters \<and> cur_order c = ord \<and> cur_high_water c = high_water)
       ''management cursor does not match the requested snapshot''"

record 'a management_page =
  page_items :: "'a list"
  next_cursor :: "string option"
  page_snapshot :: "string option"

definition map_error :: "management_error_code \<Rightarrow> string \<Rightarrow> ('e, 'a) result \<Rightarrow> 'a management_result" where
  "map_error code message r = (case r of Inl _ \<Rightarrow> Inl (management_error_new code message) | Inr v \<Rightarrow> Inr v)"

definition DEFAULT_PAGE_SIZE :: nat where "DEFAULT_PAGE_SIZE = 100"
definition MAX_PAGE_SIZE :: nat where "MAX_PAGE_SIZE = 1000"

definition page_limit :: "string \<Rightarrow> nat option \<Rightarrow> nat management_result" where
  "page_limit message requested =
     (let limit = (case requested of None \<Rightarrow> DEFAULT_PAGE_SIZE | Some n \<Rightarrow> n) in
      if 1 \<le> limit \<and> limit \<le> MAX_PAGE_SIZE then Inr limit
      else Inl (management_error_new InvalidRequest (message @ show_nat MAX_PAGE_SIZE)))"

section \<open>Rows in order\<close>

text \<open>\<open>ORDER BY\<close>\<close>

fun insert_by :: "('a \<Rightarrow> 'a \<Rightarrow> bool) \<Rightarrow> 'a \<Rightarrow> 'a list \<Rightarrow> 'a list" where
  "insert_by lt x [] = [x]"
| "insert_by lt x (y # ys) = (if lt x y then x # y # ys else y # insert_by lt x ys)"

definition order_by :: "('a \<Rightarrow> 'a \<Rightarrow> bool) \<Rightarrow> 'a list \<Rightarrow> 'a list" where
  "order_by lt xs = foldr (insert_by lt) xs []"

section \<open>Workflows\<close>

definition by_workflow_id :: "workflow_row \<Rightarrow> workflow_row \<Rightarrow> bool" where
  "by_workflow_id a b = str_less (wf_id a) (wf_id b)"

definition list_workflows_after :: "string option \<Rightarrow> nat \<Rightarrow> store \<Rightarrow> workflow_row list" where
  "list_workflows_after after_id limit s =
     (let after = (case after_id of None \<Rightarrow> [] | Some i \<Rightarrow> i) in
      take limit (order_by by_workflow_id (filter (\<lambda>r. str_less after (wf_id r)) (workflow_rows s))))"

definition workflow_cursor :: "workflow_row \<Rightarrow> management_cursor" where
  "workflow_cursor r =
     \<lparr>cur_filters = [], cur_order = MetadataIdentityAscending, cur_high_water = None, cur_position = [wf_id r]\<rparr>"

definition workflow_position :: "page_env \<Rightarrow> string option \<Rightarrow> string option management_result" where
  "workflow_position env cursor =
     (case cursor of
        None \<Rightarrow> Inr None
      | Some v \<Rightarrow>
          rbind (map_error InvalidRequest ''workflow cursor is invalid'' (decode_cursor env v)) (\<lambda>c.
          rbind (map_error InvalidRequest ''workflow cursor does not match this list snapshot''
              (validate_cursor_binding c [] MetadataIdentityAscending None)) (\<lambda>_.
            Inr (case cur_position c of [] \<Rightarrow> None | i # _ \<Rightarrow> Some i))))"

definition list_workflow_page ::
  "page_env \<Rightarrow> store \<Rightarrow> nat option \<Rightarrow> string option \<Rightarrow> workflow_row management_page management_result" where
  "list_workflow_page env s requested cursor =
     rbind (page_limit ''workflow page limit must be from 1 to '' requested) (\<lambda>limit.
     rbind (workflow_position env cursor) (\<lambda>after.
       let records = list_workflows_after after (limit + 1) s;
           more = limit < length records;
           page = (if more then take limit records else records)
       in Inr \<lparr>page_items = page,
               next_cursor = (if more then Some (encode_cursor env (workflow_cursor (last page))) else None),
               page_snapshot = None\<rparr>))"

section \<open>Executions\<close>

definition execution_filters :: "string option \<Rightarrow> string option \<Rightarrow> string btree_map" where
  "execution_filters workflow status =
     (case status of None \<Rightarrow> id | Some v \<Rightarrow> map_insert ''status'' v)
       ((case workflow of None \<Rightarrow> id | Some v \<Rightarrow> map_insert ''workflowId'' v) [])"

definition known_statuses :: "string list" where
  "known_statuses =
     [''queued'', ''running'', ''cancelling'', ''succeeded'', ''failed'', ''cancelled'', ''timed_out'', ''interrupted'']"

text \<open>The latest first, then by identifier; times are compared as text.\<close>

definition listed_before :: "string \<times> string \<Rightarrow> string \<times> string \<Rightarrow> bool" where
  "listed_before a b \<longleftrightarrow> str_less (fst b) (fst a) \<or> fst a = fst b \<and> str_less (snd a) (snd b)"

definition execution_key :: "page_env \<Rightarrow> execution_row \<Rightarrow> string \<times> string" where
  "execution_key env e = (time_text env (exec_created e), exec_id e)"

definition store_execution_page ::
  "page_env \<Rightarrow> string option \<Rightarrow> string option \<Rightarrow> (string \<times> string) option \<Rightarrow> nat \<Rightarrow> store
   \<Rightarrow> (string, execution_row list \<times> bool) result" where
  "store_execution_page env workflow status before limit s =
     (if limit = 0 \<or> 1000 < limit then Inl ''execution page limit must be between 1 and 1000''
      else let records = take (limit + 1) (order_by (\<lambda>a b. listed_before (execution_key env a) (execution_key env b))
             (filter (\<lambda>e. (workflow = None \<or> workflow = Some (exec_workflow e)) \<and> (status = None \<or> status = Some (exec_status e))
                  \<and> (case before of None \<Rightarrow> True | Some k \<Rightarrow> listed_before k (execution_key env e))) (execution_rows s)))
           in Inr (take limit records, limit < length records))"

definition execution_cursor :: "page_env \<Rightarrow> string btree_map \<Rightarrow> execution_row \<Rightarrow> management_cursor" where
  "execution_cursor env filters e =
     \<lparr>cur_filters = filters, cur_order = ExecutionCreatedDescending, cur_high_water = None,
      cur_position = [fst (execution_key env e), snd (execution_key env e)]\<rparr>"

definition execution_position ::
  "page_env \<Rightarrow> string btree_map \<Rightarrow> string option \<Rightarrow> (string \<times> string) option management_result" where
  "execution_position env filters cursor =
     (case cursor of
        None \<Rightarrow> Inr None
      | Some v \<Rightarrow>
          rbind (map_error InvalidRequest ''execution cursor is invalid'' (decode_cursor env v)) (\<lambda>c.
          rbind (map_error InvalidRequest ''execution cursor does not match these filters''
              (validate_cursor_binding c filters ExecutionCreatedDescending None)) (\<lambda>_.
            case cur_position c of
              [created, i] \<Rightarrow> Inr (Some (created, i))
            | _ \<Rightarrow> Inl (management_error_new InvalidRequest ''execution cursor position is invalid''))))"

text \<open>The summary of an execution has the fields of its row.\<close>

definition list_execution_page ::
  "page_env \<Rightarrow> store \<Rightarrow> string option \<Rightarrow> string option \<Rightarrow> nat option \<Rightarrow> string option
   \<Rightarrow> execution_row management_page management_result" where
  "list_execution_page env s workflow status requested cursor =
     rbind (page_limit ''execution page limit must be from 1 to '' requested) (\<lambda>limit.
     rbind (require (case status of None \<Rightarrow> True | Some v \<Rightarrow> v \<in> set known_statuses)
         (management_error_new InvalidRequest ''execution status filter is invalid'')) (\<lambda>_.
     let filters = execution_filters workflow status in
     rbind (execution_position env filters cursor) (\<lambda>before.
     rbind (map_error InternalError ''cannot list executions'' (store_execution_page env workflow status before limit s)) (\<lambda>(items, more).
       Inr \<lparr>page_items = items,
            next_cursor = (if more then Some (encode_cursor env (execution_cursor env filters (last items))) else None),
            page_snapshot = None\<rparr>))))"

section \<open>Lists of integrations\<close>

definition validate_page_limit :: "nat option \<Rightarrow> nat management_result" where
  "validate_page_limit requested = page_limit ''page limit must be between 1 and '' requested"

definition snapshot_of :: "page_env \<Rightarrow> string list \<Rightarrow> string" where
  "snapshot_of env identities = hex_lower (page_sha256 env (identity_bytes env identities))"

definition snapshot_filters :: "string \<Rightarrow> string \<Rightarrow> string btree_map" where
  "snapshot_filters collection digest = map_insert ''snapshot'' digest (map_insert ''collection'' collection [])"

definition identity_cursor :: "string btree_map \<Rightarrow> string \<Rightarrow> management_cursor" where
  "identity_cursor filters i =
     \<lparr>cur_filters = filters, cur_order = MetadataIdentityAscending, cur_high_water = None, cur_position = [i]\<rparr>"

fun position_of :: "('a \<Rightarrow> bool) \<Rightarrow> 'a list \<Rightarrow> nat option" where
  "position_of P [] = None"
| "position_of P (x # xs) = (if P x then Some 0 else map_option Suc (position_of P xs))"

definition page_start ::
  "page_env \<Rightarrow> string btree_map \<Rightarrow> ('a \<Rightarrow> string) \<Rightarrow> 'a list \<Rightarrow> string option \<Rightarrow> nat management_result" where
  "page_start env filters identity items cursor =
     (case cursor of
        None \<Rightarrow> Inr 0
      | Some v \<Rightarrow>
          rbind (map_error InvalidRequest ''metadata cursor is invalid'' (decode_cursor env v)) (\<lambda>c.
          rbind (map_error ResourceConflict ''metadata changed; restart pagination''
              (validate_cursor_binding c filters MetadataIdentityAscending None)) (\<lambda>_.
          rbind (case cur_position c of [] \<Rightarrow> Inl (management_error_new InvalidRequest ''metadata cursor has no position'')
                 | i # _ \<Rightarrow> Inr i) (\<lambda>after.
            ok_or (map_option Suc (position_of (\<lambda>x. identity x = after) items))
              (management_error_new ResourceConflict ''metadata changed; restart pagination'')))))"

definition paginate_integration_items ::
  "page_env \<Rightarrow> 'a list \<Rightarrow> nat option \<Rightarrow> string option \<Rightarrow> string \<Rightarrow> ('a \<Rightarrow> string) \<Rightarrow> ('a \<Rightarrow> string)
   \<Rightarrow> 'a management_page management_result" where
  "paginate_integration_items env items requested cursor collection snapshot_identity identity =
     rbind (validate_page_limit requested) (\<lambda>limit.
     (let digest = snapshot_of env (map snapshot_identity items);
          filters = snapshot_filters collection digest
      in rbind (page_start env filters identity items cursor) (\<lambda>start.
         let finish = min (start + limit) (length items);
             page = take (finish - start) (drop start items)
         in rbind (if finish < length items
              then (if page = [] then Inl (management_error_new InternalError ''cannot advance metadata cursor'')
                    else Inr (Some (encode_cursor env (identity_cursor filters (identity (last page))))))
              else Inr None) (\<lambda>next.
            Inr \<lparr>page_items = page, next_cursor = next, page_snapshot = Some digest\<rparr>))))"

section \<open>Following the cursors\<close>

text \<open>A client that asks for page after page; it gives up, with no result, when its rounds are used up.\<close>

fun follow ::
  "nat \<Rightarrow> (string option \<Rightarrow> 'a management_page management_result) \<Rightarrow> string option \<Rightarrow> 'a list management_result option" where
  "follow 0 page cursor = None"
| "follow (Suc n) page cursor =
     (case page cursor of
        Inl e \<Rightarrow> Some (Inl e)
      | Inr p \<Rightarrow>
          (case next_cursor p of
             None \<Rightarrow> Some (Inr (page_items p))
           | Some c \<Rightarrow> map_option (map_sum id (\<lambda>rest. page_items p @ rest)) (follow n page (Some c))))"

text \<open>What is on a page: the first rows, and whether there are more.\<close>

definition page_shows ::
  "nat \<Rightarrow> ('a \<Rightarrow> string) \<Rightarrow> 'a list \<Rightarrow> 'a management_page management_result \<Rightarrow> bool" where
  "page_shows limit cursor rows r \<longleftrightarrow>
     (\<exists>p. r = Inr p \<and> page_items p = take limit rows
       \<and> next_cursor p = (if limit < length rows then Some (cursor (last (take limit rows))) else None))"

text \<open>The contract of a list in pages, for the requests \<open>r\<close> that \<open>ok\<close> admits.\<close>

locale paged_list =
  fixes ok :: "'r \<Rightarrow> bool"
    and page :: "'r \<Rightarrow> string option \<Rightarrow> 'a management_page management_result"
    and rows :: "'r \<Rightarrow> 'a list"
    and limit :: "'r \<Rightarrow> nat"
    and cursor :: "'r \<Rightarrow> 'a \<Rightarrow> string"
  assumes limit_pos: "ok r \<Longrightarrow> 0 < limit r"
    and first_page: "ok r \<Longrightarrow> page_shows (limit r) (cursor r) (rows r) (page r None)"
    and next_page: "ok r \<Longrightarrow> rows r = xs @ x # ys \<Longrightarrow> page_shows (limit r) (cursor r) ys (page r (Some (cursor r x)))"
begin

lemma follow_shown:
  assumes "ok r" and "rows r = xs @ ys" and "page_shows (limit r) (cursor r) ys (page r c)" and "length ys \<le> n"
  shows "follow (Suc n) (page r) c = Some (Inr ys)"
  using assms(2,3,4)
proof (induction n arbitrary: xs ys c)
  case 0
  then show ?case by (auto simp: page_shows_def)
next
  case (Suc n)
  from Suc.prems(2) obtain p where p: "page r c = Inr p" "page_items p = take (limit r) ys"
    and more: "next_cursor p = (if limit r < length ys then Some (cursor r (last (take (limit r) ys))) else None)"
    unfolding page_shows_def by blast
  show ?case
  proof (cases "limit r < length ys")
    case False
    with p more show ?thesis by simp
  next
    case True
    let ?x = "last (take (limit r) ys)" and ?front = "xs @ butlast (take (limit r) ys)"
    from True limit_pos [OF assms(1)] have "take (limit r) ys \<noteq> []" by auto
    then have split: "rows r = ?front @ ?x # drop (limit r) ys"
      by (metis Suc.prems(1) append.assoc append_Cons append_Nil append_butlast_last_id append_take_drop_id)
    from next_page [OF assms(1) this] have "page_shows (limit r) (cursor r) (drop (limit r) ys) (page r (Some (cursor r ?x)))" .
    from Suc.IH [OF _ this, of "?front @ [?x]"] split Suc.prems(3) limit_pos [OF assms(1)]
    have "follow (Suc n) (page r) (Some (cursor r ?x)) = Some (Inr (drop (limit r) ys))" by simp
    moreover have "next_cursor p = Some (cursor r ?x)" using more True by simp
    ultimately show ?thesis by (simp only: follow.simps(2) [of "Suc n"] p sum.case option.case option.map map_sum.simps
        append_take_drop_id)
  qed
qed

lemma follow_all: "ok r \<Longrightarrow> length (rows r) \<le> n \<Longrightarrow> follow (Suc n) (page r) None = Some (Inr (rows r))"
  using follow_shown [of r "[]" "rows r" None n] first_page by simp

end

section \<open>Cursors read back\<close>

definition cursor_reads_back :: "page_env \<Rightarrow> management_cursor \<Rightarrow> bool" where
  "cursor_reads_back env c \<longleftrightarrow>
     cursor_of_bytes env (cursor_bytes env c) = Some c \<and> cursor_bytes env c \<noteq> [] \<and> length (cursor_bytes env c) \<le> 8192"

lemma unhex_hex: "unhex (hex_lower s) = Some s"
  by (induction s) (simp_all add: hex_lower_def hex_byte_nibbles)

lemma hex_lower_length: "length (hex_lower s) = 2 * length s"
  by (induction s) (simp_all add: hex_lower_def)

lemma decode_encoded: "cursor_reads_back env c \<Longrightarrow> decode_cursor env (encode_cursor env c) = Inr c"
  using hex_lower_length [of "cursor_bytes env c"]
  by (auto simp: decode_cursor_def encode_cursor_def cursor_reads_back_def unhex_hex)

section \<open>Rows in order, again\<close>

lemma set_insert_by [simp]: "set (insert_by lt x ys) = insert x (set ys)"
  by (induction ys) auto

lemma set_order_by [simp]: "set (order_by lt xs) = set xs"
  by (induction xs) (auto simp: order_by_def)

lemma length_order_by [simp]: "length (order_by lt xs) = length xs"
proof -
  have "length (insert_by lt x ys) = Suc (length ys)" for x ys by (induction ys) auto
  then show ?thesis by (induction xs) (auto simp: order_by_def)
qed

lemma insert_by_sorted:
  assumes "transp lt" and "\<And>y. y \<in> set ys \<Longrightarrow> lt x y \<or> lt y x" and "sorted_wrt lt ys"
  shows "sorted_wrt lt (insert_by lt x ys)"
  using assms(2,3) by (induction ys) (auto dest: transpD [OF assms(1)])

lemma order_by_sorted:
  assumes "transp lt" and "distinct (map key xs)" and "\<And>x y. key x \<noteq> key y \<Longrightarrow> lt x y \<or> lt y x"
  shows "sorted_wrt lt (order_by lt xs)"
  using assms(2)
proof (induction xs)
  case (Cons x xs)
  have "lt x y \<or> lt y x" if "y \<in> set (order_by lt xs)" for y
    using that Cons.prems assms(3) [of x y] by (auto simp: image_iff)
  with Cons insert_by_sorted [OF assms(1), of "order_by lt xs" x] show ?case by (simp add: order_by_def)
qed (simp add: order_by_def)

lemma order_by_after:
  assumes "transp lt" and "asymp lt" and "distinct (map key xs)" and "\<And>x y. key x \<noteq> key y \<Longrightarrow> lt x y \<or> lt y x"
    and "order_by lt xs = us @ x # vs"
  shows "order_by lt (filter (lt x) xs) = vs"
proof (rule sorted_wrt_unique [OF assms(2)])
  have sorted: "sorted_wrt lt (us @ x # vs)" using order_by_sorted [OF assms(1,3,4)] assms(5) by simp
  then show "sorted_wrt lt vs" by (simp add: sorted_wrt_append)
  show "sorted_wrt lt (order_by lt (filter (lt x) xs))"
    by (rule order_by_sorted [OF assms(1) _ assms(4)]) (simp_all add: assms(3) distinct_map_filter)
  have xs: "set xs = set us \<union> insert x (set vs)" using set_order_by [of lt xs] unfolding assms(5) by auto
  show "set (order_by lt (filter (lt x) xs)) = set vs"
    using sorted xs asympD [OF assms(2)] by (auto simp: sorted_wrt_append)
qed

section \<open>The lists keep the contract\<close>

definition limit_of :: "nat option \<Rightarrow> nat" where
  "limit_of requested = (case requested of None \<Rightarrow> DEFAULT_PAGE_SIZE | Some n \<Rightarrow> n)"

definition limit_ok :: "nat option \<Rightarrow> bool" where
  "limit_ok requested \<longleftrightarrow> 1 \<le> limit_of requested \<and> limit_of requested \<le> MAX_PAGE_SIZE"

lemma page_limit_ok: "limit_ok requested \<Longrightarrow> page_limit message requested = Inr (limit_of requested)"
  by (simp add: page_limit_def limit_ok_def limit_of_def Let_def split: option.splits)

lemma limit_positive: "limit_ok requested \<Longrightarrow> 0 < limit_of requested"
  by (simp add: limit_ok_def)

fun workflows_ok :: "page_env \<times> store \<times> nat option \<Rightarrow> bool" where
  "workflows_ok (env, s, requested) \<longleftrightarrow>
     limit_ok requested \<and> distinct (map wf_id (workflow_rows s))
     \<and> list_all (\<lambda>r. wf_id r \<noteq> [] \<and> cursor_reads_back env (workflow_cursor r)) (workflow_rows s)"

lemma by_workflow_id_order: "transp by_workflow_id" "asymp by_workflow_id" "wf_id a \<noteq> wf_id b \<Longrightarrow> by_workflow_id a b \<or> by_workflow_id b a"
  by (auto simp: by_workflow_id_def transp_def asymp_on_def dest: str_less_trans str_less_asym str_less_total)

lemma workflow_page_shows:
  assumes "limit_ok requested" and "workflow_position env c = Inr pos"
    and "order_by by_workflow_id (filter (\<lambda>r. str_less (case pos of None \<Rightarrow> [] | Some i \<Rightarrow> i) (wf_id r)) (workflow_rows s)) = rs"
  shows "page_shows (limit_of requested) (\<lambda>r. encode_cursor env (workflow_cursor r)) rs (list_workflow_page env s requested c)"
  using assms(3) unfolding page_shows_def list_workflow_page_def list_workflows_after_def assms(2) page_limit_ok [OF assms(1)]
  by (auto simp: Let_def min_def)

interpretation workflows: paged_list workflows_ok
  "\<lambda>(env, s, requested). list_workflow_page env s requested" "\<lambda>(env, s, requested). order_by by_workflow_id (workflow_rows s)"
  "\<lambda>(env, s, requested). limit_of requested" "\<lambda>(env, s, requested) r. encode_cursor env (workflow_cursor r)"
proof (unfold_locales, goal_cases)
  case (1 r)
  then show ?case by (cases r) (simp add: limit_positive)
next
  case (2 r)
  obtain env s requested where r: "r = (env, s, requested)" by (metis prod.exhaust)
  with 2 have "filter (\<lambda>r. str_less [] (wf_id r)) (workflow_rows s) = workflow_rows s"
    by (simp add: filter_id_conv list_all_iff str_less_Nil)
  with 2 workflow_page_shows [of requested env None None s] show ?case by (simp add: r workflow_position_def)
next
  case (3 r xs x ys)
  obtain env s requested where r: "r = (env, s, requested)" by (metis prod.exhaust)
  with 3 have x: "x \<in> set (workflow_rows s)" using set_order_by [of by_workflow_id "workflow_rows s"] by (metis case_prod_conv in_set_conv_decomp)
  with 3 r have "workflow_position env (Some (encode_cursor env (workflow_cursor x))) = Inr (Some (wf_id x))"
    by (simp add: workflow_position_def decode_encoded list_all_iff map_error_def validate_cursor_binding_def workflow_cursor_def require_def)
  moreover have "order_by by_workflow_id (filter (by_workflow_id x) (workflow_rows s)) = ys"
    using order_by_after [where key = wf_id, OF by_workflow_id_order(1,2) _ by_workflow_id_order(3), of "workflow_rows s" xs x ys] 3 by (simp add: r)
  ultimately show ?case
    using workflow_page_shows [of requested env "Some (encode_cursor env (workflow_cursor x))" "Some (wf_id x)" s ys] 3
    by (simp add: r by_workflow_id_def [abs_def])
qed

lemma listed_before_order: "listed_before a b \<Longrightarrow> listed_before b c \<Longrightarrow> listed_before a c"
  "listed_before a b \<Longrightarrow> \<not> listed_before b a" "a \<noteq> b \<Longrightarrow> listed_before a b \<or> listed_before b a"
  by (auto simp: listed_before_def prod_eq_iff dest: str_less_trans str_less_asym str_less_total)

definition selected :: "string option \<Rightarrow> string option \<Rightarrow> execution_row \<Rightarrow> bool" where
  "selected workflow status e \<longleftrightarrow>
     (workflow = None \<or> workflow = Some (exec_workflow e)) \<and> (status = None \<or> status = Some (exec_status e))"

definition latest_first :: "page_env \<Rightarrow> execution_row \<Rightarrow> execution_row \<Rightarrow> bool" where
  "latest_first env a b = listed_before (execution_key env a) (execution_key env b)"

fun executions_ok :: "page_env \<times> store \<times> string option \<times> string option \<times> nat option \<Rightarrow> bool" where
  "executions_ok (env, s, workflow, status, requested) \<longleftrightarrow>
     limit_ok requested \<and> (case status of None \<Rightarrow> True | Some v \<Rightarrow> v \<in> set known_statuses)
     \<and> distinct (map exec_id (execution_rows s))
     \<and> list_all (\<lambda>e. cursor_reads_back env (execution_cursor env (execution_filters workflow status) e)) (execution_rows s)"

lemma execution_page_shows:
  assumes "executions_ok (env, s, workflow, status, requested)"
    and "execution_position env (execution_filters workflow status) c = Inr before"
    and "order_by (latest_first env) (filter (\<lambda>e. selected workflow status e
      \<and> (case before of None \<Rightarrow> True | Some k \<Rightarrow> listed_before k (execution_key env e))) (execution_rows s)) = rs"
  shows "page_shows (limit_of requested) (\<lambda>e. encode_cursor env (execution_cursor env (execution_filters workflow status) e)) rs
    (list_execution_page env s workflow status requested c)"
proof -
  have limit: "page_limit m requested = Inr (limit_of requested)" "\<not> (limit_of requested = 0 \<or> 1000 < limit_of requested)" for m
    using assms(1) page_limit_ok by (simp_all add: limit_ok_def MAX_PAGE_SIZE_def)
  have "store_execution_page env workflow status before (limit_of requested) s =
      Inr (take (limit_of requested) rs, limit_of requested < length rs)"
    using assms(3) limit(2) unfolding store_execution_page_def latest_first_def selected_def
    by (simp add: Let_def min_def conj_assoc)
  with assms(1,2) limit(1) show ?thesis
    by (auto simp: page_shows_def list_execution_page_def Let_def map_error_def require_def)
qed

lemma latest_first_order:
  "transp (latest_first env)" "asymp (latest_first env)"
  "exec_id a \<noteq> exec_id b \<Longrightarrow> latest_first env a b \<or> latest_first env b a"
proof -
  show "transp (latest_first env)" unfolding transp_def latest_first_def using listed_before_order(1) by blast
  show "asymp (latest_first env)" unfolding asymp_on_def latest_first_def using listed_before_order(2) by blast
  show "latest_first env a b \<or> latest_first env b a" if "exec_id a \<noteq> exec_id b"
    unfolding latest_first_def using that by (intro listed_before_order(3)) (simp add: execution_key_def)
qed

interpretation executions: paged_list executions_ok
  "\<lambda>(env, s, workflow, status, requested). list_execution_page env s workflow status requested"
  "\<lambda>(env, s, workflow, status, requested). order_by (latest_first env) (filter (selected workflow status) (execution_rows s))"
  "\<lambda>(env, s, workflow, status, requested). limit_of requested"
  "\<lambda>(env, s, workflow, status, requested) e. encode_cursor env (execution_cursor env (execution_filters workflow status) e)"
proof (unfold_locales, goal_cases)
  case (1 r)
  then show ?case by (cases r) (simp add: limit_positive)
next
  case (2 r)
  obtain env s workflow status requested where r: "r = (env, s, workflow, status, requested)" by (metis prod.exhaust)
  with 2 execution_page_shows [of env s workflow status requested None None] show ?case
    by (simp add: execution_position_def)
next
  case (3 r xs x ys)
  obtain env s workflow status requested where r: "r = (env, s, workflow, status, requested)" by (metis prod.exhaust)
  let ?rows = "filter (selected workflow status) (execution_rows s)"
  have rows: "order_by (latest_first env) ?rows = xs @ x # ys" using 3 by (simp add: r)
  then have "x \<in> set ?rows" by (metis in_set_conv_decomp set_order_by)
  with 3 r have "execution_position env (execution_filters workflow status)
      (Some (encode_cursor env (execution_cursor env (execution_filters workflow status) x))) = Inr (Some (execution_key env x))"
    by (simp add: execution_position_def decode_encoded list_all_iff map_error_def validate_cursor_binding_def execution_cursor_def require_def)
  moreover have "order_by (latest_first env) (filter (latest_first env x) ?rows) = ys"
    using order_by_after [where key = exec_id, OF latest_first_order(1,2) _ latest_first_order(3) rows] 3
    by (simp add: r distinct_map_filter)
  ultimately show ?case
    using execution_page_shows [of env s workflow status requested _ "Some (execution_key env x)" ys] 3
    by (simp add: r latest_first_def [abs_def] conj_commute)
qed

fun integrations_ok :: "page_env \<times> 'a list \<times> nat option \<times> string \<times> ('a \<Rightarrow> string) \<times> ('a \<Rightarrow> string) \<Rightarrow> bool" where
  "integrations_ok (env, items, requested, collection, snapshot_identity, identity) \<longleftrightarrow>
     limit_ok requested \<and> distinct (map identity items)
     \<and> list_all (\<lambda>x. cursor_reads_back env (identity_cursor
           (snapshot_filters collection (snapshot_of env (map snapshot_identity items))) (identity x))) items"

lemma integration_page_shows:
  assumes "limit_ok requested" and "items = xs @ ys"
    and "page_start env (snapshot_filters collection (snapshot_of env (map snapshot_identity items))) identity items c = Inr (length xs)"
  shows "page_shows (limit_of requested)
    (\<lambda>x. encode_cursor env (identity_cursor (snapshot_filters collection (snapshot_of env (map snapshot_identity items))) (identity x))) ys
    (paginate_integration_items env items requested c collection snapshot_identity identity)"
proof -
  have "min (length xs + limit_of requested) (length items) - length xs = min (limit_of requested) (length ys)"
    using assms(2) by simp
  moreover have "take (min (limit_of requested) (length ys)) ys = take (limit_of requested) ys" by (simp add: min_def)
  moreover have "min (length xs + limit_of requested) (length items) < length items \<longleftrightarrow> limit_of requested < length ys"
    using assms(2) by auto
  moreover have "take (limit_of requested) ys \<noteq> []" if "limit_of requested < length ys"
    using that limit_positive [OF assms(1)] by auto
  moreover have "drop (length xs) items = ys" using assms(2) by simp
  ultimately show ?thesis
    using assms(1,3) by (auto simp: page_shows_def paginate_integration_items_def validate_page_limit_def page_limit_ok Let_def)
qed

lemma position_of_found:
  "distinct (map f (xs @ x # ys)) \<Longrightarrow> position_of (\<lambda>z. f z = f x) (xs @ x # ys) = Some (length xs)"
  by (induction xs) auto

interpretation integrations: paged_list integrations_ok
  "\<lambda>(env, items, requested, collection, snap, identity) c. paginate_integration_items env items requested c collection snap identity"
  "\<lambda>(env, items, requested, collection, snap, identity). items"
  "\<lambda>(env, items, requested, collection, snap, identity). limit_of requested"
  "\<lambda>(env, items, requested, collection, snap, identity) x. encode_cursor env (identity_cursor
     (snapshot_filters collection (snapshot_of env (map snap items))) (identity x))"
proof (unfold_locales, goal_cases)
  case (1 r)
  then show ?case by (cases r) (simp add: limit_positive)
next
  case (2 r)
  obtain env items requested collection snap identity where r: "r = (env, items, requested, collection, snap, identity)"
    by (metis prod.exhaust)
  with 2 integration_page_shows [of requested items "[]" items env collection snap identity None] show ?case
    by (simp add: page_start_def)
next
  case (3 r xs x ys)
  obtain env items requested collection snap identity where r: "r = (env, items, requested, collection, snap, identity)"
    by (metis prod.exhaust)
  let ?filters = "snapshot_filters collection (snapshot_of env (map snap items))"
  have items: "items = xs @ x # ys" using 3 by (simp add: r)
  have "page_start env ?filters identity items (Some (encode_cursor env (identity_cursor ?filters (identity x)))) = Inr (length (xs @ [x]))"
    using 3 position_of_found [of identity xs x ys]
    by (simp add: r items page_start_def decode_encoded map_error_def validate_cursor_binding_def identity_cursor_def require_def ok_or_def)
  with integration_page_shows [of requested items "xs @ [x]" ys env collection snap identity] 3 items show ?case
    by (simp add: r)
qed

section \<open>Properties\<close>

text \<open>C37: Whoever follows the cursors of the management API sees everything once: with any page size that is accepted, and as long
  as the store does not change, the pages of workflows, put together, are all workflows in the order of their
  identifiers, the pages of executions are all executions that the filters select, the latest first, and the pages of a
  list of integrations are its items; and as many requests as there are rows, and one, are enough.\<close>

theorem pages_show_everything:
  "(workflows_ok (env, s, requested) \<longrightarrow>
      follow (Suc (length (workflow_rows s))) (list_workflow_page env s requested) None
        = Some (Inr (order_by by_workflow_id (workflow_rows s))))
   \<and> (executions_ok (env, s, workflow, status, requested) \<longrightarrow>
      follow (Suc (length (execution_rows s))) (list_execution_page env s workflow status requested) None
        = Some (Inr (order_by (latest_first env) (filter (selected workflow status) (execution_rows s)))))
   \<and> (integrations_ok (env, items, requested, collection, snap, identity) \<longrightarrow>
      follow (Suc (length items)) (\<lambda>c. paginate_integration_items env items requested c collection snap identity) None
        = Some (Inr items))"
  using workflows.follow_all [of "(env, s, requested)" "length (workflow_rows s)"]
    executions.follow_all [of "(env, s, workflow, status, requested)" "length (execution_rows s)"]
    integrations.follow_all [of "(env, items, requested, collection, snap, identity)" "length items"]
  by (simp add: length_order_by order_trans [OF length_filter_le])

definition sample_pages :: page_env where
  "sample_pages =
     \<lparr>cursor_bytes = (\<lambda>c. (if cur_order c = ExecutionCreatedDescending then CHR ''e'' else if cur_filters c = [] then CHR ''w'' else CHR ''i'')
        # last (cur_position c)),
      cursor_of_bytes = (\<lambda>b. case b of [] \<Rightarrow> None | k # i \<Rightarrow> Some
        (if k = CHR ''e''
         then \<lparr>cur_filters = [], cur_order = ExecutionCreatedDescending, cur_high_water = None, cur_position = [''t'', i]\<rparr>
         else identity_cursor (if k = CHR ''w'' then [] else snapshot_filters ''mcp'' []) i)),
      identity_bytes = (\<lambda>_. []), page_sha256 = id, time_text = (\<lambda>_. ''t'')\<rparr>"

definition sample_rows :: store where
  "sample_rows = empty_store
     \<lparr>workflow_rows := map (\<lambda>i. \<lparr>wf_id = i, wf_name = i, wf_source = [], wf_status = ''enabled'', wf_revision = i, wf_updated = 0\<rparr>)
        [''b'', ''a''],
      execution_rows := map (\<lambda>i. \<lparr>exec_id = i, exec_workflow = ''a'', exec_status = ''failed'', exec_created = 0,
        exec_completed = None, exec_error = None, exec_pinned = False\<rparr>) [''y'', ''x'']\<rparr>"

theorem pages_show_everything_witness:
  "follow 3 (list_workflow_page sample_pages sample_rows (Some 1)) None = Some (Inr (order_by by_workflow_id (workflow_rows sample_rows)))
   \<and> follow 3 (list_execution_page sample_pages sample_rows None None (Some 1)) None
       = Some (Inr (order_by (latest_first sample_pages) (execution_rows sample_rows)))
   \<and> follow 3 (\<lambda>c. paginate_integration_items sample_pages [''q'', ''p''] (Some 1) c ''mcp'' id id) None = Some (Inr [''q'', ''p''])"
proof -
  have "workflows_ok (sample_pages, sample_rows, Some 1)" by code_simp
  moreover have "executions_ok (sample_pages, sample_rows, None, None, Some 1)" by code_simp
  moreover have "integrations_ok (sample_pages, [''q'', ''p''], Some 1, ''mcp'', id, id)" by code_simp
  moreover have "length (workflow_rows sample_rows) = 2" "length (execution_rows sample_rows) = 2"
    by (simp_all add: sample_rows_def)
  ultimately show ?thesis
    using pages_show_everything [of sample_pages sample_rows "Some 1" None None "[''q'', ''p'']" "''mcp''" id id]
    by (simp add: selected_def eval_nat_numeral)
qed

end
