(* ===== verification/Management.thy ===== *)
theory Management
  imports Api_Pages Run_Settles Workflow_Revisions
begin

text \<open>
  The operations of the management API on workflows and executions (\<open>src/management.rs\<close>): selecting, importing,
  enabling and disabling a workflow, submitting a run, and cancelling one.  An operation that reads the store, decides
  and then changes it takes two stores, the one it read and the one it changes, because others may have come in
  between.  An error carries the code that the HTTP status and the exit code are derived from.
\<close>

section \<open>Selecting a workflow\<close>

definition by_name :: "workflow_row \<Rightarrow> workflow_row \<Rightarrow> bool" where
  "by_name a b = str_less (wf_name a) (wf_name b)"

definition list_workflows :: "store \<Rightarrow> workflow_row list" where
  "list_workflows s = order_by by_name (workflow_rows s)"

definition selector_parts :: "string \<Rightarrow> bool \<times> bool \<times> string" where
  "selector_parts selector =
     (if starts_with selector ''id:'' then (True, False, drop 3 selector)
      else if starts_with selector ''name:'' then (False, True, drop 5 selector)
      else (True, True, selector))"

definition resolve_workflow :: "store \<Rightarrow> string \<Rightarrow> workflow_row management_result" where
  "resolve_workflow s given =
     (let selector = trim given in
      case selector_parts selector of (ids, names, v) \<Rightarrow>
        if v = [] then Inl (management_error_new InvalidRequest ''workflow selector must not be empty'')
        else (case filter (\<lambda>r. ids \<and> wf_id r = v \<or> names \<and> wf_name r = v) (list_workflows s) of
            [] \<Rightarrow> Inl (management_error_new ResourceNotFound (''workflow '' @ selector @ '' was not found''))
          | [r] \<Rightarrow> Inr r
          | _ \<Rightarrow> Inl (management_error_new ResourceConflict
                    (''workflow selector '' @ selector @ '' is ambiguous; use id: or name:''))))"

section \<open>Changing a workflow\<close>

type_synonym 'a management_change = "'a management_result \<times> store"

definition change_failed :: "management_error_code \<Rightarrow> string \<Rightarrow> store \<Rightarrow> 'a management_change" where
  "change_failed code message s = (Inl (management_error_new code message), s)"

definition analyze_workflow :: "core_env \<Rightarrow> string \<Rightarrow> workflow_analysis" where
  "analyze_workflow env source = analyze (read_document env) (\<lambda>t. registry env t \<noteq> None) source"

definition replace_workflow ::
  "core_env \<Rightarrow> string \<Rightarrow> timestamp \<Rightarrow> workflow_document \<Rightarrow> string \<Rightarrow> string \<Rightarrow> store \<Rightarrow> workflow_row management_change" where
  "replace_workflow env revision now doc source expected s =
     (case update_workflow_if_revision (triggers_ok (command_env env)) revision now doc source expected s of
        Inl _ \<Rightarrow> change_failed InternalError ''cannot replace workflow'' s
      | Inr (WorkflowUpdated r, s') \<Rightarrow> (Inr r, s')
      | Inr (WorkflowMissing, s') \<Rightarrow>
          change_failed ResourceNotFound (''workflow '' @ meta_id (metadata doc) @ '' was not found'') s'
      | Inr (WorkflowConflict current, s') \<Rightarrow>
          change_failed PreconditionFailed (''workflow revision changed; current revision is '' @ current) s')"

definition add_workflow ::
  "core_env \<Rightarrow> string \<Rightarrow> timestamp \<Rightarrow> workflow_document \<Rightarrow> string \<Rightarrow> store \<Rightarrow> workflow_row management_change" where
  "add_workflow env revision now doc source s =
     (case create_workflow (triggers_ok (command_env env)) revision now doc source ''disabled'' s of
        Inl _ \<Rightarrow> change_failed ResourceConflict ''workflow identity or name already exists'' s
      | Inr (None, s') \<Rightarrow> change_failed ResourceConflict ''workflow identity already exists'' s'
      | Inr (Some r, s') \<Rightarrow> (Inr r, s'))"

definition import_document ::
  "core_env \<Rightarrow> string \<Rightarrow> timestamp \<Rightarrow> workflow_document \<Rightarrow> string \<Rightarrow> bool \<Rightarrow> string option \<Rightarrow> store \<Rightarrow> store
   \<Rightarrow> workflow_row management_change" where
  "import_document env revision now doc source replace expected seen s =
     (let existing = list_workflows seen;
          same_id = find (\<lambda>r. wf_id r = meta_id (metadata doc)) existing;
          same_name = find (\<lambda>r. wf_name r = meta_name (metadata doc)) existing
      in case same_id of
           Some r \<Rightarrow>
             (if \<not> replace
              then change_failed ResourceConflict (''workflow '' @ wf_id r @ '' already exists; explicit replacement is required'') s
              else (case expected of
                  None \<Rightarrow> change_failed PreconditionFailed ''workflow replacement requires the observed revision'' s
                | Some x \<Rightarrow>
                    if (case same_name of None \<Rightarrow> False | Some n \<Rightarrow> wf_id n \<noteq> wf_id r)
                    then change_failed ResourceConflict
                      (''workflow name '' @ meta_name (metadata doc) @ '' belongs to a different workflow'') s
                    else replace_workflow env revision now doc source x s))
         | None \<Rightarrow>
             (if same_name \<noteq> None \<or> expected \<noteq> None
              then change_failed ResourceConflict
                (''workflow name '' @ meta_name (metadata doc) @ '' is already registered or its revision is unknown'') s
              else add_workflow env revision now doc source s))"

definition import_workflow ::
  "core_env \<Rightarrow> string \<Rightarrow> timestamp \<Rightarrow> string \<Rightarrow> bool \<Rightarrow> string option \<Rightarrow> store \<Rightarrow> store \<Rightarrow> workflow_row management_change" where
  "import_workflow env revision now source replace expected seen s =
     (if WORKFLOW_IMPORT_SOURCE_BYTES < length source
      then change_failed PayloadTooLarge ''workflow source exceeds the 1 MiB UTF-8 limit'' s
      else (case analyze_workflow env source of analysis \<Rightarrow>
        case analysed analysis of
          Some doc \<Rightarrow>
            if diagnostics analysis = [] then import_document env revision now doc source replace expected seen s
            else change_failed InvalidOperation
              (''workflow validation failed: '' @ diagnostics_message (diagnostics analysis)) s
        | None \<Rightarrow> change_failed InvalidOperation
              (''workflow validation failed: '' @ diagnostics_message (diagnostics analysis)) s))"

definition update_workflow_eligibility ::
  "timestamp \<Rightarrow> string \<Rightarrow> bool \<Rightarrow> string \<Rightarrow> store \<Rightarrow> workflow_row management_change" where
  "update_workflow_eligibility now w enabled expected s =
     (case set_workflow_status_if_revision w now (if enabled then ''enabled'' else ''disabled'') expected s of
        Inl _ \<Rightarrow> change_failed InternalError ''cannot update workflow eligibility'' s
      | Inr (WorkflowUpdated r, s') \<Rightarrow> (Inr r, s')
      | Inr (WorkflowMissing, s') \<Rightarrow> change_failed ResourceNotFound (''workflow '' @ w @ '' was not found'') s'
      | Inr (WorkflowConflict current, s') \<Rightarrow>
          change_failed PreconditionFailed (''workflow revision changed; current revision is '' @ current) s')"

section \<open>Submitting and cancelling runs\<close>

definition workflow_source :: "store \<Rightarrow> string \<Rightarrow> (string \<times> string) management_result" where
  "workflow_source s w =
     ok_or (map_option (\<lambda>r. (wf_source r, wf_revision r)) (workflow_of s w))
       (management_error_new ResourceNotFound (''workflow '' @ w @ '' was not found''))"

definition admission_error :: "string \<Rightarrow> management_error" where
  "admission_error e =
     (if contains_str e ''revision conflict'' then management_error_new PreconditionFailed e
      else if contains_str e ''was not found'' then management_error_new ResourceNotFound e
      else if contains_str e ''validation'' \<or> contains_str e ''limit'' \<or> contains_str e ''pending removal''
      then management_error_new InvalidOperation e
      else management_error_new InternalError ''workflow execution could not be admitted'')"

definition execution_workflow_revision :: "store \<Rightarrow> string \<Rightarrow> string option" where
  "execution_workflow_revision s i = map_option plan_revision (find (\<lambda>p. plan_execution p = i) (plan_rows s))"

text \<open>\<open>prepare_canonical_execution_with_context_request\<close> with empty trigger values; the run need not be enabled.\<close>

definition admit_workflow_execution ::
  "core_env \<Rightarrow> string \<Rightarrow> timestamp \<Rightarrow> string \<Rightarrow> json \<Rightarrow> (string \<times> string) option \<Rightarrow> store \<Rightarrow> store
   \<Rightarrow> (execution_row \<times> bool \<times> string) management_change" where
  "admit_workflow_execution env i now w input identity seen s =
     (if \<not> is_object input then change_failed InvalidRequest ''workflow execution input must be an object'' s
      else (case workflow_source seen w of
          Inl e \<Rightarrow> (Inl e, s)
        | Inr (source, revision) \<Rightarrow>
            (case prepare_canonical_execution_with_eligibility env i now source revision input (JObject []) identity False s of
               Inl e \<Rightarrow> (Inl (admission_error e), s)
             | Inr ((execution, created), s') \<Rightarrow>
                 (case execution_workflow_revision s' (exec_id execution) of
                    None \<Rightarrow> change_failed InternalError ''admitted workflow revision is unavailable'' s'
                  | Some admitted \<Rightarrow> (Inr (execution, created, admitted), s')))))"

section \<open>What a change does\<close>

text \<open>A workflow was added disabled, or replaced where its revision was the expected one and keeps its status; all other
  workflows are as they were.\<close>

definition imported ::
  "workflow_document \<Rightarrow> string \<Rightarrow> bool \<Rightarrow> string option \<Rightarrow> store \<Rightarrow> workflow_row \<Rightarrow> store \<Rightarrow> bool" where
  "imported doc source replace expected s r s' \<longleftrightarrow>
     wf_id r = meta_id (metadata doc) \<and> wf_source r = source
     \<and> (expected = None \<and> wf_id r \<notin> wf_id ` set (workflow_rows s) \<and> wf_status r = ''disabled''
          \<and> workflow_rows s' = workflow_rows s @ [r]
        \<or> replace \<and> (\<exists>old. workflow_of s (wf_id r) = Some old \<and> expected = Some (wf_revision old) \<and> wf_status r = wf_status old)
          \<and> workflow_rows s' = update_rows (\<lambda>x. wf_id x = wf_id r) (\<lambda>_. r) (workflow_rows s))"

definition unchanged_or :: "store \<Rightarrow> ('a \<Rightarrow> store \<Rightarrow> bool) \<Rightarrow> 'a management_change \<Rightarrow> bool" where
  "unchanged_or s P c \<longleftrightarrow> (case c of (Inl _, s') \<Rightarrow> s' = s | (Inr v, s') \<Rightarrow> P v s')"

lemma failed_unchanged [simp]: "unchanged_or s P (change_failed code message s)"
  by (simp add: unchanged_or_def change_failed_def)

lemma replace_imported:
  "unchanged_or s (imported doc source True (Some expected) s) (replace_workflow env revision now doc source expected s)"
  unfolding replace_workflow_def
  by (auto simp: update_workflow_if_revision_def rbind_unit_Inr rbind_Inr Let_def insert_revision_Inr new_workflow_def
      unchanged_or_def imported_def change_failed_def
      split: sum.split prod.split workflow_update.split option.splits if_splits)

lemma add_imported: "unchanged_or s (imported doc source replace None s) (add_workflow env revision now doc source s)"
  unfolding add_workflow_def
  by (auto simp: create_workflow_def rbind_unit_Inr rbind_Inr Let_def insert_revision_Inr new_workflow_def
      unchanged_or_def imported_def change_failed_def
      split: sum.split prod.split option.split if_splits)

lemma document_imported:
  "unchanged_or s (imported doc source replace expected s) (import_document env revision now doc source replace expected seen s)"
  using replace_imported [of s doc source] add_imported [of s doc source replace env revision now]
  by (auto simp: import_document_def Let_def split: option.split)

lemma created_under_revision:
  assumes "refs_ok s"
    and "create_execution_with_plan_guarded decode i now w revision text identity (True, enabled) plugins s = Inr ((e, True), s')"
  shows "e \<in> set (execution_rows s') \<and> exec_id e = i \<and> exec_workflow e = w \<and> execution_workflow_revision s' i = Some revision
    \<and> (\<exists>x. workflow_of s w = Some x \<and> wf_revision x = revision)"
proof -
  from assms(2) obtain status s1 s2 s3 where current: "check_current s w revision enabled = Inr ()"
    and e: "e = new_execution i w status now" and s1: "insert_execution e s = Inr s1"
    and s2: "pin_plugins i plugins s1 = Inr s2" and s3: "save_plan i now revision text identity s2 = Inr s3"
    and s': "s' = append_event (started_event status) w (Some i) (started_payload w status) now s3"
    by (auto simp: create_execution_with_plan_guarded_def rbind_Inr Let_def split: option.splits)
  from pin_plugins_same [OF s2] obtain p where pins: "s2 = s1\<lparr>pin_rows := p\<rparr>" unfolding same_but_pins_def by blast
  have rows: "execution_rows s' = execution_rows s @ [e]" "plan_rows s2 = plan_rows s" "i \<notin> exec_id ` set (execution_rows s)"
    using s1 pins save_plan_frame(1) [OF s3]
    by (auto simp: s' e insert_execution_def new_execution_def split: if_splits)
  have "find (\<lambda>p. plan_execution p = i) (plan_rows s) = None"
    using assms(1) rows(3) by (auto simp: refs_ok_def find_None_iff)
  then have "execution_workflow_revision s' i = Some revision"
    using s3 rows(2) by (auto simp: execution_workflow_revision_def s' save_plan_def Let_def find_append_new split: option.splits if_splits)
  with rows current show ?thesis
    by (auto simp: e new_execution_def check_current_def workflow_of_def split: option.splits if_splits)
qed

section \<open>Properties\<close>

text \<open>C35: An import changes one workflow or nothing: whatever the store was when it was read, an import that fails leaves the
  store as it is; one that succeeds has a valid document within the size limit and either adds its workflow,
  disabled, where there was none and no revision was expected, or replaces it, on demand only, where its revision was
  the expected one, with its status kept; and every other workflow stays as it is.\<close>

theorem import_is_guarded:
  "case import_workflow env revision now source replace expected seen s of
     (Inl _, s') \<Rightarrow> s' = s
   | (Inr r, s') \<Rightarrow> length source \<le> WORKFLOW_IMPORT_SOURCE_BYTES
       \<and> (\<exists>doc. read_document env source = Inr doc \<and> validate_semantics (\<lambda>t. registry env t \<noteq> None) doc = []
            \<and> imported doc source replace expected s r s')"
proof (cases "read_document env source")
  case (Inr doc)
  with document_imported [of s doc source replace expected env revision now seen] show ?thesis
    by (auto simp: import_workflow_def analyze_workflow_def analyze_def change_failed_def unchanged_or_def
        split: prod.splits sum.splits)
qed (auto simp: import_workflow_def analyze_workflow_def analyze_def change_failed_def)


lemma small_core_submits:
  "\<exists>e s'. admit_workflow_execution small_core ''e'' 1 ''write-note'' (JObject []) None ready_store ready_store = (Inr (e, True, ''r1''), s')"
proof -
  have "compile_source small_core [] = Inr (compiled copy_note)"
    by (simp only: compile_source_def small_core_compiles sum.case)
  moreover have "profiles small_core = (\<lambda>_. None)" "registry small_core = (\<lambda>_. None)" by (simp_all add: small_core_def)
  moreover have "meta_id (metadata copy_note) = ''write-note''" by (simp add: copy_note_def document_of_def)
  moreover have "workflow_source ready_store ''write-note'' = Inr ([], ''r1'')"
    by (simp add: workflow_source_def workflow_of_def ready_store_def ok_or_def)
  ultimately show ?thesis
    unfolding admit_workflow_execution_def prepare_canonical_execution_with_eligibility_def
    using small_core_checks copy_timeout
    by (simp add: is_object_def compiled_def no_plugins admit_plan_with_plugin_versions_def small_core_def
        finite_policy_def admit_eval store_eval check_current_def ensure_workflow_not_blocked_def
        require_def ready_store_def execution_workflow_revision_def)
qed


end
