(* ===== verification/Plugin_Package.thy ===== *)
theory Plugin_Package
  imports State_Run
begin

text \<open>
  Packages of plugins (\<open>src/plugin_install.rs\<close>): where a package comes from, how a directory or an npm archive is
  copied into staging within its limits, and the digest under which a staged package is approved.
  File names, paths and contents are byte strings; paths are those of Unix.
\<close>

section \<open>Sources\<close>

datatype plugin_source =
    Local_Source string
  | Npm_Source string "string option"
  | Git_Source string "string option"

text \<open>What is used of a URL; \<open>reqwest::Url::parse\<close> is a parameter.\<close>

record parsed_url =
  url_scheme :: string
  url_username :: string
  url_password :: "string option"
  url_query :: "string option"
  url_fragment :: "string option"

definition valid_segment :: "string \<Rightarrow> bool" where
  "valid_segment v =
     (v \<noteq> [] \<and> hd v \<notin> set ''.-''
      \<and> list_all (\<lambda>c. is_ascii_lowercase c \<or> is_ascii_digit c \<or> c \<in> set ''-_.'') v)"

text \<open>The last \<open>@\<close> separates the version, but for the one that starts a scope.\<close>

definition npm_split :: "string \<Rightarrow> string \<times> string option" where
  "npm_split spec =
     (if starts_with spec ''@''
      then (case rsplit_once CHR ''@'' (tl spec) of
              None \<Rightarrow> (spec, None) | Some (p, v) \<Rightarrow> (CHR ''@'' # p, Some v))
      else (case rsplit_once CHR ''@'' spec of None \<Rightarrow> (spec, None) | Some (p, v) \<Rightarrow> (p, Some v)))"

definition valid_npm_package :: "string \<Rightarrow> bool" where
  "valid_npm_package package =
     (if starts_with package ''@''
      then (case split_once CHR ''/'' (tl package) of
              None \<Rightarrow> False
            | Some (scope, name) \<Rightarrow> valid_segment scope \<and> valid_segment name \<and> CHR ''/'' \<notin> set name)
      else valid_segment package)"

definition npm_spec_error :: string where
  "npm_spec_error = ''npm source must be npm:<package>[@version]''"

definition npm_spec :: "string \<Rightarrow> (string, string \<times> string option) result" where
  "npm_spec spec =
     (if spec = [] then Inl npm_spec_error
      else
        (let (package, version) = npm_split spec in
         if \<not> valid_npm_package package
           \<or> version = Some []
           \<or> (case version of None \<Rightarrow> False
               | Some v \<Rightarrow> v \<noteq> ''latest''
                   \<and> list_ex (\<lambda>c. \<not> (is_ascii_alphanumeric c \<or> c \<in> set ''.+-'')) v)
         then Inl npm_spec_error
         else Inr (package, version)))"

definition validate_git_url :: "(string \<Rightarrow> parsed_url option) \<Rightarrow> string \<Rightarrow> (string, unit) result" where
  "validate_git_url parse_url v =
     (case parse_url v of
        None \<Rightarrow> Inl ''git source must use a valid HTTPS or SSH URL''
      | Some u \<Rightarrow>
          require (url_scheme u \<in> {''https'', ''ssh''} \<and> url_username u = [] \<and> url_password u = None
                   \<and> url_query u = None \<and> url_fragment u = None)
            ''git source must not contain credentials, query parameters, or unsupported schemes'')"

definition parse_source :: "(string \<Rightarrow> parsed_url option) \<Rightarrow> string \<Rightarrow> (string, plugin_source) result" where
  "parse_source parse_url v =
     (if v = [] \<or> 4096 < length v \<or> CHR 0x0D \<in> set v \<or> CHR 0x0A \<in> set v
      then Inl ''plugin source must be non-empty and at most 4,096 characters''
      else if starts_with v ''npm:''
      then rbind (npm_spec (drop 4 v)) (\<lambda>(package, version). Inr (Npm_Source package version))
      else if starts_with v ''git:''
      then
        (let spec = drop 4 v;
             (url, reference) =
               (case rsplit_once CHR ''#'' spec of None \<Rightarrow> (spec, None) | Some (u, r) \<Rightarrow> (u, Some r))
         in if url = [] \<or> reference = Some []
            then Inl ''git source must be git:<https-or-ssh-url>[#ref]''
            else rbind (validate_git_url parse_url url) (\<lambda>_. Inr (Git_Source url reference)))
      else Inr (Local_Source v))"

fun request_text :: "plugin_source \<Rightarrow> string" where
  "request_text (Local_Source p) = p"
| "request_text (Npm_Source package (Some v)) = ''npm:'' @ package @ ''@'' @ v"
| "request_text (Npm_Source package None) = ''npm:'' @ package"
| "request_text (Git_Source url (Some r)) = ''git:'' @ url @ ''#'' @ r"
| "request_text (Git_Source url None) = ''git:'' @ url"

section \<open>Paths and names\<close>

text \<open>\<open>String::from_utf8_lossy\<close>: the validity of the first sequence and the number of its bytes; what is not valid
  becomes U+FFFD.\<close>

definition byte_at :: "string \<Rightarrow> nat \<Rightarrow> nat" where
  "byte_at s i = (if i < length s then byte (s ! i) else 0)"

definition continues :: "string \<Rightarrow> nat \<Rightarrow> bool" where
  "continues s i = (128 \<le> byte_at s i \<and> byte_at s i \<le> 191)"

definition second_of_three :: "nat \<Rightarrow> nat \<Rightarrow> bool" where
  "second_of_three a b =
     (if a = 0xE0 then 0xA0 \<le> b \<and> b \<le> 0xBF else if a = 0xED then 0x80 \<le> b \<and> b \<le> 0x9F else 0x80 \<le> b \<and> b \<le> 0xBF)"

definition second_of_four :: "nat \<Rightarrow> nat \<Rightarrow> bool" where
  "second_of_four a b =
     (if a = 0xF0 then 0x90 \<le> b \<and> b \<le> 0xBF else if a = 0xF4 then 0x80 \<le> b \<and> b \<le> 0x8F else 0x80 \<le> b \<and> b \<le> 0xBF)"

definition utf8_sequence :: "string \<Rightarrow> bool \<times> nat" where
  "utf8_sequence s =
     (let a = byte_at s 0 in
      if a < 128 then (True, 1)
      else if 0xC2 \<le> a \<and> a \<le> 0xDF then (if continues s 1 then (True, 2) else (False, 1))
      else if 0xE0 \<le> a \<and> a \<le> 0xEF
      then (if \<not> second_of_three a (byte_at s 1) then (False, 1)
            else if \<not> continues s 2 then (False, 2) else (True, 3))
      else if 0xF0 \<le> a \<and> a \<le> 0xF4
      then (if \<not> second_of_four a (byte_at s 1) then (False, 1)
            else if \<not> continues s 2 then (False, 2)
            else if \<not> continues s 3 then (False, 3) else (True, 4))
      else (False, 1))"

lemma utf8_sequence_pos [simp]: "0 < snd (utf8_sequence s)"
  by (simp add: utf8_sequence_def Let_def)

function from_utf8_lossy :: "string \<Rightarrow> string" where
  "from_utf8_lossy s =
     (if s = [] then []
      else
        (let (valid, n) = utf8_sequence s in
         (if valid then take n s else [CHR 0xEF, CHR 0xBF, CHR 0xBD]) @ from_utf8_lossy (drop n s)))"
  by pat_completeness auto
termination
  using utf8_sequence_pos by (relation "measure length") (auto simp: diff_less prod_eq_iff)

declare from_utf8_lossy.simps [simp del]

function utf8_text :: "string \<Rightarrow> bool" where
  "utf8_text s =
     (if s = [] then True else fst (utf8_sequence s) \<and> utf8_text (drop (snd (utf8_sequence s)) s))"
  by pat_completeness auto
termination
  by (relation "measure length") auto

declare utf8_text.simps [simp del]

datatype path_component = Root_Dir | Cur_Dir | Parent_Dir | Normal string

text \<open>\<open>Path::components\<close>: empty components and inner \<open>.\<close> components do not count.\<close>

fun path_component_of :: "string \<Rightarrow> path_component" where
  "path_component_of p = (if p = ''..'' then Parent_Dir else Normal p)"

definition components_of :: "string \<Rightarrow> path_component list" where
  "components_of p =
     (let parts = split_on CHR ''/'' p in
      (if starts_with p ''/'' then [Root_Dir] else if hd parts = ''.'' then [Cur_Dir] else [])
      @ map path_component_of (filter (\<lambda>q. q \<noteq> [] \<and> q \<noteq> ''.'') parts))"

fun component_name :: "path_component \<Rightarrow> string" where
  "component_name Root_Dir = ''/''"
| "component_name Cur_Dir = ''.''"
| "component_name Parent_Dir = ''..''"
| "component_name (Normal n) = n"

definition npm_relative_path :: "string \<Rightarrow> (string, path_component list) result" where
  "npm_relative_path p =
     (case components_of p of
        Normal n # relative \<Rightarrow>
          (if n \<noteq> ''package'' then Inl ''npm tarball entry is outside package/''
           else if relative = [] \<or> list_ex (\<lambda>c. c = Parent_Dir \<or> c = Root_Dir) relative
           then Inl ''npm tarball contains unsafe path''
           else Inr relative)
      | _ \<Rightarrow> Inl ''npm tarball entry is outside package/'')"

section \<open>Directory trees\<close>

text \<open>What \<open>fs::read_dir\<close> and \<open>fs::File\<close> show of a directory, in the order of the listing; the strings of the entries
  that cannot be used are the errors of the operating system.\<close>

datatype tree =
    Regular_File string
  | Locked_File string
  | Directory "(string \<times> tree) list"
  | Locked_Directory string
  | Symlink
  | Special_File
  | Lost_Entry string
  | Unknown_Entry string

type_synonym entries = "(string \<times> tree) list"

definition MAX_PLUGIN_PACKAGE_BYTES :: nat where "MAX_PLUGIN_PACKAGE_BYTES = 256 * 1024 * 1024"
definition MAX_PLUGIN_FILES :: nat where "MAX_PLUGIN_FILES = 10000"

definition PLUGIN_MANIFEST_NAMES :: "string list" where
  "PLUGIN_MANIFEST_NAMES = [''kakune.plugin.json'', ''kakune-plugin.json'']"

type_synonym dir_path = "string list"

definition display_path :: "dir_path \<Rightarrow> string" where
  "display_path p = from_utf8_lossy (CHR ''/'' # join_str ''/'' p)"

text \<open>The file at a name, through directories.\<close>

fun entry_at :: "tree \<Rightarrow> dir_path \<Rightarrow> tree option" where
  "entry_at t [] = Some t"
| "entry_at (Directory es) (n # p) = (case map_of es n of None \<Rightarrow> None | Some t \<Rightarrow> entry_at t p)"
| "entry_at _ (n # p) = None"

fun regular_entry :: "tree \<Rightarrow> bool" where
  "regular_entry (Regular_File _) = True"
| "regular_entry (Locked_File _) = True"
| "regular_entry _ = False"

section \<open>The digest of a package\<close>

type_synonym collected = "string btree_map \<times> nat \<times> nat"

definition relative_key :: "dir_path \<Rightarrow> string" where
  "relative_key p =
     map (\<lambda>c. if c = CHR 0x5C then CHR ''/'' else c) (from_utf8_lossy (join_str ''/'' p))"

definition collect_regular :: "nat \<Rightarrow> dir_path \<Rightarrow> string \<Rightarrow> collected \<Rightarrow> (string, collected) result" where
  "collect_regular max_bytes p content = (\<lambda>(files, n, b).
     let bytes = take (max_bytes - b + 1) content;
         b' = b + length bytes
     in if max_bytes < b' then Inl ''plugin package exceeds the aggregate byte limit''
        else Inr (map_insert (relative_key p) bytes files, n, b'))"

text \<open>Every call for a directory starts with the check of its depth.\<close>

definition at_depth :: "nat \<Rightarrow> (string, 'a) result \<Rightarrow> (string, 'a) result" where
  "at_depth depth r = (if 32 < depth then Inl ''plugin package exceeds the depth limit'' else r)"

function collect_entries ::
    "nat \<Rightarrow> nat \<Rightarrow> dir_path \<Rightarrow> nat \<Rightarrow> entries \<Rightarrow> collected \<Rightarrow> (string, collected) result" where
  "collect_entries max_files max_bytes current depth [] w = Inr w"
| "collect_entries max_files max_bytes current depth ((name, t) # es) (files, n, b) =
     rbind
       (case t of
          Lost_Entry e \<Rightarrow> Inl (''cannot inspect staged plugin: '' @ e)
        | _ \<Rightarrow>
            (if max_files < n + 1 then Inl ''plugin package exceeds the file-count limit''
             else (case t of
                 Unknown_Entry e \<Rightarrow> Inl (''cannot inspect staged plugin entry: '' @ e)
               | Symlink \<Rightarrow> Inl ''staged plugin contains a symlink''
               | Directory ds \<Rightarrow> at_depth (depth + 1)
                   (collect_entries max_files max_bytes (current @ [name]) (depth + 1) ds (files, n + 1, b))
               | Locked_Directory e \<Rightarrow> at_depth (depth + 1) (Inl (''cannot read staged plugin: '' @ e))
               | Regular_File content \<Rightarrow> collect_regular max_bytes (current @ [name]) content (files, n + 1, b)
               | Locked_File e \<Rightarrow> Inl (''cannot read staged plugin file: '' @ e)
               | _ \<Rightarrow> Inl ''staged plugin contains an unsupported entry'')))
       (collect_entries max_files max_bytes current depth es)"
  by pat_completeness auto
termination
  by (relation "measure (\<lambda>(_, _, _, _, es, _). size_list (size_prod (\<lambda>_. 0) size) es)") auto

definition collect_files ::
  "nat \<Rightarrow> nat \<Rightarrow> dir_path \<Rightarrow> nat \<Rightarrow> tree \<Rightarrow> collected \<Rightarrow> (string, collected) result" where
  "collect_files max_files max_bytes current depth t w =
     at_depth depth
       (case t of
          Directory es \<Rightarrow> collect_entries max_files max_bytes current depth es w
        | Locked_Directory e \<Rightarrow> Inl (''cannot read staged plugin: '' @ e)
        | _ \<Rightarrow> Inl ''cannot read staged plugin: Not a directory (os error 20)'')"

text \<open>\<open>u64::to_be_bytes\<close>.\<close>

fun be_bytes :: "nat \<Rightarrow> nat \<Rightarrow> string" where
  "be_bytes 0 n = []"
| "be_bytes (Suc k) n = be_bytes k (n div 256) @ [char_of n]"

definition digest_stream :: "string btree_map \<Rightarrow> string" where
  "digest_stream files = concat (map (\<lambda>(p, c). p @ [CHR 0x00] @ be_bytes 8 (length c) @ c) files)"

definition package_digest_with_limits ::
  "(string \<Rightarrow> string) \<Rightarrow> nat \<Rightarrow> nat \<Rightarrow> tree option \<Rightarrow> (string, string) result" where
  "package_digest_with_limits sha256 max_files max_bytes root_entry =
     (case root_entry of
        None \<Rightarrow> Inl ''cannot inspect plugin package root: No such file or directory (os error 2)''
      | Some t \<Rightarrow>
          (case t of
             Lost_Entry e \<Rightarrow> Inl (''cannot inspect plugin package root: '' @ e)
           | Unknown_Entry e \<Rightarrow> Inl (''cannot inspect plugin package root: '' @ e)
           | _ \<Rightarrow>
               (if t = Symlink \<or> t = Special_File \<or> regular_entry t
                then Inl ''plugin package root must be a regular directory''
                else rbind (collect_files max_files max_bytes [] 0 t ([], 0, 0)) (\<lambda>(files, _).
                  Inr (''sha256:'' @ hex_lower (sha256 (digest_stream files)))))))"

definition package_digest :: "(string \<Rightarrow> string) \<Rightarrow> tree option \<Rightarrow> (string, string) result" where
  "package_digest sha256 t = package_digest_with_limits sha256 MAX_PLUGIN_FILES MAX_PLUGIN_PACKAGE_BYTES t"

definition find_manifest :: "tree \<Rightarrow> (string, string) result" where
  "find_manifest t =
     ok_or (find (\<lambda>n. case entry_at t [n] of None \<Rightarrow> False | Some e \<Rightarrow> regular_entry e) PLUGIN_MANIFEST_NAMES)
       (''plugin source must contain one of '' @ join_str '', '' PLUGIN_MANIFEST_NAMES)"

section \<open>Staging\<close>

text \<open>What staging does to the file system, in order, with the two counters of the budget.  The environment says
  which directories and files cannot be made, and which copies fail after some bytes.\<close>

datatype staged = Staged_Dir dir_path | Staged_File dir_path string

record stage_env =
  dir_error :: "dir_path \<Rightarrow> string option"
  create_error :: "dir_path \<Rightarrow> string option"
  copy_error :: "dir_path \<Rightarrow> (nat \<times> string) option"

type_synonym staging = "staged list \<times> nat \<times> nat"

type_synonym 'a stage_run = "(string, staging, 'a) fallible"

definition stage_dir :: "stage_env \<Rightarrow> string \<Rightarrow> dir_path \<Rightarrow> unit stage_run" where
  "stage_dir env message p = (\<lambda>(done_so_far, n, b).
     case dir_error env p of
       Some e \<Rightarrow> (Inl (message @ e), (done_so_far, n, b))
     | None \<Rightarrow> (Inr (), (done_so_far @ [Staged_Dir p], n, b)))"

definition stage_file :: "stage_env \<Rightarrow> string \<Rightarrow> string \<Rightarrow> dir_path \<Rightarrow> string \<Rightarrow> nat stage_run" where
  "stage_file env create_message copy_message p content = (\<lambda>(done_so_far, n, b).
     case create_error env p of
       Some e \<Rightarrow> (Inl (create_message @ e), (done_so_far, n, b))
     | None \<Rightarrow>
         (case copy_error env p of
            Some (k, e) \<Rightarrow> (Inl (copy_message @ e), (done_so_far @ [Staged_File p (take k content)], n, b))
          | None \<Rightarrow> (Inr (length content), (done_so_far @ [Staged_File p content], n, b))))"

text \<open>The counters saturate in the source; no limit comes near the range.\<close>

definition count_entry :: "string \<Rightarrow> nat \<Rightarrow> unit stage_run" where
  "count_entry message max_files = (\<lambda>(done_so_far, n, b).
     (if max_files < n + 1 then Inl message else Inr (), (done_so_far, n + 1, b)))"

definition count_bytes :: "string \<Rightarrow> nat \<Rightarrow> nat \<Rightarrow> unit stage_run" where
  "count_bytes message max_bytes k = (\<lambda>(done_so_far, n, b).
     (if max_bytes < b + k then Inl message else Inr (), (done_so_far, n, b + k)))"

definition copy_regular :: "stage_env \<Rightarrow> nat \<Rightarrow> dir_path \<Rightarrow> string \<Rightarrow> unit stage_run" where
  "copy_regular env max_bytes target content w =
     (let remaining = max_bytes - snd (snd w) in
      sbind (stage_file env ''cannot create staged plugin file: '' ''cannot stage plugin file: '' target
               (take (remaining + 1) content))
        (count_bytes ''plugin package exceeds the aggregate byte limit'' max_bytes) w)"

text \<open>One entry of a listing; \<open>copy_below\<close> is the call for its own entries, when it is a directory.\<close>

fun entries_below :: "tree \<Rightarrow> entries" where
  "entries_below (Directory es) = es"
| "entries_below _ = []"

definition copy_entry ::
  "stage_env \<Rightarrow> nat \<Rightarrow> nat \<Rightarrow> dir_path \<Rightarrow> dir_path \<Rightarrow> nat \<Rightarrow> string \<Rightarrow> tree \<Rightarrow> unit stage_run \<Rightarrow> unit stage_run" where
  "copy_entry env max_files max_bytes source target depth name t copy_below =
     (case t of
        Lost_Entry e \<Rightarrow> sfail (''cannot read plugin source entry: '' @ e)
      | _ \<Rightarrow>
          (if name = ''.git'' then sreturn ()
           else (case t of
               Unknown_Entry e \<Rightarrow> sfail (''cannot inspect plugin source entry: '' @ e)
             | Symlink \<Rightarrow>
                 sfail (''plugin source contains unsupported symlink '' @ display_path (source @ [name]))
             | _ \<Rightarrow>
                 sbind (count_entry ''plugin package exceeds the file-count limit'' max_files) (\<lambda>_.
                   case t of
                     Directory ds \<Rightarrow>
                       sbind (stage_dir env ''cannot create staged directory: '' (target @ [name])) (\<lambda>_.
                       sbind (slift (at_depth (depth + 1) (Inr ()))) (\<lambda>_. copy_below))
                   | Locked_Directory e \<Rightarrow>
                       sbind (stage_dir env ''cannot create staged directory: '' (target @ [name])) (\<lambda>_.
                       slift (at_depth (depth + 1) (Inl (''cannot read plugin source: '' @ e))))
                   | Regular_File content \<Rightarrow> copy_regular env max_bytes (target @ [name]) content
                   | Locked_File e \<Rightarrow> sfail (''cannot read plugin source file: '' @ e)
                   | _ \<Rightarrow> sfail (''plugin source contains unsupported entry '' @ display_path (source @ [name]))))))"

function copy_entries ::
  "stage_env \<Rightarrow> nat \<Rightarrow> nat \<Rightarrow> dir_path \<Rightarrow> dir_path \<Rightarrow> nat \<Rightarrow> entries \<Rightarrow> unit stage_run" where
  "copy_entries env max_files max_bytes source target depth [] w = (Inr (), w)"
| "copy_entries env max_files max_bytes source target depth ((name, t) # es) w =
     sbind
       (copy_entry env max_files max_bytes source target depth name t (\<lambda>w.
          copy_entries env max_files max_bytes (source @ [name]) (target @ [name]) (depth + 1) (entries_below t) w))
       (\<lambda>_ w. copy_entries env max_files max_bytes source target depth es w) w"
  by pat_completeness auto
termination
proof (relation "measure (\<lambda>(_, _, _, _, _, _, es, _). size_list (size_prod (\<lambda>_. 0) size) es)")
  show "((env, max_files, max_bytes, source @ [name], target @ [name], depth + 1, entries_below t, v),
         (env, max_files, max_bytes, source, target, depth, (name, t) # es, w))
      \<in> measure (\<lambda>(_, _, _, _, _, _, es, _). size_list (size_prod (\<lambda>_. 0) size) es)"
    for env :: stage_env and max_files max_bytes source target depth name t es w and v :: staging
    by (cases t) auto
qed auto

definition copy_tree_with_limits ::
  "stage_env \<Rightarrow> nat \<Rightarrow> nat \<Rightarrow> dir_path \<Rightarrow> dir_path \<Rightarrow> tree \<Rightarrow> (string, unit) result \<times> staging" where
  "copy_tree_with_limits env max_files max_bytes source target t =
     (case t of
        Directory es \<Rightarrow> copy_entries env max_files max_bytes source target 0 es ([], 0, 0)
      | Locked_Directory e \<Rightarrow> (Inl (''cannot read plugin source: '' @ e), ([], 0, 0))
      | _ \<Rightarrow> (Inl ''cannot read plugin source: Not a directory (os error 20)'', ([], 0, 0)))"

definition copy_tree :: "stage_env \<Rightarrow> dir_path \<Rightarrow> dir_path \<Rightarrow> tree \<Rightarrow> (string, unit) result \<times> staging" where
  "copy_tree env source target t =
     copy_tree_with_limits env MAX_PLUGIN_FILES MAX_PLUGIN_PACKAGE_BYTES source target t"

text \<open>Entries of an archive as the packages \<open>flate2\<close> and \<open>tar\<close> give them; the data are the bytes that can be read,
  whatever the header says.\<close>

datatype tar_kind = Tar_Directory | Tar_File | Tar_Other

record tar_entry =
  tar_entry_kind :: tar_kind
  tar_path :: "(string, string) result"
  tar_size :: "nat option"
  tar_data :: string

definition extract_regular :: "stage_env \<Rightarrow> nat \<Rightarrow> dir_path \<Rightarrow> tar_entry \<Rightarrow> unit stage_run" where
  "extract_regular env max_bytes destination t =
     sbind (slift (case tar_path t of
         Inl e \<Rightarrow> Inl (''npm tarball has invalid path: '' @ e)
       | Inr p \<Rightarrow> npm_relative_path p)) (\<lambda>relative.
     sbind (slift (ok_or (tar_size t) ''npm package has invalid file metadata'')) (\<lambda>advertised_size.
     sbind (count_bytes ''npm package exceeds the aggregate byte limit'' max_bytes advertised_size) (\<lambda>_.
     let target = destination @ map component_name relative in
     sbind (stage_dir env ''cannot stage npm directory: '' (butlast target)) (\<lambda>_.
     sbind (stage_file env ''cannot stage npm file: '' ''cannot extract npm file: '' target
              (take (advertised_size + 1) (tar_data t))) (\<lambda>copied.
     slift (require (copied = advertised_size)
       ''npm package file length does not match its metadata''))))))"

fun extract_entries ::
  "stage_env \<Rightarrow> nat \<Rightarrow> nat \<Rightarrow> dir_path \<Rightarrow> (string, tar_entry) result list \<Rightarrow> unit stage_run" where
  "extract_entries env max_files max_bytes destination [] = sreturn ()"
| "extract_entries env max_files max_bytes destination (Inl e # es) =
     sfail (''cannot read npm tarball entry: '' @ e)"
| "extract_entries env max_files max_bytes destination (Inr t # es) =
     sbind (count_entry ''npm package exceeds the file-count limit'' max_files) (\<lambda>_.
     sbind (case tar_entry_kind t of
         Tar_Directory \<Rightarrow> sreturn ()
       | Tar_Other \<Rightarrow> sfail ''npm package contains a non-regular file''
       | Tar_File \<Rightarrow> extract_regular env max_bytes destination t) (\<lambda>_.
     extract_entries env max_files max_bytes destination es))"

definition extract_npm_tarball_with_limits ::
  "(string \<Rightarrow> (string, (string, tar_entry) result list) result) \<Rightarrow> stage_env \<Rightarrow> nat \<Rightarrow> nat \<Rightarrow> string
   \<Rightarrow> dir_path \<Rightarrow> (string, unit) result \<times> staging" where
  "extract_npm_tarball_with_limits archive_entries env max_files max_bytes bytes destination =
     (case archive_entries bytes of
        Inl e \<Rightarrow> (Inl (''cannot inspect npm tarball: '' @ e), ([], 0, 0))
      | Inr es \<Rightarrow> extract_entries env max_files max_bytes destination es ([], 0, 0))"

definition extract_npm_tarball ::
  "(string \<Rightarrow> (string, (string, tar_entry) result list) result) \<Rightarrow> stage_env \<Rightarrow> string \<Rightarrow> dir_path
   \<Rightarrow> (string, unit) result \<times> staging" where
  "extract_npm_tarball archive_entries env bytes destination =
     extract_npm_tarball_with_limits archive_entries env MAX_PLUGIN_FILES MAX_PLUGIN_PACKAGE_BYTES bytes destination"

section \<open>The stream that is hashed\<close>

lemma length_be_bytes [simp]: "length (be_bytes k n) = k"
  by (induction k arbitrary: n) auto

lemma be_bytes_inject: "m < 256 ^ k \<Longrightarrow> n < 256 ^ k \<Longrightarrow> be_bytes k m = be_bytes k n \<longleftrightarrow> m = n"
proof (induction k arbitrary: m n)
  case (Suc k)
  have div: "m div 256 < 256 ^ k" "n div 256 < 256 ^ k"
    using Suc.prems by (simp_all add: less_mult_imp_div_less mult.commute)
  have "be_bytes (Suc k) m = be_bytes (Suc k) n
      \<longleftrightarrow> m div 256 = n div 256 \<and> (char_of m :: char) = char_of n"
    using Suc.IH [OF div] by simp
  also have "\<dots> \<longleftrightarrow> m div 256 = n div 256 \<and> m mod 256 = n mod 256"
    by (metis of_char_of char_of_mod_256)
  also have "\<dots> \<longleftrightarrow> m = n" by (metis div_mult_mod_eq)
  finally show ?case .
qed simp

definition hashable :: "string btree_map \<Rightarrow> bool" where
  "hashable files \<longleftrightarrow> (\<forall>(p, c) \<in> set files. CHR 0x00 \<notin> set p \<and> length c < 2 ^ 64)"

lemma digest_stream_Cons:
  "digest_stream ((p, c) # fs) = p @ CHR 0x00 # be_bytes 8 (length c) @ c @ digest_stream fs"
  by (simp add: digest_stream_def)

lemma append_Cons_inject:
  "x \<notin> set a \<Longrightarrow> x \<notin> set b \<Longrightarrow> a @ x # r = b @ x # s \<longleftrightarrow> a = b \<and> r = s"
proof (induction a arbitrary: b)
  case (Cons y a)
  then show ?case by (cases b) auto
next
  case Nil
  then show ?case by (cases b) auto
qed

lemma digest_stream_inject:
  "hashable f \<Longrightarrow> hashable g \<Longrightarrow> digest_stream f = digest_stream g \<longleftrightarrow> f = g"
proof (induction f arbitrary: g)
  case Nil
  then show ?case by (cases g) (auto simp: digest_stream_Cons digest_stream_def)
next
  case (Cons e f)
  obtain p c where e: "e = (p, c)" by (cases e)
  show ?case
  proof (cases g)
    case Nil
    then show ?thesis by (auto simp: e digest_stream_Cons digest_stream_def)
  next
    case (Cons e' g')
    obtain q d where e': "e' = (q, d)" by (cases e')
    have h: "hashable f" "hashable g'" "CHR 0x00 \<notin> set p" "CHR 0x00 \<notin> set q"
      "length c < 256 ^ 8" "length d < 256 ^ 8"
      using Cons.prems by (auto simp: hashable_def local.Cons e e')
    have "digest_stream (e # f) = digest_stream (e' # g')
        \<longleftrightarrow> p = q \<and> length c = length d \<and> c = d \<and> digest_stream f = digest_stream g'"
      using h(3-6) be_bytes_inject [OF h(5,6)]
      by (auto simp: e e' digest_stream_Cons append_Cons_inject append_eq_append_conv)
    then show ?thesis using Cons.IH [OF h(1,2)] by (auto simp: local.Cons e e')
  qed
qed

section \<open>The files of a package\<close>

text \<open>The regular files below a directory, with their paths.\<close>

fun files_of :: "dir_path \<Rightarrow> tree \<Rightarrow> (dir_path \<times> string) list" where
  "files_of p (Regular_File c) = [(p, c)]"
| "files_of p (Directory es) = concat (map (\<lambda>(n, t). files_of (p @ [n]) t) es)"
| "files_of p _ = []"

definition insert_file :: "dir_path \<times> string \<Rightarrow> string btree_map \<Rightarrow> string btree_map" where
  "insert_file = (\<lambda>(p, c). map_insert (relative_key p) c)"

lemma collect_regular_Inr:
  "collect_regular mb p c (fs, n, b) = Inr w \<longleftrightarrow> b + length c \<le> mb \<and> w = (insert_file (p, c) fs, n, b + length c)"
  by (auto simp: collect_regular_def insert_file_def Let_def min_def split: if_splits)

lemma at_depth_Inr: "at_depth d r = Inr x \<longleftrightarrow> d \<le> 32 \<and> r = Inr x"
  by (auto simp: at_depth_def)

text \<open>An entry that is accepted is a file or a directory, and is counted.\<close>

lemma collect_entries_Cons:
  "collect_entries mf mb p d ((name, t) # es) (fs, n, b) = Inr w \<longleftrightarrow>
     n + 1 \<le> mf \<and>
     ((\<exists>c. t = Regular_File c \<and> b + length c \<le> mb
         \<and> collect_entries mf mb p d es (insert_file (p @ [name], c) fs, n + 1, b + length c) = Inr w)
      \<or> (\<exists>ds w'. t = Directory ds \<and> d + 1 \<le> 32
         \<and> collect_entries mf mb (p @ [name]) (d + 1) ds (fs, n + 1, b) = Inr w'
         \<and> collect_entries mf mb p d es w' = Inr w))"
  by (cases t) (auto simp: rbind_Inr collect_regular_Inr at_depth_Inr)

definition file_bytes :: "(dir_path \<times> string) list \<Rightarrow> nat" where
  "file_bytes fs = sum_list (map (length \<circ> snd) fs)"

lemma file_bytes_simps [simp]:
  "file_bytes [] = 0" "file_bytes (x # xs) = length (snd x) + file_bytes xs"
  "file_bytes (xs @ ys) = file_bytes xs + file_bytes ys"
  by (simp_all add: file_bytes_def)

declare collect_entries.simps(2) [simp del]

lemma collect_entries_spec:
  assumes "collect_entries mf mb p d es w = Inr w'"
  shows "fst w' = fold insert_file (files_of p (Directory es)) (fst w)
     \<and> snd (snd w') = snd (snd w) + file_bytes (files_of p (Directory es))
     \<and> (snd (snd w) \<le> mb \<longrightarrow> snd (snd w') \<le> mb)"
  using assms
proof (induction "size_list (size_prod (\<lambda>_. 0) size) es" arbitrary: p d es w w' rule: less_induct)
  case less
  show ?case
  proof (cases es)
    case Nil
    with less.prems show ?thesis by simp
  next
    case (Cons e es')
    obtain name t where e: "e = (name, t)" by (cases e)
    obtain fs n b where w: "w = (fs, n, b)" by (cases w) auto
    consider
        (content) c where "t = Regular_File c" "b + length c \<le> mb"
          "collect_entries mf mb p d es' (insert_file (p @ [name], c) fs, n + 1, b + length c) = Inr w'"
      | (inner) ds v where "t = Directory ds"
          "collect_entries mf mb (p @ [name]) (d + 1) ds (fs, n + 1, b) = Inr v"
          "collect_entries mf mb p d es' v = Inr w'"
      using less.prems unfolding Cons e w collect_entries_Cons by auto
    then show ?thesis
    proof cases
      case content
      with less.hyps [OF _ content(3)] show ?thesis by (simp add: Cons e w)
    next
      case inner
      with less.hyps [OF _ inner(2)] less.hyps [OF _ inner(3)] show ?thesis
        by (auto simp: Cons e w)
    qed
  qed
qed


lemma map_of_insert_files:
  "map_of (fold insert_file fs m) = map_of m ++ map_of (map (\<lambda>(p, c). (relative_key p, c)) (rev fs))"
  by (induction fs arbitrary: m) (auto simp: insert_file_def fun_eq_iff map_add_def split: option.splits)

lemma sorted_insert_files: "sorted_wrt str_less (keys m) \<Longrightarrow> sorted_wrt str_less (keys (fold insert_file fs m))"
  by (induction fs arbitrary: m) (auto simp: insert_file_def sorted_map_insert)

section \<open>Names that keep their bytes\<close>

lemma utf8_sequence_append:
  assumes "fst (utf8_sequence s)" and "s \<noteq> []"
  shows "utf8_sequence (s @ r) = utf8_sequence s \<and> snd (utf8_sequence s) \<le> length s"
proof -
  have at: "byte_at (s @ r) i = byte_at s i" if "i < length s" for i
    using that by (simp add: byte_at_def nth_append)
  have inside: "i < length s" if "128 \<le> byte_at s i" for i
    using that by (auto simp: byte_at_def split: if_splits)
  have second: "128 \<le> b" if "second_of_three a b \<or> second_of_four a b" for a b
    using that by (auto simp: second_of_three_def second_of_four_def split: if_splits)
  have step: "continues (s @ r) i = continues s i" if "continues s i" for i
    using at [of i] inside [of i] that by (simp add: continues_def)
  have first: "byte_at (s @ r) 0 = byte_at s 0" "0 < length s" using at [of 0] assms(2) by simp_all
  let ?a = "byte_at s 0"
  consider "?a < 128" | "0xC2 \<le> ?a" "?a \<le> 0xDF" | "0xE0 \<le> ?a" "?a \<le> 0xEF" | "0xF0 \<le> ?a" "?a \<le> 0xF4"
    using assms(1) by (simp add: utf8_sequence_def Let_def split: if_splits)
  then show ?thesis
  proof cases
    case 1
    then show ?thesis using first by (simp add: utf8_sequence_def Let_def Suc_le_eq)
  next
    case 2
    then have "continues s 1" using assms(1) by (simp add: utf8_sequence_def Let_def split: if_splits)
    with 2 first step [of 1] inside [of 1] show ?thesis
      by (simp add: utf8_sequence_def Let_def continues_def)
  next
    case 3
    then have c: "second_of_three ?a (byte_at s 1)" "continues s 2"
      using assms(1) by (simp_all add: utf8_sequence_def Let_def split: if_splits)
    then have "1 < length s" "2 < length s"
      using second inside [of 1] inside [of 2] by (auto simp: continues_def)
    with 3 c first at [of 1] step [of 2] show ?thesis by (simp add: utf8_sequence_def Let_def)
  next
    case 4
    then have c: "second_of_four ?a (byte_at s 1)" "continues s 2" "continues s 3"
      using assms(1) by (simp_all add: utf8_sequence_def Let_def split: if_splits)
    then have "1 < length s" "2 < length s" "3 < length s"
      using second inside [of 1] inside [of 2] inside [of 3] by (auto simp: continues_def)
    with 4 c first at [of 1] step [of 2] step [of 3] show ?thesis by (simp add: utf8_sequence_def Let_def)
  qed
qed

lemma utf8_text_append: "utf8_text a \<Longrightarrow> utf8_text b \<Longrightarrow> utf8_text (a @ b)"
proof (induction a rule: utf8_text.induct)
  case (1 a)
  show ?case
  proof (cases "a = []")
    case False
    with "1.prems"(1) have v: "fst (utf8_sequence a)" "utf8_text (drop (snd (utf8_sequence a)) a)"
      by (simp_all add: utf8_text.simps [of a])
    with "1.IH" [OF False] "1.prems"(2) utf8_sequence_append [OF v(1) False, of b] False
    show ?thesis by (simp add: utf8_text.simps [of "a @ b"])
  qed (use "1.prems" in simp)
qed

lemma from_utf8_lossy_text: "utf8_text s \<Longrightarrow> from_utf8_lossy s = s"
proof (induction s rule: utf8_text.induct)
  case (1 s)
  show ?case
  proof (cases "s = []")
    case False
    with "1.prems" have v: "fst (utf8_sequence s)" "utf8_text (drop (snd (utf8_sequence s)) s)"
      by (simp_all add: utf8_text.simps [of s])
    with "1.IH" [OF False] show ?thesis
      by (simp add: from_utf8_lossy.simps [of s] case_prod_beta Let_def)
  qed (simp add: from_utf8_lossy.simps)
qed

text \<open>A name that Unix allows, in UTF-8 and without a backslash.\<close>

definition plain_name :: "string \<Rightarrow> bool" where
  "plain_name n \<longleftrightarrow> n \<noteq> [] \<and> utf8_text n \<and> CHR ''/'' \<notin> set n \<and> CHR 0x5C \<notin> set n \<and> CHR 0x00 \<notin> set n"

lemma in_join_str: "set (join_str sep ps) \<subseteq> set sep \<union> \<Union> (set ` set ps)"
  by (induction sep ps rule: join_str.induct) auto

lemma utf8_text_join: "list_all plain_name ps \<Longrightarrow> utf8_text (join_str ''/'' ps)"
proof (induction "''/''" ps rule: join_str.induct)
  case (3 a b ps)
  have "utf8_text ''/''" by (simp add: utf8_text.simps utf8_sequence_def byte_at_def Let_def)
  with 3 have "utf8_text (''/'' @ join_str ''/'' (b # ps))" by (intro utf8_text_append) auto
  with 3 utf8_text_append [of a] show ?case by (simp add: plain_name_def)
qed (simp_all add: plain_name_def utf8_text.simps [of "[]"])

lemma relative_key_plain:
  assumes "list_all plain_name ps"
  shows "relative_key ps = join_str ''/'' ps" and "CHR 0x00 \<notin> set (relative_key ps)"
proof -
  have "CHR 0x5C \<notin> set (join_str ''/'' ps)" "CHR 0x00 \<notin> set (join_str ''/'' ps)"
    using in_join_str [of "''/''" ps] assms by (auto simp: plain_name_def list_all_iff)
  with from_utf8_lossy_text [OF utf8_text_join [OF assms]]
  show "relative_key ps = join_str ''/'' ps" "CHR 0x00 \<notin> set (relative_key ps)"
    unfolding relative_key_def by (auto intro!: map_idI)
qed

lemma split_on_append: "c \<notin> set a \<Longrightarrow> split_on c (a @ c # r) = a # split_on c r"
  by (induction a) auto

lemma split_on_fresh: "c \<notin> set a \<Longrightarrow> split_on c a = [a]"
  by (induction a) auto

lemma split_on_join: "ps \<noteq> [] \<Longrightarrow> list_all (\<lambda>p. c \<notin> set p) ps \<Longrightarrow> split_on c (join_str [c] ps) = ps"
  by (induction "[c]" ps rule: join_str.induct) (auto simp: split_on_append split_on_fresh)

lemma relative_key_inject:
  assumes "list_all plain_name p" and "list_all plain_name q" and "p \<noteq> []" and "q \<noteq> []"
    and "relative_key p = relative_key q"
  shows "p = q"
proof -
  have "list_all (\<lambda>n. CHR ''/'' \<notin> set n) p" "list_all (\<lambda>n. CHR ''/'' \<notin> set n) q"
    using assms(1,2) by (auto simp: list_all_iff plain_name_def)
  with assms split_on_join relative_key_plain(1) show ?thesis by metis
qed

section \<open>What the digest identifies\<close>

text \<open>A directory tree as a file system has it, with plain names.\<close>

fun well_named :: "tree \<Rightarrow> bool" where
  "well_named (Directory es) \<longleftrightarrow> distinct (map fst es) \<and> list_all (\<lambda>(n, t). plain_name n \<and> well_named t) es"
| "well_named _ \<longleftrightarrow> True"

lemma files_of_entry_at:
  "well_named t \<Longrightarrow> (q, c) \<in> set (files_of p t) \<longleftrightarrow>
     (\<exists>r. q = p @ r \<and> list_all plain_name r \<and> entry_at t r = Some (Regular_File c))"
proof (induction t arbitrary: p q)
  case (Directory es)
  have IH: "(q, c) \<in> set (files_of (p @ [n]) t) \<longleftrightarrow>
      (\<exists>r. q = p @ n # r \<and> list_all plain_name r \<and> entry_at t r = Some (Regular_File c))"
    if "(n, t) \<in> set es" for n t
  proof -
    from that have "t \<in> Basic_BNFs.snds (n, t)" "well_named t"
      using Directory.prems by (auto simp: snds.simps list_all_iff)
    with Directory.IH [OF that, of t q "p @ [n]"] show ?thesis by simp
  qed
  have names: "map_of es n = Some t \<longleftrightarrow> (n, t) \<in> set es" for n t
    using Directory.prems by (simp add: map_of_eq_Some_iff)
  have plain: "plain_name n" if "(n, t) \<in> set es" for n t
    using Directory.prems that by (auto simp: list_all_iff)
  have "(q, c) \<in> set (files_of p (Directory es)) \<longleftrightarrow>
      (\<exists>n t r. (n, t) \<in> set es \<and> q = p @ n # r \<and> list_all plain_name r \<and> entry_at t r = Some (Regular_File c))"
    using IH by fastforce
  also have "\<dots> \<longleftrightarrow> (\<exists>r. q = p @ r \<and> list_all plain_name r \<and> entry_at (Directory es) r = Some (Regular_File c))"
  proof
    assume "\<exists>r. q = p @ r \<and> list_all plain_name r \<and> entry_at (Directory es) r = Some (Regular_File c)"
    then obtain r where r: "q = p @ r" "list_all plain_name r" "entry_at (Directory es) r = Some (Regular_File c)"
      by blast
    then obtain n r' where n: "r = n # r'" by (cases r) auto
    with r obtain t where "map_of es n = Some t" "entry_at t r' = Some (Regular_File c)"
      by (auto split: option.splits)
    with r n names show "\<exists>n t r. (n, t) \<in> set es \<and> q = p @ n # r \<and> list_all plain_name r
        \<and> entry_at t r = Some (Regular_File c)" by auto
  next
    assume "\<exists>n t r. (n, t) \<in> set es \<and> q = p @ n # r \<and> list_all plain_name r
        \<and> entry_at t r = Some (Regular_File c)"
    then obtain n t r where "(n, t) \<in> set es" "q = p @ n # r" "list_all plain_name r"
        "entry_at t r = Some (Regular_File c)" by blast
    then show "\<exists>r. q = p @ r \<and> list_all plain_name r \<and> entry_at (Directory es) r = Some (Regular_File c)"
      using names [of n t] plain by (intro exI [of _ "n # r"]) auto
  qed
  finally show ?case .
qed (auto elim: entry_at.elims)

lemma entry_at_plain: "well_named t \<Longrightarrow> entry_at t p = Some x \<Longrightarrow> list_all plain_name p"
proof (induction t p rule: entry_at.induct)
  case (2 es n p)
  then show ?case by (auto simp: list_all_iff split: option.splits dest!: map_of_SomeD)
qed simp_all

text \<open>The files of a package in the order of their keys, and what is hashed.\<close>

definition package_files :: "tree \<Rightarrow> string btree_map" where
  "package_files t = fold insert_file (files_of [] t) []"

definition package_stream :: "tree \<Rightarrow> string" where
  "package_stream t = digest_stream (package_files t)"

lemma package_files_lookup:
  assumes "well_named (Directory es)"
  shows "map_of (package_files (Directory es)) k = Some c \<longleftrightarrow>
     (\<exists>p. k = relative_key p \<and> list_all plain_name p \<and> p \<noteq> [] \<and> entry_at (Directory es) p = Some (Regular_File c))"
proof -
  let ?fs = "files_of [] (Directory es)"
  let ?ks = "map (\<lambda>(p, c). (relative_key p, c)) (rev ?fs)"
  have fs: "(p, c) \<in> set ?fs \<longleftrightarrow> p \<noteq> [] \<and> list_all plain_name p \<and> entry_at (Directory es) p = Some (Regular_File c)"
    for p c using files_of_entry_at [OF assms, of p c "[]"] by (cases p) (simp_all del: files_of.simps)
  have unique: "c = d" if "(k, c) \<in> set ?ks" "(k, d) \<in> set ?ks" for k c d
  proof -
    have ks: "(k, x) \<in> set ?ks \<longleftrightarrow> (\<exists>p. k = relative_key p \<and> (p, x) \<in> set ?fs)" for x
      by (force simp del: files_of.simps)
    from that obtain p q where "k = relative_key p" "k = relative_key q" "(p, c) \<in> set ?fs" "(q, d) \<in> set ?fs"
      unfolding ks by blast
    moreover from this have "p = q" unfolding fs using relative_key_inject by blast
    ultimately show ?thesis unfolding fs by simp
  qed
  have "map_of ?ks k = Some c \<longleftrightarrow> (k, c) \<in> set ?ks"
    using unique map_of_SomeD [of ?ks k] weak_map_of_SomeI [of k c ?ks] by blast
  also have "\<dots> \<longleftrightarrow> (\<exists>p. k = relative_key p \<and> (p, c) \<in> set ?fs)" by (force simp del: files_of.simps)
  finally show ?thesis using fs
    by (simp add: package_files_def map_of_insert_files del: files_of.simps entry_at.simps) blast
qed

lemma package_digest_Inr:
  assumes "package_digest sha256 (Some t) = Inr d"
  obtains es where "t = Directory es" and "d = ''sha256:'' @ hex_lower (sha256 (package_stream t))"
    and "file_bytes (files_of [] t) \<le> MAX_PLUGIN_PACKAGE_BYTES"
proof -
  from assms obtain files n b where c: "collect_files MAX_PLUGIN_FILES MAX_PLUGIN_PACKAGE_BYTES [] 0 t ([], 0, 0)
      = Inr (files, n, b)" and d: "d = ''sha256:'' @ hex_lower (sha256 (digest_stream files))"
    by (cases t) (auto simp: package_digest_def package_digest_with_limits_def rbind_Inr split: if_splits)
  then obtain es where es: "t = Directory es" by (cases t) (auto simp: collect_files_def at_depth_Inr)
  with c have "collect_entries MAX_PLUGIN_FILES MAX_PLUGIN_PACKAGE_BYTES [] 0 es ([], 0, 0) = Inr (files, n, b)"
    by (simp add: collect_files_def at_depth_Inr)
  from collect_entries_spec [OF this] have "files = package_files t"
    "file_bytes (files_of [] t) \<le> MAX_PLUGIN_PACKAGE_BYTES"
    by (simp_all add: package_files_def es del: files_of.simps)
  with that es d show ?thesis by (simp add: package_stream_def)
qed

lemma file_bytes_member: "(p, c) \<in> set fs \<Longrightarrow> length c \<le> file_bytes fs"
  by (induction fs) auto

lemma package_files_hashable:
  assumes "well_named (Directory es)" and "file_bytes (files_of [] (Directory es)) \<le> MAX_PLUGIN_PACKAGE_BYTES"
  shows "hashable (package_files (Directory es))"
  unfolding hashable_def
proof (intro ballI, clarify)
  fix k c
  let ?m = "package_files (Directory es)"
  have "sorted_wrt str_less (keys ?m)"
    unfolding package_files_def by (rule sorted_insert_files) (simp add: keys_def)
  then have "distinct (map fst ?m)" by (rule sorted_keys_distinct)
  moreover assume "(k, c) \<in> set ?m"
  ultimately have "map_of ?m k = Some c" by simp
  then obtain p where p: "k = relative_key p" "list_all plain_name p"
      "entry_at (Directory es) p = Some (Regular_File c)"
    using package_files_lookup [OF assms(1)] by blast
  then have "(p, c) \<in> set (files_of [] (Directory es))" using files_of_entry_at [OF assms(1), of p c "[]"] by simp
  from file_bytes_member [OF this] assms(2) have "length c < 2 ^ 64" by (simp add: MAX_PLUGIN_PACKAGE_BYTES_def)
  with p relative_key_plain(2) show "CHR 0x00 \<notin> set k \<and> length c < 2 ^ 64" by simp
qed

lemma hex_nibble_inject: "hex_nibble m = hex_nibble n \<longleftrightarrow> m mod 16 = n mod 16"
proof -
  have "distinct ''0123456789abcdef''" by simp
  then show ?thesis unfolding hex_nibble_def by (subst nth_eq_iff_index_eq) simp_all
qed

lemma hex_lower_inject: "hex_lower a = hex_lower b \<longleftrightarrow> a = b"
proof (induction a arbitrary: b)
  case (Cons c a)
  show ?case
  proof (cases b)
    case (Cons d b')
    have "byte c div 16 mod 16 = byte d div 16 mod 16 \<and> byte c mod 16 = byte d mod 16 \<longleftrightarrow> byte c = byte d"
    proof -
      have "byte x div 16 mod 16 = byte x div 16" for x :: char
        using of_char_mod_256 [of x, where 'a = nat] by (simp add: div_less_dividend less_mult_imp_div_less mod_eq_self_iff_div_eq_0)
      then show ?thesis by (metis div_mult_mod_eq)
    qed
    then have "hex_nibble (byte c div 16) = hex_nibble (byte d div 16) \<and> hex_nibble (byte c) = hex_nibble (byte d)
        \<longleftrightarrow> c = d"
      unfolding hex_nibble_inject by simp
    then show ?thesis using Cons.IH [of b'] by (auto simp: hex_lower_def local.Cons)
  qed (simp add: hex_lower_def)
qed (auto simp: hex_lower_def)

text \<open>C15: as long as SHA-256 does not collide on the two streams, two packages whose names are plain have the same
  digest exactly when they have the same files with the same contents: the digest that is approved determines every
  file, and does not depend on the order in which directories are read.\<close>

theorem digest_identifies_package:
  assumes "well_named t" and "well_named u"
    and "package_digest sha256 (Some t) = Inr d" and "package_digest sha256 (Some u) = Inr e"
    and "inj_on sha256 {package_stream t, package_stream u}"
  shows "d = e \<longleftrightarrow> (\<forall>p c. entry_at t p = Some (Regular_File c) \<longleftrightarrow> entry_at u p = Some (Regular_File c))"
proof -
  obtain es where t: "t = Directory es" "d = ''sha256:'' @ hex_lower (sha256 (package_stream t))"
    "file_bytes (files_of [] t) \<le> MAX_PLUGIN_PACKAGE_BYTES" by (rule package_digest_Inr [OF assms(3)])
  obtain fs where u: "u = Directory fs" "e = ''sha256:'' @ hex_lower (sha256 (package_stream u))"
    "file_bytes (files_of [] u) \<le> MAX_PLUGIN_PACKAGE_BYTES" by (rule package_digest_Inr [OF assms(4)])
  have hash: "hashable (package_files t)" "hashable (package_files u)"
    using package_files_hashable assms(1,2) t u by simp_all
  have "d = e \<longleftrightarrow> package_stream t = package_stream u"
    using assms(5) by (auto simp: t(2) u(2) hex_lower_inject dest: inj_onD)
  also have "\<dots> \<longleftrightarrow> package_files t = package_files u"
    using digest_stream_inject [OF hash] by (simp add: package_stream_def)
  also have "\<dots> \<longleftrightarrow> map_of (package_files t) = map_of (package_files u)"
    using sorted_maps_eq [OF sorted_insert_files sorted_insert_files, of "[]" "[]"]
    by (auto simp: package_files_def keys_def)
  also have "\<dots> \<longleftrightarrow> (\<forall>p c. entry_at t p = Some (Regular_File c) \<longleftrightarrow> entry_at u p = Some (Regular_File c))"
  proof -
    have lookup: "map_of (package_files v) (relative_key p) = Some c \<longleftrightarrow> entry_at v p = Some (Regular_File c)"
      if "v = t \<or> v = u" "list_all plain_name p" "p \<noteq> []" for v p c
      using that package_files_lookup [of es] package_files_lookup [of fs] assms(1,2) relative_key_inject
      unfolding t(1) u(1) by blast
    show ?thesis
    proof
      assume eq: "map_of (package_files t) = map_of (package_files u)"
      have "entry_at t p = Some (Regular_File c) \<longleftrightarrow> entry_at u p = Some (Regular_File c)" for p c
        using lookup [of t p c] lookup [of u p c] eq entry_at_plain [OF assms(1), of p] entry_at_plain [OF assms(2), of p]
        by (cases "p = []") (auto simp: t(1) u(1))
      then show "\<forall>p c. entry_at t p = Some (Regular_File c) \<longleftrightarrow> entry_at u p = Some (Regular_File c)" by blast
    next
      assume "\<forall>p c. entry_at t p = Some (Regular_File c) \<longleftrightarrow> entry_at u p = Some (Regular_File c)"
      then have "map_of (package_files t) k = Some c \<longleftrightarrow> map_of (package_files u) k = Some c" for k c
        using package_files_lookup [of es] package_files_lookup [of fs] assms(1,2) unfolding t(1) u(1) by simp
      then show "map_of (package_files t) = map_of (package_files u)"
        by (auto simp: fun_eq_iff) (metis option.exhaust)
    qed
  qed
  finally show ?thesis .
qed

section \<open>What staging may write\<close>

fun staged_path :: "staged \<Rightarrow> dir_path" where
  "staged_path (Staged_Dir p) = p"
| "staged_path (Staged_File p c) = p"

fun staged_files :: "staged list \<Rightarrow> (dir_path \<times> string) list" where
  "staged_files [] = []"
| "staged_files (Staged_File p c # l) = (p, c) # staged_files l"
| "staged_files (Staged_Dir p # l) = staged_files l"

lemma staged_files_append [simp]: "staged_files (k @ l) = staged_files k @ staged_files l"
  by (induction k rule: staged_files.induct) auto

text \<open>The budget covers what is on disk, with \<open>i\<close> entries and \<open>j\<close> bytes that are counted and still to come; a run that
  fails may have written one byte more than the limit.\<close>

definition staged_budget :: "(dir_path \<Rightarrow> bool) \<Rightarrow> nat \<Rightarrow> nat \<Rightarrow> nat \<Rightarrow> nat \<Rightarrow> staging \<Rightarrow> bool" where
  "staged_budget P mf mb i j = (\<lambda>(l, n, b).
     length (staged_files l) + i \<le> n \<and> n \<le> mf \<and> file_bytes (staged_files l) + j \<le> b \<and> b \<le> mb
     \<and> list_all (P \<circ> staged_path) l)"

definition staged_limits :: "(dir_path \<Rightarrow> bool) \<Rightarrow> nat \<Rightarrow> nat \<Rightarrow> staging \<Rightarrow> bool" where
  "staged_limits P mf mb = (\<lambda>(l, n, b).
     length (staged_files l) \<le> mf \<and> file_bytes (staged_files l) \<le> mb + 1 \<and> list_all (P \<circ> staged_path) l)"

definition stages :: "(dir_path \<Rightarrow> bool) \<Rightarrow> nat \<Rightarrow> nat \<Rightarrow> nat \<times> nat \<Rightarrow> 'a stage_run \<Rightarrow> nat \<times> nat \<Rightarrow> bool" where
  "stages P mf mb pre m post \<longleftrightarrow>
     (\<forall>w. staged_budget P mf mb (fst pre) (snd pre) w \<longrightarrow>
        (case m w of
           (Inl e, w') \<Rightarrow> staged_limits P mf mb w'
         | (Inr x, w') \<Rightarrow> staged_budget P mf mb (fst post) (snd post) w'))"

lemma staged_budget_limits: "staged_budget P mf mb i j w \<Longrightarrow> staged_limits P mf mb w"
  by (auto simp: staged_budget_def staged_limits_def)

lemma stages_bind:
  assumes "stages P mf mb pre m mid" and "\<And>x. stages P mf mb mid (f x) post"
  shows "stages P mf mb pre (sbind m f) post"
  using assms unfolding stages_def sbind_def by (fastforce split: prod.splits sum.splits)

lemma stages_lift: "stages P mf mb pre (slift r) pre"
  by (auto simp: stages_def slift_def staged_budget_limits split: sum.splits)

lemma stages_lift_any: "stages P mf mb pre (slift r) (0, 0)"
  by (auto simp: stages_def slift_def staged_budget_def staged_limits_def split: sum.splits)

lemma stages_return: "stages P mf mb pre (sreturn x) (0, 0)"
  by (auto simp: stages_def sreturn_def staged_budget_def)

lemma stages_fail: "stages P mf mb pre (sfail e) post"
  by (simp add: stages_def sfail_def staged_budget_limits)

lemma stages_dir: "P p \<Longrightarrow> stages P mf mb pre (stage_dir env m p) pre"
  by (auto simp: stages_def stage_dir_def staged_budget_def staged_limits_def split: option.splits)

lemma stages_count_entry: "stages P mf mb (0, j) (count_entry m mf) (1, j)"
  by (auto simp: stages_def count_entry_def staged_budget_def staged_limits_def)

lemma stages_count_bytes: "stages P mf mb (i, 0) (count_bytes m mb k) (i, k)"
  by (auto simp: stages_def count_bytes_def staged_budget_def staged_limits_def)

lemmas stages_intros = stages_bind stages_return stages_fail stages_dir stages_count_entry stages_count_bytes

lemma stages_copy_regular: "P p \<Longrightarrow> stages P mf mb (1, 0) (copy_regular env mb p c) (0, 0)"
  by (auto simp: stages_def copy_regular_def sbind_def stage_file_def count_bytes_def staged_budget_def staged_limits_def
      Let_def min_def split: option.splits)

lemma stages_file_exact:
  "P p \<Longrightarrow> stages P mf mb (1, k) (sbind (stage_file env m m' p (take (k + 1) c)) (\<lambda>copied. slift (require (copied = k) e)))
     (0, 0)"
  by (auto simp: stages_def sbind_def slift_def stage_file_def require_def staged_budget_def staged_limits_def
      min_def split: option.splits)

lemma stages_copy_entry:
  assumes "P (target @ [name])" and "stages P mf mb (0, 0) m (0, 0)"
  shows "stages P mf mb (0, 0) (copy_entry env mf mb source target depth name t m) (0, 0)"
  using assms by (cases t) (auto simp: copy_entry_def intro!: stages_intros stages_lift_any stages_copy_regular)

lemma stages_copy_entries:
  "prefix root target \<Longrightarrow> stages (prefix root) mf mb (0, 0) (copy_entries env mf mb source target depth es) (0, 0)"
proof (induction "size_list (size_prod (\<lambda>_. 0) size) es" arbitrary: source target depth es rule: less_induct)
  case less
  show ?case
  proof (cases es)
    case Nil
    then show ?thesis by (simp add: stages_def)
  next
    case (Cons e es')
    obtain name t where e: "e = (name, t)" by (cases e)
    have below: "size_list (size_prod (\<lambda>_. 0) size) (entries_below t) < size_list (size_prod (\<lambda>_. 0) size) es"
      by (cases t) (simp_all add: Cons e)
    have "stages (prefix root) mf mb (0, 0)
        (sbind (copy_entry env mf mb source target depth name t
            (copy_entries env mf mb (source @ [name]) (target @ [name]) (depth + 1) (entries_below t)))
          (\<lambda>_. copy_entries env mf mb source target depth es')) (0, 0)"
      using less.prems 
      by (intro stages_bind [where mid = "(0, 0)"] stages_copy_entry less.hyps below) (auto simp: Cons e)
    then show ?thesis by (simp add: stages_def Cons e)
  qed
qed

text \<open>A name that stays in its directory.\<close>

definition proper_name :: "string \<Rightarrow> bool" where
  "proper_name n \<longleftrightarrow> n \<noteq> [] \<and> n \<noteq> ''.'' \<and> n \<noteq> ''..'' \<and> CHR ''/'' \<notin> set n"

lemma split_on_no_sep: "p \<in> set (split_on c s) \<Longrightarrow> c \<notin> set p"
  by (induction s arbitrary: p) (auto split: if_splits list.splits)

lemma list_all_tl_append:
  "list_all Q ys \<Longrightarrow> list_all Q (tl ((if c then [x] else if d then [y] else []) @ ys))"
  by (cases ys) auto

lemma npm_relative_path_proper:
  assumes "npm_relative_path p = Inr relative"
  shows "list_all proper_name (map component_name relative)" and "relative \<noteq> []"
proof -
  from assms have comps: "components_of p = Normal ''package'' # relative"
    and safe: "list_all (\<lambda>c. c \<noteq> Parent_Dir \<and> c \<noteq> Root_Dir) relative" and ne: "relative \<noteq> []"
    by (auto simp: npm_relative_path_def list_all_iff list_ex_iff
        split: list.splits path_component.splits if_splits)
  have "list_all (\<lambda>c. c \<noteq> Cur_Dir \<and> (\<forall>n. c = Normal n \<longrightarrow> proper_name n)) (tl (components_of p))"
  proof -
    have "list_all (\<lambda>c. c \<noteq> Cur_Dir \<and> (\<forall>n. c = Normal n \<longrightarrow> proper_name n))
        (map path_component_of (filter (\<lambda>q. q \<noteq> [] \<and> q \<noteq> ''.'') (split_on CHR ''/'' p)))"
      by (auto simp: list_all_iff proper_name_def dest: split_on_no_sep)
    then show ?thesis unfolding components_of_def Let_def by (rule list_all_tl_append)
  qed
  with comps have "list_all (\<lambda>c. c \<noteq> Cur_Dir \<and> (\<forall>n. c = Normal n \<longrightarrow> proper_name n)) relative" by simp
  with safe show "list_all proper_name (map component_name relative)"
    unfolding list_all_iff by (auto, metis component_name.simps(4) path_component.exhaust)
  show "relative \<noteq> []" by (rule ne)
qed

definition staged_inside :: "dir_path \<Rightarrow> dir_path \<Rightarrow> bool" where
  "staged_inside root_dir p \<longleftrightarrow> (\<exists>q. p = root_dir @ q \<and> list_all proper_name q)"

lemma stages_extract_regular:
  "stages (staged_inside destination) mf mb (1, 0) (extract_regular env mb destination t) (0, 0)"
proof -
  have target: "staged_inside destination (destination @ map component_name relative)
      \<and> staged_inside destination (butlast (destination @ map component_name relative))"
    if "npm_relative_path p = Inr relative" for p relative
    using npm_relative_path_proper [OF that]
    by (auto simp: staged_inside_def butlast_append list_all_iff map_butlast [symmetric] dest: in_set_butlastD)
  show ?thesis
  proof (cases "case tar_path t of Inl e \<Rightarrow> Inl (''npm tarball has invalid path: '' @ e) | Inr p \<Rightarrow> npm_relative_path p")
    case (Inl e)
    then show ?thesis
      by (simp add: extract_regular_def stages_def sbind_def slift_def staged_budget_limits)
  next
    case (Inr relative)
    then obtain p where "npm_relative_path p = Inr relative" by (auto split: sum.splits)
    note below_target = target [OF this]
    have "stages (staged_inside destination) mf mb (1, 0)
        (sbind (slift (ok_or (tar_size t) ''npm package has invalid file metadata'')) (\<lambda>size.
         sbind (count_bytes ''npm package exceeds the aggregate byte limit'' mb size) (\<lambda>_.
         sbind (stage_dir env ''cannot stage npm directory: '' (butlast (destination @ map component_name relative))) (\<lambda>_.
         sbind (stage_file env ''cannot stage npm file: '' ''cannot extract npm file: ''
             (destination @ map component_name relative) (take (size + 1) (tar_data t))) (\<lambda>copied.
         slift (require (copied = size) ''npm package file length does not match its metadata'')))))) (0, 0)"
      using below_target by (intro stages_bind [OF stages_lift] stages_bind [OF stages_count_bytes]
          stages_bind [OF stages_dir] stages_file_exact) auto
    then show ?thesis by (simp add: stages_def extract_regular_def Inr sbind_def slift_def Let_def)
  qed
qed

lemma stages_extract_entries:
  "stages (staged_inside destination) mf mb (0, 0) (extract_entries env mf mb destination es) (0, 0)"
proof (induction es)
  case (Cons t es)
  then show ?case
    by (cases t) (auto intro!: stages_intros stages_extract_regular stages_lift_any
        split: tar_kind.splits)
qed (simp add: stages_return)

text \<open>C38: whatever a source contains and however the file system behaves, copying a directory or extracting an npm
  archive makes at most the permitted number of files, writes at most one byte more than the permitted number of
  bytes, and only below the staging directory; the path of an archive entry has no component that leads out of it.\<close>

theorem staging_is_bounded:
  "(let l = fst (snd (copy_tree env source target t)) in
     length (staged_files l) \<le> MAX_PLUGIN_FILES
     \<and> file_bytes (staged_files l) \<le> MAX_PLUGIN_PACKAGE_BYTES + 1
     \<and> list_all (prefix target \<circ> staged_path) l)
   \<and> (let l = fst (snd (extract_npm_tarball archive_entries env bytes target)) in
     length (staged_files l) \<le> MAX_PLUGIN_FILES
     \<and> file_bytes (staged_files l) \<le> MAX_PLUGIN_PACKAGE_BYTES + 1
     \<and> list_all (staged_inside target \<circ> staged_path) l)"
proof -
  have limits: "staged_limits P mf mb (snd (m ([], 0, 0)))" if "stages P mf mb (0, 0) m (0, 0)"
    for P mf mb and m :: "unit stage_run"
  proof -
    have "staged_budget P mf mb 0 0 ([], 0, 0)" by (simp add: staged_budget_def)
    with that show ?thesis
      unfolding stages_def by (fastforce dest: staged_budget_limits split: prod.splits sum.splits)
  qed
  have start: "staged_limits P mf mb ([], 0, 0)" for P mf mb by (simp add: staged_limits_def)
  have "staged_limits (prefix target) MAX_PLUGIN_FILES MAX_PLUGIN_PACKAGE_BYTES (snd (copy_tree env source target t))"
    using limits [OF stages_copy_entries] start
    by (auto simp: copy_tree_def copy_tree_with_limits_def split: tree.splits)
  moreover have "staged_limits (staged_inside target) MAX_PLUGIN_FILES MAX_PLUGIN_PACKAGE_BYTES
      (snd (extract_npm_tarball archive_entries env bytes target))"
    using limits [OF stages_extract_entries] start
    by (auto simp: extract_npm_tarball_def extract_npm_tarball_with_limits_def split: sum.splits)
  ultimately show ?thesis by (simp add: staged_limits_def Let_def case_prod_beta)
qed

text \<open>What is staged from a directory: its files, but for those in a directory \<open>.git\<close>.\<close>

fun without_git :: "tree \<Rightarrow> tree" where
  "without_git (Directory es) =
     Directory (map (\<lambda>(n, t). (n, without_git t)) (filter (\<lambda>(n, t). n \<noteq> ''.git'') es))"
| "without_git t = t"

lemma copy_regular_Inr:
  assumes "copy_regular env mb p c w = (Inr (), w')"
  shows "fst w' = fst w @ [Staged_File p c]"
  using assms by (cases w) (auto simp: copy_regular_def sbind_def stage_file_def count_bytes_def Let_def min_def
      split: option.splits if_splits)

lemma copy_entry_Inr:
  assumes "copy_entry env mf mb source target depth name t m w = (Inr (), w')"
  shows "(name = ''.git'' \<and> w' = w)
    \<or> (name \<noteq> ''.git'' \<and> (\<exists>c. t = Regular_File c \<and> fst w' = fst w @ [Staged_File (target @ [name]) c]))
    \<or> (name \<noteq> ''.git'' \<and> (\<exists>ds v. t = Directory ds \<and> fst v = fst w @ [Staged_Dir (target @ [name])] \<and> m v = (Inr (), w')))"
proof -
  have count: "fst v = fst w" if "count_entry message mf w = (Inr x, v)" for message x v
    using that by (auto simp: count_entry_def split: prod.splits if_splits)
  have dir: "fst v' = fst v @ [Staged_Dir p]" if "stage_dir env message p v = (Inr x, v')" for message p v v' x
    using that by (auto simp: stage_dir_def split: prod.splits option.splits)
  show ?thesis
    using assms
    by (cases t) (auto simp: copy_entry_def sbind_Inr at_depth_Inr split: if_splits dest!: count dir copy_regular_Inr,
        blast)
qed

lemma copy_entries_Inr:
  "copy_entries env mf mb source target depth es w = (Inr (), w') \<Longrightarrow>
     staged_files (fst w') = staged_files (fst w) @ files_of target (without_git (Directory es))"
proof (induction "size_list (size_prod (\<lambda>_. 0) size) es" arbitrary: source target depth es w w' rule: less_induct)
  case less
  show ?case
  proof (cases es)
    case Nil
    with less.prems show ?thesis by simp
  next
    case (Cons e es')
    obtain name t where e: "e = (name, t)" by (cases e)
    let ?m = "copy_entries env mf mb (source @ [name]) (target @ [name]) (depth + 1) (entries_below t)"
    from less.prems obtain v where v: "copy_entry env mf mb source target depth name t ?m w = (Inr (), v)"
      "copy_entries env mf mb source target depth es' v = (Inr (), w')"
      by (auto simp: Cons e sbind_Inr)
    have rest: "staged_files (fst w') = staged_files (fst v) @ files_of target (without_git (Directory es'))"
      by (rule less.hyps [OF _ v(2)]) (simp add: Cons)
    have inner: "staged_files (fst v) = staged_files (fst x) @ files_of (target @ [name]) (without_git (Directory ds))"
      if "t = Directory ds" "?m x = (Inr (), v)" for ds x
      using less.hyps [OF _ that(2)] that(1) by (simp add: Cons e del: without_git.simps)
    from copy_entry_Inr [OF v(1)] consider "name = ''.git''" "v = w"
      | c where "name \<noteq> ''.git''" "t = Regular_File c" "fst v = fst w @ [Staged_File (target @ [name]) c]"
      | ds x where "name \<noteq> ''.git''" "t = Directory ds" "fst x = fst w @ [Staged_Dir (target @ [name])]"
          "?m x = (Inr (), v)" by blast
    then show ?thesis
    proof cases
      case 3
      with inner [OF 3(2,4)] rest show ?thesis by (simp add: Cons e)
    qed (use rest in \<open>simp_all add: Cons e\<close>)
  qed
qed

section \<open>Sources read back\<close>

lemma rsplit_once_append: "rsplit_once c s = Some (a, b) \<Longrightarrow> s = a @ c # b"
proof -
  assume "rsplit_once c s = Some (a, b)"
  then have "split_once c (rev s) = Some (rev b, rev a)" by (auto simp: rsplit_once_def)
  then have "rev s = rev b @ c # rev a" by (simp add: split_once_append)
  then show ?thesis by (metis append.assoc append_Cons append_Nil rev_append rev_rev_ident rev.simps(2))
qed

lemma npm_spec_text:
  "npm_spec spec = Inr (package, version) \<Longrightarrow>
     spec = (case version of None \<Rightarrow> package | Some v \<Rightarrow> package @ ''@'' @ v)"
  by (auto simp: npm_spec_def npm_split_def Let_def starts_with_prefix prefix_def dest!: rsplit_once_append
      split: if_splits option.splits)

text \<open>The text kept for a source is the text it was parsed from, so that an update from the stored text comes from
  the same package, version, repository and reference.\<close>

theorem source_reads_back:
  assumes "parse_source parse_url v = Inr s"
  shows "request_text s = v \<and> parse_source parse_url (request_text s) = Inr s"
proof -
  have front: "v = ''npm:'' @ drop 4 v" if "starts_with v ''npm:''"
    using that by (auto simp: starts_with_prefix prefix_def)
  have front': "v = ''git:'' @ drop 4 v" if "starts_with v ''git:''"
    using that by (auto simp: starts_with_prefix prefix_def)
  have "request_text s = v"
  proof (cases s)
    case (Local_Source p)
    with assms show ?thesis
      by (auto simp: parse_source_def rbind_Inr Let_def split: if_splits prod.splits option.splits)
  next
    case (Npm_Source package version)
    with assms have "starts_with v ''npm:''" "npm_spec (drop 4 v) = Inr (package, version)"
      by (auto simp: parse_source_def rbind_Inr Let_def split: if_splits prod.splits option.splits)
    with npm_spec_text [OF this(2)] front Npm_Source show ?thesis by (cases version) auto
  next
    case (Git_Source url reference)
    with assms have "starts_with v ''git:''"
      and "(case rsplit_once CHR ''#'' (drop 4 v) of None \<Rightarrow> (drop 4 v, None) | Some (u, r) \<Rightarrow> (u, Some r)) = (url, reference)"
      by (auto simp: parse_source_def rbind_Inr Let_def split: if_splits prod.splits option.splits)
    with front' Git_Source show ?thesis
      by (auto split: option.splits dest!: rsplit_once_append)
  qed
  with assms show ?thesis by simp
qed

section \<open>Witnesses\<close>

definition two_files :: tree where
  "two_files = Directory [(''b'', Regular_File ''1''), (''a'', Directory [(''c'', Regular_File ''2'')])]"

definition two_files_reordered :: tree where
  "two_files_reordered = Directory [(''a'', Directory [(''c'', Regular_File ''2'')]), (''b'', Regular_File ''1'')]"

lemma two_files_plain: "well_named two_files" "well_named two_files_reordered"
  by code_simp+

lemma package_digest_ok:
  "is_ok (package_digest sha256 (Some (Directory es)))
     \<longleftrightarrow> is_ok (collect_files MAX_PLUGIN_FILES MAX_PLUGIN_PACKAGE_BYTES [] 0 (Directory es) ([], 0, 0))"
  by (auto simp: package_digest_def package_digest_with_limits_def is_ok_def rbind_def split: sum.splits)

theorem digest_identifies_package_witness:
  "\<exists>d. package_digest (\<lambda>s. s) (Some two_files) = Inr d \<and> package_digest (\<lambda>s. s) (Some two_files_reordered) = Inr d"
proof -
  have "is_ok (package_digest (\<lambda>s. s) (Some two_files))" "is_ok (package_digest (\<lambda>s. s) (Some two_files_reordered))"
    unfolding two_files_def two_files_reordered_def package_digest_ok by code_simp+
  then obtain d e where de: "package_digest (\<lambda>s. s) (Some two_files) = Inr d"
      "package_digest (\<lambda>s. s) (Some two_files_reordered) = Inr e"
    by (auto simp: is_ok_def split: sum.splits)
  have "entry_at two_files p = entry_at two_files_reordered p" if "p \<noteq> []" for p
    using that by (cases p) (auto simp: two_files_def two_files_reordered_def)
  then have "entry_at two_files p = Some (Regular_File c) \<longleftrightarrow> entry_at two_files_reordered p = Some (Regular_File c)" for p c
    by (cases "p = []") (auto simp: two_files_def two_files_reordered_def)
  with digest_identifies_package [OF two_files_plain de] have "d = e" by simp
  with de show ?thesis by blast
qed

theorem source_reads_back_witness:
  "request_text (Npm_Source ''@kakune/notes'' (Some ''1.2.0'')) = ''npm:@kakune/notes@1.2.0''"
proof -
  have "parse_source (\<lambda>_. None) ''npm:@kakune/notes@1.2.0'' = Inr (Npm_Source ''@kakune/notes'' (Some ''1.2.0''))"
    by code_simp
  from source_reads_back [OF this] show ?thesis by blast
qed

text \<open>A name with a backslash is hashed under the path of another file: these two packages differ in the file that is
  executed, and have the same digest whatever the hash.\<close>

definition shadowed_package :: "string \<Rightarrow> tree" where
  "shadowed_package code =
     Directory [(''bin'', Directory [(''run'', Regular_File code)]), (''bin'' @ CHR 0x5C # ''run'', Regular_File ''reviewed'')]"

theorem shadowed_file_is_not_hashed:
  "package_digest sha256 (Some (shadowed_package ''good''))
     = package_digest sha256 (Some (shadowed_package ''evil''))
   \<and> is_ok (package_digest sha256 (Some (shadowed_package ''evil'')))
   \<and> entry_at (shadowed_package ''good'') [''bin'', ''run''] \<noteq> entry_at (shadowed_package ''evil'') [''bin'', ''run'']"
proof -
  have same: "collect_files MAX_PLUGIN_FILES MAX_PLUGIN_PACKAGE_BYTES [] 0 (shadowed_package ''good'') ([], 0, 0)
      = collect_files MAX_PLUGIN_FILES MAX_PLUGIN_PACKAGE_BYTES [] 0 (shadowed_package ''evil'') ([], 0, 0)"
    and fine: "is_ok (collect_files MAX_PLUGIN_FILES MAX_PLUGIN_PACKAGE_BYTES [] 0 (shadowed_package ''evil'') ([], 0, 0))"
    by code_simp+
  have "is_ok (package_digest sha256 (Some (shadowed_package ''evil'')))"
    using fine unfolding shadowed_package_def package_digest_ok .
  moreover have eval: "package_digest sha256 (Some (shadowed_package c)) =
      rbind (collect_files MAX_PLUGIN_FILES MAX_PLUGIN_PACKAGE_BYTES [] 0 (shadowed_package c) ([], 0, 0))
        (\<lambda>(files, _). Inr (''sha256:'' @ hex_lower (sha256 (digest_stream files))))" for c
    by (simp add: package_digest_def package_digest_with_limits_def shadowed_package_def)
  moreover have "entry_at (shadowed_package c) [''bin'', ''run''] = Some (Regular_File c)" for c
    by (simp add: shadowed_package_def)
  ultimately show ?thesis by (simp add: same)
qed

end
