(* ===== verification/Plugin_Manifest.thy ===== *)
theory Plugin_Manifest
  imports Planner Plugin_Package
begin

text \<open>
  Manifests and node definitions of plugins, and the registry of node types (\<open>src/plugin_process.rs\<close>).  Errors are
  the texts that \<open>Display\<close> gives for them.  A package is seen several times while it is registered, and may look
  different each time: the model takes the sequence of what is seen.
\<close>

section \<open>Manifests\<close>

record process_runtime =
  runtime_kind :: string
  runtime_command :: string
  runtime_args :: "string list"

record required_executable =
  executable_name :: string
  executable_version :: string
  executable_version_args :: "string list"

record plugin_contributions =
  contributed_nodes :: "string list"
  contributed_triggers :: "string list"
  contributed_providers :: "string list"
  contributed_services :: "string list"

record plugin_permissions =
  process_permissions :: "string list"
  filesystem_permissions :: "string list"
  network_permissions :: "string list"
  secret_permissions :: "string list"

record raw_plugin_manifest =
  manifest_version :: string
  plugin_manifest_id :: string
  manifest_name :: string
  plugin_semver :: string
  plugin_protocol :: string
  manifest_runtime :: process_runtime
  manifest_author :: "string option"
  manifest_description :: "string btree_map option"
  manifest_license :: "string option"
  manifest_model :: "string option"
  manifest_requires :: "required_executable list option"
  manifest_contributes :: "plugin_contributions option"
  manifest_permissions :: "plugin_permissions option"

record plugin_manifest = raw_plugin_manifest +
  manifest_dir :: dir_path
  manifest_file :: "string option"

definition invalid_manifest :: "string \<Rightarrow> string" where
  "invalid_manifest message = ''invalid plugin manifest: '' @ message"

definition validate_plugin_id :: "string \<Rightarrow> (string, unit) result" where
  "validate_plugin_id i =
     require (2 \<le> length (split_on CHR ''.'' i)
              \<and> list_all (\<lambda>p. p \<noteq> [] \<and> list_all (\<lambda>c. is_ascii_alphanumeric c \<or> c = CHR ''-'') p) (split_on CHR ''.'' i))
       (invalid_manifest ''id must contain at least two dot-separated ASCII alphanumeric or hyphen segments'')"

definition valid_semver_identifiers :: "string \<Rightarrow> bool" where
  "valid_semver_identifiers v \<longleftrightarrow>
     v \<noteq> [] \<and> list_all (\<lambda>p. p \<noteq> [] \<and> list_all (\<lambda>c. is_ascii_alphanumeric c \<or> c = CHR ''-'') p) (split_on CHR ''.'' v)"

definition validate_semver :: "string \<Rightarrow> (string, unit) result" where
  "validate_semver version =
     (let core_pre = (case split_once CHR ''+'' version of
            None \<Rightarrow> version
          | Some (core, build) \<Rightarrow> if build = [] \<or> \<not> valid_semver_identifiers build then [] else core);
          (core, prerelease) = (case split_once CHR ''-'' core_pre of
            None \<Rightarrow> (core_pre, None) | Some (core, pre) \<Rightarrow> (core, Some pre));
          valid_core = (length (split_on CHR ''.'' core) = 3
            \<and> list_all (\<lambda>p. p \<noteq> [] \<and> list_all is_ascii_digit p \<and> (p = ''0'' \<or> \<not> starts_with p ''0''))
                (split_on CHR ''.'' core))
      in require (valid_core \<and> (case prerelease of None \<Rightarrow> True | Some pre \<Rightarrow> valid_semver_identifiers pre))
           (invalid_manifest ''version must be a semantic version''))"

definition validate_non_empty_field :: "string \<Rightarrow> string \<Rightarrow> (string, unit) result" where
  "validate_non_empty_field field v = require (\<not> blank v) (invalid_manifest (field @ '' must not be empty''))"

definition validate_process_value :: "string \<Rightarrow> string \<Rightarrow> (string, unit) result" where
  "validate_process_value field v =
     require (v \<noteq> [] \<and> CHR 0x00 \<notin> set v) (invalid_manifest (field @ '' must not be empty or contain NUL''))"

definition leaves_directory :: "string \<Rightarrow> bool" where
  "leaves_directory p \<longleftrightarrow>
     p = [] \<or> is_absolute p \<or> list_ex (\<lambda>c. c = Parent_Dir \<or> c = Root_Dir) (components_of p)"

definition validate_definition_declaration :: "string \<Rightarrow> (string, unit) result" where
  "validate_definition_declaration p =
     require (\<not> leaves_directory p)
       (invalid_manifest ''contributes.nodes entries must be relative paths inside the plugin directory'')"

definition validate_permission_entries :: "string \<times> string list \<Rightarrow> (string, unit) result" where
  "validate_permission_entries = (\<lambda>(permission, es).
     require (\<not> list_ex (\<lambda>e. blank e \<or> 512 < length e) es)
       (invalid_manifest (''permissions.'' @ permission @ '' entries must be non-empty and at most 512 characters'')))"

definition validate_permissions :: "plugin_permissions \<Rightarrow> (string, unit) result" where
  "validate_permissions p =
     for_each validate_permission_entries
       [(''process'', process_permissions p), (''filesystem'', filesystem_permissions p),
        (''network'', network_permissions p), (''secrets'', secret_permissions p)]"

fun validate_declared_nodes :: "string set \<Rightarrow> string list \<Rightarrow> (string, unit) result" where
  "validate_declared_nodes seen [] = Inr ()"
| "validate_declared_nodes seen (n # ns) =
     rbind (validate_definition_declaration n) (\<lambda>_.
       if n \<in> seen then Inl (invalid_manifest (''contributes.nodes contains duplicate definition '' @ n))
       else validate_declared_nodes (insert n seen) ns)"

definition validate_manifest :: "dir_path \<Rightarrow> raw_plugin_manifest \<Rightarrow> (string, plugin_manifest) result" where
  "validate_manifest dir m =
     rbind (all_ok
       [validate_plugin_id (plugin_manifest_id m),
        validate_non_empty_field ''name'' (manifest_name m),
        validate_semver (plugin_semver m),
        require (manifest_version m = ''1.0'') (invalid_manifest ''manifestVersion must be exactly 1.0''),
        require (plugin_protocol m = ''>=1.0.0 <2.0.0'')
          (invalid_manifest ''pluginProtocol must be exactly >=1.0.0 <2.0.0''),
        require (runtime_kind (manifest_runtime m) = ''process'')
          (invalid_manifest ''runtime.kind must be process''),
        (case manifest_permissions m of None \<Rightarrow> Inr () | Some p \<Rightarrow> validate_permissions p),
        validate_process_value ''runtime.command'' (runtime_command (manifest_runtime m)),
        for_each (validate_process_value ''runtime.args'') (runtime_args (manifest_runtime m)),
        (case manifest_author m of None \<Rightarrow> Inr () | Some a \<Rightarrow> validate_non_empty_field ''author.name'' a),
        (case manifest_description m of None \<Rightarrow> Inr ()
         | Some d \<Rightarrow> require (\<not> (d = [] \<or> list_ex blank (vals d)))
             (invalid_manifest ''description must contain non-empty localized text'')),
        (case manifest_contributes m of None \<Rightarrow> Inr ()
         | Some c \<Rightarrow> validate_declared_nodes {} (contributed_nodes c))])
     (\<lambda>_. Inr (raw_plugin_manifest.extend m (plugin_manifest.fields dir None)))"

definition MAX_MANIFEST_BYTES :: nat where "MAX_MANIFEST_BYTES = 1024 * 1024"

text \<open>\<open>fs::metadata\<close> and \<open>fs::read_to_string\<close>: the size of a file and its text.\<close>

definition read_text_file :: "string \<Rightarrow> string \<Rightarrow> tree option \<Rightarrow> (string, string) result" where
  "read_text_file failed too_large e =
     (case e of
        Some (Regular_File content) \<Rightarrow>
          (if MAX_MANIFEST_BYTES < length content then Inl too_large
           else if utf8_text content then Inr content
           else Inl (failed @ ''stream did not contain valid UTF-8''))
      | Some (Locked_File m) \<Rightarrow> Inl (failed @ m)
      | Some (Lost_Entry m) \<Rightarrow> Inl (failed @ m)
      | Some (Unknown_Entry m) \<Rightarrow> Inl (failed @ m)
      | Some _ \<Rightarrow> Inl (failed @ ''Is a directory (os error 21)'')
      | None \<Rightarrow> Inl (failed @ ''No such file or directory (os error 2)''))"

definition package_entry :: "tree option \<Rightarrow> dir_path \<Rightarrow> tree option" where
  "package_entry package p = Option.bind package (\<lambda>t. entry_at t p)"

text \<open>\<open>PluginManifest::load\<close>; decoding the JSON is a parameter.\<close>

definition load_manifest ::
  "(string \<Rightarrow> (string, raw_plugin_manifest) result) \<Rightarrow> dir_path \<Rightarrow> string \<Rightarrow> tree option
   \<Rightarrow> (string, plugin_manifest) result" where
  "load_manifest parse_manifest dir name package =
     rbind (read_text_file (''cannot read plugin manifest '' @ display_path (dir @ [name]) @ '': '')
              (''plugin manifest exceeds the '' @ show_nat MAX_MANIFEST_BYTES @ ''-byte limit'')
              (package_entry package [name])) (\<lambda>source.
     rbind (case parse_manifest source of
              Inl e \<Rightarrow> Inl (''plugin manifest is not valid JSON: '' @ e) | Inr m \<Rightarrow> Inr m) (\<lambda>m.
     rbind (validate_manifest dir m) (\<lambda>v. Inr (v\<lparr>manifest_file := Some name\<rparr>))))"

section \<open>Node definitions\<close>

record raw_node_definition =
  def_api_version :: string
  def_kind :: string
  def_node_type :: string
  def_name :: string
  def_description :: "string option"
  def_input_schema :: json
  def_output_schema :: json

definition valid_namespace_part :: "string \<Rightarrow> bool" where
  "valid_namespace_part p \<longleftrightarrow>
     p \<noteq> [] \<and> is_ascii_lowercase (hd p)
     \<and> list_all (\<lambda>c. is_ascii_lowercase c \<or> is_ascii_digit c \<or> c = CHR ''-'') p"

definition validate_plugin_node_type :: "string \<Rightarrow> (string, unit) result" where
  "validate_plugin_node_type v =
     (case rsplit_once CHR ''@'' v of
        None \<Rightarrow> Inl ''type must use the namespace.name@major format''
      | Some (namespace, version) \<Rightarrow>
          require ((case parse_u32 version of None \<Rightarrow> False | Some n \<Rightarrow> 0 < n)
                   \<and> 2 \<le> length (split_on CHR ''.'' namespace)
                   \<and> list_all valid_namespace_part (split_on CHR ''.'' namespace))
            ''type must use the namespace.name@major format'')"

definition validate_node_definition :: "dir_path \<Rightarrow> raw_node_definition \<Rightarrow> (string, raw_node_definition) result" where
  "validate_node_definition path d =
     (let bad = (\<lambda>message. ''invalid node definition '' @ display_path path @ '': '' @ message) in
      rbind (all_ok
        [require (def_api_version d = ''kakune.dev/v1'') (bad ''apiVersion must be kakune.dev/v1''),
         require (def_kind d = ''NodeDefinition'') (bad ''kind must be NodeDefinition''),
         (case validate_plugin_node_type (def_node_type d) of Inl e \<Rightarrow> Inl (bad e) | Inr _ \<Rightarrow> Inr ()),
         require (\<not> blank (def_name d)) (bad ''name must not be empty''),
         require (\<not> (case def_description d of None \<Rightarrow> False | Some t \<Rightarrow> blank t))
           (bad ''description must not be empty when provided''),
         require (is_object (def_input_schema d) \<and> is_object (def_output_schema d))
           (bad ''inputSchema and outputSchema must be JSON objects'')])
      (\<lambda>_. Inr d))"

text \<open>\<open>declared_definition_path\<close> and \<open>load_node_definition\<close>.  In a package without symbolic links a canonical path is the
  path itself; a package with one is refused before its definitions are read.\<close>

definition load_node_definition ::
  "(string \<Rightarrow> (string, raw_node_definition) result) \<Rightarrow> dir_path \<Rightarrow> string \<Rightarrow> tree option
   \<Rightarrow> (string, raw_node_definition) result" where
  "load_node_definition parse_definition dir declaration package =
     (if leaves_directory declaration
      then Inl (''node definition path '' @ declaration @ '' escapes its plugin directory'')
      else
        (let relative = map component_name (filter (\<lambda>c. c \<noteq> Cur_Dir) (components_of declaration));
             path = dir @ relative
         in rbind (read_text_file (''cannot read node definition '' @ display_path path @ '': '')
                     (''node definition '' @ display_path path @ '' exceeds the '' @ show_nat MAX_MANIFEST_BYTES
                      @ ''-byte limit'')
                     (package_entry package relative)) (\<lambda>source.
            rbind (case parse_definition source of
                     Inl e \<Rightarrow> Inl (''node definition '' @ display_path path @ '' is not valid JSON: '' @ e)
                   | Inr d \<Rightarrow> Inr d) (validate_node_definition path))))"

section \<open>The registry\<close>

record registered_node =
  node_manifest :: plugin_manifest
  node_definition_of :: raw_node_definition
  content_digest :: string

type_synonym plugin_registry = "registered_node btree_map"

text \<open>The definitions are read one after the other; the \<open>i\<close>-th look at the package is \<open>view i\<close>.\<close>

fun load_additions ::
  "(string \<Rightarrow> (string, raw_node_definition) result) \<Rightarrow> plugin_manifest \<Rightarrow> string \<Rightarrow> plugin_registry
   \<Rightarrow> (nat \<Rightarrow> tree option) \<Rightarrow> nat \<Rightarrow> string list \<Rightarrow> registered_node list \<Rightarrow> (string, registered_node list) result" where
  "load_additions parse_definition m digest r view i [] additions = Inr additions"
| "load_additions parse_definition m digest r view i (decl # decls) additions =
     rbind (load_node_definition parse_definition (manifest_dir m) decl (view i)) (\<lambda>d.
       if is_builtin_node_type (def_node_type d)
       then Inl (''plugin node type '' @ def_node_type d @ '' is already provided by the built-in catalog'')
       else if has_key r (def_node_type d)
         \<or> list_ex (\<lambda>n. def_node_type (node_definition_of n) = def_node_type d) additions
       then Inl (''plugin node type '' @ def_node_type d @ '' is already registered'')
       else load_additions parse_definition m digest r view (Suc i) decls
         (additions @ [\<lparr>node_manifest = m, node_definition_of = d, content_digest = digest\<rparr>]))"

definition insert_node :: "registered_node \<Rightarrow> plugin_registry \<Rightarrow> plugin_registry" where
  "insert_node n r = map_insert (def_node_type (node_definition_of n)) n r"

definition digest_for_catalog :: "(string \<Rightarrow> string) \<Rightarrow> tree option \<Rightarrow> (string, string) result" where
  "digest_for_catalog sha256 package =
     (case package_digest sha256 package of
        Inl e \<Rightarrow> Inl (''cannot digest plugin package: '' @ e) | Inr d \<Rightarrow> Inr d)"

definition register_manifest ::
  "(string \<Rightarrow> string) \<Rightarrow> (string \<Rightarrow> (string, raw_node_definition) result) \<Rightarrow> (nat \<Rightarrow> tree option)
   \<Rightarrow> plugin_manifest \<Rightarrow> plugin_registry \<Rightarrow> (string, plugin_registry) result" where
  "register_manifest sha256 parse_definition view m r =
     (let declarations = (case manifest_contributes m of None \<Rightarrow> [] | Some c \<Rightarrow> contributed_nodes c) in
      if declarations = [] then Inl (''plugin '' @ plugin_manifest_id m @ '' declares no node definitions'')
      else
        rbind (digest_for_catalog sha256 (view 0)) (\<lambda>digest.
        rbind (load_additions parse_definition m digest r view 1 declarations []) (\<lambda>additions.
        rbind (digest_for_catalog sha256 (view (length declarations + 1))) (\<lambda>again.
        rbind (require (again = digest) ''cannot digest plugin package: package changed during catalog loading'') (\<lambda>_.
        Inr (fold insert_node additions r))))))"

section \<open>What the registry promises\<close>

definition node_type_of :: "registered_node \<Rightarrow> string" where
  "node_type_of n = def_node_type (node_definition_of n)"

text \<open>Every node stands under its own type, which is well formed and not a built-in one.\<close>

definition acceptable_type :: "string \<Rightarrow> bool" where
  "acceptable_type k \<longleftrightarrow> \<not> is_builtin_node_type k \<and> validate_plugin_node_type k = Inr ()"

definition registry_ok :: "plugin_registry \<Rightarrow> bool" where
  "registry_ok r \<longleftrightarrow>
     sorted_wrt str_less (keys r) \<and> list_all (\<lambda>(k, n). k = node_type_of n \<and> acceptable_type k) r"

lemma digest_for_catalog_Inr: "digest_for_catalog sha256 p = Inr d \<longleftrightarrow> package_digest sha256 p = Inr d"
  by (auto simp: digest_for_catalog_def split: sum.splits)

lemma load_node_definition_type:
  "load_node_definition pd dir decl package = Inr d \<Longrightarrow> validate_plugin_node_type (def_node_type d) = Inr ()"
  by (auto simp: load_node_definition_def validate_node_definition_def Let_def rbind_Inr all_ok_Inr
      split: if_splits sum.splits)

lemma load_additions_Inr:
  assumes "load_additions pd m digest r view i decls additions = Inr out"
  shows "\<exists>new. out = additions @ new \<and> length new = length decls
    \<and> list_all (\<lambda>n. node_manifest n = m \<and> content_digest n = digest \<and> acceptable_type (node_type_of n)
        \<and> \<not> has_key r (node_type_of n)) new
    \<and> (distinct (map node_type_of additions) \<longrightarrow> distinct (map node_type_of out))"
  using assms
proof (induction pd m digest r view i decls additions rule: load_additions.induct)
  case (2 pd m digest r view i decl decls additions)
  from "2.prems" obtain d where d: "load_node_definition pd (manifest_dir m) decl (view i) = Inr d"
    and b: "\<not> is_builtin_node_type (def_node_type d)" "\<not> has_key r (def_node_type d)"
      "\<not> list_ex (\<lambda>n. def_node_type (node_definition_of n) = def_node_type d) additions"
    and l: "load_additions pd m digest r view (Suc i) decls
      (additions @ [\<lparr>node_manifest = m, node_definition_of = d, content_digest = digest\<rparr>]) = Inr out"
    by (auto simp: rbind_Inr split: if_splits)
  let ?n = "\<lparr>node_manifest = m, node_definition_of = d, content_digest = digest\<rparr>"
  from "2.IH" [OF d b(1) _ l] b(2,3) obtain new where
    "out = (additions @ [?n]) @ new" "length new = length decls"
    "list_all (\<lambda>n. node_manifest n = m \<and> content_digest n = digest \<and> acceptable_type (node_type_of n)
        \<and> \<not> has_key r (node_type_of n)) new"
    "distinct (map node_type_of (additions @ [?n])) \<longrightarrow> distinct (map node_type_of out)"
    by blast
  moreover have "node_type_of ?n = def_node_type d" "node_type_of ?n \<notin> node_type_of ` set additions"
    using b(3) by (auto simp: node_type_of_def list_ex_iff)
  ultimately show ?case using b(1,2) load_node_definition_type [OF d]
    by (intro exI [of _ "?n # new"]) (auto simp: acceptable_type_def)
qed simp

lemma insert_node_eq: "insert_node n r = map_insert (node_type_of n) n r"
  by (simp add: insert_node_def node_type_of_def)

lemma insert_nodes:
  assumes "distinct (map node_type_of ns)"
    and "list_all (\<lambda>n. acceptable_type (node_type_of n) \<and> \<not> has_key r (node_type_of n)) ns" and "registry_ok r"
  shows "registry_ok (fold insert_node ns r)
    \<and> map_of (fold insert_node ns r) = map_of r ++ map_of (map (\<lambda>n. (node_type_of n, n)) ns)"
  using assms
proof (induction ns arbitrary: r)
  case (Cons n ns)
  have new: "\<not> has_key r (node_type_of n)" "acceptable_type (node_type_of n)" using Cons.prems by simp_all
  have set_insert: "set (map_insert k v r) \<subseteq> insert (k, v) (set r)" for k v
    by (induction r) (auto split: if_splits)
  have ok: "registry_ok (insert_node n r)"
    using Cons.prems(3) new set_insert [of "node_type_of n" n]
    by (auto simp: registry_ok_def insert_node_eq sorted_map_insert list_all_iff)
  have "list_all (\<lambda>x. acceptable_type (node_type_of x) \<and> \<not> has_key (insert_node n r) (node_type_of x)) ns"
    using Cons.prems(1,2) by (auto simp: list_all_iff insert_node_eq has_key_def rev_image_eqI)
  moreover have mi: "map_of (insert_node n r) = (map_of r)(node_type_of n \<mapsto> n)" by (simp add: insert_node_eq)
  ultimately have "registry_ok (fold insert_node ns (insert_node n r))"
    "map_of (fold insert_node ns (insert_node n r)) = (map_of r)(node_type_of n \<mapsto> n) ++ map_of (map (\<lambda>n. (node_type_of n, n)) ns)"
    using Cons.IH [OF _ _ ok] Cons.prems(1) by (simp_all add: mi fun_upd_def)
  moreover have "map_of (map (\<lambda>n. (node_type_of n, n)) ns) (node_type_of n) = None"
    using Cons.prems(1) by (auto simp: map_of_eq_None_iff image_image)
  then have "(map_of r)(node_type_of n \<mapsto> n) ++ map_of (map (\<lambda>n. (node_type_of n, n)) ns)
      = map_of r ++ map_of (map (\<lambda>n. (node_type_of n, n)) (n # ns))"
    by (auto simp: fun_eq_iff map_add_def split: option.splits)
  ultimately show ?case by (simp only: fold_simps simp_thms)
qed simp


section \<open>Witness\<close>

definition sample_definition :: raw_node_definition where
  "sample_definition = \<lparr>def_api_version = ''kakune.dev/v1'', def_kind = ''NodeDefinition'',
     def_node_type = ''org.example.hello@1'', def_name = ''Hello'', def_description = None,
     def_input_schema = JObject [], def_output_schema = JObject []\<rparr>"

definition sample_manifest :: plugin_manifest where
  "sample_manifest = \<lparr>manifest_version = ''1.0'', plugin_manifest_id = ''org.example'', manifest_name = ''Example'',
     plugin_semver = ''0.1.0'', plugin_protocol = ''>=1.0.0 <2.0.0'',
     manifest_runtime = \<lparr>runtime_kind = ''process'', runtime_command = ''run'', runtime_args = []\<rparr>,
     manifest_author = None, manifest_description = None, manifest_license = None, manifest_model = None,
     manifest_requires = None,
     manifest_contributes = Some \<lparr>contributed_nodes = [''hello.json''], contributed_triggers = [],
       contributed_providers = [], contributed_services = []\<rparr>,
     manifest_permissions = None, manifest_dir = [''plugins'', ''example''], manifest_file = None\<rparr>"

definition sample_package :: tree where
  "sample_package = Directory [(''hello.json'', Regular_File ''{}'')]"


end
