(* ===== verification/Npm_Integrity.thy ===== *)
theory Npm_Integrity
  imports Prelude "HOL-Library.Word"
begin

text \<open>
  The integrity check of npm archives (\<open>verify_npm_integrity\<close> and \<open>base64_decode\<close> of \<open>src/plugin_install.rs\<close>).  The
  decoder shifts six bits at a time into a buffer of 32 bits that is never cleared; the encoder is the one of the
  tests in the same file.
\<close>

unbundle bit_operations_syntax

section \<open>Definitions\<close>

definition ALPHABET :: string where
  "ALPHABET = ''ABCDEFGHIJKLMNOPQRSTUVWXYZabcdefghijklmnopqrstuvwxyz0123456789+/''"

definition is_ascii_whitespace :: "char \<Rightarrow> bool" where
  "is_ascii_whitespace c \<longleftrightarrow> c \<in> {CHR '' '', CHR 0x09, CHR 0x0A, CHR 0x0C, CHR 0x0D}"

fun alphabet_position :: "char \<Rightarrow> string \<Rightarrow> nat option" where
  "alphabet_position c [] = None"
| "alphabet_position c (d # s) = (if c = d then Some 0 else map_option Suc (alphabet_position c s))"

text \<open>\<open>while bits >= 8\<close>: the bytes that are complete, and the bits that are left.\<close>

fun drain_bits :: "32 word \<Rightarrow> nat \<Rightarrow> string \<times> nat" where
  "drain_bits buffer bits =
     (if 8 \<le> bits
      then let (out, left) = drain_bits buffer (bits - 8)
           in (char_of (unat (drop_bit (bits - 8) buffer AND 0xff)) # out, left)
      else ([], bits))"

declare drain_bits.simps [simp del]

fun base64_loop :: "32 word \<Rightarrow> nat \<Rightarrow> string \<Rightarrow> (string, string) result" where
  "base64_loop buffer bits [] = Inr []"
| "base64_loop buffer bits (c # cs) =
     (if c = CHR ''='' then Inr []
      else (case alphabet_position c ALPHABET of
          None \<Rightarrow> Inl ''npm integrity is not valid base64''
        | Some v \<Rightarrow>
            (let buffer' = push_bit 6 buffer OR of_nat v;
                 (out, left) = drain_bits buffer' (bits + 6)
             in rbind (base64_loop buffer' left cs) (\<lambda>rest. Inr (out @ rest)))))"

definition base64_decode :: "string \<Rightarrow> (string, string) result" where
  "base64_decode s = base64_loop 0 0 (filter (\<lambda>c. \<not> is_ascii_whitespace c) s)"

definition verify_npm_integrity :: "(string \<Rightarrow> string) \<Rightarrow> string \<Rightarrow> string \<Rightarrow> (string, unit) result" where
  "verify_npm_integrity sha512 bytes integrity =
     (if \<not> starts_with integrity ''sha512-'' then Inl ''npm integrity must use sha512''
      else rbind (base64_decode (drop 7 integrity)) (\<lambda>expected.
        require (expected = sha512 bytes) ''npm tarball integrity check failed''))"

definition sextet :: "32 word \<Rightarrow> nat \<Rightarrow> char" where
  "sextet combined k = ALPHABET ! unat (drop_bit k combined AND 63)"

fun encode_base64 :: "string \<Rightarrow> string" where
  "encode_base64 [] = []"
| "encode_base64 [a] =
     (let combined = push_bit 16 (of_nat (byte a))
      in [sextet combined 18, sextet combined 12, CHR ''='', CHR ''=''])"
| "encode_base64 [a, b] =
     (let combined = push_bit 16 (of_nat (byte a)) OR push_bit 8 (of_nat (byte b))
      in [sextet combined 18, sextet combined 12, sextet combined 6, CHR ''=''])"
| "encode_base64 (a # b # c # s) =
     (let combined = (push_bit 16 (of_nat (byte a)) OR push_bit 8 (of_nat (byte b))) OR of_nat (byte c)
      in [sextet combined 18, sextet combined 12, sextet combined 6, sextet combined 0] @ encode_base64 s)"

section \<open>Words as numbers\<close>

lemma or_disjoint_nat:
  assumes "v < 2 ^ k" and "k \<le> 32"
  shows "unat (push_bit k w OR of_nat v :: 32 word) = (2 ^ k * unat w + v) mod 2 ^ 32"
proof -
  have "push_bit k w AND (of_nat v :: 32 word) = 0"
  proof (rule bit_word_eqI)
    fix n
    have "\<not> bit v n" if "k \<le> n" for n
    proof -
      have "v < 2 ^ n" using assms(1) that by (meson less_le_trans one_le_numeral power_increasing)
      then show ?thesis by (simp add: bit_iff_odd)
    qed
    then show "bit (push_bit k w AND (of_nat v :: 32 word)) n = bit (0 :: 32 word) n"
      by (auto simp: bit_simps)
  qed
  then have "push_bit k w OR of_nat v = push_bit k w + (of_nat v :: 32 word)"
    by (simp add: disjunctive_add_eq_or)
  moreover have "push_bit k w = of_nat (2 ^ k * unat w)"
    by (simp add: push_bit_eq_mult mult.commute)
  ultimately have "push_bit k w OR of_nat v = (of_nat (2 ^ k * unat w + v) :: 32 word)" by simp
  then show ?thesis by (simp only: unsigned_of_nat take_bit_eq_mod) simp
qed

lemma drop_mask_nat:
  "unat (drop_bit k w AND 0xff :: 32 word) = unat w div 2 ^ k mod 256"
  "unat (drop_bit k w AND 63 :: 32 word) = unat w div 2 ^ k mod 64"
proof -
  have masks: "(0xff :: 32 word) = mask 8" "(63 :: 32 word) = mask 6" by (simp_all add: mask_eq_exp_minus_1)
  have "unat (take_bit j (drop_bit k w)) = unat w div 2 ^ k mod 2 ^ j" for j
    by (simp only: unsigned_take_bit_eq unat_drop_bit_eq) (simp only: drop_bit_eq_div take_bit_eq_mod)
  from this [of 8] this [of 6]
  show "unat (drop_bit k w AND 0xff :: 32 word) = unat w div 2 ^ k mod 256"
    "unat (drop_bit k w AND 63 :: 32 word) = unat w div 2 ^ k mod 64"
    unfolding masks take_bit_eq_mask [symmetric] by simp_all
qed

lemma div_mod_nat: "(n :: nat) div a mod b = n mod (a * b) div a" if "0 < a"
  using that by (simp add: mod_mult2_eq)

section \<open>Decoding what was encoded\<close>

lemma position_nth: "distinct s \<Longrightarrow> v < length s \<Longrightarrow> alphabet_position (s ! v) s = Some v"
  by (induction s arbitrary: v) (auto simp: nth_Cons split: nat.splits)

lemma ALPHABET_facts: "distinct ALPHABET" "length ALPHABET = 64"
  "list_all (\<lambda>c. c \<noteq> CHR ''='' \<and> \<not> is_ascii_whitespace c) ALPHABET"
  by code_simp+

lemma ALPHABET_nth:
  assumes "v < 64"
  shows "alphabet_position (ALPHABET ! v) ALPHABET = Some v" "ALPHABET ! v \<noteq> CHR ''=''" "\<not> is_ascii_whitespace (ALPHABET ! v)"
proof -
  show "alphabet_position (ALPHABET ! v) ALPHABET = Some v" using assms by (simp add: position_nth ALPHABET_facts)
  show "ALPHABET ! v \<noteq> CHR ''=''" "\<not> is_ascii_whitespace (ALPHABET ! v)"
    using ALPHABET_facts(2,3) assms by (auto simp: list_all_length)
qed

lemma push_sextet_mod:
  assumes "v < 64" and "64 * m dvd 2 ^ 32"
  shows "unat (push_bit 6 B OR of_nat v :: 32 word) mod (64 * m) = 64 * (unat B mod m) + v"
proof -
  have "unat (push_bit 6 B OR of_nat v :: 32 word) mod (64 * m) = (64 * unat B + v) mod (64 * m)"
    using or_disjoint_nat [of v 6 B] assms by (simp add: mod_mod_cancel)
  also have "\<dots> = 64 * ((64 * unat B + v) div 64 mod m) + (64 * unat B + v) mod 64" by (rule mod_mult2_eq)
  also have "\<dots> = 64 * (unat B mod m) + v" using assms(1) by simp
  finally show ?thesis .
qed

lemma drain_bits_values:
  "drain_bits w 6 = ([], 6)"
  "drain_bits w 12 = ([char_of (unat w mod 4096 div 16)], 4)"
  "drain_bits w 10 = ([char_of (unat w mod 1024 div 4)], 2)"
  "drain_bits w 8 = ([char_of (unat w mod 256)], 0)"
  using div_mod_nat [of 16 "unat w" 256] div_mod_nat [of 4 "unat w" 256] drop_mask_nat(1) [of 0 w]
  by (simp_all add: drain_bits.simps [of w] drop_mask_nat)

text \<open>One character, in numbers: what counts are the low bits of the buffer.\<close>

lemma decode_step:
  assumes "v < 64"
  obtains B' where "\<And>m. 64 * m dvd 2 ^ 32 \<Longrightarrow> unat B' mod (64 * m) = 64 * (unat B mod m) + v"
    and "\<And>k cs out left. drain_bits B' (k + 6) = (out, left) \<Longrightarrow>
      base64_loop B k (ALPHABET ! v # cs) = rbind (base64_loop B' left cs) (\<lambda>r. Inr (out @ r))"
  by (rule that [of "push_bit 6 B OR of_nat v"]) (simp_all add: push_sextet_mod assms ALPHABET_nth Let_def)

text \<open>Two, three and four characters decode to the bytes they hold, whatever is left in the buffer.\<close>

lemma decode_two:
  assumes "v1 < 64" "v2 < 64"
  shows "\<exists>B'. unat B' mod 16 = v2 mod 16 \<and> (\<forall>cs.
    base64_loop B 0 (ALPHABET ! v1 # ALPHABET ! v2 # cs)
      = rbind (base64_loop B' 4 cs) (\<lambda>r. Inr (char_of (4 * v1 + v2 div 16) # r)))"
proof -
  obtain B1 where B1: "\<And>m. 64 * m dvd 2 ^ 32 \<Longrightarrow> unat B1 mod (64 * m) = 64 * (unat B mod m) + v1"
    "\<And>k cs out left. drain_bits B1 (k + 6) = (out, left) \<Longrightarrow>
      base64_loop B k (ALPHABET ! v1 # cs) = rbind (base64_loop B1 left cs) (\<lambda>r. Inr (out @ r))"
    using decode_step [OF assms(1)] by blast
  obtain B2 where B2: "\<And>m. 64 * m dvd 2 ^ 32 \<Longrightarrow> unat B2 mod (64 * m) = 64 * (unat B1 mod m) + v2"
    "\<And>k cs out left. drain_bits B2 (k + 6) = (out, left) \<Longrightarrow>
      base64_loop B1 k (ALPHABET ! v2 # cs) = rbind (base64_loop B2 left cs) (\<lambda>r. Inr (out @ r))"
    using decode_step [OF assms(2)] by blast
  have low: "unat B2 mod 4096 = 64 * v1 + v2" using B1(1) [of 1] B2(1) [of 64] by simp
  then have "unat B2 mod 16 = (64 * v1 + v2) mod 16" using mod_mod_cancel [of 16 4096 "unat B2"] by simp
  also have "\<dots> = (v2 + 16 * (4 * v1)) mod 16" by (simp add: add.commute)
  also have "\<dots> = v2 mod 16" by (rule mod_mult_self2)
  finally have "unat B2 mod 16 = v2 mod 16" .
  moreover have "base64_loop B 0 (ALPHABET ! v1 # ALPHABET ! v2 # cs)
      = rbind (base64_loop B2 4 cs) (\<lambda>r. Inr (char_of (4 * v1 + v2 div 16) # r))" for cs
    using B1(2) [of 0 "[]" 6] B2(2) [of 6 "[char_of (4 * v1 + v2 div 16)]" 4] low
    by (simp add: drain_bits_values rbind_def split: sum.splits)
  ultimately show ?thesis by blast
qed

lemma decode_three:
  assumes "v1 < 64" "v2 < 64" "v3 < 64"
  shows "\<exists>B'. unat B' mod 4 = v3 mod 4 \<and> (\<forall>cs.
    base64_loop B 0 (ALPHABET ! v1 # ALPHABET ! v2 # ALPHABET ! v3 # cs)
      = rbind (base64_loop B' 2 cs)
          (\<lambda>r. Inr (char_of (4 * v1 + v2 div 16) # char_of (16 * (v2 mod 16) + v3 div 4) # r)))"
proof -
  obtain B2 where B2: "unat B2 mod 16 = v2 mod 16"
    "\<And>cs. base64_loop B 0 (ALPHABET ! v1 # ALPHABET ! v2 # cs)
      = rbind (base64_loop B2 4 cs) (\<lambda>r. Inr (char_of (4 * v1 + v2 div 16) # r))"
    using decode_two [OF assms(1,2)] by blast
  obtain B3 where B3: "\<And>m. 64 * m dvd 2 ^ 32 \<Longrightarrow> unat B3 mod (64 * m) = 64 * (unat B2 mod m) + v3"
    "\<And>k cs out left. drain_bits B3 (k + 6) = (out, left) \<Longrightarrow>
      base64_loop B2 k (ALPHABET ! v3 # cs) = rbind (base64_loop B3 left cs) (\<lambda>r. Inr (out @ r))"
    using decode_step [OF assms(3)] by blast
  have low: "unat B3 mod 1024 = 64 * (v2 mod 16) + v3" using B3(1) [of 16] B2(1) by simp
  then have "unat B3 mod 4 = (64 * (v2 mod 16) + v3) mod 4" using mod_mod_cancel [of 4 1024 "unat B3"] by simp
  also have "\<dots> = (v3 + 4 * (16 * (v2 mod 16))) mod 4" by (simp add: add.commute)
  also have "\<dots> = v3 mod 4" by (rule mod_mult_self2)
  finally have "unat B3 mod 4 = v3 mod 4" .
  moreover have "base64_loop B 0 (ALPHABET ! v1 # ALPHABET ! v2 # ALPHABET ! v3 # cs)
      = rbind (base64_loop B3 2 cs)
          (\<lambda>r. Inr (char_of (4 * v1 + v2 div 16) # char_of (16 * (v2 mod 16) + v3 div 4) # r))" for cs
    using B2(2) B3(2) [of 4 "[char_of (16 * (v2 mod 16) + v3 div 4)]" 2] low
    by (simp add: drain_bits_values rbind_def split: sum.splits)
  ultimately show ?thesis by blast
qed

lemma decode_four:
  assumes "v1 < 64" "v2 < 64" "v3 < 64" "v4 < 64"
  shows "\<exists>B'. \<forall>cs.
    base64_loop B 0 (ALPHABET ! v1 # ALPHABET ! v2 # ALPHABET ! v3 # ALPHABET ! v4 # cs)
      = rbind (base64_loop B' 0 cs) (\<lambda>r. Inr (char_of (4 * v1 + v2 div 16)
          # char_of (16 * (v2 mod 16) + v3 div 4) # char_of (64 * (v3 mod 4) + v4) # r))"
proof -
  obtain B3 where B3: "unat B3 mod 4 = v3 mod 4"
    "\<And>cs. base64_loop B 0 (ALPHABET ! v1 # ALPHABET ! v2 # ALPHABET ! v3 # cs)
      = rbind (base64_loop B3 2 cs)
          (\<lambda>r. Inr (char_of (4 * v1 + v2 div 16) # char_of (16 * (v2 mod 16) + v3 div 4) # r))"
    using decode_three [OF assms(1-3)] by blast
  obtain B4 where B4: "\<And>m. 64 * m dvd 2 ^ 32 \<Longrightarrow> unat B4 mod (64 * m) = 64 * (unat B3 mod m) + v4"
    "\<And>k cs out left. drain_bits B4 (k + 6) = (out, left) \<Longrightarrow>
      base64_loop B3 k (ALPHABET ! v4 # cs) = rbind (base64_loop B4 left cs) (\<lambda>r. Inr (out @ r))"
    using decode_step [OF assms(4)] by blast
  have low: "unat B4 mod 256 = 64 * (v3 mod 4) + v4" using B4(1) [of 4] B3(1) by simp
  have "base64_loop B 0 (ALPHABET ! v1 # ALPHABET ! v2 # ALPHABET ! v3 # ALPHABET ! v4 # cs)
      = rbind (base64_loop B4 0 cs) (\<lambda>r. Inr (char_of (4 * v1 + v2 div 16)
          # char_of (16 * (v2 mod 16) + v3 div 4) # char_of (64 * (v3 mod 4) + v4) # r))" for cs
    using B3(2) B4(2) [of 2 "[char_of (64 * (v3 mod 4) + v4)]" 0] low
    by (simp add: drain_bits_values rbind_def split: sum.splits)
  then show ?thesis by blast
qed

text \<open>The sextets of a number of 24 bits hold its three bytes.\<close>

lemma sextets_hold_bytes:
  fixes x :: nat
  shows "4 * (x div 262144 mod 64) + x div 4096 mod 64 div 16 = x div 65536 mod 256"
    and "16 * (x div 4096 mod 64 mod 16) + x div 64 mod 64 div 4 = x div 256 mod 256"
    and "64 * (x div 64 mod 64 mod 4) + x mod 64 = x mod 256"
proof -
  have inner: "y mod 64 div 16 = y div 16 mod 4" "y mod 64 mod 16 = y mod 16" "y mod 64 div 4 = y div 4 mod 16"
    "y mod 64 mod 4 = y mod 4" for y :: nat
    using div_mod_nat [of 16 y 4] div_mod_nat [of 4 y 16] by (simp_all add: mod_mod_cancel)
  have outer: "4 * (y div 4 mod 64) + y mod 4 = y mod 256" "16 * (y div 16 mod 16) + y mod 16 = y mod 256"
    "64 * (y div 64 mod 4) + y mod 64 = y mod 256" for y :: nat
    using mod_mult2_eq [of y 4 64] mod_mult2_eq [of y 16 16] mod_mult2_eq [of y 64 4] by simp_all
  show "4 * (x div 262144 mod 64) + x div 4096 mod 64 div 16 = x div 65536 mod 256"
    using outer(1) [of "x div 65536"] by (simp add: inner div_mult2_eq [symmetric])
  show "16 * (x div 4096 mod 64 mod 16) + x div 64 mod 64 div 4 = x div 256 mod 256"
    using outer(2) [of "x div 256"] by (simp add: inner div_mult2_eq [symmetric])
  show "64 * (x div 64 mod 64 mod 4) + x mod 64 = x mod 256"
    using outer(3) [of x] by (simp add: inner)
qed

lemma combined_bytes:
  fixes a b c :: nat
  assumes "a < 256" "b < 256" "c < 256"
  shows "(65536 * a + 256 * b + c) div 65536 = a" "(65536 * a + 256 * b + c) div 256 = 256 * a + b"
    "(65536 * a + 256 * b + c) mod 256 = c" "65536 * a + 256 * b + c < 2 ^ 32"
proof -
  have "256 * b + c < 65536" using assms by simp
  then have "(256 * b + c + 65536 * a) div 65536 = a" by simp
  then show "(65536 * a + 256 * b + c) div 65536 = a" by (simp add: algebra_simps)
  have "(c + 256 * (256 * a + b)) div 256 = 256 * a + b" "(c + 256 * (256 * a + b)) mod 256 = c"
    using assms(3) by (simp_all only: div_mult_self2 mod_mult_self2 mod_less div_less)
  then show "(65536 * a + 256 * b + c) div 256 = 256 * a + b" "(65536 * a + 256 * b + c) mod 256 = c"
    by (simp_all add: algebra_simps)
  show "65536 * a + 256 * b + c < 2 ^ 32" using assms by simp
qed

lemma combined_nat:
  "unat ((push_bit 16 (of_nat (byte a)) OR push_bit 8 (of_nat (byte b))) OR of_nat (byte c) :: 32 word)
     = 65536 * byte a + 256 * byte b + byte c"
  "unat (push_bit 16 (of_nat (byte a)) OR push_bit 8 (of_nat (byte b)) :: 32 word) = 65536 * byte a + 256 * byte b"
  "unat (push_bit 16 (of_nat (byte a)) :: 32 word) = 65536 * byte a"
proof -
  have less: "65536 * byte a + 256 * byte b + byte c < 2 ^ 32" for a b c
    using combined_bytes(4) [OF nat_of_char_less_256 nat_of_char_less_256 nat_of_char_less_256] .
  let ?w = "push_bit 8 (of_nat (byte a)) OR of_nat (byte b) :: 32 word"
  have one: "unat (of_nat (byte a) :: 32 word) = byte a" for a
    using less [of a "CHR 0x00" "CHR 0x00"] by (simp add: unsigned_of_nat take_bit_nat_eq_self)
  have w: "unat ?w = 256 * byte a + byte b"
    using or_disjoint_nat [of "byte b" 8 "of_nat (byte a)"] less [of a b c] one by simp
  have eq: "push_bit 16 (of_nat (byte a)) OR push_bit 8 (of_nat (byte b)) = push_bit 8 ?w" by (simp add: push_bit_or)
  show "unat ((push_bit 16 (of_nat (byte a)) OR push_bit 8 (of_nat (byte b))) OR of_nat (byte c) :: 32 word)
     = 65536 * byte a + 256 * byte b + byte c"
    using or_disjoint_nat [of "byte c" 8 ?w] less [of a b c] w unfolding eq by simp
  show "unat (push_bit 16 (of_nat (byte a)) OR push_bit 8 (of_nat (byte b)) :: 32 word) = 65536 * byte a + 256 * byte b"
    using or_disjoint_nat [of 0 8 ?w] less [of a b "CHR 0x00"] w unfolding eq by simp
  show "unat (push_bit 16 (of_nat (byte a)) :: 32 word) = 65536 * byte a"
    using or_disjoint_nat [of 0 16 "of_nat (byte a)"] less [of a "CHR 0x00" "CHR 0x00"] one by simp
qed

lemma sextet_nat: "sextet w k = ALPHABET ! (unat w div 2 ^ k mod 64)"
  by (simp add: sextet_def drop_mask_nat)

lemma combined_chars:
  "char_of ((65536 * byte a + 256 * byte b + byte c) div 65536) = a"
  "char_of ((65536 * byte a + 256 * byte b + byte c) div 256) = b"
  "char_of (65536 * byte a + 256 * byte b + byte c) = c"
proof -
  note bytes = combined_bytes [OF nat_of_char_less_256 [of a] nat_of_char_less_256 [of b] nat_of_char_less_256 [of c]]
  show "char_of ((65536 * byte a + 256 * byte b + byte c) div 65536) = a" by (simp only: bytes char_of_char)
  have "char_of ((256 * byte a + byte b) mod 256) = b" by simp
  then show "char_of ((65536 * byte a + 256 * byte b + byte c) div 256) = b" by (simp only: bytes char_of_mod_256)
  have "char_of ((65536 * byte a + 256 * byte b + byte c) mod 256) = c" by (simp only: bytes char_of_char)
  then show "char_of (65536 * byte a + 256 * byte b + byte c) = c" by (simp only: char_of_mod_256)
qed

lemma decode_sextets:
  "\<exists>B'. \<forall>cs. base64_loop B 0 (sextet w 18 # sextet w 12 # cs)
     = rbind (base64_loop B' 4 cs) (\<lambda>r. Inr (char_of (unat w div 65536) # r))"
  "\<exists>B'. \<forall>cs. base64_loop B 0 (sextet w 18 # sextet w 12 # sextet w 6 # cs)
     = rbind (base64_loop B' 2 cs) (\<lambda>r. Inr (char_of (unat w div 65536) # char_of (unat w div 256) # r))"
  "\<exists>B'. \<forall>cs. base64_loop B 0 (sextet w 18 # sextet w 12 # sextet w 6 # sextet w 0 # cs)
     = rbind (base64_loop B' 0 cs)
         (\<lambda>r. Inr (char_of (unat w div 65536) # char_of (unat w div 256) # char_of (unat w) # r))"
proof -
  define x where "x = unat w"
  have s: "sextet w 18 = ALPHABET ! (x div 262144 mod 64)" "sextet w 12 = ALPHABET ! (x div 4096 mod 64)"
    "sextet w 6 = ALPHABET ! (x div 64 mod 64)" "sextet w 0 = ALPHABET ! (x mod 64)"
    by (simp_all add: sextet_nat x_def)
  have c: "(char_of (4 * (x div 262144 mod 64) + x div 4096 mod 64 div 16) :: char) = char_of (x div 65536)"
    "(char_of (16 * (x div 4096 mod 64 mod 16) + x div 64 mod 64 div 4) :: char) = char_of (x div 256)"
    "(char_of (64 * (x div 64 mod 64 mod 4) + x mod 64) :: char) = char_of x"
    unfolding sextets_hold_bytes char_of_mod_256 by (rule refl)+
  have less: "y mod 64 < 64" for y :: nat by simp
  show "\<exists>B'. \<forall>cs. base64_loop B 0 (sextet w 18 # sextet w 12 # cs)
     = rbind (base64_loop B' 4 cs) (\<lambda>r. Inr (char_of (unat w div 65536) # r))"
    using decode_two [OF less [of "x div 262144"] less [of "x div 4096"], of B] unfolding s c x_def [symmetric] by blast
  show "\<exists>B'. \<forall>cs. base64_loop B 0 (sextet w 18 # sextet w 12 # sextet w 6 # cs)
     = rbind (base64_loop B' 2 cs) (\<lambda>r. Inr (char_of (unat w div 65536) # char_of (unat w div 256) # r))"
    using decode_three [OF less [of "x div 262144"] less [of "x div 4096"] less [of "x div 64"], of B]
    unfolding s c x_def [symmetric] by blast
  show "\<exists>B'. \<forall>cs. base64_loop B 0 (sextet w 18 # sextet w 12 # sextet w 6 # sextet w 0 # cs)
     = rbind (base64_loop B' 0 cs)
         (\<lambda>r. Inr (char_of (unat w div 65536) # char_of (unat w div 256) # char_of (unat w) # r))"
    using decode_four [OF less [of "x div 262144"] less [of "x div 4096"] less [of "x div 64"] less [of x], of B]
    unfolding s c x_def [symmetric] by blast
qed

lemma base64_loop_encode: "base64_loop B 0 (encode_base64 s) = Inr s"
proof (induction s arbitrary: B rule: encode_base64.induct)
  case (2 a)
  define w :: "32 word" where "w = push_bit 16 (of_nat (byte a))"
  have e: "encode_base64 [a] = sextet w 18 # sextet w 12 # ''==''" by (simp add: Let_def w_def)
  have "char_of (unat w div 65536) = a"
    using combined_nat(3) [of a] combined_chars(1) [of a "CHR 0x00" "CHR 0x00"] by (simp add: w_def)
  moreover obtain B' where "\<And>cs. base64_loop B 0 (sextet w 18 # sextet w 12 # cs)
      = rbind (base64_loop B' 4 cs) (\<lambda>r. Inr (char_of (unat w div 65536) # r))"
    using decode_sextets(1) [of B w] by blast
  ultimately show ?case unfolding e by (simp add: rbind_def del: base64_loop.simps(2)) simp
next
  case (3 a b)
  define w :: "32 word" where "w = push_bit 16 (of_nat (byte a)) OR push_bit 8 (of_nat (byte b))"
  have e: "encode_base64 [a, b] = sextet w 18 # sextet w 12 # sextet w 6 # ''=''" by (simp add: Let_def w_def)
  have "char_of (unat w div 65536) = a" "char_of (unat w div 256) = b"
    using combined_nat(2) [of a b] combined_chars(1,2) [of a b "CHR 0x00"] by (simp_all add: w_def)
  moreover obtain B' where "\<And>cs. base64_loop B 0 (sextet w 18 # sextet w 12 # sextet w 6 # cs)
      = rbind (base64_loop B' 2 cs) (\<lambda>r. Inr (char_of (unat w div 65536) # char_of (unat w div 256) # r))"
    using decode_sextets(2) [of B w] by blast
  ultimately show ?case unfolding e by (simp add: rbind_def del: base64_loop.simps(2)) simp
next
  case (4 a b c s)
  define w :: "32 word" where "w = (push_bit 16 (of_nat (byte a)) OR push_bit 8 (of_nat (byte b))) OR of_nat (byte c)"
  have e: "encode_base64 (a # b # c # s) = sextet w 18 # sextet w 12 # sextet w 6 # sextet w 0 # encode_base64 s"
    by (simp add: Let_def w_def)
  have "char_of (unat w div 65536) = a" "char_of (unat w div 256) = b" "char_of (unat w) = c"
    using combined_chars [of a b c] unfolding w_def combined_nat by simp_all
  moreover obtain B' where "\<And>cs. base64_loop B 0 (sextet w 18 # sextet w 12 # sextet w 6 # sextet w 0 # cs)
      = rbind (base64_loop B' 0 cs)
         (\<lambda>r. Inr (char_of (unat w div 65536) # char_of (unat w div 256) # char_of (unat w) # r))"
    using decode_sextets(3) [of B w] by blast
  ultimately show ?case unfolding e by (simp add: 4 rbind_def del: base64_loop.simps(2))
qed simp

lemma encode_base64_no_space: "list_all (\<lambda>c. \<not> is_ascii_whitespace c) (encode_base64 s)"
proof -
  have "\<not> is_ascii_whitespace (sextet w k)" for w k by (simp add: sextet_nat ALPHABET_nth)
  moreover have "\<not> is_ascii_whitespace CHR ''=''" by code_simp
  ultimately show ?thesis by (induction s rule: encode_base64.induct) (simp_all add: Let_def)
qed

text \<open>C40: an archive passes the check exactly with the digest it has: the integrity text written for its digest is
  accepted, for a digest of any length, and whatever text is accepted decodes to that digest.\<close>

theorem integrity_accepts_own_digest:
  "verify_npm_integrity sha512 bytes (''sha512-'' @ encode_base64 (sha512 bytes)) = Inr ()
   \<and> (verify_npm_integrity sha512 bytes integrity = Inr () \<longleftrightarrow>
        (\<exists>text. integrity = ''sha512-'' @ text \<and> base64_decode text = Inr (sha512 bytes)))
   \<and> base64_decode (encode_base64 s) = Inr s"
proof -
  have decode: "base64_decode (encode_base64 s) = Inr s" for s
  proof -
    have "filter (\<lambda>c. \<not> is_ascii_whitespace c) (encode_base64 s) = encode_base64 s"
      using encode_base64_no_space [of s] by (simp add: filter_id_conv list_all_iff)
    then show ?thesis by (simp add: base64_decode_def base64_loop_encode)
  qed
  have "verify_npm_integrity sha512 bytes integrity = Inr () \<longleftrightarrow>
      (\<exists>text. integrity = ''sha512-'' @ text \<and> base64_decode text = Inr (sha512 bytes))"
    by (auto simp: verify_npm_integrity_def starts_with_prefix prefix_def rbind_Inr require_Inr)
  with decode show ?thesis by (simp add: verify_npm_integrity_def rbind_def require_def)
qed

end
