(* ===== verification/Plugin_Install.thy ===== *)
theory Plugin_Install
  imports Plugin_Manifest Npm_Integrity Store_Props
begin

text \<open>
  The second phase of an installation (\<open>commit\<close> of \<open>src/plugin_install.rs\<close>): a package that was prepared and reviewed
  is moved to its place and published in the store, under the digest that was approved.  The world is the store with
  its table of prepared installations, and the directories of packages, staged or installed.
\<close>

section \<open>Prepared installations\<close>

record prepared_row =
  prep_id :: string
  prep_plugin :: string
  prep_name :: string
  prep_version :: string
  prep_digest :: string
  prep_staged :: dir_path
  prep_lock :: json

record install_world =
  iw_store :: store
  iw_prepared :: "prepared_row list"
  iw_dirs :: "dir_path \<Rightarrow> tree option"

text \<open>Hashing, decoding of JSON and of URLs, the errors of the file system, and what is left of a directory that could
  not be removed completely.\<close>

record install_env =
  package_sha256 :: "string \<Rightarrow> string"
  decode_manifest :: "string \<Rightarrow> (string, raw_plugin_manifest) result"
  decode_definition :: "string \<Rightarrow> (string, raw_node_definition) result"
  decode_url :: "string \<Rightarrow> parsed_url option"
  install_data_dir :: dir_path
  mkdir_error :: "dir_path \<Rightarrow> string option"
  rename_error :: "dir_path \<Rightarrow> dir_path \<Rightarrow> string option"
  remove_error :: "dir_path \<Rightarrow> (string \<times> tree option) option"

definition save_prepared_plugin_install ::
  "prepared_row \<Rightarrow> prepared_row list \<Rightarrow> (string, prepared_row list) result" where
  "save_prepared_plugin_install p ps =
     (if prep_id p \<in> prep_id ` set ps
      then Inl (database_error ''UNIQUE constraint failed: prepared_plugin_installs.id'') else Inr (ps @ [p]))"

definition prepared_plugin_install :: "string \<Rightarrow> prepared_row list \<Rightarrow> prepared_row option" where
  "prepared_plugin_install i ps = find (\<lambda>p. prep_id p = i) ps"

definition remove_prepared_plugin_install :: "string \<Rightarrow> prepared_row list \<Rightarrow> prepared_row option \<times> prepared_row list" where
  "remove_prepared_plugin_install i ps = (find (\<lambda>p. prep_id p = i) ps, filter (\<lambda>p. prep_id p \<noteq> i) ps)"

definition validate_plugin_source :: "(string \<Rightarrow> parsed_url option) \<Rightarrow> string \<Rightarrow> (string, unit) result" where
  "validate_plugin_source parse_url source =
     (if source = [] \<or> 4096 < length source \<or> CHR 0x0D \<in> set source \<or> CHR 0x0A \<in> set source
      then Inl ''invalid plugin source''
      else if starts_with source ''git:''
      then (case parse_url (drop 4 source) of
              None \<Rightarrow> Inl ''invalid plugin source''
            | Some u \<Rightarrow>
                require (url_username u = [] \<and> url_password u = None \<and> url_query u = None)
                  ''plugin source must not contain credentials or query parameters'')
      else Inr ())"

section \<open>Commit\<close>

text \<open>The comparison looks at every byte.\<close>

definition constant_time_eq :: "string \<Rightarrow> string \<Rightarrow> bool" where
  "constant_time_eq l r \<longleftrightarrow>
     length l = length r
     \<and> foldl (\<lambda>d (a, b). d OR (of_nat (byte a) XOR of_nat (byte b))) (0 :: 8 word) (zip l r) = 0"

text \<open>A path of the store as the directory and the file it names.\<close>

definition text_path :: "string \<Rightarrow> dir_path" where
  "text_path p = filter (\<lambda>n. n \<noteq> []) (split_on CHR ''/'' p)"

definition register_manifest_path ::
  "install_env \<Rightarrow> (dir_path \<Rightarrow> tree option) \<Rightarrow> string \<Rightarrow> plugin_registry \<Rightarrow> (string, plugin_registry) result" where
  "register_manifest_path env dirs path r =
     (let dir = butlast (text_path path); name = last (text_path path) in
      rbind (case load_manifest (decode_manifest env) dir name (dirs dir) of
               Inl e \<Rightarrow> Inl (''cannot load plugin manifest: '' @ e) | Inr m \<Rightarrow> Inr m) (\<lambda>m.
        register_manifest (package_sha256 env) (decode_definition env) (\<lambda>_. dirs dir) m r))"

fun register_installed ::
  "install_env \<Rightarrow> (dir_path \<Rightarrow> tree option) \<Rightarrow> plugin_row list \<Rightarrow> plugin_registry \<Rightarrow> (string, plugin_registry) result" where
  "register_installed env dirs [] r = Inr r"
| "register_installed env dirs (p # ps) r =
     rbind (case register_manifest_path env dirs (plugin_path p) r of
              Inl e \<Rightarrow> Inl (''installed plugin catalog is not valid: '' @ e) | Inr r' \<Rightarrow> Inr r')
       (register_installed env dirs ps)"

text \<open>\<open>ORDER BY id\<close>.\<close>

fun insert_by_id :: "plugin_row \<Rightarrow> plugin_row list \<Rightarrow> plugin_row list" where
  "insert_by_id p [] = [p]"
| "insert_by_id p (q # qs) = (if str_less (plugin_id p) (plugin_id q) then p # q # qs else q # insert_by_id p qs)"

definition list_installed_plugins :: "store \<Rightarrow> plugin_row list" where
  "list_installed_plugins s = foldr insert_by_id (plugin_rows s) []"

definition prospective_catalog ::
  "install_env \<Rightarrow> install_world \<Rightarrow> dir_path \<Rightarrow> plugin_manifest \<Rightarrow> (string, plugin_registry) result" where
  "prospective_catalog env w dir candidate =
     (let installed = list_installed_plugins (iw_store w) in
      if 10000 < length installed then Inl ''installed plugin catalog exceeds its validation limit''
      else
        rbind (register_installed env (iw_dirs w)
                 (filter (\<lambda>p. plugin_enabled p \<and> plugin_id p \<noteq> plugin_manifest_id candidate) installed) []) (\<lambda>r.
          (case register_manifest (package_sha256 env) (decode_definition env) (\<lambda>_. iw_dirs w dir) candidate r of
             Inl e \<Rightarrow> Inl (''prospective plugin catalog is not valid: '' @ e) | Inr r' \<Rightarrow> Inr r')))"

definition validate_prospective_catalog ::
  "install_env \<Rightarrow> install_world \<Rightarrow> dir_path \<Rightarrow> plugin_manifest \<Rightarrow> (string, unit) result" where
  "validate_prospective_catalog env w dir candidate = rbind (prospective_catalog env w dir candidate) (\<lambda>_. Inr ())"

definition directory_digest :: "install_env \<Rightarrow> install_world \<Rightarrow> dir_path \<Rightarrow> (string, string) result" where
  "directory_digest env w dir = package_digest (package_sha256 env) (iw_dirs w dir)"

definition find_manifest_in :: "install_world \<Rightarrow> dir_path \<Rightarrow> (string, string) result" where
  "find_manifest_in w dir = find_manifest (case iw_dirs w dir of None \<Rightarrow> Directory [] | Some t \<Rightarrow> t)"

definition plugin_destination :: "install_env \<Rightarrow> plugin_manifest \<Rightarrow> prepared_row \<Rightarrow> dir_path" where
  "plugin_destination env m p =
     install_data_dir env @ [''plugins'', plugin_manifest_id m, plugin_semver m @ ''-'' @ take 12 (drop 7 (prep_digest p))]"

text \<open>Everything that is checked before a directory is touched: the manifest, the source for updates, the
  destination, and whether it is there already.\<close>

definition commit_checks ::
  "install_env \<Rightarrow> prepared_row \<Rightarrow> string \<Rightarrow> install_world
   \<Rightarrow> (string, plugin_manifest \<times> string \<times> dir_path \<times> bool) result" where
  "commit_checks env p expected w =
     rbind (require (constant_time_eq (prep_digest p) expected)
              ''the approved digest does not match the prepared installation'') (\<lambda>_.
     rbind (directory_digest env w (prep_staged p)) (\<lambda>actual.
     rbind (require (constant_time_eq (prep_digest p) actual)
              ''prepared plugin content changed after inspection; prepare it again'') (\<lambda>_.
     rbind (find_manifest_in w (prep_staged p)) (\<lambda>name.
     rbind (load_manifest (decode_manifest env) (prep_staged p) name (iw_dirs w (prep_staged p))) (\<lambda>m.
     rbind (require (plugin_manifest_id m = prep_plugin p \<and> plugin_semver m = prep_version p)
              ''prepared plugin manifest changed after inspection; prepare it again'') (\<lambda>_.
     rbind (ok_or (Option.bind (get_key (prep_lock p) ''requestedSource'') as_str)
              ''prepared plugin has no update source'') (\<lambda>source.
     let destination = plugin_destination env m p;
         already_staged = (iw_dirs w destination \<noteq> None)
     in rbind (if already_staged
               then rbind (directory_digest env w destination) (\<lambda>existing.
                 require (constant_time_eq existing (prep_digest p))
                   ''plugin activation destination contains different content'')
               else Inr ()) (\<lambda>_.
        rbind (validate_prospective_catalog env w (prep_staged p) m) (\<lambda>_.
        Inr (m, source, destination, already_staged))))))))))"

definition move_dir :: "dir_path \<Rightarrow> dir_path \<Rightarrow> install_world \<Rightarrow> install_world" where
  "move_dir a b w = w\<lparr>iw_dirs := (iw_dirs w)(a := None, b := iw_dirs w a)\<rparr>"

text \<open>\<open>fs::rename\<close>.\<close>

definition rename_dir :: "install_env \<Rightarrow> dir_path \<Rightarrow> dir_path \<Rightarrow> (string, install_world, unit) fallible" where
  "rename_dir env a b w =
     (case rename_error env a b of Some e \<Rightarrow> (Inl e, w) | None \<Rightarrow> (Inr (), move_dir a b w))"

definition remove_dir_all :: "install_env \<Rightarrow> dir_path \<Rightarrow> (string, install_world, unit) fallible" where
  "remove_dir_all env a w =
     (case remove_error env a of
        Some (e, left) \<Rightarrow> (Inl e, w\<lparr>iw_dirs := (iw_dirs w)(a := left)\<rparr>)
      | None \<Rightarrow> (Inr (), w\<lparr>iw_dirs := (iw_dirs w)(a := None)\<rparr>))"

text \<open>The publication, once the package is at its destination.\<close>

definition publish_package ::
  "install_env \<Rightarrow> prepared_row \<Rightarrow> plugin_manifest \<Rightarrow> string \<Rightarrow> dir_path \<Rightarrow> bool
   \<Rightarrow> (string, install_world, plugin_row) fallible" where
  "publish_package env p m source destination already_staged w =
     (case find_manifest_in w destination of
        Inl e \<Rightarrow> (Inl e, w)
      | Inr name \<Rightarrow>
          (let r = \<lparr>plugin_id = plugin_manifest_id m, plugin_name = manifest_name m, plugin_version = plugin_semver m,
                   plugin_path = display_path (destination @ [name]), plugin_digest = prep_digest p,
                   plugin_enabled = True\<rparr>
           in case upsert_plugin_install_with_source (validate_plugin_source (decode_url env)) r (Some source)
                     (iw_store w) of
                Inl e \<Rightarrow>
                  (Inl e, if already_staged then w else snd (rename_dir env destination (prep_staged p) w))
              | Inr s \<Rightarrow>
                  (let w1 = w\<lparr>iw_store := s,
                       iw_prepared := snd (remove_prepared_plugin_install (prep_id p) (iw_prepared w))\<rparr>
                   in (Inr r, if already_staged then snd (remove_dir_all env (prep_staged p) w1) else w1))))"

definition commit_install :: "install_env \<Rightarrow> string \<Rightarrow> string \<Rightarrow> (string, install_world, plugin_row) fallible" where
  "commit_install env i expected w =
     (case prepared_plugin_install i (iw_prepared w) of
        None \<Rightarrow> (Inl (''prepared plugin installation '' @ i @ '' was not found''), w)
      | Some p \<Rightarrow>
          (case commit_checks env p expected w of
             Inl e \<Rightarrow> (Inl e, w)
           | Inr (m, source, destination, already_staged) \<Rightarrow>
               (case mkdir_error env (butlast destination) of
                  Some e \<Rightarrow> (Inl (''cannot create plugin installation directory: '' @ e), w)
                | None \<Rightarrow>
                    sbind (if already_staged then sreturn ()
                           else smap_err (\<lambda>e. ''cannot commit plugin package: '' @ e)
                             (rename_dir env (prep_staged p) destination)) (\<lambda>_.
                      publish_package env p m source destination already_staged) w)))"

text \<open>A rejected package: its directory goes, if it is one of the staging directories, and then its row.\<close>

definition discard_prepared :: "install_env \<Rightarrow> prepared_row \<Rightarrow> (string, install_world, unit) fallible" where
  "discard_prepared env p =
     sbind (\<lambda>w. if prefix (install_data_dir env @ [''plugin-staging'']) (prep_staged p) \<and> iw_dirs w (prep_staged p) \<noteq> None
                then smap_err (\<lambda>_. ''cannot discard rejected plugin staging'') (remove_dir_all env (prep_staged p)) w
                else (Inr (), w)) (\<lambda>_ w.
       (Inr (), w\<lparr>iw_prepared := snd (remove_prepared_plugin_install (prep_id p) (iw_prepared w))\<rparr>))"

definition discard_prepared_id :: "install_env \<Rightarrow> string \<Rightarrow> (string, install_world, bool) fallible" where
  "discard_prepared_id env i w =
     (case prepared_plugin_install i (iw_prepared w) of
        None \<Rightarrow> (Inr False, w)
      | Some p \<Rightarrow> sbind (discard_prepared env p) (\<lambda>_. sreturn True) w)"

section \<open>What is installed was approved\<close>

lemma constant_time_eq_iff: "constant_time_eq l r \<longleftrightarrow> l = r"
proof -
  have eq: "of_nat (byte a) XOR of_nat (byte b) = (0 :: 8 word) \<longleftrightarrow> a = b" for a b
  proof -
    have "of_nat (byte a) XOR of_nat (byte b) = (0 :: 8 word) \<longleftrightarrow> (of_nat (byte a) :: 8 word) = of_nat (byte b)"
      by (auto simp: bit_eq_iff bit_xor_iff)
    also have "\<dots> \<longleftrightarrow> a = b"
      by (simp add: word_of_nat_eq_iff take_bit_nat_eq_self)
    finally show ?thesis .
  qed
  have fold: "foldl (\<lambda>d (a, b). d OR (of_nat (byte a) XOR of_nat (byte b))) (d :: 8 word) xs = 0
      \<longleftrightarrow> d = 0 \<and> (\<forall>(a, b) \<in> set xs. a = b)" for d xs
    by (induction xs arbitrary: d) (auto simp: eq or_eq_0_iff)
  show ?thesis unfolding constant_time_eq_def fold
    by (simp add: list_eq_iff_zip_eq)
qed

lemma commit_checks_Inr:
  assumes "commit_checks env p expected w = Inr (m, source, destination, already)"
  shows "prep_digest p = expected \<and> directory_digest env w (prep_staged p) = Inr expected
    \<and> plugin_manifest_id m = prep_plugin p \<and> plugin_semver m = prep_version p
    \<and> destination = plugin_destination env m p \<and> already = (iw_dirs w destination \<noteq> None)
    \<and> (already \<longrightarrow> directory_digest env w destination = Inr expected)
    \<and> is_ok (find_manifest_in w (prep_staged p))
    \<and> is_ok (prospective_catalog env w (prep_staged p) m)"
  using assms
  by (auto simp: commit_checks_def rbind_Inr require_Inr constant_time_eq_iff Let_def is_ok_def
      validate_prospective_catalog_def split: if_splits sum.splits)


lemma upsert_plugin_rows:
  assumes "upsert_plugin_install_with_source valid_source r source s = Inr s'"
  shows "r \<in> set (plugin_rows s')"
    and "plugin_id q \<noteq> plugin_id r \<Longrightarrow> q \<in> set (plugin_rows s') \<longleftrightarrow> q \<in> set (plugin_rows s)"
    and "plugin_id r \<in> plugin_id ` set (plugin_rows s) \<Longrightarrow> \<not> list_ex (\<lambda>x. pin_plugin x = plugin_id r) (pin_rows s)"
proof -
  have rows: "plugin_rows s' = plugin_rows (publish_plugin r s)"
    and pins: "plugin_id r \<in> plugin_id ` set (plugin_rows s) \<Longrightarrow> \<not> list_ex (\<lambda>x. pin_plugin x = plugin_id r) (pin_rows s)"
    using assms by (auto simp: upsert_plugin_install_with_source_def rbind_Inr Let_def split: if_splits option.splits)
  show "r \<in> set (plugin_rows s')" unfolding rows by (auto simp: publish_plugin_def update_rows_def image_iff)
  show "q \<in> set (plugin_rows s') \<longleftrightarrow> q \<in> set (plugin_rows s)" if "plugin_id q \<noteq> plugin_id r"
    using that unfolding rows by (auto simp: publish_plugin_def update_rows_def image_iff)
  show "\<not> list_ex (\<lambda>x. pin_plugin x = plugin_id r) (pin_rows s)" if "plugin_id r \<in> plugin_id ` set (plugin_rows s)"
    using that by (rule pins)
qed

text \<open>The catalog that would result has no ambiguous node type.\<close>

lemma register_manifest_ok:
  assumes "registry_ok r" and "register_manifest sha256 parse_definition view m r = Inr r'"
  shows "registry_ok r'"
proof -
  from assms(2) obtain digest additions decls where a: "load_additions parse_definition m digest r view 1 decls [] = Inr additions"
    and r': "r' = fold insert_node additions r"
    by (auto simp: register_manifest_def Let_def rbind_Inr split: if_splits)
  from load_additions_Inr [OF a] have "distinct (map node_type_of additions)"
    "list_all (\<lambda>n. acceptable_type (node_type_of n) \<and> \<not> has_key r (node_type_of n)) additions"
    by (auto simp: list_all_iff)
  from insert_nodes [OF this assms(1)] show ?thesis by (simp add: r')
qed

lemma prospective_catalog_ok:
  assumes "prospective_catalog env w dir m = Inr r"
  shows "registry_ok r"
proof -
  have path: "registry_ok a \<Longrightarrow> register_manifest_path env dirs p a = Inr b \<Longrightarrow> registry_ok b" for dirs p a b
    by (auto simp: register_manifest_path_def Let_def rbind_Inr intro: register_manifest_ok)
  have installed: "registry_ok a \<Longrightarrow> register_installed env dirs ps a = Inr b \<Longrightarrow> registry_ok b" for dirs ps a b
    by (induction ps arbitrary: a) (auto simp: rbind_Inr split: sum.splits dest: path)
  have "registry_ok []" by (simp add: registry_ok_def keys_def)
  moreover from assms obtain a ps where "register_installed env (iw_dirs w) ps [] = Inr a"
    and "(case register_manifest (package_sha256 env) (decode_definition env) (\<lambda>_. iw_dirs w dir) m a of
             Inl e \<Rightarrow> Inl (''prospective plugin catalog is not valid: '' @ e) | Inr r' \<Rightarrow> Inr r') = Inr r"
    by (auto simp: prospective_catalog_def Let_def rbind_Inr split: if_splits)
  ultimately show ?thesis using installed by (auto split: sum.splits) (metis register_manifest_ok)
qed

lemma publish_package_Inr:
  assumes "publish_package env p m source dir already w = (Inr r, w')"
    and "directory_digest env w dir = Inr (prep_digest p)" and "dir \<noteq> prep_staged p"
  shows "plugin_id r = plugin_manifest_id m" "plugin_version r = plugin_semver m" "plugin_digest r = prep_digest p"
    "\<exists>name. plugin_path r = display_path (dir @ [name])" "directory_digest env w' dir = Inr (prep_digest p)"
    "prepared_plugin_install (prep_id p) (iw_prepared w') = None"
    "upsert_plugin_install_with_source (validate_plugin_source (decode_url env)) r (Some source) (iw_store w)
       = Inr (iw_store w')"
proof -
  from assms(1) obtain name s where
    r: "r = \<lparr>plugin_id = plugin_manifest_id m, plugin_name = manifest_name m, plugin_version = plugin_semver m,
      plugin_path = display_path (dir @ [name]), plugin_digest = prep_digest p, plugin_enabled = True\<rparr>"
    and up: "upsert_plugin_install_with_source (validate_plugin_source (decode_url env)) r (Some source) (iw_store w) = Inr s"
    and w': "w' = (let w1 = w\<lparr>iw_store := s,
        iw_prepared := snd (remove_prepared_plugin_install (prep_id p) (iw_prepared w))\<rparr>
      in if already then snd (remove_dir_all env (prep_staged p) w1) else w1)"
    unfolding publish_package_def Let_def by (auto split: sum.splits)
  have same: "iw_store w' = s" "iw_prepared w' = filter (\<lambda>q. prep_id q \<noteq> prep_id p) (iw_prepared w)"
    "iw_dirs w' dir = iw_dirs w dir"
    using assms(3)
    by (auto simp: w' Let_def remove_dir_all_def remove_prepared_plugin_install_def split: option.splits)
  show "plugin_id r = plugin_manifest_id m" "plugin_version r = plugin_semver m" "plugin_digest r = prep_digest p"
    "\<exists>name. plugin_path r = display_path (dir @ [name])" by (auto simp: r)
  show "directory_digest env w' dir = Inr (prep_digest p)" using assms(2) same(3) by (simp add: directory_digest_def)
  show "prepared_plugin_install (prep_id p) (iw_prepared w') = None"
    by (simp add: same(2) prepared_plugin_install_def find_None_iff)
  show "upsert_plugin_install_with_source (validate_plugin_source (decode_url env)) r (Some source) (iw_store w)
       = Inr (iw_store w')" using up same(1) by simp
qed

lemma publish_package_Inl:
  assumes "publish_package env p m source dir already w = (Inl e, w')"
  shows "iw_store w' = iw_store w" "iw_prepared w' = iw_prepared w"
    "already \<Longrightarrow> iw_dirs w' = iw_dirs w"
    "\<lbrakk>\<not> already; is_ok (find_manifest_in w dir); rename_error env dir (prep_staged p) = None\<rbrakk>
       \<Longrightarrow> iw_dirs w' = (iw_dirs w)(dir := None, prep_staged p := iw_dirs w dir)"
  using assms
  by (auto simp: publish_package_def Let_def rename_dir_def move_dir_def is_ok_def
      split: sum.splits option.splits if_splits)

definition staged_in_place :: "install_env \<Rightarrow> install_world \<Rightarrow> bool" where
  "staged_in_place env w \<longleftrightarrow>
     list_all (\<lambda>p. prefix (install_data_dir env @ [''plugin-staging'']) (prep_staged p)) (iw_prepared w)"

lemma commit_install_cases:
  obtains (refused) e where "commit_install env i expected w = (Inl e, w)"
  | (published) p m source dir already where
      "prepared_plugin_install i (iw_prepared w) = Some p"
      "commit_checks env p expected w = Inr (m, source, dir, already)"
      "commit_install env i expected w = publish_package env p m source dir already
         (if already then w else move_dir (prep_staged p) dir w)"
proof (cases "prepared_plugin_install i (iw_prepared w)")
  case None
  then show ?thesis by (intro refused) (simp add: commit_install_def)
next
  case (Some p)
  show ?thesis
  proof (cases "commit_checks env p expected w")
    case (Inl e)
    with Some show ?thesis by (intro refused) (simp add: commit_install_def)
  next
    case (Inr x)
    obtain m source dir already where x: "x = (m, source, dir, already)" by (cases x) auto
    show ?thesis
    proof (cases "mkdir_error env (butlast dir) = None \<and> (already \<or> rename_error env (prep_staged p) dir = None)")
      case True
      with Some Inr x show ?thesis
        by (intro published [of p m source dir already])
          (auto simp: commit_install_def sbind_def sreturn_def smap_err_def rename_dir_def)
    next
      case False
      with Some Inr x have "\<exists>e. commit_install env i expected w = (Inl e, w)"
        by (auto simp: commit_install_def sbind_def smap_err_def rename_dir_def split: option.splits)
      with refused show ?thesis by blast
    qed
  qed
qed

text \<open>The world in which the record is published: the package is at its destination, which is not in staging.\<close>

lemma published_world:
  assumes "staged_in_place env w" and "prepared_plugin_install i (iw_prepared w) = Some p"
    and "commit_checks env p expected w = Inr (m, source, dir, already)"
    and "w1 = (if already then w else move_dir (prep_staged p) dir w)"
  shows "dir \<noteq> prep_staged p" "prep_id p = i" "iw_store w1 = iw_store w" "iw_prepared w1 = iw_prepared w"
    "directory_digest env w1 dir = Inr (prep_digest p)" "\<not> already \<Longrightarrow> is_ok (find_manifest_in w1 dir)"
proof -
  note checks = commit_checks_Inr [OF assms(3)]
  have p: "p \<in> set (iw_prepared w)" "prep_id p = i"
    using assms(2) by (auto simp: prepared_plugin_install_def find_Some_iff)
  show apart: "dir \<noteq> prep_staged p"
    using assms(1) p(1) checks by (auto simp: staged_in_place_def list_all_iff plugin_destination_def prefix_def)
  show "prep_id p = i" by (rule p(2))
  show "iw_store w1 = iw_store w" "iw_prepared w1 = iw_prepared w"
    "directory_digest env w1 dir = Inr (prep_digest p)" "\<not> already \<Longrightarrow> is_ok (find_manifest_in w1 dir)"
    using checks apart by (auto simp: assms(4) move_dir_def directory_digest_def find_manifest_in_def)
qed

lemma failed_commit_restores:
  assumes "staged_in_place env w" and "commit_install env i expected w = (Inl e, w')"
  shows "iw_store w' = iw_store w \<and> iw_prepared w' = iw_prepared w
    \<and> ((\<forall>a b. rename_error env a b = None) \<longrightarrow> iw_dirs w' = iw_dirs w)"
proof (cases rule: commit_install_cases [of env i expected w])
  case (refused e')
  with assms(2) show ?thesis by simp
next
  case (published p m source dir already)
  define w1 where "w1 = (if already then w else move_dir (prep_staged p) dir w)"
  note w1 = published_world [OF assms(1) published(1,2) w1_def]
  have f: "publish_package env p m source dir already w1 = (Inl e, w')"
    using published(3) assms(2) by (simp add: w1_def)
  have "iw_dirs w' = iw_dirs w" if "\<forall>a b. rename_error env a b = None"
  proof (cases already)
    case True
    with publish_package_Inl(3) [OF f] show ?thesis by (simp add: w1_def)
  next
    case False
    with commit_checks_Inr [OF published(2)] have "iw_dirs w dir = None" by auto
    with publish_package_Inl(4) [OF f False w1(6) [OF False]] that False w1(1) show ?thesis
      by (auto simp: w1_def move_dir_def fun_eq_iff)
  qed
  with publish_package_Inl(1,2) [OF f] w1(3,4) show ?thesis by simp
qed


section \<open>Witness\<close>

definition raw_sample :: raw_plugin_manifest where
  "raw_sample = \<lparr>manifest_version = ''1.0'', plugin_manifest_id = ''org.example'', manifest_name = ''Example'',
     plugin_semver = ''0.1.0'', plugin_protocol = ''>=1.0.0 <2.0.0'',
     manifest_runtime = \<lparr>runtime_kind = ''process'', runtime_command = ''run'', runtime_args = []\<rparr>,
     manifest_author = None, manifest_description = None, manifest_license = None, manifest_model = None,
     manifest_requires = None,
     manifest_contributes = Some \<lparr>contributed_nodes = [''hello.json''], contributed_triggers = [],
       contributed_providers = [], contributed_services = []\<rparr>,
     manifest_permissions = None\<rparr>"

definition sample_env :: install_env where
  "sample_env = \<lparr>package_sha256 = (\<lambda>_. replicate 32 CHR 0x07), decode_manifest = (\<lambda>_. Inr raw_sample),
     decode_definition = (\<lambda>_. Inr sample_definition), decode_url = (\<lambda>_. None), install_data_dir = [''data''],
     mkdir_error = (\<lambda>_. None), rename_error = (\<lambda>_ _. None), remove_error = (\<lambda>_. None)\<rparr>"

definition sample_digest :: string where
  "sample_digest = ''sha256:'' @ hex_lower (replicate 32 CHR 0x07)"

definition sample_world :: install_world where
  "sample_world = \<lparr>iw_store = empty_store,
     iw_prepared = [\<lparr>prep_id = ''p1'', prep_plugin = ''org.example'', prep_name = ''Example'', prep_version = ''0.1.0'',
       prep_digest = sample_digest, prep_staged = [''data'', ''plugin-staging'', ''p1''],
       prep_lock = JObject [(''requestedSource'', JString ''npm:example'')]\<rparr>],
     iw_dirs = (\<lambda>d. if d = [''data'', ''plugin-staging'', ''p1'']
       then Some (Directory [(''kakune.plugin.json'', Regular_File ''{}''), (''hello.json'', Regular_File ''{}'')])
       else None)\<rparr>"


end
