(* ===== verification/Spec2Isabelle.thy ===== *)
theory Spec2Isabelle
  imports Run_Settles Artifact_Store Auth Scheduler_Props Workflow_Revisions Core_Host Control Service_Safety Service_Helper Management Plugin_Install
begin

text \<open>
  \<^bold>\<open>Kakune Core\<close> runs workflows: documents whose nodes read and write files, call HTTP and AI services,
  run processes, branch, loop and wait.  A document is validated and compiled to a plan; a run is admitted to a
  SQLite store, waits for a slot, is interpreted node by node and finished; triggers start runs; devices are paired
  and requests authorized by tokens; and the process that does all this owns its data directory, can be asked to
  stop, and drains its work first.  This development models the code of \<open>src/\<close> (Rust) in that order, one
  theory per component, and proves what each component promises, alone and together with those it relies on.

  \<^bold>\<open>Vocabulary.\<close>  \<open>Prelude\<close>: results of fallible code (\<open>Inl\<close> is the error, as the message or the error type of
  the source), early returns (\<open>rbind\<close>, \<open>require\<close>, \<open>all_ok\<close>, \<open>for_each\<close>), strings as UTF-8 bytes, ordered maps as
  association lists.  \<open>Json\<close>: \<open>serde_json::Value\<close>, its order of keys, and IEEE binary64 arithmetic with rounding
  to nearest even.

  \<^bold>\<open>Documents and plans.\<close>  \<open>Workflow\<close> (\<open>workflow.rs\<close>): the document types and every validation, with the messages
  of the code.  \<open>Workflow_Valid\<close>: the depth-first search decides acyclicity; every scope of an accepted document is
  well formed and nested at most 32 deep.  \<open>Planner\<close> and \<open>Analysis\<close> (\<open>planner.rs\<close>, \<open>diagnostic.rs\<close>): the node
  catalog, the graph searches, the diagnostics of a scope, compilation and the plan view; references of a compiled
  document resolve and its nodes are reachable.

  \<^bold>\<open>Running.\<close>  \<open>Expr\<close> (\<open>runtime.rs\<close>): bindings, the expression language, durations, workspace paths.  \<open>Graph_Run\<close>
  (\<open>execute_graph\<close>): the scheduler of one scope over a \<open>host\<close> that runs a batch of nodes.  \<open>File_Nodes\<close>: the file
  nodes over a file system given by its operations.  \<open>Runtime\<close> (\<open>execute_node\<close>, \<open>execute_nodes\<close>): retries, switch,
  foreach, loop, delay, nested scopes and outputs, over a \<open>node_host\<close> whose operations are the calls that leave the
  interpreter.  \<open>Run_Frame\<close>: locales for a relation between worlds that every operation of a host keeps; the
  interpreter then keeps it too.  \<open>Execution_Run\<close> (\<open>prepare_*\<close>, \<open>execute_prepared_workflow_*\<close>): from a source to an
  admitted execution, to the claim of a slot, to the end.  \<open>Run_Settles\<close>: an admitted execution settles, whatever
  others do to the store meanwhile.

  \<^bold>\<open>The store.\<close>  \<open>Execution_Store\<close> (\<open>store.rs\<close>): tables as lists of rows, transactions as functions to an error or a
  new store: admission, claims, ends, cancellation, recovery, retention, budgets, checkpoints, events, plugins,
  workflows and artifacts.  \<open>Store_Life\<close>: the commands of the store in any order, and the locale of its invariants.
  \<open>Plugin_Pins\<close>, \<open>Store_Props\<close>, \<open>Workflow_Revisions\<close>, \<open>Artifact_Store\<close>: what holds over the whole life of a store:
  consistency of the tables, finality of ended executions, request keys, limits, recovery, pins, revisions, and
  retention of artifacts.  \<open>Auth\<close>: tokens, scopes and the pairing protocol, over histories of commands.

  \<^bold>\<open>Triggers.\<close>  \<open>Scheduler\<close> and \<open>Scheduler_Props\<close> (\<open>scheduler.rs\<close>): due dates and misfire policies, the scan of
  the enabled workflows, file-system events with their queue and debouncing.

  \<^bold>\<open>The process.\<close>  \<open>Lifecycle\<close> (\<open>lifecycle/mod.rs\<close>, \<open>lifecycle/execution.rs\<close>): deadlines, the coordinator of accepted
  work, the phases of a Core, and \<open>core_step\<close>, the interleaving of the atomic steps of all threads; its invariants
  are interpretations of one locale.  \<open>Ownership\<close> (\<open>lifecycle/ownership.rs\<close>): the record that says which process owns
  a data directory.  \<open>Control\<close> (\<open>lifecycle/control.rs\<close>): the authenticated channel on which a Core is asked to stop,
  both ends.  \<open>Core_Host\<close> (\<open>lifecycle/host.rs\<close>): publishing the phase, failed starts, and shutdown.

  \<^bold>\<open>The service.\<close>  \<open>State_Run\<close>: fallible code that threads a state, relations between states that every step keeps,
  and the locale that lifts them to programs.  \<open>Service_Journal\<close> (\<open>lifecycle/service/mod.rs\<close>,
  \<open>lifecycle/service/helper.rs\<close>): definitions of a native service, observations, and the append-only journal of attempts
  on disk, whose writes may stop at any byte.  \<open>Service_Control\<close>: install, start, stop, uninstall and status over a
  \<open>manager\<close> whose operations are the native service manager, helper processes, locks, disk and clock.
  \<open>Service_Safety\<close>: no change without an authorization on file, helpers that are not known to have ended block every
  change, success is observed, waiting ends.  \<open>Service_Native\<close> and \<open>Service_Plist\<close>: the texts that Core registers with
  Windows, systemd and launchd (\<open>render_service_definition\<close>) and the readers that recognise them
  (\<open>lifecycle/service/windows.rs\<close>, \<open>linux.rs\<close>, \<open>macos.rs\<close>), which read back what was written and nothing else.
  \<open>Service_Linux\<close>: the systemd adapter, which changes no unit file but its own and recognises what it published.
  \<open>Service_Helper\<close> (\<open>lifecycle/service/helper.rs\<close>): the helper process, which makes a step only under an authorization
  on file for that very process and target.

  \<^bold>\<open>The HTTP API\<close> (\<open>api.rs\<close>, \<open>management.rs\<close>).  \<open>Api_Routes\<close>: the hosts a request may name, with IP addresses read as
  the standard library reads them, the table of routes and the scope each needs; a scope computed from strings is the
  one of the resource whatever the identifiers in the path.  \<open>Api_Gate\<close>: errors with their redacted messages, the rate
  limit, and the layers of the router in their order, behind which alone a handler runs.  \<open>Api_Pages\<close>: cursors and the
  lists in pages of workflows, executions and integrations, over one contract (\<open>paged_list\<close>): following the cursors
  shows everything once.  \<open>Management\<close>: selecting, importing, enabling and submitting workflows, on the store of
  \<open>Execution_Store\<close> and the admission of \<open>Execution_Run\<close>.

  \<^bold>\<open>Plugins.\<close>  \<open>Plugin_Package\<close> (\<open>src/plugin_install.rs\<close>): the sources of packages, directory trees as
  \<open>fs::read_dir\<close> shows them, copying and extracting into staging as a log of what is written, and the digest of a package;
  its lemmas bound what staging may write and show that the digest determines the files, with the names for which it
  does not.  \<open>Npm_Integrity\<close>: the base64 decoder on its buffer of 32 bits and the integrity check.  \<open>Plugin_Manifest\<close>
  (\<open>src/plugin_process.rs\<close>): manifests, node definitions and the registry, with a package that may change between two
  looks.  \<open>Plugin_Install\<close>: the commit and the discarding of a prepared installation, on the store and the directories of
  packages; the files are taken not to change during the commit itself.

  \<^bold>\<open>Parameters.\<close>  Code that is not in \<open>src/\<close> is an argument: the decoder of YAML and of stored policies, SHA-256 and
  HMAC, random values, clocks (the times a piece of code reads are its arguments), the calendar, cron and time zone
  functions, the file system, the watcher of file-system events, the nodes that leave the process (\<open>leaf_run\<close>), the
  JSON form of records on disk and on the wire, and the operating system's answers.  What is assumed of them is a
  hypothesis of the theorem that needs it.

  \<^bold>\<open>Bounds.\<close>  Nested scopes are interpreted to a given depth; 33 is enough for every compiled document
  (\<open>compiled_depth_enough\<close>), and the run uses that depth.  The loops that wait (for a slot, for a lock, for
  work to drain) run over the list of moments at which the thread wakes up; a loop that is still waiting at the end of
  its list has no result.  The loops that observe the service get as many rounds as there are nanoseconds before their
  deadline, and one more, which is enough (\<open>waiting_rounds_suffice\<close>).  All other loops are total functions.

  \<^bold>\<open>Not modelled.\<close>  Decoding of YAML and of requests, HTTP, process, AI, MCP and plugin nodes, the download of
  plugins and the processes that run them, failures of SQLite itself, hashes and columns that are only displayed, secrets and provider
  profiles (the profiles are read by a run, their table is not modelled), access control lists of files, launching
  processes, the native calls of the launchd and Windows adapters, the handlers of the HTTP API that only translate between
  requests and the operations above, the event stream, configuration and the command line: they are input and output
  around the components above.
\<close>

section \<open>Planner and scheduler\<close>

definition no_self_reference :: "workflow_node list \<Rightarrow> bool" where
  "no_self_reference ns = list_all (\<lambda>n. node_id n \<notin> set (node_dependencies n)) ns"

lemma reference_ok_ancestor:
  assumes "reference_ok u names n name from" and "reference_node from = Some i"
    and "list_all (\<lambda>n. valid_id (node_id n)) (nodes u)"
  shows "(i, node_id n) \<in> (control_edges (nodes u))\<^sup>*"
proof -
  from assms(2) have no_dollar: "\<not> starts_with from ''$''"
    by (auto simp: reference_node_def split: if_splits)
  with assms(1) obtain p out where p: "from = node_id p @ ''.'' @ out" "p \<in> set (nodes u)"
    and reach: "(node_id p, node_id n) \<in> (control_edges (nodes u))\<^sup>*"
    by (auto simp: reference_ok_def)
  from assms(3) p(2) have "valid_id (node_id p)" by (simp add: list_all_iff)
  then have "CHR ''.'' \<notin> set (node_id p)"
    by (auto simp: valid_id_def list_all_iff identifier_char_def is_ascii_lowercase_def
        is_ascii_digit_def)
  with p(1) have "split_once CHR ''.'' from = Some (node_id p, out)"
    by (simp add: split_once_first)
  with assms(2) no_dollar reach show ?thesis by (simp add: reference_node_def)
qed

lemma compile_dependencies:
  assumes "compile read plugin source = Inr c" and "planned_scope (ir c) names u"
    and "n \<in> set (nodes u)" and "i \<in> set (node_dependencies n)"
  shows "(i, node_id n) \<in> (control_edges (nodes u))\<^sup>*"
proof -
  from assms(4) obtain name b
    where b: "(name, b) \<in> set (node_inputs n)" "i \<in> set (binding_dependencies b)"
    by (auto simp: node_dependencies_def in_vals)
  from dependency_referenced [OF b] obtain "from" where
    ref: "(name, from) \<in> node_references n" "reference_node from = Some i" by blast
  have "list_all (\<lambda>n. valid_id (node_id n)) (nodes u)"
    using compile_scope [OF assms(1,2)] by (simp add: well_formed_scope_def top_scope_def)
  with reference_ok_ancestor [OF compile_reference_ok [OF assms(1-3) ref(1)] ref(2)]
  show ?thesis by blast
qed

section \<open>Examples\<close>

text \<open>A document that picks a value on one branch only, and uses it after the branches meet.\<close>

definition if_node :: workflow_node where
  "if_node = WorkflowNode ''check'' ''kakune.flow.if@1'' []
     [(''condition'', Literal (JBool False))]
     [(''false'', One ''end''), (''true'', One ''pick'')] None [] None"

definition pick_node :: workflow_node where
  "pick_node = WorkflowNode ''pick'' ''kakune.flow.pass@1'' []
     [(''value'', Literal (JString ''x''))] [(''success'', One ''end'')] None [] None"

definition end_node :: workflow_node where
  "end_node = WorkflowNode ''end'' ''kakune.flow.merge@1'' [] [(''value'', From ''pick.value'')]
     [] None [] None"

definition branch_note :: workflow_document where
  "branch_note = document_of ''check'' [if_node, pick_node, end_node]"

definition top_context :: run_context where
  "top_context =
     \<lparr>ctx_control = idle_control, ctx_scope = [], ctx_sensitive = False, ctx_max_parallel = 8, ctx_max_result = None\<rparr>"

section \<open>Properties\<close>

text \<open>C1: a compiled document runs without getting stuck: in each of its scopes, unless a node asks
  for its own output, the scheduler never ends for want of a dependency, whatever the nodes do.\<close>

theorem compiled_never_stuck:
  assumes "compile read plugin source = Inr c" and "planned_scope (ir c) names u"
    and "no_self_reference (nodes u)"
  shows "fst (execute_graph h max_parallel (nodes u) (entry u) locals w) \<noteq> Inl NoProgress"
proof (rule execute_graph_not_stuck)
  show "acyclic (control_edges (nodes u))" and "distinct (map node_id (nodes u))"
    using compile_scope [OF assms(1,2)] by (auto simp: well_formed_scope_def top_scope_def)
  show "\<forall>n \<in> set (nodes u). set (node_dependencies n)
      \<subseteq> {a. (a, node_id n) \<in> (control_edges (nodes u))\<^sup>+}"
    using compile_dependencies [OF assms(1,2)] assms(3)
    by (auto simp: no_self_reference_def list_all_iff rtrancl_eq_or_trancl)
qed

theorem compiled_never_stuck_witness:
  "fst (execute_graph quiet_host 8 (nodes copy_note) (entry copy_note) [] ()) \<noteq> Inl NoProgress"
proof -
  have "no_self_reference (nodes copy_note)" by code_simp
  with compiled_never_stuck [OF copy_note_compiles planned_top] show ?thesis
    by (simp add: compiled_def)
qed

text \<open>A node bound to its own output compiles, since control reaches it from itself, and then no
  run of it gets anywhere.\<close>

theorem self_reference_stuck:
  assumes "fst (host_check h w) = Inr ()"
  shows "compile (\<lambda>_. Inr self_note) (\<lambda>_. False) [] = Inr (compiled self_note)
    \<and> fst (execute_graph h k (nodes self_note) (entry self_note) locals w) = Inl NoProgress"
proof -
  have n: "nodes self_note = [self_node]" "entry self_note = ''pass''"
    by (simp_all add: self_note_def document_of_def)
  have "close_loop [self_node] [''pass''] [] = []" "ready_nodes [self_node] [''pass''] [] = []"
    by code_simp+
  with assms self_note_compiles show ?thesis
    unfolding n
    by (cases "host_check h w")
      (simp add: execute_graph_def initial_state_def graph_loop.simps [of h "[self_node]"]
        graph_round_def Let_def)
qed

theorem self_reference_stuck_witness:
  "fst (execute_graph quiet_host 8 (nodes self_note) (entry self_note) [] ()) = Inl NoProgress"
  using self_reference_stuck [of quiet_host "()"] by (simp add: quiet_host_def)

text \<open>An output of one branch may be bound after the branches meet: the planner only asks that
  control can reach the consumer, and the run fails when the other branch is taken.\<close>

theorem untaken_branch_fails:
  "compile (\<lambda>_. Inr branch_note) (\<lambda>_. False) [] = Inr (compiled branch_note)
   \<and> fst (execute_graph (host_of quiet_node_host top_context (\<lambda>_ _ _. sfail [])) 8
        (nodes branch_note) (entry branch_note) [] ())
     = Inl (run_error.Failed ''binding source pick.value is not available'')"
proof
  show "compile (\<lambda>_. Inr branch_note) (\<lambda>_. False) [] = Inr (compiled branch_note)"
  proof (rule compile_compiled)
    have "own_scope_diagnostics (\<lambda>_. False) branch_note [] [] = []" by code_simp
    then show "validate_semantics (\<lambda>_. False) branch_note = []"
      by (intro flat_semantics)
        (simp_all add: branch_note_def document_of_def if_node_def pick_node_def end_node_def
          subgraphs_def vals_def)
    show "validate_with_plugins is_builtin_node_type (\<lambda>_. False) branch_note = Inr ()"
      by code_simp
  qed
  show "fst (execute_graph (host_of quiet_node_host top_context (\<lambda>_ _ _. sfail [])) 8
        (nodes branch_note) (entry branch_note) [] ())
     = Inl (run_error.Failed ''binding source pick.value is not available'')"
    by code_simp
qed



end
